(* ===== verification/Prelude.thy ===== *)
theory Prelude
  imports "HOL-Library.Word" "HOL-Library.List_Lexorder" "HOL-Library.Char_ord"
begin

text \<open>
  What the component theories share: the Rust result type and its combinators, strings
  as lists of UTF-8 bytes, fixed-width integers with their checked operations, big-endian and
  decimal renderings, and the ordered map that models \<^verbatim>\<open>BTreeMap\<close>.  Nothing here is about
  rustsync itself.
\<close>

section \<open>Collections of rules\<close>

named_theorems result_simps \<open>unfolding of the result combinators\<close>
named_theorems bytes_simps \<open>lengths and injectivity of the byte renderings\<close>
named_theorems map_intros \<open>well-formedness of ordered maps\<close>


section \<open>Results\<close>

datatype ('a, 'e) result = Ok 'a | Err 'e

text \<open>The question mark operator, and the combinators of \<^verbatim>\<open>Option\<close> and \<^verbatim>\<open>Result\<close>.\<close>

fun and_then :: "('a, 'e) result \<Rightarrow> ('a \<Rightarrow> ('b, 'e) result) \<Rightarrow> ('b, 'e) result" where
  "and_then (Ok x) f = f x"
| "and_then (Err e) f = Err e"

fun map_err :: "('a, 'e) result \<Rightarrow> ('e \<Rightarrow> 'f) \<Rightarrow> ('a, 'f) result" where
  "map_err (Ok x) f = Ok x"
| "map_err (Err e) f = Err (f e)"

fun ok_or :: "'a option \<Rightarrow> 'e \<Rightarrow> ('a, 'e) result" where
  "ok_or (Some x) e = Ok x"
| "ok_or None e = Err e"

definition ensure :: "bool \<Rightarrow> 'e \<Rightarrow> (unit, 'e) result" where
  "ensure b e = (if b then Ok () else Err e)"

fun is_ok :: "('a, 'e) result \<Rightarrow> bool" where
  "is_ok (Ok _) = True"
| "is_ok (Err _) = False"

lemma and_then_Ok_iff [simp, result_simps]:
  "and_then r f = Ok y \<longleftrightarrow> (\<exists>x. r = Ok x \<and> f x = Ok y)"
  by (cases r) auto

lemma and_then_Err_iff [result_simps]:
  "and_then r f = Err e \<longleftrightarrow> r = Err e \<or> (\<exists>x. r = Ok x \<and> f x = Err e)"
  by (cases r) auto

lemma ok_or_Ok_iff [simp, result_simps]: "ok_or x e = Ok y \<longleftrightarrow> x = Some y"
  by (cases x) auto

lemma ok_or_Err_iff [simp, result_simps]: "ok_or x e = Err e' \<longleftrightarrow> x = None \<and> e = e'"
  by (cases x) auto

lemma map_err_Ok_iff [simp, result_simps]: "map_err r f = Ok y \<longleftrightarrow> r = Ok y"
  by (cases r) auto

lemma map_err_Err_iff [simp, result_simps]: "map_err r f = Err e \<longleftrightarrow> (\<exists>e'. r = Err e' \<and> e = f e')"
  by (cases r) auto

lemma ensure_Ok_iff [simp, result_simps]: "ensure b e = Ok u \<longleftrightarrow> b"
  by (auto simp: ensure_def)

lemma ensure_Err_iff [simp, result_simps]: "ensure b e = Err e' \<longleftrightarrow> \<not> b \<and> e = e'"
  by (auto simp: ensure_def)

lemma ensure_eval [simp, code]: "ensure True e = Ok ()" "ensure False e = Err e"
  by (simp_all add: ensure_def)

lemma is_ok_iff: "is_ok r \<longleftrightarrow> (\<exists>x. r = Ok x)"
  by (cases r) auto

lemma not_is_ok_iff: "\<not> is_ok r \<longleftrightarrow> (\<exists>e. r = Err e)"
  by (cases r) auto

text \<open>A loop that stops at the first error, over the elements of a list.\<close>

fun try_for :: "('a \<Rightarrow> (unit, 'e) result) \<Rightarrow> 'a list \<Rightarrow> (unit, 'e) result" where
  "try_for f [] = Ok ()"
| "try_for f (x # xs) = and_then (f x) (\<lambda>_. try_for f xs)"

lemma try_for_Ok_iff [simp]: "try_for f xs = Ok u \<longleftrightarrow> (\<forall>x \<in> set xs. f x = Ok ())"
  by (induction xs) auto

fun try_fold :: "('s \<Rightarrow> 'a \<Rightarrow> ('s, 'e) result) \<Rightarrow> 's \<Rightarrow> 'a list \<Rightarrow> ('s, 'e) result" where
  "try_fold f s [] = Ok s"
| "try_fold f s (x # xs) = and_then (f s x) (\<lambda>s'. try_fold f s' xs)"

lemma try_fold_append [simp]:
  "try_fold f s (xs @ ys) = and_then (try_fold f s xs) (\<lambda>s'. try_fold f s' ys)"
proof (induction xs arbitrary: s)
  case (Cons x xs)
  then show ?case by (cases "f s x") simp_all
qed simp

lemma try_fold_invariant:
  assumes "try_fold f s xs = Ok s'" and "P s"
    and "\<And>s x s'. P s \<Longrightarrow> f s x = Ok s' \<Longrightarrow> P s'"
  shows "P s'"
  using assms(1,2)
proof (induction xs arbitrary: s)
  case (Cons x xs)
  then obtain t where t: "f s x = Ok t" "try_fold f t xs = Ok s'" by auto
  have "P t" using assms(3)[OF Cons.prems(2) t(1)] .
  show ?case using Cons.IH[OF t(2) \<open>P t\<close>] .
qed simp


section \<open>Bytes, integers and strings\<close>

type_synonym byte = "8 word"
type_synonym bytes = "byte list"
type_synonym u64 = "64 word"

text \<open>A string is the list of its UTF-8 bytes: the length, the order and the prefix tests of
  Rust strings are those of the byte sequence.\<close>

definition str_bytes :: "string \<Rightarrow> bytes" where
  "str_bytes s = map of_char s"

definition bytes_str :: "bytes \<Rightarrow> string" where
  "bytes_str bs = map (\<lambda>b. char_of (unat b)) bs"

definition starts_with :: "'a list \<Rightarrow> 'a list \<Rightarrow> bool" where
  "starts_with s p \<longleftrightarrow> take (length p) s = p"

lemma unat_less_pow: "unat (w :: 'a::len word) < 2 ^ LENGTH('a)"
  by (rule unsigned_less)

lemma of_char_byte: "(of_char c :: byte) = of_nat (of_char c)"
  by (cases c) (simp add: of_char_def)

lemma unat_of_char [simp]: "unat (of_char c :: byte) = of_char c"
proof -
  have "(of_char c :: nat) < 256" by (metis of_char_mod_256 mod_less_divisor zero_less_numeral)
  then show ?thesis by (simp add: of_char_byte unat_of_nat take_bit_nat_eq_self)
qed

lemma length_str_bytes [simp, bytes_simps]: "length (str_bytes s) = length s"
  by (simp add: str_bytes_def)

lemma bytes_str_bytes [simp]: "bytes_str (str_bytes s) = s"
  by (simp add: bytes_str_def str_bytes_def o_def)

lemma str_bytes_inj [simp, bytes_simps]: "str_bytes s = str_bytes t \<longleftrightarrow> s = t"
  by (metis bytes_str_bytes)


definition strip_prefix :: "'a list \<Rightarrow> 'a list \<Rightarrow> 'a list option" where
  "strip_prefix s p = (if starts_with s p then Some (drop (length p) s) else None)"

lemma starts_with_append [simp]: "starts_with (p @ s) p"
  by (simp add: starts_with_def)

lemma starts_with_iff: "starts_with s p \<longleftrightarrow> (\<exists>r. s = p @ r)"
  by (metis append_take_drop_id starts_with_append starts_with_def)

lemma strip_prefix_Some_iff [simp]: "strip_prefix s p = Some r \<longleftrightarrow> s = p @ r"
  by (auto simp: strip_prefix_def starts_with_iff)

lemma strip_prefix_append [simp]: "strip_prefix (p @ r) p = Some r"
  by simp

lemma strip_prefix_Cons [simp]:
  "strip_prefix (x # xs) (y # ys) = (if x = y then strip_prefix xs ys else None)"
  "strip_prefix xs [] = Some xs" "strip_prefix [] (y # ys) = None"
  by (auto simp: strip_prefix_def starts_with_def)

text \<open>Big-endian renderings (\<^verbatim>\<open>to_be_bytes\<close>) and their inverse.\<close>

fun be_bytes :: "nat \<Rightarrow> nat \<Rightarrow> bytes" where
  "be_bytes 0 n = []"
| "be_bytes (Suc k) n = be_bytes k (n div 256) @ [of_nat n]"

definition be_nat :: "bytes \<Rightarrow> nat" where
  "be_nat bs = foldl (\<lambda>a b. a * 256 + unat b) 0 bs"

lemma length_be_bytes [simp, bytes_simps]: "length (be_bytes k n) = k"
  by (induction k arbitrary: n) auto

lemma be_nat_snoc [simp]: "be_nat (bs @ [b]) = be_nat bs * 256 + unat b"
  by (simp add: be_nat_def)

lemma be_nat_Nil [simp]: "be_nat [] = 0"
  by (simp add: be_nat_def)

lemma unat_of_nat_byte: "unat (of_nat n :: byte) = n mod 256"
  by (simp add: unat_of_nat take_bit_eq_mod)

lemma be_nat_be_bytes: "be_nat (be_bytes k n) = n mod 256 ^ k"
proof (induction k arbitrary: n)
  case (Suc k)
  have "n mod 256 ^ Suc k = (n div 256) mod 256 ^ k * 256 + n mod 256"
    by (simp add: mod_mult2_eq mult.commute)
  then show ?case using Suc by (simp add: unat_of_nat_byte)
qed simp

lemma be_bytes_inj [bytes_simps]:
  "n < 256 ^ k \<Longrightarrow> m < 256 ^ k \<Longrightarrow> be_bytes k n = be_bytes k m \<longleftrightarrow> n = m"
  by (metis be_nat_be_bytes mod_less)

lemma be_nat_bound: "be_nat bs < 256 ^ length bs"
proof (induction bs rule: rev_induct)
  case (snoc b bs)
  have "unat b < 256" using unat_less_pow[of b] by simp
  then show ?case using snoc by simp
qed simp

lemma of_nat_byte_eq: "n mod 256 = unat b \<Longrightarrow> (of_nat n :: byte) = b"
  by (metis unat_of_nat_byte word_unat_eq_iff)

lemma be_bytes_be_nat: "be_bytes (length bs) (be_nat bs) = bs"
proof (induction bs rule: rev_induct)
  case (snoc b bs)
  have b: "unat b < 256" using unat_less_pow[of b] by simp
  have "(of_nat (be_nat bs * 256 + unat b) :: byte) = b"
    by (rule of_nat_byte_eq) (use b in simp)
  moreover have "(be_nat bs * 256 + unat b) div 256 = be_nat bs" using b by simp
  ultimately show ?case using snoc by (simp del: of_nat_add of_nat_mult)
qed simp

definition u64_be :: "u64 \<Rightarrow> bytes" where
  "u64_be w = be_bytes 8 (unat w)"

lemma length_u64_be [simp, bytes_simps]: "length (u64_be w) = 8"
  by (simp add: u64_be_def)

lemma unat_u64_bound: "unat (w :: u64) < 256 ^ 8"
  using unat_less_pow[of w] by simp

lemma u64_be_inj [simp, bytes_simps]: "u64_be v = u64_be w \<longleftrightarrow> v = w"
  by (metis be_bytes_inj u64_be_def unat_u64_bound word_unat_eq_iff)

text \<open>Checked and saturating arithmetic of \<^verbatim>\<open>u64\<close>.\<close>

definition checked_add64 :: "u64 \<Rightarrow> u64 \<Rightarrow> u64 option" where
  "checked_add64 a b = (if unat a + unat b < 2 ^ 64 then Some (a + b) else None)"

definition abs_diff64 :: "u64 \<Rightarrow> u64 \<Rightarrow> u64" where
  "abs_diff64 a b = (if a \<le> b then b - a else a - b)"

definition saturating_sub64 :: "u64 \<Rightarrow> u64 \<Rightarrow> u64" where
  "saturating_sub64 a b = (if b \<le> a then a - b else 0)"

lemma checked_add64_Some_iff:
  "checked_add64 a b = Some c \<longleftrightarrow> unat c = unat a + unat b"
proof -
  have "unat (a + b) = unat a + unat b" if "unat a + unat b < 2 ^ 64"
    using that unat_add_lem[of a b] by simp
  moreover have "unat c < 2 ^ 64" using unat_less_pow[of c] by simp
  ultimately show ?thesis
    by (auto simp: checked_add64_def word_unat_eq_iff)
qed

lemma checked_add64_None_iff: "checked_add64 a b = None \<longleftrightarrow> 2 ^ 64 \<le> unat a + unat b"
  by (auto simp: checked_add64_def)

text \<open>The test on words that evaluation uses.\<close>

lemma checked_add64_code [code]:
  "checked_add64 a b = (if a \<le> a + b then Some (a + b) else None)"
proof -
  have "a \<le> a + b \<longleftrightarrow> unat a + unat b < 2 ^ 64"
    using no_olen_add_nat[of a b] by simp
  then show ?thesis by (simp add: checked_add64_def)
qed

lemma unat_abs_diff64:
  "unat (abs_diff64 a b) = (if unat a \<le> unat b then unat b - unat a else unat a - unat b)"
  by (auto simp: abs_diff64_def word_le_nat_alt unat_sub)

lemma unat_saturating_sub64: "unat (saturating_sub64 a b) = unat a - unat b"
  by (auto simp: saturating_sub64_def word_le_nat_alt unat_sub)

text \<open>\<^verbatim>\<open>usize::checked_add\<close>: lengths are natural numbers below \<^verbatim>\<open>2^64\<close>.\<close>

definition checked_add_usize :: "nat \<Rightarrow> nat \<Rightarrow> nat option" where
  "checked_add_usize a b = (if a + b < 2 ^ 64 then Some (a + b) else None)"

text \<open>\<^verbatim>\<open>std::str::from_utf8\<close>: the well-formed byte sequences of the Unicode standard.\<close>

definition utf8_cont :: "byte \<Rightarrow> bool" where
  "utf8_cont b \<longleftrightarrow> 0x80 \<le> b \<and> b \<le> 0xBF"

definition utf8_second3 :: "byte \<Rightarrow> byte \<Rightarrow> bool" where
  "utf8_second3 b c \<longleftrightarrow> (if b = 0xE0 then 0xA0 \<le> c \<and> c \<le> 0xBF
     else if b = 0xED then 0x80 \<le> c \<and> c \<le> 0x9F else utf8_cont c)"

definition utf8_second4 :: "byte \<Rightarrow> byte \<Rightarrow> bool" where
  "utf8_second4 b c \<longleftrightarrow> (if b = 0xF0 then 0x90 \<le> c \<and> c \<le> 0xBF
     else if b = 0xF4 then 0x80 \<le> c \<and> c \<le> 0x8F else utf8_cont c)"

fun utf8_valid :: "bytes \<Rightarrow> bool" where
  "utf8_valid [] = True"
| "utf8_valid (b # r) =
    (if b < 0x80 then utf8_valid r
     else if 0xC2 \<le> b \<and> b \<le> 0xDF
     then (case r of c # r' \<Rightarrow> utf8_cont c \<and> utf8_valid r' | [] \<Rightarrow> False)
     else if 0xE0 \<le> b \<and> b \<le> 0xEF
     then (case r of c # d # r' \<Rightarrow> utf8_second3 b c \<and> utf8_cont d \<and> utf8_valid r' | _ \<Rightarrow> False)
     else if 0xF0 \<le> b \<and> b \<le> 0xF4
     then (case r of c # d # e # r' \<Rightarrow>
             utf8_second4 b c \<and> utf8_cont d \<and> utf8_cont e \<and> utf8_valid r' | _ \<Rightarrow> False)
     else False)"

definition from_utf8 :: "bytes \<Rightarrow> string option" where
  "from_utf8 bs = (if utf8_valid bs then Some (bytes_str bs) else None)"

lemma utf8_valid_ascii: "list_all (\<lambda>b. b < 0x80) bs \<Longrightarrow> utf8_valid bs"
  by (induction bs) auto

lemma str_bytes_bytes_str [simp]: "str_bytes (bytes_str bs) = bs"
proof -
  have "of_nat (of_char (char_of (unat b) :: char)) = b" for b :: byte
    using unat_less_pow[of b] by simp
  then show ?thesis by (simp add: str_bytes_def bytes_str_def o_def of_char_byte map_idI)
qed

lemma from_utf8_Some: "from_utf8 bs = Some s \<Longrightarrow> bs = str_bytes s"
  by (auto simp: from_utf8_def split: if_splits)

text \<open>Whether \<^verbatim>\<open>str::trim\<close> leaves nothing: every character has the property White_Space,
  each written as its UTF-8 bytes.\<close>

fun all_whitespace :: "nat list \<Rightarrow> bool" where
  "all_whitespace [] = True"
| "all_whitespace (b # r) =
    (if (9 \<le> b \<and> b \<le> 13) \<or> b = 32 then all_whitespace r
     else if b = 0xC2
     then (case r of c # r' \<Rightarrow> (c = 0x85 \<or> c = 0xA0) \<and> all_whitespace r' | [] \<Rightarrow> False)
     else (case r of c # d # r' \<Rightarrow>
             ((b = 0xE1 \<and> c = 0x9A \<and> d = 0x80)
              \<or> (b = 0xE2 \<and> c = 0x80 \<and> (0x80 \<le> d \<and> d \<le> 0x8A \<or> d = 0xA8 \<or> d = 0xA9 \<or> d = 0xAF))
              \<or> (b = 0xE2 \<and> c = 0x81 \<and> d = 0x9F)
              \<or> (b = 0xE3 \<and> c = 0x80 \<and> d = 0x80)) \<and> all_whitespace r' | _ \<Rightarrow> False))"

definition trim_is_empty :: "string \<Rightarrow> bool" where
  "trim_is_empty s \<longleftrightarrow> all_whitespace (map of_char s)"

text \<open>Length-prefixed fields: \<^verbatim>\<open>push_bytes\<close> appends the length as eight big-endian bytes
  and then the value.  Every signed payload of the program is a sequence of such fields.\<close>

definition wire_field :: "bytes \<Rightarrow> bytes" where
  "wire_field v = be_bytes 8 (length v) @ v"

definition push_bytes :: "bytes \<Rightarrow> bytes \<Rightarrow> bytes" where
  "push_bytes out v = out @ be_bytes 8 (length v) @ v"

definition push_str :: "bytes \<Rightarrow> string \<Rightarrow> bytes" where
  "push_str out s = push_bytes out (str_bytes s)"

definition push_u64 :: "bytes \<Rightarrow> u64 \<Rightarrow> bytes" where
  "push_u64 out v = push_bytes out (u64_be v)"

definition push_u8 :: "bytes \<Rightarrow> byte \<Rightarrow> bytes" where
  "push_u8 out v = push_bytes out [v]"

definition wire_len :: "'a list \<Rightarrow> bool" where
  "wire_len v \<longleftrightarrow> length v < 2 ^ 64"

lemma push_simps:
  "push_bytes out v = out @ wire_field v"
  "push_str out s = out @ wire_field (str_bytes s)"
  "push_u64 out w = out @ wire_field (u64_be w)"
  "push_u8 out b = out @ wire_field [b]"
  by (simp_all add: push_bytes_def push_str_def push_u64_def push_u8_def wire_field_def)

lemma wire_len_simps [simp]:
  "wire_len (str_bytes s) \<longleftrightarrow> wire_len s" "wire_len (u64_be w)" "wire_len [b]" "wire_len []"
  by (simp_all add: wire_len_def)

lemma wire_field_append_inj [bytes_simps]:
  assumes "wire_len v" and "wire_len w"
  shows "wire_field v @ r = wire_field w @ s \<longleftrightarrow> v = w \<and> r = s"
proof
  assume eq: "wire_field v @ r = wire_field w @ s"
  then have "be_bytes 8 (length v) = be_bytes 8 (length w)" and *: "v @ r = w @ s"
    by (simp_all add: wire_field_def)
  then have "length v = length w"
    using assms be_bytes_inj[of "length v" 8 "length w"] by (simp add: wire_len_def)
  then show "v = w \<and> r = s" using * by simp
qed simp

lemma wire_field_inj [bytes_simps]:
  "wire_len v \<Longrightarrow> wire_len w \<Longrightarrow> wire_field v = wire_field w \<longleftrightarrow> v = w"
  using wire_field_append_inj[of v w "[]" "[]"] by simp

lemma wire_field_append_inj_last [bytes_simps]:
  "wire_len v \<Longrightarrow> wire_len w \<Longrightarrow> wire_field v = wire_field w @ s \<longleftrightarrow> v = w \<and> s = []"
  "wire_len v \<Longrightarrow> wire_len w \<Longrightarrow> wire_field v @ r = wire_field w \<longleftrightarrow> v = w \<and> r = []"
  using wire_field_append_inj[of v w "[]" s] wire_field_append_inj[of v w r "[]"] by auto

text \<open>Decimal and hexadecimal renderings of the formatting macros.\<close>

definition digit :: "nat \<Rightarrow> char" where
  "digit n = char_of (48 + n)"

fun show_nat :: "nat \<Rightarrow> string" where
  "show_nat n = (if n < 10 then [digit n] else show_nat (n div 10) @ [digit (n mod 10)])"

declare show_nat.simps [simp del]

definition hex_digit :: "nat \<Rightarrow> char" where
  "hex_digit n = (if n < 10 then char_of (48 + n) else char_of (87 + n))"

definition hex_byte :: "byte \<Rightarrow> string" where
  "hex_byte b = [hex_digit (unat b div 16), hex_digit (unat b mod 16)]"

definition hex_encode :: "bytes \<Rightarrow> string" where
  "hex_encode bs = concat (map hex_byte bs)"

definition is_lower_hex :: "char \<Rightarrow> bool" where
  "is_lower_hex c \<longleftrightarrow> (CHR ''0'' \<le> c \<and> c \<le> CHR ''9'') \<or> (CHR ''a'' \<le> c \<and> c \<le> CHR ''f'')"

definition is_ascii_alphanumeric :: "char \<Rightarrow> bool" where
  "is_ascii_alphanumeric c \<longleftrightarrow> (CHR ''0'' \<le> c \<and> c \<le> CHR ''9'')
    \<or> (CHR ''a'' \<le> c \<and> c \<le> CHR ''z'') \<or> (CHR ''A'' \<le> c \<and> c \<le> CHR ''Z'')"

lemma hex_digit_lower: "n < 16 \<Longrightarrow> is_lower_hex (hex_digit n)"
proof -
  assume "n < 16"
  moreover have "\<forall>n \<in> set [0..<16]. is_lower_hex (hex_digit n)" by code_simp
  ultimately show ?thesis by auto
qed

definition hex_value :: "char \<Rightarrow> nat" where
  "hex_value c = (if (of_char c :: nat) < 58 then of_char c - 48 else of_char c - 87)"

lemma hex_value_digit: "n < 16 \<Longrightarrow> hex_value (hex_digit n) = n"
  by (simp add: hex_value_def hex_digit_def)

lemma hex_digit_inj: "m < 16 \<Longrightarrow> n < 16 \<Longrightarrow> hex_digit m = hex_digit n \<Longrightarrow> m = n"
  by (metis hex_value_digit)

lemma unat_byte_bound: "unat (b :: byte) < 256"
  using unat_less_pow[of b] by simp

lemma length_hex_encode [simp, bytes_simps]: "length (hex_encode bs) = 2 * length bs"
  by (induction bs) (simp_all add: hex_encode_def hex_byte_def)

lemma hex_encode_lower: "list_all is_lower_hex (hex_encode bs)"
proof (induction bs)
  case (Cons b bs)
  have "unat b div 16 < 16" using unat_byte_bound[of b] by simp
  then show ?case using Cons by (simp add: hex_encode_def hex_byte_def hex_digit_lower)
qed (simp add: hex_encode_def)

lemma hex_byte_inj: "hex_byte a = hex_byte b \<Longrightarrow> a = b"
proof -
  assume "hex_byte a = hex_byte b"
  moreover have "unat a div 16 < 16" "unat b div 16 < 16"
    using unat_byte_bound[of a] unat_byte_bound[of b] by simp_all
  ultimately have "unat a div 16 = unat b div 16" "unat a mod 16 = unat b mod 16"
    by (auto simp: hex_byte_def intro: hex_digit_inj)
  then have "unat a = unat b" by (metis div_mult_mod_eq)
  then show "a = b" by (simp add: word_unat_eq_iff)
qed

lemma hex_encode_inj [bytes_simps]: "hex_encode a = hex_encode b \<longleftrightarrow> a = b"
proof (induction a arbitrary: b)
  case Nil
  then show ?case by (cases b) (auto simp: hex_encode_def hex_byte_def)
next
  case (Cons x a)
  show ?case
  proof (cases b)
    case (Cons y c)
    have *: "hex_encode (z # d) = hex_byte z @ hex_encode d" "length (hex_byte z) = 2" for z d
      by (simp_all add: hex_encode_def hex_byte_def)
    show ?thesis using Cons.IH[of c] by (auto simp: Cons * dest: hex_byte_inj)
  qed (simp add: hex_encode_def hex_byte_def)
qed


lemma lower_hex_digit:
  assumes "is_lower_hex c"
  obtains n where "n < 16" and "c = hex_digit n"
proof -
  let ?k = "of_char c :: nat"
  have "48 \<le> ?k \<and> ?k \<le> 57 \<or> 97 \<le> ?k \<and> ?k \<le> 102"
    using assms by (simp add: is_lower_hex_def less_eq_char_def)
  then show thesis
  proof
    assume "48 \<le> ?k \<and> ?k \<le> 57"
    then show thesis by (intro that[of "?k - 48"]) (auto simp: hex_digit_def)
  next
    assume "97 \<le> ?k \<and> ?k \<le> 102"
    then show thesis by (intro that[of "?k - 87"]) (auto simp: hex_digit_def)
  qed
qed

lemma hex_encode_surj:
  "list_all is_lower_hex s \<Longrightarrow> length s = 2 * n \<Longrightarrow> \<exists>h. hex_encode h = s \<and> length h = n"
proof (induction n arbitrary: s)
  case (Suc n)
  then obtain a b t where s: "s = a # b # t" by (cases s; cases "tl s") auto
  have "is_lower_hex a" "is_lower_hex b" using Suc.prems(1) s by simp_all
  then obtain i j where i: "i < 16" "a = hex_digit i" and j: "j < 16" "b = hex_digit j"
    by (metis lower_hex_digit)
  obtain h where h: "hex_encode h = t" "length h = n" using Suc s by auto
  have "unat (word_of_nat (16 * i + j) :: byte) = 16 * i + j"
    using i j by (simp add: unat_of_nat del: of_nat_add of_nat_mult)
  then have "hex_byte (word_of_nat (16 * i + j)) = [a, b]"
    using i j by (simp add: hex_byte_def)
  then have "hex_encode (word_of_nat (16 * i + j) # h) = s" using h s by (simp add: hex_encode_def)
  then show ?case using h by (intro exI[of _ "word_of_nat (16 * i + j) # h"]) simp
qed (simp add: hex_encode_def)


section \<open>Splitting strings\<close>

text \<open>\<^verbatim>\<open>str::split\<close> with a character: always at least one component.\<close>

fun split_on :: "'a \<Rightarrow> 'a list \<Rightarrow> 'a list list" where
  "split_on c [] = [[]]"
| "split_on c (x # xs) = (if x = c then [] # split_on c xs
     else (case split_on c xs of [] \<Rightarrow> [[x]] | y # ys \<Rightarrow> (x # y) # ys))"

fun join_with :: "'a list \<Rightarrow> 'a list list \<Rightarrow> 'a list" where
  "join_with sep [] = []"
| "join_with sep [x] = x"
| "join_with sep (x # y # ys) = x @ sep @ join_with sep (y # ys)"

lemma split_on_not_Nil [simp]: "split_on c s \<noteq> []"
  by (cases s) (auto split: list.splits)

lemma join_split_on [simp]: "join_with [c] (split_on c s) = s"
proof (induction s)
  case (Cons x s)
  obtain y ys where "split_on c s = y # ys" by (cases "split_on c s") auto
  then show ?case using Cons by (cases ys) auto
qed simp

lemma split_on_components: "y \<in> set (split_on c s) \<Longrightarrow> c \<notin> set y"
proof (induction s arbitrary: y)
  case (Cons x s)
  obtain z zs where "split_on c s = z # zs" by (cases "split_on c s") auto
  then show ?case using Cons by (auto split: if_splits)
qed simp

lemma split_on_no_sep: "c \<notin> set s \<Longrightarrow> split_on c s = [s]"
  by (induction s) auto

lemma split_on_append: "c \<notin> set s \<Longrightarrow> split_on c (s @ c # t) = s # split_on c t"
  by (induction s) auto

lemma split_on_join:
  assumes "xs \<noteq> []" and "\<And>x. x \<in> set xs \<Longrightarrow> c \<notin> set x"
  shows "split_on c (join_with [c] xs) = xs"
  using assms
  by (induction "[c]" xs rule: join_with.induct) (auto simp: split_on_no_sep split_on_append)

text \<open>\<^verbatim>\<open>str::split_once\<close> with a character.\<close>

fun split_once :: "'a \<Rightarrow> 'a list \<Rightarrow> ('a list \<times> 'a list) option" where
  "split_once c [] = None"
| "split_once c (x # xs) = (if x = c then Some ([], xs)
     else (case split_once c xs of None \<Rightarrow> None | Some (a, b) \<Rightarrow> Some (x # a, b)))"

lemma split_once_Some_iff: "split_once c s = Some (a, b) \<longleftrightarrow> c \<notin> set a \<and> s = a @ c # b"
proof (induction s arbitrary: a b)
  case (Cons x s)
  show ?case
  proof (cases "split_once c s")
    case None
    then have "c \<notin> set s" using Cons.IH by (metis not_None_eq split_list_first)
    then show ?thesis using None by (cases a) auto
  next
    case (Some p)
    then obtain a' b' where p: "split_once c s = Some (a', b')" by (cases p) auto
    then have s: "c \<notin> set a'" "s = a' @ c # b'" using Cons.IH by auto
    have "split_once c s = Some (u, b) \<longleftrightarrow> c \<notin> set u \<and> s = u @ c # b" for u using Cons.IH .
    then show ?thesis using p by (cases a) auto
  qed
qed simp

lemma split_once_None_iff: "split_once c s = None \<longleftrightarrow> c \<notin> set s"
  by (induction s) (auto split: option.splits)

lemma split_once_append [simp]: "c \<notin> set a \<Longrightarrow> split_once c (a @ c # b) = Some (a, b)"
  by (simp add: split_once_Some_iff)


section \<open>Ordered maps\<close>

text \<open>A \<^verbatim>\<open>BTreeMap\<close> is the list of its pairs in the order of the keys, which is the order
  in which it is iterated and serialised.  Lookup is \<^const>\<open>map_of\<close>.\<close>

fun bt_insert :: "'k::linorder \<Rightarrow> 'v \<Rightarrow> ('k \<times> 'v) list \<Rightarrow> ('k \<times> 'v) list" where
  "bt_insert k v [] = [(k, v)]"
| "bt_insert k v ((k', v') # m) =
     (if k < k' then (k, v) # (k', v') # m
      else if k = k' then (k, v) # m
      else (k', v') # bt_insert k v m)"

definition bt_remove :: "'k \<Rightarrow> ('k \<times> 'v) list \<Rightarrow> ('k \<times> 'v) list" where
  "bt_remove k m = filter (\<lambda>(k', _). k' \<noteq> k) m"

definition bt_contains :: "('k \<times> 'v) list \<Rightarrow> 'k \<Rightarrow> bool" where
  "bt_contains m k \<longleftrightarrow> map_of m k \<noteq> None"

definition bt_wf :: "('k::linorder \<times> 'v) list \<Rightarrow> bool" where
  "bt_wf m \<longleftrightarrow> sorted_wrt (<) (map fst m)"

definition bt_map_values :: "('k \<Rightarrow> 'v \<Rightarrow> 'w) \<Rightarrow> ('k \<times> 'v) list \<Rightarrow> ('k \<times> 'w) list" where
  "bt_map_values f m = map (\<lambda>(k, v). (k, f k v)) m"

lemma map_of_bt_insert [simp]: "map_of (bt_insert k v m) = (map_of m)(k \<mapsto> v)"
  by (induction k v m rule: bt_insert.induct) (auto simp: fun_eq_iff)

lemma map_of_bt_remove [simp]: "map_of (bt_remove k m) = (map_of m)(k := None)"
  by (induction m) (auto simp: bt_remove_def fun_eq_iff)

lemma map_of_bt_map_values [simp]: "map_of (bt_map_values f m) k = map_option (f k) (map_of m k)"
  by (induction m) (auto simp: bt_map_values_def)

lemma fst_set_bt_insert [simp]: "fst ` set (bt_insert k v m) = insert k (fst ` set m)"
  by (induction k v m rule: bt_insert.induct) auto

lemma bt_wf_Nil [simp, map_intros]: "bt_wf []"
  by (simp add: bt_wf_def)

lemma bt_wf_Cons: "bt_wf ((k, v) # m) \<longleftrightarrow> (\<forall>k' \<in> fst ` set m. k < k') \<and> bt_wf m"
  by (auto simp: bt_wf_def)

lemma bt_wf_insert [simp, map_intros]: "bt_wf m \<Longrightarrow> bt_wf (bt_insert k v m)"
  by (induction k v m rule: bt_insert.induct) (auto simp: bt_wf_Cons)

lemma bt_wf_filter [simp, map_intros]: "bt_wf m \<Longrightarrow> bt_wf (filter P m)"
  by (auto simp: bt_wf_def sorted_wrt_map intro: sorted_wrt_filter)

lemma bt_wf_remove [simp, map_intros]: "bt_wf m \<Longrightarrow> bt_wf (bt_remove k m)"
  by (simp add: bt_remove_def)

lemma bt_wf_map_values [simp, map_intros]: "bt_wf (bt_map_values f m) = bt_wf m"
  by (simp add: bt_wf_def bt_map_values_def o_def case_prod_beta)

lemma bt_wf_distinct: "bt_wf m \<Longrightarrow> distinct (map fst m)"
  by (simp add: bt_wf_def strict_sorted_iff)

lemma bt_in_set_iff: "bt_wf m \<Longrightarrow> (k, v) \<in> set m \<longleftrightarrow> map_of m k = Some v"
  by (simp add: bt_wf_distinct)

lemma bt_in_setD: "bt_wf m \<Longrightarrow> p \<in> set m \<Longrightarrow> map_of m (fst p) = Some (snd p)"
  by (simp add: bt_wf_distinct)

lemma bt_ext: "bt_wf m \<Longrightarrow> bt_wf m' \<Longrightarrow> map_of m = map_of m' \<Longrightarrow> m = m'"
proof -
  assume wf: "bt_wf m" "bt_wf m'" and eq: "map_of m = map_of m'"
  have "set m = set m'" using bt_in_set_iff[OF wf(1)] bt_in_set_iff[OF wf(2)] eq by auto
  moreover have "sorted (map fst m)" "distinct (map fst m)" "sorted (map fst m')" "distinct (map fst m')"
    using wf by (simp_all add: bt_wf_def strict_sorted_iff)
  ultimately show ?thesis
    using map_sorted_distinct_set_unique[of fst m m'] by (simp add: distinct_map)
qed

lemma bt_contains_iff: "bt_contains m k \<longleftrightarrow> k \<in> fst ` set m"
  by (auto simp: bt_contains_def map_of_eq_None_iff)

lemma bt_contains_insert [simp]: "bt_contains (bt_insert k v m) k' \<longleftrightarrow> k = k' \<or> bt_contains m k'"
  by (auto simp: bt_contains_def)

lemma bt_contains_remove [simp]: "bt_contains (bt_remove k m) k' \<longleftrightarrow> k \<noteq> k' \<and> bt_contains m k'"
  by (auto simp: bt_contains_def)

text \<open>Filtering an ordered map by a predicate on pairs.\<close>

lemma map_of_bt_filter:
  "bt_wf m \<Longrightarrow> map_of (filter P m) k =
    (case map_of m k of None \<Rightarrow> None | Some v \<Rightarrow> if P (k, v) then Some v else None)"
proof (induction m)
  case (Cons p m)
  obtain k' v' where p: "p = (k', v')" by (cases p)
  have "map_of m k' = None" using Cons.prems by (auto simp: p bt_wf_Cons map_of_eq_None_iff)
  then show ?case using Cons by (auto simp: p bt_wf_Cons split: option.splits)
qed simp


lemma snd_set_bt_insert: "p \<in> set (bt_insert k v m) \<Longrightarrow> p = (k, v) \<or> p \<in> set m"
  by (induction k v m rule: bt_insert.induct) (auto split: if_splits)

text \<open>Counting the values with a property.\<close>

lemma bt_count_values:
  assumes "bt_wf m"
  shows "length (filter P (map snd m)) = card {k. \<exists>v. map_of m k = Some v \<and> P v}"
proof -
  have "{k. \<exists>v. map_of m k = Some v \<and> P v} = fst ` set (filter (P \<circ> snd) m)"
    using bt_in_set_iff[OF assms] by force
  moreover have "card (set (map fst (filter (P \<circ> snd) m))) = length (map fst (filter (P \<circ> snd) m))"
    using bt_wf_distinct[OF bt_wf_filter[OF assms]] by (rule distinct_card)
  ultimately show ?thesis
    by (simp add: filter_map)
qed

end
