(* ===== verification/Ids.thy ===== *)
theory Ids
  imports Prelude
begin

text \<open>
  The identifiers of \<^verbatim>\<open>rustsync-protocol/src/id\<close>, the permissions they are used with in
  error values, and \<^verbatim>\<open>ProtocolError\<close>.  Each identifier is a newtype over its text, ordered
  as the text is (the derived \<^verbatim>\<open>Ord\<close>); \<^verbatim>\<open>parse\<close> is the only way the code makes one from
  foreign text.  The hash function of \<^verbatim>\<open>from_content\<close> is a parameter.
\<close>

section \<open>Identifier types\<close>

datatype WorkspaceId = WorkspaceId (workspace_id_str: string)
datatype DeviceId = DeviceId (device_id_str: string)
datatype KeyId = KeyId (key_id_str: string)
datatype JoinRequestId = JoinRequestId (join_request_id_str: string)
datatype AccessEventId = AccessEventId (access_event_id_str: string)
datatype BlobId = BlobId (blob_id_str: string)
datatype ManifestId = ManifestId (manifest_id_str: string)

instantiation WorkspaceId :: linorder
begin
definition less_eq_WorkspaceId :: "WorkspaceId \<Rightarrow> WorkspaceId \<Rightarrow> bool" where
  "less_eq_WorkspaceId a b \<longleftrightarrow> workspace_id_str a \<le> workspace_id_str b"
definition less_WorkspaceId :: "WorkspaceId \<Rightarrow> WorkspaceId \<Rightarrow> bool" where
  "less_WorkspaceId a b \<longleftrightarrow> workspace_id_str a < workspace_id_str b"
instance by standard (auto simp: less_eq_WorkspaceId_def less_WorkspaceId_def intro: WorkspaceId.expand)
end

instantiation DeviceId :: linorder
begin
definition less_eq_DeviceId :: "DeviceId \<Rightarrow> DeviceId \<Rightarrow> bool" where
  "less_eq_DeviceId a b \<longleftrightarrow> device_id_str a \<le> device_id_str b"
definition less_DeviceId :: "DeviceId \<Rightarrow> DeviceId \<Rightarrow> bool" where
  "less_DeviceId a b \<longleftrightarrow> device_id_str a < device_id_str b"
instance by standard (auto simp: less_eq_DeviceId_def less_DeviceId_def intro: DeviceId.expand)
end

instantiation KeyId :: linorder
begin
definition less_eq_KeyId :: "KeyId \<Rightarrow> KeyId \<Rightarrow> bool" where
  "less_eq_KeyId a b \<longleftrightarrow> key_id_str a \<le> key_id_str b"
definition less_KeyId :: "KeyId \<Rightarrow> KeyId \<Rightarrow> bool" where
  "less_KeyId a b \<longleftrightarrow> key_id_str a < key_id_str b"
instance by standard (auto simp: less_eq_KeyId_def less_KeyId_def intro: KeyId.expand)
end

instantiation JoinRequestId :: linorder
begin
definition less_eq_JoinRequestId :: "JoinRequestId \<Rightarrow> JoinRequestId \<Rightarrow> bool" where
  "less_eq_JoinRequestId a b \<longleftrightarrow> join_request_id_str a \<le> join_request_id_str b"
definition less_JoinRequestId :: "JoinRequestId \<Rightarrow> JoinRequestId \<Rightarrow> bool" where
  "less_JoinRequestId a b \<longleftrightarrow> join_request_id_str a < join_request_id_str b"
instance by standard (auto simp: less_eq_JoinRequestId_def less_JoinRequestId_def intro: JoinRequestId.expand)
end

instantiation AccessEventId :: linorder
begin
definition less_eq_AccessEventId :: "AccessEventId \<Rightarrow> AccessEventId \<Rightarrow> bool" where
  "less_eq_AccessEventId a b \<longleftrightarrow> access_event_id_str a \<le> access_event_id_str b"
definition less_AccessEventId :: "AccessEventId \<Rightarrow> AccessEventId \<Rightarrow> bool" where
  "less_AccessEventId a b \<longleftrightarrow> access_event_id_str a < access_event_id_str b"
instance by standard (auto simp: less_eq_AccessEventId_def less_AccessEventId_def intro: AccessEventId.expand)
end

instantiation BlobId :: linorder
begin
definition less_eq_BlobId :: "BlobId \<Rightarrow> BlobId \<Rightarrow> bool" where
  "less_eq_BlobId a b \<longleftrightarrow> blob_id_str a \<le> blob_id_str b"
definition less_BlobId :: "BlobId \<Rightarrow> BlobId \<Rightarrow> bool" where
  "less_BlobId a b \<longleftrightarrow> blob_id_str a < blob_id_str b"
instance by standard (auto simp: less_eq_BlobId_def less_BlobId_def intro: BlobId.expand)
end

instantiation ManifestId :: linorder
begin
definition less_eq_ManifestId :: "ManifestId \<Rightarrow> ManifestId \<Rightarrow> bool" where
  "less_eq_ManifestId a b \<longleftrightarrow> manifest_id_str a \<le> manifest_id_str b"
definition less_ManifestId :: "ManifestId \<Rightarrow> ManifestId \<Rightarrow> bool" where
  "less_ManifestId a b \<longleftrightarrow> manifest_id_str a < manifest_id_str b"
instance by standard (auto simp: less_eq_ManifestId_def less_ManifestId_def intro: ManifestId.expand)
end

lemmas id_order_simps =
  less_eq_WorkspaceId_def less_WorkspaceId_def
  less_eq_DeviceId_def less_DeviceId_def
  less_eq_KeyId_def less_KeyId_def
  less_eq_JoinRequestId_def less_JoinRequestId_def
  less_eq_AccessEventId_def less_AccessEventId_def
  less_eq_BlobId_def less_BlobId_def
  less_eq_ManifestId_def less_ManifestId_def


section \<open>Permissions and protocol errors\<close>

datatype WorkspacePermission =
    ReadObjects | WriteObjects | UpdateHead | ReadDevices | ReadAccessHistory
  | ManageDevices | ManageRoles | ManageKeys

datatype ProtocolError =
    InvalidIdentifier string string string
  | InvalidDeviceName
  | InvalidPublicKey
  | InvalidSignature
  | FingerprintMismatch string string
  | InvalidJoinRequest string
  | WorkspaceMismatch string string
  | InvalidKeyGeneration u64
  | EmptyCiphertext
  | CiphertextTooShort nat nat
  | InvalidNonceLength nat nat
  | EncryptedObjectTooLarge nat nat
  | InvalidEncryptedObjectBinary
  | UnsupportedEncryptedObjectVersion byte
  | UnsupportedContentEncryptionAlgorithm byte
  | InvalidEncryptedObjectEncoding
  | TimeBeforeUnixEpoch
  | InvalidAccessEvent string
  | InvalidManifestPath string string
  | InvalidRequestSignature
  | InvalidAuthHeader string
  | DeviceNotActiveMember DeviceId
  | PermissionDenied DeviceId WorkspacePermission
  | DeviceNotAuthorizedForKey KeyId u64 DeviceId
  | DeviceAlreadyMember DeviceId
  | DeviceNotMember DeviceId
  | WorkspaceIdMismatch WorkspaceId WorkspaceId
  | RevisionOverflow
  | CannotRemoveLastOwner
  | InvalidState string
  | KeyAccessAlreadyGranted KeyId u64 DeviceId
  | KeyAccessNotGranted KeyId u64 DeviceId

type_synonym 'a protocol_result = "('a, ProtocolError) result"


section \<open>Text identifiers\<close>

definition invalid_id :: "string \<Rightarrow> string \<Rightarrow> string \<Rightarrow> ProtocolError" where
  "invalid_id kind val reason = InvalidIdentifier kind val reason"

definition id_char :: "char \<Rightarrow> bool" where
  "id_char c \<longleftrightarrow> is_ascii_alphanumeric c \<or> c = CHR ''_'' \<or> c = CHR ''-'' \<or> c = CHR ''.''"

definition validate_text_id :: "string \<Rightarrow> string \<Rightarrow> string option \<Rightarrow> nat \<Rightarrow> unit protocol_result" where
  "validate_text_id kind val required_prefix max_len =
    (if val = [] then Err (invalid_id kind val ''identifier is empty'')
     else if length val > max_len
     then Err (invalid_id kind val (''identifier exceeds '' @ show_nat max_len @ '' bytes''))
     else if (case required_prefix of None \<Rightarrow> False
              | Some p \<Rightarrow> \<not> starts_with val p \<or> length val = length p)
     then Err (invalid_id kind val (''identifier must start with `'' @ the required_prefix
                 @ ''` and contain a suffix''))
     else if \<not> list_all id_char val
     then Err (invalid_id kind val ''only ascii letters, digits, `_`, `-`, and `.` are allowed'')
     else Ok ())"

definition SYSTEM_KEY_ID :: string where "SYSTEM_KEY_ID = ''system''"
definition DEVICE_ID_PREFIX :: string where "DEVICE_ID_PREFIX = ''device_''"
definition ACCESS_EVENT_ID_PREFIX :: string where "ACCESS_EVENT_ID_PREFIX = ''event_''"
definition JOIN_REQUEST_ID_PREFIX :: string where "JOIN_REQUEST_ID_PREFIX = ''join_''"

definition parse_workspace_id :: "string \<Rightarrow> WorkspaceId protocol_result" where
  "parse_workspace_id val =
    and_then (validate_text_id ''workspace'' val None 128) (\<lambda>_. Ok (WorkspaceId val))"

definition parse_device_id :: "string \<Rightarrow> DeviceId protocol_result" where
  "parse_device_id val =
    and_then (validate_text_id ''device'' val (Some DEVICE_ID_PREFIX) 96) (\<lambda>_. Ok (DeviceId val))"

definition parse_key_id :: "string \<Rightarrow> KeyId protocol_result" where
  "parse_key_id val = and_then (validate_text_id ''key'' val None 64) (\<lambda>_. Ok (KeyId val))"

definition parse_join_request_id :: "string \<Rightarrow> JoinRequestId protocol_result" where
  "parse_join_request_id val =
    and_then (validate_text_id ''join request'' val (Some JOIN_REQUEST_ID_PREFIX) 96)
      (\<lambda>_. Ok (JoinRequestId val))"

definition parse_access_event_id :: "string \<Rightarrow> AccessEventId protocol_result" where
  "parse_access_event_id val =
    and_then (validate_text_id ''access event'' val (Some ACCESS_EVENT_ID_PREFIX) 96)
      (\<lambda>_. Ok (AccessEventId val))"

definition valid_text_id :: "string option \<Rightarrow> nat \<Rightarrow> string \<Rightarrow> bool" where
  "valid_text_id required_prefix max_len val \<longleftrightarrow>
     val \<noteq> [] \<and> length val \<le> max_len \<and> list_all id_char val \<and>
     (case required_prefix of None \<Rightarrow> True | Some p \<Rightarrow> starts_with val p \<and> length p < length val)"

lemma validate_text_id_Ok_iff [simp]:
  "validate_text_id kind val p n = Ok u \<longleftrightarrow> valid_text_id p n val"
proof (cases p)
  case (Some q)
  have "length q < length val \<longleftrightarrow> length val \<noteq> length q" if "starts_with val q"
    using that by (auto simp: starts_with_iff)
  then show ?thesis using Some by (auto simp: validate_text_id_def valid_text_id_def)
qed (auto simp: validate_text_id_def valid_text_id_def)

definition workspace_id_ok :: "WorkspaceId \<Rightarrow> bool" where
  "workspace_id_ok w \<longleftrightarrow> valid_text_id None 128 (workspace_id_str w)"
definition device_id_ok :: "DeviceId \<Rightarrow> bool" where
  "device_id_ok d \<longleftrightarrow> valid_text_id (Some DEVICE_ID_PREFIX) 96 (device_id_str d)"
definition key_id_ok :: "KeyId \<Rightarrow> bool" where
  "key_id_ok k \<longleftrightarrow> valid_text_id None 64 (key_id_str k)"
definition join_request_id_ok :: "JoinRequestId \<Rightarrow> bool" where
  "join_request_id_ok j \<longleftrightarrow> valid_text_id (Some JOIN_REQUEST_ID_PREFIX) 96 (join_request_id_str j)"
definition access_event_id_ok :: "AccessEventId \<Rightarrow> bool" where
  "access_event_id_ok e \<longleftrightarrow> valid_text_id (Some ACCESS_EVENT_ID_PREFIX) 96 (access_event_id_str e)"

lemma parse_workspace_id_Ok_iff [simp]:
  "parse_workspace_id s = Ok w \<longleftrightarrow> workspace_id_ok w \<and> s = workspace_id_str w"
  by (cases w) (auto simp: parse_workspace_id_def workspace_id_ok_def)
lemma parse_device_id_Ok_iff [simp]:
  "parse_device_id s = Ok d \<longleftrightarrow> device_id_ok d \<and> s = device_id_str d"
  by (cases d) (auto simp: parse_device_id_def device_id_ok_def)
lemma parse_key_id_Ok_iff [simp]:
  "parse_key_id s = Ok k \<longleftrightarrow> key_id_ok k \<and> s = key_id_str k"
  by (cases k) (auto simp: parse_key_id_def key_id_ok_def)
lemma parse_join_request_id_Ok_iff [simp]:
  "parse_join_request_id s = Ok j \<longleftrightarrow> join_request_id_ok j \<and> s = join_request_id_str j"
  by (cases j) (auto simp: parse_join_request_id_def join_request_id_ok_def)
lemma parse_access_event_id_Ok_iff [simp]:
  "parse_access_event_id s = Ok e \<longleftrightarrow> access_event_id_ok e \<and> s = access_event_id_str e"
  by (cases e) (auto simp: parse_access_event_id_def access_event_id_ok_def)

text \<open>No identifier contains a character that separates fields, path segments or lines.\<close>

lemma id_char_not_separator:
  "\<not> id_char CHR ''/''" "\<not> id_char (CHR 0x0A)" "\<not> id_char CHR '' ''"
  "\<not> id_char (CHR 0x5C)" "\<not> id_char CHR ''?''" "\<not> id_char CHR '':''"
  by (simp_all add: id_char_def is_ascii_alphanumeric_def less_eq_char_def)

lemma valid_text_id_no_slash: "valid_text_id p n s \<Longrightarrow> CHR ''/'' \<notin> set s"
  using id_char_not_separator by (auto simp: valid_text_id_def list_all_iff)

lemma valid_text_id_no_newline: "valid_text_id p n s \<Longrightarrow> CHR 0x0A \<notin> set s"
  using id_char_not_separator by (auto simp: valid_text_id_def list_all_iff)


section \<open>Content identifiers\<close>

definition BLOB_ID_PREFIX :: string where "BLOB_ID_PREFIX = ''blob_''"
definition MANIFEST_ID_PREFIX :: string where "MANIFEST_ID_PREFIX = ''manifest_''"

definition object_id_check :: "string \<Rightarrow> string \<Rightarrow> string \<Rightarrow> unit protocol_result" where
  "object_id_check kind p val =
    (if length val \<noteq> length p + 64 \<or> \<not> starts_with val p
     then Err (InvalidIdentifier kind val
       (''expected `'' @ p @ ''` followed by 64 lowercase hexadecimal characters''))
     else if \<not> list_all is_lower_hex (drop (length p) val)
     then Err (InvalidIdentifier kind val ''object hash must be lowercase hexadecimal'')
     else Ok ())"

definition parse_blob_id :: "string \<Rightarrow> BlobId protocol_result" where
  "parse_blob_id val = and_then (object_id_check ''blob'' BLOB_ID_PREFIX val) (\<lambda>_. Ok (BlobId val))"

definition parse_manifest_id :: "string \<Rightarrow> ManifestId protocol_result" where
  "parse_manifest_id val =
    and_then (object_id_check ''manifest'' MANIFEST_ID_PREFIX val) (\<lambda>_. Ok (ManifestId val))"

definition blob_id_from_content :: "(bytes \<Rightarrow> bytes) \<Rightarrow> bytes \<Rightarrow> BlobId" where
  "blob_id_from_content sha256 bs = BlobId (BLOB_ID_PREFIX @ hex_encode (sha256 bs))"

definition manifest_id_from_content :: "(bytes \<Rightarrow> bytes) \<Rightarrow> bytes \<Rightarrow> ManifestId" where
  "manifest_id_from_content sha256 bs = ManifestId (MANIFEST_ID_PREFIX @ hex_encode (sha256 bs))"

definition valid_object_id :: "string \<Rightarrow> string \<Rightarrow> bool" where
  "valid_object_id p val \<longleftrightarrow> (\<exists>h. val = p @ h \<and> length h = 64 \<and> list_all is_lower_hex h)"

definition blob_id_ok :: "BlobId \<Rightarrow> bool" where
  "blob_id_ok b \<longleftrightarrow> valid_object_id BLOB_ID_PREFIX (blob_id_str b)"
definition manifest_id_ok :: "ManifestId \<Rightarrow> bool" where
  "manifest_id_ok m \<longleftrightarrow> valid_object_id MANIFEST_ID_PREFIX (manifest_id_str m)"

lemma object_id_check_Ok_iff [simp]:
  "object_id_check kind p val = Ok u \<longleftrightarrow> valid_object_id p val"
  by (auto simp: object_id_check_def valid_object_id_def starts_with_iff)

lemma parse_blob_id_Ok_iff [simp]:
  "parse_blob_id s = Ok b \<longleftrightarrow> blob_id_ok b \<and> s = blob_id_str b"
  by (cases b) (auto simp: parse_blob_id_def blob_id_ok_def)
lemma parse_manifest_id_Ok_iff [simp]:
  "parse_manifest_id s = Ok m \<longleftrightarrow> manifest_id_ok m \<and> s = manifest_id_str m"
  by (cases m) (auto simp: parse_manifest_id_def manifest_id_ok_def)

text \<open>The documented output size of SHA-256.\<close>

definition sha256_size :: "(bytes \<Rightarrow> bytes) \<Rightarrow> bool" where
  "sha256_size sha256 \<longleftrightarrow> (\<forall>bs. length (sha256 bs) = 32)"

lemma blob_id_from_content_ok: "sha256_size sha256 \<Longrightarrow> blob_id_ok (blob_id_from_content sha256 bs)"
  by (auto simp: blob_id_ok_def blob_id_from_content_def valid_object_id_def sha256_size_def
      hex_encode_lower)

lemma manifest_id_from_content_ok:
  "sha256_size sha256 \<Longrightarrow> manifest_id_ok (manifest_id_from_content sha256 bs)"
  by (auto simp: manifest_id_ok_def manifest_id_from_content_def valid_object_id_def sha256_size_def
      hex_encode_lower)

lemma blob_id_from_content_eq_iff [simp]:
  "blob_id_from_content h a = blob_id_from_content h b \<longleftrightarrow> h a = h b"
  by (simp add: blob_id_from_content_def hex_encode_inj)

lemma manifest_id_from_content_eq_iff [simp]:
  "manifest_id_from_content h a = manifest_id_from_content h b \<longleftrightarrow> h a = h b"
  by (simp add: manifest_id_from_content_def hex_encode_inj)

lemma is_lower_hex_not_slash: "\<not> is_lower_hex CHR ''/''"
  by (simp add: is_lower_hex_def less_eq_char_def)

lemma blob_id_ok_no_slash: "blob_id_ok b \<Longrightarrow> CHR ''/'' \<notin> set (blob_id_str b)"
  using is_lower_hex_not_slash
  by (auto simp: blob_id_ok_def valid_object_id_def BLOB_ID_PREFIX_def list_all_iff)

lemma manifest_id_ok_no_slash: "manifest_id_ok m \<Longrightarrow> CHR ''/'' \<notin> set (manifest_id_str m)"
  using is_lower_hex_not_slash
  by (auto simp: manifest_id_ok_def valid_object_id_def MANIFEST_ID_PREFIX_def list_all_iff)

end
