(* ===== verification/Object_Frame.thy ===== *)
theory Object_Frame
  imports Ids
begin

text \<open>
  \<^verbatim>\<open>rustsync-protocol/src/object\<close>: the encrypted object and its binary frame RSOB v1
  (\<^verbatim>\<open>binary.rs\<close>), the only form in which blobs and manifests travel and are stored.  The
  decoder is the code's cursor over the input; the frame is shown canonical in both directions.
\<close>

section \<open>Encrypted objects\<close>

definition XCHACHA20_POLY1305_NONCE_SIZE :: nat where "XCHACHA20_POLY1305_NONCE_SIZE = 24"
definition XCHACHA20_POLY1305_TAG_SIZE :: nat where "XCHACHA20_POLY1305_TAG_SIZE = 16"

datatype ContentEncryptionAlgorithm = XChaCha20Poly1305

record EncryptedObject =
  eo_key_id :: KeyId
  eo_algorithm :: ContentEncryptionAlgorithm
  eo_nonce :: bytes
  eo_ciphertext :: bytes

definition encrypted_object_new ::
  "KeyId \<Rightarrow> ContentEncryptionAlgorithm \<Rightarrow> bytes \<Rightarrow> bytes \<Rightarrow> EncryptedObject" where
  "encrypted_object_new k a n c =
     \<lparr>eo_key_id = k, eo_algorithm = a, eo_nonce = n, eo_ciphertext = c\<rparr>"

definition validate_object :: "EncryptedObject \<Rightarrow> unit protocol_result" where
  "validate_object ob =
    (if eo_ciphertext ob = [] then Err EmptyCiphertext
     else case eo_algorithm ob of XChaCha20Poly1305 \<Rightarrow>
       (if length (eo_nonce ob) \<noteq> XCHACHA20_POLY1305_NONCE_SIZE
        then Err (InvalidNonceLength XCHACHA20_POLY1305_NONCE_SIZE (length (eo_nonce ob)))
        else if length (eo_ciphertext ob) < XCHACHA20_POLY1305_TAG_SIZE
        then Err (CiphertextTooShort XCHACHA20_POLY1305_TAG_SIZE (length (eo_ciphertext ob)))
        else Ok ()))"


section \<open>The frame\<close>

definition MAGIC :: bytes where "MAGIC = str_bytes ''RSOB''"
definition VERSION :: byte where "VERSION = 1"
definition XCHACHA20_POLY1305_TAG :: byte where "XCHACHA20_POLY1305_TAG = 1"
definition FIXED_HEADER_LEN :: nat where "FIXED_HEADER_LEN = length MAGIC + 1 + 1 + 2 + 1"
definition MAX_ENCRYPTED_OBJECT_BYTES :: nat where "MAX_ENCRYPTED_OBJECT_BYTES = 1024 * 1024"

definition encode :: "EncryptedObject \<Rightarrow> bytes protocol_result" where
  "encode ob =
    and_then (validate_object ob) (\<lambda>_.
    let key_id = str_bytes (key_id_str (eo_key_id ob)) in
    and_then (ok_or (if length key_id < 2 ^ 16 then Some (length key_id) else None)
                InvalidEncryptedObjectBinary) (\<lambda>key_id_len.
    and_then (ok_or (Option.bind (Option.bind (checked_add_usize FIXED_HEADER_LEN (length key_id))
                 (\<lambda>l. checked_add_usize l (length (eo_nonce ob))))
                 (\<lambda>l. checked_add_usize l (length (eo_ciphertext ob))))
                InvalidEncryptedObjectBinary) (\<lambda>capacity.
    if capacity > MAX_ENCRYPTED_OBJECT_BYTES
    then Err (EncryptedObjectTooLarge MAX_ENCRYPTED_OBJECT_BYTES capacity)
    else and_then (ok_or (if length (eo_nonce ob) < 2 ^ 8 then Some (length (eo_nonce ob)) else None)
                     (InvalidNonceLength XCHACHA20_POLY1305_NONCE_SIZE (length (eo_nonce ob))))
      (\<lambda>nonce_len. Ok (MAGIC @ [VERSION] @ [XCHACHA20_POLY1305_TAG] @ be_bytes 2 key_id_len
         @ [of_nat nonce_len] @ key_id @ eo_nonce ob @ eo_ciphertext ob)))))"

record Cursor =
  cu_bytes :: bytes
  cu_position :: nat

definition cursor_new :: "bytes \<Rightarrow> Cursor" where
  "cursor_new bs = \<lparr>cu_bytes = bs, cu_position = 0\<rparr>"

definition cursor_take :: "Cursor \<Rightarrow> nat \<Rightarrow> (bytes \<times> Cursor) option" where
  "cursor_take c len =
    Option.bind (checked_add_usize (cu_position c) len) (\<lambda>end.
      if end \<le> length (cu_bytes c)
      then Some (take len (drop (cu_position c) (cu_bytes c)), c\<lparr>cu_position := end\<rparr>)
      else None)"

definition cursor_byte :: "Cursor \<Rightarrow> (byte \<times> Cursor) protocol_result" where
  "cursor_byte c = ok_or (Option.bind (cursor_take c 1)
     (\<lambda>(bs, c'). (case bs of b # _ \<Rightarrow> Some (b, c') | [] \<Rightarrow> None))) InvalidEncryptedObjectBinary"

definition cursor_array :: "Cursor \<Rightarrow> (bytes \<times> Cursor) protocol_result" where
  "cursor_array c = ok_or (cursor_take c 2) InvalidEncryptedObjectBinary"

definition cursor_remaining :: "Cursor \<Rightarrow> bytes" where
  "cursor_remaining c = (if cu_position c \<le> length (cu_bytes c)
     then drop (cu_position c) (cu_bytes c) else [])"

definition decode :: "bytes \<Rightarrow> EncryptedObject protocol_result" where
  "decode bs =
    (if length bs > MAX_ENCRYPTED_OBJECT_BYTES
     then Err (EncryptedObjectTooLarge MAX_ENCRYPTED_OBJECT_BYTES (length bs))
     else case cursor_take (cursor_new bs) (length MAGIC) of
       None \<Rightarrow> Err InvalidEncryptedObjectBinary
     | Some (magic, c1) \<Rightarrow>
        if magic \<noteq> MAGIC then Err InvalidEncryptedObjectBinary
        else and_then (cursor_byte c1) (\<lambda>(version, c2).
        if version \<noteq> VERSION then Err (UnsupportedEncryptedObjectVersion version)
        else and_then (cursor_byte c2) (\<lambda>(tag, c3).
        and_then (if tag = XCHACHA20_POLY1305_TAG then Ok XChaCha20Poly1305
                  else Err (UnsupportedContentEncryptionAlgorithm tag)) (\<lambda>algorithm.
        and_then (cursor_array c3) (\<lambda>(len_bytes, c4).
        let key_id_len = be_nat len_bytes in
        and_then (cursor_byte c4) (\<lambda>(nonce_byte, c5).
        let nonce_len = unat nonce_byte in
        and_then (ok_or (cursor_take c5 key_id_len) InvalidEncryptedObjectBinary)
          (\<lambda>(key_id_bytes, c6).
        and_then (ok_or (from_utf8 key_id_bytes) InvalidEncryptedObjectBinary) (\<lambda>key_id_text.
        and_then (map_err (parse_key_id key_id_text) (\<lambda>_. InvalidEncryptedObjectBinary)) (\<lambda>key_id.
        and_then (ok_or (cursor_take c6 nonce_len) InvalidEncryptedObjectBinary) (\<lambda>(nonce, c7).
        let ob = encrypted_object_new key_id algorithm nonce (cursor_remaining c7) in
        and_then (validate_object ob) (\<lambda>_. Ok ob)))))))))))"

definition from_remote_bytes :: "bytes \<Rightarrow> EncryptedObject protocol_result" where
  "from_remote_bytes bs =
    (if \<not> starts_with bs MAGIC then Err InvalidEncryptedObjectEncoding else decode bs)"


section \<open>Size bounds\<close>

lemma validate_object_Ok_iff [simp]:
  "validate_object ob = Ok u \<longleftrightarrow> length (eo_nonce ob) = 24 \<and> 16 \<le> length (eo_ciphertext ob)"
  by (auto simp: validate_object_def XCHACHA20_POLY1305_NONCE_SIZE_def
      XCHACHA20_POLY1305_TAG_SIZE_def split: ContentEncryptionAlgorithm.splits)

lemma length_MAGIC [simp]: "length MAGIC = 4"
  by (simp add: MAGIC_def)

lemma FIXED_HEADER_LEN_9 [simp]: "FIXED_HEADER_LEN = 9"
  by (simp add: FIXED_HEADER_LEN_def)

definition frame_of :: "EncryptedObject \<Rightarrow> bytes" where
  "frame_of ob = MAGIC @ [VERSION] @ [XCHACHA20_POLY1305_TAG]
     @ be_bytes 2 (length (key_id_str (eo_key_id ob))) @ [of_nat (length (eo_nonce ob))]
     @ str_bytes (key_id_str (eo_key_id ob)) @ eo_nonce ob @ eo_ciphertext ob"

lemma length_frame_of: "length (frame_of ob) =
    9 + length (key_id_str (eo_key_id ob)) + length (eo_nonce ob) + length (eo_ciphertext ob)"
  by (simp add: frame_of_def)

lemma encode_Ok_iff:
  "encode ob = Ok bs \<longleftrightarrow> length (eo_nonce ob) = 24 \<and> 16 \<le> length (eo_ciphertext ob)
     \<and> length (key_id_str (eo_key_id ob)) < 2 ^ 16
     \<and> length (frame_of ob) \<le> MAX_ENCRYPTED_OBJECT_BYTES \<and> bs = frame_of ob"
  by (auto simp: encode_def Let_def checked_add_usize_def length_frame_of frame_of_def
      MAX_ENCRYPTED_OBJECT_BYTES_def split: if_splits)


section \<open>The cursor\<close>

lemma cursor_take_iff:
  "cursor_take c n = Some (v, c') \<longleftrightarrow> cu_position c + n < 2 ^ 64
     \<and> cu_position c + n \<le> length (cu_bytes c)
     \<and> v = take n (drop (cu_position c) (cu_bytes c)) \<and> c' = c\<lparr>cu_position := cu_position c + n\<rparr>"
  by (auto simp: cursor_take_def checked_add_usize_def bind_eq_Some_conv)

text \<open>A cursor standing after \<^term>\<open>pre\<close> with \<^term>\<open>rest\<close> to come.\<close>

definition cursor_at :: "bytes \<Rightarrow> bytes \<Rightarrow> Cursor" where
  "cursor_at pre rest = \<lparr>cu_bytes = pre @ rest, cu_position = length pre\<rparr>"

lemma cursor_at_take:
  "length pre + n < 2 ^ 64 \<Longrightarrow> cursor_take (cursor_at pre rest) n =
    (if n \<le> length rest then Some (take n rest, cursor_at (pre @ take n rest) (drop n rest)) else None)"
  by (simp add: cursor_take_def cursor_at_def checked_add_usize_def)

lemma cursor_at_byte:
  "length pre + 1 < 2 ^ 64 \<Longrightarrow> cursor_byte (cursor_at pre rest) =
    (case rest of [] \<Rightarrow> Err InvalidEncryptedObjectBinary | b # r \<Rightarrow> Ok (b, cursor_at (pre @ [b]) r))"
  by (cases rest) (simp_all add: cursor_byte_def cursor_at_take)

lemma cursor_new_at: "cursor_new bs = cursor_at [] bs"
  by (simp add: cursor_new_def cursor_at_def)

lemma cursor_remaining_at [simp]: "cursor_remaining (cursor_at pre rest) = rest"
  by (simp add: cursor_remaining_def cursor_at_def)

lemma id_char_ascii: "id_char c \<Longrightarrow> (of_char c :: byte) < 0x80"
proof -
  assume "id_char c"
  then have "(of_char c :: nat) < 128"
    by (auto simp: id_char_def is_ascii_alphanumeric_def less_eq_char_def)
  then show ?thesis by (simp add: word_less_nat_alt)
qed

lemma key_id_ok_utf8: "key_id_ok k \<Longrightarrow> from_utf8 (str_bytes (key_id_str k)) = Some (key_id_str k)"
proof -
  assume "key_id_ok k"
  then have "list_all (\<lambda>b. b < 0x80) (str_bytes (key_id_str k))"
    by (auto simp: key_id_ok_def valid_text_id_def str_bytes_def list_all_iff id_char_ascii)
  then show ?thesis by (simp add: from_utf8_def utf8_valid_ascii)
qed


section \<open>Round trips\<close>

lemma be_nat_2: "n < 2 ^ 16 \<Longrightarrow> be_nat (be_bytes 2 n) = n"
  by (simp add: be_nat_be_bytes)

lemma decode_frame:
  assumes "key_id_ok (eo_key_id ob)" and "length (eo_nonce ob) = 24" and "16 \<le> length (eo_ciphertext ob)"
    and "length (frame_of ob) \<le> MAX_ENCRYPTED_OBJECT_BYTES"
  shows "decode (frame_of ob) = Ok ob"
proof -
  have alg: "eo_algorithm ob = XChaCha20Poly1305" by (cases "eo_algorithm ob")
  have k: "length (key_id_str (eo_key_id ob)) \<le> 64"
    using assms(1) by (simp add: key_id_ok_def valid_text_id_def)
  have "length (be_bytes 2 (length (key_id_str (eo_key_id ob)))) = 2" by simp
  then show ?thesis using assms k alg
    by (simp add: decode_def Let_def cursor_new_at frame_of_def cursor_at_take cursor_at_byte
        cursor_array_def be_nat_2 key_id_ok_utf8 encrypted_object_new_def not_less
        unat_of_nat_byte) (auto intro!: exI[of _ "eo_key_id ob"] EncryptedObject.equality)
qed

text \<open>A decoded input starts with the nine header bytes the decoder has checked.\<close>

lemma decode_header:
  assumes "decode bs = Ok ob"
  obtains l1 l2 n rest where "bs = MAGIC @ [VERSION, XCHACHA20_POLY1305_TAG, l1, l2, n] @ rest"
    and "length bs \<le> MAX_ENCRYPTED_OBJECT_BYTES"
proof -
  have len: "length bs \<le> MAX_ENCRYPTED_OBJECT_BYTES" and "4 \<le> length bs" and "take 4 bs = MAGIC"
    using assms by (auto simp: decode_def cursor_new_at cursor_at_take split: if_splits)
  then obtain r where r: "bs = MAGIC @ r" by (metis append_take_drop_id)
  obtain v r1 where r1: "r = v # r1"
    using assms by (cases r) (auto simp: r decode_def cursor_new_at cursor_at_take cursor_at_byte
        split: if_splits)
  have v: "v = VERSION"
    using assms by (auto simp: r r1 decode_def cursor_new_at cursor_at_take cursor_at_byte
        split: if_splits)
  obtain t r2 where r2: "r1 = t # r2"
    using assms by (cases r1) (auto simp: r r1 decode_def cursor_new_at cursor_at_take cursor_at_byte
        split: if_splits)
  have t: "t = XCHACHA20_POLY1305_TAG"
    using assms by (auto simp: r r1 r2 decode_def cursor_new_at cursor_at_take cursor_at_byte
        split: if_splits)
  obtain l1 l2 r3 where r3: "r2 = l1 # l2 # r3"
    using assms len by (cases r2 rule: remdups_adj.cases) (auto simp: r r1 r2 v t decode_def cursor_new_at
        cursor_at_take cursor_at_byte cursor_array_def split: if_splits)
  obtain n rest where "r3 = n # rest"
    using assms len by (cases r3) (auto simp: r r1 r2 r3 v t decode_def cursor_new_at Let_def
        cursor_at_take cursor_at_byte cursor_array_def split: if_splits)
  then show thesis using that r r1 v r2 t r3 len by simp
qed

lemma be_bytes_2: "be_bytes 2 (be_nat [a, b]) = [a, b]"
  using be_bytes_be_nat[of "[a, b]"] by (simp add: numeral_2_eq_2)

lemma be_nat_2_bound: "be_nat [a, b] < 65536"
  using be_nat_bound[of "[a, b]"] by simp

lemma decode_body:
  assumes "decode bs = Ok ob"
    and bs: "bs = MAGIC @ [VERSION, XCHACHA20_POLY1305_TAG, l1, l2, n] @ rest"
    and len: "length bs \<le> MAX_ENCRYPTED_OBJECT_BYTES"
  shows "key_id_ok (eo_key_id ob) \<and> length (eo_nonce ob) = 24 \<and> 16 \<le> length (eo_ciphertext ob)
    \<and> rest = str_bytes (key_id_str (eo_key_id ob)) @ eo_nonce ob @ eo_ciphertext ob
    \<and> be_nat [l1, l2] = length (key_id_str (eo_key_id ob)) \<and> unat n = 24"
proof -
  let ?k = "be_nat [l1, l2]"
  have small: "?k < 65536" "unat n < 256" by (simp_all add: be_nat_2_bound unat_byte_bound)
  have pos: "length MAGIC + 5 + ?k + unat n < 2 ^ 64" using small by simp
  obtain kt kid where k: "?k \<le> length rest" "from_utf8 (take ?k rest) = Some kt"
    "parse_key_id kt = Ok kid" and n: "unat n \<le> length (drop ?k rest)"
    and ob: "validate_object ob = Ok ()"
      "ob = encrypted_object_new kid XChaCha20Poly1305 (take (unat n) (drop ?k rest))
              (drop (unat n) (drop ?k rest))"
    using assms(1) len small unfolding bs
    by (auto simp: decode_def cursor_new_at Let_def cursor_at_take cursor_at_byte cursor_array_def
        split: if_splits)
  have "take ?k rest = str_bytes (key_id_str kid)" "key_id_ok kid"
    using k from_utf8_Some[of "take ?k rest" kt] by auto
  moreover from this have "?k = length (key_id_str kid)" using k(1)
    by (metis length_str_bytes length_take min.absorb2)
  moreover have "rest = take ?k rest @ take (unat n) (drop ?k rest) @ drop (unat n) (drop ?k rest)"
    by (simp only: append_take_drop_id)
  ultimately show ?thesis using ob n by (auto simp: encrypted_object_new_def)
qed

lemma decode_Ok_iff:
  "decode bs = Ok ob \<longleftrightarrow> key_id_ok (eo_key_id ob) \<and> length (eo_nonce ob) = 24
     \<and> 16 \<le> length (eo_ciphertext ob) \<and> length bs \<le> MAX_ENCRYPTED_OBJECT_BYTES \<and> bs = frame_of ob"
proof
  assume d: "decode bs = Ok ob"
  obtain l1 l2 n rest where bs: "bs = MAGIC @ [VERSION, XCHACHA20_POLY1305_TAG, l1, l2, n] @ rest"
    and len: "length bs \<le> MAX_ENCRYPTED_OBJECT_BYTES" using decode_header[OF d] .
  note body = decode_body[OF d bs len]
  have "be_bytes 2 (length (key_id_str (eo_key_id ob))) = [l1, l2]"
    using body be_bytes_2[of l1 l2] by simp
  moreover have "(of_nat 24 :: byte) = n" using body by (simp add: word_unat_eq_iff)
  ultimately have "bs = frame_of ob" using body by (simp add: bs frame_of_def)
  then show "key_id_ok (eo_key_id ob) \<and> length (eo_nonce ob) = 24
     \<and> 16 \<le> length (eo_ciphertext ob) \<and> length bs \<le> MAX_ENCRYPTED_OBJECT_BYTES \<and> bs = frame_of ob"
    using body len by simp
qed (auto intro: decode_frame)


section \<open>Properties\<close>

text \<open>
  Property C4: the RSOB v1 frame is canonical.  A byte string decodes to an encrypted object exactly
  when the object's key identifier is a valid one and encoding the object gives that byte string:
  every encoded object is read back as it was, every accepted byte string is the only encoding of
  what it decodes to, and content identifiers computed over frames identify objects.
\<close>

theorem rsob_frame_canonical:
  "decode bs = Ok ob \<longleftrightarrow> key_id_ok (eo_key_id ob) \<and> encode ob = Ok bs"
  by (auto simp: decode_Ok_iff encode_Ok_iff key_id_ok_def valid_text_id_def)

end
