(* ===== verification/Device.thy ===== *)
theory Device
  imports Ids
begin

text \<open>
  \<^verbatim>\<open>rustsync-protocol/src/device\<close> and the sealed key envelope record of
  \<^verbatim>\<open>object/envelope.rs\<close>: device records, their fingerprints and signature checks, signed
  join requests, and the payloads that are signed.  The cryptographic packages are parameters,
  bundled in one record.
\<close>

section \<open>Third-party primitives\<close>

text \<open>SHA-256 (\<^verbatim>\<open>sha2\<close>), unpadded URL-safe base64 (\<^verbatim>\<open>base64\<close>), and the three operations of
  \<^verbatim>\<open>ed25519_dalek\<close> the code calls: whether 32 bytes are a verifying key, whether a byte string
  has the form of a signature, and verification of a message under a key.\<close>

record crypto =
  cr_sha256 :: "bytes \<Rightarrow> bytes"
  cr_base64 :: "bytes \<Rightarrow> string"
  cr_key_from_bytes :: "bytes \<Rightarrow> bool"
  cr_signature_from_slice :: "bytes \<Rightarrow> bool"
  cr_verify :: "bytes \<Rightarrow> bytes \<Rightarrow> bytes \<Rightarrow> bool"


section \<open>Device records\<close>

datatype DeviceStatus = Pending | ActiveDevice | Revoked

record DeviceRecord =
  dr_device_id :: DeviceId
  dr_device_name :: string
  dr_signing_public_key :: bytes
  dr_exchange_public_key :: bytes
  dr_fingerprint :: string
  dr_status :: DeviceStatus

fun chunks :: "nat \<Rightarrow> 'a list \<Rightarrow> 'a list list" where
  "chunks n [] = []"
| "chunks n (x # xs) = (x # take (n - 1) xs) # chunks n (drop (n - 1) xs)"

definition ascii_upper :: "char \<Rightarrow> char" where
  "ascii_upper c = (if CHR ''a'' \<le> c \<and> c \<le> CHR ''z'' then char_of ((of_char c :: nat) - 32) else c)"

definition short_fingerprint :: "crypto \<Rightarrow> bytes \<Rightarrow> string" where
  "short_fingerprint cx bs =
    (let n = min (length bs) 10;
         encoded = map ascii_upper (cr_base64 cx (take n bs))
     in join_with ''-'' (chunks 4 encoded))"

definition fingerprint_from_public_keys :: "crypto \<Rightarrow> bytes \<Rightarrow> bytes \<Rightarrow> string" where
  "fingerprint_from_public_keys cx sk xk = short_fingerprint cx (cr_sha256 cx (sk @ xk))"

definition DEVICE_SIGNATURE_DOMAIN :: bytes where
  "DEVICE_SIGNATURE_DOMAIN = str_bytes ''rustsync/device-signature''"
definition ACCESS_EVENT_DOMAIN :: bytes where
  "ACCESS_EVENT_DOMAIN = str_bytes ''rustsync/access-event''"
definition DEVICE_JOIN_REQUEST_DOMAIN :: bytes where
  "DEVICE_JOIN_REQUEST_DOMAIN = str_bytes ''rustsync/device-join-request''"
definition KEY_ENVELOPE_DOMAIN :: bytes where
  "KEY_ENVELOPE_DOMAIN = str_bytes ''rustsync/key-envelope''"

definition device_signature_payload :: "bytes \<Rightarrow> bytes" where
  "device_signature_payload message = push_bytes (push_bytes [] DEVICE_SIGNATURE_DOMAIN) message"

definition validate_device :: "crypto \<Rightarrow> DeviceRecord \<Rightarrow> unit protocol_result" where
  "validate_device cx d =
    (if trim_is_empty (dr_device_name d) then Err InvalidDeviceName
     else let expected = fingerprint_from_public_keys cx (dr_signing_public_key d)
                           (dr_exchange_public_key d) in
       if expected \<noteq> dr_fingerprint d then Err (FingerprintMismatch expected (dr_fingerprint d))
       else if \<not> cr_key_from_bytes cx (dr_signing_public_key d) then Err InvalidPublicKey
       else Ok ())"

definition verify_device_signature ::
  "crypto \<Rightarrow> DeviceRecord \<Rightarrow> bytes \<Rightarrow> bytes \<Rightarrow> unit protocol_result" where
  "verify_device_signature cx d message signature =
    and_then (validate_device cx d) (\<lambda>_.
      if \<not> cr_key_from_bytes cx (dr_signing_public_key d) then Err InvalidPublicKey
      else if \<not> cr_signature_from_slice cx signature then Err InvalidSignature
      else if cr_verify cx (dr_signing_public_key d) (device_signature_payload message) signature
      then Ok () else Err InvalidSignature)"

definition activate :: "DeviceRecord \<Rightarrow> DeviceRecord" where
  "activate d = d\<lparr>dr_status := ActiveDevice\<rparr>"
definition revoke :: "DeviceRecord \<Rightarrow> DeviceRecord" where
  "revoke d = d\<lparr>dr_status := Revoked\<rparr>"
definition is_active :: "DeviceRecord \<Rightarrow> bool" where
  "is_active d \<longleftrightarrow> dr_status d = ActiveDevice"
definition is_pending :: "DeviceRecord \<Rightarrow> bool" where
  "is_pending d \<longleftrightarrow> dr_status d = Pending"
definition is_revoked :: "DeviceRecord \<Rightarrow> bool" where
  "is_revoked d \<longleftrightarrow> dr_status d = Revoked"

definition device_valid :: "crypto \<Rightarrow> DeviceRecord \<Rightarrow> bool" where
  "device_valid cx d \<longleftrightarrow> validate_device cx d = Ok ()"

text \<open>The status is not part of what validation checks.\<close>

lemma validate_device_status [simp]: "validate_device cx (d\<lparr>dr_status := s\<rparr>) = validate_device cx d"
  by (simp add: validate_device_def Let_def)

lemma device_valid_status [simp]: "device_valid cx (d\<lparr>dr_status := s\<rparr>) = device_valid cx d"
  by (simp add: device_valid_def)

lemma verify_device_signature_Ok_iff [simp]:
  "verify_device_signature cx d m sg = Ok u \<longleftrightarrow> device_valid cx d \<and> cr_signature_from_slice cx sg
     \<and> cr_verify cx (dr_signing_public_key d) (device_signature_payload m) sg"
  by (auto simp: verify_device_signature_def device_valid_def validate_device_def Let_def)


section \<open>Join requests\<close>

record DeviceJoinRequest =
  jr_request_id :: JoinRequestId
  jr_workspace_id :: WorkspaceId
  jr_device :: DeviceRecord
  jr_created_at :: u64
  jr_signature :: bytes

definition join_request_new_unsigned ::
  "JoinRequestId \<Rightarrow> WorkspaceId \<Rightarrow> DeviceRecord \<Rightarrow> u64 \<Rightarrow> DeviceJoinRequest" where
  "join_request_new_unsigned rid w d t = \<lparr>jr_request_id = rid, jr_workspace_id = w,
     jr_device = d\<lparr>dr_status := Pending\<rparr>, jr_created_at = t, jr_signature = []\<rparr>"

definition join_request_with_signature :: "DeviceJoinRequest \<Rightarrow> bytes \<Rightarrow> DeviceJoinRequest" where
  "join_request_with_signature r sg = r\<lparr>jr_signature := sg\<rparr>"

fun device_status_name :: "DeviceStatus \<Rightarrow> string" where
  "device_status_name Pending = ''pending''"
| "device_status_name ActiveDevice = ''active''"
| "device_status_name Revoked = ''revoked''"

definition join_push_device_record :: "bytes \<Rightarrow> DeviceRecord \<Rightarrow> bytes" where
  "join_push_device_record out d =
    (let out = push_str out (device_id_str (dr_device_id d));
         out = push_str out (dr_device_name d);
         out = push_bytes out (dr_signing_public_key d);
         out = push_bytes out (dr_exchange_public_key d);
         out = push_str out (dr_fingerprint d)
     in push_str out (device_status_name (dr_status d)))"

definition join_signing_payload :: "DeviceJoinRequest \<Rightarrow> bytes" where
  "join_signing_payload r =
    (let out = push_bytes [] DEVICE_JOIN_REQUEST_DOMAIN;
         out = push_str out (join_request_id_str (jr_request_id r));
         out = push_str out (workspace_id_str (jr_workspace_id r));
         out = join_push_device_record out (jr_device r)
     in push_u64 out (jr_created_at r))"

definition validate_join_request :: "crypto \<Rightarrow> DeviceJoinRequest \<Rightarrow> unit protocol_result" where
  "validate_join_request cx r =
    (if jr_signature r = [] then Err (InvalidJoinRequest ''.signature is missing'')
     else if \<not> is_pending (jr_device r)
     then Err (InvalidJoinRequest ''joining device must have pending status'')
     else validate_device cx (jr_device r))"

definition verify_join_request_signature :: "crypto \<Rightarrow> DeviceJoinRequest \<Rightarrow> unit protocol_result" where
  "verify_join_request_signature cx r =
    and_then (validate_join_request cx r)
      (\<lambda>_. verify_device_signature cx (jr_device r) (join_signing_payload r) (jr_signature r))"

definition verify_for_workspace ::
  "crypto \<Rightarrow> DeviceJoinRequest \<Rightarrow> WorkspaceId \<Rightarrow> unit protocol_result" where
  "verify_for_workspace cx r expected =
    (if jr_workspace_id r \<noteq> expected
     then Err (WorkspaceMismatch (workspace_id_str expected) (workspace_id_str (jr_workspace_id r)))
     else verify_join_request_signature cx r)"


section \<open>Key envelopes\<close>

datatype EnvelopeAlgorithm = X25519HkdfSha256XChaCha20Poly1305

record KeyEnvelope =
  ke_workspace_id :: WorkspaceId
  ke_key_id :: KeyId
  ke_key_generation :: u64
  ke_access_revision :: u64
  ke_sender_device_id :: DeviceId
  ke_recipient_device_id :: DeviceId
  ke_algorithm :: EnvelopeAlgorithm
  ke_sender_ephemeral_public_key :: bytes
  ke_nonce :: bytes
  ke_encrypted_workspace_key :: bytes
  ke_created_at :: u64
  ke_signature :: bytes

fun envelope_algorithm_str :: "EnvelopeAlgorithm \<Rightarrow> string" where
  "envelope_algorithm_str X25519HkdfSha256XChaCha20Poly1305 = ''x25519-hkdf-sha256-xchacha20poly1305''"

definition validate_envelope :: "KeyEnvelope \<Rightarrow> unit protocol_result" where
  "validate_envelope e =
    (if ke_key_generation e = 0 then Err (InvalidKeyGeneration (ke_key_generation e))
     else if ke_encrypted_workspace_key e = [] then Err EmptyCiphertext
     else if ke_signature e = [] then Err InvalidSignature
     else Ok ())"

definition envelope_context_bytes :: "KeyEnvelope \<Rightarrow> bytes" where
  "envelope_context_bytes e =
    (let out = push_bytes [] KEY_ENVELOPE_DOMAIN;
         out = push_str out (workspace_id_str (ke_workspace_id e));
         out = push_str out (key_id_str (ke_key_id e));
         out = push_u64 out (ke_key_generation e);
         out = push_u64 out (ke_access_revision e);
         out = push_str out (device_id_str (ke_sender_device_id e));
         out = push_str out (device_id_str (ke_recipient_device_id e));
         out = push_str out (envelope_algorithm_str (ke_algorithm e))
     in push_u64 out (ke_created_at e))"

definition envelope_signing_payload :: "KeyEnvelope \<Rightarrow> bytes" where
  "envelope_signing_payload e =
    (let out = envelope_context_bytes e;
         out = push_bytes out (ke_sender_ephemeral_public_key e);
         out = push_bytes out (ke_nonce e)
     in push_bytes out (ke_encrypted_workspace_key e))"

definition verify_sender_signature ::
  "crypto \<Rightarrow> KeyEnvelope \<Rightarrow> DeviceRecord \<Rightarrow> unit protocol_result" where
  "verify_sender_signature cx e sender =
    and_then (validate_envelope e) (\<lambda>_.
      if dr_device_id sender \<noteq> ke_sender_device_id e
      then Err (InvalidAccessEvent (''envelope sender `'' @ device_id_str (ke_sender_device_id e)
             @ ''` does not match record `'' @ device_id_str (dr_device_id sender) @ ''`''))
      else verify_device_signature cx sender (envelope_signing_payload e) (ke_signature e))"


lemma verify_sender_signature_Ok_iff:
  "verify_sender_signature cx e sender = Ok u \<longleftrightarrow> validate_envelope e = Ok ()
     \<and> dr_device_id sender = ke_sender_device_id e
     \<and> verify_device_signature cx sender (envelope_signing_payload e) (ke_signature e) = Ok ()"
  by (auto simp: verify_sender_signature_def)


section \<open>Payloads determine what was signed\<close>

text \<open>Field lengths of values that exist in memory fit the eight length bytes.\<close>

definition device_wire_ok :: "DeviceRecord \<Rightarrow> bool" where
  "device_wire_ok d \<longleftrightarrow> wire_len (device_id_str (dr_device_id d)) \<and> wire_len (dr_device_name d)
     \<and> wire_len (dr_signing_public_key d) \<and> wire_len (dr_exchange_public_key d)
     \<and> wire_len (dr_fingerprint d)"

definition join_wire_ok :: "DeviceJoinRequest \<Rightarrow> bool" where
  "join_wire_ok r \<longleftrightarrow> wire_len (join_request_id_str (jr_request_id r))
     \<and> wire_len (workspace_id_str (jr_workspace_id r)) \<and> device_wire_ok (jr_device r)"

definition envelope_wire_ok :: "KeyEnvelope \<Rightarrow> bool" where
  "envelope_wire_ok e \<longleftrightarrow> wire_len (workspace_id_str (ke_workspace_id e))
     \<and> wire_len (key_id_str (ke_key_id e)) \<and> wire_len (device_id_str (ke_sender_device_id e))
     \<and> wire_len (device_id_str (ke_recipient_device_id e))
     \<and> wire_len (ke_sender_ephemeral_public_key e) \<and> wire_len (ke_nonce e)
     \<and> wire_len (ke_encrypted_workspace_key e)"

lemma domains_differ:
  "ACCESS_EVENT_DOMAIN \<noteq> DEVICE_JOIN_REQUEST_DOMAIN" "ACCESS_EVENT_DOMAIN \<noteq> KEY_ENVELOPE_DOMAIN"
  "DEVICE_JOIN_REQUEST_DOMAIN \<noteq> KEY_ENVELOPE_DOMAIN"
  by (simp_all add: ACCESS_EVENT_DOMAIN_def DEVICE_JOIN_REQUEST_DOMAIN_def KEY_ENVELOPE_DOMAIN_def)

lemma domains_wire_len [simp]:
  "wire_len ACCESS_EVENT_DOMAIN" "wire_len DEVICE_JOIN_REQUEST_DOMAIN" "wire_len KEY_ENVELOPE_DOMAIN"
  "wire_len DEVICE_SIGNATURE_DOMAIN"
  by (simp_all add: ACCESS_EVENT_DOMAIN_def DEVICE_JOIN_REQUEST_DOMAIN_def KEY_ENVELOPE_DOMAIN_def
      DEVICE_SIGNATURE_DOMAIN_def) (simp_all add: wire_len_def)

lemma status_name_inj [simp]: "device_status_name a = device_status_name b \<longleftrightarrow> a = b"
  by (cases a; cases b) simp_all

lemma status_name_wire_len [simp]: "wire_len (device_status_name a)"
  by (cases a) (simp_all add: wire_len_def)

lemma algorithm_str_wire_len [simp]: "wire_len (envelope_algorithm_str a)"
  by (cases a) (simp add: wire_len_def)

lemma algorithm_unique [simp]: "(a :: EnvelopeAlgorithm) = b"
  by (cases a; cases b) simp

lemma algorithm_str_unique [simp]: "envelope_algorithm_str a = envelope_algorithm_str b"
  by (rule arg_cong[of _ _ envelope_algorithm_str]) simp

lemma id_str_inj:
  "device_id_str a = device_id_str b \<longleftrightarrow> a = b" "workspace_id_str v = workspace_id_str w \<longleftrightarrow> v = w"
  "key_id_str k = key_id_str l \<longleftrightarrow> k = l" "join_request_id_str i = join_request_id_str j \<longleftrightarrow> i = j"
  "access_event_id_str e = access_event_id_str f \<longleftrightarrow> e = f"
  by (auto intro: DeviceId.expand WorkspaceId.expand KeyId.expand JoinRequestId.expand
      AccessEventId.expand)

lemma join_signing_payload_inj:
  assumes "join_wire_ok r" and "join_wire_ok r'"
  shows "join_signing_payload r = join_signing_payload r' \<longleftrightarrow>
         r\<lparr>jr_signature := []\<rparr> = r'\<lparr>jr_signature := []\<rparr>"
proof -
  obtain i w d t sg where r: "r = \<lparr>jr_request_id = i, jr_workspace_id = w, jr_device = d,
    jr_created_at = t, jr_signature = sg\<rparr>" by (cases r)
  obtain i' w' d' t' sg' where r': "r' = \<lparr>jr_request_id = i', jr_workspace_id = w', jr_device = d',
    jr_created_at = t', jr_signature = sg'\<rparr>" by (cases r')
  show ?thesis using assms unfolding r r'
    by (cases d; cases d')
       (simp add: join_wire_ok_def device_wire_ok_def join_signing_payload_def Let_def push_simps
        join_push_device_record_def wire_field_append_inj wire_field_inj id_str_inj)
qed

lemma envelope_signing_payload_inj:
  assumes "envelope_wire_ok e" and "envelope_wire_ok e'"
  shows "envelope_signing_payload e = envelope_signing_payload e' \<longleftrightarrow>
         e\<lparr>ke_signature := []\<rparr> = e'\<lparr>ke_signature := []\<rparr>"
  using assms
  by (cases e; cases e')
     (auto simp: envelope_wire_ok_def envelope_signing_payload_def envelope_context_bytes_def
      Let_def push_simps wire_field_append_inj wire_field_inj id_str_inj)

lemma envelope_context_bytes_inj:
  assumes "envelope_wire_ok e" and "envelope_wire_ok e'"
  shows "envelope_context_bytes e = envelope_context_bytes e' \<longleftrightarrow>
         ke_workspace_id e = ke_workspace_id e' \<and> ke_key_id e = ke_key_id e'
       \<and> ke_key_generation e = ke_key_generation e' \<and> ke_access_revision e = ke_access_revision e'
       \<and> ke_sender_device_id e = ke_sender_device_id e'
       \<and> ke_recipient_device_id e = ke_recipient_device_id e' \<and> ke_created_at e = ke_created_at e'"
  using assms
  by (simp add: envelope_wire_ok_def envelope_context_bytes_def
      Let_def push_simps wire_field_append_inj wire_field_inj id_str_inj)

lemma device_signature_payload_inj:
  "wire_len m \<Longrightarrow> wire_len n \<Longrightarrow> device_signature_payload m = device_signature_payload n \<longleftrightarrow> m = n"
  by (simp add: device_signature_payload_def push_simps wire_field_append_inj wire_field_inj)

lemma join_envelope_payload_differ: "join_signing_payload r \<noteq> envelope_signing_payload e"
  using domains_differ(3)
  by (simp add: join_signing_payload_def envelope_signing_payload_def envelope_context_bytes_def
      join_push_device_record_def Let_def push_simps wire_field_append_inj)

end
