(* ===== verification/Access_Event.thy ===== *)
theory Access_Event
  imports Device
begin

text \<open>
  \<^verbatim>\<open>rustsync-protocol/src/access/event.rs\<close> with \<^verbatim>\<open>role.rs\<close>: roles and what they
  permit, the access events, their validation, the payload their signature covers, and the checks
  of an event against its actor's record and against the join request it approves.
\<close>

section \<open>Roles\<close>

datatype WorkspaceRole = Owner | Member

fun allows :: "WorkspaceRole \<Rightarrow> WorkspacePermission \<Rightarrow> bool" where
  "allows Owner permission = True"
| "allows Member permission = (case permission of
     ReadObjects \<Rightarrow> True | WriteObjects \<Rightarrow> True | UpdateHead \<Rightarrow> True | ReadDevices \<Rightarrow> True
   | ReadAccessHistory \<Rightarrow> True | _ \<Rightarrow> False)"

definition can_manage_access :: "WorkspaceRole \<Rightarrow> bool" where
  "can_manage_access role \<longleftrightarrow> role = Owner"

definition can_sync :: "WorkspaceRole \<Rightarrow> bool" where
  "can_sync role \<longleftrightarrow> allows role ReadObjects \<and> allows role WriteObjects \<and> allows role UpdateHead"


section \<open>Events\<close>

datatype AccessEvent =
    WorkspaceCreated DeviceRecord
  | DeviceJoined JoinRequestId DeviceRecord WorkspaceRole
  | DeviceRoleChanged DeviceId WorkspaceRole
  | DeviceRemoved DeviceId
  | RestrictedKeyGranted KeyId u64 DeviceId
  | RestrictedKeyRevoked KeyId u64 DeviceId

record SignedAccessEvent =
  ev_event_id :: AccessEventId
  ev_workspace_id :: WorkspaceId
  ev_expected_revision :: u64
  ev_actor_device_id :: DeviceId
  ev_created_at :: u64
  ev_event :: AccessEvent
  ev_signature :: bytes

fun required_permission :: "AccessEvent \<Rightarrow> WorkspacePermission option" where
  "required_permission (WorkspaceCreated _) = None"
| "required_permission (DeviceJoined _ _ _) = Some ManageDevices"
| "required_permission (DeviceRemoved _) = Some ManageDevices"
| "required_permission (DeviceRoleChanged _ _) = Some ManageRoles"
| "required_permission (RestrictedKeyGranted _ _ _) = Some ManageKeys"
| "required_permission (RestrictedKeyRevoked _ _ _) = Some ManageKeys"

fun validate_event :: "crypto \<Rightarrow> AccessEvent \<Rightarrow> unit protocol_result" where
  "validate_event cx (WorkspaceCreated owner) =
    and_then (validate_device cx owner) (\<lambda>_.
      if dr_status owner \<noteq> ActiveDevice
      then Err (InvalidAccessEvent ''workspace owner must have active status'')
      else Ok ())"
| "validate_event cx (DeviceJoined _ device _) =
    and_then (validate_device cx device) (\<lambda>_.
      if dr_status device \<noteq> Pending
      then Err (InvalidAccessEvent ''joined device record must have pending status'')
      else Ok ())"
| "validate_event cx (RestrictedKeyGranted _ generation _) =
    (if generation = 0 then Err (InvalidKeyGeneration generation) else Ok ())"
| "validate_event cx (RestrictedKeyRevoked _ generation _) =
    (if generation = 0 then Err (InvalidKeyGeneration generation) else Ok ())"
| "validate_event cx (DeviceRoleChanged _ _) = Ok ()"
| "validate_event cx (DeviceRemoved _) = Ok ()"

definition event_new_unsigned :: "AccessEventId \<Rightarrow> WorkspaceId \<Rightarrow> u64 \<Rightarrow> DeviceId \<Rightarrow> u64 \<Rightarrow>
    AccessEvent \<Rightarrow> SignedAccessEvent" where
  "event_new_unsigned eid w rv actor t e = \<lparr>ev_event_id = eid, ev_workspace_id = w,
     ev_expected_revision = rv, ev_actor_device_id = actor, ev_created_at = t, ev_event = e,
     ev_signature = []\<rparr>"

definition event_with_signature :: "SignedAccessEvent \<Rightarrow> bytes \<Rightarrow> SignedAccessEvent" where
  "event_with_signature e sg = e\<lparr>ev_signature := sg\<rparr>"

definition validate_signed_event :: "crypto \<Rightarrow> SignedAccessEvent \<Rightarrow> unit protocol_result" where
  "validate_signed_event cx e =
    (if ev_signature e = [] then Err (InvalidAccessEvent ''signature is missing'')
     else validate_event cx (ev_event e))"

fun device_status_tag :: "DeviceStatus \<Rightarrow> byte" where
  "device_status_tag Pending = 1"
| "device_status_tag ActiveDevice = 2"
| "device_status_tag Revoked = 3"

definition push_device_record :: "bytes \<Rightarrow> DeviceRecord \<Rightarrow> bytes" where
  "push_device_record out d =
    (let out = push_str out (device_id_str (dr_device_id d));
         out = push_str out (dr_device_name d);
         out = push_bytes out (dr_signing_public_key d);
         out = push_bytes out (dr_exchange_public_key d);
         out = push_str out (dr_fingerprint d)
     in push_u8 out (device_status_tag (dr_status d)))"

fun push_role :: "bytes \<Rightarrow> WorkspaceRole \<Rightarrow> bytes" where
  "push_role out Owner = push_u8 out 1"
| "push_role out Member = push_u8 out 2"

fun push_access_event :: "bytes \<Rightarrow> AccessEvent \<Rightarrow> bytes" where
  "push_access_event out (WorkspaceCreated owner) = push_device_record (push_u8 out 1) owner"
| "push_access_event out (DeviceJoined rid device role) =
    (let out = push_u8 out 2;
         out = push_str out (join_request_id_str rid);
         out = push_device_record out device
     in push_role out role)"
| "push_access_event out (DeviceRoleChanged device_id new_role) =
    (let out = push_u8 out 3;
         out = push_str out (device_id_str device_id)
     in push_role out new_role)"
| "push_access_event out (DeviceRemoved device_id) =
    (let out = push_u8 out 4 in push_str out (device_id_str device_id))"
| "push_access_event out (RestrictedKeyGranted key_id generation device_id) =
    (let out = push_u8 out 5;
         out = push_str out (key_id_str key_id);
         out = push_u64 out generation
     in push_str out (device_id_str device_id))"
| "push_access_event out (RestrictedKeyRevoked key_id generation device_id) =
    (let out = push_u8 out 6;
         out = push_str out (key_id_str key_id);
         out = push_u64 out generation
     in push_str out (device_id_str device_id))"

definition event_signing_payload :: "SignedAccessEvent \<Rightarrow> bytes" where
  "event_signing_payload e =
    (let out = push_bytes [] ACCESS_EVENT_DOMAIN;
         out = push_str out (access_event_id_str (ev_event_id e));
         out = push_str out (workspace_id_str (ev_workspace_id e));
         out = push_u64 out (ev_expected_revision e);
         out = push_str out (device_id_str (ev_actor_device_id e));
         out = push_u64 out (ev_created_at e)
     in push_access_event out (ev_event e))"

definition verify_event_signature ::
  "crypto \<Rightarrow> SignedAccessEvent \<Rightarrow> DeviceRecord \<Rightarrow> unit protocol_result" where
  "verify_event_signature cx e actor =
    and_then (validate_signed_event cx e) (\<lambda>_.
      if dr_device_id actor \<noteq> ev_actor_device_id e
      then Err (InvalidAccessEvent (''actore record `'' @ device_id_str (dr_device_id actor)
             @ ''` does not match event actor `'' @ device_id_str (ev_actor_device_id e) @ ''`''))
      else verify_device_signature cx actor (event_signing_payload e) (ev_signature e))"

definition event_verify_join_request ::
  "SignedAccessEvent \<Rightarrow> DeviceJoinRequest \<Rightarrow> unit protocol_result" where
  "event_verify_join_request e request =
    (case ev_event e of
       DeviceJoined join_request_id device _ \<Rightarrow>
         (if join_request_id \<noteq> jr_request_id request
          then Err (InvalidAccessEvent ''join request ID does not match event'')
          else if device \<noteq> jr_device request
          then Err (InvalidAccessEvent ''join request device does not match event device'')
          else if ev_workspace_id e \<noteq> jr_workspace_id request
          then Err (InvalidAccessEvent ''join request workspace does not match event workspace'')
          else Ok ())
     | _ \<Rightarrow> Err (InvalidAccessEvent ''event is not a device join event''))"


section \<open>Facts\<close>

text \<open>Ownership is needed for every event but the first.\<close>

lemma required_permission_owner_only:
  "required_permission e = Some p \<Longrightarrow> allows role p \<longleftrightarrow> role = Owner"
  by (cases e; cases role) auto

lemma required_permission_None_iff: "required_permission e = None \<longleftrightarrow> (\<exists>d. e = WorkspaceCreated d)"
  by (cases e) auto

lemma verify_event_signature_Ok_iff:
  "verify_event_signature cx e actor = Ok u \<longleftrightarrow> validate_signed_event cx e = Ok ()
     \<and> dr_device_id actor = ev_actor_device_id e
     \<and> verify_device_signature cx actor (event_signing_payload e) (ev_signature e) = Ok ()"
  by (auto simp: verify_event_signature_def)

lemma event_verify_join_request_Ok_iff:
  "event_verify_join_request e r = Ok u \<longleftrightarrow>
     (\<exists>role. ev_event e = DeviceJoined (jr_request_id r) (jr_device r) role)
     \<and> ev_workspace_id e = jr_workspace_id r"
  by (auto simp: event_verify_join_request_def split: AccessEvent.splits if_splits)

fun event_wire_ok :: "AccessEvent \<Rightarrow> bool" where
  "event_wire_ok (WorkspaceCreated d) = device_wire_ok d"
| "event_wire_ok (DeviceJoined i d _) = (wire_len (join_request_id_str i) \<and> device_wire_ok d)"
| "event_wire_ok (DeviceRoleChanged d _) = wire_len (device_id_str d)"
| "event_wire_ok (DeviceRemoved d) = wire_len (device_id_str d)"
| "event_wire_ok (RestrictedKeyGranted k _ d) = (wire_len (key_id_str k) \<and> wire_len (device_id_str d))"
| "event_wire_ok (RestrictedKeyRevoked k _ d) = (wire_len (key_id_str k) \<and> wire_len (device_id_str d))"

definition signed_event_wire_ok :: "SignedAccessEvent \<Rightarrow> bool" where
  "signed_event_wire_ok e \<longleftrightarrow> wire_len (access_event_id_str (ev_event_id e))
     \<and> wire_len (workspace_id_str (ev_workspace_id e))
     \<and> wire_len (device_id_str (ev_actor_device_id e)) \<and> event_wire_ok (ev_event e)"

lemma status_tag_inj [simp]: "device_status_tag a = device_status_tag b \<longleftrightarrow> a = b"
  by (cases a; cases b) simp_all

lemma push_role_eq: "push_role out r = out @ wire_field [if r = Owner then 1 else 2]"
  by (cases r) (simp_all add: push_simps)

definition device_fields :: "DeviceRecord \<Rightarrow> bytes" where
  "device_fields d = push_device_record [] d"

lemma push_device_record_eq: "push_device_record out d = out @ device_fields d"
  by (simp add: device_fields_def push_device_record_def Let_def push_simps)

lemma device_fields_append_inj:
  assumes "device_wire_ok d" and "device_wire_ok e"
  shows "device_fields d @ r = device_fields e @ s \<longleftrightarrow> d = e \<and> r = s"
  using assms
  by (cases d; cases e)
     (auto simp: device_fields_def push_device_record_def Let_def push_simps device_wire_ok_def
        wire_field_append_inj id_str_inj)

lemma device_fields_inj:
  "device_wire_ok d \<Longrightarrow> device_wire_ok e \<Longrightarrow> device_fields d = device_fields e \<longleftrightarrow> d = e"
  using device_fields_append_inj[of d e "[]" "[]"] by simp

lemma role_byte_inj [simp]:
  "(if r = Owner then 1 else (2 :: byte)) = (if r' = Owner then 1 else 2) \<longleftrightarrow> r = r'"
  by (cases r; cases r') simp_all

lemma push_access_event_inj:
  assumes "event_wire_ok e" and "event_wire_ok f"
  shows "push_access_event out e = push_access_event out f \<longleftrightarrow> e = f"
  using assms
  by (cases e; cases f)
     (simp_all add: Let_def push_simps push_role_eq push_device_record_eq wire_field_append_inj
       wire_field_inj device_fields_append_inj device_fields_inj id_str_inj)

lemma push_access_event_append: "push_access_event out e = out @ push_access_event [] e"
  by (cases e) (simp_all add: Let_def push_simps push_role_eq push_device_record_eq)

lemma event_signing_payload_inj:
  assumes "signed_event_wire_ok e" and "signed_event_wire_ok f"
  shows "event_signing_payload e = event_signing_payload f \<longleftrightarrow>
         e\<lparr>ev_signature := []\<rparr> = f\<lparr>ev_signature := []\<rparr>"
proof -
  have "event_signing_payload e = event_signing_payload f \<longleftrightarrow>
      ev_event_id e = ev_event_id f \<and> ev_workspace_id e = ev_workspace_id f
    \<and> ev_expected_revision e = ev_expected_revision f \<and> ev_actor_device_id e = ev_actor_device_id f
    \<and> ev_created_at e = ev_created_at f \<and> ev_event e = ev_event f"
    using assms
    by (simp add: signed_event_wire_ok_def event_signing_payload_def Let_def push_simps
        push_access_event_append[of "_ @ _"] wire_field_append_inj id_str_inj push_access_event_inj)
  then show ?thesis by (cases e; cases f) auto
qed

lemma event_payload_domain:
  "event_signing_payload e \<noteq> join_signing_payload r" "event_signing_payload e \<noteq> envelope_signing_payload k"
  using domains_differ
  by (simp_all add: event_signing_payload_def join_signing_payload_def envelope_signing_payload_def
      envelope_context_bytes_def join_push_device_record_def Let_def push_simps
      push_access_event_append[of "_ @ _"] wire_field_append_inj)

end
