(* ===== verification/Access_Invariant.thy ===== *)
theory Access_Invariant
  imports Access_State
begin

text \<open>
  What every reachable access state satisfies, stated pointwise on the lookups of the state, and
  the proof that applying an event keeps it: the final validation of
  \<^const>\<open>apply_verified_event\<close> never fails, so the operation is atomic.
\<close>

section \<open>Lookups after updates\<close>

lemma membership_insert [simp]:
  "membership (insert_membership st m) = (membership st)(mb_device_id m \<mapsto> m)"
  by (simp add: membership_def insert_membership_def fun_eq_iff)

lemma insert_membership_other [simp]:
  "as_devices (insert_membership st m) = as_devices st"
  "as_key_grants (insert_membership st m) = as_key_grants st"
  "as_revision (insert_membership st m) = as_revision st"
  "as_workspace_id (insert_membership st m) = as_workspace_id st"
  "device_record (insert_membership st m) = device_record st"
  "key_grant (insert_membership st m) = key_grant st"
  by (simp_all add: insert_membership_def device_record_def key_grant_def fun_eq_iff)

lemma device_record_insert [simp]:
  "device_record (insert_device_record st d) = (device_record st)(dr_device_id d \<mapsto> d)"
  by (simp add: device_record_def insert_device_record_def fun_eq_iff)

lemma insert_device_record_other [simp]:
  "as_memberships (insert_device_record st d) = as_memberships st"
  "as_key_grants (insert_device_record st d) = as_key_grants st"
  "as_revision (insert_device_record st d) = as_revision st"
  "as_workspace_id (insert_device_record st d) = as_workspace_id st"
  "membership (insert_device_record st d) = membership st"
  "key_grant (insert_device_record st d) = key_grant st"
  by (simp_all add: insert_device_record_def membership_def key_grant_def fun_eq_iff)

lemma key_grant_insert [simp]:
  "key_grant (insert_key_grant st gr) k g d =
    (if k = kg_key_id gr \<and> g = kg_generation gr \<and> d = kg_device_id gr then Some gr
     else key_grant st k g d)"
  by (auto simp: key_grant_def insert_key_grant_def Let_def split: option.splits)

lemma insert_key_grant_other [simp]:
  "as_memberships (insert_key_grant st gr) = as_memberships st"
  "as_devices (insert_key_grant st gr) = as_devices st"
  "as_revision (insert_key_grant st gr) = as_revision st"
  "as_workspace_id (insert_key_grant st gr) = as_workspace_id st"
  "membership (insert_key_grant st gr) = membership st"
  "device_record (insert_key_grant st gr) = device_record st"
  by (simp_all add: insert_key_grant_def membership_def device_record_def Let_def fun_eq_iff)

lemma membership_mut_Ok_iff:
  "membership_mut st d f = Ok st' \<longleftrightarrow> (\<exists>m. membership st d = Some m
     \<and> st' = st\<lparr>as_memberships := bt_insert d (f m) (as_memberships st)\<rparr>)"
  by (auto simp: membership_mut_def membership_def)

lemma memberships_update [simp]:
  "membership (st\<lparr>as_memberships := bt_insert d m (as_memberships st)\<rparr>) = (membership st)(d \<mapsto> m)"
  "device_record (st\<lparr>as_memberships := ms\<rparr>) = device_record st"
  "key_grant (st\<lparr>as_memberships := ms\<rparr>) = key_grant st"
  by (simp_all add: membership_def device_record_def key_grant_def fun_eq_iff)

lemma grants_update [simp]:
  "membership (st\<lparr>as_key_grants := gs\<rparr>) = membership st"
  "device_record (st\<lparr>as_key_grants := gs\<rparr>) = device_record st"
  "key_grant (st\<lparr>as_key_grants := bt_insert (KeyVersion k g) gm (as_key_grants st)\<rparr>) k' g' d =
     (if k' = k \<and> g' = g then map_of gm d else key_grant st k' g' d)"
  by (auto simp: membership_def device_record_def key_grant_def fun_eq_iff)

lemma device_record_mut [simp]:
  "device_record (device_mut st d f) =
    (case device_record st d of None \<Rightarrow> device_record st | Some r \<Rightarrow> (device_record st)(d \<mapsto> f r))"
  by (auto simp: device_mut_def device_record_def fun_eq_iff split: option.splits)

lemma device_mut_other [simp]:
  "as_memberships (device_mut st d f) = as_memberships st"
  "as_key_grants (device_mut st d f) = as_key_grants st"
  "as_revision (device_mut st d f) = as_revision st"
  "as_workspace_id (device_mut st d f) = as_workspace_id st"
  "membership (device_mut st d f) = membership st"
  "key_grant (device_mut st d f) = key_grant st"
  by (simp_all add: device_mut_def membership_def key_grant_def fun_eq_iff split: option.splits)

definition grant_active :: "KeyGrant \<Rightarrow> bool" where
  "grant_active gr \<longleftrightarrow> kg_revoked_at_revision gr = None"

lemma revoke_grant_simps [simp]:
  "\<not> grant_active (revoke_grant actor t rv gr)"
  "kg_key_id (revoke_grant actor t rv gr) = kg_key_id gr"
  "kg_generation (revoke_grant actor t rv gr) = kg_generation gr"
  "kg_device_id (revoke_grant actor t rv gr) = kg_device_id gr"
  "kg_granted_at_revision (revoke_grant actor t rv gr) = kg_granted_at_revision gr"
  by (simp_all add: revoke_grant_def grant_active_def)

lemma key_grant_revoke_all [simp]:
  "key_grant (fst (revoke_all_for_device st d actor t rv)) k g d' =
    (if d' = d then map_option (\<lambda>gr. if grant_active gr then revoke_grant actor t rv gr else gr)
                      (key_grant st k g d)
     else key_grant st k g d')"
proof (cases "map_of (as_key_grants st) (KeyVersion k g)")
  case (Some gs)
  then show ?thesis
    by (cases "map_of gs d") (auto simp: key_grant_def revoke_all_for_device_def revoke_in_grants_def grant_active_def)
qed (simp add: key_grant_def revoke_all_for_device_def)

lemma revoke_all_other [simp]:
  "as_memberships (fst (revoke_all_for_device st d actor t rv)) = as_memberships st"
  "as_devices (fst (revoke_all_for_device st d actor t rv)) = as_devices st"
  "as_revision (fst (revoke_all_for_device st d actor t rv)) = as_revision st"
  "as_workspace_id (fst (revoke_all_for_device st d actor t rv)) = as_workspace_id st"
  "membership (fst (revoke_all_for_device st d actor t rv)) = membership st"
  "device_record (fst (revoke_all_for_device st d actor t rv)) = device_record st"
  by (simp_all add: revoke_all_for_device_def membership_def device_record_def fun_eq_iff)

lemma key_grant_mut_Ok_iff:
  "key_grant_mut st k g d f = Ok st' \<longleftrightarrow>
    (\<exists>grants gr gr'. map_of (as_key_grants st) (KeyVersion k g) = Some grants
       \<and> map_of grants d = Some gr \<and> f gr = Ok gr'
       \<and> st' = st\<lparr>as_key_grants := bt_insert (KeyVersion k g) (bt_insert d gr' grants)
                                     (as_key_grants st)\<rparr>)"
  by (auto simp: key_grant_mut_def split: option.splits)

lemma commit_simps [simp]:
  "membership (commit_event st i r) = membership st"
  "device_record (commit_event st i r) = device_record st"
  "key_grant (commit_event st i r) = key_grant st"
  "as_memberships (commit_event st i r) = as_memberships st"
  "as_devices (commit_event st i r) = as_devices st"
  "as_key_grants (commit_event st i r) = as_key_grants st"
  "as_revision (commit_event st i r) = r"
  "as_workspace_id (commit_event st i r) = as_workspace_id st"
  "as_last_event_id (commit_event st i r) = Some i"
  by (simp_all add: commit_event_def membership_def device_record_def key_grant_def fun_eq_iff)

lemma active_membership_Ok_iff [simp]:
  "active_membership st d = Ok m \<longleftrightarrow> membership st d = Some m \<and> mb_status m = Active"
  by (auto simp: active_membership_def)

lemma is_active_member_iff:
  "is_active_member st d \<longleftrightarrow> (\<exists>m. membership st d = Some m \<and> mb_status m = Active)"
  by (auto simp: is_active_member_def is_ok_iff)

lemma require_permission_Ok_iff [simp]:
  "require_permission st d p = Ok u \<longleftrightarrow>
     (\<exists>m. membership st d = Some m \<and> mb_status m = Active \<and> allows (mb_role m) p)"
  by (auto simp: require_permission_def split: if_splits)

lemma require_event_permission_Ok_iff:
  "require_event_permission st e = Ok u \<longleftrightarrow> (case required_permission (ev_event e) of None \<Rightarrow> True
     | Some p \<Rightarrow> \<exists>m. membership st (ev_actor_device_id e) = Some m \<and> mb_status m = Active
                      \<and> mb_role m = Owner)"
  by (auto simp: require_event_permission_def required_permission_owner_only split: option.splits)


section \<open>The invariant\<close>

definition owners :: "AccessState \<Rightarrow> DeviceId set" where
  "owners st = {d. \<exists>m. membership st d = Some m \<and> mb_status m = Active \<and> mb_role m = Owner}"

definition state_wf :: "AccessState \<Rightarrow> bool" where
  "state_wf st \<longleftrightarrow> bt_wf (as_devices st) \<and> bt_wf (as_memberships st) \<and> bt_wf (as_key_grants st)
     \<and> (\<forall>p \<in> set (as_key_grants st). bt_wf (snd p) \<and> kv_generation (fst p) \<noteq> 0)"

definition membership_ok :: "AccessState \<Rightarrow> DeviceId \<Rightarrow> Membership \<Rightarrow> bool" where
  "membership_ok st d m \<longleftrightarrow> mb_device_id m = d \<and> mb_joined_at_revision m \<noteq> 0
     \<and> mb_joined_at_revision m \<le> as_revision st
     \<and> (\<exists>r. device_record st d = Some r \<and> (case mb_status m of
          Active \<Rightarrow> dr_status r = ActiveDevice \<and> mb_removed_at_revision m = None
                    \<and> mb_removed_at m = None \<and> mb_removed_by_device_id m = None
        | Removed \<Rightarrow> dr_status r \<noteq> ActiveDevice
                     \<and> (\<exists>rr. mb_removed_at_revision m = Some rr \<and> rr \<le> as_revision st)))"

definition grant_ok :: "AccessState \<Rightarrow> KeyId \<Rightarrow> u64 \<Rightarrow> DeviceId \<Rightarrow> KeyGrant \<Rightarrow> bool" where
  "grant_ok st k g d gr \<longleftrightarrow> kg_device_id gr = d \<and> kg_key_id gr = k \<and> kg_generation gr = g
     \<and> kg_granted_at_revision gr \<noteq> 0 \<and> kg_granted_at_revision gr \<le> as_revision st
     \<and> (grant_active gr \<longrightarrow> is_active_member st d)"

definition access_inv :: "crypto \<Rightarrow> AccessState \<Rightarrow> bool" where
  "access_inv cx st \<longleftrightarrow> state_wf st
     \<and> (as_revision st = 0 \<longrightarrow> st = state_empty (as_workspace_id st))
     \<and> (as_revision st \<noteq> 0 \<longrightarrow> owners st \<noteq> {})
     \<and> (\<forall>d r. device_record st d = Some r \<longrightarrow>
          dr_device_id r = d \<and> device_valid cx r \<and> membership st d \<noteq> None)
     \<and> (\<forall>d m. membership st d = Some m \<longrightarrow> membership_ok st d m)
     \<and> (\<forall>k g d gr. key_grant st k g d = Some gr \<longrightarrow> grant_ok st k g d gr)"

lemma state_empty_simps [simp]:
  "membership (state_empty w) d = None" "device_record (state_empty w) d = None"
  "key_grant (state_empty w) k g d = None" "as_revision (state_empty w) = 0"
  "as_workspace_id (state_empty w) = w" "as_memberships (state_empty w) = []"
  "as_devices (state_empty w) = []" "as_key_grants (state_empty w) = []"
  by (simp_all add: state_empty_def membership_def device_record_def key_grant_def)

lemma access_inv_empty: "access_inv cx (state_empty w)"
  by (simp add: access_inv_def state_wf_def)

lemma active_owner_count_card: "state_wf st \<Longrightarrow> active_owner_count st = card (owners st)"
  unfolding active_owner_count_def active_members_def filter_filter owners_def membership_def
  by (subst bt_count_values) (auto simp: state_wf_def intro: arg_cong[of _ _ card])

lemma finite_owners [simp]: "finite (owners st)"
proof (rule finite_subset)
  show "owners st \<subseteq> fst ` set (as_memberships st)"
    by (auto simp: owners_def membership_def dest: map_of_SomeD intro: rev_image_eqI)
qed simp

text \<open>The final validation accepts every state with the invariant.\<close>

lemma validate_device_entries:
  assumes "access_inv cx st" and "p \<in> set (as_devices st)"
  shows "validate_device_entry cx st p = Ok ()"
proof -
  have "device_record st (fst p) = Some (snd p)"
    using assms by (auto simp: access_inv_def state_wf_def device_record_def bt_in_setD)
  then show ?thesis using assms(1)
    by (cases p) (auto simp: access_inv_def validate_device_entry_def device_valid_def
        membership_def bt_contains_def)
qed

lemma validate_membership_entries:
  assumes "access_inv cx st" and "p \<in> set (as_memberships st)"
  shows "validate_membership_entry st p = Ok ()"
proof -
  have "membership st (fst p) = Some (snd p)"
    using assms by (auto simp: access_inv_def state_wf_def membership_def bt_in_setD)
  then have "membership_ok st (fst p) (snd p)" using assms(1) by (simp add: access_inv_def)
  then obtain r where "device_record st (fst p) = Some r" and "membership_ok st (fst p) (snd p)"
    by (auto simp: membership_ok_def)
  then show ?thesis
    by (cases p; cases "mb_status (snd p)")
       (auto simp: membership_ok_def validate_membership_entry_def device_record_def not_less)
qed

lemma validate_version_entries:
  assumes "access_inv cx st" and "p \<in> set (as_key_grants st)"
  shows "validate_version_entry st p = Ok ()"
proof -
  obtain k g gs where p: "p = (KeyVersion k g, gs)" by (cases p) (metis KeyVersion.collapse)
  have wf: "bt_wf (as_key_grants st)" "bt_wf gs" "g \<noteq> 0"
    using assms by (auto simp: access_inv_def state_wf_def p)
  have gs: "map_of (as_key_grants st) (KeyVersion k g) = Some gs"
    using bt_in_setD[OF wf(1) assms(2)] by (simp add: p)
  have "validate_grant_entry st (KeyVersion k g) q = Ok ()" if q: "q \<in> set gs" for q
  proof -
    have "key_grant st k g (fst q) = Some (snd q)"
      using gs bt_in_setD[OF wf(2) q] by (simp add: key_grant_def)
    then have "grant_ok st k g (fst q) (snd q)" using assms(1) by (simp add: access_inv_def)
    then show ?thesis by (cases q) (auto simp: grant_ok_def validate_grant_entry_def)
  qed
  then show ?thesis using wf(3) by (simp add: p validate_version_entry_def)
qed

lemma access_inv_validates:
  assumes "access_inv cx st"
  shows "validate_state cx st = Ok ()"
proof (cases "as_revision st = 0")
  case True
  then have "st = state_empty (as_workspace_id st)" using assms by (simp add: access_inv_def)
  then show ?thesis using True by (metis state_empty_def validate_state_def AccessState.select_convs(3)
        state_empty_simps(6,7))
next
  case False
  have "active_owner_count st \<noteq> 0"
    using assms False by (simp add: access_inv_def active_owner_count_card)
  then show ?thesis using False
    by (simp add: validate_state_def validate_device_entries[OF assms]
        validate_membership_entries[OF assms] validate_version_entries[OF assms])
qed

end
