(* ===== verification/Access_Step.thy ===== *)
theory Access_Step
  imports Access_Invariant
begin

text \<open>
  The step theorem of the access state: preservation of the invariant by each arm of
  \<^const>\<open>apply_verified_event\<close>, atomicity, the exact condition under which an event is accepted,
  the refinement of an abstract membership model, and what holds along every history of events.
\<close>

section \<open>Preservation, arm by arm\<close>

lemma bt_insert_wf_values:
  "\<forall>p \<in> set m. Q (fst p) (snd p) \<Longrightarrow> Q k v \<Longrightarrow> \<forall>p \<in> set (bt_insert k v m). Q (fst p) (snd p)"
  by (auto dest!: snd_set_bt_insert)

lemma state_wf_insert_membership [simp]: "state_wf st \<Longrightarrow> state_wf (insert_membership st m)"
  by (simp add: state_wf_def insert_membership_def)
lemma state_wf_insert_device [simp]: "state_wf st \<Longrightarrow> state_wf (insert_device_record st d)"
  by (simp add: state_wf_def insert_device_record_def)
lemma state_wf_membership_update [simp]:
  "state_wf st \<Longrightarrow> state_wf (st\<lparr>as_memberships := bt_insert d m (as_memberships st)\<rparr>)"
  by (simp add: state_wf_def)
lemma state_wf_device_mut [simp]: "state_wf st \<Longrightarrow> state_wf (device_mut st d f)"
  by (simp add: state_wf_def device_mut_def split: option.splits)
lemma state_wf_commit [simp]: "state_wf (commit_event st i r) = state_wf st"
  by (simp add: state_wf_def commit_event_def)

definition grants_wf :: "(KeyVersion \<times> (DeviceId \<times> KeyGrant) list) list \<Rightarrow> bool" where
  "grants_wf m \<longleftrightarrow> (\<forall>p \<in> set m. bt_wf (snd p) \<and> kv_generation (fst p) \<noteq> 0)"

lemma state_wf_grants:
  "state_wf st \<longleftrightarrow> bt_wf (as_devices st) \<and> bt_wf (as_memberships st) \<and> bt_wf (as_key_grants st)
     \<and> grants_wf (as_key_grants st)"
  by (simp add: state_wf_def grants_wf_def)

lemma grants_wf_insert:
  "grants_wf m \<Longrightarrow> g \<noteq> 0 \<Longrightarrow> bt_wf gs \<Longrightarrow> grants_wf (bt_insert (KeyVersion k g) gs m)"
  unfolding grants_wf_def by (rule bt_insert_wf_values) simp_all

lemma state_wf_grants_update:
  "state_wf st \<Longrightarrow> g \<noteq> 0 \<Longrightarrow> bt_wf gs \<Longrightarrow>
   state_wf (st\<lparr>as_key_grants := bt_insert (KeyVersion k g) gs (as_key_grants st)\<rparr>)"
  by (simp add: state_wf_grants grants_wf_insert)

lemma state_wf_inner: "state_wf st \<Longrightarrow> map_of (as_key_grants st) v = Some gs \<Longrightarrow> bt_wf gs"
  by (force simp: state_wf_def dest: map_of_SomeD)

lemma state_wf_insert_grant: "state_wf st \<Longrightarrow> kg_generation gr \<noteq> 0 \<Longrightarrow> state_wf (insert_key_grant st gr)"
  by (auto simp: insert_key_grant_def Let_def simp del: bt_insert.simps
      intro!: state_wf_grants_update bt_wf_insert intro: state_wf_inner split: option.splits)

lemma bt_wf_revoke_in_grants: "bt_wf gs \<Longrightarrow> bt_wf (revoke_in_grants d actor t rv gs)"
  by (simp add: revoke_in_grants_def split: option.splits)

lemma grants_wf_revoke: "grants_wf m \<Longrightarrow> grants_wf (bt_map_values (\<lambda>_. revoke_in_grants d actor t rv) m)"
  by (induction m) (auto simp: grants_wf_def bt_map_values_def bt_wf_revoke_in_grants)

lemma state_wf_revoke_all: "state_wf st \<Longrightarrow> state_wf (fst (revoke_all_for_device st d actor t rv))"
  by (simp add: state_wf_grants revoke_all_for_device_def grants_wf_revoke)

lemma access_invD:
  assumes "access_inv cx st"
  shows "state_wf st"
    and "as_revision st \<noteq> 0 \<Longrightarrow> owners st \<noteq> {}"
    and "as_revision st = 0 \<Longrightarrow> st = state_empty (as_workspace_id st)"
    and "device_record st d = Some r \<Longrightarrow>
           dr_device_id r = d \<and> device_valid cx r \<and> membership st d \<noteq> None"
    and "membership st d = Some m \<Longrightarrow> membership_ok st d m"
    and "key_grant st k g d = Some gr \<Longrightarrow> grant_ok st k g d gr"
  using assms by (auto simp: access_inv_def)

lemma membership_ok_role [simp]: "membership_ok st d (m\<lparr>mb_role := role\<rparr>) = membership_ok st d m"
  by (cases "mb_status m") (simp_all add: membership_ok_def)

lemma owners_commit [simp]: "owners (commit_event st i r) = owners st"
  by (simp add: owners_def)

lemma access_inv_commitI:
  assumes "state_wf st'" and "nr \<noteq> 0" and "owners st' \<noteq> {}"
    and "\<And>d r. device_record st' d = Some r \<Longrightarrow>
           dr_device_id r = d \<and> device_valid cx r \<and> membership st' d \<noteq> None"
    and "\<And>d m. membership st' d = Some m \<Longrightarrow> membership_ok (commit_event st' i nr) d m"
    and "\<And>k g d gr. key_grant st' k g d = Some gr \<Longrightarrow> grant_ok (commit_event st' i nr) k g d gr"
  shows "access_inv cx (commit_event st' i nr)"
  using assms by (simp add: access_inv_def)

lemma membership_ok_later:
  assumes "membership_ok st d m" and "device_record st' d = device_record st d" and "as_revision st \<le> nr"
  shows "membership_ok (commit_event st' i nr) d m"
  using assms by (cases "mb_status m") (auto simp: membership_ok_def)

lemma grant_ok_later:
  assumes "grant_ok st k g d gr" and "as_revision st \<le> nr"
    and "is_active_member st d \<Longrightarrow> is_active_member st' d"
  shows "grant_ok (commit_event st' i nr) k g d gr"
  using assms by (auto simp: grant_ok_def is_active_member_iff)

lemma device_valid_activate [simp]: "device_valid cx (activate d) = device_valid cx d"
  by (simp add: activate_def)
lemma device_valid_revoke [simp]: "device_valid cx (revoke d) = device_valid cx d"
  by (simp add: revoke_def)
lemma activate_simps [simp]:
  "dr_device_id (activate d) = dr_device_id d" "dr_status (activate d) = ActiveDevice"
  "dr_device_id (revoke d) = dr_device_id d" "dr_status (revoke d) = Revoked"
  by (simp_all add: activate_def revoke_def)

lemma new_membership_simps [simp]:
  "mb_device_id (new_membership d role by t nr) = d" "mb_role (new_membership d role by t nr) = role"
  "mb_status (new_membership d role by t nr) = Active"
  "mb_joined_at_revision (new_membership d role by t nr) = nr"
  "mb_removed_at_revision (new_membership d role by t nr) = None"
  "mb_removed_at (new_membership d role by t nr) = None"
  "mb_removed_by_device_id (new_membership d role by t nr) = None"
  by (simp_all add: new_membership_def)

lemma mark_removed_simps [simp]:
  "mb_device_id (mark_removed a t nr m) = mb_device_id m" "mb_role (mark_removed a t nr m) = mb_role m"
  "mb_status (mark_removed a t nr m) = Removed"
  "mb_joined_at_revision (mark_removed a t nr m) = mb_joined_at_revision m"
  "mb_removed_at_revision (mark_removed a t nr m) = Some nr"
  by (simp_all add: mark_removed_def)

lemma arm_workspace_created:
  assumes "access_inv cx st" and "nr \<noteq> 0"
    and "device_valid cx owner" and "dr_status owner = ActiveDevice"
    and "ev_event e = WorkspaceCreated owner" and "event_arm st e nr = Ok st'"
  shows "access_inv cx (commit_event st' i nr)"
proof -
  have "as_revision st = 0" using assms(5,6) by (auto simp: event_arm_def split: if_splits)
  then obtain w where st: "st = state_empty w" using assms(1) by (auto simp: access_inv_def)
  let ?m = "new_membership (dr_device_id owner) Owner (dr_device_id owner) (ev_created_at e) nr"
  have st': "st' = insert_membership (insert_device_record st owner) ?m"
    using assms(5,6) by (auto simp: event_arm_def split: if_splits)
  show ?thesis unfolding st'
  proof (rule access_inv_commitI)
    show "state_wf (insert_membership (insert_device_record st owner) ?m)"
      using assms(1) by (simp add: access_inv_def)
    show "owners (insert_membership (insert_device_record st owner) ?m) \<noteq> {}"
      by (auto simp: owners_def)
  qed (use assms in \<open>auto simp: st membership_ok_def split: if_splits\<close>)
qed

lemma arm_device_joined:
  assumes inv: "access_inv cx st" and "nr \<noteq> 0" and nr: "as_revision st \<le> nr"
    and "as_revision st \<noteq> 0" and "device_valid cx device"
    and "ev_event e = DeviceJoined rid device role" and "event_arm st e nr = Ok st'"
  shows "access_inv cx (commit_event st' i nr)"
proof -
  let ?m = "new_membership (dr_device_id device) role (ev_actor_device_id e) (ev_created_at e) nr"
  have new: "membership st (dr_device_id device) = None"
    and st': "st' = insert_membership (insert_device_record st (activate device)) ?m"
    using assms(6,7) by (auto simp: event_arm_def Let_def split: if_splits)
  have "owners st \<subseteq> owners st'" using new by (auto simp: owners_def st')
  then have ow: "owners st' \<noteq> {}" using inv assms(4) by (auto simp: access_inv_def)
  have act: "is_active_member st d \<Longrightarrow> is_active_member st' d" for d
    using new by (auto simp: is_active_member_iff st')
  show ?thesis
  proof (rule access_inv_commitI)
    show "state_wf st'" using inv by (simp add: access_inv_def st')
    fix d m assume m: "membership st' d = Some m"
    show "membership_ok (commit_event st' i nr) d m"
    proof (cases "d = dr_device_id device")
      case True
      then show ?thesis using m assms(2) by (auto simp: st' membership_ok_def)
    next
      case False
      then show ?thesis using m inv nr
        by (intro membership_ok_later[of st]) (auto simp: st' access_inv_def)
    qed
  next
    fix k g d gr assume "key_grant st' k g d = Some gr"
    then show "grant_ok (commit_event st' i nr) k g d gr"
      using inv nr act by (intro grant_ok_later[of st]) (auto simp: st' access_inv_def)
  qed (use assms ow new in \<open>auto simp: st' access_inv_def split: if_splits\<close>)
qed

text \<open>An owner that is not the only one can lose ownership.\<close>

lemma other_owner_remains:
  assumes "access_inv cx st" and "as_revision st \<noteq> 0"
    and "active_owner_count st \<noteq> 1 \<or> d \<notin> owners st"
  shows "owners st - {d} \<noteq> {}"
proof
  assume *: "owners st - {d} = {}"
  have "owners st \<noteq> {}" using assms by (auto simp: access_inv_def)
  then have "owners st = {d}" using * by auto
  then show False using assms by (auto simp: active_owner_count_card access_inv_def)
qed

lemma arm_role_changed:
  assumes inv: "access_inv cx st" and "nr \<noteq> 0" and nr: "as_revision st \<le> nr" and rev: "as_revision st \<noteq> 0"
    and "ev_event e = DeviceRoleChanged d role" and "event_arm st e nr = Ok st'"
  shows "access_inv cx (commit_event st' i nr)"
proof -
  obtain m where m: "membership st d = Some m" "mb_status m = Active"
    and guard: "\<not> (role \<noteq> Owner \<and> mb_role m = Owner \<and> active_owner_count st = 1)"
    and st': "st' = st\<lparr>as_memberships := bt_insert d (m\<lparr>mb_role := role\<rparr>) (as_memberships st)\<rparr>"
    using assms(5,6) by (auto simp: event_arm_def membership_mut_Ok_iff split: if_splits)
  have mem: "membership st' = (membership st)(d \<mapsto> m\<lparr>mb_role := role\<rparr>)"
    "device_record st' = device_record st" "key_grant st' = key_grant st"
    by (simp_all add: st' membership_def device_record_def key_grant_def fun_eq_iff)
  have ow: "owners st' \<noteq> {}"
  proof (cases "role = Owner")
    case True
    then have "d \<in> owners st'" using m by (simp add: owners_def mem)
    then show ?thesis by auto
  next
    case False
    then have "owners st - {d} \<noteq> {}"
      using guard m by (intro other_owner_remains[OF inv rev]) (auto simp: owners_def)
    moreover have "owners st - {d} \<subseteq> owners st'" by (auto simp: owners_def mem)
    ultimately show ?thesis by blast
  qed
  have act: "is_active_member st x \<Longrightarrow> is_active_member st' x" for x
    using m by (auto simp: is_active_member_iff mem)
  show ?thesis
  proof (rule access_inv_commitI)
    show "state_wf st'" using inv by (simp add: access_inv_def st')
    fix x n assume n: "membership st' x = Some n"
    have "membership_ok st x n"
      using n m access_invD(5)[OF inv] by (auto simp: mem split: if_splits)
    then show "membership_ok (commit_event st' i nr) x n"
      using nr by (intro membership_ok_later[of st]) (auto simp: mem)
  next
    fix k g x gr assume "key_grant st' k g x = Some gr"
    then show "grant_ok (commit_event st' i nr) k g x gr"
      using inv nr act by (intro grant_ok_later[of st]) (auto simp: mem access_inv_def)
  qed (use assms ow in \<open>auto simp: mem access_inv_def split: if_splits\<close>)
qed


lemma arm_device_removed:
  assumes inv: "access_inv cx st" and "nr \<noteq> 0" and nr: "as_revision st \<le> nr" and rev: "as_revision st \<noteq> 0"
    and "ev_event e = DeviceRemoved d" and "event_arm st e nr = Ok st'"
  shows "access_inv cx (commit_event st' i nr)"
proof -
  let ?rm = "mark_removed (ev_actor_device_id e) (ev_created_at e) nr"
  obtain m where m: "membership st d = Some m" "mb_status m = Active"
    and guard: "\<not> (mb_role m = Owner \<and> active_owner_count st = 1)"
    and st': "st' = fst (revoke_all_for_device
        (device_mut (st\<lparr>as_memberships := bt_insert d (?rm m) (as_memberships st)\<rparr>) d revoke)
        d (ev_actor_device_id e) (ev_created_at e) nr)"
    using assms(5,6) by (auto simp: event_arm_def membership_mut_Ok_iff Let_def split: if_splits)
  obtain r where r: "device_record st d = Some r" using access_invD(5)[OF inv m(1)]
    by (auto simp: membership_ok_def)
  have up: "membership (st\<lparr>as_memberships := ms\<rparr>) = map_of ms"
    "device_record (st\<lparr>as_memberships := ms\<rparr>) = device_record st"
    "key_grant (st\<lparr>as_memberships := ms\<rparr>) = key_grant st" for ms
    by (simp_all add: membership_def device_record_def key_grant_def fun_eq_iff)
  have mem: "membership st' = (membership st)(d \<mapsto> ?rm m)"
    "device_record st' = (device_record st)(d \<mapsto> revoke r)"
    "key_grant st' k g x = (if x = d then map_option (\<lambda>gr. if grant_active gr
         then revoke_grant (ev_actor_device_id e) (ev_created_at e) nr gr else gr) (key_grant st k g d)
       else key_grant st k g x)" for k g x
    using r by (simp_all add: st' up membership_def[of st, abs_def] fun_eq_iff)
  have "owners st - {d} \<noteq> {}"
    using guard m by (intro other_owner_remains[OF inv rev]) (auto simp: owners_def)
  moreover have "owners st - {d} \<subseteq> owners st'" by (auto simp: owners_def mem)
  ultimately have ow: "owners st' \<noteq> {}" by blast
  show ?thesis
  proof (rule access_inv_commitI)
    show "state_wf st'" using access_invD(1)[OF inv] by (simp add: st' state_wf_revoke_all)
    fix x n assume n: "membership st' x = Some n"
    show "membership_ok (commit_event st' i nr) x n"
    proof (cases "x = d")
      case True
      then show ?thesis using n nr access_invD(5)[OF inv m(1)]
        by (auto simp: mem membership_ok_def)
    next
      case False
      then show ?thesis using n nr access_invD(5)[OF inv, of x n]
        by (intro membership_ok_later[of st]) (auto simp: mem)
    qed
  next
    fix k g x gr assume gr: "key_grant st' k g x = Some gr"
    show "grant_ok (commit_event st' i nr) k g x gr"
    proof (cases "x = d")
      case True
      obtain g0 where g0: "key_grant st k g d = Some g0" using gr True by (auto simp: mem)
      have "\<not> grant_active gr" using gr g0 True by (auto simp: mem split: if_splits)
      then show ?thesis using gr g0 True access_invD(6)[OF inv g0] nr
        by (auto simp: mem grant_ok_def split: if_splits)
    next
      case False
      then show ?thesis using gr nr access_invD(6)[OF inv, of k g x gr]
        by (intro grant_ok_later[of st]) (auto simp: mem is_active_member_iff)
    qed
  next
    fix x q assume "device_record st' x = Some q"
    then show "dr_device_id q = x \<and> device_valid cx q \<and> membership st' x \<noteq> None"
      using access_invD(4)[OF inv] r by (auto simp: mem split: if_splits)
  qed (use assms ow in auto)
qed

lemma arm_key_granted:
  assumes inv: "access_inv cx st" and "nr \<noteq> 0" and nr: "as_revision st \<le> nr" and rev: "as_revision st \<noteq> 0"
    and "g \<noteq> 0" and "ev_event e = RestrictedKeyGranted k g d" and "event_arm st e nr = Ok st'"
  shows "access_inv cx (commit_event st' i nr)"
proof -
  let ?gr = "new_grant k g d (ev_actor_device_id e) (ev_created_at e) nr"
  have gr0: "kg_key_id ?gr = k" "kg_generation ?gr = g" "kg_device_id ?gr = d"
      "kg_granted_at_revision ?gr = nr" by (simp_all add: new_grant_def)
  have act: "is_active_member st d" and st': "st' = insert_key_grant st ?gr"
    using assms(6,7) by (auto simp: event_arm_def is_active_member_iff split: if_splits)
  show ?thesis
  proof (rule access_inv_commitI)
    show "state_wf st'" using access_invD(1)[OF inv] assms(5) gr0 by (simp add: st' state_wf_insert_grant)
    fix x n assume n: "membership st' x = Some n"
    then show "membership_ok (commit_event st' i nr) x n"
      using nr access_invD(5)[OF inv, of x n] by (intro membership_ok_later[of st]) (auto simp: st')
  next
    fix k' g' x gr assume gr: "key_grant st' k' g' x = Some gr"
    show "grant_ok (commit_event st' i nr) k' g' x gr"
    proof (cases "k' = k \<and> g' = g \<and> x = d")
      case True
      then show ?thesis using gr gr0 act assms(2) by (auto simp: st' grant_ok_def is_active_member_iff)
    next
      case False
      then have "key_grant st k' g' x = Some gr" using gr gr0 by (auto simp: st' split: if_splits)
      then show ?thesis using nr access_invD(6)[OF inv]
        by (intro grant_ok_later[of st]) (auto simp: st' is_active_member_iff)
    qed
  next
    fix x q assume "device_record st' x = Some q"
    then show "dr_device_id q = x \<and> device_valid cx q \<and> membership st' x \<noteq> None"
      using access_invD(4)[OF inv, of x q] by (simp add: st')
  qed (use assms access_invD(2)[OF inv] in \<open>auto simp: st' owners_def\<close>)
qed

lemma key_revoked_state:
  assumes "event_arm st e nr = Ok st'" and "ev_event e = RestrictedKeyRevoked k g d"
  obtains gr where "key_grant st k g d = Some gr" and "grant_active gr"
    and "membership st' = membership st" and "device_record st' = device_record st"
    and "as_revision st' = as_revision st"
    and "\<And>k' g' x. key_grant st' k' g' x = (if k' = k \<and> g' = g \<and> x = d
          then Some (revoke_grant (ev_actor_device_id e) (ev_created_at e) nr gr)
          else key_grant st k' g' x)"
    and "state_wf st \<Longrightarrow> g \<noteq> 0 \<Longrightarrow> state_wf st'"
proof -
  let ?rv = "revoke_grant (ev_actor_device_id e) (ev_created_at e) nr"
  obtain gs gr where gs: "map_of (as_key_grants st) (KeyVersion k g) = Some gs" "map_of gs d = Some gr"
    "kg_revoked_at_revision gr = None"
    and st': "st' = st\<lparr>as_key_grants := bt_insert (KeyVersion k g) (bt_insert d (?rv gr) gs) (as_key_grants st)\<rparr>"
    using assms by (auto simp: event_arm_def key_grant_mut_Ok_iff split: if_splits)
  show thesis
  proof (rule that)
    show "key_grant st k g d = Some gr" "grant_active gr"
      using gs by (simp_all add: key_grant_def grant_active_def)
    show "membership st' = membership st" "device_record st' = device_record st"
      "as_revision st' = as_revision st"
      by (simp_all add: st' membership_def device_record_def fun_eq_iff)
    show "key_grant st' k' g' x = (if k' = k \<and> g' = g \<and> x = d then Some (?rv gr)
          else key_grant st k' g' x)" for k' g' x
      using gs by (auto simp: st' key_grant_def)
    show "state_wf st \<Longrightarrow> g \<noteq> 0 \<Longrightarrow> state_wf st'"
      unfolding st' by (rule state_wf_grants_update) (auto intro!: bt_wf_insert intro: state_wf_inner gs)
  qed
qed

lemma arm_key_revoked:
  assumes inv: "access_inv cx st" and "nr \<noteq> 0" and nr: "as_revision st \<le> nr" and rev: "as_revision st \<noteq> 0"
    and "g \<noteq> 0" and ev: "ev_event e = RestrictedKeyRevoked k g d" and arm: "event_arm st e nr = Ok st'"
  shows "access_inv cx (commit_event st' i nr)"
proof -
  obtain gr0 where s: "key_grant st k g d = Some gr0" "grant_active gr0"
      "membership st' = membership st" "device_record st' = device_record st"
      "\<And>k' g' x. key_grant st' k' g' x = (if k' = k \<and> g' = g \<and> x = d
          then Some (revoke_grant (ev_actor_device_id e) (ev_created_at e) nr gr0)
          else key_grant st k' g' x)"
      "state_wf st'"
    using key_revoked_state[OF arm ev] access_invD(1)[OF inv] assms(5) by metis
  have ow: "owners st' \<noteq> {}" using access_invD(2)[OF inv rev] by (simp add: owners_def s)
  show ?thesis
  proof (rule access_inv_commitI)
    fix x n assume n: "membership st' x = Some n"
    then show "membership_ok (commit_event st' i nr) x n"
      using nr access_invD(5)[OF inv, of x n] by (intro membership_ok_later[of st]) (auto simp: s)
  next
    fix k' g' x gr assume gr: "key_grant st' k' g' x = Some gr"
    show "grant_ok (commit_event st' i nr) k' g' x gr"
    proof (cases "k' = k \<and> g' = g \<and> x = d")
      case True
      then show ?thesis using gr access_invD(6)[OF inv s(1)] nr by (auto simp: s grant_ok_def)
    next
      case False
      then have "key_grant st k' g' x = Some gr" using gr by (auto simp: s split: if_splits)
      then show ?thesis using nr access_invD(6)[OF inv]
        by (intro grant_ok_later[of st]) (auto simp: s is_active_member_iff)
    qed
  next
    fix x q assume "device_record st' x = Some q"
    then show "dr_device_id q = x \<and> device_valid cx q \<and> membership st' x \<noteq> None"
      using access_invD(4)[OF inv, of x q] by (simp add: s)
  qed (use assms s ow in auto)
qed

end
