(* ===== verification/Access_Spec.thy ===== *)
theory Access_Spec
  imports Access_Step
begin

text \<open>
  The abstract model of workspace access -- which devices are or were members, with which role,
  and which of them hold which key -- and the proof that \<^const>\<open>apply_verified_event\<close> implements
  it; then what follows for every history of events starting from the empty state.
\<close>

section \<open>Atomicity\<close>

lemma next_revision:
  "checked_add64 r 1 = Some nr \<longleftrightarrow> unat nr = unat r + 1"
  by (simp add: checked_add64_Some_iff)

lemma event_guards_Ok_iff:
  "event_guards cx st e = Ok nr \<longleftrightarrow> validate_signed_event cx e = Ok ()
     \<and> as_workspace_id st = ev_workspace_id e \<and> as_revision st = ev_expected_revision e
     \<and> unat nr = unat (as_revision st) + 1"
  by (auto simp: event_guards_def next_revision split: if_splits)

lemma validate_signed_event_Ok_iff:
  "validate_signed_event cx e = Ok u \<longleftrightarrow> ev_signature e \<noteq> [] \<and> validate_event cx (ev_event e) = Ok ()"
  by (auto simp: validate_signed_event_def)

lemma event_needs_state:
  assumes "access_inv cx st" and "event_arm st e nr = Ok st'"
    and "\<And>owner. ev_event e \<noteq> WorkspaceCreated owner"
  shows "as_revision st \<noteq> 0 \<and> ev_actor_device_id e \<in> owners st"
proof -
  obtain p where p: "required_permission (ev_event e) = Some p"
    using assms(3) by (cases "ev_event e") auto
  have "require_event_permission st e = Ok ()"
    using assms(2,3) by (cases "ev_event e") (auto simp: event_arm_def)
  then have ow: "ev_actor_device_id e \<in> owners st"
    by (simp add: require_event_permission_Ok_iff p owners_def)
  moreover have "as_revision st \<noteq> 0"
  proof
    assume "as_revision st = 0"
    then obtain w where "st = state_empty w" using access_invD(3)[OF assms(1)] by auto
    then show False using ow by (simp add: owners_def)
  qed
  ultimately show ?thesis by simp
qed

lemma event_arm_inv:
  assumes inv: "access_inv cx st" and guards: "event_guards cx st e = Ok nr"
    and arm: "event_arm st e nr = Ok st'"
  shows "access_inv cx (commit_event st' i nr)"
proof -
  have nr: "nr \<noteq> 0" "as_revision st \<le> nr" and v: "validate_event cx (ev_event e) = Ok ()"
    using guards by (auto simp: event_guards_Ok_iff validate_signed_event_Ok_iff word_le_nat_alt)
  note state = event_needs_state[OF inv arm]
  show ?thesis
  proof (cases "ev_event e")
    case (WorkspaceCreated owner)
    then show ?thesis using v arm_workspace_created[OF inv nr(1) _ _ WorkspaceCreated arm]
      by (auto simp: device_valid_def split: if_splits)
  next
    case (DeviceJoined rid device role)
    then show ?thesis using v state arm_device_joined[OF inv nr _ _ DeviceJoined arm]
      by (auto simp: device_valid_def split: if_splits)
  next
    case (DeviceRoleChanged d role)
    then show ?thesis using state arm_role_changed[OF inv nr _ DeviceRoleChanged arm] by auto
  next
    case (DeviceRemoved d)
    then show ?thesis using state arm_device_removed[OF inv nr _ DeviceRemoved arm] by auto
  next
    case (RestrictedKeyGranted k g d)
    then show ?thesis using v state arm_key_granted[OF inv nr _ _ RestrictedKeyGranted arm]
      by (auto split: if_splits)
  next
    case (RestrictedKeyRevoked k g d)
    then show ?thesis using v state arm_key_revoked[OF inv nr _ _ RestrictedKeyRevoked arm]
      by (auto split: if_splits)
  qed
qed

lemma apply_cases:
  assumes inv: "access_inv cx st"
  obtains (refused) err where "apply_verified_event cx st e = (st, Err err)"
      and "\<And>nr st'. event_guards cx st e = Ok nr \<Longrightarrow> event_arm st e nr \<noteq> Ok st'"
  | (applied) nr st' where "event_guards cx st e = Ok nr" and "event_arm st e nr = Ok st'"
      and "apply_verified_event cx st e = (commit_event st' (ev_event_id e) nr, Ok ())"
      and "access_inv cx (commit_event st' (ev_event_id e) nr)"
proof (cases "and_then (event_guards cx st e) (\<lambda>nr. and_then (event_arm st e nr)
                (\<lambda>st'. Ok (commit_event st' (ev_event_id e) nr)))")
  case (Ok s)
  then obtain nr st' where *: "event_guards cx st e = Ok nr" "event_arm st e nr = Ok st'"
      "s = commit_event st' (ev_event_id e) nr" by auto
  then have "access_inv cx s" using event_arm_inv[OF inv] by simp
  then show thesis using applied[OF *(1,2)] Ok *
    by (simp add: apply_verified_event_def access_inv_validates)
next
  case (Err err)
  show thesis
  proof (rule refused)
    show "apply_verified_event cx st e = (st, Err err)"
      using Err by (simp add: apply_verified_event_def)
    show "event_arm st e nr \<noteq> Ok st'" if "event_guards cx st e = Ok nr" for nr st'
      using Err that by auto
  qed
qed

lemma apply_inv: "access_inv cx st \<Longrightarrow> access_inv cx (fst (apply_verified_event cx st e))"
  by (rule apply_cases[of cx st e]) simp_all

lemma arm_revision_workspace:
  assumes "event_arm st e nr = Ok st'"
  shows "as_workspace_id st' = as_workspace_id st"
  using assms
  by (cases "ev_event e")
     (auto simp: event_arm_def Let_def membership_mut_Ok_iff key_grant_mut_Ok_iff split: if_splits)


section \<open>The abstract model\<close>

record AccessSpec =
  sp_members :: "DeviceId \<Rightarrow> (WorkspaceRole \<times> bool) option"
  sp_grants :: "(KeyId \<times> u64 \<times> DeviceId) set"
  sp_events :: nat

definition access_abs :: "AccessState \<Rightarrow> AccessSpec" where
  "access_abs st = \<lparr>
     sp_members = (\<lambda>d. map_option (\<lambda>m. (mb_role m, mb_status m = Active)) (membership st d)),
     sp_grants = {(k, g, d). has_active_key_grant st k g d},
     sp_events = unat (as_revision st)\<rparr>"

definition spec_owner :: "AccessSpec \<Rightarrow> DeviceId \<Rightarrow> bool" where
  "spec_owner s d \<longleftrightarrow> sp_members s d = Some (Owner, True)"

definition spec_member :: "AccessSpec \<Rightarrow> DeviceId \<Rightarrow> bool" where
  "spec_member s d \<longleftrightarrow> (\<exists>role. sp_members s d = Some (role, True))"

text \<open>\<^term>\<open>None\<close> when the event is refused.\<close>

fun spec_step :: "AccessSpec \<Rightarrow> DeviceId \<Rightarrow> AccessEvent \<Rightarrow> AccessSpec option" where
  "spec_step s actor (WorkspaceCreated owner) =
    (if sp_events s = 0 \<and> actor = dr_device_id owner
     then Some (s\<lparr>sp_members := [dr_device_id owner \<mapsto> (Owner, True)], sp_events := 1\<rparr>) else None)"
| "spec_step s actor (DeviceJoined _ device role) =
    (if spec_owner s actor \<and> sp_members s (dr_device_id device) = None
     then Some (s\<lparr>sp_members := (sp_members s)(dr_device_id device \<mapsto> (role, True)),
                  sp_events := sp_events s + 1\<rparr>) else None)"
| "spec_step s actor (DeviceRoleChanged d role) =
    (if spec_owner s actor \<and> spec_member s d \<and> (role = Owner \<or> (\<exists>d'. d' \<noteq> d \<and> spec_owner s d'))
     then Some (s\<lparr>sp_members := (sp_members s)(d \<mapsto> (role, True)),
                  sp_events := sp_events s + 1\<rparr>) else None)"
| "spec_step s actor (DeviceRemoved d) =
    (if spec_owner s actor \<and> spec_member s d \<and> (\<exists>d'. d' \<noteq> d \<and> spec_owner s d')
     then Some (s\<lparr>sp_members := (sp_members s)(d \<mapsto> (fst (the (sp_members s d)), False)),
                  sp_grants := {(k, g, x) \<in> sp_grants s. x \<noteq> d},
                  sp_events := sp_events s + 1\<rparr>) else None)"
| "spec_step s actor (RestrictedKeyGranted k g d) =
    (if spec_owner s actor \<and> spec_member s d \<and> (k, g, d) \<notin> sp_grants s
     then Some (s\<lparr>sp_grants := insert (k, g, d) (sp_grants s), sp_events := sp_events s + 1\<rparr>) else None)"
| "spec_step s actor (RestrictedKeyRevoked k g d) =
    (if spec_owner s actor \<and> (k, g, d) \<in> sp_grants s
     then Some (s\<lparr>sp_grants := sp_grants s - {(k, g, d)}, sp_events := sp_events s + 1\<rparr>) else None)"

lemma abs_simps [simp]:
  "sp_members (access_abs st) d = map_option (\<lambda>m. (mb_role m, mb_status m = Active)) (membership st d)"
  "(k, g, d) \<in> sp_grants (access_abs st) \<longleftrightarrow> has_active_key_grant st k g d"
  "sp_events (access_abs st) = unat (as_revision st)"
  by (simp_all add: access_abs_def)

lemma spec_owner_abs [simp]: "spec_owner (access_abs st) d \<longleftrightarrow> d \<in> owners st"
  by (auto simp: spec_owner_def owners_def)

lemma spec_member_abs [simp]: "spec_member (access_abs st) d \<longleftrightarrow> is_active_member st d"
  by (auto simp: spec_member_def is_active_member_iff)

lemma has_active_key_grant_iff:
  "has_active_key_grant st k g d \<longleftrightarrow> (\<exists>gr. key_grant st k g d = Some gr \<and> grant_active gr)"
  by (auto simp: has_active_key_grant_def grant_active_def split: option.splits)

lemma last_owner_iff:
  assumes "access_inv cx st" and "as_revision st \<noteq> 0"
  shows "(\<exists>d'. d' \<noteq> d \<and> d' \<in> owners st) \<longleftrightarrow> \<not> (d \<in> owners st \<and> active_owner_count st = 1)"
proof -
  have "owners st \<noteq> {}" and "active_owner_count st = card (owners st)"
    using assms by (auto simp: access_inv_def active_owner_count_card)
  moreover have "active_owner_count st \<noteq> 1 \<or> d \<notin> owners st \<Longrightarrow> owners st - {d} \<noteq> {}"
    by (rule other_owner_remains[OF assms])
  ultimately show ?thesis by (auto simp: card_1_singleton_iff)
qed

lemma access_spec_eqI:
  "sp_members s = sp_members t \<Longrightarrow> sp_grants s = sp_grants t \<Longrightarrow> sp_events s = sp_events t \<Longrightarrow>
   s = (t :: AccessSpec)"
  by simp


section \<open>Refinement\<close>

lemma owner_implies_revision:
  assumes "access_inv cx st" and "d \<in> owners st"
  shows "as_revision st \<noteq> 0"
proof
  assume "as_revision st = 0"
  then obtain w where "st = state_empty w" using access_invD(3)[OF assms(1)] by auto
  then show False using assms(2) by (simp add: owners_def)
qed

lemma arm_accepts:
  assumes inv: "access_inv cx st"
  shows "(\<exists>st'. event_arm st e nr = Ok st')
         \<longleftrightarrow> spec_step (access_abs st) (ev_actor_device_id e) (ev_event e) \<noteq> None"
proof (cases "ev_event e")
  case (WorkspaceCreated owner)
  have "as_revision st = 0 \<Longrightarrow> as_memberships st = [] \<and> as_devices st = []"
    using access_invD(3)[OF inv] by (metis state_empty_simps(6,7))
  then show ?thesis by (auto simp: WorkspaceCreated event_arm_def unat_eq_0)
next
  case (DeviceJoined rid device role)
  then show ?thesis
    by (auto simp: event_arm_def Let_def require_event_permission_Ok_iff owners_def)
next
  case (DeviceRoleChanged d role)
  have "(\<exists>m. membership st d = Some m \<and> mb_status m = Active
            \<and> \<not> (role \<noteq> Owner \<and> mb_role m = Owner \<and> active_owner_count st = 1))
        \<longleftrightarrow> is_active_member st d \<and> (role = Owner \<or> (\<exists>d'. d' \<noteq> d \<and> d' \<in> owners st))"
    if "ev_actor_device_id e \<in> owners st"
    using last_owner_iff[OF inv owner_implies_revision[OF inv that], of d]
    by (auto simp: is_active_member_iff owners_def)
  then show ?thesis
    by (auto simp: DeviceRoleChanged event_arm_def require_event_permission_Ok_iff
        membership_mut_Ok_iff owners_def split: if_splits)
next
  case (DeviceRemoved d)
  have "(\<exists>m. membership st d = Some m \<and> mb_status m = Active
            \<and> \<not> (mb_role m = Owner \<and> active_owner_count st = 1))
        \<longleftrightarrow> is_active_member st d \<and> (\<exists>d'. d' \<noteq> d \<and> d' \<in> owners st)"
    if "ev_actor_device_id e \<in> owners st"
    using last_owner_iff[OF inv owner_implies_revision[OF inv that], of d]
    by (auto simp: is_active_member_iff owners_def)
  then show ?thesis
    by (auto simp: DeviceRemoved event_arm_def require_event_permission_Ok_iff Let_def
        membership_mut_Ok_iff owners_def split: if_splits)
next
  case (RestrictedKeyGranted k g d)
  then show ?thesis
    by (auto simp: event_arm_def require_event_permission_Ok_iff is_active_member_iff owners_def
        split: if_splits)
next
  case (RestrictedKeyRevoked k g d)
  then show ?thesis
    by (auto simp: event_arm_def require_event_permission_Ok_iff owners_def key_grant_mut_Ok_iff
        has_active_key_grant_iff key_grant_def grant_active_def bind_eq_Some_conv split: if_splits)
qed

lemma revoke_grant_fixed: "revoke_grant a t r gr = gr \<Longrightarrow> grant_active gr \<Longrightarrow> False"
  by (metis revoke_grant_simps(1))

lemma arm_refines:
  assumes inv: "access_inv cx st" and arm: "event_arm st e nr = Ok st'"
    and nr: "unat nr = unat (as_revision st) + 1"
    and spec: "spec_step (access_abs st) (ev_actor_device_id e) (ev_event e) = Some s"
  shows "access_abs (commit_event st' i nr) = s"
proof (cases "ev_event e")
  case (WorkspaceCreated owner)
  then have "st = state_empty (as_workspace_id st)" using arm access_invD(3)[OF inv]
    by (auto simp: event_arm_def split: if_splits)
  then have "membership st x = None" "key_grant st k g x = None" for x k g
    by (metis state_empty_simps(1), metis state_empty_simps(3))
  then show ?thesis using arm spec nr WorkspaceCreated
    by (intro access_spec_eqI)
       (auto simp: event_arm_def fun_eq_iff has_active_key_grant_iff split: if_splits)
next
  case (DeviceJoined rid device role)
  then show ?thesis using arm spec nr
    by (intro access_spec_eqI) (auto simp: event_arm_def Let_def fun_eq_iff has_active_key_grant_iff
        split: if_splits)
next
  case (DeviceRoleChanged d role)
  then show ?thesis using arm spec nr
    by (intro access_spec_eqI) (auto simp: event_arm_def fun_eq_iff has_active_key_grant_iff
        membership_mut_Ok_iff split: if_splits)
next
  case (DeviceRemoved d)
  then show ?thesis using arm spec nr
    by (intro access_spec_eqI) (auto simp: event_arm_def fun_eq_iff has_active_key_grant_iff Let_def
        membership_mut_Ok_iff dest: revoke_grant_fixed split: if_splits)
next
  case (RestrictedKeyGranted k g d)
  then show ?thesis using arm spec nr
    by (intro access_spec_eqI) (auto simp: event_arm_def fun_eq_iff has_active_key_grant_iff
        new_grant_def grant_active_def split: if_splits)
next
  case (RestrictedKeyRevoked k g d)
  obtain gr where gr: "key_grant st k g d = Some gr" "grant_active gr"
    and s': "membership st' = membership st"
      "\<And>k' g' x. key_grant st' k' g' x = (if k' = k \<and> g' = g \<and> x = d
          then Some (revoke_grant (ev_actor_device_id e) (ev_created_at e) nr gr)
          else key_grant st k' g' x)"
    using key_revoked_state[OF arm RestrictedKeyRevoked] by metis
  show ?thesis using spec nr gr unfolding RestrictedKeyRevoked
    by (intro access_spec_eqI) (auto simp: fun_eq_iff has_active_key_grant_iff s' split: if_splits)
qed

lemma next_revision_exists: "(\<exists>nr :: u64. unat nr = Suc (unat (r :: u64))) \<longleftrightarrow> Suc (unat r) < 2 ^ 64"
  unfolding next_revision[unfolded Suc_eq_plus1[symmetric], symmetric]
  by (simp add: checked_add64_def)

lemma not_Active_iff: "x \<noteq> Active \<longleftrightarrow> x = Removed"
  by (cases x) simp_all

lemma abs_removed_iff:
  "sp_members (access_abs st) d = Some (role, False) \<longleftrightarrow>
    (\<exists>m. membership st d = Some m \<and> mb_role m = role \<and> mb_status m = Removed)"
  by (auto simp: not_Active_iff)

definition event_addressed :: "crypto \<Rightarrow> AccessState \<Rightarrow> SignedAccessEvent \<Rightarrow> bool" where
  "event_addressed cx st e \<longleftrightarrow> validate_signed_event cx e = Ok ()
     \<and> ev_workspace_id e = as_workspace_id st \<and> ev_expected_revision e = as_revision st
     \<and> unat (as_revision st) + 1 < 2 ^ 64"

lemma event_addressed_iff: "event_addressed cx st e \<longleftrightarrow> (\<exists>nr. event_guards cx st e = Ok nr)"
proof -
  have "(\<exists>nr. event_guards cx st e = Ok nr) \<longleftrightarrow> validate_signed_event cx e = Ok ()
     \<and> as_workspace_id st = ev_workspace_id e \<and> as_revision st = ev_expected_revision e
     \<and> (\<exists>nr :: u64. unat nr = Suc (unat (as_revision st)))"
    by (simp add: event_guards_Ok_iff)
  also have "\<dots> \<longleftrightarrow> event_addressed cx st e"
    unfolding next_revision_exists event_addressed_def by auto
  finally show ?thesis by simp
qed

lemma apply_refines:
  assumes inv: "access_inv cx st"
  shows "(let (st', r) = apply_verified_event cx st e;
              spec = (if event_addressed cx st e
                      then spec_step (access_abs st) (ev_actor_device_id e) (ev_event e) else None)
          in access_inv cx st' \<and> (case spec of
               Some s \<Rightarrow> r = Ok () \<and> access_abs st' = s
                 \<and> as_last_event_id st' = Some (ev_event_id e)
                 \<and> as_workspace_id st' = as_workspace_id st
                 \<and> unat (as_revision st') = unat (as_revision st) + 1
             | None \<Rightarrow> (\<exists>err. r = Err err) \<and> st' = st))"
proof (rule apply_cases[OF inv, of e], goal_cases refused applied)
  case (refused err)
  have "\<not> event_addressed cx st e \<or> spec_step (access_abs st) (ev_actor_device_id e) (ev_event e) = None"
    using refused(2) arm_accepts[OF inv, of e] by (auto simp: event_addressed_iff) metis
  then show ?thesis using inv by (auto simp: Let_def refused(1))
next
  case (applied nr st')
  have addr: "event_addressed cx st e" using applied(1) by (auto simp: event_addressed_iff)
  have nr: "unat nr = unat (as_revision st) + 1" using applied(1) by (simp add: event_guards_Ok_iff)
  obtain s where s: "spec_step (access_abs st) (ev_actor_device_id e) (ev_event e) = Some s"
    using arm_accepts[OF inv, of e nr] applied(2) by auto
  have "access_abs (commit_event st' (ev_event_id e) nr) = s"
    using arm_refines[OF inv applied(2) nr s] .
  then show ?thesis using applied(3,4) nr addr s arm_revision_workspace[OF applied(2)]
    by (simp add: Let_def)
qed


section \<open>Histories\<close>

text \<open>What the server keeps over a sequence of submitted events.\<close>

fun run_events :: "crypto \<Rightarrow> AccessState \<Rightarrow> SignedAccessEvent list \<Rightarrow> AccessState" where
  "run_events cx st [] = st"
| "run_events cx st (e # es) = run_events cx (fst (apply_verified_event cx st e)) es"

lemma run_events_inv: "access_inv cx st \<Longrightarrow> access_inv cx (run_events cx st es)"
  by (induction es arbitrary: st) (simp_all add: apply_inv)

lemma run_events_workspace:
  "access_inv cx st \<Longrightarrow> as_workspace_id (run_events cx st es) = as_workspace_id st"
proof (induction es arbitrary: st)
  case (Cons e es)
  have "as_workspace_id (fst (apply_verified_event cx st e)) = as_workspace_id st"
    using apply_cases[OF Cons.prems, of e] arm_revision_workspace by fastforce
  then show ?case using Cons.IH[OF apply_inv[OF Cons.prems]] by simp
qed simp

lemma run_events_append: "run_events cx st (es @ fs) = run_events cx (run_events cx st es) fs"
  by (induction es arbitrary: st) simp_all

lemma spec_step_removed:
  "spec_step s actor ev = Some s' \<Longrightarrow> sp_members s d = Some (role, False) \<Longrightarrow> sp_events s \<noteq> 0 \<Longrightarrow>
   sp_members s' d = Some (role, False)"
  by (cases ev) (auto simp: spec_member_def split: if_splits)

lemma apply_keeps_removed:
  assumes inv: "access_inv cx st" and m: "membership st d = Some m" "mb_status m = Removed"
  shows "\<exists>m'. membership (fst (apply_verified_event cx st e)) d = Some m'
           \<and> mb_status m' = Removed \<and> mb_role m' = mb_role m"
proof -
  have rev: "as_revision st \<noteq> 0" using access_invD(3)[OF inv] m(1) state_empty_simps(1) by (metis option.distinct(1))
  have abs: "sp_members (access_abs st) d = Some (mb_role m, False)" using m by simp
  note ref = apply_refines[OF inv, of e]
  show ?thesis
  proof (cases "snd (apply_verified_event cx st e)")
    case (Ok u)
    then obtain s where s: "spec_step (access_abs st) (ev_actor_device_id e) (ev_event e) = Some s"
        "access_abs (fst (apply_verified_event cx st e)) = s"
      using ref by (auto simp: Let_def split: option.splits if_splits prod.splits)
    have "sp_members s d = Some (mb_role m, False)"
      by (rule spec_step_removed[OF s(1) abs]) (simp add: unat_eq_0 rev)
    then have "sp_members (access_abs (fst (apply_verified_event cx st e))) d = Some (mb_role m, False)"
      by (simp only: s(2))
    then show ?thesis unfolding abs_removed_iff by auto
  next
    case (Err err)
    then have "fst (apply_verified_event cx st e) = st"
      using ref by (auto simp: Let_def split: option.splits if_splits prod.splits)
    then show ?thesis using m by simp
  qed
qed

lemma run_keeps_removed:
  assumes "access_inv cx st" and "membership st d = Some m" "mb_status m = Removed"
  shows "\<exists>m'. membership (run_events cx st es) d = Some m' \<and> mb_status m' = Removed \<and> mb_role m' = mb_role m"
  using assms
proof (induction es arbitrary: st m)
  case (Cons e es)
  obtain m' where m': "membership (fst (apply_verified_event cx st e)) d = Some m'"
      "mb_status m' = Removed" "mb_role m' = mb_role m"
    using apply_keeps_removed[OF Cons.prems, of e] by auto
  show ?case using Cons.IH[OF apply_inv[OF Cons.prems(1)] m'(1,2)] m'(3) by simp
qed simp

lemma inv_no_grant_unless_active:
  "access_inv cx st \<Longrightarrow> has_active_key_grant st k g d \<Longrightarrow> is_active_member st d"
  by (auto simp: has_active_key_grant_iff dest: access_invD(6) simp: grant_ok_def)

end
