(* ===== verification/Samples.thy ===== *)
theory Samples
  imports Access_Spec
begin

text \<open>
  Concrete primitives, devices and events on which the witnesses evaluate the model: a crypto
  record whose hash is constant and whose signatures are any 64 bytes, two devices, and a history in which the
  first creates the workspace, admits the second, gives it a key and removes it.
\<close>

definition sample_crypto :: crypto where
  "sample_crypto = \<lparr>cr_sha256 = (\<lambda>_. replicate 32 0), cr_base64 = (\<lambda>_. ''AAAAAAAAAA''),
     cr_key_from_bytes = (\<lambda>k. length k = 32), cr_signature_from_slice = (\<lambda>s. length s = 64),
     cr_verify = (\<lambda>k m s. hd s = hd k)\<rparr>"

definition sample_device :: "string \<Rightarrow> DeviceStatus \<Rightarrow> DeviceRecord" where
  "sample_device name s = \<lparr>dr_device_id = DeviceId (''device_'' @ name), dr_device_name = name,
     dr_signing_public_key = replicate 32 1, dr_exchange_public_key = replicate 32 2,
     dr_fingerprint = ''AAAA-AAAA-AA'', dr_status = s\<rparr>"

definition sample_workspace :: WorkspaceId where "sample_workspace = WorkspaceId ''ws''"

definition sample_signature :: bytes where "sample_signature = replicate 64 1"

definition sample_event :: "u64 \<Rightarrow> AccessEvent \<Rightarrow> SignedAccessEvent" where
  "sample_event rv e = \<lparr>ev_event_id = AccessEventId ''event_1'', ev_workspace_id = sample_workspace,
     ev_expected_revision = rv, ev_actor_device_id = DeviceId ''device_a'', ev_created_at = 1000,
     ev_event = e, ev_signature = sample_signature\<rparr>"

definition sample_created :: SignedAccessEvent where
  "sample_created = sample_event 0 (WorkspaceCreated (sample_device ''a'' ActiveDevice))"
definition sample_joined :: SignedAccessEvent where
  "sample_joined = sample_event 1 (DeviceJoined (JoinRequestId ''join_1'') (sample_device ''b'' Pending) Member)"
definition sample_granted :: SignedAccessEvent where
  "sample_granted = sample_event 2 (RestrictedKeyGranted (KeyId ''k'') 1 (DeviceId ''device_b''))"
definition sample_removed :: SignedAccessEvent where
  "sample_removed = sample_event 3 (DeviceRemoved (DeviceId ''device_b''))"

definition sample_history :: "SignedAccessEvent list" where
  "sample_history = [sample_created, sample_joined, sample_granted, sample_removed]"

definition sample_state :: "nat \<Rightarrow> AccessState" where
  "sample_state n = run_events sample_crypto (state_empty sample_workspace) (take n sample_history)"

lemma sample_state_inv: "access_inv sample_crypto (sample_state n)"
  by (simp add: sample_state_def run_events_inv access_inv_empty)

lemma sample_revisions: "as_revision (sample_state 4) = 4"
  by code_simp

lemma sample_removed_member:
  "map_option mb_status (membership (sample_state 4) (DeviceId ''device_b'')) = Some Removed"
  by code_simp

lemma sample_active_grant:
  "has_active_key_grant (sample_state 3) (KeyId ''k'') 1 (DeviceId ''device_b'')"
  by code_simp

end
