(* ===== verification/Access_Props.thy ===== *)
theory Access_Props
  imports Samples
begin

text \<open>The properties of the access control components, each over the definitions that model the
  code and with the concrete instance that shows its hypotheses can hold.\<close>

text \<open>
  Property C1: \<^const>\<open>apply_verified_event\<close> implements the abstract membership model.  In every
  state reached from the empty one by any sequence of submitted events, an event that is well formed,
  names the workspace and carries the current revision takes effect exactly as the abstract step
  says, raises the revision by one without wrap-around, records the event and succeeds (the final
  validation never fails on the mutated state); every other event is refused with an error and
  leaves the whole state as it was.
\<close>

theorem access_event_refines_spec:
  "let st = run_events cx (state_empty w) es; (st', r) = apply_verified_event cx st e in
   case (if event_addressed cx st e
         then spec_step (access_abs st) (ev_actor_device_id e) (ev_event e) else None) of
     Some s \<Rightarrow> r = Ok () \<and> access_abs st' = s \<and> as_last_event_id st' = Some (ev_event_id e)
       \<and> as_workspace_id st' = w \<and> unat (as_revision st') = unat (as_revision st) + 1
   | None \<Rightarrow> \<not> is_ok r \<and> st' = st"
proof -
  let ?st = "run_events cx (state_empty w) es"
  have inv: "access_inv cx ?st" by (rule run_events_inv[OF access_inv_empty])
  have w: "as_workspace_id ?st = w" by (simp add: run_events_workspace access_inv_empty)
  show ?thesis using apply_refines[OF inv, of e]
    by (auto simp: Let_def w not_is_ok_iff split: prod.splits option.splits if_splits)
qed

text \<open>
  Property C2: every reachable access state passes the code's own validation; the devices that
  hold an unrevoked key grant are active members; the revision is zero exactly in the empty state, and
  otherwise some active owner exists (the workspace can always be administered).
\<close>

theorem reachable_access_state_valid:
  "let st = run_events cx (state_empty w) es in
   validate_state cx st = Ok ()
   \<and> {d. \<exists>k g. has_active_key_grant st k g d} \<subseteq> {d. is_active_member st d}
   \<and> (as_revision st = 0 \<longleftrightarrow> st = state_empty w)
   \<and> (as_revision st = 0 \<longleftrightarrow> active_owner_count st = 0)"
proof -
  let ?st = "run_events cx (state_empty w) es"
  have inv: "access_inv cx ?st" by (rule run_events_inv[OF access_inv_empty])
  have w: "as_workspace_id ?st = w" by (simp add: run_events_workspace access_inv_empty)
  have "as_revision ?st = 0 \<longleftrightarrow> ?st = state_empty w"
    using access_invD(3)[OF inv] by (auto simp: w)
  moreover have "as_revision ?st = 0 \<longleftrightarrow> active_owner_count ?st = 0"
    using access_invD(1,2)[OF inv] calculation
    by (auto simp: active_owner_count_card owners_def[of "state_empty w"])
  ultimately show ?thesis
    using access_inv_validates[OF inv] inv_no_grant_unless_active[OF inv] by (auto simp: Let_def)
qed

text \<open>
  Property C3: removal is final.  Once a device is removed, no later sequence of events makes it an
  active member again, gives it a permission, or leaves it holding a key grant.
\<close>

theorem removed_device_stays_removed:
  assumes "membership (run_events cx (state_empty w) es) d = Some m" and "mb_status m = Removed"
  shows "let st = run_events cx (state_empty w) (es @ later) in
     \<not> is_active_member st d \<and> \<not> has_active_key_grant st k g d
     \<and> require_permission st d p = Err (DeviceNotActiveMember d)"
proof -
  let ?st = "run_events cx (state_empty w) es"
  let ?fin = "run_events cx ?st later"
  have inv: "access_inv cx ?st" by (rule run_events_inv[OF access_inv_empty])
  obtain m' where m': "membership ?fin d = Some m'" "mb_status m' = Removed"
    using run_keeps_removed[OF inv assms] by auto
  then have "\<not> is_active_member ?fin d" by (simp add: is_active_member_iff)
  then show ?thesis using inv_no_grant_unless_active[OF run_events_inv[OF inv]] m'
    by (auto simp: Let_def run_events_append require_permission_def active_membership_def)
qed

theorem removed_device_stays_removed_witness:
  "\<not> has_active_key_grant (run_events sample_crypto (state_empty sample_workspace)
      (take 4 sample_history @ [sample_granted])) (KeyId ''k'') 1 (DeviceId ''device_b'')"
proof -
  obtain m where "membership (sample_state 4) (DeviceId ''device_b'') = Some m" "mb_status m = Removed"
    using sample_removed_member by auto
  then show ?thesis
    using removed_device_stays_removed[of sample_crypto sample_workspace "take 4 sample_history"
        "DeviceId ''device_b''" m "[sample_granted]" "KeyId ''k''" 1]
    by (simp add: sample_state_def Let_def)
qed

text \<open>
  Property C5: a signature covers one statement only.  The bytes signed for an access event determine
  everything in the event but its signature (field boundaries cannot be shifted between fields), and
  they are never the bytes signed for a join request or a key envelope.
\<close>

theorem event_signing_payload_unique:
  assumes "signed_event_wire_ok e" and "signed_event_wire_ok f"
  shows "(event_signing_payload e = event_signing_payload f
            \<longleftrightarrow> e\<lparr>ev_signature := []\<rparr> = f\<lparr>ev_signature := []\<rparr>)
         \<and> event_signing_payload e \<noteq> join_signing_payload r
         \<and> event_signing_payload e \<noteq> envelope_signing_payload k"
  using event_signing_payload_inj[OF assms] event_payload_domain[of e] by simp

theorem event_signing_payload_unique_witness:
  "event_signing_payload sample_joined \<noteq> event_signing_payload (sample_joined\<lparr>ev_expected_revision := 2\<rparr>)"
proof -
  have ok: "signed_event_wire_ok (sample_joined\<lparr>ev_expected_revision := r\<rparr>)" for r
    by (simp add: signed_event_wire_ok_def sample_joined_def sample_event_def device_wire_ok_def
        sample_device_def sample_workspace_def wire_len_def)
  have "sample_joined\<lparr>ev_expected_revision := 1\<rparr> = sample_joined"
    by (simp add: sample_joined_def sample_event_def)
  then have ok': "signed_event_wire_ok sample_joined" using ok[of 1] by simp
  show ?thesis using event_signing_payload_unique[OF ok' ok[of 2]]
    by (simp add: sample_joined_def sample_event_def)
qed

end
