(* ===== verification/Manifest.thy ===== *)
theory Manifest
  imports Ids
begin

text \<open>
  \<^verbatim>\<open>rustsync-protocol/src/manifest.rs\<close> and \<^verbatim>\<open>workspace/head.rs\<close>: the manifest of a
  workspace snapshot, an ordered map from normalised relative paths to entries, the validation
  its insertion performs, and the head record that names the current manifest.
\<close>

section \<open>Data\<close>

record FileEntry =
  fe_size :: u64
  fe_content_hash :: string
  fe_modified_at :: u64
  fe_remote_blob_id :: "BlobId option"
  fe_remote_chunk_ids :: "BlobId list"

datatype ManifestEntry = File FileEntry | Directory

record Manifest =
  mf_workspace_id :: WorkspaceId
  mf_entries :: "(string \<times> ManifestEntry) list"

definition manifest_new :: "WorkspaceId \<Rightarrow> Manifest" where
  "manifest_new w = \<lparr>mf_workspace_id = w, mf_entries = []\<rparr>"

definition entry_file :: "u64 \<Rightarrow> string \<Rightarrow> u64 \<Rightarrow> ManifestEntry" where
  "entry_file sz hash modified = File \<lparr>fe_size = sz, fe_content_hash = hash,
     fe_modified_at = modified, fe_remote_blob_id = None, fe_remote_chunk_ids = []\<rparr>"

definition entry_directory :: ManifestEntry where
  "entry_directory = Directory"

record WorkspaceHead =
  wh_workspace_id :: WorkspaceId
  wh_manifest_id :: "ManifestId option"
  wh_revision :: u64
  wh_updated_by :: "DeviceId option"
  wh_updated_at :: "u64 option"

definition head_empty :: "WorkspaceId \<Rightarrow> WorkspaceHead" where
  "head_empty w = \<lparr>wh_workspace_id = w, wh_manifest_id = None, wh_revision = 0,
     wh_updated_by = None, wh_updated_at = None\<rparr>"

record UpdateHeadRequest =
  uh_expected_revision :: u64
  uh_manifest_id :: ManifestId


section \<open>Paths\<close>

abbreviation slash :: char where "slash \<equiv> CHR ''/''"
abbreviation backslash :: char where "backslash \<equiv> CHR 0x5C"

definition path_components :: "string \<Rightarrow> string list" where
  "path_components path = split_on slash path"

definition bad_component :: "string \<Rightarrow> bool" where
  "bad_component c \<longleftrightarrow> c = [] \<or> c = ''.'' \<or> c = ''..''"

definition invalid_manifest_path :: "string \<Rightarrow> string \<Rightarrow> ProtocolError" where
  "invalid_manifest_path path reason = InvalidManifestPath path reason"

definition validate_manifest_path :: "string \<Rightarrow> unit protocol_result" where
  "validate_manifest_path path =
    (if path = [] then Err (invalid_manifest_path path ''path must not be empty'')
     else if starts_with path [slash]
     then Err (invalid_manifest_path path ''path must be relative'')
     else if backslash \<in> set path
     then Err (invalid_manifest_path path ''path must use `/` separators'')
     else if list_ex bad_component (path_components path)
     then Err (invalid_manifest_path path
       ''path must be normalized and must not contain empty, `.`, or `..` components'')
     else Ok ())"

definition manifest_insert :: "Manifest \<Rightarrow> string \<Rightarrow> ManifestEntry \<Rightarrow> Manifest protocol_result" where
  "manifest_insert m path entry =
    and_then (validate_manifest_path path)
      (\<lambda>_. Ok (m\<lparr>mf_entries := bt_insert path entry (mf_entries m)\<rparr>))"

definition manifest_get :: "Manifest \<Rightarrow> string \<Rightarrow> ManifestEntry option" where
  "manifest_get m path = map_of (mf_entries m) path"

definition manifest_contains_path :: "Manifest \<Rightarrow> string \<Rightarrow> bool" where
  "manifest_contains_path m path = bt_contains (mf_entries m) path"

definition manifest_is_empty :: "Manifest \<Rightarrow> bool" where
  "manifest_is_empty m \<longleftrightarrow> mf_entries m = []"

text \<open>What the checks amount to: the path is the join of at least one proper component.\<close>

definition good_component :: "string \<Rightarrow> bool" where
  "good_component c \<longleftrightarrow> \<not> bad_component c \<and> slash \<notin> set c \<and> backslash \<notin> set c"

definition path_ok :: "string \<Rightarrow> bool" where
  "path_ok path \<longleftrightarrow> validate_manifest_path path = Ok ()"

lemma set_join_with:
  "set (join_with [c] xs) = \<Union> (set ` set xs) \<union> (if length xs > 1 then {c} else {})"
  by (induction "[c]" xs rule: join_with.induct) auto

lemma path_ok_components:
  "path_ok path \<longleftrightarrow> backslash \<notin> set path \<and> (\<forall>c \<in> set (path_components path). \<not> bad_component c)"
proof -
  have "bad_component [] \<and> [] \<in> set (path_components path)" if "path = [] \<or> starts_with path [slash]"
    using that by (auto simp: path_components_def bad_component_def starts_with_iff)
  then show ?thesis
    by (auto simp: path_ok_def validate_manifest_path_def list_ex_iff)
qed

lemma path_ok_join_iff:
  "path_ok path \<longleftrightarrow> (\<exists>cs. cs \<noteq> [] \<and> (\<forall>c \<in> set cs. good_component c) \<and> path = join_with [slash] cs)"
proof
  assume ok: "path_ok path"
  let ?cs = "path_components path"
  have join: "join_with [slash] ?cs = path" by (simp add: path_components_def)
  have "set c \<subseteq> set path" if "c \<in> set ?cs" for c
    using that set_join_with[of slash ?cs] join by auto
  then have "good_component c" if "c \<in> set ?cs" for c
    using that ok by (auto simp: path_ok_components good_component_def path_components_def
        dest: split_on_components)
  then show "\<exists>cs. cs \<noteq> [] \<and> (\<forall>c \<in> set cs. good_component c) \<and> path = join_with [slash] cs"
    using join by (metis path_components_def split_on_not_Nil)
next
  assume "\<exists>cs. cs \<noteq> [] \<and> (\<forall>c \<in> set cs. good_component c) \<and> path = join_with [slash] cs"
  then obtain cs where cs: "cs \<noteq> []" "\<forall>c \<in> set cs. good_component c" "path = join_with [slash] cs"
    by auto
  then have "path_components path = cs"
    by (auto simp: path_components_def good_component_def intro: split_on_join)
  then show "path_ok path" using cs
    by (auto simp: path_ok_components good_component_def set_join_with split: if_splits)
qed

lemma manifest_insert_Ok_iff:
  "manifest_insert m path e = Ok m' \<longleftrightarrow>
     path_ok path \<and> m' = m\<lparr>mf_entries := bt_insert path e (mf_entries m)\<rparr>"
  by (auto simp: manifest_insert_def path_ok_def)

definition manifest_wf :: "Manifest \<Rightarrow> bool" where
  "manifest_wf m \<longleftrightarrow> bt_wf (mf_entries m) \<and> (\<forall>p \<in> fst ` set (mf_entries m). path_ok p)"

lemma manifest_new_wf [simp]: "manifest_wf (manifest_new w)"
  by (simp add: manifest_wf_def manifest_new_def)

text \<open>Insertion checks the path and then behaves as the map update.\<close>

lemma manifest_insert_wf:
  "manifest_wf m \<Longrightarrow> manifest_insert m path e = Ok m' \<Longrightarrow> manifest_wf m'"
  by (auto simp: manifest_insert_Ok_iff manifest_wf_def image_iff[symmetric])

lemma manifest_get_insert:
  "manifest_insert m path e = Ok m' \<Longrightarrow>
   manifest_get m' q = (if q = path then Some e else manifest_get m q)"
  by (auto simp: manifest_insert_Ok_iff manifest_get_def)

end
