(* ===== verification/Core_Errors.thy ===== *)
theory Core_Errors
  imports Ids
begin

text \<open>
  \<^verbatim>\<open>rustsync-core/src/error.rs\<close> and the error type of \<^verbatim>\<open>workspace/local_engine.rs\<close>.  The
  transparent variants carry the error they wrap; errors of third-party packages (TOML, JSON, the
  directory walker) are values of an opaque text.  Variant names shared by several enums have a
  suffix.
\<close>

datatype ErrorKind =
    NotFound | NotADirectory | DirectoryNotEmpty | AlreadyExists | InvalidData | InvalidInput
  | OtherKind

datatype IoError = IoError (io_kind: ErrorKind) (io_message: string)

datatype EncryptionError =
    EncryptionProtocol ProtocolError
  | EncryptionInvalidNonceLength nat nat
  | EncryptionFailed
  | DecryptionFailed
  | EncryptionBase64 string

datatype ManifestError =
    ManifestIo IoError
  | ManifestProtocol ProtocolError
  | WalkDir string
  | SerializeManifest string
  | DeserializeManifest string
  | InvalidUtf8Path string
  | InvalidRelativePath string
  | StripRootError string string
  | InvalidModifiedTime string
  | ManifestWorkspaceIdMismatch WorkspaceId WorkspaceId

datatype KeyringError =
    KeyringIo IoError
  | KeyringTomlSerialize string
  | KeyringTomlDeserialize string
  | InvalidKeyId KeyId
  | KeyAlreadyExists KeyId
  | KeyNotFound KeyId
  | InvalidKeySize string nat nat

datatype DeviceError =
    DeviceProtocol ProtocolError
  | DeviceIo IoError
  | DeviceTomlSerialize string
  | DeviceTomlDeserialize string
  | DeviceAlreadyExists DeviceId
  | UnknownDevice DeviceId
  | SigningKeyMismatch
  | ExchangeKeyMismatch
  | DeviceInvalidName string
  | InvalidDeviceId DeviceId
  | DeviceRevoked DeviceId
  | DevicePending DeviceId
  | DeviceFingerprintMismatch string string
  | DeviceWorkspaceIdMismatch string string
  | DeviceInvalidJoinRequest string
  | DeviceInvalidPublicKey
  | DeviceInvalidSignature

datatype AccessError =
    AccessIo IoError
  | AccessTomlSerialize string
  | AccessTomlDeserialize string
  | AccessDevice DeviceError
  | AccessProtocol ProtocolError
  | AccessKeyring KeyringError
  | AccessDeviceNotActiveMember DeviceId
  | InvalidWorkspaceId
  | AccessStateTooOld u64 u64
  | KeyGenerationMismatch KeyId u64 u64
  | SharedKeyUsesImplicitAccess KeyId
  | AccessWorkspaceMismatch WorkspaceId WorkspaceId
  | DeviceIdentityConflict DeviceId
  | DeviceAlreadyAllowed DeviceId
  | UnsupportedEnvelopeAlgorithm
  | WrongEnvelopeRecipient DeviceId DeviceId
  | WrongEnvelopeSender DeviceId DeviceId
  | InvalidEnvelopeSignature
  | InvalidWorkspaceKeyLength nat nat
  | EnvelopeEncryptionFailed
  | EnvelopeDecryptionFailed
  | KeyDerivationFailed

datatype WorkspaceError =
    WorkspaceIo IoError
  | WorkspaceKeyring KeyringError
  | WorkspaceEncryption EncryptionError
  | WorkspaceProtocol ProtocolError
  | WorkspaceDevice DeviceError
  | WorkspaceAccess AccessError
  | AlreadyInitialized string
  | NotInitialized string
  | WorkspaceKeyNotFound KeyId
  | WorkspaceInvalidKeyId KeyId
  | ConfigSerialize string
  | ConfigDeserialize string
  | WorkspaceInvalidKeySize string nat nat

datatype LocalWorkspaceError =
    LocalWorkspace WorkspaceError
  | LocalManifest ManifestError
  | LocalIo IoError
  | LocalSyncState string
  | MissingStagedManifest
  | MissingStagedBlob string IoError
  | UnsafeManifestPath string
  | BlobHashMismatch string
  | BlobSource string IoError

end
