(* ===== verification/Reconcile_Facts.thy ===== *)
theory Reconcile_Facts
  imports Reconcile
begin

text \<open>
  Facts about the reconciliation plan, the text merge and the manifest difference, and their
  properties: the plan as a description without loop state, its soundness for both sides, its symmetry
  in the two sides, and the exact results of merge and difference.
\<close>

section \<open>Paths below a root\<close>

lemma under_iff: "under root path \<longleftrightarrow> (\<exists>r. path = root @ slash # r)"
  by (auto simp: under_def starts_with_iff)

lemma under_trans: "under a b \<Longrightarrow> under b c \<Longrightarrow> under a c"
  by (auto simp: under_iff)

lemma less_append_Cons: "(a :: string) < a @ x # r"
  by (induction a) auto

lemma under_less: "under root path \<Longrightarrow> root < path"
  by (auto simp: under_iff less_append_Cons)

lemma not_under_self [simp]: "\<not> under p p"
  using under_less by blast

lemma set_collect_set [simp]: "set (collect_set xs) = set xs"
  by (simp add: collect_set_def)

lemma sorted_collect_set [simp]: "sorted_wrt (<) (collect_set xs)"
  by (simp add: collect_set_def strict_sorted_iff)

lemma collect_set_cong: "set xs = set ys \<Longrightarrow> collect_set xs = collect_set ys"
  by (intro sorted_distinct_set_unique) (simp_all add: collect_set_def)


section \<open>The plan without its loop\<close>

definition structural :: "Manifest \<Rightarrow> Manifest \<Rightarrow> string \<Rightarrow> bool" where
  "structural loc rem p \<longleftrightarrow>
     is_directory (manifest_get loc p) \<noteq> is_directory (manifest_get rem p)"

definition path_action :: "Manifest \<Rightarrow> Manifest \<Rightarrow> Manifest \<Rightarrow> string \<Rightarrow> ReconciliationAction" where
  "path_action base loc rem p =
    (if structural loc rem p
     then (if subtrees_equal base loc p then Download
           else if subtrees_equal base rem p then Upload else Conflict)
     else reconcile_entry (manifest_get base p) (manifest_get loc p) (manifest_get rem p))"

definition conflict_root :: "Manifest \<Rightarrow> Manifest \<Rightarrow> Manifest \<Rightarrow> string \<Rightarrow> bool" where
  "conflict_root base loc rem p \<longleftrightarrow> structural loc rem p \<and> path_action base loc rem p = Conflict"

definition all_paths :: "Manifest \<Rightarrow> Manifest \<Rightarrow> Manifest \<Rightarrow> string list" where
  "all_paths base loc rem = collect_set (entry_keys base @ entry_keys loc @ entry_keys rem)"

definition shadowed :: "Manifest \<Rightarrow> Manifest \<Rightarrow> Manifest \<Rightarrow> string \<Rightarrow> bool" where
  "shadowed base loc rem p \<longleftrightarrow>
     list_ex (\<lambda>root. conflict_root base loc rem root \<and> under root p) (all_paths base loc rem)"

definition planned :: "Manifest \<Rightarrow> Manifest \<Rightarrow> Manifest \<Rightarrow> ReconciliationPath list" where
  "planned base loc rem =
     map (\<lambda>p. \<lparr>rp_path = p, rp_action = path_action base loc rem p\<rparr>)
       (filter (\<lambda>p. \<not> shadowed base loc rem p) (all_paths base loc rem))"

lemma plan_loop_Cons:
  "plan_loop base loc rem (path # paths) roots =
    (if \<exists>root \<in> set roots. under root path then plan_loop base loc rem paths roots
     else \<lparr>rp_path = path, rp_action = path_action base loc rem path\<rparr>
       # plan_loop base loc rem paths
           (if conflict_root base loc rem path then roots @ [path] else roots))"
  by (auto simp: path_action_def conflict_root_def structural_def Let_def list_ex_iff)

lemma plan_loop_filter:
  assumes "sorted_wrt (<) ps"
  shows "plan_loop base loc rem ps roots =
    map (\<lambda>p. \<lparr>rp_path = p, rp_action = path_action base loc rem p\<rparr>)
      (filter (\<lambda>p. \<not> (\<exists>root \<in> set roots. under root p)
                 \<and> \<not> (\<exists>root \<in> set ps. conflict_root base loc rem root \<and> under root p)) ps)"
  using assms
proof (induction ps arbitrary: roots)
  case (Cons path ps)
  have later: "path < p" if "p \<in> set ps" for p using Cons.prems that by simp
  show ?case
  proof (cases "\<exists>root \<in> set roots. under root path")
    case True
    then have "(\<exists>root \<in> set roots. under root p)" if "under path p" for p
      using that under_trans by blast
    then have "filter (\<lambda>p. \<not> (\<exists>root \<in> set roots. under root p)
        \<and> \<not> (\<exists>root \<in> set (path # ps). conflict_root base loc rem root \<and> under root p)) (path # ps)
      = filter (\<lambda>p. \<not> (\<exists>root \<in> set roots. under root p)
        \<and> \<not> (\<exists>root \<in> set ps. conflict_root base loc rem root \<and> under root p)) ps"
      using True by (auto intro!: filter_cong)
    moreover have "sorted_wrt (<) ps" using Cons.prems by simp
    ultimately show ?thesis using True Cons.IH[of roots] by (simp only: plan_loop_Cons if_True)
  next
    case False
    have "\<not> (\<exists>root \<in> set (path # ps). conflict_root base loc rem root \<and> under root path)"
      using later under_less by (auto dest!: under_less dest: less_asym)
    then show ?thesis using Cons False
      by (simp del: plan_loop.simps add: plan_loop_Cons conj_left_commute conj_commute)
  qed
qed simp

lemma plan_reconciliation_eq:
  "plan_reconciliation base loc rem =
    (if mf_workspace_id base = mf_workspace_id loc \<and> mf_workspace_id base = mf_workspace_id rem
     then Ok \<lparr>rn_paths = planned base loc rem\<rparr>
     else Err (ManifestWorkspaceIdMismatch (mf_workspace_id loc) (mf_workspace_id base)))"
  by (simp add: plan_reconciliation_def plan_loop_filter planned_def shadowed_def all_paths_def
      list_ex_iff)


section \<open>What the actions mean\<close>

lemma manifest_get_None_iff: "manifest_get m p = None \<longleftrightarrow> p \<notin> set (entry_keys m)"
  by (simp add: manifest_get_def entry_keys_def map_of_eq_None_iff)

lemma subtrees_equal_iff:
  "subtrees_equal l r root \<longleftrightarrow>
    (\<forall>p. p = root \<or> under root p \<longrightarrow> entries_equal (manifest_get l p) (manifest_get r p))"
proof -
  have "entries_equal (manifest_get l p) (manifest_get r p)"
    if "p \<notin> set (entry_keys l @ entry_keys r)" for p
    using that by (simp add: manifest_get_None_iff[symmetric])
  then show ?thesis by (auto simp: subtrees_equal_def list_all_iff)
qed

lemma subtrees_equal_sym: "subtrees_equal l r p \<Longrightarrow> subtrees_equal r l p"
  by (auto simp: subtrees_equal_iff intro: entries_equal_sym)

lemma entries_equal_directory: "entries_equal a b \<Longrightarrow> is_directory a = is_directory b"
  by (cases "(a, b)" rule: entries_equal.cases) (auto simp: is_directory_def)

lemma structural_not_equal: "structural loc rem p \<Longrightarrow> \<not> entries_equal (manifest_get loc p) (manifest_get rem p)"
  by (auto simp: structural_def dest: entries_equal_directory)

lemma path_action_sound:
  "case path_action base loc rem p of
     Unchanged \<Rightarrow> entries_equal (manifest_get loc p) (manifest_get rem p)
   | Download \<Rightarrow> entries_equal (manifest_get base p) (manifest_get loc p)
       \<and> \<not> entries_equal (manifest_get loc p) (manifest_get rem p)
   | Upload \<Rightarrow> entries_equal (manifest_get base p) (manifest_get rem p)
       \<and> \<not> entries_equal (manifest_get loc p) (manifest_get rem p)
   | Merge \<Rightarrow> is_file (manifest_get loc p) \<and> is_file (manifest_get rem p)
       \<and> \<not> entries_equal (manifest_get loc p) (manifest_get rem p)
       \<and> \<not> entries_equal (manifest_get base p) (manifest_get loc p)
       \<and> \<not> entries_equal (manifest_get base p) (manifest_get rem p)
   | Conflict \<Rightarrow> \<not> entries_equal (manifest_get loc p) (manifest_get rem p)"
  using structural_not_equal[of loc rem p]
  by (auto simp: path_action_def reconcile_entry_def subtrees_equal_iff
      split: ReconciliationAction.splits if_splits)

fun swap_action :: "ReconciliationAction \<Rightarrow> ReconciliationAction" where
  "swap_action Upload = Download"
| "swap_action Download = Upload"
| "swap_action a = a"

lemma swap_action_Conflict [simp]: "swap_action a = Conflict \<longleftrightarrow> a = Conflict"
  by (cases a) simp_all

lemma structural_sym: "structural loc rem p = structural rem loc p"
  by (auto simp: structural_def)

lemma path_action_swap: "path_action base rem loc p = swap_action (path_action base loc rem p)"
proof -
  have "subtrees_equal base loc p \<Longrightarrow> subtrees_equal base rem p \<Longrightarrow> \<not> structural loc rem p"
    using structural_not_equal[of loc rem p] by (auto simp: subtrees_equal_iff entries_equal_iff)
  moreover have "reconcile_entry (manifest_get base p) (manifest_get rem p) (manifest_get loc p)
      = swap_action (reconcile_entry (manifest_get base p) (manifest_get loc p) (manifest_get rem p))"
    by (auto simp: reconcile_entry_def entries_equal_iff)
  ultimately show ?thesis
    by (auto simp: path_action_def structural_sym[of rem loc])
qed

lemma conflict_root_swap: "conflict_root base rem loc = conflict_root base loc rem"
  by (simp add: conflict_root_def path_action_swap[of base rem loc] structural_sym[of rem loc] fun_eq_iff)

lemma all_paths_swap: "all_paths base rem loc = all_paths base loc rem"
  unfolding all_paths_def by (rule collect_set_cong) auto

lemma planned_swap:
  "planned base rem loc =
     map (\<lambda>i. \<lparr>rp_path = rp_path i, rp_action = swap_action (rp_action i)\<rparr>) (planned base loc rem)"
  by (simp add: planned_def all_paths_swap[of base rem loc] path_action_swap[of base rem loc]
      shadowed_def conflict_root_swap[of base rem loc])

text \<open>When one side did not change, nothing is merged and nothing conflicts.\<close>

definition same_entries :: "Manifest \<Rightarrow> Manifest \<Rightarrow> bool" where
  "same_entries a b \<longleftrightarrow> (\<forall>p. entries_equal (manifest_get a p) (manifest_get b p))"

lemma path_action_fast_forward:
  assumes "same_entries base loc"
  shows "path_action base loc rem p \<in> {Unchanged, Download}"
  using assms
  by (auto simp: path_action_def reconcile_entry_def same_entries_def subtrees_equal_iff)


section \<open>Merging lines\<close>

lemma join_split_inclusive: "concat (split_inclusive c s) = s"
proof (induction s)
  case (Cons x s)
  then show ?case by (cases "split_inclusive c s") auto
qed simp

definition merge_line :: "string \<Rightarrow> string \<Rightarrow> string \<Rightarrow> string option" where
  "merge_line b l r = (if l = b then Some r else if r = b then Some l
                       else if l = r then Some l else None)"

fun merge_all :: "string list \<Rightarrow> string list \<Rightarrow> string list \<Rightarrow> string list option" where
  "merge_all (b # bs) (l # ls) (r # rs) =
    (case (merge_line b l r, merge_all bs ls rs) of
       (Some m, Some ms) \<Rightarrow> Some (m # ms) | _ \<Rightarrow> None)"
| "merge_all _ _ _ = Some []"

lemma merge_lines_eq: "merge_lines bs ls rs acc = map_option (\<lambda>ms. acc @ concat ms) (merge_all bs ls rs)"
  by (induction bs ls rs arbitrary: acc rule: merge_all.induct)
     (auto simp: merge_line_def split: option.splits)

lemma merge_all_Some_iff:
  "length bs = length ls \<Longrightarrow> length bs = length rs \<Longrightarrow>
   merge_all bs ls rs = Some ms \<longleftrightarrow> length ms = length bs
     \<and> (\<forall>i < length bs. merge_line (bs ! i) (ls ! i) (rs ! i) = Some (ms ! i))"
proof (induction bs ls rs arbitrary: ms rule: merge_all.induct)
  case (1 b bs l ls r rs)
  have "(\<forall>i < length (b # bs). P i) \<longleftrightarrow> P 0 \<and> (\<forall>i < length bs. P (Suc i))" for P
    by (auto simp: less_Suc_eq_0_disj)
  then show ?case using 1 by (cases ms) (auto split: option.splits intro: nth_equalityI)
qed auto

lemma merge_line_swap: "merge_line b r l = merge_line b l r"
  by (auto simp: merge_line_def)

lemma merge_all_swap: "merge_all bs rs ls = merge_all bs ls rs"
  by (induction bs ls rs rule: merge_all.induct) (auto simp: merge_line_swap split: list.splits)

lemma merge_all_same_base: "length bs = length rs \<Longrightarrow> merge_all bs bs rs = Some rs"
  by (induction bs rs rule: list_induct2) (simp_all add: merge_line_def)

lemma from_utf8_Some_iff: "from_utf8 bs = Some s \<longleftrightarrow> utf8_valid bs \<and> s = bytes_str bs"
  by (auto simp: from_utf8_def)


section \<open>Differences\<close>

lemma in_map_filter: "y \<in> set (List.map_filter f xs) \<longleftrightarrow> (\<exists>x \<in> set xs. f x = Some y)"
  by (force simp: List.map_filter_def)

lemma manifest_in_set:
  "bt_wf (mf_entries m) \<Longrightarrow> (p, e) \<in> set (mf_entries m) \<longleftrightarrow> manifest_get m p = Some e"
  by (simp add: manifest_get_def bt_in_set_iff)

lemma diff_members:
  assumes "bt_wf (mf_entries old)" and "bt_wf (mf_entries new)"
  shows "Added p \<in> set (diff_manifests old new)
           \<longleftrightarrow> manifest_get old p = None \<and> manifest_get new p \<noteq> None"
    and "Modified p \<in> set (diff_manifests old new)
           \<longleftrightarrow> manifest_get old p \<noteq> None \<and> manifest_get new p \<noteq> None
             \<and> \<not> entries_equal (manifest_get old p) (manifest_get new p)"
    and "Deleted p \<in> set (diff_manifests old new)
           \<longleftrightarrow> manifest_get old p \<noteq> None \<and> manifest_get new p = None"
proof -
  have mem: "c \<in> set (diff_manifests old new) \<longleftrightarrow>
      (\<exists>q e. manifest_get new q = Some e \<and>
         (case manifest_get old q of None \<Rightarrow> c = Added q
          | Some e' \<Rightarrow> entry_changed e' e \<and> c = Modified q))
      \<or> (\<exists>q e. manifest_get old q = Some e \<and> manifest_get new q = None \<and> c = Deleted q)" for c
  proof -
    have pair: "(\<exists>x \<in> S. P x) \<longleftrightarrow> (\<exists>q e. (q, e) \<in> S \<and> P (q, e))" for S :: "(string \<times> ManifestEntry) set" and P
      by auto
    have "manifest_contains_path new q \<longleftrightarrow> manifest_get new q \<noteq> None" for q
      by (simp add: manifest_contains_path_def bt_contains_def manifest_get_def)
    moreover have "(case manifest_get old q of None \<Rightarrow> Some (Added q)
        | Some e' \<Rightarrow> (if entry_changed e' e then Some (Modified q) else None)) = Some c
      \<longleftrightarrow> (case manifest_get old q of None \<Rightarrow> c = Added q
          | Some e' \<Rightarrow> entry_changed e' e \<and> c = Modified q)" for q e
      by (auto split: option.splits)
    ultimately show ?thesis
      unfolding diff_manifests_def set_append Un_iff in_map_filter pair prod.case
        manifest_in_set[OF assms(1)] manifest_in_set[OF assms(2)] by auto
  qed
  show "Added p \<in> set (diff_manifests old new) \<longleftrightarrow> manifest_get old p = None \<and> manifest_get new p \<noteq> None"
    by (auto simp: mem split: option.splits)
  show "Modified p \<in> set (diff_manifests old new) \<longleftrightarrow> manifest_get old p \<noteq> None
      \<and> manifest_get new p \<noteq> None \<and> \<not> entries_equal (manifest_get old p) (manifest_get new p)"
    by (auto simp: mem entry_changed_iff entries_equal_iff split: option.splits)
  show "Deleted p \<in> set (diff_manifests old new) \<longleftrightarrow> manifest_get old p \<noteq> None \<and> manifest_get new p = None"
    by (auto simp: mem split: option.splits)
qed

lemma diff_empty_iff:
  assumes "bt_wf (mf_entries old)" and "bt_wf (mf_entries new)"
  shows "diff_manifests old new = [] \<longleftrightarrow> same_entries old new"
proof -
  have "diff_manifests old new = [] \<longleftrightarrow> (\<forall>c. c \<notin> set (diff_manifests old new))" by auto
  also have "\<dots> \<longleftrightarrow> (\<forall>p. Added p \<notin> set (diff_manifests old new)
      \<and> Modified p \<notin> set (diff_manifests old new) \<and> Deleted p \<notin> set (diff_manifests old new))"
    by (metis ManifestChange.exhaust)
  also have "\<dots> \<longleftrightarrow> same_entries old new"
    unfolding diff_members[OF assms] same_entries_def
    by (intro iff_allI) (auto simp: entries_equal_iff)
  finally show ?thesis .
qed

end
