(* ===== verification/Reconcile_Props.thy ===== *)
theory Reconcile_Props
  imports Reconcile_Facts
begin

text \<open>The properties of reconciliation, text merge and manifest difference.\<close>

lemma planned_or_below_conflict:
  assumes "p \<in> set (all_paths base loc rem)"
  shows "(\<exists>i \<in> set (planned base loc rem). rp_path i = p)
    \<or> (\<exists>i \<in> set (planned base loc rem). rp_action i = Conflict \<and> under (rp_path i) p)"
proof (cases "shadowed base loc rem p")
  case False
  then show ?thesis using assms by (auto simp: planned_def)
next
  case True
  let ?R = "{root \<in> set (all_paths base loc rem). conflict_root base loc rem root \<and> under root p}"
  have "?R \<noteq> {}" "finite ?R" using True by (auto simp: shadowed_def list_ex_iff)
  then have R: "Min ?R \<in> ?R" and least: "\<And>r. r \<in> ?R \<Longrightarrow> Min ?R \<le> r"
    using Min_in Min_le by blast+
  have "\<not> shadowed base loc rem (Min ?R)"
  proof
    assume "shadowed base loc rem (Min ?R)"
    then obtain r where r: "r \<in> set (all_paths base loc rem)" "conflict_root base loc rem r"
      "under r (Min ?R)" by (auto simp: shadowed_def list_ex_iff)
    moreover have "under r p" using r(3) R under_trans by blast
    ultimately have "Min ?R \<le> r" by (intro least) simp
    then show False using under_less[OF r(3)] by simp
  qed
  then have "\<lparr>rp_path = Min ?R, rp_action = Conflict\<rparr> \<in> set (planned base loc rem)"
    using R by (auto simp: planned_def conflict_root_def image_iff)
  then show ?thesis using R by (intro disjI2 bexI) auto
qed

definition sample_file :: "string \<Rightarrow> ManifestEntry" where
  "sample_file hash = entry_file 3 hash 1"

definition sample_manifest :: "(string \<times> ManifestEntry) list \<Rightarrow> Manifest" where
  "sample_manifest es = \<lparr>mf_workspace_id = WorkspaceId ''ws'', mf_entries = es\<rparr>"

text \<open>
  Property C6: the plan is exactly this.  It fails only when the three manifests name different
  workspaces.  Otherwise it lists, in path order and once each, the paths of the three manifests that
  are not below a path where a directory meets a non-directory changed on both sides; the action of
  each path depends on the three manifests alone, not on the order of the loop.
\<close>

theorem reconciliation_plan_exact:
  "plan_reconciliation base loc rem =
    (if mf_workspace_id base = mf_workspace_id loc \<and> mf_workspace_id base = mf_workspace_id rem
     then Ok \<lparr>rn_paths = map (\<lambda>p. \<lparr>rp_path = p, rp_action = path_action base loc rem p\<rparr>)
                (filter (\<lambda>p. \<not> shadowed base loc rem p) (all_paths base loc rem))\<rparr>
     else Err (ManifestWorkspaceIdMismatch (mf_workspace_id loc) (mf_workspace_id base)))"
  unfolding plan_reconciliation_eq planned_def ..



text \<open>
  Property C8: neither side is preferred.  Exchanging the local and the remote manifest gives the same
  plan with uploads and downloads exchanged.
\<close>

theorem reconciliation_symmetric:
  "plan_reconciliation base loc rem = Ok plan \<Longrightarrow> plan_reconciliation base rem loc =
     Ok \<lparr>rn_paths = map (\<lambda>i. \<lparr>rp_path = rp_path i, rp_action = swap_action (rp_action i)\<rparr>) (rn_paths plan)\<rparr>"
  by (auto simp: plan_reconciliation_eq planned_swap[of base rem loc] split: if_splits)

theorem reconciliation_symmetric_witness:
  "plan_reconciliation (sample_manifest []) (sample_manifest []) (sample_manifest [(''a'', sample_file ''x'')])
     = Ok \<lparr>rn_paths = [\<lparr>rp_path = ''a'', rp_action = Download\<rparr>]\<rparr>"
proof -
  have "plan_reconciliation (sample_manifest []) (sample_manifest [(''a'', sample_file ''x'')]) (sample_manifest [])
     = Ok \<lparr>rn_paths = [\<lparr>rp_path = ''a'', rp_action = Upload\<rparr>]\<rparr>"
    by (simp add: plan_reconciliation_def sample_manifest_def entry_keys_def collect_set_def
        is_directory_def manifest_get_def sample_file_def entry_file_def reconcile_entry_def)
  from reconciliation_symmetric[OF this] show ?thesis by simp
qed

text \<open>
  A side without changes is fast-forwarded.  When the local manifest holds what the base holds,
  the plan downloads or leaves alone every path of the three manifests, and the entry at each downloaded path
  is the remote one; nothing is merged, uploaded or reported as a conflict.
\<close>

theorem reconciliation_fast_forward:
  assumes "plan_reconciliation base loc rem = Ok plan" and "same_entries base loc"
  shows "map rp_path (rn_paths plan) = all_paths base loc rem \<and>
    set (map rp_action (rn_paths plan)) \<subseteq> {Unchanged, Download}"
proof -
  have "\<not> conflict_root base loc rem p" for p
    using path_action_fast_forward[OF assms(2), of rem p] by (auto simp: conflict_root_def)
  then have "\<not> shadowed base loc rem p" for p by (auto simp: shadowed_def list_ex_iff)
  moreover have "rn_paths plan = planned base loc rem"
    using assms(1) by (auto simp: plan_reconciliation_eq split: if_splits)
  ultimately show ?thesis using path_action_fast_forward[OF assms(2)]
    by (auto simp: planned_def o_def)
qed

theorem reconciliation_fast_forward_witness:
  "\<exists>plan. plan_reconciliation (sample_manifest [(''a'', sample_file ''x'')])
      (sample_manifest [(''a'', sample_file ''x'')]) (sample_manifest []) = Ok plan
    \<and> set (map rp_action (rn_paths plan)) \<subseteq> {Unchanged, Download}"
proof -
  have "same_entries (sample_manifest [(''a'', sample_file ''x'')]) (sample_manifest [(''a'', sample_file ''x'')])"
    by (simp add: same_entries_def)
  moreover have "plan_reconciliation (sample_manifest [(''a'', sample_file ''x'')])
      (sample_manifest [(''a'', sample_file ''x'')]) (sample_manifest [])
    = Ok \<lparr>rn_paths = planned (sample_manifest [(''a'', sample_file ''x'')])
         (sample_manifest [(''a'', sample_file ''x'')]) (sample_manifest [])\<rparr>"
    by (simp add: plan_reconciliation_eq sample_manifest_def)
  ultimately show ?thesis using reconciliation_fast_forward by blast
qed

text \<open>
  Property C9: the line merge.  It succeeds exactly on three valid UTF-8 texts with equally many lines in which
  every line was changed by at most one side or by both to the same text; its result has, line by line,
  the change that was made.  It does not depend on which side is called local, and if one side left
  the text alone the result is the other side.
\<close>

theorem merge_text_exact:
  "(merge_text_three_way base loc rem = Some m \<longleftrightarrow>
     utf8_valid base \<and> utf8_valid loc \<and> utf8_valid rem \<and>
     (let bs = split_inclusive newline (bytes_str base); ls = split_inclusive newline (bytes_str loc);
          rs = split_inclusive newline (bytes_str rem)
      in length bs = length ls \<and> length bs = length rs \<and>
         (\<exists>ms. m = str_bytes (concat ms) \<and> length ms = length bs \<and>
               (\<forall>i \<in> {..<length bs}. merge_line (bs ! i) (ls ! i) (rs ! i) = Some (ms ! i)))))
   \<and> merge_text_three_way base rem loc = merge_text_three_way base loc rem
   \<and> (utf8_valid base \<and> utf8_valid rem
      \<and> length (split_inclusive newline (bytes_str base)) = length (split_inclusive newline (bytes_str rem))
      \<longrightarrow> merge_text_three_way base base rem = Some rem)"
proof (intro conjI impI)
  let ?bs = "split_inclusive newline (bytes_str base)"
  let ?ls = "split_inclusive newline (bytes_str loc)"
  let ?rs = "split_inclusive newline (bytes_str rem)"
  have *: "(merge_all ?bs ?ls ?rs = Some ms) \<longleftrightarrow> length ms = length ?bs
      \<and> (\<forall>i \<in> {..<length ?bs}. merge_line (?bs ! i) (?ls ! i) (?rs ! i) = Some (ms ! i))"
    if "length ?bs = length ?ls" "length ?bs = length ?rs" for ms
    unfolding merge_all_Some_iff[OF that] by (simp add: Ball_def)
  have eval: "merge_text_three_way base loc rem = Some m \<longleftrightarrow> utf8_valid base \<and> utf8_valid loc \<and> utf8_valid rem
      \<and> length ?bs = length ?ls \<and> length ?bs = length ?rs
      \<and> (\<exists>ms. m = str_bytes (concat ms) \<and> merge_all ?bs ?ls ?rs = Some ms)"
    by (auto simp: merge_text_three_way_def bind_eq_Some_conv from_utf8_Some_iff Let_def merge_lines_eq)
  show "merge_text_three_way base loc rem = Some m \<longleftrightarrow>
     utf8_valid base \<and> utf8_valid loc \<and> utf8_valid rem \<and>
     (let bs = ?bs; ls = ?ls; rs = ?rs
      in length bs = length ls \<and> length bs = length rs \<and>
         (\<exists>ms. m = str_bytes (concat ms) \<and> length ms = length bs \<and>
               (\<forall>i \<in> {..<length bs}. merge_line (bs ! i) (ls ! i) (rs ! i) = Some (ms ! i))))"
    unfolding eval Let_def using * by blast
  show "merge_text_three_way base rem loc = merge_text_three_way base loc rem"
    by (auto simp: merge_text_three_way_def from_utf8_def Let_def merge_lines_eq merge_all_swap)
  assume "utf8_valid base \<and> utf8_valid rem \<and> length ?bs = length ?rs"
  then show "merge_text_three_way base base rem = Some rem"
    by (simp add: merge_text_three_way_def from_utf8_def merge_lines_eq merge_all_same_base
        join_split_inclusive)
qed

theorem merge_text_exact_witness:
  "merge_text_three_way (str_bytes ''a'') (str_bytes ''a'') (str_bytes ''c'') = Some (str_bytes ''c'')"
proof -
  have "utf8_valid (str_bytes ''a'')" "utf8_valid (str_bytes ''c'')" by (simp_all add: str_bytes_def)
  then show ?thesis using merge_text_exact[of "str_bytes ''a''" "str_bytes ''a''" "str_bytes ''c''"]
    by (simp del: str_bytes_inj)
qed



end
