(* ===== verification/Stateful.thy ===== *)
theory Stateful
  imports Prelude
begin

text \<open>
  Fallible operations on a state, as the code's asynchronous methods on a shared handle: a
  function from the state to the state left behind and the value or error returned.  \<^verbatim>\<open>?\<close>
  is \<^verbatim>\<open>then_do\<close>.  \<^verbatim>\<open>post\<close> states what holds of the outcome; its equations turn a
  claim about a composed operation into claims about the parts.
\<close>

type_synonym ('s, 'a, 'e) action = "'s \<Rightarrow> 's \<times> ('a, 'e) result"

definition lift_result :: "('a, 'e) result \<Rightarrow> ('s, 'a, 'e) action" where
  "lift_result r s = (s, r)"

definition done_with :: "'a \<Rightarrow> ('s, 'a, 'e) action" where
  "done_with a s = (s, Ok a)"

definition fail_with :: "'e \<Rightarrow> ('s, 'a, 'e) action" where
  "fail_with e s = (s, Err e)"

definition then_do :: "('s, 'a, 'e) action \<Rightarrow> ('a \<Rightarrow> ('s, 'b, 'e) action) \<Rightarrow> ('s, 'b, 'e) action" where
  "then_do m k s = (case m s of (s', r) \<Rightarrow> (case r of Ok a \<Rightarrow> k a s' | Err e \<Rightarrow> (s', Err e)))"

text \<open>A \<^verbatim>\<open>match\<close> on the result of an operation, without early return.\<close>

definition match_do :: "('s, 'a, 'e) action \<Rightarrow> (('a, 'e) result \<Rightarrow> ('s, 'b, 'f) action) \<Rightarrow> ('s, 'b, 'f) action" where
  "match_do m k s = (case m s of (s', r) \<Rightarrow> k r s')"

definition map_error :: "('s, 'a, 'e) action \<Rightarrow> ('e \<Rightarrow> 'f) \<Rightarrow> ('s, 'a, 'f) action" where
  "map_error m f s = (case m s of (s', r) \<Rightarrow> (s', map_err r f))"

text \<open>A loop over a list that collects the results and stops at the first error.\<close>

fun collect_do :: "('x \<Rightarrow> ('s, 'a, 'e) action) \<Rightarrow> 'x list \<Rightarrow> ('s, 'a list, 'e) action" where
  "collect_do f [] = done_with []"
| "collect_do f (x # xs) = then_do (f x) (\<lambda>y. then_do (collect_do f xs) (\<lambda>ys. done_with (y # ys)))"

definition post :: "('s, 'a, 'e) action \<Rightarrow> 's \<Rightarrow> ('s \<Rightarrow> ('a, 'e) result \<Rightarrow> bool) \<Rightarrow> bool" where
  "post m s P \<longleftrightarrow> P (fst (m s)) (snd (m s))"

named_theorems post_simps

lemma post_done [post_simps]: "post (done_with a) s P \<longleftrightarrow> P s (Ok a)"
  by (simp add: post_def done_with_def)

lemma post_fail [post_simps]: "post (fail_with e) s P \<longleftrightarrow> P s (Err e)"
  by (simp add: post_def fail_with_def)

lemma post_lift [post_simps]: "post (lift_result r) s P \<longleftrightarrow> P s r"
  by (simp add: post_def lift_result_def)

lemma post_then [post_simps]:
  "post (then_do m k) s P \<longleftrightarrow> post m s (\<lambda>s' r. case r of Ok a \<Rightarrow> post (k a) s' P | Err e \<Rightarrow> P s' (Err e))"
  by (simp add: post_def then_do_def split: prod.splits result.splits)

lemma post_match [post_simps]: "post (match_do m k) s P \<longleftrightarrow> post m s (\<lambda>s' r. post (k r) s' P)"
  by (simp add: post_def match_do_def split: prod.splits)

lemma post_map_error [post_simps]: "post (map_error m f) s P \<longleftrightarrow> post m s (\<lambda>s' r. P s' (map_err r f))"
  by (simp add: post_def map_error_def split: prod.splits)

lemma post_if [post_simps]: "post (if b then m else n) s P \<longleftrightarrow> (if b then post m s P else post n s P)"
  by simp

lemma postI: "(\<And>s' r. m s = (s', r) \<Longrightarrow> P s' r) \<Longrightarrow> post m s P"
  by (simp add: post_def)

lemma postD: "post m s P \<Longrightarrow> m s = (s', r) \<Longrightarrow> P s' r"
  by (simp add: post_def)

lemma post_mono: "post m s P \<Longrightarrow> (\<And>s' r. P s' r \<Longrightarrow> Q s' r) \<Longrightarrow> post m s Q"
  by (simp add: post_def)

lemma post_conj: "post m s P \<Longrightarrow> post m s Q \<Longrightarrow> post m s (\<lambda>s' r. P s' r \<and> Q s' r)"
  by (simp add: post_def)

text \<open>An operation that leaves a view of the state as it was.\<close>

definition keeps :: "('s \<Rightarrow> 'v) \<Rightarrow> ('s, 'a, 'e) action \<Rightarrow> bool" where
  "keeps v m \<longleftrightarrow> (\<forall>s. post m s (\<lambda>s' _. v s' = v s))"

lemma keeps_basic [simp]: "keeps v (done_with a)" "keeps v (fail_with e)" "keeps v (lift_result r)"
  by (simp_all add: keeps_def post_simps)

lemma keeps_then: "keeps v m \<Longrightarrow> (\<And>a. keeps v (k a)) \<Longrightarrow> keeps v (then_do m k)"
  unfolding keeps_def post_def then_do_def by (auto split: prod.splits result.splits) (metis fst_conv)+

lemma keeps_match: "keeps v m \<Longrightarrow> (\<And>a. keeps v (k a)) \<Longrightarrow> keeps v (match_do m k)"
  unfolding keeps_def post_def match_do_def by (auto split: prod.splits) (metis fst_conv)+

lemma keeps_map_error: "keeps v m \<Longrightarrow> keeps v (map_error m f)"
  unfolding keeps_def post_def map_error_def by (auto split: prod.splits) (metis fst_conv)+

lemma keeps_collect: "(\<And>x. keeps v (f x)) \<Longrightarrow> keeps v (collect_do f xs)"
  by (induction xs) (simp_all add: keeps_then)

lemmas keeps_intros = keeps_then keeps_match keeps_map_error keeps_collect

lemma keepsD: "keeps v m \<Longrightarrow> m s = (s', r) \<Longrightarrow> v s' = v s"
  unfolding keeps_def post_def by (metis fst_conv)

end
