(* ===== verification/File_System.thy ===== *)
theory File_System
  imports Stateful Core_Errors "HOL-Library.List_Lexorder"
begin

text \<open>
  The file system as the server uses it, and \<^verbatim>\<open>rustsync-server/src/storage/atomic.rs\<close> on
  top of it.  A path is the list of its components; directories exist implicitly.  Every primitive may
  fail for a reason the model does not determine (a full disk, a permission, a crash of the device):
  the faults to come are part of the state, and a faulty write leaves a prefix of the data.  The clock
  readings that name temporary files are part of the state too.
\<close>

section \<open>Primitives\<close>

type_synonym path = "string list"

datatype Fault = Fault (fault_written: nat) (fault_message: string)

record FileSys =
  fs_files :: "(path \<times> bytes) list"
  fs_faults :: "Fault option list"
  fs_nanos :: "nat list"

type_synonym 'a io = "(FileSys, 'a, IoError) action"

definition fs_get :: "FileSys \<Rightarrow> path \<Rightarrow> bytes option" where
  "fs_get fs p = map_of (fs_files fs) p"

definition fs_put :: "path \<Rightarrow> bytes \<Rightarrow> FileSys \<Rightarrow> FileSys" where
  "fs_put p b fs = fs\<lparr>fs_files := bt_insert p b (fs_files fs)\<rparr>"

definition fs_delete :: "path \<Rightarrow> FileSys \<Rightarrow> FileSys" where
  "fs_delete p fs = fs\<lparr>fs_files := bt_remove p (fs_files fs)\<rparr>"

definition io_error :: "ErrorKind \<Rightarrow> IoError" where
  "io_error k = IoError k ''''"

text \<open>Runs a primitive unless the next fault strikes; the effect of a fault on the files is given.\<close>

definition with_fault :: "(nat \<Rightarrow> FileSys \<Rightarrow> FileSys) \<Rightarrow> 'a io \<Rightarrow> 'a io" where
  "with_fault damage run fs = (case fs_faults fs of
     [] \<Rightarrow> run fs
   | None # rest \<Rightarrow> run (fs\<lparr>fs_faults := rest\<rparr>)
   | Some f # rest \<Rightarrow> (damage (fault_written f) (fs\<lparr>fs_faults := rest\<rparr>),
                        Err (IoError OtherKind (fault_message f))))"

abbreviation no_damage :: "nat \<Rightarrow> FileSys \<Rightarrow> FileSys" where "no_damage \<equiv> \<lambda>_ fs. fs"

definition fs_read :: "path \<Rightarrow> bytes io" where
  "fs_read p = with_fault no_damage (\<lambda>fs. (fs, ok_or (fs_get fs p) (io_error NotFound)))"

definition fs_try_exists :: "path \<Rightarrow> bool io" where
  "fs_try_exists p = with_fault no_damage (\<lambda>fs. (fs, Ok (fs_get fs p \<noteq> None)))"

definition fs_create_dir_all :: "path \<Rightarrow> unit io" where
  "fs_create_dir_all p = with_fault no_damage (\<lambda>fs. (fs, Ok ()))"

definition fs_open_create_new :: "path \<Rightarrow> unit io" where
  "fs_open_create_new p = with_fault no_damage (\<lambda>fs.
     if fs_get fs p \<noteq> None then (fs, Err (io_error AlreadyExists)) else (fs_put p [] fs, Ok ()))"

definition fs_write_all :: "path \<Rightarrow> bytes \<Rightarrow> unit io" where
  "fs_write_all p b = with_fault (\<lambda>n. fs_put p (take n b)) (\<lambda>fs. (fs_put p b fs, Ok ()))"

definition fs_sync_all :: "path \<Rightarrow> unit io" where
  "fs_sync_all p = with_fault no_damage (\<lambda>fs. (fs, Ok ()))"

definition fs_hard_link :: "path \<Rightarrow> path \<Rightarrow> unit io" where
  "fs_hard_link src dst = with_fault no_damage (\<lambda>fs. case fs_get fs src of
     None \<Rightarrow> (fs, Err (io_error NotFound))
   | Some b \<Rightarrow> if fs_get fs dst \<noteq> None then (fs, Err (io_error AlreadyExists))
               else (fs_put dst b fs, Ok ()))"

definition fs_rename :: "path \<Rightarrow> path \<Rightarrow> unit io" where
  "fs_rename src dst = with_fault no_damage (\<lambda>fs. case fs_get fs src of
     None \<Rightarrow> (fs, Err (io_error NotFound))
   | Some b \<Rightarrow> (fs_put dst b (fs_delete src fs), Ok ()))"

definition fs_remove_file :: "path \<Rightarrow> unit io" where
  "fs_remove_file p = with_fault no_damage (\<lambda>fs.
     if fs_get fs p = None then (fs, Err (io_error NotFound)) else (fs_delete p fs, Ok ()))"

text \<open>The files of a directory; a directory without files is not distinguished from a missing one.\<close>

definition fs_read_dir :: "path \<Rightarrow> path list io" where
  "fs_read_dir d = with_fault no_damage (\<lambda>fs.
     let files = filter (\<lambda>p. p \<noteq> [] \<and> butlast p = d) (map fst (fs_files fs)) in
     if files = [] then (fs, Err (io_error NotFound)) else (fs, Ok files))"

definition fs_now_nanos :: "FileSys \<Rightarrow> FileSys \<times> nat" where
  "fs_now_nanos fs = (case fs_nanos fs of [] \<Rightarrow> (fs, 0) | n # ns \<Rightarrow> (fs\<lparr>fs_nanos := ns\<rparr>, n))"


section \<open>Atomic writes\<close>

definition temp_path_for :: "nat \<Rightarrow> nat \<Rightarrow> path \<Rightarrow> path" where
  "temp_path_for process_id timestamp p =
     (let file_name = (if p = [] then ''object'' else last p)
      in butlast p @ [''.'' @ file_name @ ''.'' @ show_nat process_id @ ''.'' @ show_nat timestamp @ ''.tmp''])"

definition remove_temp_file :: "path \<Rightarrow> unit io" where
  "remove_temp_file p = match_do (fs_remove_file p) (\<lambda>r. case r of
     Ok _ \<Rightarrow> done_with ()
   | Err e \<Rightarrow> (if io_kind e = NotFound then done_with () else fail_with e))"

definition write_temp :: "path \<Rightarrow> bytes \<Rightarrow> unit io" where
  "write_temp temp b = then_do (fs_open_create_new temp) (\<lambda>_.
     then_do (fs_write_all temp b) (\<lambda>_. fs_sync_all temp))"

definition write_new :: "nat \<Rightarrow> path \<Rightarrow> bytes \<Rightarrow> bool io" where
  "write_new pid p b = then_do (fs_create_dir_all (butlast p)) (\<lambda>_ fs.
     let (fs, nanos) = fs_now_nanos fs; temp = temp_path_for pid nanos p in
     then_do (write_temp temp b) (\<lambda>_.
     match_do (fs_hard_link temp p) (\<lambda>r. case r of
       Ok _ \<Rightarrow> then_do (remove_temp_file temp) (\<lambda>_. done_with True)
     | Err e \<Rightarrow> (if io_kind e = AlreadyExists
                then then_do (remove_temp_file temp) (\<lambda>_. done_with False)
                else match_do (remove_temp_file temp) (\<lambda>_. fail_with e)))) fs)"

definition write_replace :: "nat \<Rightarrow> path \<Rightarrow> bytes \<Rightarrow> unit io" where
  "write_replace pid p b = then_do (fs_create_dir_all (butlast p)) (\<lambda>_ fs.
     let (fs, nanos) = fs_now_nanos fs; temp = temp_path_for pid nanos p in
     then_do (write_temp temp b) (\<lambda>_.
     match_do (fs_rename temp p) (\<lambda>r. case r of
       Ok _ \<Rightarrow> done_with ()
     | Err e \<Rightarrow> match_do (remove_temp_file temp) (\<lambda>_. fail_with e))) fs)"


section \<open>What can be observed\<close>

text \<open>Temporary files have names that start with a dot and end in \<^verbatim>\<open>.tmp\<close>; no other
  path the server uses does.\<close>

definition hidden :: "path \<Rightarrow> bool" where
  "hidden p \<longleftrightarrow> p \<noteq> [] \<and> last p \<noteq> [] \<and> hd (last p) = CHR ''.''
     \<and> drop (length (last p) - 4) (last p) = ''.tmp''"

definition visible :: "FileSys \<Rightarrow> path \<Rightarrow> bytes option" where
  "visible fs p = (if hidden p then None else fs_get fs p)"

definition fs_wf :: "FileSys \<Rightarrow> bool" where
  "fs_wf fs \<longleftrightarrow> bt_wf (fs_files fs)"

lemma fs_get_put [simp]: "fs_get (fs_put p b fs) q = (if q = p then Some b else fs_get fs q)"
  by (simp add: fs_get_def fs_put_def)

lemma fs_get_delete [simp]: "fs_get (fs_delete p fs) q = (if q = p then None else fs_get fs q)"
  by (simp add: fs_get_def fs_delete_def)

lemma fs_get_other [simp]:
  "fs_get (fs\<lparr>fs_faults := f\<rparr>) = fs_get fs" "fs_get (fs\<lparr>fs_nanos := n\<rparr>) = fs_get fs"
  by (simp_all add: fs_get_def fun_eq_iff)

lemma fs_wf_updates [simp]:
  "fs_wf fs \<Longrightarrow> fs_wf (fs_put p b fs)" "fs_wf fs \<Longrightarrow> fs_wf (fs_delete p fs)"
  "fs_wf (fs\<lparr>fs_faults := f\<rparr>) = fs_wf fs" "fs_wf (fs\<lparr>fs_nanos := n\<rparr>) = fs_wf fs"
  by (simp_all add: fs_wf_def fs_put_def fs_delete_def)

lemma hidden_temp [simp]: "hidden (temp_path_for pid n p)"
  by (simp add: hidden_def temp_path_for_def Let_def)

lemma visible_hidden [simp]: "hidden p \<Longrightarrow> visible (fs_put p b fs) = visible fs"
  "hidden p \<Longrightarrow> visible (fs_delete p fs) = visible fs"
  by (auto simp: visible_def fun_eq_iff)

lemma visible_put: "\<not> hidden p \<Longrightarrow> visible (fs_put p b fs) = (visible fs)(p \<mapsto> b)"
  by (auto simp: visible_def fun_eq_iff)

lemma visible_delete: "\<not> hidden p \<Longrightarrow> visible (fs_delete p fs) = (visible fs)(p := None)"
  by (auto simp: visible_def fun_eq_iff)

lemma visible_other [simp]:
  "visible (fs\<lparr>fs_faults := f\<rparr>) = visible fs" "visible (fs\<lparr>fs_nanos := n\<rparr>) = visible fs"
  by (simp_all add: visible_def fun_eq_iff)

lemma visible_get: "\<not> hidden p \<Longrightarrow> fs_get fs p = visible fs p"
  by (simp add: visible_def)

lemma with_fault_cases:
  assumes "\<And>fs'. fs_get fs' = fs_get fs \<Longrightarrow> fs_files fs' = fs_files fs \<Longrightarrow> post run fs' P"
    and "\<And>fs' f. fs_get fs' = fs_get fs \<Longrightarrow> fs_files fs' = fs_files fs \<Longrightarrow>
          P (damage (fault_written f) fs') (Err (IoError OtherKind (fault_message f)))"
  shows "post (with_fault damage run) fs P"
proof -
  have [simp]: "fs_files (fs\<lparr>fs_faults := x\<rparr>) = fs_files fs" for x by simp
  show ?thesis using assms
    unfolding with_fault_def post_def by (auto split: list.splits option.splits)
qed

section \<open>Atomic writes, observed\<close>

text \<open>An operation on hidden files only: the visible files and the order of the table stay.\<close>

definition seen :: "FileSys \<Rightarrow> bool \<times> (path \<Rightarrow> bytes option)" where
  "seen fs = (fs_wf fs, visible fs)"

lemma seen_updates [simp]:
  "seen (fs\<lparr>fs_faults := f\<rparr>) = seen fs" "seen (fs\<lparr>fs_nanos := n\<rparr>) = seen fs"
  "fs_wf fs \<Longrightarrow> hidden p \<Longrightarrow> seen (fs_put p b fs) = seen fs"
  "fs_wf fs \<Longrightarrow> hidden p \<Longrightarrow> seen (fs_delete p fs) = seen fs"
  by (simp_all add: seen_def)

lemma fs_wf_seen: "seen fs' = seen fs \<Longrightarrow> fs_wf fs' = fs_wf fs"
  by (simp add: seen_def)

lemma seen_put: "fs_wf fs \<Longrightarrow> \<not> hidden p \<Longrightarrow> seen (fs_put p b fs) = (True, (visible fs)(p \<mapsto> b))"
  by (simp add: seen_def visible_put)

lemma seen_delete: "fs_wf fs \<Longrightarrow> \<not> hidden p \<Longrightarrow> seen (fs_delete p fs) = (True, (visible fs)(p := None))"
  by (simp add: seen_def visible_delete)

lemma seen_eqD: "seen fs' = seen fs \<Longrightarrow> visible fs' = visible fs"
  by (simp add: seen_def)

lemma fs_read_post:
  "post (fs_read p) fs (\<lambda>fs' r. seen fs' = seen fs \<and> (case r of Ok b \<Rightarrow> fs_get fs p = Some b
     | Err e \<Rightarrow> io_kind e = NotFound \<longrightarrow> fs_get fs p = None))"
  by (auto simp: fs_read_def with_fault_def post_def io_error_def split: list.splits option.splits result.splits)

lemma fs_try_exists_post:
  "post (fs_try_exists p) fs (\<lambda>fs' r. seen fs' = seen fs \<and> (case r of Ok b \<Rightarrow> b = (fs_get fs p \<noteq> None)
     | Err e \<Rightarrow> True))"
  by (auto simp: fs_try_exists_def with_fault_def post_def split: list.splits option.splits)

lemma fs_create_dir_all_post: "post (fs_create_dir_all p) fs (\<lambda>fs' r. seen fs' = seen fs)"
  by (auto simp: fs_create_dir_all_def with_fault_def post_def split: list.splits option.splits)

lemma fs_sync_all_post:
  "post (fs_sync_all p) fs (\<lambda>fs' r. seen fs' = seen fs \<and> fs_get fs' = fs_get fs)"
  by (auto simp: fs_sync_all_def with_fault_def post_def split: list.splits option.splits)

lemma fs_open_create_new_post:
  assumes "fs_wf fs" and "hidden t"
  shows "post (fs_open_create_new t) fs (\<lambda>fs' r. seen fs' = seen fs)"
  using assms by (auto simp: fs_open_create_new_def with_fault_def post_def split: list.splits option.splits)

lemma fs_write_all_post:
  assumes "fs_wf fs" and "hidden t"
  shows "post (fs_write_all t b) fs (\<lambda>fs' r. seen fs' = seen fs \<and> (is_ok r \<longrightarrow> fs_get fs' t = Some b))"
  using assms by (auto simp: fs_write_all_def with_fault_def post_def split: list.splits option.splits)

lemma fs_read_dir_post:
  "post (fs_read_dir d) fs (\<lambda>fs' r. seen fs' = seen fs \<and> (case r of
      Ok ps \<Rightarrow> ps = filter (\<lambda>p. p \<noteq> [] \<and> butlast p = d) (map fst (fs_files fs))
    | Err e \<Rightarrow> io_kind e = NotFound \<longrightarrow> filter (\<lambda>p. p \<noteq> [] \<and> butlast p = d) (map fst (fs_files fs)) = []))"
  by (auto simp: fs_read_dir_def with_fault_def post_def Let_def split: list.splits option.splits)

lemma fs_remove_post:
  "fs_wf fs \<Longrightarrow> post (fs_remove_file p) fs (\<lambda>fs' r. (case r of
      Ok _ \<Rightarrow> fs_get fs p \<noteq> None \<and> seen fs' = seen (fs_delete p fs)
    | Err e \<Rightarrow> seen fs' = seen fs \<and> (io_kind e = NotFound \<longrightarrow> fs_get fs p = None)))"
  by (auto simp: fs_remove_file_def with_fault_def post_def seen_def visible_def fun_eq_iff
      split: list.splits option.splits)

lemma fs_hard_link_post:
  assumes "fs_wf fs" and "\<not> hidden p"
  shows "post (fs_hard_link t p) fs (\<lambda>fs' r. case r of
      Ok _ \<Rightarrow> (\<exists>b. fs_get fs t = Some b \<and> visible fs p = None \<and> seen fs' = (True, (visible fs)(p \<mapsto> b)))
    | Err e \<Rightarrow> seen fs' = seen fs \<and> (io_kind e = AlreadyExists \<longrightarrow> visible fs p \<noteq> None))"
  using assms
  by (auto simp: fs_hard_link_def with_fault_def post_def seen_put visible_get io_error_def
      split: list.splits option.splits)

lemma fs_rename_post:
  assumes "fs_wf fs" and "\<not> hidden p" and "hidden t"
  shows "post (fs_rename t p) fs (\<lambda>fs' r. case r of
      Ok _ \<Rightarrow> (\<exists>b. fs_get fs t = Some b \<and> seen fs' = (True, (visible fs)(p \<mapsto> b)))
    | Err e \<Rightarrow> seen fs' = seen fs)"
  using assms
  by (auto simp: fs_rename_def with_fault_def post_def seen_put split: list.splits option.splits)

lemma remove_temp_file_post:
  assumes "fs_wf fs" and "hidden t"
  shows "post (remove_temp_file t) fs (\<lambda>fs' r. seen fs' = seen fs)"
  unfolding remove_temp_file_def post_simps
  by (rule post_mono[OF fs_remove_post[OF assms(1)]]) (auto simp: post_simps assms split: result.splits)

lemma write_temp_post:
  assumes "fs_wf fs" and "hidden t"
  shows "post (write_temp t b) fs (\<lambda>fs' r. seen fs' = seen fs \<and> (is_ok r \<longrightarrow> fs_get fs' t = Some b))"
proof (rule postI)
  fix fs' and r :: "(unit, IoError) result"
  assume run: "write_temp t b fs = (fs', r)"
  obtain fs1 r1 where 1: "fs_open_create_new t fs = (fs1, r1)" by (cases "fs_open_create_new t fs")
  have s1: "seen fs1 = seen fs" using postD[OF fs_open_create_new_post[OF assms], OF 1] .
  then have wf1: "fs_wf fs1" using assms(1) by (simp add: seen_def)
  obtain fs2 r2 where 2: "fs_write_all t b fs1 = (fs2, r2)" by (cases "fs_write_all t b fs1")
  note s2 = postD[OF fs_write_all_post[OF wf1 assms(2)], OF 2]
  obtain fs3 r3 where 3: "fs_sync_all t fs2 = (fs3, r3)" by (cases "fs_sync_all t fs2")
  note s3 = postD[OF fs_sync_all_post, OF 3]
  have "(fs', r) = (case r1 of Err e \<Rightarrow> (fs1, Err e) | Ok _ \<Rightarrow>
      (case r2 of Err e \<Rightarrow> (fs2, Err e) | Ok _ \<Rightarrow> (fs3, r3)))"
    unfolding run[symmetric] by (simp add: write_temp_def then_do_def 1 2 3)
  then show "seen fs' = seen fs \<and> (is_ok r \<longrightarrow> fs_get fs' t = Some b)"
    using s1 s2 s3 by (cases r1; cases r2; simp)
qed

text \<open>Both writes are atomic: whatever fails and wherever, the visible files are either as they were
  or as they were with the whole new content at the target.\<close>

lemma write_new_post:
  assumes "fs_wf fs" and p: "\<not> hidden p"
  shows "post (write_new pid p b) fs (\<lambda>fs' r. case r of
      Ok created \<Rightarrow> (if created then visible fs p = None \<and> seen fs' = (True, (visible fs)(p \<mapsto> b))
                     else visible fs p \<noteq> None \<and> seen fs' = seen fs)
    | Err _ \<Rightarrow> seen fs' = seen fs \<or> visible fs p = None \<and> seen fs' = (True, (visible fs)(p \<mapsto> b)))"
proof (rule postI)
  fix fs' and r :: "(bool, IoError) result"
  assume run: "write_new pid p b fs = (fs', r)"
  obtain fs0 r0 where 0: "fs_create_dir_all (butlast p) fs = (fs0, r0)" by (cases "fs_create_dir_all (butlast p) fs")
  obtain fs1 n where 1: "fs_now_nanos fs0 = (fs1, n)" by (cases "fs_now_nanos fs0")
  define t where "t = temp_path_for pid n p"
  have t: "hidden t" by (simp add: t_def)
  have s0: "seen fs0 = seen fs" using postD[OF fs_create_dir_all_post, OF 0] .
  then have s1: "seen fs1 = seen fs"
    using 1 by (auto simp: fs_now_nanos_def split: list.splits)
  then have wf1: "fs_wf fs1" using assms(1) by (simp add: seen_def)
  obtain fs2 r2 where 2: "write_temp t b fs1 = (fs2, r2)" by (cases "write_temp t b fs1")
  note s2 = postD[OF write_temp_post[OF wf1 t], OF 2]
  have wf2: "fs_wf fs2" using s2 wf1 by (simp add: seen_def)
  obtain fs3 r3 where 3: "fs_hard_link t p fs2 = (fs3, r3)" by (cases "fs_hard_link t p fs2")
  note s3 = postD[OF fs_hard_link_post[OF wf2 p], OF 3]
  have v: "visible fs2 = visible fs" using s1 s2 by (simp add: seen_def)
  have wf3: "fs_wf fs3" using s3 wf2 by (auto simp: seen_def split: result.splits)
  obtain fs4 r4 where 4: "remove_temp_file t fs3 = (fs4, r4)" by (cases "remove_temp_file t fs3")
  note s4 = postD[OF remove_temp_file_post[OF wf3 t], OF 4]
  have "(fs', r) = (case r0 of Err e \<Rightarrow> (fs0, Err e) | Ok _ \<Rightarrow> (case r2 of Err e \<Rightarrow> (fs2, Err e)
    | Ok _ \<Rightarrow> (case r3 of Ok _ \<Rightarrow> (case r4 of Ok _ \<Rightarrow> (fs4, Ok True) | Err e \<Rightarrow> (fs4, Err e))
      | Err e \<Rightarrow> (if io_kind e = AlreadyExists
                 then (case r4 of Ok _ \<Rightarrow> (fs4, Ok False) | Err e \<Rightarrow> (fs4, Err e))
                 else (fs4, Err e)))))"
    unfolding run[symmetric]
    by (simp add: write_new_def then_do_def match_do_def done_with_def fail_with_def Let_def
        0 1 2 3 4 t_def[symmetric] split: result.split)
  moreover have "seen fs2 = seen fs" using s1 s2 by simp
  moreover have "seen fs3 = seen fs \<Longrightarrow> seen fs4 = seen fs" "seen fs4 = seen fs3" using s4 by simp_all
  ultimately show "case r of
      Ok created \<Rightarrow> (if created then visible fs p = None \<and> seen fs' = (True, (visible fs)(p \<mapsto> b))
                     else visible fs p \<noteq> None \<and> seen fs' = seen fs)
    | Err _ \<Rightarrow> seen fs' = seen fs \<or> visible fs p = None \<and> seen fs' = (True, (visible fs)(p \<mapsto> b))"
    using s0 conjunct2[OF s2] s3 v by (cases r0; cases r2; cases r3; cases r4; simp split: if_splits)
qed

lemma write_replace_post:
  assumes "fs_wf fs" and p: "\<not> hidden p"
  shows "post (write_replace pid p b) fs (\<lambda>fs' r. case r of
      Ok _ \<Rightarrow> seen fs' = (True, (visible fs)(p \<mapsto> b)) | Err _ \<Rightarrow> seen fs' = seen fs)"
proof (rule postI)
  fix fs' and r :: "(unit, IoError) result"
  assume run: "write_replace pid p b fs = (fs', r)"
  obtain fs0 r0 where 0: "fs_create_dir_all (butlast p) fs = (fs0, r0)" by (cases "fs_create_dir_all (butlast p) fs")
  obtain fs1 n where 1: "fs_now_nanos fs0 = (fs1, n)" by (cases "fs_now_nanos fs0")
  define t where "t = temp_path_for pid n p"
  have t: "hidden t" by (simp add: t_def)
  have s0: "seen fs0 = seen fs" using postD[OF fs_create_dir_all_post, OF 0] .
  then have s1: "seen fs1 = seen fs"
    using 1 by (auto simp: fs_now_nanos_def split: list.splits)
  then have wf1: "fs_wf fs1" using assms(1) by (simp add: seen_def)
  obtain fs2 r2 where 2: "write_temp t b fs1 = (fs2, r2)" by (cases "write_temp t b fs1")
  note s2 = postD[OF write_temp_post[OF wf1 t], OF 2]
  have wf2: "fs_wf fs2" using s2 wf1 by (simp add: seen_def)
  obtain fs3 r3 where 3: "fs_rename t p fs2 = (fs3, r3)" by (cases "fs_rename t p fs2")
  note s3 = postD[OF fs_rename_post[OF wf2 p t], OF 3]
  have v: "visible fs2 = visible fs" using s1 s2 by (simp add: seen_def)
  have wf3: "fs_wf fs3" using s3 wf2 by (auto simp: seen_def split: result.splits)
  obtain fs4 r4 where 4: "remove_temp_file t fs3 = (fs4, r4)" by (cases "remove_temp_file t fs3")
  note s4 = postD[OF remove_temp_file_post[OF wf3 t], OF 4]
  have "(fs', r) = (case r0 of Err e \<Rightarrow> (fs0, Err e) | Ok _ \<Rightarrow> (case r2 of Err e \<Rightarrow> (fs2, Err e)
    | Ok _ \<Rightarrow> (case r3 of Ok _ \<Rightarrow> (fs3, Ok ()) | Err e \<Rightarrow> (fs4, Err e))))"
    unfolding run[symmetric]
    by (simp add: write_replace_def then_do_def match_do_def done_with_def fail_with_def Let_def
        0 1 2 3 4 t_def[symmetric] split: result.split)
  moreover have "seen fs2 = seen fs" using s1 s2 by simp
  ultimately show "case r of Ok _ \<Rightarrow> seen fs' = (True, (visible fs)(p \<mapsto> b)) | Err _ \<Rightarrow> seen fs' = seen fs"
    using s0 conjunct2[OF s2] s3 s4 v by (cases r0; cases r2; cases r3; simp)
qed

end
