(* ===== verification/Server_Error.thy ===== *)
theory Server_Error
  imports Core_Errors
begin

text \<open>
  \<^verbatim>\<open>rustsync-server/src/error.rs\<close> with the wire codes of
  \<^verbatim>\<open>rustsync-protocol/src/api/mod.rs\<close>: the server's errors, the status and code each
  is answered with, and the rule that the text of an internal error is not sent.  Errors of SQLite and
  JSON are opaque texts, as is \<^verbatim>\<open>Display\<close> (a parameter of the response).
\<close>

datatype ApiErrorCode =
    ApiInvalidRequest | ApiInvalidWorkspaceId | ApiInvalidBlobId | ApiInvalidManifestId
  | ApiInvalidDeviceId | ApiManifestNotFound | ApiBlobNotFound | ApiKeyEnvelopeNotFound
  | ApiKeyEnvelopeConflict | ApiObjectHashMismatch | ApiHeadRevisionConflict | ApiHeadRevisionOverflow
  | ApiAuthenticationRequired | ApiInvalidAuthHeader | ApiInvalidAuthTimestamp
  | ApiAuthTimestampOutsideWindow | ApiInvalidSignature | ApiAuthenticationFailed
  | ApiPermissionDenied | ApiUnauthorizedDevice | ApiRevokedDevice | ApiReplayDetected
  | ApiRequestBodyTooLarge | ApiInvalidStoredHead | ApiInvalidStoredAccessStateJson
  | ApiInvalidAccessState | ApiAccessStateWorkspaceMismatch | ApiWorkspaceAlreadyExists
  | ApiStorageError | ApiUnsupportedProtocolVersion | ApiMissingRequiredFeature | ApiInternalError

datatype ServerError =
    SrvInvalidWorkspaceId
  | SrvInvalidBlobId
  | SrvInvalidManifestId
  | SrvInvalidDeviceId
  | SrvInvalidRequest string
  | ManifestNotFound
  | BlobNotFound
  | KeyEnvelopeNotFound
  | KeyEnvelopeConflict
  | KeyEnvelopeRecipientMismatch
  | WorkspaceAlreadyExists
  | HeadRevisionConflict
  | JoinRequestConflict
  | HeadRevisionOverflow
  | ObjectHashMismatch
  | ObjectMetadataMismatch
  | UnsupportedSchemaVersion int int
  | IntegerOutOfRange string
  | CorruptDatabase string
  | StorageCorruption string
  | StorageRootNotDirectory string
  | StorageRootAlreadyInUse string
  | WorkspaceDatabase WorkspaceId string string ServerError
  | StorageRoot string string IoError
  | Bind string IoError
  | Serve string IoError
  | InvalidStoredHead string
  | InvalidStoredAccessStateJson string
  | InvalidAccessState ProtocolError
  | AccessStateWorkspaceMismatch WorkspaceId WorkspaceId
  | AuthenticationRequired
  | SrvInvalidAuthHeader
  | SrvInvalidAuthTimestamp
  | AuthTimestampOutsideWindow
  | ReplayDetected
  | RequestBodyTooLarge
  | AuthProtocol ProtocolError
  | StorageIo IoError
  | Database string

type_synonym 'a server_result = "('a, ServerError) result"

datatype StatusCode =
    STATUS_OK | STATUS_CREATED | BAD_REQUEST | UNAUTHORIZED | FORBIDDEN | NOT_FOUND | CONFLICT
  | PAYLOAD_TOO_LARGE | INTERNAL_SERVER_ERROR

definition is_server_error :: "StatusCode \<Rightarrow> bool" where
  "is_server_error s \<longleftrightarrow> s = INTERNAL_SERVER_ERROR"

fun status_code :: "ServerError \<Rightarrow> StatusCode" where
  "status_code SrvInvalidWorkspaceId = BAD_REQUEST"
| "status_code SrvInvalidBlobId = BAD_REQUEST"
| "status_code SrvInvalidManifestId = BAD_REQUEST"
| "status_code SrvInvalidDeviceId = BAD_REQUEST"
| "status_code (SrvInvalidRequest _) = BAD_REQUEST"
| "status_code (InvalidAccessState _) = BAD_REQUEST"
| "status_code (AccessStateWorkspaceMismatch _ _) = BAD_REQUEST"
| "status_code ManifestNotFound = NOT_FOUND"
| "status_code BlobNotFound = NOT_FOUND"
| "status_code KeyEnvelopeNotFound = NOT_FOUND"
| "status_code WorkspaceAlreadyExists = CONFLICT"
| "status_code KeyEnvelopeConflict = CONFLICT"
| "status_code AuthenticationRequired = UNAUTHORIZED"
| "status_code SrvInvalidAuthHeader = UNAUTHORIZED"
| "status_code ReplayDetected = UNAUTHORIZED"
| "status_code SrvInvalidAuthTimestamp = UNAUTHORIZED"
| "status_code AuthTimestampOutsideWindow = UNAUTHORIZED"
| "status_code (AuthProtocol e) = (case e of PermissionDenied _ _ \<Rightarrow> FORBIDDEN | _ \<Rightarrow> UNAUTHORIZED)"
| "status_code KeyEnvelopeRecipientMismatch = FORBIDDEN"
| "status_code ObjectHashMismatch = CONFLICT"
| "status_code ObjectMetadataMismatch = CONFLICT"
| "status_code HeadRevisionConflict = CONFLICT"
| "status_code JoinRequestConflict = CONFLICT"
| "status_code RequestBodyTooLarge = PAYLOAD_TOO_LARGE"
| "status_code _ = INTERNAL_SERVER_ERROR"

fun error_code :: "ServerError \<Rightarrow> ApiErrorCode" where
  "error_code SrvInvalidWorkspaceId = ApiInvalidWorkspaceId"
| "error_code SrvInvalidBlobId = ApiInvalidBlobId"
| "error_code SrvInvalidManifestId = ApiInvalidManifestId"
| "error_code SrvInvalidDeviceId = ApiInvalidDeviceId"
| "error_code (SrvInvalidRequest _) = ApiInvalidRequest"
| "error_code JoinRequestConflict = ApiInvalidRequest"
| "error_code ManifestNotFound = ApiManifestNotFound"
| "error_code BlobNotFound = ApiBlobNotFound"
| "error_code KeyEnvelopeNotFound = ApiKeyEnvelopeNotFound"
| "error_code KeyEnvelopeConflict = ApiKeyEnvelopeConflict"
| "error_code WorkspaceAlreadyExists = ApiWorkspaceAlreadyExists"
| "error_code HeadRevisionConflict = ApiHeadRevisionConflict"
| "error_code HeadRevisionOverflow = ApiHeadRevisionOverflow"
| "error_code (InvalidStoredAccessStateJson _) = ApiInvalidStoredAccessStateJson"
| "error_code (InvalidAccessState _) = ApiInvalidAccessState"
| "error_code (AccessStateWorkspaceMismatch _ _) = ApiAccessStateWorkspaceMismatch"
| "error_code ObjectHashMismatch = ApiObjectHashMismatch"
| "error_code ObjectMetadataMismatch = ApiObjectHashMismatch"
| "error_code (InvalidStoredHead _) = ApiInvalidStoredHead"
| "error_code AuthenticationRequired = ApiAuthenticationRequired"
| "error_code SrvInvalidAuthHeader = ApiInvalidAuthHeader"
| "error_code SrvInvalidAuthTimestamp = ApiInvalidAuthTimestamp"
| "error_code AuthTimestampOutsideWindow = ApiAuthTimestampOutsideWindow"
| "error_code RequestBodyTooLarge = ApiRequestBodyTooLarge"
| "error_code ReplayDetected = ApiReplayDetected"
| "error_code (AuthProtocol e) =
     (case e of PermissionDenied _ _ \<Rightarrow> ApiPermissionDenied | _ \<Rightarrow> ApiAuthenticationFailed)"
| "error_code KeyEnvelopeRecipientMismatch = ApiUnauthorizedDevice"
| "error_code _ = ApiStorageError"

record ApiErrorResponse =
  er_error :: ApiErrorCode
  er_message :: string

definition into_response :: "(ServerError \<Rightarrow> string) \<Rightarrow> ServerError \<Rightarrow> StatusCode \<times> ApiErrorResponse" where
  "into_response display e =
    (let status = status_code e;
         message = (if is_server_error status then ''internal server error'' else display e)
     in (status, \<lparr>er_error = error_code e, er_message = message\<rparr>))"

end
