(* ===== verification/Storage.thy ===== *)
theory Storage
  imports Stateful Server_Error Access_State Manifest
begin

text \<open>
  \<^verbatim>\<open>rustsync-server/src/storage/mod.rs\<close>: the interface every back end implements, as a
  record of operations on the back end's state (the \<^verbatim>\<open>dyn Storage\<close> the handlers hold), and its
  contract.  The contract speaks about a view of the state: per workspace, the objects by content hash,
  the head, the access state, the pending join requests and the key envelopes.  An operation that fails
  leaves the view as it was or has taken its whole effect; one that succeeds has taken it.
\<close>

section \<open>The interface\<close>

datatype PutResult = PutCreated | PutAlreadyExists | PutConflict

datatype HeadUpdateResult = HeadUpdated | HeadConflict

datatype JoinRequestPutResult = JoinSubmitted | JoinAlreadyPending | JoinConflict

type_synonym ('st, 'a) storage_action = "('st, 'a, ServerError) action"

record 'st Storage =
  so_put_blob :: "WorkspaceId \<Rightarrow> BlobId \<Rightarrow> bytes \<Rightarrow> ('st, PutResult) storage_action"
  so_get_blob :: "WorkspaceId \<Rightarrow> BlobId \<Rightarrow> ('st, bytes) storage_action"
  so_blob_exists :: "WorkspaceId \<Rightarrow> BlobId \<Rightarrow> ('st, bool) storage_action"
  so_put_manifest :: "WorkspaceId \<Rightarrow> ManifestId \<Rightarrow> bytes \<Rightarrow> ('st, PutResult) storage_action"
  so_get_manifest :: "WorkspaceId \<Rightarrow> ManifestId \<Rightarrow> ('st, bytes) storage_action"
  so_manifest_exists :: "WorkspaceId \<Rightarrow> ManifestId \<Rightarrow> ('st, bool) storage_action"
  so_put_key_envelope :: "WorkspaceId \<Rightarrow> KeyId \<Rightarrow> DeviceId \<Rightarrow> bytes \<Rightarrow> ('st, PutResult) storage_action"
  so_get_key_envelope :: "WorkspaceId \<Rightarrow> KeyId \<Rightarrow> DeviceId \<Rightarrow> ('st, bytes option) storage_action"
  so_get_head :: "WorkspaceId \<Rightarrow> ('st, WorkspaceHead) storage_action"
  so_update_head :: "u64 \<Rightarrow> WorkspaceId \<Rightarrow> u64 \<Rightarrow> ManifestId \<Rightarrow> DeviceId option \<Rightarrow>
    ('st, HeadUpdateResult \<times> WorkspaceHead) storage_action"
  so_get_access_state :: "WorkspaceId \<Rightarrow> ('st, AccessState) storage_action"
  so_create_access_state :: "WorkspaceId \<Rightarrow> AccessState \<Rightarrow> ('st, unit) storage_action"
  so_save_access_state :: "WorkspaceId \<Rightarrow> AccessState \<Rightarrow> ('st, unit) storage_action"
  so_submit_join_request :: "WorkspaceId \<Rightarrow> DeviceJoinRequest \<Rightarrow> ('st, JoinRequestPutResult) storage_action"
  so_list_join_requests :: "WorkspaceId \<Rightarrow> ('st, DeviceJoinRequest list) storage_action"
  so_get_join_request :: "WorkspaceId \<Rightarrow> JoinRequestId \<Rightarrow> ('st, DeviceJoinRequest option) storage_action"
  so_remove_join_request :: "WorkspaceId \<Rightarrow> JoinRequestId \<Rightarrow> ('st, unit) storage_action"

text \<open>The current time of \<^verbatim>\<open>update_head\<close> is its first argument.\<close>


section \<open>The view\<close>

record StoreView =
  vw_object :: "WorkspaceId \<Rightarrow> bytes \<Rightarrow> bytes option"
  vw_envelope :: "WorkspaceId \<Rightarrow> KeyId \<Rightarrow> DeviceId \<Rightarrow> bytes option"
  vw_head :: "WorkspaceId \<Rightarrow> WorkspaceHead option"
  vw_access :: "WorkspaceId \<Rightarrow> AccessState option"
  vw_join :: "WorkspaceId \<Rightarrow> JoinRequestId \<Rightarrow> DeviceJoinRequest option"

definition update2 :: "('a \<Rightarrow> 'b \<Rightarrow> 'c) \<Rightarrow> 'a \<Rightarrow> 'b \<Rightarrow> 'c \<Rightarrow> 'a \<Rightarrow> 'b \<Rightarrow> 'c" where
  "update2 f a b c = f(a := (f a)(b := c))"

lemma update2_apply [simp]: "update2 f a b c x y = (if x = a \<and> y = b then c else f x y)"
  by (simp add: update2_def)

definition set_object :: "WorkspaceId \<Rightarrow> bytes \<Rightarrow> bytes \<Rightarrow> StoreView \<Rightarrow> StoreView" where
  "set_object w h b v = v\<lparr>vw_object := update2 (vw_object v) w h (Some b)\<rparr>"
definition set_envelope :: "WorkspaceId \<Rightarrow> KeyId \<Rightarrow> DeviceId \<Rightarrow> bytes \<Rightarrow> StoreView \<Rightarrow> StoreView" where
  "set_envelope w k d b v = v\<lparr>vw_envelope := update2 (vw_envelope v) w k ((vw_envelope v w k)(d := Some b))\<rparr>"
definition set_head :: "WorkspaceId \<Rightarrow> WorkspaceHead \<Rightarrow> StoreView \<Rightarrow> StoreView" where
  "set_head w h v = v\<lparr>vw_head := (vw_head v)(w := Some h)\<rparr>"
definition set_access :: "WorkspaceId \<Rightarrow> AccessState \<Rightarrow> StoreView \<Rightarrow> StoreView" where
  "set_access w s v = v\<lparr>vw_access := (vw_access v)(w := Some s)\<rparr>"
definition set_join :: "WorkspaceId \<Rightarrow> JoinRequestId \<Rightarrow> DeviceJoinRequest option \<Rightarrow> StoreView \<Rightarrow> StoreView" where
  "set_join w j r v = v\<lparr>vw_join := update2 (vw_join v) w j r\<rparr>"

definition current_head :: "StoreView \<Rightarrow> WorkspaceId \<Rightarrow> WorkspaceHead" where
  "current_head v w = (case vw_head v w of None \<Rightarrow> head_empty w | Some h \<Rightarrow> h)"

definition current_access :: "StoreView \<Rightarrow> WorkspaceId \<Rightarrow> AccessState" where
  "current_access v w = (case vw_access v w of None \<Rightarrow> state_empty w | Some s \<Rightarrow> s)"

text \<open>Workspaces whose identifier names a directory of its own.\<close>

definition workspace_plain :: "WorkspaceId \<Rightarrow> bool" where
  "workspace_plain w \<longleftrightarrow> workspace_id_ok w \<and> workspace_id_str w \<noteq> ''.'' \<and> workspace_id_str w \<noteq> ''..''"

definition key_plain :: "KeyId \<Rightarrow> bool" where
  "key_plain k \<longleftrightarrow> key_id_ok k \<and> key_id_str k \<noteq> ''.'' \<and> key_id_str k \<noteq> ''..''"

text \<open>The content hash an object identifier carries.\<close>

definition blob_of_hash :: "bytes \<Rightarrow> BlobId" where
  "blob_of_hash h = BlobId (BLOB_ID_PREFIX @ hex_encode h)"
definition manifest_of_hash :: "bytes \<Rightarrow> ManifestId" where
  "manifest_of_hash h = ManifestId (MANIFEST_ID_PREFIX @ hex_encode h)"

lemma object_of_hash_content:
  "blob_id_from_content sha b = blob_of_hash (sha b)"
  "manifest_id_from_content sha b = manifest_of_hash (sha b)"
  by (simp_all add: blob_id_from_content_def manifest_id_from_content_def blob_of_hash_def
      manifest_of_hash_def)

lemma object_of_hash_inj [simp]:
  "blob_of_hash g = blob_of_hash h \<longleftrightarrow> g = h" "manifest_of_hash g = manifest_of_hash h \<longleftrightarrow> g = h"
  by (simp_all add: blob_of_hash_def manifest_of_hash_def hex_encode_inj)

lemma manifest_id_ok_hash:
  assumes "manifest_id_ok m"
  obtains h where "m = manifest_of_hash h" and "length h = 32"
proof -
  obtain x where x: "manifest_id_str m = MANIFEST_ID_PREFIX @ x" "length x = 2 * 32" "list_all is_lower_hex x"
    using assms by (auto simp: manifest_id_ok_def valid_object_id_def)
  obtain h where "hex_encode h = x" "length h = 32" using hex_encode_surj[OF x(3,2)] by blast
  then show thesis using that[of h] x(1) by (cases m) (simp add: manifest_of_hash_def)
qed

lemma blob_id_ok_hash:
  assumes "blob_id_ok m"
  obtains h where "m = blob_of_hash h" and "length h = 32"
proof -
  obtain x where x: "blob_id_str m = BLOB_ID_PREFIX @ x" "length x = 2 * 32" "list_all is_lower_hex x"
    using assms by (auto simp: blob_id_ok_def valid_object_id_def)
  obtain h where "hex_encode h = x" "length h = 32" using hex_encode_surj[OF x(3,2)] by blast
  then show thesis using that[of h] x(1) by (cases m) (simp add: blob_of_hash_def)
qed


section \<open>The contract\<close>

text \<open>What \<^verbatim>\<open>put\<close> of content does to the view: nothing, or the content appears under its hash.\<close>

definition object_stored :: "(bytes \<Rightarrow> bytes) \<Rightarrow> WorkspaceId \<Rightarrow> bytes \<Rightarrow> StoreView \<Rightarrow> StoreView \<Rightarrow> bool" where
  "object_stored sha w b v v' \<longleftrightarrow>
     v' = v \<or> vw_object v w (sha b) = None \<and> v' = set_object w (sha b) b v"

definition valid_access :: "crypto \<Rightarrow> WorkspaceId \<Rightarrow> AccessState \<Rightarrow> bool" where
  "valid_access cx w s \<longleftrightarrow> as_workspace_id s = w \<and> validate_state cx s = Ok ()"

locale storage =
  fixes cx :: crypto and ops :: "'st Storage" and view :: "'st \<Rightarrow> StoreView" and inv :: "'st \<Rightarrow> bool"
  assumes objects_hashed: "inv st \<Longrightarrow> vw_object (view st) w h = Some b \<Longrightarrow> h = cr_sha256 cx b"
    and access_valid: "inv st \<Longrightarrow> vw_access (view st) w = Some s \<Longrightarrow> valid_access cx w s"
    and joins_addressed: "inv st \<Longrightarrow> workspace_plain w \<Longrightarrow> join_request_id_ok j \<Longrightarrow>
          vw_join (view st) w j = Some r \<Longrightarrow> jr_request_id r = j \<and> jr_workspace_id r = w"
    and put_blob: "inv st \<Longrightarrow> workspace_plain w \<Longrightarrow> post (so_put_blob ops w i b) st (\<lambda>st' r.
          inv st' \<and> (if i = blob_id_from_content (cr_sha256 cx) b
            then object_stored (cr_sha256 cx) w b (view st) (view st')
              \<and> (is_ok r \<longrightarrow> r \<noteq> Ok PutConflict \<and> vw_object (view st') w (cr_sha256 cx b) \<noteq> None)
            else view st' = view st \<and> r = Err ObjectHashMismatch))"
    and get_blob: "inv st \<Longrightarrow> workspace_plain w \<Longrightarrow> length h = 32 \<Longrightarrow> post (so_get_blob ops w (blob_of_hash h)) st (\<lambda>st' r.
          inv st' \<and> view st' = view st \<and> (\<forall>b. r = Ok b \<longrightarrow> vw_object (view st) w h = Some b)
          \<and> (r = Err BlobNotFound \<longrightarrow> vw_object (view st) w h = None))"
    and blob_exists: "inv st \<Longrightarrow> workspace_plain w \<Longrightarrow> length h = 32 \<Longrightarrow> post (so_blob_exists ops w (blob_of_hash h)) st (\<lambda>st' r.
          inv st' \<and> view st' = view st \<and> (\<forall>e. r = Ok e \<longrightarrow> e = (vw_object (view st) w h \<noteq> None)))"
    and put_manifest: "inv st \<Longrightarrow> workspace_plain w \<Longrightarrow> post (so_put_manifest ops w m b) st (\<lambda>st' r.
          inv st' \<and> (if m = manifest_id_from_content (cr_sha256 cx) b
            then object_stored (cr_sha256 cx) w b (view st) (view st')
              \<and> (is_ok r \<longrightarrow> r \<noteq> Ok PutConflict \<and> vw_object (view st') w (cr_sha256 cx b) \<noteq> None)
            else view st' = view st \<and> r = Err ObjectHashMismatch))"
    and get_manifest: "inv st \<Longrightarrow> workspace_plain w \<Longrightarrow> length h = 32 \<Longrightarrow> post (so_get_manifest ops w (manifest_of_hash h)) st (\<lambda>st' r.
          inv st' \<and> view st' = view st \<and> (\<forall>b. r = Ok b \<longrightarrow> vw_object (view st) w h = Some b)
          \<and> (r = Err ManifestNotFound \<longrightarrow> vw_object (view st) w h = None))"
    and manifest_exists: "inv st \<Longrightarrow> workspace_plain w \<Longrightarrow> length h = 32 \<Longrightarrow>
          post (so_manifest_exists ops w (manifest_of_hash h)) st (\<lambda>st' r.
          inv st' \<and> view st' = view st \<and> (\<forall>e. r = Ok e \<longrightarrow> e = (vw_object (view st) w h \<noteq> None)))"
    and put_key_envelope: "inv st \<Longrightarrow> workspace_plain w \<Longrightarrow> key_plain k \<Longrightarrow> device_id_ok d \<Longrightarrow>
          post (so_put_key_envelope ops w k d b) st (\<lambda>st' r. inv st' \<and> (let old = vw_envelope (view st) w k d;
            put = (old = None \<and> view st' = set_envelope w k d b (view st)) in case r of
              Ok PutCreated \<Rightarrow> put
            | Ok PutAlreadyExists \<Rightarrow> view st' = view st \<and> old = Some b
            | Ok PutConflict \<Rightarrow> view st' = view st \<and> old \<noteq> None \<and> old \<noteq> Some b
            | Err _ \<Rightarrow> view st' = view st \<or> put))"
    and get_key_envelope: "inv st \<Longrightarrow> workspace_plain w \<Longrightarrow> key_plain k \<Longrightarrow> device_id_ok d \<Longrightarrow>
          post (so_get_key_envelope ops w k d) st (\<lambda>st' r. inv st' \<and> view st' = view st
            \<and> (\<forall>e. r = Ok e \<longrightarrow> e = vw_envelope (view st) w k d))"
    and get_head: "inv st \<Longrightarrow> workspace_plain w \<Longrightarrow> post (so_get_head ops w) st (\<lambda>st' r.
          inv st' \<and> view st' = view st \<and> (\<forall>h. r = Ok h \<longrightarrow> h = current_head (view st) w))"
    and update_head: "inv st \<Longrightarrow> workspace_plain w \<Longrightarrow> length mh = 32 \<Longrightarrow>
          post (so_update_head ops t w e (manifest_of_hash mh) by) st (\<lambda>st' r. inv st' \<and> (case r of
              Ok (HeadUpdated, h) \<Rightarrow> wh_revision (current_head (view st) w) = e
                \<and> vw_object (view st) w mh \<noteq> None \<and> view st' = set_head w h (view st)
                \<and> wh_workspace_id h = w \<and> wh_manifest_id h = Some (manifest_of_hash mh)
                \<and> unat (wh_revision h) = unat e + 1 \<and> wh_updated_by h = by
            | Ok (HeadConflict, h) \<Rightarrow> view st' = view st \<and> h = current_head (view st) w \<and> wh_revision h \<noteq> e
            | Err _ \<Rightarrow> view st' = view st))"
    and get_access_state: "inv st \<Longrightarrow> workspace_plain w \<Longrightarrow> post (so_get_access_state ops w) st (\<lambda>st' r.
          inv st' \<and> view st' = view st \<and> (\<forall>s. r = Ok s \<longrightarrow> s = current_access (view st) w))"
    and create_access_state: "inv st \<Longrightarrow> workspace_plain w \<Longrightarrow> post (so_create_access_state ops w s) st (\<lambda>st' r.
          inv st' \<and> (let put = (vw_access (view st) w = None \<and> valid_access cx w s
            \<and> view st' = set_access w s (view st)) in if is_ok r then put else view st' = view st \<or> put))"
    and save_access_state: "inv st \<Longrightarrow> workspace_plain w \<Longrightarrow> post (so_save_access_state ops w s) st (\<lambda>st' r.
          inv st' \<and> (if is_ok r then valid_access cx w s \<and> view st' = set_access w s (view st)
                    else view st' = view st))"
    and submit_join_request: "inv st \<Longrightarrow> workspace_plain w \<Longrightarrow> join_request_id_ok (jr_request_id q) \<Longrightarrow>
          post (so_submit_join_request ops w q) st (\<lambda>st' r. inv st' \<and> (let
            old = vw_join (view st) w (jr_request_id q);
            put = (old = None \<and> jr_workspace_id q = w
                   \<and> view st' = set_join w (jr_request_id q) (Some q) (view st)) in case r of
              Ok JoinSubmitted \<Rightarrow> put
            | Ok JoinAlreadyPending \<Rightarrow> view st' = view st \<and> old = Some q
            | Ok JoinConflict \<Rightarrow> view st' = view st \<and> old \<noteq> None \<and> old \<noteq> Some q
            | Err _ \<Rightarrow> view st' = view st \<or> put))"
    and list_join_requests: "inv st \<Longrightarrow> workspace_plain w \<Longrightarrow> post (so_list_join_requests ops w) st (\<lambda>st' r.
          inv st' \<and> view st' = view st \<and> (\<forall>qs. r = Ok qs \<longrightarrow> distinct qs
            \<and> set qs = {q. \<exists>j. join_request_id_ok j \<and> vw_join (view st) w j = Some q}))"
    and get_join_request: "inv st \<Longrightarrow> workspace_plain w \<Longrightarrow> join_request_id_ok j \<Longrightarrow>
          post (so_get_join_request ops w j) st (\<lambda>st' r. inv st' \<and> view st' = view st
            \<and> (\<forall>q. r = Ok q \<longrightarrow> q = vw_join (view st) w j))"
    and remove_join_request: "inv st \<Longrightarrow> workspace_plain w \<Longrightarrow> join_request_id_ok j \<Longrightarrow>
          post (so_remove_join_request ops w j) st (\<lambda>st' r. inv st'
            \<and> (if is_ok r then view st' = set_join w j None (view st) else view st' = view st))"

end
