(* ===== verification/Storage_Paths.thy ===== *)
theory Storage_Paths
  imports File_System Storage
begin

text \<open>
  \<^verbatim>\<open>rustsync-server/src/storage/paths.rs\<close>, relative to the storage root, and the third-party
  JSON codec of the stored records as a parameter.
\<close>

definition workspace_dir :: "string \<Rightarrow> path" where
  "workspace_dir w = [''workspaces'', w]"

definition workspace_state_path :: "string \<Rightarrow> path" where
  "workspace_state_path w = workspace_dir w @ [''state.sqlite3'']"

definition objects_dir :: "string \<Rightarrow> path" where
  "objects_dir w = workspace_dir w @ [''objects'']"

text \<open>\<^verbatim>\<open>str::get\<close> of a range: \<^verbatim>\<open>None\<close> beyond the end.\<close>

definition get_range :: "string \<Rightarrow> nat \<Rightarrow> nat \<Rightarrow> string option" where
  "get_range s a b = (if b \<le> length s then Some (take (b - a) (drop a s)) else None)"

definition object_path :: "path \<Rightarrow> string \<Rightarrow> path" where
  "object_path base_dir object_id =
    (let first = (case get_range object_id 0 2 of None \<Rightarrow> ''_'' | Some s \<Rightarrow> s);
         second = (case get_range object_id 2 4 of None \<Rightarrow> ''_'' | Some s \<Rightarrow> s)
     in base_dir @ [first, second, object_id @ ''.enc''])"

definition blob_path :: "string \<Rightarrow> string \<Rightarrow> path" where
  "blob_path w blob_id = object_path (objects_dir w)
     (case strip_prefix blob_id ''blob_'' of None \<Rightarrow> blob_id | Some h \<Rightarrow> h)"

definition manifest_path :: "string \<Rightarrow> string \<Rightarrow> path" where
  "manifest_path w manifest_id = object_path (objects_dir w)
     (case strip_prefix manifest_id ''manifest_'' of None \<Rightarrow> manifest_id | Some h \<Rightarrow> h)"

definition key_envelope_path :: "string \<Rightarrow> string \<Rightarrow> string \<Rightarrow> path" where
  "key_envelope_path w key_id recipient_device_id =
     workspace_dir w @ [''keys'', key_id, ''envelopes'', recipient_device_id @ ''.bin'']"

definition head_path :: "string \<Rightarrow> path" where
  "head_path w = workspace_dir w @ [''head.json'']"

definition access_state_path :: "string \<Rightarrow> path" where
  "access_state_path w = workspace_dir w @ [''access'', ''state.json'']"

definition join_requests_dir :: "string \<Rightarrow> path" where
  "join_requests_dir w = workspace_dir w @ [''devices'', ''join-requests'']"

definition join_request_path :: "string \<Rightarrow> string \<Rightarrow> path" where
  "join_request_path w join_request_id = join_requests_dir w @ [join_request_id @ ''.json'']"

text \<open>\<^verbatim>\<open>Path::extension\<close> is \<^verbatim>\<open>json\<close>: the name ends so and is more than that.\<close>

definition has_json_extension :: "path \<Rightarrow> bool" where
  "has_json_extension p \<longleftrightarrow> p \<noteq> [] \<and> length (last p) > 5
     \<and> drop (length (last p) - 5) (last p) = ''.json''"


section \<open>The JSON codec\<close>

text \<open>\<^verbatim>\<open>serde_json\<close>: serialisation may fail (a map whose keys are not strings, such as that of the
  key grants), and what was serialised is read back as it was.\<close>

record json_codec =
  js_head_to_vec :: "WorkspaceHead \<Rightarrow> (bytes, string) result"
  js_head_from_slice :: "bytes \<Rightarrow> (WorkspaceHead, string) result"
  js_access_to_vec :: "AccessState \<Rightarrow> (bytes, string) result"
  js_access_from_slice :: "bytes \<Rightarrow> (AccessState, string) result"
  js_join_to_vec :: "DeviceJoinRequest \<Rightarrow> (bytes, string) result"
  js_join_from_slice :: "bytes \<Rightarrow> (DeviceJoinRequest, string) result"

definition codec_ok :: "json_codec \<Rightarrow> bool" where
  "codec_ok js \<longleftrightarrow>
     (\<forall>h b. js_head_to_vec js h = Ok b \<longrightarrow> js_head_from_slice js b = Ok h)
   \<and> (\<forall>s b. js_access_to_vec js s = Ok b \<longrightarrow> js_access_from_slice js b = Ok s)
   \<and> (\<forall>q b. js_join_to_vec js q = Ok b \<longrightarrow> js_join_from_slice js b = Ok q)"


section \<open>Paths are distinct\<close>

definition hash_path :: "string \<Rightarrow> string \<Rightarrow> path" where
  "hash_path w hex = object_path (objects_dir w) hex"

lemmas path_defs = workspace_dir_def objects_dir_def object_path_def hash_path_def key_envelope_path_def
  head_path_def access_state_path_def join_requests_dir_def join_request_path_def workspace_state_path_def

lemma object_paths:
  "blob_path w (blob_id_str (blob_of_hash h)) = hash_path w (hex_encode h)"
  "manifest_path w (manifest_id_str (manifest_of_hash h)) = hash_path w (hex_encode h)"
  by (simp_all add: blob_path_def manifest_path_def blob_of_hash_def manifest_of_hash_def hash_path_def
      BLOB_ID_PREFIX_def MANIFEST_ID_PREFIX_def strip_prefix_def starts_with_def)

lemma path_inj [simp]:
  "hash_path w i = hash_path w' i' \<longleftrightarrow> w = w' \<and> i = i'"
  "key_envelope_path w k d = key_envelope_path w' k' d' \<longleftrightarrow> w = w' \<and> k = k' \<and> d = d'"
  "head_path w = head_path w' \<longleftrightarrow> w = w'"
  "access_state_path w = access_state_path w' \<longleftrightarrow> w = w'"
  "join_request_path w j = join_request_path w' j' \<longleftrightarrow> w = w' \<and> j = j'"
  by (auto simp: path_defs Let_def)

lemma path_differ [simp]:
  "hash_path w i \<noteq> key_envelope_path w' k' d'" "key_envelope_path w' k' d' \<noteq> hash_path w i"
  "hash_path w i \<noteq> head_path w'" "head_path w' \<noteq> hash_path w i"
  "hash_path w i \<noteq> access_state_path w'" "access_state_path w' \<noteq> hash_path w i"
  "hash_path w i \<noteq> join_request_path w' j" "join_request_path w' j \<noteq> hash_path w i"
  "key_envelope_path w k d \<noteq> head_path w'" "head_path w' \<noteq> key_envelope_path w k d"
  "key_envelope_path w k d \<noteq> access_state_path w'" "access_state_path w' \<noteq> key_envelope_path w k d"
  "key_envelope_path w k d \<noteq> join_request_path w' j" "join_request_path w' j \<noteq> key_envelope_path w k d"
  "head_path w \<noteq> access_state_path w'" "access_state_path w' \<noteq> head_path w"
  "head_path w \<noteq> join_request_path w' j" "join_request_path w' j \<noteq> head_path w"
  "access_state_path w \<noteq> join_request_path w' j" "join_request_path w' j \<noteq> access_state_path w"
  by (auto simp: path_defs Let_def)

lemma butlast_join_path [simp]: "butlast (join_request_path w j) = join_requests_dir w"
  by (simp add: join_request_path_def)

lemma join_dir_inj [simp]: "join_requests_dir w = join_requests_dir w' \<longleftrightarrow> w = w'"
  by (simp add: path_defs)

lemma join_dir_only [simp]:
  "butlast (hash_path w i) \<noteq> join_requests_dir w'"
  "butlast (key_envelope_path w k d) \<noteq> join_requests_dir w'"
  "butlast (head_path w) \<noteq> join_requests_dir w'" "butlast (access_state_path w) \<noteq> join_requests_dir w'"
  by (auto simp: path_defs Let_def)

lemma has_json_join: "has_json_extension (join_request_path w j) \<longleftrightarrow> j \<noteq> []"
  by (auto simp: has_json_extension_def join_request_path_def)

lemma hidden_not_json: "hidden p \<Longrightarrow> \<not> has_json_extension p"
proof
  assume h: "hidden p" and j: "has_json_extension p"
  obtain s c where s: "last p = s @ [c]" using h by (cases "last p" rule: rev_cases) (auto simp: hidden_def)
  have "c = last (drop (length (last p) - 4) (last p))" "c = last (drop (length (last p) - 5) (last p))"
    using j by (simp_all add: s has_json_extension_def)
  then have "c = CHR ''p''" "c = CHR ''n''" using h j by (simp_all add: hidden_def has_json_extension_def)
  then show False by simp
qed

lemma id_not_dot: "valid_text_id (Some (c # p)) n s \<Longrightarrow> c \<noteq> CHR ''.'' \<Longrightarrow> s \<noteq> [] \<and> hd s \<noteq> CHR ''.''"
  by (auto simp: valid_text_id_def starts_with_iff)

lemma visible_paths:
  "\<not> hidden (head_path w)" "\<not> hidden (access_state_path w)"
  "h \<noteq> [] \<Longrightarrow> \<not> hidden (hash_path w (hex_encode h))"
  "device_id_ok d \<Longrightarrow> \<not> hidden (key_envelope_path w k (device_id_str d))"
  "join_request_id_ok j \<Longrightarrow> \<not> hidden (join_request_path w (join_request_id_str j))"
proof -
  show "\<not> hidden (head_path w)" "\<not> hidden (access_state_path w)" by (simp_all add: hidden_def path_defs)
  show "\<not> hidden (hash_path w (hex_encode h))" if "h \<noteq> []"
  proof -
    have "\<not> is_lower_hex CHR ''.''" by (simp add: is_lower_hex_def less_eq_char_def)
    moreover have "hex_encode h \<noteq> []" using that by (metis length_hex_encode length_0_conv mult_eq_0_iff
          zero_neq_numeral)
    ultimately have "hd (hex_encode h) \<noteq> CHR ''.''"
      using hex_encode_lower[of h] by (cases "hex_encode h") auto
    then show ?thesis using \<open>hex_encode h \<noteq> []\<close> by (simp add: hidden_def path_defs Let_def)
  qed
  show "\<not> hidden (key_envelope_path w k (device_id_str d))" if "device_id_ok d"
    using id_not_dot[of "CHR ''d''" "''evice_''" 96 "device_id_str d"] that
    by (auto simp: hidden_def path_defs device_id_ok_def DEVICE_ID_PREFIX_def)
  show "\<not> hidden (join_request_path w (join_request_id_str j))" if "join_request_id_ok j"
    using id_not_dot[of "CHR ''j''" "''oin_''" 96 "join_request_id_str j"] that
    by (auto simp: hidden_def path_defs join_request_id_ok_def JOIN_REQUEST_ID_PREFIX_def)
qed

end
