(* ===== verification/Fs_Storage.thy ===== *)
theory Fs_Storage
  imports Storage_Paths
begin

text \<open>
  \<^verbatim>\<open>rustsync-server/src/storage/fs.rs\<close>: the file back end, method by method, and the proof
  that it meets the storage contract under any faults of the file system.  The mutexes
  \<^verbatim>\<open>head_lock\<close> and \<^verbatim>\<open>access_state_lock\<close> are the atomicity of the methods that
  hold them.
\<close>

section \<open>Operations\<close>

definition st_io :: "'a io \<Rightarrow> (FileSys, 'a) storage_action" where
  "st_io m = map_error m StorageIo"

definition object_exists :: "path \<Rightarrow> (FileSys, bool) storage_action" where
  "object_exists p = st_io (fs_try_exists p)"

definition read_object :: "path \<Rightarrow> ServerError \<Rightarrow> (FileSys, bytes) storage_action" where
  "read_object p missing_error = match_do (fs_read p) (\<lambda>r. case r of
     Ok b \<Rightarrow> done_with b
   | Err e \<Rightarrow> fail_with (if io_kind e = NotFound then missing_error else StorageIo e))"

definition put_immutable_object :: "nat \<Rightarrow> path \<Rightarrow> bytes \<Rightarrow> (FileSys, PutResult) storage_action" where
  "put_immutable_object pid p b = then_do (object_exists p) (\<lambda>present.
     if present then done_with PutAlreadyExists
     else then_do (st_io (write_new pid p b)) (\<lambda>created.
       done_with (if created then PutCreated else PutAlreadyExists)))"

definition put_key_envelope_bytes :: "nat \<Rightarrow> path \<Rightarrow> bytes \<Rightarrow> (FileSys, PutResult) storage_action" where
  "put_key_envelope_bytes pid p b = then_do (st_io (write_new pid p b)) (\<lambda>created.
     if created then done_with PutCreated
     else then_do (st_io (fs_read p)) (\<lambda>existing.
       done_with (if existing = b then PutAlreadyExists else PutConflict)))"

definition validate_access_state :: "crypto \<Rightarrow> WorkspaceId \<Rightarrow> AccessState \<Rightarrow> unit server_result" where
  "validate_access_state cx w s =
    (if as_workspace_id s \<noteq> w then Err (AccessStateWorkspaceMismatch w (as_workspace_id s))
     else map_err (validate_state cx s) InvalidAccessState)"

definition validate_join_request_workspace :: "WorkspaceId \<Rightarrow> DeviceJoinRequest \<Rightarrow> unit server_result" where
  "validate_join_request_workspace w q =
    (if jr_workspace_id q \<noteq> w then Err (AccessStateWorkspaceMismatch w (jr_workspace_id q)) else Ok ())"

definition fs_put_blob :: "crypto \<Rightarrow> nat \<Rightarrow> WorkspaceId \<Rightarrow> BlobId \<Rightarrow> bytes \<Rightarrow> (FileSys, PutResult) storage_action" where
  "fs_put_blob cx pid w i b =
    (if blob_id_from_content (cr_sha256 cx) b \<noteq> i then fail_with ObjectHashMismatch
     else put_immutable_object pid (blob_path (workspace_id_str w) (blob_id_str i)) b)"

definition fs_get_blob :: "WorkspaceId \<Rightarrow> BlobId \<Rightarrow> (FileSys, bytes) storage_action" where
  "fs_get_blob w i = read_object (blob_path (workspace_id_str w) (blob_id_str i)) BlobNotFound"

definition fs_blob_exists :: "WorkspaceId \<Rightarrow> BlobId \<Rightarrow> (FileSys, bool) storage_action" where
  "fs_blob_exists w i = object_exists (blob_path (workspace_id_str w) (blob_id_str i))"

definition fs_put_manifest ::
  "crypto \<Rightarrow> nat \<Rightarrow> WorkspaceId \<Rightarrow> ManifestId \<Rightarrow> bytes \<Rightarrow> (FileSys, PutResult) storage_action" where
  "fs_put_manifest cx pid w m b =
    (if manifest_id_from_content (cr_sha256 cx) b \<noteq> m then fail_with ObjectHashMismatch
     else put_immutable_object pid (manifest_path (workspace_id_str w) (manifest_id_str m)) b)"

definition fs_get_manifest :: "WorkspaceId \<Rightarrow> ManifestId \<Rightarrow> (FileSys, bytes) storage_action" where
  "fs_get_manifest w m = read_object (manifest_path (workspace_id_str w) (manifest_id_str m)) ManifestNotFound"

definition fs_manifest_exists :: "WorkspaceId \<Rightarrow> ManifestId \<Rightarrow> (FileSys, bool) storage_action" where
  "fs_manifest_exists w m = object_exists (manifest_path (workspace_id_str w) (manifest_id_str m))"

definition fs_put_key_envelope ::
  "nat \<Rightarrow> WorkspaceId \<Rightarrow> KeyId \<Rightarrow> DeviceId \<Rightarrow> bytes \<Rightarrow> (FileSys, PutResult) storage_action" where
  "fs_put_key_envelope pid w k d b =
     put_key_envelope_bytes pid (key_envelope_path (workspace_id_str w) (key_id_str k) (device_id_str d)) b"

definition fs_get_key_envelope :: "WorkspaceId \<Rightarrow> KeyId \<Rightarrow> DeviceId \<Rightarrow> (FileSys, bytes option) storage_action" where
  "fs_get_key_envelope w k d = match_do
     (fs_read (key_envelope_path (workspace_id_str w) (key_id_str k) (device_id_str d))) (\<lambda>r. case r of
       Ok b \<Rightarrow> done_with (Some b)
     | Err e \<Rightarrow> (if io_kind e = NotFound then done_with None else fail_with (StorageIo e)))"

definition fs_get_head :: "json_codec \<Rightarrow> WorkspaceId \<Rightarrow> (FileSys, WorkspaceHead) storage_action" where
  "fs_get_head js w = match_do (fs_read (head_path (workspace_id_str w))) (\<lambda>r. case r of
     Ok b \<Rightarrow> lift_result (map_err (js_head_from_slice js b) InvalidStoredHead)
   | Err e \<Rightarrow> (if io_kind e = NotFound then done_with (head_empty w) else fail_with (StorageIo e)))"

definition fs_update_head :: "json_codec \<Rightarrow> nat \<Rightarrow> u64 \<Rightarrow> WorkspaceId \<Rightarrow> u64 \<Rightarrow> ManifestId \<Rightarrow> DeviceId option \<Rightarrow>
    (FileSys, HeadUpdateResult \<times> WorkspaceHead) storage_action" where
  "fs_update_head js pid now w expected_revision manifest_id updated_by =
    then_do (fs_manifest_exists w manifest_id) (\<lambda>present.
      if \<not> present then fail_with ManifestNotFound
      else then_do (fs_get_head js w) (\<lambda>current.
        if wh_revision current \<noteq> expected_revision then done_with (HeadConflict, current)
        else then_do (lift_result (ok_or (checked_add64 (wh_revision current) 1) HeadRevisionOverflow))
          (\<lambda>next_revision.
            let next_head = \<lparr>wh_workspace_id = w, wh_manifest_id = Some manifest_id,
                  wh_revision = next_revision, wh_updated_by = updated_by, wh_updated_at = Some now\<rparr>
            in then_do (lift_result (map_err (js_head_to_vec js next_head) InvalidStoredHead)) (\<lambda>b.
               then_do (st_io (write_replace pid (head_path (workspace_id_str w)) b)) (\<lambda>_.
                 done_with (HeadUpdated, next_head))))))"

definition fs_get_access_state :: "json_codec \<Rightarrow> WorkspaceId \<Rightarrow> (FileSys, AccessState) storage_action" where
  "fs_get_access_state js w = match_do (fs_read (access_state_path (workspace_id_str w))) (\<lambda>r. case r of
     Ok b \<Rightarrow> lift_result (map_err (js_access_from_slice js b) InvalidStoredAccessStateJson)
   | Err e \<Rightarrow> (if io_kind e = NotFound then done_with (state_empty w) else fail_with (StorageIo e)))"

definition fs_create_access_state ::
  "crypto \<Rightarrow> json_codec \<Rightarrow> nat \<Rightarrow> WorkspaceId \<Rightarrow> AccessState \<Rightarrow> (FileSys, unit) storage_action" where
  "fs_create_access_state cx js pid w s =
    then_do (lift_result (validate_access_state cx w s)) (\<lambda>_.
    then_do (object_exists (access_state_path (workspace_id_str w))) (\<lambda>present.
      if present then fail_with WorkspaceAlreadyExists
      else then_do (lift_result (map_err (js_access_to_vec js s) InvalidStoredAccessStateJson)) (\<lambda>b.
        then_do (st_io (write_new pid (access_state_path (workspace_id_str w)) b)) (\<lambda>created.
          if created then done_with () else fail_with WorkspaceAlreadyExists))))"

definition fs_save_access_state ::
  "crypto \<Rightarrow> json_codec \<Rightarrow> nat \<Rightarrow> WorkspaceId \<Rightarrow> AccessState \<Rightarrow> (FileSys, unit) storage_action" where
  "fs_save_access_state cx js pid w s =
    then_do (lift_result (validate_access_state cx w s)) (\<lambda>_.
    then_do (lift_result (map_err (js_access_to_vec js s) InvalidStoredAccessStateJson)) (\<lambda>b.
      st_io (write_replace pid (access_state_path (workspace_id_str w)) b)))"

definition fs_submit_join_request ::
  "json_codec \<Rightarrow> nat \<Rightarrow> WorkspaceId \<Rightarrow> DeviceJoinRequest \<Rightarrow> (FileSys, JoinRequestPutResult) storage_action" where
  "fs_submit_join_request js pid w q =
    (let p = join_request_path (workspace_id_str w) (join_request_id_str (jr_request_id q)) in
     then_do (lift_result (validate_join_request_workspace w q)) (\<lambda>_.
     then_do (lift_result (map_err (js_join_to_vec js q)
        (\<lambda>error. SrvInvalidRequest (''invalid join request: '' @ error)))) (\<lambda>b.
     then_do (st_io (write_new pid p b)) (\<lambda>created.
       if created then done_with JoinSubmitted
       else then_do (st_io (fs_read p)) (\<lambda>existing_bytes.
         then_do (lift_result (map_err (js_join_from_slice js existing_bytes)
            (\<lambda>error. StorageCorruption (''stored join request is invalid JSON: '' @ error)))) (\<lambda>existing.
         then_do (lift_result (validate_join_request_workspace w existing)) (\<lambda>_.
           done_with (if existing = q then JoinAlreadyPending else JoinConflict))))))))"

definition read_join_request :: "json_codec \<Rightarrow> WorkspaceId \<Rightarrow> bytes \<Rightarrow> DeviceJoinRequest server_result" where
  "read_join_request js w b =
    and_then (map_err (js_join_from_slice js b)
       (\<lambda>error. SrvInvalidRequest (''invalid stored join request: '' @ error))) (\<lambda>q.
    and_then (validate_join_request_workspace w q) (\<lambda>_. Ok q))"

definition fs_list_join_requests :: "json_codec \<Rightarrow> WorkspaceId \<Rightarrow> (FileSys, DeviceJoinRequest list) storage_action" where
  "fs_list_join_requests js w = match_do (fs_read_dir (join_requests_dir (workspace_id_str w))) (\<lambda>r. case r of
     Err e \<Rightarrow> (if io_kind e = NotFound then done_with [] else fail_with (StorageIo e))
   | Ok entries \<Rightarrow> collect_do (\<lambda>p. then_do (st_io (fs_read p)) (\<lambda>b. lift_result (read_join_request js w b)))
                     (sort (filter has_json_extension entries)))"

definition fs_get_join_request ::
  "json_codec \<Rightarrow> WorkspaceId \<Rightarrow> JoinRequestId \<Rightarrow> (FileSys, DeviceJoinRequest option) storage_action" where
  "fs_get_join_request js w j =
    match_do (fs_read (join_request_path (workspace_id_str w) (join_request_id_str j))) (\<lambda>r. case r of
      Ok b \<Rightarrow> then_do (lift_result (read_join_request js w b)) (\<lambda>q. done_with (Some q))
    | Err e \<Rightarrow> (if io_kind e = NotFound then done_with None else fail_with (StorageIo e)))"

definition fs_remove_join_request :: "WorkspaceId \<Rightarrow> JoinRequestId \<Rightarrow> (FileSys, unit) storage_action" where
  "fs_remove_join_request w j =
    match_do (fs_remove_file (join_request_path (workspace_id_str w) (join_request_id_str j))) (\<lambda>r. case r of
      Ok _ \<Rightarrow> done_with ()
    | Err e \<Rightarrow> (if io_kind e = NotFound then done_with () else fail_with (StorageIo e)))"

definition fs_storage :: "crypto \<Rightarrow> json_codec \<Rightarrow> nat \<Rightarrow> FileSys Storage" where
  "fs_storage cx js pid = \<lparr>so_put_blob = fs_put_blob cx pid, so_get_blob = fs_get_blob,
     so_blob_exists = fs_blob_exists, so_put_manifest = fs_put_manifest cx pid,
     so_get_manifest = fs_get_manifest, so_manifest_exists = fs_manifest_exists,
     so_put_key_envelope = fs_put_key_envelope pid, so_get_key_envelope = fs_get_key_envelope,
     so_get_head = fs_get_head js, so_update_head = fs_update_head js pid,
     so_get_access_state = fs_get_access_state js, so_create_access_state = fs_create_access_state cx js pid,
     so_save_access_state = fs_save_access_state cx js pid,
     so_submit_join_request = fs_submit_join_request js pid,
     so_list_join_requests = fs_list_join_requests js, so_get_join_request = fs_get_join_request js,
     so_remove_join_request = fs_remove_join_request\<rparr>"


section \<open>View and invariant\<close>

definition decoded :: "('a, 'e) result \<Rightarrow> 'a option" where
  "decoded r = (case r of Ok x \<Rightarrow> Some x | Err _ \<Rightarrow> None)"

lemma decoded_Ok [simp]: "decoded (Ok x) = Some x"
  by (simp add: decoded_def)

definition view_of :: "json_codec \<Rightarrow> (path \<Rightarrow> bytes option) \<Rightarrow> StoreView" where
  "view_of js files = \<lparr>
     vw_object = (\<lambda>w h. files (hash_path (workspace_id_str w) (hex_encode h))),
     vw_envelope = (\<lambda>w k d. files (key_envelope_path (workspace_id_str w) (key_id_str k) (device_id_str d))),
     vw_head = (\<lambda>w. Option.bind (files (head_path (workspace_id_str w))) (\<lambda>b. decoded (js_head_from_slice js b))),
     vw_access = (\<lambda>w. Option.bind (files (access_state_path (workspace_id_str w)))
                     (\<lambda>b. decoded (js_access_from_slice js b))),
     vw_join = (\<lambda>w j. Option.bind (files (join_request_path (workspace_id_str w) (join_request_id_str j)))
                     (\<lambda>b. decoded (js_join_from_slice js b)))\<rparr>"

definition join_file_ok :: "json_codec \<Rightarrow> WorkspaceId \<Rightarrow> path \<Rightarrow> bytes \<Rightarrow> bool" where
  "join_file_ok js w p b \<longleftrightarrow> (\<exists>q. js_join_from_slice js b = Ok q \<and> jr_workspace_id q = w
     \<and> join_request_id_ok (jr_request_id q)
     \<and> p = join_request_path (workspace_id_str w) (join_request_id_str (jr_request_id q)))"

definition files_ok :: "crypto \<Rightarrow> json_codec \<Rightarrow> (path \<Rightarrow> bytes option) \<Rightarrow> bool" where
  "files_ok cx js files \<longleftrightarrow>
     (\<forall>w h b. files (hash_path w (hex_encode h)) = Some b \<longrightarrow> cr_sha256 cx b = h)
   \<and> (\<forall>w b. files (head_path w) = Some b \<longrightarrow> (\<exists>h. js_head_from_slice js b = Ok h))
   \<and> (\<forall>w b. files (access_state_path (workspace_id_str w)) = Some b \<longrightarrow>
        (\<exists>s. js_access_from_slice js b = Ok s \<and> valid_access cx w s))
   \<and> (\<forall>w p b. files p = Some b \<longrightarrow> p \<noteq> [] \<and> butlast p = join_requests_dir (workspace_id_str w) \<longrightarrow>
        join_file_ok js w p b)"

definition fs_view :: "json_codec \<Rightarrow> FileSys \<Rightarrow> StoreView" where
  "fs_view js fs = view_of js (snd (seen fs))"

definition fs_inv :: "crypto \<Rightarrow> json_codec \<Rightarrow> FileSys \<Rightarrow> bool" where
  "fs_inv cx js fs \<longleftrightarrow> codec_ok js \<and> sha256_size (cr_sha256 cx) \<and> fst (seen fs) \<and> files_ok cx js (snd (seen fs))"

end
