(* ===== verification/Fs_Contract.thy ===== *)
theory Fs_Contract
  imports Fs_Storage
begin

text \<open>
  The file back end meets the storage contract: each method's effect on the view, under any faults of
  the file system, and the interpretation of the contract on the back end's operations.
\<close>

section \<open>The view of an updated file\<close>

lemma view_of_set_object:
  "view_of js (files(hash_path (workspace_id_str w) (hex_encode h) \<mapsto> b)) = set_object w h b (view_of js files)"
  by (auto simp: view_of_def set_object_def fun_eq_iff hex_encode_inj id_str_inj)

lemma view_of_set_envelope:
  "view_of js (files(key_envelope_path (workspace_id_str w) (key_id_str k) (device_id_str d) \<mapsto> b))
     = set_envelope w k d b (view_of js files)"
  by (auto simp: view_of_def set_envelope_def fun_eq_iff id_str_inj)

lemma view_of_set_head:
  "js_head_from_slice js b = Ok h \<Longrightarrow>
   view_of js (files(head_path (workspace_id_str w) \<mapsto> b)) = set_head w h (view_of js files)"
  by (auto simp: view_of_def set_head_def fun_eq_iff id_str_inj)

lemma view_of_set_access:
  "js_access_from_slice js b = Ok s \<Longrightarrow>
   view_of js (files(access_state_path (workspace_id_str w) \<mapsto> b)) = set_access w s (view_of js files)"
  by (auto simp: view_of_def set_access_def fun_eq_iff id_str_inj)

lemma view_of_set_join:
  "js_join_from_slice js b = Ok q \<Longrightarrow>
   view_of js (files(join_request_path (workspace_id_str w) (join_request_id_str j) \<mapsto> b))
     = set_join w j (Some q) (view_of js files)"
  "view_of js (files(join_request_path (workspace_id_str w) (join_request_id_str j) := None))
     = set_join w j None (view_of js files)"
  by (auto simp: view_of_def set_join_def fun_eq_iff id_str_inj)

lemma view_of_select:
  "vw_object (view_of js files) w h = files (hash_path (workspace_id_str w) (hex_encode h))"
  "vw_envelope (view_of js files) w k d
     = files (key_envelope_path (workspace_id_str w) (key_id_str k) (device_id_str d))"
  "vw_head (view_of js files) w
     = Option.bind (files (head_path (workspace_id_str w))) (\<lambda>b. decoded (js_head_from_slice js b))"
  "vw_access (view_of js files) w
     = Option.bind (files (access_state_path (workspace_id_str w))) (\<lambda>b. decoded (js_access_from_slice js b))"
  "vw_join (view_of js files) w j
     = Option.bind (files (join_request_path (workspace_id_str w) (join_request_id_str j)))
         (\<lambda>b. decoded (js_join_from_slice js b))"
  by (simp_all add: view_of_def)

lemma files_okD:
  assumes "files_ok cx js files"
  shows "files (hash_path u (hex_encode h)) = Some b \<Longrightarrow> cr_sha256 cx b = h"
    and "files (head_path u) = Some b \<Longrightarrow> \<exists>h. js_head_from_slice js b = Ok h"
    and "files (access_state_path (workspace_id_str w)) = Some b \<Longrightarrow>
           \<exists>s. js_access_from_slice js b = Ok s \<and> valid_access cx w s"
    and "files p = Some b \<Longrightarrow> p \<noteq> [] \<Longrightarrow> butlast p = join_requests_dir (workspace_id_str w) \<Longrightarrow>
           join_file_ok js w p b"
    and "files (join_request_path (workspace_id_str w) (join_request_id_str j)) = Some b \<Longrightarrow>
           \<exists>q. js_join_from_slice js b = Ok q \<and> jr_workspace_id q = w \<and> jr_request_id q = j"
proof -
  show join: "files p = Some b \<Longrightarrow> p \<noteq> [] \<Longrightarrow> butlast p = join_requests_dir (workspace_id_str w) \<Longrightarrow>
      join_file_ok js w p b" for p w b
    using assms unfolding files_ok_def by blast
  show "\<exists>q. js_join_from_slice js b = Ok q \<and> jr_workspace_id q = w \<and> jr_request_id q = j"
    if "files (join_request_path (workspace_id_str w) (join_request_id_str j)) = Some b"
  proof -
    have "join_request_path (workspace_id_str w) (join_request_id_str j) \<noteq> []"
      by (simp add: join_request_path_def)
    from join[OF that this butlast_join_path] show ?thesis
      by (fastforce simp: join_file_ok_def id_str_inj)
  qed
qed (use assms in \<open>auto simp: files_ok_def\<close>)

lemma files_ok_update:
  assumes "files_ok cx js files"
  shows "cr_sha256 cx b = h \<Longrightarrow> files_ok cx js (files(hash_path u (hex_encode h) \<mapsto> b))"
    and "files_ok cx js (files(key_envelope_path u k d \<mapsto> b))"
    and "js_head_from_slice js b = Ok hh \<Longrightarrow> files_ok cx js (files(head_path u \<mapsto> b))"
    and "js_access_from_slice js b = Ok s \<Longrightarrow> valid_access cx w s \<Longrightarrow>
           files_ok cx js (files(access_state_path (workspace_id_str w) \<mapsto> b))"
    and "js_join_from_slice js b = Ok q \<Longrightarrow> jr_workspace_id q = w \<Longrightarrow> join_request_id_ok (jr_request_id q) \<Longrightarrow>
           files_ok cx js (files(join_request_path (workspace_id_str w) (join_request_id_str (jr_request_id q)) \<mapsto> b))"
    and "files_ok cx js (files(join_request_path u j := None))"
  using assms unfolding files_ok_def
  by (auto simp: hex_encode_inj id_str_inj join_file_ok_def)

section \<open>State and view after a primitive\<close>

lemma fs_inv_iff:
  "fs_inv cx js fs \<longleftrightarrow> codec_ok js \<and> sha256_size (cr_sha256 cx) \<and> fs_wf fs \<and> files_ok cx js (visible fs)"
  by (simp add: fs_inv_def seen_def)

lemma fs_view_eq: "fs_view js fs = view_of js (visible fs)"
  by (simp add: fs_view_def seen_def)

lemma same_seen: "seen fs' = seen fs \<Longrightarrow> fs_inv cx js fs' = fs_inv cx js fs \<and> fs_view js fs' = fs_view js fs"
  by (simp add: fs_inv_def fs_view_def)

lemma changed_seen:
  "seen fs' = (True, files) \<Longrightarrow> fs_view js fs' = view_of js files
     \<and> (fs_inv cx js fs' \<longleftrightarrow> codec_ok js \<and> sha256_size (cr_sha256 cx) \<and> files_ok cx js files)"
  by (simp add: fs_inv_def fs_view_def)

lemma read_post:
  assumes "\<not> hidden p"
  shows "post (fs_read p) fs (\<lambda>fs' r. seen fs' = seen fs \<and> (case r of Ok b \<Rightarrow> visible fs p = Some b
     | Err e \<Rightarrow> io_kind e = NotFound \<longrightarrow> visible fs p = None))"
  using fs_read_post[of p fs] unfolding visible_get[OF assms] .

lemma object_exists_post:
  assumes "\<not> hidden p"
  shows "post (object_exists p) fs (\<lambda>fs' r. seen fs' = seen fs \<and> (\<forall>e. r = Ok e \<longrightarrow> e = (visible fs p \<noteq> None)))"
  unfolding object_exists_def st_io_def post_simps
  by (rule post_mono[OF fs_try_exists_post]) (auto simp: visible_get[OF assms] split: result.splits)

lemma read_object_post:
  assumes "\<not> hidden p" and "\<And>e. missing \<noteq> StorageIo e"
  shows "post (read_object p missing) fs (\<lambda>fs' r. seen fs' = seen fs \<and> (\<forall>b. r = Ok b \<longrightarrow> visible fs p = Some b)
     \<and> (r = Err missing \<longrightarrow> visible fs p = None))"
  unfolding read_object_def post_simps
  by (rule post_mono[OF read_post[OF assms(1)]]) (auto simp: post_simps assms(2)[symmetric] split: result.splits)

lemma put_immutable_object_post:
  assumes "fs_wf fs" and "\<not> hidden p"
  shows "post (put_immutable_object pid p b) fs (\<lambda>fs' r.
     (seen fs' = seen fs \<or> visible fs p = None \<and> seen fs' = (True, (visible fs)(p \<mapsto> b)))
     \<and> (is_ok r \<longrightarrow> r \<noteq> Ok PutConflict \<and> visible fs' p \<noteq> None))"
  unfolding put_immutable_object_def st_io_def post_simps
proof (rule post_mono[OF object_exists_post[OF assms(2)]], goal_cases)
  case (1 fs1 r)
  then have wf1: "fs_wf fs1" and v1: "visible fs1 = visible fs" using assms(1) by (simp_all add: seen_def)
  have w: "post (write_new pid p b) fs1 (\<lambda>s' r.
      (seen s' = seen fs \<or> visible fs p = None \<and> seen s' = (True, (visible fs)(p \<mapsto> b)))
      \<and> (is_ok r \<longrightarrow> visible s' p \<noteq> None))"
    by (rule post_mono[OF write_new_post[OF wf1 assms(2)]])
       (use 1 v1 in \<open>auto simp: seen_def split: result.splits if_splits\<close>)
  show ?case
  proof (cases r)
    case (Ok present)
    then show ?thesis using 1 v1
      by (cases present) (auto simp: post_simps intro!: post_mono[OF w] split: result.splits)
  qed (use 1 in simp)
qed

section \<open>Objects\<close>

lemma sha_hidden: "sha256_size sha \<Longrightarrow> \<not> hidden (hash_path u (hex_encode (sha b)))"
  by (rule visible_paths(3)) (auto simp: sha256_size_def dest: spec[of _ b])

lemma object_put:
  assumes inv: "fs_inv cx js fs"
  shows "post (put_immutable_object pid (hash_path (workspace_id_str w) (hex_encode (cr_sha256 cx b))) b) fs
    (\<lambda>fs' r. fs_inv cx js fs' \<and> object_stored (cr_sha256 cx) w b (fs_view js fs) (fs_view js fs')
       \<and> (is_ok r \<longrightarrow> r \<noteq> Ok PutConflict \<and> vw_object (fs_view js fs') w (cr_sha256 cx b) \<noteq> None))"
proof -
  let ?p = "hash_path (workspace_id_str w) (hex_encode (cr_sha256 cx b))"
  have sz: "sha256_size (cr_sha256 cx)" and wf: "fs_wf fs" using inv by (simp_all add: fs_inv_iff)
  show ?thesis
  proof (rule post_mono[OF put_immutable_object_post[OF wf sha_hidden[OF sz]]])
    fix fs' and r :: "PutResult server_result"
    assume "(seen fs' = seen fs \<or> visible fs ?p = None \<and> seen fs' = (True, (visible fs)(?p \<mapsto> b)))
      \<and> (is_ok r \<longrightarrow> r \<noteq> Ok PutConflict \<and> visible fs' ?p \<noteq> None)"
    then show "fs_inv cx js fs' \<and> object_stored (cr_sha256 cx) w b (fs_view js fs) (fs_view js fs')
       \<and> (is_ok r \<longrightarrow> r \<noteq> Ok PutConflict \<and> vw_object (fs_view js fs') w (cr_sha256 cx b) \<noteq> None)"
      using inv same_seen[of fs' fs cx js] changed_seen[of fs' "(visible fs)(?p \<mapsto> b)" js cx]
        files_ok_update(1)[of cx js "visible fs" b "cr_sha256 cx b" "workspace_id_str w"]
      by (auto simp: object_stored_def view_of_set_object fs_view_eq[of js fs] fs_view_eq[of js fs']
          view_of_select fs_inv_iff[of cx js fs] seen_def)
  qed
qed

lemma length_visible: "length h = 32 \<Longrightarrow> \<not> hidden (hash_path u (hex_encode h))"
  by (rule visible_paths(3)) auto

lemma object_get:
  assumes inv: "fs_inv cx js fs" and "length h = 32" and "\<And>e. missing \<noteq> StorageIo e"
  shows "post (read_object (hash_path (workspace_id_str w) (hex_encode h)) missing) fs
    (\<lambda>fs' r. fs_inv cx js fs' \<and> fs_view js fs' = fs_view js fs
       \<and> (\<forall>b. r = Ok b \<longrightarrow> vw_object (fs_view js fs) w h = Some b)
       \<and> (r = Err missing \<longrightarrow> vw_object (fs_view js fs) w h = None))"
  by (rule post_mono[OF read_object_post[OF length_visible[OF assms(2)] assms(3)]])
     (use inv in \<open>auto dest: same_seen[of _ fs cx js] simp: fs_view_eq[of js fs] view_of_select\<close>)

lemma object_present:
  assumes inv: "fs_inv cx js fs" and "length h = 32"
  shows "post (object_exists (hash_path (workspace_id_str w) (hex_encode h))) fs
    (\<lambda>fs' r. fs_inv cx js fs' \<and> fs_view js fs' = fs_view js fs
       \<and> (\<forall>e. r = Ok e \<longrightarrow> e = (vw_object (fs_view js fs) w h \<noteq> None)))"
  by (rule post_mono[OF object_exists_post[OF length_visible[OF assms(2)]]])
     (use inv in \<open>auto dest: same_seen[of _ fs cx js] simp: fs_view_eq[of js fs] view_of_select\<close>)

section \<open>Key envelopes\<close>

lemma put_key_envelope_law:
  assumes inv: "fs_inv cx js fs" and d: "device_id_ok d"
  shows "post (fs_put_key_envelope pid w k d b) fs (\<lambda>fs' r. fs_inv cx js fs' \<and> (let
      old = vw_envelope (fs_view js fs) w k d;
      put = (old = None \<and> fs_view js fs' = set_envelope w k d b (fs_view js fs)) in case r of
        Ok PutCreated \<Rightarrow> put
      | Ok PutAlreadyExists \<Rightarrow> fs_view js fs' = fs_view js fs \<and> old = Some b
      | Ok PutConflict \<Rightarrow> fs_view js fs' = fs_view js fs \<and> old \<noteq> None \<and> old \<noteq> Some b
      | Err _ \<Rightarrow> fs_view js fs' = fs_view js fs \<or> put))" (is "post _ _ ?Q")
proof -
  let ?p = "key_envelope_path (workspace_id_str w) (key_id_str k) (device_id_str d)"
  have p: "\<not> hidden ?p" by (rule visible_paths(4)[OF d])
  have wf: "fs_wf fs" using inv by (simp add: fs_inv_iff)
  have put: "fs_inv cx js s \<and> fs_view js s = set_envelope w k d b (fs_view js fs)"
    if "seen s = (True, (visible fs)(?p \<mapsto> b))" for s
    using changed_seen[OF that, of js cx] inv files_ok_update(2)[of cx js "visible fs"]
    by (simp add: view_of_set_envelope fs_view_eq[of js fs] fs_inv_iff[of cx js fs])
  have old: "vw_envelope (fs_view js fs) w k d = visible fs ?p"
    by (simp add: fs_view_eq view_of_select)
  show ?thesis
    unfolding fs_put_key_envelope_def put_key_envelope_bytes_def st_io_def post_simps
  proof (rule post_mono[OF write_new_post[OF wf p]], goal_cases)
    case (1 fs1 r)
    show ?case
    proof (cases r)
      case (Err e)
      then show ?thesis using 1 put[of fs1] same_seen[of fs1 fs cx js] inv old by (auto simp: Let_def)
    next
      case (Ok created)
      show ?thesis
      proof (cases created)
        case True
        then show ?thesis using 1 Ok put[of fs1] old by (simp add: post_simps Let_def)
      next
        case False
        then have s1: "seen fs1 = seen fs" and there: "visible fs ?p \<noteq> None" using 1 Ok by simp_all
        have "post (fs_read ?p) fs1 (\<lambda>s' r. seen s' = seen fs \<and> (\<forall>b. r = Ok b \<longrightarrow> visible fs ?p = Some b))"
          by (rule post_mono[OF read_post[OF p]]) (use s1 in \<open>auto simp: seen_def split: result.splits\<close>)
        then show ?thesis using False Ok
          by (auto simp: post_simps Let_def old there inv
              elim!: post_mono dest: same_seen[of _ fs cx js] split: result.splits)
      qed
    qed
  qed
qed

lemma get_key_envelope_law:
  assumes inv: "fs_inv cx js fs" and d: "device_id_ok d"
  shows "post (fs_get_key_envelope w k d) fs (\<lambda>fs' r. fs_inv cx js fs' \<and> fs_view js fs' = fs_view js fs
    \<and> (\<forall>e. r = Ok e \<longrightarrow> e = vw_envelope (fs_view js fs) w k d))"
  unfolding fs_get_key_envelope_def post_simps
  by (rule post_mono[OF read_post[OF visible_paths(4)[OF d]]])
     (use inv in \<open>auto simp: post_simps fs_view_eq[of js fs] view_of_select dest: same_seen[of _ fs cx js]
        split: result.splits\<close>)


section \<open>Heads\<close>

lemma get_head_law:
  assumes inv: "fs_inv cx js fs"
  shows "post (fs_get_head js w) fs (\<lambda>fs' r. seen fs' = seen fs
    \<and> (\<forall>h. r = Ok h \<longrightarrow> h = current_head (fs_view js fs) w))"
  unfolding fs_get_head_def post_simps
  by (rule post_mono[OF read_post[OF visible_paths(1)]])
     (use inv in \<open>auto simp: post_simps fs_view_eq[of js fs] view_of_select current_head_def split: result.splits\<close>)

lemma head_replace_post:
  assumes inv: "fs_inv cx js fs" and dec: "js_head_from_slice js b = Ok h"
  shows "post (st_io (write_replace pid (head_path (workspace_id_str w)) b)) fs (\<lambda>fs' r. fs_inv cx js fs'
    \<and> fs_view js fs' = (if is_ok r then set_head w h (fs_view js fs) else fs_view js fs))"
  unfolding st_io_def post_simps
proof (rule post_mono[OF write_replace_post[OF _ visible_paths(1)]], goal_cases)
  case 1
  show ?case using inv by (simp add: fs_inv_iff)
next
  case (2 fs' r)
  then show ?case
    using inv changed_seen[of fs' _ js cx] same_seen[of fs' fs cx js]
      files_ok_update(3)[of cx js "visible fs" b h "workspace_id_str w", OF _ dec]
    by (cases r) (auto simp: view_of_set_head[OF dec] fs_view_eq[of js fs] fs_inv_iff[of cx js fs])
qed

lemma update_head_law:
  assumes inv: "fs_inv cx js fs" and mh: "length mh = 32"
  shows "post (fs_update_head js pid t w e (manifest_of_hash mh) by_device) fs (\<lambda>fs' r. fs_inv cx js fs' \<and> (case r of
      Ok (HeadUpdated, h) \<Rightarrow> wh_revision (current_head (fs_view js fs) w) = e
        \<and> vw_object (fs_view js fs) w mh \<noteq> None \<and> fs_view js fs' = set_head w h (fs_view js fs)
        \<and> wh_workspace_id h = w \<and> wh_manifest_id h = Some (manifest_of_hash mh)
        \<and> unat (wh_revision h) = unat e + 1 \<and> wh_updated_by h = by_device
    | Ok (HeadConflict, h) \<Rightarrow> fs_view js fs' = fs_view js fs \<and> h = current_head (fs_view js fs) w \<and> wh_revision h \<noteq> e
    | Err _ \<Rightarrow> fs_view js fs' = fs_view js fs))"
  unfolding fs_update_head_def fs_manifest_exists_def object_paths Let_def post_simps
proof (rule post_mono[OF object_exists_post[OF length_visible[OF mh]]], goal_cases)
  case (1 fs1 r)
  note unchanged = same_seen[of _ fs cx js]
  have inv1: "fs_inv cx js fs1" and v1: "fs_view js fs1 = fs_view js fs" using 1 unchanged[of fs1] inv by simp_all
  show ?case
  proof (cases "r = Ok True")
    case False
    then show ?thesis using 1 inv1 v1 by (cases r) (auto simp: post_simps)
  next
    case True
    then have there: "vw_object (fs_view js fs) w mh \<noteq> None"
      using 1 by (auto simp: fs_view_eq[of js fs] view_of_select)
    show ?thesis
      unfolding True result.case post_simps if_False not_True_eq_False
    proof (rule post_mono[OF get_head_law[OF inv1]], goal_cases)
      case (1 fs2 r2)
      have s2: "seen fs2 = seen fs" using 1 \<open>seen fs1 = seen fs \<and> _\<close> by simp
      have inv2: "fs_inv cx js fs2" and v2: "fs_view js fs2 = fs_view js fs" and wf2: "fs_wf fs2"
        using unchanged[OF s2] inv by (simp_all add: fs_inv_iff)
      show ?case
      proof (cases r2)
        case (Err err)
        then show ?thesis using inv2 v2 by simp
      next
        case (Ok cur)
        then have cur: "cur = current_head (fs_view js fs) w" using 1 v1 by simp
        consider "wh_revision cur \<noteq> e" | "wh_revision cur = e" "checked_add64 e 1 = None"
          | n where "wh_revision cur = e" "checked_add64 e 1 = Some n" by (cases "checked_add64 e 1") auto
        then show ?thesis
        proof cases
          case 3
          let ?next = "\<lparr>wh_workspace_id = w, wh_manifest_id = Some (manifest_of_hash mh), wh_revision = n,
              wh_updated_by = by_device, wh_updated_at = Some t\<rparr>"
          let ?p = "head_path (workspace_id_str w)"
          have n: "unat n = unat e + 1" using 3(2) by (simp add: checked_add64_Some_iff)
          show ?thesis
          proof (cases "js_head_to_vec js ?next")
            case (Err err)
            then show ?thesis using Ok 3 inv2 v2 by (simp add: post_simps)
          next
            case (Ok b)
            then have dec: "js_head_from_slice js b = Ok ?next"
              using inv by (simp add: fs_inv_iff codec_ok_def)
            show ?thesis using \<open>r2 = Ok cur\<close> Ok 3 there n cur
              by (auto simp: post_simps v2 intro!: post_mono[OF head_replace_post[OF inv2 dec]]
                  split: result.splits)
          qed
        qed (use Ok cur inv2 v2 in \<open>simp_all add: post_simps\<close>)
      qed
    qed
  qed
qed

section \<open>Access states\<close>

lemma validate_access_state_Ok_iff [simp]: "validate_access_state cx w s = Ok u \<longleftrightarrow> valid_access cx w s"
  by (auto simp: validate_access_state_def valid_access_def)

lemma validate_access_state_Err: "\<not> valid_access cx w s \<Longrightarrow> \<exists>e. validate_access_state cx w s = Err e"
  by (metis not_is_ok_iff is_ok_iff validate_access_state_Ok_iff)

lemma get_access_state_law:
  assumes inv: "fs_inv cx js fs"
  shows "post (fs_get_access_state js w) fs (\<lambda>fs' r. fs_inv cx js fs' \<and> fs_view js fs' = fs_view js fs
    \<and> (\<forall>s. r = Ok s \<longrightarrow> s = current_access (fs_view js fs) w))"
  unfolding fs_get_access_state_def post_simps
  by (rule post_mono[OF read_post[OF visible_paths(2)]])
     (use inv in \<open>auto simp: post_simps fs_view_eq[of js fs] view_of_select current_access_def
        dest: same_seen[of _ fs cx js] split: result.splits\<close>)

lemma access_file_put:
  assumes inv: "fs_inv cx js fs" and dec: "js_access_to_vec js s = Ok b" and v: "valid_access cx w s"
    and put: "seen fs' = (True, (visible fs)(access_state_path (workspace_id_str w) \<mapsto> b))"
  shows "fs_inv cx js fs' \<and> fs_view js fs' = set_access w s (fs_view js fs)"
proof -
  have d: "js_access_from_slice js b = Ok s" using inv dec by (simp add: fs_inv_iff codec_ok_def)
  show ?thesis
    using changed_seen[OF put, of js cx] inv files_ok_update(4)[of cx js "visible fs", OF _ d v]
    by (simp add: view_of_set_access[OF d] fs_view_eq[of js fs] fs_inv_iff[of cx js fs])
qed

lemma access_file_missing:
  assumes "fs_inv cx js fs" and "visible fs (access_state_path (workspace_id_str w)) = None"
  shows "vw_access (fs_view js fs) w = None"
  using assms by (simp add: fs_view_eq view_of_select)

lemma access_replace_post:
  assumes inv: "fs_inv cx js fs" and b: "js_access_to_vec js s = Ok b" and v: "valid_access cx w s"
  shows "post (st_io (write_replace pid (access_state_path (workspace_id_str w)) b)) fs (\<lambda>fs' r. fs_inv cx js fs'
    \<and> fs_view js fs' = (if is_ok r then set_access w s (fs_view js fs) else fs_view js fs))"
  unfolding st_io_def post_simps
proof (rule post_mono[OF write_replace_post[OF _ visible_paths(2)]], goal_cases)
  case 1
  show ?case using inv by (simp add: fs_inv_iff)
next
  case (2 fs' r)
  then show ?case using access_file_put[OF inv b v, of fs'] same_seen[of fs' fs cx js] inv
    by (cases r) auto
qed

lemma access_write_new_post:
  assumes inv: "fs_inv cx js fs" and b: "js_access_to_vec js s = Ok b" and v: "valid_access cx w s"
  shows "post (st_io (write_new pid (access_state_path (workspace_id_str w)) b)) fs (\<lambda>fs' r. fs_inv cx js fs'
    \<and> (fs_view js fs' = fs_view js fs \<and> r \<noteq> Ok True
       \<or> vw_access (fs_view js fs) w = None \<and> fs_view js fs' = set_access w s (fs_view js fs) \<and> r \<noteq> Ok False))"
  unfolding st_io_def post_simps
proof (rule post_mono[OF write_new_post[OF _ visible_paths(2)]], goal_cases)
  case 1
  show ?case using inv by (simp add: fs_inv_iff)
next
  case (2 fs' r)
  then show ?case
    using access_file_put[OF inv b v, of fs'] same_seen[of fs' fs cx js] inv access_file_missing[OF inv, of w]
    by (cases r) (auto split: if_splits)
qed

lemma save_access_state_law:
  assumes inv: "fs_inv cx js fs"
  shows "post (fs_save_access_state cx js pid w s) fs (\<lambda>fs' r. fs_inv cx js fs' \<and>
    (if is_ok r then valid_access cx w s \<and> fs_view js fs' = set_access w s (fs_view js fs)
     else fs_view js fs' = fs_view js fs))"
proof (cases "valid_access cx w s \<and> is_ok (js_access_to_vec js s)")
  case False
  then consider (invalid) e where "validate_access_state cx w s = Err e"
    | (unencodable) e where "validate_access_state cx w s = Ok ()" "js_access_to_vec js s = Err e"
    using validate_access_state_Err[of cx w s] by (auto simp: not_is_ok_iff)
  then show ?thesis
    by cases (simp_all add: fs_save_access_state_def post_simps inv del: validate_access_state_Ok_iff)
next
  case True
  then obtain b where v: "valid_access cx w s" and b: "js_access_to_vec js s = Ok b" by (auto simp: is_ok_iff)
  have ok: "validate_access_state cx w s = Ok ()" using v by simp
  show ?thesis
    unfolding fs_save_access_state_def post_simps b ok result.case
    by (auto simp: post_simps v inv intro!: post_mono[OF access_replace_post[OF inv b v]] split: if_splits)
qed

lemma create_access_state_law:
  assumes inv: "fs_inv cx js fs"
  shows "post (fs_create_access_state cx js pid w s) fs (\<lambda>fs' r. fs_inv cx js fs' \<and> (let
      put = (vw_access (fs_view js fs) w = None \<and> valid_access cx w s
             \<and> fs_view js fs' = set_access w s (fs_view js fs))
      in if is_ok r then put else fs_view js fs' = fs_view js fs \<or> put))"
proof (cases "valid_access cx w s")
  case False
  then obtain e where "validate_access_state cx w s = Err e" using validate_access_state_Err by blast
  then show ?thesis by (simp add: fs_create_access_state_def post_simps inv Let_def)
next
  case True
  then have v: "validate_access_state cx w s = Ok ()" by simp
  show ?thesis
    unfolding fs_create_access_state_def v post_simps result.case
  proof (rule post_mono[OF object_exists_post[OF visible_paths(2)]], goal_cases)
    case (1 fs1 r)
    then have inv1: "fs_inv cx js fs1" and v1: "fs_view js fs1 = fs_view js fs"
      and vis: "visible fs1 = visible fs" and wf1: "fs_wf fs1"
      using same_seen[of fs1 fs cx js] inv by (auto simp: fs_inv_iff[of cx js fs1] seen_def)
    show ?case
    proof (cases "r = Ok False \<and> is_ok (js_access_to_vec js s)")
      case False
      then show ?thesis using inv1 v1
        by (cases r; cases "js_access_to_vec js s") (auto simp: post_simps Let_def)
    next
      case True
      then obtain b where r: "r = Ok False" and b: "js_access_to_vec js s = Ok b" by (auto simp: is_ok_iff)
      have none: "vw_access (fs_view js fs) w = None"
        using access_file_missing[OF inv] 1 r by auto
      show ?thesis
        unfolding r b
        by (auto simp: post_simps Let_def none v1 inv1 \<open>valid_access cx w s\<close>
            intro!: post_mono[OF access_write_new_post[OF inv1 b \<open>valid_access cx w s\<close>]]
            split: result.splits if_splits)
    qed
  qed
qed


section \<open>Join requests\<close>

lemma read_join_request_file:
  assumes inv: "fs_inv cx js fs"
    and "visible fs (join_request_path (workspace_id_str w) (join_request_id_str j)) = Some b"
  shows "\<exists>q. read_join_request js w b = Ok q \<and> js_join_from_slice js b = Ok q
    \<and> vw_join (fs_view js fs) w j = Some q \<and> jr_workspace_id q = w \<and> jr_request_id q = j"
proof -
  obtain q where "js_join_from_slice js b = Ok q" "jr_workspace_id q = w" "jr_request_id q = j"
    using files_okD(5)[of cx js "visible fs", OF _ assms(2)] inv by (auto simp: fs_inv_iff)
  then show ?thesis using assms(2)
    by (simp add: read_join_request_def validate_join_request_workspace_def fs_view_eq view_of_select)
qed

lemma get_join_request_law:
  assumes inv: "fs_inv cx js fs" and j: "join_request_id_ok j"
  shows "post (fs_get_join_request js w j) fs (\<lambda>fs' r. fs_inv cx js fs' \<and> fs_view js fs' = fs_view js fs
    \<and> (\<forall>q. r = Ok q \<longrightarrow> q = vw_join (fs_view js fs) w j))"
  unfolding fs_get_join_request_def post_simps
proof (rule post_mono[OF read_post[OF visible_paths(5)[OF j]]], goal_cases)
  case (1 fs1 r)
  then have same: "fs_inv cx js fs1 \<and> fs_view js fs1 = fs_view js fs" using same_seen[of fs1 fs cx js] inv by simp
  show ?case
  proof (cases r)
    case (Ok b)
    then show ?thesis using 1 same read_join_request_file[OF inv, of w j b] by (auto simp: post_simps)
  next
    case (Err e)
    then show ?thesis using 1 same by (auto simp: post_simps fs_view_eq[of js fs] view_of_select)
  qed
qed

lemma remove_join_request_law:
  assumes inv: "fs_inv cx js fs" and j: "join_request_id_ok j"
  shows "post (fs_remove_join_request w j) fs (\<lambda>fs' r. fs_inv cx js fs'
    \<and> (if is_ok r then fs_view js fs' = set_join w j None (fs_view js fs) else fs_view js fs' = fs_view js fs))"
proof -
  let ?p = "join_request_path (workspace_id_str w) (join_request_id_str j)"
  have wf: "fs_wf fs" and vis: "\<not> hidden ?p" using inv visible_paths(5)[OF j] by (simp_all add: fs_inv_iff)
  have gone: "fs_inv cx js s \<and> fs_view js s = set_join w j None (fs_view js fs)" if "seen s = seen (fs_delete ?p fs)" for s
    using that changed_seen[of s "(visible fs)(?p := None)" js cx] inv files_ok_update(6)[of cx js "visible fs"]
    by (simp add: seen_delete[OF wf vis] view_of_set_join fs_view_eq[of js fs] fs_inv_iff[of cx js fs])
  have absent: "fs_view js fs = set_join w j None (fs_view js fs)" if "fs_get fs ?p = None"
  proof -
    have "(visible fs)(?p := None) = visible fs" using that vis by (auto simp: visible_get)
    then show ?thesis unfolding fs_view_eq view_of_set_join(2)[symmetric] by simp
  qed
  show ?thesis
    unfolding fs_remove_join_request_def post_simps
  proof (rule post_mono[OF fs_remove_post[OF wf]], goal_cases)
    case (1 fs1 r)
    show ?case
    proof (cases r)
      case (Ok u)
      then show ?thesis using 1 gone[of fs1] by (simp add: post_simps)
    next
      case (Err e)
      then show ?thesis using 1 same_seen[of fs1 fs cx js] inv absent
        by (auto simp: post_simps)
    qed
  qed
qed

lemma join_file_put:
  assumes inv: "fs_inv cx js fs" and b: "js_join_to_vec js q = Ok b" and w: "jr_workspace_id q = w"
    and j: "join_request_id_ok (jr_request_id q)"
    and put: "seen fs' = (True, (visible fs)
      (join_request_path (workspace_id_str w) (join_request_id_str (jr_request_id q)) \<mapsto> b))"
  shows "fs_inv cx js fs' \<and> fs_view js fs' = set_join w (jr_request_id q) (Some q) (fs_view js fs)"
proof -
  have d: "js_join_from_slice js b = Ok q" using inv b by (simp add: fs_inv_iff codec_ok_def)
  show ?thesis
    using changed_seen[OF put, of js cx] inv files_ok_update(5)[of cx js "visible fs", OF _ d w j]
    by (simp add: view_of_set_join(1)[OF d] fs_view_eq[of js fs] fs_inv_iff[of cx js fs])
qed

lemma join_write_new_post:
  assumes inv: "fs_inv cx js fs" and b: "js_join_to_vec js q = Ok b" and w: "jr_workspace_id q = w"
    and j: "join_request_id_ok (jr_request_id q)"
  shows "post (st_io (write_new pid (join_request_path (workspace_id_str w) (join_request_id_str (jr_request_id q))) b)) fs
    (\<lambda>fs' r. fs_inv cx js fs'
      \<and> (seen fs' = seen fs \<and> r \<noteq> Ok True \<and> (is_ok r \<longrightarrow> vw_join (fs_view js fs) w (jr_request_id q) \<noteq> None)
         \<or> vw_join (fs_view js fs) w (jr_request_id q) = None
           \<and> fs_view js fs' = set_join w (jr_request_id q) (Some q) (fs_view js fs) \<and> r \<noteq> Ok False))"
  unfolding st_io_def post_simps
proof (rule post_mono[OF write_new_post[OF _ visible_paths(5)[OF j]]], goal_cases)
  case 1
  show ?case using inv by (simp add: fs_inv_iff)
next
  case (2 fs' r)
  let ?p = "join_request_path (workspace_id_str w) (join_request_id_str (jr_request_id q))"
  have none: "vw_join (fs_view js fs) w (jr_request_id q) = None" if "visible fs ?p = None"
    using that by (simp add: fs_view_eq view_of_select)
  have some: "vw_join (fs_view js fs) w (jr_request_id q) \<noteq> None" if "visible fs ?p = Some c" for c
    using read_join_request_file[OF inv that] by auto
  show ?case
    using 2 join_file_put[OF inv b w j, of fs'] same_seen[of fs' fs cx js] inv none some
    by (cases r) (auto split: if_splits)
qed

lemma submit_join_request_law:
  assumes inv: "fs_inv cx js fs" and j: "join_request_id_ok (jr_request_id q)"
  shows "post (fs_submit_join_request js pid w q) fs (\<lambda>fs' r. fs_inv cx js fs' \<and> (let
      old = vw_join (fs_view js fs) w (jr_request_id q);
      put = (old = None \<and> jr_workspace_id q = w
             \<and> fs_view js fs' = set_join w (jr_request_id q) (Some q) (fs_view js fs)) in case r of
        Ok JoinSubmitted \<Rightarrow> put
      | Ok JoinAlreadyPending \<Rightarrow> fs_view js fs' = fs_view js fs \<and> old = Some q
      | Ok JoinConflict \<Rightarrow> fs_view js fs' = fs_view js fs \<and> old \<noteq> None \<and> old \<noteq> Some q
      | Err _ \<Rightarrow> fs_view js fs' = fs_view js fs \<or> put))"
proof (cases "jr_workspace_id q = w \<and> is_ok (js_join_to_vec js q)")
  case False
  then show ?thesis
    by (cases "js_join_to_vec js q")
       (auto simp: fs_submit_join_request_def Let_def post_simps inv validate_join_request_workspace_def)
next
  case True
  then obtain b where w: "jr_workspace_id q = w" and b: "js_join_to_vec js q = Ok b" by (auto simp: is_ok_iff)
  let ?p = "join_request_path (workspace_id_str w) (join_request_id_str (jr_request_id q))"
  let ?old = "vw_join (fs_view js fs) w (jr_request_id q)"
  have check: "validate_join_request_workspace w q = Ok ()" by (simp add: validate_join_request_workspace_def w)
  have existing: "post (then_do (st_io (fs_read ?p)) (\<lambda>existing_bytes.
         then_do (lift_result (map_err (js_join_from_slice js existing_bytes) f)) (\<lambda>existing.
         then_do (lift_result (validate_join_request_workspace w existing)) (\<lambda>_.
           done_with (if existing = q then JoinAlreadyPending else JoinConflict))))) fs1
      (\<lambda>fs' r. fs_inv cx js fs' \<and> fs_view js fs' = fs_view js fs \<and> (\<forall>p. r = Ok p \<longrightarrow>
         (p = JoinAlreadyPending \<and> ?old = Some q \<or> p = JoinConflict \<and> ?old \<noteq> None \<and> ?old \<noteq> Some q)))"
    if s1: "seen fs1 = seen fs" for fs1 and f :: "string \<Rightarrow> ServerError"
    unfolding st_io_def post_simps
  proof (rule post_mono[OF read_post[OF visible_paths(5)[OF j]]], goal_cases)
    case (1 fs2 r)
    have s2: "seen fs2 = seen fs" using 1 s1 by simp
    show ?case
    proof (cases r)
      case (Ok c)
      then have "visible fs ?p = Some c" using 1 s1 by (simp add: seen_def)
      from read_join_request_file[OF inv this] Ok show ?thesis
        using same_seen[OF s2, of cx js] inv by (auto simp: validate_join_request_workspace_def)
    qed (use same_seen[OF s2, of cx js] inv in simp)
  qed
  have "post (if created then done_with JoinSubmitted else then_do (st_io (fs_read ?p)) (\<lambda>existing_bytes.
         then_do (lift_result (map_err (js_join_from_slice js existing_bytes) f)) (\<lambda>existing.
         then_do (lift_result (validate_join_request_workspace w existing)) (\<lambda>_.
           done_with (if existing = q then JoinAlreadyPending else JoinConflict))))) fs1
      (\<lambda>fs' r. fs_inv cx js fs' \<and> (case r of
        Ok JoinSubmitted \<Rightarrow> ?old = None \<and> fs_view js fs' = set_join w (jr_request_id q) (Some q) (fs_view js fs)
      | Ok JoinAlreadyPending \<Rightarrow> fs_view js fs' = fs_view js fs \<and> ?old = Some q
      | Ok JoinConflict \<Rightarrow> fs_view js fs' = fs_view js fs \<and> ?old \<noteq> None \<and> ?old \<noteq> Some q
      | Err _ \<Rightarrow> fs_view js fs' = fs_view js fs))"
    if "fs_inv cx js fs1" "created \<longrightarrow> ?old = None \<and> fs_view js fs1 = set_join w (jr_request_id q) (Some q) (fs_view js fs)"
       "\<not> created \<longrightarrow> seen fs1 = seen fs" for created fs1 and f :: "string \<Rightarrow> ServerError"
    using that
    by (cases created)
       (auto simp: post_done intro!: post_mono[OF existing] split: result.splits JoinRequestPutResult.splits)
  note rest = this
  show ?thesis
    unfolding fs_submit_join_request_def Let_def check b result.case map_err.simps
    unfolding post_then[of "lift_result _"] post_lift result.case
    unfolding post_then[of "st_io (write_new _ _ _)"]
  proof (rule post_mono[OF join_write_new_post[OF inv b w j]], goal_cases)
    case (1 fs1 r)
    show ?case
    proof (cases r)
      case (Ok created)
      show ?thesis unfolding Ok result.case
        by (rule post_mono[OF rest]) (use 1 Ok w in \<open>auto split: result.splits JoinRequestPutResult.splits\<close>)
    next
      case (Err e)
      then show ?thesis using 1 same_seen[of fs1 fs cx js] w by auto
    qed
  qed
qed

lemma collect_post:
  assumes "\<And>s x. seen s = seen s0 \<Longrightarrow> x \<in> set xs \<Longrightarrow>
      post (f x) s (\<lambda>s' r. seen s' = seen s0 \<and> (\<forall>y. r = Ok y \<longrightarrow> R x y))"
    and "seen s = seen s0"
  shows "post (collect_do f xs) s (\<lambda>s' r. seen s' = seen s0 \<and> (\<forall>ys. r = Ok ys \<longrightarrow> list_all2 R xs ys))"
  using assms
proof (induction xs arbitrary: s)
  case Nil
  then show ?case by (simp add: post_simps)
next
  case (Cons x xs)
  have head: "post (f x) s (\<lambda>s' r. seen s' = seen s0 \<and> (\<forall>y. r = Ok y \<longrightarrow> R x y))"
    by (rule Cons.prems(1)[OF Cons.prems(2)]) simp
  show ?case
    unfolding collect_do.simps post_simps
  proof (rule post_mono[OF head], goal_cases)
    case (1 s1 r)
    show ?case
    proof (cases r)
      case (Ok y)
      have rest: "post (collect_do f xs) s1 (\<lambda>s' r. seen s' = seen s0 \<and> (\<forall>ys. r = Ok ys \<longrightarrow> list_all2 R xs ys))"
        by (rule Cons.IH[OF Cons.prems(1)]) (use 1 in auto)
      show ?thesis unfolding Ok result.case
        by (rule post_mono[OF rest]) (use 1 Ok in \<open>auto split: result.splits\<close>)
    qed (use 1 in simp)
  qed
qed

definition join_file :: "json_codec \<Rightarrow> WorkspaceId \<Rightarrow> FileSys \<Rightarrow> path \<Rightarrow> DeviceJoinRequest \<Rightarrow> bool" where
  "join_file js w fs p q \<longleftrightarrow> (\<exists>j. join_request_id_ok j \<and> vw_join (fs_view js fs) w j = Some q
     \<and> p = join_request_path (workspace_id_str w) (join_request_id_str j) \<and> jr_request_id q = j)"

lemma join_file_path:
  "join_file js w fs p q \<Longrightarrow> p = join_request_path (workspace_id_str w) (join_request_id_str (jr_request_id q))"
  by (auto simp: join_file_def)

lemma join_dir_file:
  assumes inv: "fs_inv cx js fs" and "visible fs p = Some b" and "p \<noteq> []"
    and "butlast p = join_requests_dir (workspace_id_str w)"
  shows "\<exists>q. read_join_request js w b = Ok q \<and> join_file js w fs p q"
proof -
  obtain q where q: "js_join_from_slice js b = Ok q" "jr_workspace_id q = w" "join_request_id_ok (jr_request_id q)"
    "p = join_request_path (workspace_id_str w) (join_request_id_str (jr_request_id q))"
    using files_okD(4)[of cx js "visible fs", OF _ assms(2-4)] inv by (auto simp: join_file_ok_def fs_inv_iff)
  then have "read_join_request js w b = Ok q" "vw_join (fs_view js fs) w (jr_request_id q) = Some q"
    using assms(2) by (simp_all add: read_join_request_def validate_join_request_workspace_def
        fs_view_eq view_of_select)
  then show ?thesis using q(3,4) by (auto simp: join_file_def)
qed

lemma list_join_requests_law:
  assumes inv: "fs_inv cx js fs"
  shows "post (fs_list_join_requests js w) fs (\<lambda>fs' r. fs_inv cx js fs' \<and> fs_view js fs' = fs_view js fs
    \<and> (\<forall>qs. r = Ok qs \<longrightarrow> distinct qs
         \<and> set qs = {q. \<exists>j. join_request_id_ok j \<and> vw_join (fs_view js fs) w j = Some q}))"
proof -
  let ?d = "join_requests_dir (workspace_id_str w)"
  let ?files = "filter (\<lambda>p. p \<noteq> [] \<and> butlast p = ?d) (map fst (fs_files fs))"
  let ?ps = "sort (filter has_json_extension ?files)"
  have wf: "distinct (map fst (fs_files fs))" using inv by (simp add: fs_inv_iff fs_wf_def bt_wf_distinct)
  have pending: "\<exists>b. visible fs (join_request_path (workspace_id_str w) (join_request_id_str j)) = Some b
      \<and> jr_request_id q = j"
    if v: "vw_join (fs_view js fs) w j = Some q" for j q
  proof -
    from v obtain b where
      b: "visible fs (join_request_path (workspace_id_str w) (join_request_id_str j)) = Some b"
      by (auto simp: fs_view_eq view_of_select bind_eq_Some_conv)
    from read_join_request_file[OF inv b] v b show ?thesis by auto
  qed
  have visible_p: "\<exists>b. visible fs p = Some b" if "p \<in> set ?ps" for p
  proof -
    have "p \<in> fst ` set (fs_files fs)" and "\<not> hidden p" using that hidden_not_json[of p] by auto
    then have "map_of (fs_files fs) p \<noteq> None" by (simp add: map_of_eq_None_iff)
    then show ?thesis using \<open>\<not> hidden p\<close> by (auto simp: visible_def fs_get_def)
  qed
  have all: "p \<in> set ?ps" if f: "join_file js w fs p q" for p q
  proof -
    obtain j where j: "vw_join (fs_view js fs) w j = Some q" "join_request_id_ok j"
      "p = join_request_path (workspace_id_str w) (join_request_id_str j)"
      using f by (auto simp: join_file_def)
    obtain b where "visible fs p = Some b" using pending[OF j(1)] j(3) by auto
    then have "p \<in> set (map fst (fs_files fs))"
      by (auto simp: visible_def fs_get_def split: if_splits dest!: map_of_SomeD intro: rev_image_eqI)
    moreover have "join_request_id_str j \<noteq> []" using j(2) by (auto simp: join_request_id_ok_def valid_text_id_def)
    ultimately show ?thesis using j(3) by (auto simp: has_json_join) (simp add: join_request_path_def)
  qed
  have result: "distinct qs \<and> set qs = {q. \<exists>j. join_request_id_ok j \<and> vw_join (fs_view js fs) w j = Some q}"
    if r: "list_all2 (join_file js w fs) ?ps qs" for qs
  proof -
    have len: "length ?ps = length qs" by (rule list_all2_lengthD[OF r])
    have nth: "join_file js w fs (?ps ! i) (qs ! i)" if "i < length qs" for i
      using list_all2_nthD[OF r] len that by simp
    have "distinct ?ps" using wf by simp
    have "qs ! i \<noteq> qs ! j" if i: "i < length qs" and j: "j < length qs" and "i \<noteq> j" for i j
    proof
      assume "qs ! i = qs ! j"
      then have "?ps ! i = ?ps ! j" using join_file_path[OF nth[OF i]] join_file_path[OF nth[OF j]] by simp
      then show False using \<open>distinct ?ps\<close> len i j \<open>i \<noteq> j\<close> by (simp add: nth_eq_iff_index_eq del: distinct_sort)
    qed
    then have "distinct qs" by (simp add: distinct_conv_nth)
    moreover have "q \<in> set qs" if "join_request_id_ok j" "vw_join (fs_view js fs) w j = Some q" for j q
    proof -
      have f: "join_file js w fs (join_request_path (workspace_id_str w) (join_request_id_str j)) q"
        using that pending[OF that(2)] by (auto simp: join_file_def)
      obtain i where i: "i < length qs" "?ps ! i = join_request_path (workspace_id_str w) (join_request_id_str j)"
        using all[OF f, THEN in_set_conv_nth[THEN iffD1]] unfolding len by blast
      have "qs ! i = q" using nth[OF i(1)] that(2) unfolding i(2) join_file_def by (auto simp: id_str_inj)
      then show ?thesis using i(1) by auto
    qed
    moreover have "\<exists>j. join_request_id_ok j \<and> vw_join (fs_view js fs) w j = Some q" if q: "q \<in> set qs" for q
    proof -
      obtain i where "i < length qs" "qs ! i = q" using q[THEN in_set_conv_nth[THEN iffD1]] by blast
      then show ?thesis using nth[of i] by (auto simp: join_file_def)
    qed
    ultimately show ?thesis by blast
  qed
  show ?thesis
    unfolding fs_list_join_requests_def st_io_def post_match
  proof (rule post_mono[OF fs_read_dir_post], goal_cases)
    case (1 fs1 r)
    then have s1: "seen fs1 = seen fs" by simp
    show ?case
    proof (cases r)
      case (Ok entries)
      then have entries: "sort (filter has_json_extension entries) = ?ps" using 1 by simp
      have step: "post (then_do (map_error (fs_read p) StorageIo) (\<lambda>b. lift_result (read_join_request js w b))) s
          (\<lambda>s' r. seen s' = seen fs \<and> (\<forall>q. r = Ok q \<longrightarrow> join_file js w fs p q))"
        if s: "seen s = seen fs" and p: "p \<in> set ?ps" for s p
      proof -
        obtain b where b: "visible fs p = Some b" using visible_p[OF p] by blast
        obtain q where q: "read_join_request js w b = Ok q" "join_file js w fs p q"
          using join_dir_file[OF inv b, of w] p by auto
        have vis: "visible s = visible fs" using s by (simp add: seen_def)
        have "\<not> hidden p" using b by (auto simp: visible_def split: if_splits)
        from read_post[OF this, of s] show ?thesis
          unfolding post_simps by (rule post_mono) (use s q b vis in \<open>auto split: result.splits\<close>)
      qed
      show ?thesis
        unfolding Ok result.case entries
        by (rule post_mono[OF collect_post[OF step s1]])
           (use result inv in \<open>auto dest: same_seen[of _ fs cx js]\<close>)
    next
      case (Err e)
      have "q \<notin> {q. \<exists>j. join_request_id_ok j \<and> vw_join (fs_view js fs) w j = Some q}"
        if "io_kind e = NotFound" for q
      proof
        assume "q \<in> {q. \<exists>j. join_request_id_ok j \<and> vw_join (fs_view js fs) w j = Some q}"
        then obtain j where "join_request_id_ok j" "vw_join (fs_view js fs) w j = Some q" by blast
        then have "join_file js w fs (join_request_path (workspace_id_str w) (join_request_id_str j)) q"
          using pending[of j q] by (auto simp: join_file_def)
        then have "?files \<noteq> []" using all by force
        moreover have "?files = []" using 1 that Err by simp
        ultimately show False by contradiction
      qed
      then show ?thesis using same_seen[OF s1, of cx js] inv Err by (auto simp: post_simps)
    qed
  qed
qed


section \<open>The file back end implements the storage interface\<close>

lemma fs_storage_select:
  "so_put_blob (fs_storage cx js pid) = fs_put_blob cx pid" "so_get_blob (fs_storage cx js pid) = fs_get_blob"
  "so_blob_exists (fs_storage cx js pid) = fs_blob_exists"
  "so_put_manifest (fs_storage cx js pid) = fs_put_manifest cx pid"
  "so_get_manifest (fs_storage cx js pid) = fs_get_manifest"
  "so_manifest_exists (fs_storage cx js pid) = fs_manifest_exists"
  "so_put_key_envelope (fs_storage cx js pid) = fs_put_key_envelope pid"
  "so_get_key_envelope (fs_storage cx js pid) = fs_get_key_envelope"
  "so_get_head (fs_storage cx js pid) = fs_get_head js"
  "so_update_head (fs_storage cx js pid) = fs_update_head js pid"
  "so_get_access_state (fs_storage cx js pid) = fs_get_access_state js"
  "so_create_access_state (fs_storage cx js pid) = fs_create_access_state cx js pid"
  "so_save_access_state (fs_storage cx js pid) = fs_save_access_state cx js pid"
  "so_submit_join_request (fs_storage cx js pid) = fs_submit_join_request js pid"
  "so_list_join_requests (fs_storage cx js pid) = fs_list_join_requests js"
  "so_get_join_request (fs_storage cx js pid) = fs_get_join_request js"
  "so_remove_join_request (fs_storage cx js pid) = fs_remove_join_request"
  by (simp_all add: fs_storage_def)

lemma fs_put_blob_law:
  assumes "fs_inv cx js fs"
  shows "post (fs_put_blob cx pid w i b) fs (\<lambda>fs' r. fs_inv cx js fs' \<and>
    (if i = blob_id_from_content (cr_sha256 cx) b
     then object_stored (cr_sha256 cx) w b (fs_view js fs) (fs_view js fs')
       \<and> (is_ok r \<longrightarrow> r \<noteq> Ok PutConflict \<and> vw_object (fs_view js fs') w (cr_sha256 cx b) \<noteq> None)
     else fs_view js fs' = fs_view js fs \<and> r = Err ObjectHashMismatch))"
  using object_put[OF assms, of pid w b] assms
  by (cases "i = blob_id_from_content (cr_sha256 cx) b")
     (auto simp: fs_put_blob_def object_of_hash_content object_paths post_simps)

lemma fs_put_manifest_law:
  assumes "fs_inv cx js fs"
  shows "post (fs_put_manifest cx pid w m b) fs (\<lambda>fs' r. fs_inv cx js fs' \<and>
    (if m = manifest_id_from_content (cr_sha256 cx) b
     then object_stored (cr_sha256 cx) w b (fs_view js fs) (fs_view js fs')
       \<and> (is_ok r \<longrightarrow> r \<noteq> Ok PutConflict \<and> vw_object (fs_view js fs') w (cr_sha256 cx b) \<noteq> None)
     else fs_view js fs' = fs_view js fs \<and> r = Err ObjectHashMismatch))"
  using object_put[OF assms, of pid w b] assms
  by (cases "m = manifest_id_from_content (cr_sha256 cx) b")
     (auto simp: fs_put_manifest_def object_of_hash_content object_paths post_simps)

lemma fs_objects_hashed:
  "fs_inv cx js fs \<Longrightarrow> vw_object (fs_view js fs) w h = Some b \<Longrightarrow> h = cr_sha256 cx b"
  by (auto simp: fs_inv_iff fs_view_eq view_of_select dest: files_okD(1))

lemma fs_access_valid:
  "fs_inv cx js fs \<Longrightarrow> vw_access (fs_view js fs) w = Some s \<Longrightarrow> valid_access cx w s"
  by (auto simp: fs_inv_iff fs_view_eq view_of_select bind_eq_Some_conv dest: files_okD(3))

lemma fs_joins_addressed:
  "fs_inv cx js fs \<Longrightarrow> vw_join (fs_view js fs) w j = Some q \<Longrightarrow> jr_request_id q = j \<and> jr_workspace_id q = w"
  by (auto simp: fs_inv_iff fs_view_eq view_of_select bind_eq_Some_conv dest: files_okD(5))

interpretation fs: storage cx "fs_storage cx js pid" "fs_view js" "fs_inv cx js"
proof (unfold_locales, goal_cases)
  case (1 fs w h b) then show ?case by (rule fs_objects_hashed)
next
  case (2 fs w s) then show ?case by (rule fs_access_valid)
next
  case (3 fs w j q) then show ?case using fs_joins_addressed by blast
next
  case (4 fs w i b) then show ?case unfolding fs_storage_select by (intro fs_put_blob_law)
next
  case (5 fs w h)
  then show ?case unfolding fs_storage_select fs_get_blob_def object_paths by (intro object_get) simp_all
next
  case (6 fs w h)
  then show ?case unfolding fs_storage_select fs_blob_exists_def object_paths by (intro object_present)
next
  case (7 fs w m b) then show ?case unfolding fs_storage_select by (intro fs_put_manifest_law)
next
  case (8 fs w h)
  then show ?case unfolding fs_storage_select fs_get_manifest_def object_paths by (intro object_get) simp_all
next
  case (9 fs w h)
  then show ?case unfolding fs_storage_select fs_manifest_exists_def object_paths by (intro object_present)
next
  case (10 fs w k d b) then show ?case unfolding fs_storage_select by (intro put_key_envelope_law)
next
  case (11 fs w k d) then show ?case unfolding fs_storage_select by (intro get_key_envelope_law)
next
  case (12 fs w)
  show ?case unfolding fs_storage_select
    by (rule post_mono[OF get_head_law[OF 12(1)]]) (use 12(1) in \<open>auto dest: same_seen[of _ fs cx js]\<close>)
next
  case (13 fs w mh t e d) then show ?case unfolding fs_storage_select by (intro update_head_law)
next
  case (14 fs w) then show ?case unfolding fs_storage_select by (intro get_access_state_law)
next
  case (15 fs w s) then show ?case unfolding fs_storage_select by (intro create_access_state_law)
next
  case (16 fs w s) then show ?case unfolding fs_storage_select by (intro save_access_state_law)
next
  case (17 fs w q) then show ?case unfolding fs_storage_select by (intro submit_join_request_law)
next
  case (18 fs w) then show ?case unfolding fs_storage_select by (intro list_join_requests_law)
next
  case (19 fs w j) then show ?case unfolding fs_storage_select by (intro get_join_request_law)
next
  case (20 fs w j) then show ?case unfolding fs_storage_select by (intro remove_join_request_law)
qed

text \<open>The invariant holds of an empty data directory.\<close>

lemma fs_inv_empty:
  "codec_ok js \<Longrightarrow> sha256_size (cr_sha256 cx) \<Longrightarrow> fs_files fs = [] \<Longrightarrow> fs_inv cx js fs"
  by (simp add: fs_inv_iff fs_wf_def files_ok_def visible_def fs_get_def)

end
