(* ===== verification/Storage_Props.thy ===== *)
theory Storage_Props
  imports Fs_Contract Samples
begin

text \<open>
  The properties of the file back end itself: atomic writes, the compare-and-swap of the head and the
  round trip of an uploaded object.
\<close>

section \<open>Writes\<close>

text \<open>
  Property C22: writes are atomic whatever fails.  Whatever faults strike -- a write cut short, a
  failing sync, link, rename or removal -- a reader of the files sees either the content before or the
  whole new content: a replacement has happened exactly when it reports success; a write of a new file
  never overwrites, reports \<^verbatim>\<open>true\<close> only when it put the content there and \<^verbatim>\<open>false\<close>
  only when a file was there before.
\<close>

theorem writes_are_atomic:
  assumes "fs_wf fs" and "\<not> hidden p"
  shows "(let (fs', r) = write_replace pid p b fs in
            visible fs' = (if is_ok r then (visible fs)(p \<mapsto> b) else visible fs))
    \<and> (let (fs', r) = write_new pid p b fs in
         (visible fs' = visible fs \<or> visible fs p = None \<and> visible fs' = (visible fs)(p \<mapsto> b))
         \<and> (r = Ok True \<longrightarrow> visible fs p = None \<and> visible fs' = (visible fs)(p \<mapsto> b))
         \<and> (r = Ok False \<longrightarrow> visible fs p \<noteq> None \<and> visible fs' = visible fs))"
  using write_replace_post[OF assms, of pid b] write_new_post[OF assms, of pid b]
  by (auto simp: post_def seen_def split: prod.splits result.splits if_splits)

text \<open>The third primitive, the write of the temporary file, is cut after two bytes.\<close>

theorem writes_are_atomic_witness:
  "let (fs', r) = write_replace 7 [''head''] [1, 2, 3, 4]
         \<lparr>fs_files = [([''head''], [0])], fs_faults = [None, None, Some (Fault 2 ''disk full'')], fs_nanos = []\<rparr>
   in \<not> is_ok r \<and> visible fs' [''head''] = Some [0]"
proof -
  let ?fs = "\<lparr>fs_files = [([''head''], [0])], fs_faults = [None, None, Some (Fault 2 ''disk full'')], fs_nanos = []\<rparr> :: FileSys"
  have wf: "fs_wf ?fs" and p: "\<not> hidden [''head'']" and v: "visible ?fs [''head''] = Some [0]"
    and r: "\<not> is_ok (snd (write_replace 7 [''head''] [1, 2, 3, 4] ?fs))"
    by code_simp+
  show ?thesis using writes_are_atomic[OF wf p, of 7 "[1, 2, 3, 4]"] v r by (simp split: prod.splits)
qed


section \<open>The head\<close>

text \<open>
  Property C23: moving the head is a compare-and-swap.  On the file back end an update succeeds only if
  the head is at the expected revision and the named manifest is stored, and then raises the revision
  by exactly one (an overflow is an error) and changes nothing else; a conflict reports the current head,
  whose revision is another; and neither a conflict nor an error changes anything.
\<close>

theorem head_update_is_compare_and_swap:
  assumes "fs_inv cx js fs" and "manifest_id_ok m"
  shows "let (fs', r) = fs_update_head js pid now w expected m (Some d) fs;
             v = fs_view js fs; v' = fs_view js fs'; current = current_head v w
    in fs_inv cx js fs' \<and> (case r of
         Ok (HeadUpdated, h) \<Rightarrow> wh_revision current = expected \<and> v' = set_head w h v
           \<and> unat (wh_revision h) = unat expected + 1 \<and> wh_manifest_id h = Some m
           \<and> wh_updated_by h = Some d
           \<and> (\<exists>b. vw_object v w (cr_sha256 cx b) = Some b \<and> m = manifest_id_from_content (cr_sha256 cx) b)
       | Ok (HeadConflict, h) \<Rightarrow> v' = v \<and> h = current \<and> wh_revision current \<noteq> expected
       | Err _ \<Rightarrow> v' = v)"
proof -
  obtain x where x: "manifest_id_str m = MANIFEST_ID_PREFIX @ x" "length x = 2 * 32" "list_all is_lower_hex x"
    using assms(2) by (auto simp: manifest_id_ok_def valid_object_id_def)
  obtain mh where h: "hex_encode mh = x" "length mh = 32" using hex_encode_surj[OF x(3,2)] by blast
  then have m: "m = manifest_of_hash mh" using x(1) by (cases m) (simp add: manifest_of_hash_def)
  have stored: "\<exists>b. vw_object (fs_view js fs) w (cr_sha256 cx b) = Some b \<and> m = manifest_id_from_content (cr_sha256 cx) b"
    if o: "vw_object (fs_view js fs) w mh \<noteq> None"
  proof -
    obtain b where b: "vw_object (fs_view js fs) w mh = Some b" using o by blast
    then have "mh = cr_sha256 cx b" by (rule fs_objects_hashed[OF assms(1)])
    then show ?thesis using b m by (auto simp: object_of_hash_content)
  qed
  show ?thesis
    using update_head_law[OF assms(1) h(2), of pid now w expected "Some d", folded m] stored
    by (auto simp: post_def Let_def split: prod.splits result.splits HeadUpdateResult.splits)
qed


section \<open>Objects\<close>

text \<open>Without faults, and with a temporary name that is free, a new file is written.\<close>

lemma write_new_succeeds:
  assumes "fs_faults fs = []" and "fs_nanos fs = n # ns" and p: "\<not> hidden p"
    and free: "fs_get fs (temp_path_for pid n p) = None"
  shows "\<exists>fs' created. write_new pid p b fs = (fs', Ok created) \<and> fs_faults fs' = []
    \<and> fs_get fs' p = (case fs_get fs p of None \<Rightarrow> Some b | Some c \<Rightarrow> Some c)"
proof -
  have "temp_path_for pid n p \<noteq> p" using hidden_temp[of pid n p] p by metis
  then show ?thesis using assms
    by (cases "fs_get fs p")
       (auto simp: write_new_def then_do_def match_do_def done_with_def fs_create_dir_all_def with_fault_def fs_now_nanos_def
        write_temp_def fs_open_create_new_def fs_write_all_def fs_sync_all_def fs_hard_link_def remove_temp_file_def
        fs_remove_file_def Let_def io_error_def fs_put_def fs_delete_def fs_get_def)
qed


text \<open>
  Property C24: an upload that nothing disturbs arrives.  When no fault strikes and the temporary name
  is free, storing a blob under its identifier succeeds and reading it back succeeds: with the same
  bytes if the object was not there before, and otherwise with bytes of the same SHA-256.
\<close>

theorem blob_upload_round_trip:
  assumes inv: "fs_inv cx js fs" and "fs_faults fs = []" and "fs_nanos fs = n # ns"
    and free: "fs_get fs (temp_path_for pid n (blob_path (workspace_id_str w)
                  (blob_id_str (blob_id_from_content (cr_sha256 cx) b)))) = None"
  shows "let i = blob_id_from_content (cr_sha256 cx) b;
             (fs1, put) = fs_put_blob cx pid w i b fs; (fs2, got) = fs_get_blob w i fs1
    in (\<exists>c. got = Ok c \<and> cr_sha256 cx c = cr_sha256 cx b)
       \<and> (if vw_object (fs_view js fs) w (cr_sha256 cx b) = None then put = Ok PutCreated \<and> got = Ok b
          else put = Ok PutAlreadyExists)"
proof -
  let ?i = "blob_id_from_content (cr_sha256 cx) b"
  let ?p = "hash_path (workspace_id_str w) (hex_encode (cr_sha256 cx b))"
  have path: "blob_path (workspace_id_str w) (blob_id_str ?i) = ?p" by (simp add: object_of_hash_content object_paths)
  have p: "\<not> hidden ?p" using inv by (intro sha_hidden) (simp add: fs_inv_iff)
  have view: "vw_object (fs_view js fs) w (cr_sha256 cx b) = fs_get fs ?p"
    using p by (simp add: fs_view_eq view_of_select visible_def)
  show ?thesis
  proof (cases "fs_get fs ?p")
    case (Some c)
    then have "cr_sha256 cx c = cr_sha256 cx b" using fs_objects_hashed[OF inv, of w "cr_sha256 cx b" c] view by simp
    then show ?thesis using Some assms(2) view
      by (simp add: fs_put_blob_def fs_get_blob_def path put_immutable_object_def object_exists_def read_object_def
          st_io_def then_do_def map_error_def match_do_def done_with_def fs_try_exists_def fs_read_def with_fault_def)
  next
    case None
    obtain fs' created where w': "write_new pid ?p b fs = (fs', Ok created)" "fs_faults fs' = []" "fs_get fs' ?p = Some b"
      using write_new_succeeds[OF assms(2,3) p free[unfolded path], of b] None by auto
    have "created" using postD[OF write_new_post[OF _ p], OF _ w'(1)] inv None p
      by (cases created) (auto simp: fs_inv_iff visible_def)
    then show ?thesis using None w' assms(2) view
      by (simp add: fs_put_blob_def fs_get_blob_def path put_immutable_object_def object_exists_def read_object_def
          st_io_def then_do_def map_error_def match_do_def done_with_def fs_try_exists_def fs_read_def with_fault_def)
  qed
qed

definition unit_codec :: json_codec where
  "unit_codec = \<lparr>js_head_to_vec = (\<lambda>_. Err ''''),
     js_head_from_slice = (\<lambda>b. if b = [0] then Ok (head_empty sample_workspace) else Err ''''),
     js_access_to_vec = (\<lambda>_. Err ''''), js_access_from_slice = (\<lambda>_. Err ''''),
     js_join_to_vec = (\<lambda>_. Err ''''), js_join_from_slice = (\<lambda>_. Err '''')\<rparr>"

definition empty_dir :: "nat list \<Rightarrow> FileSys" where
  "empty_dir nanos = \<lparr>fs_files = [], fs_faults = [], fs_nanos = nanos\<rparr>"

lemma empty_dir_inv: "fs_inv sample_crypto unit_codec (empty_dir nanos)"
  by (rule fs_inv_empty) (simp_all add: codec_ok_def unit_codec_def sample_crypto_def sha256_size_def empty_dir_def)

theorem head_update_is_compare_and_swap_witness:
  "let (fs', r) = fs_update_head unit_codec 7 1000 sample_workspace 0 (manifest_of_hash (replicate 32 0))
          (Some (DeviceId ''device_a'')) (empty_dir [])
   in \<not> is_ok r \<and> fs_view unit_codec fs' = fs_view unit_codec (empty_dir [])"
proof -
  have m: "manifest_id_ok (manifest_of_hash h)" if "length h = 32" for h
    using that by (auto simp: manifest_id_ok_def manifest_of_hash_def valid_object_id_def hex_encode_lower)
  have r: "snd (fs_update_head unit_codec 7 1000 sample_workspace 0 (manifest_of_hash (replicate 32 0))
      (Some (DeviceId ''device_a'')) (empty_dir [])) = Err ManifestNotFound" by code_simp
  show ?thesis
    using head_update_is_compare_and_swap[OF empty_dir_inv m[of "replicate 32 0"], of 7 1000 sample_workspace 0 "DeviceId ''device_a''" "[]"] r
    by (simp add: Let_def split: prod.splits)
qed

theorem blob_upload_round_trip_witness:
  "let i = blob_id_from_content (cr_sha256 sample_crypto) [1, 2];
       (fs1, put) = fs_put_blob sample_crypto 7 sample_workspace i [1, 2] (empty_dir [5]);
       (fs2, got) = fs_get_blob sample_workspace i fs1 in got = Ok [1, 2]"
  using blob_upload_round_trip[OF empty_dir_inv, of "[5]" 5 "[]" 7 sample_workspace "[1, 2]"]
  by (simp add: empty_dir_def fs_get_def Let_def fs_view_eq view_of_select visible_def split: prod.splits)


end
