(* ===== verification/Decimal.thy ===== *)
theory Decimal
  imports Prelude
begin

text \<open>
  Decimal integers as the formatting macros print them and as Rust's
  \<^verbatim>\<open>str::parse::<u64>\<close> reads them: an optional plus sign, at least one digit, and no
  overflow.  Printing is injective, prints digits only, and parsing inverts it.
\<close>

definition is_digit_char :: "char \<Rightarrow> bool" where
  "is_digit_char c \<longleftrightarrow> CHR ''0'' \<le> c \<and> c \<le> CHR ''9''"

definition digit_value :: "char \<Rightarrow> int" where
  "digit_value c = of_char c - 48"

fun digits_value :: "int \<Rightarrow> string \<Rightarrow> int option" where
  "digits_value acc [] = Some acc"
| "digits_value acc (c # cs) =
     (if is_digit_char c then digits_value (acc * 10 + digit_value c) cs else None)"

definition parse_u64 :: "string \<Rightarrow> u64 option" where
  "parse_u64 s =
    (let digits = (case s of c # rest \<Rightarrow> if c = CHR ''+'' then rest else s | [] \<Rightarrow> []) in
     if digits = [] then None
     else case digits_value 0 digits of
       None \<Rightarrow> None
     | Some n \<Rightarrow> if n < 18446744073709551616 then Some (of_int n) else None)"

definition show_u64 :: "u64 \<Rightarrow> string" where
  "show_u64 w = show_nat (unat w)"

lemma digit_value_digit: "n < 10 \<Longrightarrow> digit_value (digit n) = int n \<and> is_digit_char (digit n)"
proof -
  assume "n < 10"
  moreover have "\<forall>n \<in> set [0..<10]. digit_value (digit n) = int n \<and> is_digit_char (digit n)"
    by code_simp
  ultimately show ?thesis by auto
qed

lemma digits_value_append:
  "digits_value acc (s @ t) = Option.bind (digits_value acc s) (\<lambda>a. digits_value a t)"
  by (induction s arbitrary: acc) auto

lemma digits_value_show_nat: "digits_value 0 (show_nat n) = Some (int n)"
proof (induction n rule: show_nat.induct)
  case (1 n)
  have d: "digit_value (digit (n mod 10)) = int (n mod 10)" "is_digit_char (digit (n mod 10))"
    using digit_value_digit[of "n mod 10"] by simp_all
  show ?case
  proof (cases "n < 10")
    case True
    then show ?thesis using digit_value_digit[of n] by (simp add: show_nat.simps)
  next
    case False
    have "int (n div 10) * 10 + int (n mod 10) = int n"
      by (metis div_mult_mod_eq of_nat_add of_nat_mult of_nat_numeral)
    then show ?thesis using 1 False d by (subst show_nat.simps) (simp add: digits_value_append)
  qed
qed

lemma show_nat_inj [simp]: "show_nat m = show_nat n \<longleftrightarrow> m = n"
  by (metis digits_value_show_nat of_nat_eq_iff option.inject)

lemma show_nat_digits: "list_all is_digit_char (show_nat n)"
proof (induction n rule: show_nat.induct)
  case (1 n)
  then show ?case
    by (subst show_nat.simps) (simp add: digit_value_digit)
qed

lemma show_nat_not_Nil [simp]: "show_nat n \<noteq> []"
  by (subst show_nat.simps) simp

lemma not_digit_chars:
  "\<not> is_digit_char CHR ''+''" "\<not> is_digit_char (CHR 0x0A)" "\<not> is_digit_char CHR ''-''"
  "\<not> is_digit_char CHR ''.''" "\<not> is_digit_char CHR ''/''"
  by (simp_all add: is_digit_char_def less_eq_char_def)

lemma show_nat_no_newline: "CHR 0x0A \<notin> set (show_nat n)"
  using show_nat_digits[of n] not_digit_chars by (auto simp: list_all_iff)

lemma show_u64_inj [simp]: "show_u64 v = show_u64 w \<longleftrightarrow> v = w"
  by (simp add: show_u64_def word_unat_eq_iff)

lemma show_u64_no_newline: "CHR 0x0A \<notin> set (show_u64 w)"
  by (simp add: show_u64_def show_nat_no_newline)

lemma parse_show_u64 [simp]: "parse_u64 (show_u64 w) = Some w"
proof -
  obtain c cs where s: "show_u64 w = c # cs" by (cases "show_u64 w") (auto simp: show_u64_def)
  have "is_digit_char c" using show_nat_digits[of "unat w"] s by (simp add: show_u64_def)
  then have "c \<noteq> CHR ''+''" using not_digit_chars by auto
  moreover have "digits_value 0 (c # cs) = Some (int (unat w))"
    using digits_value_show_nat[of "unat w"] s by (simp add: show_u64_def)
  moreover have "int (unat w) < 18446744073709551616"
    using uint_lt2p[of w] by simp
  ultimately show ?thesis by (simp add: parse_u64_def s del: digits_value.simps)
qed

text \<open>\<^verbatim>\<open>str::parse\<close> also reads numbers with a plus sign or leading zeros.\<close>

lemma parse_u64_samples:
  "parse_u64 ''+7'' = Some 7" "parse_u64 ''007'' = Some 7" "parse_u64 '''' = None"
  "parse_u64 ''+'' = None" "parse_u64 ''-1'' = None" "parse_u64 ''18446744073709551616'' = None"
  by code_simp+

end
