(* ===== verification/Http_Auth.thy ===== *)
theory Http_Auth
  imports Decimal Access_Event
begin

text \<open>
  \<^verbatim>\<open>rustsync-protocol/src/auth\<close>: the nonce, the authentication headers, the canonical
  text of a request that is signed, and its verification against a device record.  Base64 decoding
  joins the other primitives as a parameter.
\<close>

section \<open>Nonces\<close>

datatype RequestNonce = RequestNonce (nonce_str: string)

definition MAX_REQUEST_NONCE_LEN :: nat where "MAX_REQUEST_NONCE_LEN = 128"

definition parse_nonce :: "string \<Rightarrow> RequestNonce protocol_result" where
  "parse_nonce val =
    (if val = [] then Err (InvalidAuthHeader ''request nonce must not be empty'')
     else if length val > MAX_REQUEST_NONCE_LEN
     then Err (InvalidAuthHeader (''request nonce must not excee '' @ show_nat MAX_REQUEST_NONCE_LEN
                 @ '' bytes''))
     else if \<not> list_all id_char val
     then Err (InvalidAuthHeader
            ''request nonce may contain only ascii letters, digits, `_`, `-`, and `.`'')
     else Ok (RequestNonce val))"

definition nonce_ok :: "RequestNonce \<Rightarrow> bool" where
  "nonce_ok n \<longleftrightarrow> valid_text_id None MAX_REQUEST_NONCE_LEN (nonce_str n)"

lemma parse_nonce_Ok_iff [simp]: "parse_nonce s = Ok n \<longleftrightarrow> nonce_ok n \<and> s = nonce_str n"
  by (cases n) (auto simp: parse_nonce_def nonce_ok_def valid_text_id_def)


section \<open>Canonical requests\<close>

definition AUTH_DOMAIN :: string where "AUTH_DOMAIN = ''rustsync-http-auth''"

definition canonical_request_payload ::
  "string \<Rightarrow> string \<Rightarrow> string \<Rightarrow> u64 \<Rightarrow> DeviceId \<Rightarrow> RequestNonce \<Rightarrow> u64 \<Rightarrow> bytes" where
  "canonical_request_payload method path_and_query body_sha256_hex timestamp device_id nonce content_length =
    str_bytes (AUTH_DOMAIN @ [CHR 0x0A] @ method @ [CHR 0x0A] @ path_and_query @ [CHR 0x0A]
      @ body_sha256_hex @ [CHR 0x0A] @ show_u64 timestamp @ [CHR 0x0A] @ device_id_str device_id
      @ [CHR 0x0A] @ nonce_str nonce @ [CHR 0x0A] @ show_u64 content_length @ [CHR 0x0A])"

definition sha256_hex :: "crypto \<Rightarrow> bytes \<Rightarrow> string" where
  "sha256_hex cx bs = hex_encode (cr_sha256 cx bs)"


section \<open>Headers\<close>

definition DEVICE_ID_HEADER :: string where "DEVICE_ID_HEADER = ''x-rustsync-device-id''"
definition TIMESTAMP_HEADER :: string where "TIMESTAMP_HEADER = ''x-rustsync-timestamp''"
definition NONCE_HEADER :: string where "NONCE_HEADER = ''x-rustsync-nonce''"
definition SIGNATURE_HEADER :: string where "SIGNATURE_HEADER = ''x-rustsync-signature''"

record AuthHeaders =
  ah_device_id :: DeviceId
  ah_timestamp :: u64
  ah_nonce :: RequestNonce
  ah_signature :: bytes

record AuthHeaderValues =
  hv_device_id :: string
  hv_timestamp :: string
  hv_nonce :: string
  hv_signature :: string

definition parse_signature :: "(string \<Rightarrow> bytes option) \<Rightarrow> string \<Rightarrow> bytes protocol_result" where
  "parse_signature b64dec val = ok_or (b64dec val) InvalidRequestSignature"

definition from_header_values :: "(string \<Rightarrow> bytes option) \<Rightarrow>
    string \<Rightarrow> string \<Rightarrow> string \<Rightarrow> string \<Rightarrow> AuthHeaders protocol_result" where
  "from_header_values b64dec device_id timestamp nonce signature =
    and_then (parse_device_id device_id) (\<lambda>device_id.
    and_then (ok_or (parse_u64 timestamp)
                (InvalidAuthHeader ''timestamp must be an unsigned integer'')) (\<lambda>timestamp.
    and_then (parse_nonce nonce) (\<lambda>nonce.
    and_then (parse_signature b64dec signature) (\<lambda>signature.
      Ok \<lparr>ah_device_id = device_id, ah_timestamp = timestamp, ah_nonce = nonce,
           ah_signature = signature\<rparr>))))"

definition to_header_values :: "crypto \<Rightarrow> AuthHeaders \<Rightarrow> AuthHeaderValues" where
  "to_header_values cx h = \<lparr>hv_device_id = device_id_str (ah_device_id h),
     hv_timestamp = show_u64 (ah_timestamp h), hv_nonce = nonce_str (ah_nonce h),
     hv_signature = cr_base64 cx (ah_signature h)\<rparr>"


section \<open>Signed requests\<close>

record SignedHttpRequestParts =
  hp_method :: string
  hp_path_and_query :: string
  hp_body :: bytes

record HttpRequestSignatureInput =
  hs_method :: string
  hs_path_and_query :: string
  hs_body_sha256_hex :: string
  hs_timestamp :: u64
  hs_device_id :: DeviceId
  hs_nonce :: RequestNonce
  hs_content_length :: u64

record SignedHttpRequest =
  sr_input :: HttpRequestSignatureInput
  sr_signature :: bytes

definition parts_new :: "string \<Rightarrow> string \<Rightarrow> bytes \<Rightarrow> SignedHttpRequestParts" where
  "parts_new method path_and_query body =
     \<lparr>hp_method = method, hp_path_and_query = path_and_query, hp_body = body\<rparr>"

definition signature_input :: "crypto \<Rightarrow> SignedHttpRequestParts \<Rightarrow> DeviceId \<Rightarrow> u64 \<Rightarrow> RequestNonce \<Rightarrow>
    HttpRequestSignatureInput" where
  "signature_input cx p device_id timestamp nonce =
    \<lparr>hs_method = hp_method p, hs_path_and_query = hp_path_and_query p,
     hs_body_sha256_hex = sha256_hex cx (hp_body p), hs_timestamp = timestamp,
     hs_device_id = device_id, hs_nonce = nonce, hs_content_length = of_nat (length (hp_body p))\<rparr>"

definition with_signature :: "HttpRequestSignatureInput \<Rightarrow> bytes \<Rightarrow> SignedHttpRequest" where
  "with_signature i signature = \<lparr>sr_input = i, sr_signature = signature\<rparr>"

definition from_auth_headers :: "crypto \<Rightarrow> SignedHttpRequestParts \<Rightarrow> AuthHeaders \<Rightarrow> SignedHttpRequest" where
  "from_auth_headers cx p h =
     with_signature (signature_input cx p (ah_device_id h) (ah_timestamp h) (ah_nonce h)) (ah_signature h)"

definition canonical_payload :: "HttpRequestSignatureInput \<Rightarrow> bytes" where
  "canonical_payload i = canonical_request_payload (hs_method i) (hs_path_and_query i)
     (hs_body_sha256_hex i) (hs_timestamp i) (hs_device_id i) (hs_nonce i) (hs_content_length i)"

definition verify_with_device :: "crypto \<Rightarrow> SignedHttpRequest \<Rightarrow> DeviceRecord \<Rightarrow> unit protocol_result" where
  "verify_with_device cx r device =
    (if hs_device_id (sr_input r) \<noteq> dr_device_id device then Err InvalidRequestSignature
     else map_err (verify_device_signature cx device (canonical_payload (sr_input r)) (sr_signature r))
            (\<lambda>_. InvalidRequestSignature))"

definition auth_headers :: "SignedHttpRequest \<Rightarrow> AuthHeaders" where
  "auth_headers r = \<lparr>ah_device_id = hs_device_id (sr_input r), ah_timestamp = hs_timestamp (sr_input r),
     ah_nonce = hs_nonce (sr_input r), ah_signature = sr_signature r\<rparr>"


section \<open>Facts\<close>

lemma verify_with_device_Ok_iff [simp]:
  "verify_with_device cx r d = Ok u \<longleftrightarrow> hs_device_id (sr_input r) = dr_device_id d
     \<and> verify_device_signature cx d (canonical_payload (sr_input r)) (sr_signature r) = Ok ()"
  by (auto simp: verify_with_device_def)

text \<open>What a request of the HTTP library satisfies: neither the method nor the target contains a
  line break, and the identifiers were parsed.\<close>

definition request_ok :: "HttpRequestSignatureInput \<Rightarrow> bool" where
  "request_ok i \<longleftrightarrow> CHR 0x0A \<notin> set (hs_method i) \<and> CHR 0x0A \<notin> set (hs_path_and_query i)
     \<and> list_all is_lower_hex (hs_body_sha256_hex i) \<and> device_id_ok (hs_device_id i) \<and> nonce_ok (hs_nonce i)"

lemma append_sep_inj:
  "c \<notin> set a \<Longrightarrow> c \<notin> set b \<Longrightarrow> a @ c # s = b @ c # t \<longleftrightarrow> a = b \<and> s = t"
  by (metis split_once_append option.inject prod.inject)

lemma request_ok_no_newline:
  assumes "request_ok i"
  shows "CHR 0x0A \<notin> set (hs_method i)" "CHR 0x0A \<notin> set (hs_path_and_query i)"
    "CHR 0x0A \<notin> set (hs_body_sha256_hex i)" "CHR 0x0A \<notin> set (device_id_str (hs_device_id i))"
    "CHR 0x0A \<notin> set (nonce_str (hs_nonce i))"
proof -
  have hex: "\<not> is_lower_hex (CHR 0x0A)" by (simp add: is_lower_hex_def less_eq_char_def)
  show "CHR 0x0A \<notin> set (hs_method i)" "CHR 0x0A \<notin> set (hs_path_and_query i)"
    using assms by (simp_all add: request_ok_def)
  show "CHR 0x0A \<notin> set (hs_body_sha256_hex i)"
    using assms hex by (auto simp: request_ok_def list_all_iff)
  show "CHR 0x0A \<notin> set (device_id_str (hs_device_id i))" "CHR 0x0A \<notin> set (nonce_str (hs_nonce i))"
    using assms by (auto simp: request_ok_def device_id_ok_def nonce_ok_def dest: valid_text_id_no_newline)
qed

lemma canonical_payload_inj:
  assumes "request_ok i" and "request_ok j"
  shows "canonical_payload i = canonical_payload j \<longleftrightarrow> i = j"
proof -
  note sep = append_sep_inj request_ok_no_newline[OF assms(1)] request_ok_no_newline[OF assms(2)]
    show_u64_no_newline
  have "canonical_payload i = canonical_payload j \<longleftrightarrow>
      hs_method i = hs_method j \<and> hs_path_and_query i = hs_path_and_query j
    \<and> hs_body_sha256_hex i = hs_body_sha256_hex j \<and> hs_timestamp i = hs_timestamp j
    \<and> device_id_str (hs_device_id i) = device_id_str (hs_device_id j)
    \<and> nonce_str (hs_nonce i) = nonce_str (hs_nonce j) \<and> hs_content_length i = hs_content_length j"
    by (simp add: canonical_payload_def canonical_request_payload_def sep)
  then show ?thesis
    by (cases i; cases j) (auto intro: DeviceId.expand RequestNonce.expand)
qed

text \<open>A request starts with a letter; every other signed payload starts with the first of the
  eight bytes of a small length.\<close>

lemma canonical_payload_first: "hd (canonical_payload i) = 0x72"
  by (simp add: canonical_payload_def canonical_request_payload_def AUTH_DOMAIN_def str_bytes_def)

end
