(* ===== verification/Routes.thy ===== *)
theory Routes
  imports Ids
begin

text \<open>
  \<^verbatim>\<open>rustsync-protocol/src/api/routes.rs\<close>: the paths of the HTTP interface, the parser that
  classifies a sync request into its endpoint and permission, and the coarser classification with which
  the server's middleware decides whether a request must be authenticated and for which permission.
\<close>

section \<open>Endpoints\<close>

datatype WorkspaceSyncMethod = Get | Put

datatype WorkspaceSyncRouteClassificationError =
    UnsupportedMethod string
  | MissingWorkspaceRouteTail
  | RouteInvalidWorkspaceId ProtocolError
  | RouteInvalidBlobId ProtocolError
  | RouteInvalidManifestId ProtocolError
  | InvalidWorkspaceRouteTail string

type_synonym 'a route_result = "('a, WorkspaceSyncRouteClassificationError) result"

fun method_str :: "WorkspaceSyncMethod \<Rightarrow> string" where
  "method_str Get = ''GET''"
| "method_str Put = ''PUT''"

definition method_try_from :: "string \<Rightarrow> WorkspaceSyncMethod route_result" where
  "method_try_from val =
    (if val = ''GET'' then Ok Get else if val = ''PUT'' then Ok Put else Err (UnsupportedMethod val))"

datatype WorkspaceSyncResource = Blob BlobId | ManifestResource ManifestId | Head

record WorkspaceSyncEndpoint =
  se_workspace_id :: WorkspaceId
  se_resource :: WorkspaceSyncResource

definition endpoint_blob :: "WorkspaceId \<Rightarrow> BlobId \<Rightarrow> WorkspaceSyncEndpoint" where
  "endpoint_blob w b = \<lparr>se_workspace_id = w, se_resource = Blob b\<rparr>"
definition endpoint_manifest :: "WorkspaceId \<Rightarrow> ManifestId \<Rightarrow> WorkspaceSyncEndpoint" where
  "endpoint_manifest w m = \<lparr>se_workspace_id = w, se_resource = ManifestResource m\<rparr>"
definition endpoint_head :: "WorkspaceId \<Rightarrow> WorkspaceSyncEndpoint" where
  "endpoint_head w = \<lparr>se_workspace_id = w, se_resource = Head\<rparr>"

definition sync_relative_path :: "WorkspaceSyncEndpoint \<Rightarrow> string" where
  "sync_relative_path ep = (case se_resource ep of
     Blob b \<Rightarrow> ''workspaces/'' @ workspace_id_str (se_workspace_id ep) @ ''/blobs/'' @ blob_id_str b
   | ManifestResource m \<Rightarrow>
       ''workspaces/'' @ workspace_id_str (se_workspace_id ep) @ ''/manifests/'' @ manifest_id_str m
   | Head \<Rightarrow> ''workspaces/'' @ workspace_id_str (se_workspace_id ep) @ ''/head'')"

definition sync_absolute_path :: "WorkspaceSyncEndpoint \<Rightarrow> string" where
  "sync_absolute_path ep = ''/'' @ sync_relative_path ep"

datatype WorkspaceAccessResource =
    JoinRequests
  | JoinRequestApproval JoinRequestId
  | AccessEvents
  | AccessStateResource
  | KeyEnvelopeResource KeyId DeviceId

record WorkspaceAccessEndpoint =
  ae_workspace_id :: WorkspaceId
  ae_resource :: WorkspaceAccessResource

definition access_relative_path :: "WorkspaceAccessEndpoint \<Rightarrow> string" where
  "access_relative_path ep = (case ae_resource ep of
     JoinRequests \<Rightarrow> ''workspaces/'' @ workspace_id_str (ae_workspace_id ep) @ ''/devices/join-requests''
   | JoinRequestApproval j \<Rightarrow> ''workspaces/'' @ workspace_id_str (ae_workspace_id ep)
       @ ''/devices/join-requests/'' @ join_request_id_str j @ ''/approval''
   | AccessEvents \<Rightarrow> ''workspaces/'' @ workspace_id_str (ae_workspace_id ep) @ ''/access/events''
   | AccessStateResource \<Rightarrow> ''workspaces/'' @ workspace_id_str (ae_workspace_id ep) @ ''/access/state''
   | KeyEnvelopeResource k d \<Rightarrow> ''workspaces/'' @ workspace_id_str (ae_workspace_id ep)
       @ ''/keys/'' @ key_id_str k @ ''/envelopes/'' @ device_id_str d)"

definition access_absolute_path :: "WorkspaceAccessEndpoint \<Rightarrow> string" where
  "access_absolute_path ep = ''/'' @ access_relative_path ep"

record ClassifiedWorkspaceSyncEndpoint =
  ce_endpoint :: WorkspaceSyncEndpoint
  ce_required_permission :: WorkspacePermission

record WorkspaceSyncAuthTarget =
  at_workspace_id :: WorkspaceId
  at_required_permission :: WorkspacePermission


section \<open>Classification\<close>

definition workspaces_prefix :: string where "workspaces_prefix = ''/workspaces/''"

definition split_workspace_route :: "string \<Rightarrow> (string \<times> string) option route_result" where
  "split_workspace_route path = (case strip_prefix path workspaces_prefix of
     None \<Rightarrow> Ok None
   | Some rest \<Rightarrow> and_then (ok_or (split_once CHR ''/'' rest) MissingWorkspaceRouteTail) (\<lambda>p. Ok (Some p)))"

fun permission_for :: "WorkspaceSyncMethod \<Rightarrow> WorkspaceSyncResource \<Rightarrow> WorkspacePermission" where
  "permission_for Get _ = ReadObjects"
| "permission_for Put Head = UpdateHead"
| "permission_for Put _ = WriteObjects"

definition classify_tail :: "WorkspaceId \<Rightarrow> string \<Rightarrow> WorkspaceSyncEndpoint route_result" where
  "classify_tail w route_tail = (case split_once CHR ''/'' route_tail of
     None \<Rightarrow> (if route_tail = ''head'' then Ok (endpoint_head w)
              else Err (InvalidWorkspaceRouteTail route_tail))
   | Some (kind, ident) \<Rightarrow>
       (if kind = ''blobs'' \<and> CHR ''/'' \<notin> set ident
        then and_then (map_err (parse_blob_id ident) RouteInvalidBlobId)
               (\<lambda>b. Ok (endpoint_blob w b))
        else if kind = ''manifests'' \<and> CHR ''/'' \<notin> set ident
        then and_then (map_err (parse_manifest_id ident) RouteInvalidManifestId)
               (\<lambda>m. Ok (endpoint_manifest w m))
        else Err (InvalidWorkspaceRouteTail route_tail)))"

definition classify_workspace_sync_route ::
  "WorkspaceSyncMethod \<Rightarrow> string \<Rightarrow> ClassifiedWorkspaceSyncEndpoint option route_result" where
  "classify_workspace_sync_route method path =
    and_then (split_workspace_route path) (\<lambda>r. case r of
      None \<Rightarrow> Ok None
    | Some (workspace_id, route_tail) \<Rightarrow>
        and_then (map_err (parse_workspace_id workspace_id) RouteInvalidWorkspaceId) (\<lambda>w.
        and_then (classify_tail w route_tail) (\<lambda>ep.
          Ok (Some \<lparr>ce_endpoint = ep,
             ce_required_permission = permission_for method (se_resource ep)\<rparr>))))"

definition classify_workspace_sync_route_with_method ::
  "string \<Rightarrow> string \<Rightarrow> ClassifiedWorkspaceSyncEndpoint option route_result" where
  "classify_workspace_sync_route_with_method method path =
    (if \<not> starts_with path workspaces_prefix then Ok None
     else and_then (method_try_from method) (\<lambda>m. classify_workspace_sync_route m path))"

datatype WorkspaceSyncResourceKind = BlobKind | ManifestKind | HeadKind

definition auth_permission_for_route_tail ::
  "WorkspaceSyncMethod \<Rightarrow> string \<Rightarrow> WorkspacePermission route_result" where
  "auth_permission_for_route_tail method route_tail =
    and_then (ok_or (if route_tail = ''head'' then Some HeadKind
                     else if starts_with route_tail ''blobs/'' then Some BlobKind
                     else if starts_with route_tail ''manifests/'' then Some ManifestKind
                     else None) (InvalidWorkspaceRouteTail route_tail))
      (\<lambda>resource. case method of
         Get \<Rightarrow> Ok ReadObjects
       | Put \<Rightarrow> (case resource of HeadKind \<Rightarrow> Ok UpdateHead | _ \<Rightarrow> Ok WriteObjects))"

definition is_non_sync_workspace_route :: "string \<Rightarrow> bool route_result" where
  "is_non_sync_workspace_route path = and_then (split_workspace_route path) (\<lambda>r. case r of
     None \<Rightarrow> Ok False
   | Some (_, route_tail) \<Rightarrow> Ok (starts_with route_tail ''devices/'' \<or> starts_with route_tail ''access/''))"

definition classify_workspace_sync_auth_target ::
  "WorkspaceSyncMethod \<Rightarrow> string \<Rightarrow> WorkspaceSyncAuthTarget option route_result" where
  "classify_workspace_sync_auth_target method path =
    and_then (split_workspace_route path) (\<lambda>r. case r of
      None \<Rightarrow> Ok None
    | Some (workspace_id, route_tail) \<Rightarrow>
        (if starts_with route_tail ''devices/'' \<or> starts_with route_tail ''access/''
            \<or> starts_with route_tail ''keys/'' then Ok None
         else and_then (map_err (parse_workspace_id workspace_id) RouteInvalidWorkspaceId) (\<lambda>w.
              and_then (auth_permission_for_route_tail method route_tail) (\<lambda>permission.
                Ok (Some \<lparr>at_workspace_id = w, at_required_permission = permission\<rparr>)))))"

definition classify_workspace_sync_auth_target_with_method ::
  "string \<Rightarrow> string \<Rightarrow> WorkspaceSyncAuthTarget option route_result" where
  "classify_workspace_sync_auth_target_with_method method path =
    (if \<not> starts_with path workspaces_prefix then Ok None
     else and_then (is_non_sync_workspace_route path) (\<lambda>non_sync.
       if non_sync then Ok None
       else and_then (method_try_from method) (\<lambda>m. classify_workspace_sync_auth_target m path)))"


section \<open>Facts\<close>

definition resource_ok :: "WorkspaceSyncResource \<Rightarrow> bool" where
  "resource_ok r \<longleftrightarrow> (case r of Blob b \<Rightarrow> blob_id_ok b | ManifestResource m \<Rightarrow> manifest_id_ok m | Head \<Rightarrow> True)"

definition endpoint_ok :: "WorkspaceSyncEndpoint \<Rightarrow> bool" where
  "endpoint_ok ep \<longleftrightarrow> workspace_id_ok (se_workspace_id ep) \<and> resource_ok (se_resource ep)"

lemma split_workspace_route_Some_iff:
  "split_workspace_route path = Ok (Some (w, t)) \<longleftrightarrow>
     CHR ''/'' \<notin> set w \<and> path = workspaces_prefix @ w @ CHR ''/'' # t"
  unfolding split_workspace_route_def
  by (cases "strip_prefix path workspaces_prefix") (auto simp: split_once_Some_iff)

lemma split_workspace_route_None_iff:
  "split_workspace_route path = Ok None \<longleftrightarrow> \<not> starts_with path workspaces_prefix"
  unfolding split_workspace_route_def by (simp add: strip_prefix_def)

lemma workspace_id_ok_no_slash: "workspace_id_ok w \<Longrightarrow> CHR ''/'' \<notin> set (workspace_id_str w)"
  by (auto simp: workspace_id_ok_def dest: valid_text_id_no_slash)

lemma split_own_path:
  "workspace_id_ok w \<Longrightarrow>
   split_workspace_route (workspaces_prefix @ workspace_id_str w @ CHR ''/'' # t) = Ok (Some (workspace_id_str w, t))"
  by (simp add: split_workspace_route_Some_iff workspace_id_ok_no_slash)

definition resource_tail :: "WorkspaceSyncResource \<Rightarrow> string" where
  "resource_tail r = (case r of Blob b \<Rightarrow> ''blobs/'' @ blob_id_str b
     | ManifestResource m \<Rightarrow> ''manifests/'' @ manifest_id_str m | Head \<Rightarrow> ''head'')"

lemma sync_absolute_path_eq:
  "sync_absolute_path ep =
     workspaces_prefix @ workspace_id_str (se_workspace_id ep) @ CHR ''/'' # resource_tail (se_resource ep)"
  by (simp add: sync_absolute_path_def sync_relative_path_def workspaces_prefix_def resource_tail_def
      split: WorkspaceSyncResource.splits)

lemma blob_tail: "CHR ''/'' \<notin> set i \<Longrightarrow> split_once CHR ''/'' (''blobs/'' @ i) = Some (''blobs'', i)"
  by (simp add: split_once_Some_iff)
lemma manifest_tail: "CHR ''/'' \<notin> set i \<Longrightarrow> split_once CHR ''/'' (''manifests/'' @ i) = Some (''manifests'', i)"
  by (simp add: split_once_Some_iff)

lemma classify_tail_own:
  assumes "resource_ok r"
  shows "classify_tail w (resource_tail r) = Ok \<lparr>se_workspace_id = w, se_resource = r\<rparr>"
proof (cases r)
  case (Blob b)
  have "parse_blob_id (blob_id_str b) = Ok b" "CHR ''/'' \<notin> set (blob_id_str b)"
    using assms by (auto simp: resource_ok_def Blob blob_id_ok_no_slash)
  then show ?thesis using Blob
    by (simp add: classify_tail_def resource_tail_def blob_tail endpoint_blob_def
        del: and_then_Ok_iff parse_blob_id_Ok_iff append.simps)
next
  case (ManifestResource m)
  have "parse_manifest_id (manifest_id_str m) = Ok m" "CHR ''/'' \<notin> set (manifest_id_str m)"
    using assms by (auto simp: resource_ok_def ManifestResource manifest_id_ok_no_slash)
  then show ?thesis using ManifestResource
    by (simp add: classify_tail_def resource_tail_def manifest_tail endpoint_manifest_def
        del: and_then_Ok_iff parse_manifest_id_Ok_iff append.simps)
next
  case Head
  then show ?thesis by (simp add: classify_tail_def resource_tail_def endpoint_head_def)
qed

lemma classify_tail_Ok:
  assumes "classify_tail w t = Ok ep"
  shows "resource_tail (se_resource ep) = t \<and> resource_ok (se_resource ep) \<and> se_workspace_id ep = w"
  using assms unfolding classify_tail_def
  by (auto simp: split_once_Some_iff resource_tail_def resource_ok_def endpoint_blob_def
        endpoint_manifest_def endpoint_head_def split: option.splits prod.splits if_splits)

lemma classify_own_path:
  assumes "endpoint_ok ep"
  shows "classify_workspace_sync_route method (sync_absolute_path ep) =
    Ok (Some \<lparr>ce_endpoint = ep, ce_required_permission = permission_for method (se_resource ep)\<rparr>)"
proof -
  have w: "workspace_id_ok (se_workspace_id ep)" and r: "resource_ok (se_resource ep)"
    using assms by (simp_all add: endpoint_ok_def)
  have "parse_workspace_id (workspace_id_str (se_workspace_id ep)) = Ok (se_workspace_id ep)" using w by simp
  then show ?thesis
    by (simp add: classify_workspace_sync_route_def sync_absolute_path_eq split_own_path[OF w]
        classify_tail_own[OF r] del: and_then_Ok_iff parse_workspace_id_Ok_iff)
qed

text \<open>Conversely, what is classified is the path of the endpoint it is classified as.\<close>

lemma classify_Some:
  assumes "classify_workspace_sync_route method path = Ok (Some c)"
  shows "endpoint_ok (ce_endpoint c) \<and> path = sync_absolute_path (ce_endpoint c)
    \<and> ce_required_permission c = permission_for method (se_resource (ce_endpoint c))"
proof -
  obtain t w ep where s: "split_workspace_route path = Ok (Some (workspace_id_str w, t))"
    and w: "workspace_id_ok w" and tail: "classify_tail w t = Ok ep"
    and c: "c = \<lparr>ce_endpoint = ep, ce_required_permission = permission_for method (se_resource ep)\<rparr>"
    using assms unfolding classify_workspace_sync_route_def
    by (auto split: option.splits prod.splits)
  then show ?thesis using classify_tail_Ok[OF tail]
    by (simp add: split_workspace_route_Some_iff sync_absolute_path_eq endpoint_ok_def)
qed

text \<open>Every sync request is one the middleware authenticates, for the same permission.\<close>

lemma auth_target_own_path:
  assumes "endpoint_ok ep"
  shows "classify_workspace_sync_auth_target_with_method (method_str meth) (sync_absolute_path ep) =
    Ok (Some \<lparr>at_workspace_id = se_workspace_id ep,
      at_required_permission = permission_for meth (se_resource ep)\<rparr>)"
proof -
  let ?w = "se_workspace_id ep"
  have w: "workspace_id_ok ?w" using assms by (simp add: endpoint_ok_def)
  have parse: "parse_workspace_id (workspace_id_str ?w) = Ok ?w" using w by simp
  have tail: "\<not> starts_with (resource_tail r) ''devices/'' \<and> \<not> starts_with (resource_tail r) ''access/''
      \<and> \<not> starts_with (resource_tail r) ''keys/''
      \<and> auth_permission_for_route_tail meth (resource_tail r) = Ok (permission_for meth r)" for r
    by (cases r; cases meth)
       (simp_all add: resource_tail_def starts_with_def auth_permission_for_route_tail_def)
  have m: "method_try_from (method_str meth) = Ok meth"
    by (cases meth) (simp_all add: method_try_from_def)
  show ?thesis using tail parse m
    by (simp add: classify_workspace_sync_auth_target_with_method_def sync_absolute_path_eq
        is_non_sync_workspace_route_def classify_workspace_sync_auth_target_def split_own_path[OF w]
        del: and_then_Ok_iff parse_workspace_id_Ok_iff)
qed


section \<open>Properties\<close>

text \<open>
  Property C11: the route table and the paths the client builds agree exactly.  A path is classified
  as a sync endpoint if and only if it is the absolute path of that endpoint and its identifiers are
  well formed, and the permission demanded is the one of the method and the resource.
\<close>

theorem sync_routes_classified_exactly:
  "classify_workspace_sync_route method path = Ok (Some c) \<longleftrightarrow>
     endpoint_ok (ce_endpoint c) \<and> path = sync_absolute_path (ce_endpoint c) \<and>
     ce_required_permission c = permission_for method (se_resource (ce_endpoint c))"
proof
  assume "classify_workspace_sync_route method path = Ok (Some c)"
  then show "endpoint_ok (ce_endpoint c) \<and> path = sync_absolute_path (ce_endpoint c) \<and>
     ce_required_permission c = permission_for method (se_resource (ce_endpoint c))"
    by (rule classify_Some)
next
  assume r: "endpoint_ok (ce_endpoint c) \<and> path = sync_absolute_path (ce_endpoint c) \<and>
     ce_required_permission c = permission_for method (se_resource (ce_endpoint c))"
  then show "classify_workspace_sync_route method path = Ok (Some c)"
    by (cases c) (simp add: classify_own_path del: and_then_Ok_iff)
qed

text \<open>
  Property C12: no sync resource is reachable without authentication.  Whatever path the sync router
  classifies, with either method, the authentication middleware classifies as well, for the same
  workspace and the same permission.
\<close>

theorem sync_routes_always_authenticated:
  assumes "classify_workspace_sync_route method path = Ok (Some c)"
  shows "classify_workspace_sync_auth_target_with_method (method_str method) path =
    Ok (Some \<lparr>at_workspace_id = se_workspace_id (ce_endpoint c),
              at_required_permission = ce_required_permission c\<rparr>)"
  using classify_Some[OF assms] by (simp add: auth_target_own_path)

theorem sync_routes_always_authenticated_witness:
  "classify_workspace_sync_auth_target_with_method ''PUT'' ''/workspaces/ws_1/head'' =
    Ok (Some \<lparr>at_workspace_id = WorkspaceId ''ws_1'', at_required_permission = UpdateHead\<rparr>)"
proof -
  have "classify_workspace_sync_route Put ''/workspaces/ws_1/head'' =
    Ok (Some \<lparr>ce_endpoint = endpoint_head (WorkspaceId ''ws_1''), ce_required_permission = UpdateHead\<rparr>)"
    by code_simp
  from sync_routes_always_authenticated[OF this] show ?thesis by (simp add: endpoint_head_def)
qed

end
