(* ===== verification/Server_Auth.thy ===== *)
theory Server_Auth
  imports Http_Auth Access_State Routes Server_Error Stateful
begin

text \<open>
  \<^verbatim>\<open>rustsync-server/src/auth\<close> and the state of \<^verbatim>\<open>state.rs\<close>: the replay cache, the
  authentication of a request and the middleware every request passes through.  The wall clock is an
  argument (seconds), the storage is whatever answers
  \<^verbatim>\<open>get_access_state\<close>, and the mutex of the
  cache is the atomicity of one call.
\<close>

section \<open>The replay cache\<close>

record ReplayKey =
  rk_workspace_id :: WorkspaceId
  rk_device_id :: DeviceId
  rk_nonce :: RequestNonce

text \<open>The \<^verbatim>\<open>HashMap\<close> as the list of its entries, in no significant order.\<close>

type_synonym ReplayCache = "(ReplayKey \<times> u64) list"

definition check_and_record :: "ReplayCache \<Rightarrow> WorkspaceId \<Rightarrow> DeviceId \<Rightarrow> RequestNonce \<Rightarrow> u64 \<Rightarrow> u64 \<Rightarrow>
    ReplayCache \<times> unit server_result" where
  "check_and_record seen workspace_id device_id nonce timestamp max_age_seconds =
    (let min_timestamp = saturating_sub64 timestamp max_age_seconds;
         seen = filter (\<lambda>(_, timestamp). timestamp \<ge> min_timestamp) seen;
         key = \<lparr>rk_workspace_id = workspace_id, rk_device_id = device_id, rk_nonce = nonce\<rparr>
     in if map_of seen key \<noteq> None then (seen, Err ReplayDetected)
        else ((key, timestamp) # seen, Ok ()))"


section \<open>Requests\<close>

record Uri =
  uri_path :: string
  uri_path_and_query :: "string option"

record Request =
  rq_method :: string
  rq_uri :: Uri
  rq_headers :: "(string \<times> bytes) list"
  rq_body :: bytes

record AuthenticatedDevice =
  ad_workspace_id :: WorkspaceId
  ad_device_id :: DeviceId
  ad_permission :: WorkspacePermission

definition MAX_AUTH_BODY_BYTES :: nat where "MAX_AUTH_BODY_BYTES = 1048576"
definition MAX_TIMESTAMP_SKEW_SECONDS :: u64 where "MAX_TIMESTAMP_SKEW_SECONDS = 300"

text \<open>\<^verbatim>\<open>HeaderValue::to_str\<close>: visible ASCII and the tab.\<close>

definition header_value_to_str :: "bytes \<Rightarrow> string server_result" where
  "header_value_to_str val =
    (if list_all (\<lambda>b. b = 9 \<or> (32 \<le> b \<and> b < 127)) val then Ok (bytes_str val)
     else Err SrvInvalidAuthHeader)"

definition required_header :: "(string \<times> bytes) list \<Rightarrow> string \<Rightarrow> string server_result" where
  "required_header headers name =
    and_then (ok_or (map_of headers name) AuthenticationRequired) header_value_to_str"

definition parse_auth_headers ::
  "(string \<Rightarrow> bytes option) \<Rightarrow> (string \<times> bytes) list \<Rightarrow> AuthHeaders server_result" where
  "parse_auth_headers b64dec headers =
    and_then (required_header headers DEVICE_ID_HEADER) (\<lambda>device_id.
    and_then (required_header headers TIMESTAMP_HEADER) (\<lambda>timestamp.
    and_then (required_header headers NONCE_HEADER) (\<lambda>nonce.
    and_then (required_header headers SIGNATURE_HEADER) (\<lambda>signature.
      map_err (from_header_values b64dec device_id timestamp nonce signature) AuthProtocol))))"

definition signed_http_request_from_headers :: "crypto \<Rightarrow> (string \<Rightarrow> bytes option) \<Rightarrow>
    string \<Rightarrow> Uri \<Rightarrow> (string \<times> bytes) list \<Rightarrow> bytes \<Rightarrow> SignedHttpRequest server_result" where
  "signed_http_request_from_headers cx b64dec method uri headers body =
    and_then (parse_auth_headers b64dec headers) (\<lambda>auth_headers.
      let path_and_query = (case uri_path_and_query uri of None \<Rightarrow> uri_path uri | Some pq \<Rightarrow> pq)
      in Ok (from_auth_headers cx (parts_new method path_and_query body) auth_headers))"

definition validate_timestamp :: "u64 \<Rightarrow> u64 \<Rightarrow> unit server_result" where
  "validate_timestamp now timestamp =
    (if abs_diff64 now timestamp > MAX_TIMESTAMP_SKEW_SECONDS then Err AuthTimestampOutsideWindow
     else Ok ())"


section \<open>Authentication\<close>

text \<open>\<^verbatim>\<open>AppState\<close>: the storage and the replay cache; its two locks are the atomicity of the
  handlers that hold them.\<close>

record 'st AppState =
  app_storage :: 'st
  app_replay_cache :: ReplayCache

type_synonym ('st, 'a) handler = "('st AppState, 'a, ServerError) action"

definition on_storage :: "('st, 'a, ServerError) action \<Rightarrow> ('st, 'a) handler" where
  "on_storage m st = (case m (app_storage st) of (s, r) \<Rightarrow> (st\<lparr>app_storage := s\<rparr>, r))"

definition record_nonce :: "WorkspaceId \<Rightarrow> DeviceId \<Rightarrow> RequestNonce \<Rightarrow> u64 \<Rightarrow> ('st, unit) handler" where
  "record_nonce workspace_id device_id nonce timestamp st =
    (case check_and_record (app_replay_cache st) workspace_id device_id nonce timestamp
            MAX_TIMESTAMP_SKEW_SECONDS of
       (cache, r) \<Rightarrow> (st\<lparr>app_replay_cache := cache\<rparr>, r))"

text \<open>The permission is checked after the nonce has been recorded.\<close>

definition authenticate :: "crypto \<Rightarrow> (string \<Rightarrow> bytes option) \<Rightarrow> u64 \<Rightarrow>
    (WorkspaceId \<Rightarrow> ('st, AccessState, ServerError) action) \<Rightarrow> WorkspaceId \<Rightarrow> WorkspacePermission \<Rightarrow>
    string \<Rightarrow> Uri \<Rightarrow> (string \<times> bytes) list \<Rightarrow> bytes \<Rightarrow> ('st, AuthenticatedDevice) handler" where
  "authenticate cx b64dec now get_access_state workspace_id permission meth uri headers body =
    then_do (lift_result (signed_http_request_from_headers cx b64dec meth uri headers body)) (\<lambda>signed_request.
    then_do (lift_result (validate_timestamp now (hs_timestamp (sr_input signed_request)))) (\<lambda>_.
    then_do (on_storage (get_access_state workspace_id)) (\<lambda>access_state.
    let device_id = hs_device_id (sr_input signed_request) in
    then_do (lift_result (map_err (active_device_record access_state device_id) AuthProtocol)) (\<lambda>device.
    then_do (lift_result (map_err (verify_with_device cx signed_request device) AuthProtocol)) (\<lambda>_.
    then_do (record_nonce workspace_id device_id (hs_nonce (sr_input signed_request))
               (hs_timestamp (sr_input signed_request))) (\<lambda>_.
    then_do (lift_result (map_err (require_permission access_state device_id permission) AuthProtocol)) (\<lambda>_.
      done_with \<lparr>ad_workspace_id = workspace_id, ad_device_id = device_id,
                 ad_permission = permission\<rparr>)))))))"

fun classification_error :: "WorkspaceSyncRouteClassificationError \<Rightarrow> ServerError" where
  "classification_error (RouteInvalidWorkspaceId _) = SrvInvalidWorkspaceId"
| "classification_error _ = AuthenticationRequired"

definition classify_auth_target :: "string \<Rightarrow> Uri \<Rightarrow> WorkspaceSyncAuthTarget option server_result" where
  "classify_auth_target method uri =
    map_err (classify_workspace_sync_auth_target_with_method method (uri_path uri)) classification_error"


section \<open>The middleware\<close>

text \<open>The rest of the service, \<^verbatim>\<open>next\<close>, gets the request with the authenticated device
  attached, or without one when the route is not a sync route.\<close>

definition workspace_auth_middleware :: "crypto \<Rightarrow> (string \<Rightarrow> bytes option) \<Rightarrow> u64 \<Rightarrow>
    (WorkspaceId \<Rightarrow> ('st, AccessState, ServerError) action) \<Rightarrow>
    (AuthenticatedDevice option \<Rightarrow> Request \<Rightarrow> ('st, 'r) handler) \<Rightarrow> Request \<Rightarrow> ('st, 'r) handler" where
  "workspace_auth_middleware cx b64dec now get_access_state next_service request =
    then_do (lift_result (classify_auth_target (rq_method request) (rq_uri request))) (\<lambda>t. case t of
      None \<Rightarrow> next_service None request
    | Some target \<Rightarrow>
        if length (rq_body request) > MAX_AUTH_BODY_BYTES then fail_with RequestBodyTooLarge
        else then_do (authenticate cx b64dec now get_access_state (at_workspace_id target)
               (at_required_permission target) (rq_method request) (rq_uri request)
               (rq_headers request) (rq_body request)) (\<lambda>device. next_service (Some device) request))"

end
