(* ===== verification/Server_Api.thy ===== *)
theory Server_Api
  imports Server_Auth Storage
begin

text \<open>
  \<^verbatim>\<open>rustsync-server/src/api\<close> and \<^verbatim>\<open>app.rs\<close>: the handlers of every route, over any
  storage, the route table and the whole service: middleware, routing, handler.  The guards
  \<^verbatim>\<open>lock_access_events\<close> and \<^verbatim>\<open>lock_join_requests\<close> are the atomicity of a
  handler; the clock is read once per request.
\<close>

section \<open>Requests and responses\<close>

record CreateWorkspaceRequest =
  cw_workspace_id :: WorkspaceId
  cw_access_state :: AccessState

record ApproveJoinRequestRequest =
  aj_join_request_id :: JoinRequestId
  aj_event :: SignedAccessEvent

record ApplyAccessEventRequest =
  ae_event :: SignedAccessEvent

datatype JoinRequestSubmissionStatus = StatusSubmitted | StatusAlreadyPending

record JoinRequestSubmissionResponse =
  js_request_id :: JoinRequestId
  js_status :: JoinRequestSubmissionStatus

definition join_response_submitted :: "JoinRequestId \<Rightarrow> JoinRequestSubmissionResponse" where
  "join_response_submitted i = \<lparr>js_request_id = i, js_status = StatusSubmitted\<rparr>"
definition join_response_already_pending :: "JoinRequestId \<Rightarrow> JoinRequestSubmissionResponse" where
  "join_response_already_pending i = \<lparr>js_request_id = i, js_status = StatusAlreadyPending\<rparr>"

datatype ObjectUploadStatus = UploadCreated | UploadAlreadyExists

text \<open>The bodies the handlers answer with.\<close>

datatype ResponseBody =
    HealthBody
  | WorkspaceBody WorkspaceId WorkspaceHead
  | JoinRequestBody JoinRequestSubmissionResponse
  | JoinRequestsBody "DeviceJoinRequest list"
  | AccessStateBody AccessState
  | UploadBody ObjectUploadStatus
  | EnvelopeBody KeyEnvelope
  | HeadBody WorkspaceHead
  | BytesBody bytes

type_synonym 'st api_handler = "('st, StatusCode \<times> ResponseBody) handler"

text \<open>What the handlers get from their surroundings: the cryptography, the base64 and JSON decoders,
  the decoding of percent escapes in a path segment by the router, and the clock.\<close>

record server_env =
  en_crypto :: crypto
  en_b64dec :: "string \<Rightarrow> bytes option"
  en_percent :: "string \<Rightarrow> string option"
  en_create :: "bytes \<Rightarrow> (CreateWorkspaceRequest, string) result"
  en_join :: "bytes \<Rightarrow> (DeviceJoinRequest, string) result"
  en_approve :: "bytes \<Rightarrow> (ApproveJoinRequestRequest, string) result"
  en_apply :: "bytes \<Rightarrow> (ApplyAccessEventRequest, string) result"
  en_envelope :: "bytes \<Rightarrow> (KeyEnvelope, string) result"
  en_update_head :: "(string \<times> bytes) list \<Rightarrow> bytes \<Rightarrow> UpdateHeadRequest option"

definition MAX_PENDING_JOIN_REQUESTS_PER_WORKSPACE :: nat where
  "MAX_PENDING_JOIN_REQUESTS_PER_WORKSPACE = 128"

definition MAX_OBJECT_BODY_BYTES :: nat where "MAX_OBJECT_BODY_BYTES = 1024 * 1024"


section \<open>Shared steps\<close>

definition ensure_body_limit :: "bytes \<Rightarrow> unit server_result" where
  "ensure_body_limit body = (if length body > MAX_AUTH_BODY_BYTES then Err RequestBodyTooLarge else Ok ())"

definition parse_json :: "(bytes \<Rightarrow> ('a, string) result) \<Rightarrow> bytes \<Rightarrow> 'a server_result" where
  "parse_json from_slice body =
     map_err (from_slice body) (\<lambda>error. SrvInvalidRequest (''invalid JSON body: '' @ error))"

definition authenticate_request :: "server_env \<Rightarrow> 'st Storage \<Rightarrow> u64 \<Rightarrow> WorkspaceId \<Rightarrow> WorkspacePermission \<Rightarrow>
    Request \<Rightarrow> ('st, AuthenticatedDevice) handler" where
  "authenticate_request env ops now w permission req =
     authenticate (en_crypto env) (en_b64dec env) now (so_get_access_state ops) w permission
       (rq_method req) (rq_uri req) (rq_headers req) (rq_body req)"

text \<open>A handler without a body extractor signs and checks the empty body, whatever was sent.\<close>

definition authenticate_empty_body :: "server_env \<Rightarrow> 'st Storage \<Rightarrow> u64 \<Rightarrow> WorkspaceId \<Rightarrow> WorkspacePermission \<Rightarrow>
    Request \<Rightarrow> ('st, AuthenticatedDevice) handler" where
  "authenticate_empty_body env ops now w permission req =
     authenticate_request env ops now w permission (req\<lparr>rq_body := []\<rparr>)"

definition invalid_access_event :: "string \<Rightarrow> ServerError" where
  "invalid_access_event reason = AuthProtocol (InvalidAccessEvent reason)"

definition verify_and_apply_access_event ::
  "server_env \<Rightarrow> 'st Storage \<Rightarrow> WorkspaceId \<Rightarrow> SignedAccessEvent \<Rightarrow> ('st, AccessState) handler" where
  "verify_and_apply_access_event env ops w event =
    (if ev_workspace_id event \<noteq> w then fail_with (AccessStateWorkspaceMismatch w (ev_workspace_id event))
     else then_do (on_storage (so_get_access_state ops w)) (\<lambda>access_state.
       then_do (lift_result (map_err (active_device_record access_state (ev_actor_device_id event))
                               InvalidAccessState)) (\<lambda>actor.
       then_do (lift_result (map_err (verify_event_signature (en_crypto env) event actor)
                               InvalidAccessState)) (\<lambda>_.
       case apply_verified_event (en_crypto env) access_state event of (access_state, applied) \<Rightarrow>
         then_do (lift_result (map_err applied InvalidAccessState)) (\<lambda>_.
         then_do (on_storage (so_save_access_state ops w access_state)) (\<lambda>_.
           done_with access_state))))))"

text \<open>What approval and the event route share for an event that admits a device.\<close>

definition admit_pending_device :: "server_env \<Rightarrow> 'st Storage \<Rightarrow> WorkspaceId \<Rightarrow> JoinRequestId \<Rightarrow>
    SignedAccessEvent \<Rightarrow> ('st, AccessState) handler" where
  "admit_pending_device env ops w join_request_id event =
    then_do (on_storage (so_get_join_request ops w join_request_id)) (\<lambda>r.
    then_do (lift_result (ok_or r (SrvInvalidRequest ''join request is not pending''))) (\<lambda>pending.
    then_do (lift_result (map_err (verify_for_workspace (en_crypto env) pending w)
                            InvalidAccessState)) (\<lambda>_.
    then_do (lift_result (map_err (event_verify_join_request event pending) InvalidAccessState)) (\<lambda>_.
    then_do (verify_and_apply_access_event env ops w event) (\<lambda>access_state.
    then_do (on_storage (so_remove_join_request ops w join_request_id)) (\<lambda>_.
      done_with access_state))))))"


section \<open>Access handlers\<close>

definition upload_response :: "ServerError \<Rightarrow> PutResult \<Rightarrow> (StatusCode \<times> ResponseBody) server_result" where
  "upload_response conflict result = (case result of
     PutCreated \<Rightarrow> Ok (STATUS_CREATED, UploadBody UploadCreated)
   | PutAlreadyExists \<Rightarrow> Ok (STATUS_OK, UploadBody UploadAlreadyExists)
   | PutConflict \<Rightarrow> Err conflict)"

definition api_put_key_envelope :: "server_env \<Rightarrow> 'st Storage \<Rightarrow> u64 \<Rightarrow> WorkspaceId \<Rightarrow> KeyId \<Rightarrow> DeviceId \<Rightarrow>
    Request \<Rightarrow> 'st api_handler" where
  "api_put_key_envelope env ops now w key_id recipient_device_id req =
    then_do (lift_result (ensure_body_limit (rq_body req))) (\<lambda>_.
    then_do (lift_result (parse_json (en_envelope env) (rq_body req))) (\<lambda>envelope.
    then_do (authenticate_request env ops now w ManageKeys req) (\<lambda>auth.
    if ad_device_id auth \<noteq> ke_sender_device_id envelope
    then fail_with (invalid_access_event ''authenticated device does not match key envelope sender'')
    else if ke_workspace_id envelope \<noteq> w \<or> ke_key_id envelope \<noteq> key_id
        \<or> ke_recipient_device_id envelope \<noteq> recipient_device_id
    then fail_with (SrvInvalidRequest ''key envelope fields do not match request path'')
    else then_do (on_storage (so_get_access_state ops w)) (\<lambda>access_state.
      then_do (lift_result (map_err (active_device_record access_state (ke_sender_device_id envelope))
                              InvalidAccessState)) (\<lambda>sender.
      then_do (lift_result (map_err (active_device_record access_state (ke_recipient_device_id envelope))
                              InvalidAccessState)) (\<lambda>_.
      then_do (lift_result (map_err (verify_sender_signature (en_crypto env) envelope sender)
                              InvalidAccessState)) (\<lambda>_.
      if ke_access_revision envelope \<noteq> as_revision access_state
      then fail_with (SrvInvalidRequest
             ''key envelope access revision does not match current access state'')
      else then_do (on_storage (so_put_key_envelope ops w key_id recipient_device_id (rq_body req)))
             (\<lambda>result. lift_result (upload_response KeyEnvelopeConflict result)))))))))"

definition api_fetch_key_envelope :: "server_env \<Rightarrow> 'st Storage \<Rightarrow> u64 \<Rightarrow> WorkspaceId \<Rightarrow> KeyId \<Rightarrow> DeviceId \<Rightarrow>
    Request \<Rightarrow> 'st api_handler" where
  "api_fetch_key_envelope env ops now w key_id recipient_device_id req =
    then_do (authenticate_empty_body env ops now w ReadObjects req) (\<lambda>auth.
    if ad_device_id auth \<noteq> recipient_device_id then fail_with KeyEnvelopeRecipientMismatch
    else then_do (on_storage (so_get_key_envelope ops w key_id recipient_device_id)) (\<lambda>r.
      then_do (lift_result (ok_or r KeyEnvelopeNotFound)) (\<lambda>b.
      then_do (lift_result (map_err (en_envelope env b)
                (\<lambda>error. SrvInvalidRequest (''stored key envelope is invalid JSON: '' @ error)))) (\<lambda>envelope.
        done_with (STATUS_OK, EnvelopeBody envelope)))))"

definition verify_join_request_http_signature :: "server_env \<Rightarrow> u64 \<Rightarrow> WorkspaceId \<Rightarrow> Request \<Rightarrow>
    DeviceJoinRequest \<Rightarrow> ('st, unit) handler" where
  "verify_join_request_http_signature env now w req request =
    then_do (lift_result (signed_http_request_from_headers (en_crypto env) (en_b64dec env)
               (rq_method req) (rq_uri req) (rq_headers req) (rq_body req))) (\<lambda>signed_request.
    then_do (lift_result (validate_timestamp now (hs_timestamp (sr_input signed_request)))) (\<lambda>_.
    if hs_device_id (sr_input signed_request) \<noteq> dr_device_id (jr_device request)
    then fail_with (invalid_access_event ''authenticated device does not match join request device'')
    else then_do (lift_result (map_err (verify_with_device (en_crypto env) signed_request
                                         (jr_device request)) AuthProtocol)) (\<lambda>_.
      record_nonce w (hs_device_id (sr_input signed_request)) (hs_nonce (sr_input signed_request))
        (hs_timestamp (sr_input signed_request)))))"

definition join_submission_response ::
  "JoinRequestId \<Rightarrow> JoinRequestPutResult \<Rightarrow> (StatusCode \<times> ResponseBody) server_result" where
  "join_submission_response request_id result = (case result of
     JoinSubmitted \<Rightarrow> Ok (STATUS_CREATED, JoinRequestBody (join_response_submitted request_id))
   | JoinAlreadyPending \<Rightarrow> Ok (STATUS_OK, JoinRequestBody (join_response_already_pending request_id))
   | JoinConflict \<Rightarrow> Err JoinRequestConflict)"

definition api_submit_join_request ::
  "server_env \<Rightarrow> 'st Storage \<Rightarrow> u64 \<Rightarrow> WorkspaceId \<Rightarrow> Request \<Rightarrow> 'st api_handler" where
  "api_submit_join_request env ops now w req =
    then_do (lift_result (ensure_body_limit (rq_body req))) (\<lambda>_.
    then_do (lift_result (parse_json (en_join env) (rq_body req))) (\<lambda>request.
    then_do (lift_result (map_err (verify_for_workspace (en_crypto env) request w)
                            InvalidAccessState)) (\<lambda>_.
    then_do (verify_join_request_http_signature env now w req request) (\<lambda>_.
    then_do (on_storage (so_get_access_state ops w)) (\<lambda>access_state.
    if as_revision access_state = 0
    then fail_with (SrvInvalidRequest ''workspace has not been initialized'')
    else if is_active_member access_state (dr_device_id (jr_device request))
    then fail_with (InvalidAccessState (DeviceAlreadyMember (dr_device_id (jr_device request))))
    else then_do (on_storage (so_get_join_request ops w (jr_request_id request))) (\<lambda>known.
      let submit = then_do (on_storage (so_submit_join_request ops w request)) (\<lambda>result.
            lift_result (join_submission_response (jr_request_id request) result))
      in if known \<noteq> None then submit
         else then_do (on_storage (so_list_join_requests ops w)) (\<lambda>pending_requests.
           case find (\<lambda>pending. dr_device_id (jr_device pending) = dr_device_id (jr_device request))
                  pending_requests of
             Some existing_request \<Rightarrow> done_with (STATUS_OK,
               JoinRequestBody (join_response_already_pending (jr_request_id existing_request)))
           | None \<Rightarrow>
               if length pending_requests \<ge> MAX_PENDING_JOIN_REQUESTS_PER_WORKSPACE
               then fail_with (SrvInvalidRequest (''workspace already has the maximum of ''
                      @ show_nat MAX_PENDING_JOIN_REQUESTS_PER_WORKSPACE @ '' pending join requests''))
               else submit)))))))"

definition api_list_join_requests ::
  "server_env \<Rightarrow> 'st Storage \<Rightarrow> u64 \<Rightarrow> WorkspaceId \<Rightarrow> Request \<Rightarrow> 'st api_handler" where
  "api_list_join_requests env ops now w req =
    then_do (authenticate_empty_body env ops now w ManageDevices req) (\<lambda>_.
    then_do (on_storage (so_list_join_requests ops w)) (\<lambda>requests.
      done_with (STATUS_OK, JoinRequestsBody requests)))"

definition api_approve_join_request :: "server_env \<Rightarrow> 'st Storage \<Rightarrow> u64 \<Rightarrow> WorkspaceId \<Rightarrow> JoinRequestId \<Rightarrow>
    Request \<Rightarrow> 'st api_handler" where
  "api_approve_join_request env ops now w join_request_id req =
    then_do (lift_result (ensure_body_limit (rq_body req))) (\<lambda>_.
    then_do (lift_result (parse_json (en_approve env) (rq_body req))) (\<lambda>request.
    if aj_join_request_id request \<noteq> join_request_id
    then fail_with (SrvInvalidRequest ''join request ID in body does not match path'')
    else then_do (authenticate_request env ops now w ManageDevices req) (\<lambda>auth.
      if ad_device_id auth \<noteq> ev_actor_device_id (aj_event request)
      then fail_with (invalid_access_event ''authenticated device does not match access event actor'')
      else then_do (admit_pending_device env ops w join_request_id (aj_event request)) (\<lambda>access_state.
        done_with (STATUS_OK, AccessStateBody access_state)))))"

definition api_apply_access_event ::
  "server_env \<Rightarrow> 'st Storage \<Rightarrow> u64 \<Rightarrow> WorkspaceId \<Rightarrow> Request \<Rightarrow> 'st api_handler" where
  "api_apply_access_event env ops now w req =
    then_do (lift_result (ensure_body_limit (rq_body req))) (\<lambda>_.
    then_do (lift_result (parse_json (en_apply env) (rq_body req))) (\<lambda>request.
    let event = ae_event request in
    then_do (lift_result (ok_or (required_permission (ev_event event))
        (SrvInvalidRequest ''workspace-created events cannot be applied here''))) (\<lambda>permission.
    then_do (authenticate_request env ops now w permission req) (\<lambda>auth.
    if ad_device_id auth \<noteq> ev_actor_device_id event
    then fail_with (invalid_access_event ''authenticated device does not match access event actor'')
    else then_do (case ev_event event of
           DeviceJoined join_request_id _ _ \<Rightarrow> admit_pending_device env ops w join_request_id event
         | _ \<Rightarrow> verify_and_apply_access_event env ops w event) (\<lambda>access_state.
      done_with (STATUS_OK, AccessStateBody access_state))))))"

definition api_fetch_access_state ::
  "server_env \<Rightarrow> 'st Storage \<Rightarrow> u64 \<Rightarrow> WorkspaceId \<Rightarrow> Request \<Rightarrow> 'st api_handler" where
  "api_fetch_access_state env ops now w req =
    then_do (authenticate_empty_body env ops now w ReadObjects req) (\<lambda>_.
    then_do (on_storage (so_get_access_state ops w)) (\<lambda>access_state.
      done_with (STATUS_OK, AccessStateBody access_state)))"


section \<open>Workspaces\<close>

definition verify_bootstrap_signature :: "server_env \<Rightarrow> u64 \<Rightarrow> Request \<Rightarrow> CreateWorkspaceRequest \<Rightarrow>
    ('st, unit) handler" where
  "verify_bootstrap_signature env now req request =
    then_do (lift_result (signed_http_request_from_headers (en_crypto env) (en_b64dec env)
               (rq_method req) (rq_uri req) (rq_headers req) (rq_body req))) (\<lambda>signed_request.
    then_do (lift_result (validate_timestamp now (hs_timestamp (sr_input signed_request)))) (\<lambda>_.
    let device_id = hs_device_id (sr_input signed_request) in
    then_do (lift_result (map_err (active_device_record (cw_access_state request) device_id)
                            AuthProtocol)) (\<lambda>device.
    then_do (lift_result (map_err (role_of (cw_access_state request) device_id) AuthProtocol)) (\<lambda>role.
    if role \<noteq> Owner then fail_with (AuthProtocol (PermissionDenied device_id ManageDevices))
    else then_do (lift_result (map_err (verify_with_device (en_crypto env) signed_request device)
                                AuthProtocol)) (\<lambda>_.
      record_nonce (cw_workspace_id request) device_id (hs_nonce (sr_input signed_request))
        (hs_timestamp (sr_input signed_request)))))))"

definition api_create_workspace ::
  "server_env \<Rightarrow> 'st Storage \<Rightarrow> u64 \<Rightarrow> Request \<Rightarrow> 'st api_handler" where
  "api_create_workspace env ops now req =
    then_do (lift_result (ensure_body_limit (rq_body req))) (\<lambda>_.
    then_do (lift_result (parse_json (en_create env) (rq_body req))) (\<lambda>request.
    then_do (verify_bootstrap_signature env now req request) (\<lambda>_.
    if as_workspace_id (cw_access_state request) \<noteq> cw_workspace_id request
    then fail_with (AccessStateWorkspaceMismatch (cw_workspace_id request)
           (as_workspace_id (cw_access_state request)))
    else then_do (on_storage (so_create_access_state ops (cw_workspace_id request)
                    (cw_access_state request))) (\<lambda>_.
      done_with (STATUS_CREATED, WorkspaceBody (cw_workspace_id request)
        (head_empty (cw_workspace_id request)))))))"


section \<open>Heads, blobs and manifests\<close>

definition api_get_head :: "'st Storage \<Rightarrow> WorkspaceId \<Rightarrow> 'st api_handler" where
  "api_get_head ops w = then_do (on_storage (so_get_head ops w)) (\<lambda>head. done_with (STATUS_OK, HeadBody head))"

definition api_update_head :: "'st Storage \<Rightarrow> u64 \<Rightarrow> WorkspaceId \<Rightarrow> AuthenticatedDevice \<Rightarrow> UpdateHeadRequest \<Rightarrow>
    'st api_handler" where
  "api_update_head ops now w auth request =
    then_do (on_storage (so_update_head ops now w (uh_expected_revision request) (uh_manifest_id request)
               (Some (ad_device_id auth)))) (\<lambda>(result, head). case result of
      HeadUpdated \<Rightarrow> done_with (STATUS_OK, HeadBody head)
    | HeadConflict \<Rightarrow> fail_with HeadRevisionConflict)"

definition api_get_blob :: "'st Storage \<Rightarrow> WorkspaceId \<Rightarrow> BlobId \<Rightarrow> 'st api_handler" where
  "api_get_blob ops w i = then_do (on_storage (so_get_blob ops w i)) (\<lambda>b. done_with (STATUS_OK, BytesBody b))"

definition api_put_blob :: "'st Storage \<Rightarrow> WorkspaceId \<Rightarrow> BlobId \<Rightarrow> bytes \<Rightarrow> 'st api_handler" where
  "api_put_blob ops w i body = then_do (on_storage (so_put_blob ops w i body)) (\<lambda>result.
     lift_result (upload_response ObjectHashMismatch result))"

definition api_get_manifest :: "'st Storage \<Rightarrow> WorkspaceId \<Rightarrow> ManifestId \<Rightarrow> 'st api_handler" where
  "api_get_manifest ops w m = then_do (on_storage (so_get_manifest ops w m)) (\<lambda>b. done_with (STATUS_OK, BytesBody b))"

definition api_put_manifest :: "'st Storage \<Rightarrow> WorkspaceId \<Rightarrow> ManifestId \<Rightarrow> bytes \<Rightarrow> 'st api_handler" where
  "api_put_manifest ops w m body = then_do (on_storage (so_put_manifest ops w m body)) (\<lambda>result.
     lift_result (upload_response ObjectHashMismatch result))"


section \<open>Routing and the service\<close>

text \<open>The route table, with the path parameters as they stand in the path (no parameter is empty).\<close>

datatype Route =
    HealthRoute
  | WorkspacesRoute
  | JoinRequestsRoute string
  | ApprovalRoute string string
  | AccessEventsRoute string
  | AccessStateRoute string
  | KeyEnvelopeRoute string string string
  | HeadRoute string
  | ManifestRoute string string
  | BlobRoute string string

definition match_workspace_route :: "string \<Rightarrow> string list \<Rightarrow> Route option" where
  "match_workspace_route w tail = (case tail of
     [a] \<Rightarrow> (if a = ''head'' then Some (HeadRoute w) else None)
   | [a, b] \<Rightarrow>
       (if a = ''devices'' \<and> b = ''join-requests'' then Some (JoinRequestsRoute w)
        else if a = ''access'' \<and> b = ''events'' then Some (AccessEventsRoute w)
        else if a = ''access'' \<and> b = ''state'' then Some (AccessStateRoute w)
        else if a = ''manifests'' \<and> b \<noteq> [] then Some (ManifestRoute w b)
        else if a = ''blobs'' \<and> b \<noteq> [] then Some (BlobRoute w b)
        else None)
   | [a, b, c, d] \<Rightarrow>
       (if a = ''devices'' \<and> b = ''join-requests'' \<and> c \<noteq> [] \<and> d = ''approval''
        then Some (ApprovalRoute w c)
        else if a = ''keys'' \<and> b \<noteq> [] \<and> c = ''envelopes'' \<and> d \<noteq> []
        then Some (KeyEnvelopeRoute w b d)
        else None)
   | _ \<Rightarrow> None)"

definition match_route :: "string \<Rightarrow> Route option" where
  "match_route path =
    (if path = ''/health'' then Some HealthRoute
     else if path = ''/workspaces'' then Some WorkspacesRoute
     else (case strip_prefix path workspaces_prefix of
       None \<Rightarrow> None
     | Some rest \<Rightarrow> (case split_once CHR ''/'' rest of
         None \<Rightarrow> None
       | Some (w, tail) \<Rightarrow> if w = [] then None else match_workspace_route w (split_on CHR ''/'' tail))))"

text \<open>A \<^verbatim>\<open>Path\<close> extractor: percent escapes decoded, then the identifier's own parser.\<close>

definition path_param :: "server_env \<Rightarrow> (string \<Rightarrow> 'a protocol_result) \<Rightarrow> string \<Rightarrow> 'a option" where
  "path_param env parse s = Option.bind (en_percent env s)
     (\<lambda>s. case parse s of Ok i \<Rightarrow> Some i | Err _ \<Rightarrow> None)"

text \<open>The answer of the service: a handler's, or none when the framework rejects the request itself.\<close>

type_synonym 'st service = "('st, (StatusCode \<times> ResponseBody) option) handler"

definition respond :: "'st api_handler \<Rightarrow> 'st service" where
  "respond handler = then_do handler (\<lambda>r. done_with (Some r))"

definition reject :: "'st service" where
  "reject = done_with None"

definition with_param :: "'a option \<Rightarrow> ('a \<Rightarrow> 'st service) \<Rightarrow> 'st service" where
  "with_param p k = (case p of None \<Rightarrow> reject | Some x \<Rightarrow> k x)"

text \<open>A body extractor, with the limit of \<^verbatim>\<open>DefaultBodyLimit\<close>.\<close>

definition with_body :: "Request \<Rightarrow> 'st service \<Rightarrow> 'st service" where
  "with_body req k = (if length (rq_body req) > MAX_OBJECT_BODY_BYTES then reject else k)"

text \<open>A \<^verbatim>\<open>get\<close> route also answers \<^verbatim>\<open>HEAD\<close>.\<close>

definition is_get :: "Request \<Rightarrow> bool" where
  "is_get req \<longleftrightarrow> rq_method req = ''GET'' \<or> rq_method req = ''HEAD''"

definition route_workspace :: "Route \<Rightarrow> string option" where
  "route_workspace r = (case r of HealthRoute \<Rightarrow> None | WorkspacesRoute \<Rightarrow> None
     | JoinRequestsRoute w \<Rightarrow> Some w | ApprovalRoute w _ \<Rightarrow> Some w | AccessEventsRoute w \<Rightarrow> Some w
     | AccessStateRoute w \<Rightarrow> Some w | KeyEnvelopeRoute w _ _ \<Rightarrow> Some w | HeadRoute w \<Rightarrow> Some w
     | ManifestRoute w _ \<Rightarrow> Some w | BlobRoute w _ \<Rightarrow> Some w)"

definition workspace_service :: "server_env \<Rightarrow> 'st Storage \<Rightarrow> u64 \<Rightarrow> AuthenticatedDevice option \<Rightarrow> Request \<Rightarrow>
    Route \<Rightarrow> WorkspaceId \<Rightarrow> 'st service" where
  "workspace_service env ops now auth req route w = (case route of
     JoinRequestsRoute _ \<Rightarrow>
       (if rq_method req = ''POST'' then with_body req (respond (api_submit_join_request env ops now w req))
        else if is_get req then respond (api_list_join_requests env ops now w req) else reject)
   | ApprovalRoute _ j \<Rightarrow>
       (if rq_method req = ''POST''
        then with_param (path_param env parse_join_request_id j) (\<lambda>j.
               with_body req (respond (api_approve_join_request env ops now w j req)))
        else reject)
   | AccessEventsRoute _ \<Rightarrow>
       (if rq_method req = ''POST'' then with_body req (respond (api_apply_access_event env ops now w req))
        else reject)
   | AccessStateRoute _ \<Rightarrow>
       (if is_get req then respond (api_fetch_access_state env ops now w req) else reject)
   | KeyEnvelopeRoute _ k d \<Rightarrow>
       with_param (path_param env parse_key_id k) (\<lambda>k.
       with_param (path_param env parse_device_id d) (\<lambda>d.
         if rq_method req = ''PUT'' then with_body req (respond (api_put_key_envelope env ops now w k d req))
         else if is_get req then respond (api_fetch_key_envelope env ops now w k d req) else reject))
   | HeadRoute _ \<Rightarrow>
       (if rq_method req = ''PUT''
        then with_param auth (\<lambda>auth. with_body req (
               with_param (en_update_head env (rq_headers req) (rq_body req)) (\<lambda>request.
                 respond (api_update_head ops now w auth request))))
        else if is_get req then respond (api_get_head ops w) else reject)
   | ManifestRoute _ m \<Rightarrow>
       with_param (path_param env parse_manifest_id m) (\<lambda>m.
         if rq_method req = ''PUT'' then with_body req (respond (api_put_manifest ops w m (rq_body req)))
         else if is_get req then respond (api_get_manifest ops w m) else reject)
   | BlobRoute _ i \<Rightarrow>
       with_param (path_param env parse_blob_id i) (\<lambda>i.
         if rq_method req = ''PUT'' then with_body req (respond (api_put_blob ops w i (rq_body req)))
         else if is_get req then respond (api_get_blob ops w i) else reject)
   | _ \<Rightarrow> reject)"

definition route_request :: "server_env \<Rightarrow> 'st Storage \<Rightarrow> u64 \<Rightarrow> AuthenticatedDevice option \<Rightarrow> Request \<Rightarrow>
    'st service" where
  "route_request env ops now auth req =
    with_param (match_route (uri_path (rq_uri req))) (\<lambda>route. case route of
      HealthRoute \<Rightarrow> (if is_get req then respond (done_with (STATUS_OK, HealthBody)) else reject)
    | WorkspacesRoute \<Rightarrow>
        (if rq_method req = ''POST'' then with_body req (respond (api_create_workspace env ops now req))
         else reject)
    | _ \<Rightarrow> with_param (Option.bind (route_workspace route) (path_param env parse_workspace_id)) (\<lambda>w.
             workspace_service env ops now auth req route w))"

definition create_app :: "server_env \<Rightarrow> 'st Storage \<Rightarrow> u64 \<Rightarrow> Request \<Rightarrow> 'st service" where
  "create_app env ops now = workspace_auth_middleware (en_crypto env) (en_b64dec env) now
     (so_get_access_state ops) (route_request env ops now)"

end
