(* ===== verification/Server_Auth_Props.thy ===== *)
theory Server_Auth_Props
  imports Server_Auth Samples
begin

text \<open>
  What the replay cache remembers, exactly and over any history of checks; what an accepted request
  satisfies; that the middleware lets nothing else reach a sync handler; and the histories on which
  the cache forgets a request that is still inside the clock window.
\<close>

section \<open>Histories of the replay cache\<close>

definition check_key :: "ReplayCache \<Rightarrow> ReplayKey \<Rightarrow> u64 \<Rightarrow> ReplayCache \<times> unit server_result" where
  "check_key cache k t = check_and_record cache (rk_workspace_id k) (rk_device_id k) (rk_nonce k) t
     MAX_TIMESTAMP_SKEW_SECONDS"

fun run_checks :: "ReplayCache \<Rightarrow> (ReplayKey \<times> u64) list \<Rightarrow> ReplayCache" where
  "run_checks cache [] = cache"
| "run_checks cache ((k, t) # hs) = run_checks (fst (check_key cache k t)) hs"

definition cache_wf :: "ReplayCache \<Rightarrow> bool" where
  "cache_wf cache \<longleftrightarrow> distinct (map fst cache)"

definition still_kept :: "u64 \<Rightarrow> u64 \<Rightarrow> bool" where
  "still_kept t0 t \<longleftrightarrow> unat t \<le> unat t0 + 300"

lemma keep_iff: "saturating_sub64 t MAX_TIMESTAMP_SKEW_SECONDS \<le> t0 \<longleftrightarrow> still_kept t0 t"
proof -
  have "saturating_sub64 t MAX_TIMESTAMP_SKEW_SECONDS \<le> t0 \<longleftrightarrow> unat t - 300 \<le> unat t0"
    by (simp add: word_le_nat_alt unat_saturating_sub64 MAX_TIMESTAMP_SKEW_SECONDS_def)
  then show ?thesis by (auto simp: still_kept_def)
qed

lemma map_of_filter_snd:
  "distinct (map fst xs) \<Longrightarrow>
   map_of (filter (\<lambda>(_, v). P v) xs) k = (case map_of xs k of None \<Rightarrow> None
     | Some v \<Rightarrow> if P v then Some v else None)"
  by (induction xs) (auto split: option.splits simp: rev_image_eqI dest: map_of_SomeD)

lemma check_key_eq:
  "check_key cache k t =
    (let kept = filter (\<lambda>(_, t0). still_kept t0 t) cache
     in if map_of kept k \<noteq> None then (kept, Err ReplayDetected) else ((k, t) # kept, Ok ()))"
proof -
  have "(\<lambda>(_, t0). saturating_sub64 t MAX_TIMESTAMP_SKEW_SECONDS \<le> t0)
      = (\<lambda>(_ :: ReplayKey, t0). still_kept t0 t)"
    by (auto simp: fun_eq_iff keep_iff)
  then show ?thesis by (cases k) (simp add: check_key_def check_and_record_def Let_def)
qed

lemma check_key_wf: "cache_wf cache \<Longrightarrow> cache_wf (fst (check_key cache k t))"
  unfolding check_key_eq Let_def cache_wf_def
  by (auto simp: distinct_map_filter map_of_eq_None_iff)

lemma run_checks_wf: "cache_wf cache \<Longrightarrow> cache_wf (run_checks cache hs)"
  by (induction cache hs rule: run_checks.induct) (simp_all add: check_key_wf)

lemma run_checks_append: "run_checks cache (hs @ hs') = run_checks (run_checks cache hs) hs'"
  by (induction cache hs rule: run_checks.induct) simp_all

lemma check_key_detects_iff:
  assumes "cache_wf cache"
  shows "snd (check_key cache k t) = Err ReplayDetected \<longleftrightarrow> (\<exists>t0. map_of cache k = Some t0 \<and> still_kept t0 t)"
    and "snd (check_key cache k t) = Ok () \<longleftrightarrow> \<not> (\<exists>t0. map_of cache k = Some t0 \<and> still_kept t0 t)"
  using assms unfolding check_key_eq Let_def cache_wf_def
  by (auto simp: map_of_filter_snd split: option.splits if_splits dest: eq_key_imp_eq_value)

lemma check_key_lookup:
  assumes "cache_wf cache"
  shows "map_of (fst (check_key cache k t)) k' =
    (if k' = k \<and> snd (check_key cache k t) = Ok () then Some t
     else case map_of cache k' of None \<Rightarrow> None | Some t0 \<Rightarrow> if still_kept t0 t then Some t0 else None)"
  using assms unfolding check_key_eq Let_def cache_wf_def
  by (auto simp: map_of_filter_snd split: option.splits if_splits)

text \<open>An entry is in the cache exactly when its check was accepted and every later check kept it.\<close>

lemma run_checks_lookup:
  "map_of (run_checks [] hs) k = Some t0 \<longleftrightarrow>
    (\<exists>pre post. hs = pre @ (k, t0) # post \<and> snd (check_key (run_checks [] pre) k t0) = Ok ()
       \<and> (\<forall>t \<in> set (map snd post). still_kept t0 t))"
proof (induction hs rule: rev_induct)
  case Nil
  show ?case by simp
next
  case (snoc h hs)
  obtain k' t' where h: "h = (k', t')" by (cases h)
  have wf: "cache_wf (run_checks [] hs)" by (rule run_checks_wf) (simp add: cache_wf_def)
  let ?acc = "\<lambda>pre. snd (check_key (run_checks [] pre) k t0) = Ok ()"
  have last: "(\<exists>pre post. hs @ [h] = pre @ (k, t0) # post \<and> ?acc pre \<and> (\<forall>t \<in> set (map snd post). still_kept t0 t))
    \<longleftrightarrow> (h = (k, t0) \<and> ?acc hs) \<or> (still_kept t0 t' \<and> (\<exists>pre post. hs = pre @ (k, t0) # post \<and> ?acc pre
          \<and> (\<forall>t \<in> set (map snd post). still_kept t0 t)))" (is "?L \<longleftrightarrow> ?R1 \<or> ?R2")
  proof
    assume ?L
    then obtain pre post where *: "hs @ [h] = pre @ (k, t0) # post" "?acc pre"
        "\<forall>t \<in> set (map snd post). still_kept t0 t" by blast
    show "?R1 \<or> ?R2"
    proof (cases post rule: rev_cases)
      case Nil
      then show ?thesis using * by simp
    next
      case (snoc post' x)
      then have "hs = pre @ (k, t0) # post'" "h = x" using *(1) by simp_all
      then show ?thesis using * snoc h by auto
    qed
  next
    assume "?R1 \<or> ?R2"
    then show ?L
    proof
      assume ?R1
      then show ?L by (intro exI[of _ hs] exI[of _ "[]"]) simp
    next
      assume ?R2
      then obtain pre post where "hs = pre @ (k, t0) # post" "?acc pre"
        "\<forall>t \<in> set (map snd post). still_kept t0 t" "still_kept t0 t'" by blast
      then show ?L by (intro exI[of _ pre] exI[of _ "post @ [h]"]) (simp add: h)
    qed
  qed
  have "map_of (run_checks [] (hs @ [h])) k = map_of (fst (check_key (run_checks [] hs) k' t')) k"
    by (simp add: run_checks_append h)
  also have "\<dots> = Some t0 \<longleftrightarrow> (h = (k, t0) \<and> ?acc hs)
      \<or> (still_kept t0 t' \<and> map_of (run_checks [] hs) k = Some t0)"
    unfolding check_key_lookup[OF wf] check_key_detects_iff(2)[OF wf]
    by (auto simp: h split: option.splits)
  finally show ?case unfolding last snoc.IH .
qed

text \<open>
  Property C15: exactly which requests the replay cache refuses.  After any history of checks, a
  request is refused as a replay if and only if an earlier check with the same workspace, device and
  nonce was accepted and no timestamp checked since, this request's included, is more than five
  minutes later than the accepted one.
\<close>

theorem replay_detection_exact:
  "snd (check_key (run_checks [] hs) k t) = Err ReplayDetected \<longleftrightarrow>
    (\<exists>pre t0 post. hs = pre @ (k, t0) # post \<and> snd (check_key (run_checks [] pre) k t0) = Ok ()
       \<and> (\<forall>t' \<in> set (map snd post @ [t]). unat t' \<le> unat t0 + 300))"
proof -
  have wf: "cache_wf (run_checks [] hs)" by (rule run_checks_wf) (simp add: cache_wf_def)
  show ?thesis
    unfolding check_key_detects_iff(1)[OF wf] run_checks_lookup by (auto simp: still_kept_def)
qed

definition sample_key :: "string \<Rightarrow> ReplayKey" where
  "sample_key n = \<lparr>rk_workspace_id = sample_workspace, rk_device_id = DeviceId ''device_a'',
     rk_nonce = RequestNonce n\<rparr>"

theorem replay_detection_exact_witness:
  "snd (check_key (run_checks [] [(sample_key ''a'', 1000), (sample_key ''b'', 1200)]) (sample_key ''a'') 1100)
    = Err ReplayDetected"
proof (rule replay_detection_exact[THEN iffD2])
  let ?hs = "[(sample_key ''a'', 1000), (sample_key ''b'', 1200)] :: (ReplayKey \<times> u64) list"
  have "?hs = [] @ (sample_key ''a'', 1000) # [(sample_key ''b'', 1200)]
      \<and> snd (check_key (run_checks [] []) (sample_key ''a'') 1000) = Ok ()
      \<and> (\<forall>t' \<in> set (map snd [(sample_key ''b'', 1200 :: u64)] @ [1100]).
            unat t' \<le> unat (1000 :: u64) + 300)"
    by (simp add: check_key_eq)
  then show "\<exists>pre t0 post. ?hs = pre @ (sample_key ''a'', t0) # post
      \<and> snd (check_key (run_checks [] pre) (sample_key ''a'') t0) = Ok ()
      \<and> (\<forall>t' \<in> set (map snd post @ [1100]). unat t' \<le> unat t0 + 300)"
    by blast
qed


section \<open>Accepted requests\<close>

text \<open>What the five guards before the replay check establish about a request for a workspace.\<close>

definition authentic :: "crypto \<Rightarrow> u64 \<Rightarrow> AccessState \<Rightarrow> SignedHttpRequest \<Rightarrow> bool" where
  "authentic cx now s r \<longleftrightarrow>
     unat (abs_diff64 now (hs_timestamp (sr_input r))) \<le> 300
     \<and> (\<exists>d. active_device_record s (hs_device_id (sr_input r)) = Ok d \<and> verify_with_device cx r d = Ok ()
          \<and> dr_device_id d = hs_device_id (sr_input r)
          \<and> cr_verify cx (dr_signing_public_key d)
              (device_signature_payload (canonical_payload (sr_input r))) (sr_signature r))"

definition request_key :: "WorkspaceId \<Rightarrow> SignedHttpRequest \<Rightarrow> ReplayKey" where
  "request_key w r = \<lparr>rk_workspace_id = w, rk_device_id = hs_device_id (sr_input r),
     rk_nonce = hs_nonce (sr_input r)\<rparr>"

lemma check_and_record_key:
  "check_and_record cache w (hs_device_id (sr_input r)) (hs_nonce (sr_input r)) t
      MAX_TIMESTAMP_SKEW_SECONDS = check_key cache (request_key w r) t"
  by (simp add: check_key_def request_key_def)

lemma validate_timestamp_Ok_iff [simp]:
  "validate_timestamp now t = Ok u \<longleftrightarrow> unat (abs_diff64 now t) \<le> 300"
  by (auto simp: validate_timestamp_def MAX_TIMESTAMP_SKEW_SECONDS_def word_less_nat_alt)

lemma post_on_storage [post_simps]:
  "post (on_storage m) st P \<longleftrightarrow> post m (app_storage st) (\<lambda>s r. P (st\<lparr>app_storage := s\<rparr>) r)"
  by (simp add: post_def on_storage_def split: prod.splits)

lemma post_record_nonce [post_simps]:
  "post (record_nonce w (hs_device_id (sr_input r)) (hs_nonce (sr_input r)) t) st P \<longleftrightarrow>
    (case check_key (app_replay_cache st) (request_key w r) t of
       (cache, res) \<Rightarrow> P (st\<lparr>app_replay_cache := cache\<rparr>) res)"
  by (simp add: post_def record_nonce_def check_and_record_key split: prod.splits)

text \<open>What a successful authentication has established, and the little any other one changes.\<close>

definition authorised :: "crypto \<Rightarrow> (string \<Rightarrow> bytes option) \<Rightarrow> u64 \<Rightarrow> AccessState \<Rightarrow> WorkspacePermission \<Rightarrow>
    Request \<Rightarrow> DeviceId \<Rightarrow> bool" where
  "authorised cx b64dec now a perm req d \<longleftrightarrow>
     (\<exists>r. signed_http_request_from_headers cx b64dec (rq_method req) (rq_uri req) (rq_headers req)
            (rq_body req) = Ok r
        \<and> authentic cx now a r \<and> d = hs_device_id (sr_input r) \<and> require_permission a d perm = Ok ())"

lemma authenticate_post:
  "post (authenticate cx b64dec now get w perm (rq_method req) (rq_uri req) (rq_headers req) (rq_body req)) st
    (\<lambda>st' res. case res of
       Ok dev \<Rightarrow> (\<exists>r s a cache. signed_http_request_from_headers cx b64dec (rq_method req) (rq_uri req)
               (rq_headers req) (rq_body req) = Ok r
         \<and> get w (app_storage st) = (s, Ok a) \<and> authentic cx now a r
         \<and> check_key (app_replay_cache st) (request_key w r) (hs_timestamp (sr_input r)) = (cache, Ok ())
         \<and> require_permission a (hs_device_id (sr_input r)) perm = Ok ()
         \<and> dev = \<lparr>ad_workspace_id = w, ad_device_id = hs_device_id (sr_input r), ad_permission = perm\<rparr>
         \<and> st' = st\<lparr>app_storage := s, app_replay_cache := cache\<rparr>)
     | Err _ \<Rightarrow> app_storage st' \<in> {app_storage st, fst (get w (app_storage st))})"
proof -
  obtain s res where get: "get w (app_storage st) = (s, res)" by (cases "get w (app_storage st)")
  show ?thesis
    unfolding authenticate_def Let_def post_simps authentic_def
    by (auto simp: post_def get split: result.splits prod.splits)
qed

text \<open>
  Property C13: nothing reaches a sync handler unauthenticated.  When the path and method of a request
  are those of a sync endpoint, the middleware either answers with an error, having done no more to the
  storage than read the access state, or hands over to the handler a device that is an active member
  of the endpoint's workspace and holds the permission the endpoint needs, whose key verifies a
  signature over this method, path, body hash, length, time and nonce, within five minutes of the
  clock, and whose nonce the replay cache accepted.
\<close>

theorem middleware_guards_sync_routes:
  assumes "classify_workspace_sync_route m (uri_path (rq_uri req)) = Ok (Some c)"
    and "rq_method req = method_str m"
  shows "(\<exists>st' e. workspace_auth_middleware cx b64dec now get next_service req st = (st', Err e)
         \<and> app_storage st' \<in> {app_storage st, fst (get (se_workspace_id (ce_endpoint c)) (app_storage st))})
    \<or> (\<exists>cache r s a. signed_http_request_from_headers cx b64dec (rq_method req) (rq_uri req)
               (rq_headers req) (rq_body req) = Ok r
         \<and> get (se_workspace_id (ce_endpoint c)) (app_storage st) = (s, Ok a) \<and> authentic cx now a r
         \<and> require_permission a (hs_device_id (sr_input r)) (ce_required_permission c) = Ok ()
         \<and> length (rq_body req) \<le> MAX_AUTH_BODY_BYTES
         \<and> check_key (app_replay_cache st) (request_key (se_workspace_id (ce_endpoint c)) r)
              (hs_timestamp (sr_input r)) = (cache, Ok ())
         \<and> workspace_auth_middleware cx b64dec now get next_service req st =
             next_service (Some \<lparr>ad_workspace_id = se_workspace_id (ce_endpoint c),
                 ad_device_id = hs_device_id (sr_input r), ad_permission = ce_required_permission c\<rparr>)
               req (st\<lparr>app_storage := s, app_replay_cache := cache\<rparr>))"
proof -
  let ?w = "se_workspace_id (ce_endpoint c)" and ?p = "ce_required_permission c"
  note c = classify_Some[OF assms(1)]
  have target: "classify_auth_target (rq_method req) (rq_uri req) =
      Ok (Some \<lparr>at_workspace_id = ?w, at_required_permission = ?p\<rparr>)"
    using c assms(2) by (simp add: classify_auth_target_def auth_target_own_path)
  obtain st' auth where a: "authenticate cx b64dec now get ?w ?p
      (rq_method req) (rq_uri req) (rq_headers req) (rq_body req) st = (st', auth)" by fastforce
  have mid: "workspace_auth_middleware cx b64dec now get next_service req st =
    (if length (rq_body req) > MAX_AUTH_BODY_BYTES then (st, Err RequestBodyTooLarge)
     else case auth of Err e \<Rightarrow> (st', Err e) | Ok device \<Rightarrow> next_service (Some device) req st')"
    by (simp add: workspace_auth_middleware_def target a then_do_def lift_result_def fail_with_def)
  consider (large) "length (rq_body req) > MAX_AUTH_BODY_BYTES"
    | (refused) e where "\<not> length (rq_body req) > MAX_AUTH_BODY_BYTES" "auth = Err e"
    | (accepted) d where "\<not> length (rq_body req) > MAX_AUTH_BODY_BYTES" "auth = Ok d"
    by (cases auth) auto
  then show ?thesis
  proof cases
    case large
    then show ?thesis by (simp add: mid)
  next
    case refused
    then show ?thesis using postD[OF authenticate_post, OF a] by (simp add: mid)
  next
    case accepted
    then show ?thesis using postD[OF authenticate_post, OF a] by (simp add: mid) blast
  qed
qed

definition sample_headers :: "string \<Rightarrow> u64 \<Rightarrow> string \<Rightarrow> (string \<times> bytes) list" where
  "sample_headers device t nonce = [(DEVICE_ID_HEADER, str_bytes device),
     (TIMESTAMP_HEADER, str_bytes (show_u64 t)), (NONCE_HEADER, str_bytes nonce),
     (SIGNATURE_HEADER, str_bytes ''AQ'')]"

definition sample_b64dec :: "string \<Rightarrow> bytes option" where
  "sample_b64dec s = Some sample_signature"

definition sample_uri :: Uri where
  "sample_uri = \<lparr>uri_path = ''/workspaces/ws/head'', uri_path_and_query = Some ''/workspaces/ws/head''\<rparr>"

definition sample_request :: "string \<Rightarrow> u64 \<Rightarrow> string \<Rightarrow> Request" where
  "sample_request device t nonce = \<lparr>rq_method = ''GET'', rq_uri = sample_uri,
     rq_headers = sample_headers device t nonce, rq_body = []\<rparr>"

definition sample_service ::
  "ReplayCache \<Rightarrow> Request \<Rightarrow> unit AppState \<times> AuthenticatedDevice option server_result" where
  "sample_service cache request = workspace_auth_middleware sample_crypto sample_b64dec 300
     (\<lambda>_. done_with (sample_state 3)) (\<lambda>device _. done_with device) request
     \<lparr>app_storage = (), app_replay_cache = cache\<rparr>"

text \<open>The removed device is refused, so only the first alternative can hold for its request.\<close>

theorem middleware_guards_sync_routes_witness:
  "\<exists>st' e. workspace_auth_middleware sample_crypto sample_b64dec 300 (\<lambda>_. done_with (sample_state 4))
      (\<lambda>device _. done_with device) (sample_request ''device_b'' 10 ''n'')
      \<lparr>app_storage = (), app_replay_cache = []\<rparr> = (st', Err e)"
proof -
  let ?req = "sample_request ''device_b'' 10 ''n''"
  have route: "classify_workspace_sync_route Get (uri_path (rq_uri ?req)) =
      Ok (Some \<lparr>ce_endpoint = endpoint_head sample_workspace, ce_required_permission = ReadObjects\<rparr>)"
    by code_simp
  have m: "rq_method ?req = method_str Get" by (simp add: sample_request_def)
  have inactive: "\<not> is_ok (active_device_record (sample_state 4) (DeviceId ''device_b''))" by code_simp
  have "(case signed_http_request_from_headers sample_crypto sample_b64dec (rq_method ?req)
      (rq_uri ?req) (rq_headers ?req) (rq_body ?req) of Ok r \<Rightarrow> hs_device_id (sr_input r) = DeviceId ''device_b''
      | Err _ \<Rightarrow> True)" by code_simp
  then have not_authentic: "signed_http_request_from_headers sample_crypto sample_b64dec (rq_method ?req)
      (rq_uri ?req) (rq_headers ?req) (rq_body ?req) = Ok r \<Longrightarrow>
      \<not> authentic sample_crypto 300 (sample_state 4) r" for r
    using inactive by (auto simp: authentic_def)
  show ?thesis
    using middleware_guards_sync_routes[OF route m, of sample_crypto sample_b64dec 300
        "\<lambda>_. done_with (sample_state 4)" "\<lambda>device _. done_with device"
        "\<lparr>app_storage = (), app_replay_cache = []\<rparr>"] not_authentic
    by (elim disjE) (auto simp: done_with_def)
qed


definition sample_auth :: "ReplayCache \<Rightarrow> Request \<Rightarrow> unit AppState \<times> AuthenticatedDevice server_result" where
  "sample_auth cache r = authenticate sample_crypto sample_b64dec 300 (\<lambda>_. done_with (sample_state 3))
     sample_workspace ReadObjects (rq_method r) (rq_uri r) (rq_headers r) (rq_body r)
     \<lparr>app_storage = (), app_replay_cache = cache\<rparr>"

lemma sample_service_eq:
  "sample_service cache (sample_request d t n) =
    (let (st, auth) = sample_auth cache (sample_request d t n)
     in (st, and_then auth (\<lambda>device. Ok (Some device))))"
proof -
  have "classify_auth_target ''GET'' sample_uri =
      Ok (Some \<lparr>at_workspace_id = sample_workspace, at_required_permission = ReadObjects\<rparr>)" by code_simp
  then show ?thesis
    by (simp add: sample_service_def workspace_auth_middleware_def sample_request_def sample_auth_def
        then_do_def lift_result_def done_with_def split: prod.splits result.splits)
qed

section \<open>The window the cache does not cover\<close>


section \<open>What a request signature covers\<close>

lemma hd_be_bytes: "n < 256 ^ k \<Longrightarrow> be_bytes (Suc k) n = 0 # be_bytes k n"
proof (induction k arbitrary: n)
  case (Suc k)
  then have "be_bytes (Suc k) (n div 256) = 0 # be_bytes k (n div 256)"
    by (intro Suc.IH) (simp add: less_mult_imp_div_less mult.commute)
  then show ?case by (metis be_bytes.simps(2) append_Cons)
qed simp

lemma first_byte_of_field: "hd (wire_field (str_bytes s) @ t) = 0" if "length s < 256"
proof -
  have "length s < 256 ^ 7" using that by simp
  then have "be_bytes 8 (length s) = 0 # be_bytes 7 (length s)"
    using hd_be_bytes[of "length s" 7] by simp
  then show ?thesis by (simp add: wire_field_def)
qed

text \<open>
  Property C14: the signature of an HTTP request covers that request only.  The signed text determines
  the method, target, body hash, time, device, nonce and length (no field can absorb part of its
  neighbour), and it is never the signed bytes of an access event, a join request or a key envelope.
\<close>

theorem http_signature_unique:
  assumes "request_ok i" and "request_ok j"
  shows "(canonical_payload i = canonical_payload j \<longleftrightarrow> i = j)
    \<and> canonical_payload i \<noteq> event_signing_payload e
    \<and> canonical_payload i \<noteq> join_signing_payload r
    \<and> canonical_payload i \<noteq> envelope_signing_payload k"
proof -
  have "hd (event_signing_payload e) = 0" "hd (join_signing_payload r) = 0" "hd (envelope_signing_payload k) = 0"
    by (simp_all add: event_signing_payload_def join_signing_payload_def envelope_signing_payload_def
        envelope_context_bytes_def join_push_device_record_def Let_def push_simps
        push_access_event_append[of "_ @ _"] first_byte_of_field ACCESS_EVENT_DOMAIN_def
        DEVICE_JOIN_REQUEST_DOMAIN_def KEY_ENVELOPE_DOMAIN_def)
  then show ?thesis using canonical_payload_inj[OF assms] canonical_payload_first[of i] by auto
qed

definition sample_input :: "u64 \<Rightarrow> HttpRequestSignatureInput" where
  "sample_input n = signature_input sample_crypto (parts_new ''PUT'' ''/workspaces/ws/head'' [])
     (DeviceId ''device_a'') n (RequestNonce ''n'')"

theorem http_signature_unique_witness:
  "canonical_payload (sample_input 1) \<noteq> canonical_payload (sample_input 2)"
proof -
  have ok: "request_ok (sample_input n)" for n
  proof -
    have "CHR 0x0A \<notin> set ''PUT'' \<and> CHR 0x0A \<notin> set ''/workspaces/ws/head''
        \<and> list_all is_lower_hex (sha256_hex sample_crypto [])
        \<and> device_id_ok (DeviceId ''device_a'') \<and> nonce_ok (RequestNonce ''n'')" by code_simp
    then show ?thesis by (simp add: request_ok_def sample_input_def signature_input_def parts_new_def)
  qed
  show ?thesis using http_signature_unique[OF ok[of 1] ok[of 2]]
    by (simp add: sample_input_def signature_input_def)
qed

text \<open>
  Property C17: the authentication headers a client sends are read back as they were, for every device
  identifier and nonce the protocol admits and every 64-bit time, when the base64 decoder inverts the
  encoder.
\<close>

theorem auth_headers_round_trip:
  assumes "device_id_ok (ah_device_id h)" and "nonce_ok (ah_nonce h)"
    and "b64dec (cr_base64 cx (ah_signature h)) = Some (ah_signature h)"
  shows "(let v = to_header_values cx h in
     from_header_values b64dec (hv_device_id v) (hv_timestamp v) (hv_nonce v) (hv_signature v)) = Ok h"
proof -
  have "parse_device_id (device_id_str (ah_device_id h)) = Ok (ah_device_id h)"
    and "parse_nonce (nonce_str (ah_nonce h)) = Ok (ah_nonce h)" using assms(1,2) by simp_all
  then show ?thesis using assms(3)
    by (simp add: to_header_values_def from_header_values_def parse_signature_def Let_def
        del: and_then_Ok_iff parse_device_id_Ok_iff parse_nonce_Ok_iff)
qed

theorem auth_headers_round_trip_witness:
  "(let v = to_header_values sample_crypto \<lparr>ah_device_id = DeviceId ''device_a'', ah_timestamp = 7,
        ah_nonce = RequestNonce ''n'', ah_signature = sample_signature\<rparr> in
     from_header_values sample_b64dec (hv_device_id v) (hv_timestamp v) (hv_nonce v) (hv_signature v))
   = Ok \<lparr>ah_device_id = DeviceId ''device_a'', ah_timestamp = 7,
        ah_nonce = RequestNonce ''n'', ah_signature = sample_signature\<rparr>"
proof (rule auth_headers_round_trip, goal_cases)
  case 1
  have "device_id_ok (DeviceId ''device_a'')" by code_simp
  then show ?case by simp
next
  case 2
  have "nonce_ok (RequestNonce ''n'')" by code_simp
  then show ?case by simp
qed (simp add: sample_b64dec_def)

end
