(* ===== verification/Store_Spec.thy ===== *)
theory Store_Spec
  imports Storage Access_Spec
begin

text \<open>
  What the server may do to what it stores, without handlers, files or faults: a step relation on the
  view of the store.  A step is taken on behalf of one device, whose record's key signed the request;
  the rules are the permissions and conditions under which the store may change at all.
\<close>

section \<open>Steps\<close>

datatype StoreAction =
    CreateWorkspace AccessState
  | ApplyEvent SignedAccessEvent
  | SubmitJoin DeviceJoinRequest
  | DropJoin JoinRequestId
  | StoreObject bytes
  | MoveHead WorkspaceHead
  | StoreEnvelope KeyEnvelope bytes

definition pending_ids :: "StoreView \<Rightarrow> WorkspaceId \<Rightarrow> JoinRequestId set" where
  "pending_ids v w = {j. join_request_id_ok j \<and> vw_join v w j \<noteq> None}"

definition member_may :: "StoreView \<Rightarrow> WorkspaceId \<Rightarrow> DeviceRecord \<Rightarrow> WorkspacePermission \<Rightarrow> bool" where
  "member_may v w dev p \<longleftrightarrow> active_device_record (current_access v w) (dr_device_id dev) = Ok dev
     \<and> require_permission (current_access v w) (dr_device_id dev) p = Ok ()"

inductive store_step :: "crypto \<Rightarrow> WorkspaceId \<Rightarrow> DeviceRecord \<Rightarrow> StoreAction \<Rightarrow> StoreView \<Rightarrow> StoreView \<Rightarrow> bool"
  for cx w dev where
  create_workspace:
    "vw_access v w = None \<Longrightarrow> valid_access cx w s \<Longrightarrow>
     active_device_record s (dr_device_id dev) = Ok dev \<Longrightarrow> role_of s (dr_device_id dev) = Ok Owner \<Longrightarrow>
     store_step cx w dev (CreateWorkspace s) v (set_access w s v)"
| apply_event:
    "ev_workspace_id e = w \<Longrightarrow> ev_actor_device_id e = dr_device_id dev \<Longrightarrow>
     required_permission (ev_event e) = Some p \<Longrightarrow> member_may v w dev p \<Longrightarrow>
     verify_event_signature cx e dev = Ok () \<Longrightarrow>
     (\<And>j device role. ev_event e = DeviceJoined j device role \<Longrightarrow>
        \<exists>q. vw_join v w j = Some q \<and> jr_device q = device \<and> verify_for_workspace cx q w = Ok ()) \<Longrightarrow>
     apply_verified_event cx (current_access v w) e = (s, Ok ()) \<Longrightarrow>
     store_step cx w dev (ApplyEvent e) v (set_access w s v)"
| submit_join:
    "dr_device_id (jr_device q) = dr_device_id dev \<Longrightarrow> verify_for_workspace cx q w = Ok () \<Longrightarrow>
     join_request_id_ok (jr_request_id q) \<Longrightarrow> vw_join v w (jr_request_id q) = None \<Longrightarrow>
     as_revision (current_access v w) \<noteq> 0 \<Longrightarrow>
     \<not> is_active_member (current_access v w) (dr_device_id dev) \<Longrightarrow>
     finite (pending_ids v w) \<Longrightarrow> card (pending_ids v w) < 128 \<Longrightarrow>
     (\<And>j q'. j \<in> pending_ids v w \<Longrightarrow> vw_join v w j = Some q' \<Longrightarrow>
        dr_device_id (jr_device q') \<noteq> dr_device_id dev) \<Longrightarrow>
     store_step cx w dev (SubmitJoin q) v (set_join w (jr_request_id q) (Some q) v)"
| drop_join:
    "vw_join v w j = Some q \<Longrightarrow> is_active_member (current_access v w) (dr_device_id (jr_device q)) \<Longrightarrow>
     store_step cx w dev (DropJoin j) v (set_join w j None v)"
| store_object:
    "member_may v w dev WriteObjects \<Longrightarrow> vw_object v w (cr_sha256 cx b) = None \<Longrightarrow>
     store_step cx w dev (StoreObject b) v (set_object w (cr_sha256 cx b) b v)"
| move_head:
    "member_may v w dev UpdateHead \<Longrightarrow> vw_object v w mh \<noteq> None \<Longrightarrow>
     wh_workspace_id h = w \<Longrightarrow> wh_manifest_id h = Some (manifest_of_hash mh) \<Longrightarrow>
     unat (wh_revision h) = unat (wh_revision (current_head v w)) + 1 \<Longrightarrow>
     wh_updated_by h = Some (dr_device_id dev) \<Longrightarrow>
     store_step cx w dev (MoveHead h) v (set_head w h v)"
| store_envelope:
    "member_may v w dev ManageKeys \<Longrightarrow> ke_sender_device_id k = dr_device_id dev \<Longrightarrow> ke_workspace_id k = w \<Longrightarrow>
     verify_sender_signature cx k dev = Ok () \<Longrightarrow>
     active_device_record (current_access v w) (ke_recipient_device_id k) = Ok recipient \<Longrightarrow>
     ke_access_revision k = as_revision (current_access v w) \<Longrightarrow>
     vw_envelope v w (ke_key_id k) (ke_recipient_device_id k) = None \<Longrightarrow>
     store_step cx w dev (StoreEnvelope k b) v (set_envelope w (ke_key_id k) (ke_recipient_device_id k) b v)"

inductive_cases store_stepE: "store_step cx w dev a v v'"

definition device_steps :: "crypto \<Rightarrow> WorkspaceId \<Rightarrow> DeviceRecord \<Rightarrow> StoreView \<Rightarrow> StoreView \<Rightarrow> bool" where
  "device_steps cx w dev = (\<lambda>v v'. \<exists>a. store_step cx w dev a v v')\<^sup>*\<^sup>*"

lemma device_steps_refl [simp]: "device_steps cx w dev v v"
  by (simp add: device_steps_def)

lemma device_steps_one: "store_step cx w dev a v v' \<Longrightarrow> device_steps cx w dev v v'"
  unfolding device_steps_def by (rule r_into_rtranclp) blast

lemma device_steps_trans: "device_steps cx w dev u v \<Longrightarrow> device_steps cx w dev v v' \<Longrightarrow> device_steps cx w dev u v'"
  unfolding device_steps_def by (rule rtranclp_trans)

lemma view_update_simps [simp]:
  "vw_object (set_object w h b v) = update2 (vw_object v) w h (Some b)" "vw_envelope (set_object w h b v) = vw_envelope v"
  "vw_head (set_object w h b v) = vw_head v" "vw_access (set_object w h b v) = vw_access v"
  "vw_join (set_object w h b v) = vw_join v"
  "vw_object (set_envelope w k d b v) = vw_object v"
  "vw_envelope (set_envelope w k d b v) = update2 (vw_envelope v) w k ((vw_envelope v w k)(d := Some b))"
  "vw_head (set_envelope w k d b v) = vw_head v" "vw_access (set_envelope w k d b v) = vw_access v"
  "vw_join (set_envelope w k d b v) = vw_join v"
  "vw_object (set_head w wh v) = vw_object v" "vw_envelope (set_head w wh v) = vw_envelope v"
  "vw_head (set_head w wh v) = (vw_head v)(w := Some wh)" "vw_access (set_head w wh v) = vw_access v"
  "vw_join (set_head w wh v) = vw_join v"
  "vw_object (set_access w s v) = vw_object v" "vw_envelope (set_access w s v) = vw_envelope v"
  "vw_head (set_access w s v) = vw_head v" "vw_access (set_access w s v) = (vw_access v)(w := Some s)"
  "vw_join (set_access w s v) = vw_join v"
  "vw_object (set_join w j r v) = vw_object v" "vw_envelope (set_join w j r v) = vw_envelope v"
  "vw_head (set_join w j r v) = vw_head v" "vw_access (set_join w j r v) = vw_access v"
  "vw_join (set_join w j r v) = update2 (vw_join v) w j r"
  by (simp_all add: set_object_def set_envelope_def set_head_def set_access_def set_join_def)

lemma current_simps [simp]:
  "current_access (set_access w s v) u = (if u = w then s else current_access v u)"
  "current_access (set_object w h b v) u = current_access v u"
  "current_access (set_envelope w k d b v) u = current_access v u"
  "current_access (set_head w wh v) u = current_access v u"
  "current_access (set_join w j r v) u = current_access v u"
  "current_head (set_access w s v) u = current_head v u"
  "current_head (set_object w h b v) u = current_head v u"
  "current_head (set_envelope w k d b v) u = current_head v u"
  "current_head (set_head w wh v) u = (if u = w then wh else current_head v u)"
  "current_head (set_join w j r v) u = current_head v u"
  by (simp_all add: current_access_def current_head_def)


section \<open>Runs of the whole store\<close>

inductive store_run :: "crypto \<Rightarrow> StoreView \<Rightarrow> StoreView \<Rightarrow> bool" for cx where
  run_refl: "store_run cx v v"
| run_step: "store_run cx u v \<Longrightarrow> store_step cx w dev a v v' \<Longrightarrow> store_run cx u v'"

lemma device_steps_run: "device_steps cx w dev v v' \<Longrightarrow> store_run cx u v \<Longrightarrow> store_run cx u v'"
  unfolding device_steps_def by (induction rule: rtranclp_induct) (auto intro: run_step)

text \<open>Objects and envelopes, once stored, stay as they are.\<close>

lemma step_keeps_objects:
  "store_step cx w dev a v v' \<Longrightarrow> vw_object v u h = Some b \<Longrightarrow> vw_object v' u h = Some b"
  by (erule store_stepE) auto

lemma step_keeps_envelopes:
  "store_step cx w dev a v v' \<Longrightarrow> vw_envelope v u k d = Some b \<Longrightarrow> vw_envelope v' u k d = Some b"
  by (erule store_stepE) auto

lemma run_keeps_objects:
  "store_run cx v v' \<Longrightarrow> vw_object v u h = Some b \<Longrightarrow> vw_object v' u h = Some b"
  by (induction rule: store_run.induct) (auto dest: step_keeps_objects)

lemma run_keeps_envelopes:
  "store_run cx v v' \<Longrightarrow> vw_envelope v u k d = Some b \<Longrightarrow> vw_envelope v' u k d = Some b"
  by (induction rule: store_run.induct) (auto dest: step_keeps_envelopes)

text \<open>The head moves forward one revision at a time, and never to a manifest that is not stored.\<close>

definition head_stored :: "StoreView \<Rightarrow> WorkspaceId \<Rightarrow> bool" where
  "head_stored v w \<longleftrightarrow> (\<forall>m. wh_manifest_id (current_head v w) = Some m \<longrightarrow>
     (\<exists>h. m = manifest_of_hash h \<and> vw_object v w h \<noteq> None))"

lemma step_head:
  "store_step cx w dev a v v' \<Longrightarrow> current_head v' u = current_head v u
     \<or> u = w \<and> unat (wh_revision (current_head v' u)) = unat (wh_revision (current_head v u)) + 1"
  by (erule store_stepE) auto

lemma step_head_stored: "store_step cx w dev a v v' \<Longrightarrow> head_stored v u \<Longrightarrow> head_stored v' u"
  by (erule store_stepE) (fastforce simp: head_stored_def)+

lemma run_head_stored: "store_run cx v v' \<Longrightarrow> head_stored v u \<Longrightarrow> head_stored v' u"
  by (induction rule: store_run.induct) (auto dest: step_head_stored)

lemma run_head_revision:
  "store_run cx v v' \<Longrightarrow> unat (wh_revision (current_head v u)) \<le> unat (wh_revision (current_head v' u))"
proof (induction rule: store_run.induct)
  case (run_step a v w dev act v')
  then show ?case using step_head[OF run_step.hyps(2), of u] by auto
qed simp

text \<open>At most 128 join requests wait in a workspace, no two of one device.\<close>

definition pending_bounded :: "StoreView \<Rightarrow> WorkspaceId \<Rightarrow> bool" where
  "pending_bounded v w \<longleftrightarrow> finite (pending_ids v w) \<and> card (pending_ids v w) \<le> 128
     \<and> inj_on (\<lambda>j. map_option (\<lambda>q. dr_device_id (jr_device q)) (vw_join v w j)) (pending_ids v w)"

lemma pending_ids_set_join:
  "pending_ids (set_join w j r v) u = (if u = w \<and> join_request_id_ok j
     then (if r = None then pending_ids v w - {j} else insert j (pending_ids v w)) else pending_ids v u)"
  by (auto simp: pending_ids_def)

lemma step_pending_bounded:
  assumes "store_step cx w dev a v v'" and b: "pending_bounded v u"
  shows "pending_bounded v' u"
  using assms(1)
proof (cases rule: store_step.cases)
  case (submit_join q)
  show ?thesis
  proof (cases "u = w")
    case True
    let ?j = "jr_request_id q"
    have new: "?j \<notin> pending_ids v w" using submit_join by (simp add: pending_ids_def)
    have "inj_on (\<lambda>j. map_option (\<lambda>q. dr_device_id (jr_device q)) (vw_join v' w j)) (insert ?j (pending_ids v w))"
    proof (rule inj_onI)
      fix i j
      assume ij: "i \<in> insert ?j (pending_ids v w)" "j \<in> insert ?j (pending_ids v w)"
        and eq: "map_option (\<lambda>q. dr_device_id (jr_device q)) (vw_join v' w i)
               = map_option (\<lambda>q. dr_device_id (jr_device q)) (vw_join v' w j)"
      have other: "map_option (\<lambda>q. dr_device_id (jr_device q)) (vw_join v w k) \<noteq> Some (dr_device_id dev)"
        if "k \<in> pending_ids v w" for k
        using submit_join(11)[OF that] by auto
      show "i = j"
      proof (cases "i = ?j \<or> j = ?j")
        case True
        then show ?thesis using ij eq new submit_join(2,3) other[of i] other[of j] by (auto split: if_splits dest!: sym[of "Some _"])
      next
        case False
        then have "i \<in> pending_ids v w" "j \<in> pending_ids v w" using ij by auto
        moreover have "map_option (\<lambda>q. dr_device_id (jr_device q)) (vw_join v w i)
            = map_option (\<lambda>q. dr_device_id (jr_device q)) (vw_join v w j)"
          using eq False submit_join(2) by simp
        ultimately show ?thesis using b True by (auto simp: pending_bounded_def dest: inj_onD)
      qed
    qed
    then show ?thesis using True submit_join new
      by (simp add: pending_bounded_def pending_ids_set_join)
  next
    case False
    then show ?thesis using b submit_join(2) by (simp add: pending_bounded_def pending_ids_set_join)
  qed
next
  case (drop_join j q)
  have "pending_bounded (set_join w j None v) u"
  proof (cases "u = w")
    case True
    have "finite (pending_ids v w)" and "card (pending_ids v w) \<le> 128"
      and inj: "inj_on (\<lambda>j. map_option (\<lambda>q. dr_device_id (jr_device q)) (vw_join v w j)) (pending_ids v w)"
      using b True by (simp_all add: pending_bounded_def)
    moreover have sub: "pending_ids (set_join w j None v) w = pending_ids v w - {j}"
      by (auto simp: pending_ids_def)
    moreover have "inj_on (\<lambda>i. map_option (\<lambda>q. dr_device_id (jr_device q)) (vw_join (set_join w j None v) w i))
        (pending_ids v w - {j})"
      using inj by (auto simp: inj_on_def)
    ultimately show ?thesis using True by (simp add: pending_bounded_def card_Diff1_le order.trans[OF card_Diff1_le])
  next
    case False
    then show ?thesis using b by (simp add: pending_bounded_def pending_ids_set_join)
  qed
  then show ?thesis using drop_join by simp
qed (use b in \<open>simp_all add: pending_bounded_def pending_ids_def\<close>)

lemma run_pending_bounded: "store_run cx v v' \<Longrightarrow> pending_bounded v u \<Longrightarrow> pending_bounded v' u"
  by (induction rule: store_run.induct) (auto dest: step_pending_bounded)

text \<open>A workspace exists once and for all, and its access state is replaced only by events.\<close>

lemma step_access:
  assumes "store_step cx w dev a v v'"
  shows "vw_access v' u = vw_access v u \<or> u = w \<and>
    (vw_access v u = None \<and> (\<exists>s. vw_access v' u = Some s \<and> role_of s (dr_device_id dev) = Ok Owner)
     \<or> (\<exists>e s. vw_access v' u = Some s \<and> apply_verified_event cx (current_access v u) e = (s, Ok ())
          \<and> verify_event_signature cx e dev = Ok ()
          \<and> require_permission (current_access v u) (dr_device_id dev) (the (required_permission (ev_event e))) = Ok ()))"
  using assms by (cases rule: store_step.cases) (auto simp: member_may_def)

end
