(* ===== verification/Server_Contract.thy ===== *)
theory Server_Contract
  imports Server_Api Server_Auth_Props Store_Spec
begin

text \<open>
  The service over any storage that meets the contract does to the view of the store only what the
  store specification allows the device that signed the request: each handler, the routing and the
  middleware, with every storage call free to fail.
\<close>

section \<open>The signer of a request\<close>

definition request_signed :: "server_env \<Rightarrow> u64 \<Rightarrow> Request \<Rightarrow> DeviceRecord \<Rightarrow> bool" where
  "request_signed env now req dev \<longleftrightarrow>
     (\<exists>r. signed_http_request_from_headers (en_crypto env) (en_b64dec env) (rq_method req) (rq_uri req)
            (rq_headers req) (rq_body req) = Ok r
        \<and> unat (abs_diff64 now (hs_timestamp (sr_input r))) \<le> 300
        \<and> verify_with_device (en_crypto env) r dev = Ok ())"

definition identifiers_ok :: "server_env \<Rightarrow> bool" where
  "identifiers_ok env \<longleftrightarrow>
     (\<forall>b q. en_join env b = Ok q \<longrightarrow> join_request_id_ok (jr_request_id q))
   \<and> (\<forall>b c. en_create env b = Ok c \<longrightarrow> workspace_id_ok (cw_workspace_id c))
   \<and> (\<forall>b r j d role. en_apply env b = Ok r \<longrightarrow> ev_event (ae_event r) = DeviceJoined j d role \<longrightarrow> join_request_id_ok j)
   \<and> (\<forall>hs b u. en_update_head env hs b = Some u \<longrightarrow> manifest_id_ok (uh_manifest_id u))
   \<and> (\<forall>s. CHR ''%'' \<notin> set s \<longrightarrow> en_percent env s = Some s)"

definition signer_steps :: "server_env \<Rightarrow> u64 \<Rightarrow> Request \<Rightarrow> WorkspaceId \<Rightarrow> StoreView \<Rightarrow> StoreView \<Rightarrow> bool" where
  "signer_steps env now req w v v' \<longleftrightarrow>
     v' = v \<or> (\<exists>dev. request_signed env now req dev \<and> device_steps (en_crypto env) w dev v v')"

lemma signer_steps_refl [simp]: "signer_steps env now req w v v"
  by (simp add: signer_steps_def)

lemma signer_stepsI:
  "request_signed env now req dev \<Longrightarrow> store_step (en_crypto env) w dev a v v' \<Longrightarrow> signer_steps env now req w v v'"
  by (auto simp: signer_steps_def dest: device_steps_one)

text \<open>What a request leaves behind.\<close>

definition served :: "('st \<Rightarrow> StoreView) \<Rightarrow> ('st \<Rightarrow> bool) \<Rightarrow> server_env \<Rightarrow> u64 \<Rightarrow> Request \<Rightarrow> WorkspaceId \<Rightarrow>
    'st AppState \<Rightarrow> 'st AppState \<Rightarrow> bool" where
  "served view ok env now req w st st' \<longleftrightarrow> ok (app_storage st')
     \<and> signer_steps env now req w (view (app_storage st)) (view (app_storage st'))"

definition untouched :: "('st \<Rightarrow> StoreView) \<Rightarrow> ('st \<Rightarrow> bool) \<Rightarrow> 'st AppState \<Rightarrow> 'st AppState \<Rightarrow> bool" where
  "untouched view ok st st' \<longleftrightarrow> ok (app_storage st') \<and> view (app_storage st') = view (app_storage st)"

lemma untouched_served: "untouched view ok st st' \<Longrightarrow> served view ok env now req w st st'"
  by (simp add: untouched_def served_def)

lemma served_from: "untouched view ok st st1 \<Longrightarrow> served view ok env now req w st1 st2 \<Longrightarrow> served view ok env now req w st st2"
  by (simp add: untouched_def served_def)

text \<open>Walking through a handler: up to the one call that changes the store, every state is untouched.\<close>

lemma served_done: "untouched view ok st0 st \<Longrightarrow> post (done_with a) st (\<lambda>st' _. served view ok env now req w st0 st')"
  by (simp add: post_simps untouched_served)

lemma served_fail: "untouched view ok st0 st \<Longrightarrow> post (fail_with e) st (\<lambda>st' _. served view ok env now req w st0 st')"
  by (simp add: post_simps untouched_served)

lemma served_lift:
  "untouched view ok st0 st \<Longrightarrow> (\<And>a. r = Ok a \<Longrightarrow> post (k a) st (\<lambda>st' _. served view ok env now req w st0 st')) \<Longrightarrow>
   post (then_do (lift_result r) k) st (\<lambda>st' _. served view ok env now req w st0 st')"
  by (cases r) (simp_all add: post_simps untouched_served)

lemma served_read:
  assumes "untouched view ok st0 st"
    and "post m (app_storage st) (\<lambda>s r. ok s \<and> view s = view (app_storage st) \<and> Q r)"
    and "\<And>st1 a. untouched view ok st0 st1 \<Longrightarrow> Q (Ok a) \<Longrightarrow>
           post (k a) st1 (\<lambda>st' _. served view ok env now req w st0 st')"
  shows "post (then_do (on_storage m) k) st (\<lambda>st' _. served view ok env now req w st0 st')"
  unfolding post_simps
  by (rule post_mono[OF assms(2)])
     (use assms(1,3) in \<open>auto simp: untouched_def intro: untouched_served split: result.splits\<close>)

lemma served_write:
  assumes "untouched view ok st0 st"
    and "post m (app_storage st) (\<lambda>s _. ok s \<and> signer_steps env now req w (view (app_storage st0)) (view s))"
  shows "post (then_do (on_storage m) (\<lambda>a. lift_result (f a))) st (\<lambda>st' _. served view ok env now req w st0 st')"
    and "post (then_do (on_storage m) (\<lambda>a. done_with (g a))) st (\<lambda>st' _. served view ok env now req w st0 st')"
  unfolding post_simps
  by (rule post_mono[OF assms(2)], use assms(1) in \<open>auto simp: served_def untouched_def split: result.splits\<close>)+

lemma joined_is_member:
  assumes "apply_verified_event cx a e = (s, Ok ())" and "ev_event e = DeviceJoined j device role"
  shows "is_active_member s (dr_device_id device)"
proof -
  obtain nr s' where "event_arm a e nr = Ok s'" "s = commit_event s' (ev_event_id e) nr"
    using assms(1) by (auto simp: apply_verified_event_def split: result.splits)
  then show ?thesis using assms(2)
    by (auto simp: event_arm_def Let_def is_active_member_def active_membership_def membership_def
        insert_membership_def insert_device_record_def commit_event_def new_membership_def split: if_splits)
qed

lemma storage_after:
  "app_storage (st\<lparr>app_storage := s\<rparr>) = s" "st\<lparr>app_storage := s, app_storage := t\<rparr> = st\<lparr>app_storage := t\<rparr>"
  by simp_all

section \<open>The routes the middleware authenticates\<close>

lemma match_workspace_route_workspace:
  "match_workspace_route w tail = Some route \<Longrightarrow> route_workspace route = Some w"
  by (auto simp: match_workspace_route_def route_workspace_def split: list.splits if_splits)

lemma match_route_workspace:
  assumes "match_route path = Some route" and "route_workspace route = Some s"
  obtains tail where "path = workspaces_prefix @ s @ CHR ''/'' # tail" and "CHR ''/'' \<notin> set s"
    and "match_workspace_route s (split_on CHR ''/'' tail) = Some route"
proof -
  have "route \<noteq> HealthRoute" "route \<noteq> WorkspacesRoute" using assms(2) by (auto simp: route_workspace_def)
  then obtain a tail where path: "path = workspaces_prefix @ a @ CHR ''/'' # tail" "CHR ''/'' \<notin> set a"
    and m: "match_workspace_route a (split_on CHR ''/'' tail) = Some route"
    using assms(1) unfolding match_route_def
    by (auto simp: split_once_Some_iff split: if_splits option.splits)
  then show thesis using that match_workspace_route_workspace[OF m] assms(2) by simp
qed

lemma split_on_two: "split_on c s = [a, b] \<Longrightarrow> s = a @ c # b"
  using join_split_on[of c s] by simp

lemma split_on_one: "split_on c s = [a] \<Longrightarrow> s = a"
  using join_split_on[of c s] by simp

definition sync_tail :: "Route \<Rightarrow> string option" where
  "sync_tail route = (case route of HeadRoute _ \<Rightarrow> Some ''head'' | BlobRoute _ i \<Rightarrow> Some (''blobs/'' @ i)
     | ManifestRoute _ m \<Rightarrow> Some (''manifests/'' @ m) | _ \<Rightarrow> None)"

lemma match_sync_tail:
  "match_workspace_route w (split_on CHR ''/'' tail) = Some route \<Longrightarrow> sync_tail route = Some t \<Longrightarrow> tail = t"
  by (auto simp: match_workspace_route_def sync_tail_def split: list.splits if_splits
      dest!: split_on_one split_on_two)

definition put_permission :: "Route \<Rightarrow> WorkspacePermission" where
  "put_permission route = (case route of HeadRoute _ \<Rightarrow> UpdateHead | _ \<Rightarrow> WriteObjects)"

lemma sync_route_authenticated:
  assumes route: "match_route (uri_path uri) = Some route" "route_workspace route = Some s" "sync_tail route = Some t"
    and w: "path_param env parse_workspace_id s = Some w" and ids: "identifiers_ok env"
    and target: "classify_auth_target meth uri = Ok r"
  shows "\<exists>p. r = Some \<lparr>at_workspace_id = w, at_required_permission = p\<rparr>
    \<and> (meth = ''PUT'' \<longrightarrow> p = put_permission route)"
proof -
  obtain tail where path: "uri_path uri = workspaces_prefix @ s @ CHR ''/'' # tail" "CHR ''/'' \<notin> set s"
    and tail: "match_workspace_route s (split_on CHR ''/'' tail) = Some route"
    using match_route_workspace[OF route(1,2)] by blast
  have t: "tail = t" by (rule match_sync_tail[OF tail route(3)])
  have split: "split_workspace_route (uri_path uri) = Ok (Some (s, t))"
    using path t by (simp add: split_workspace_route_Some_iff)
  have starts: "starts_with (uri_path uri) workspaces_prefix" by (simp add: path(1) starts_with_def)
  have nonsync: "\<not> starts_with t ''devices/'' \<and> \<not> starts_with t ''access/'' \<and> \<not> starts_with t ''keys/''"
    using route(3) by (auto simp: sync_tail_def starts_with_def split: Route.splits)
  obtain m u p where m: "method_try_from meth = Ok m" and u: "parse_workspace_id s = Ok u"
    and p: "auth_permission_for_route_tail m t = Ok p"
    and r: "r = Some \<lparr>at_workspace_id = u, at_required_permission = p\<rparr>"
    using target nonsync starts
    by (auto simp: classify_auth_target_def classify_workspace_sync_auth_target_with_method_def
        is_non_sync_workspace_route_def classify_workspace_sync_auth_target_def split
        simp del: parse_workspace_id_Ok_iff)
  have "CHR ''%'' \<notin> set s" using u
    by (auto simp: workspace_id_ok_def valid_text_id_def list_all_iff id_char_def is_ascii_alphanumeric_def
        less_eq_char_def dest!: bspec)
  then have "en_percent env s = Some s" using ids by (simp add: identifiers_ok_def)
  then have "u = w" using w u by (auto simp: path_param_def simp del: parse_workspace_id_Ok_iff)
  moreover have "p = put_permission route" if "meth = ''PUT''"
  proof -
    have "m = Put" using m that by (simp add: method_try_from_def)
    then show ?thesis using p route(3)
      by (auto simp: auth_permission_for_route_tail_def sync_tail_def put_permission_def starts_with_def
          split: Route.splits if_splits)
  qed
  ultimately show ?thesis using r by blast
qed

text \<open>Requests that name no workspace or key \<^verbatim>\<open>.\<close> or \<^verbatim>\<open>..\<close>, which their parsers let through.\<close>

definition plain_request :: "server_env \<Rightarrow> Request \<Rightarrow> bool" where
  "plain_request env req \<longleftrightarrow> (case classify_auth_target (rq_method req) (rq_uri req) of
       Ok (Some t) \<Rightarrow> workspace_plain (at_workspace_id t) | _ \<Rightarrow> True)
   \<and> (case match_route (uri_path (rq_uri req)) of None \<Rightarrow> True
     | Some WorkspacesRoute \<Rightarrow>
         (case en_create env (rq_body req) of Ok c \<Rightarrow> workspace_plain (cw_workspace_id c) | Err _ \<Rightarrow> True)
     | Some route \<Rightarrow>
         (case Option.bind (route_workspace route) (path_param env parse_workspace_id) of
            Some w \<Rightarrow> workspace_plain w | None \<Rightarrow> True)
         \<and> (case route of KeyEnvelopeRoute _ k _ \<Rightarrow>
              (case path_param env parse_key_id k of Some k \<Rightarrow> key_plain k | None \<Rightarrow> True) | _ \<Rightarrow> True))"

lemma path_param_Some: "path_param env parse s = Some x \<Longrightarrow> \<exists>t. en_percent env s = Some t \<and> parse t = Ok x"
  by (cases "en_percent env s"; cases "parse (the (en_percent env s))") (auto simp: path_param_def)

lemma path_param_ok:
  "path_param env parse_device_id s = Some d \<Longrightarrow> device_id_ok d"
  "path_param env parse_join_request_id s = Some j \<Longrightarrow> join_request_id_ok j"
  "path_param env parse_blob_id s = Some i \<Longrightarrow> blob_id_ok i"
  "path_param env parse_manifest_id s = Some m \<Longrightarrow> manifest_id_ok m"
  by (auto dest!: path_param_Some)

text \<open>The service on a storage that meets the contract.\<close>

locale service = storage cx ops view inv
  for cx :: crypto and ops :: "'st Storage" and view :: "'st \<Rightarrow> StoreView" and inv :: "'st \<Rightarrow> bool"
begin

text \<open>An authenticated device is an active member with the permission, whose key signed the request.\<close>

lemma authenticate_law:
  assumes inv: "inv (app_storage st)" and w: "workspace_plain w" and cx: "en_crypto env = cx"
  shows "post (authenticate_request env ops now w perm req) st (\<lambda>st' r. inv (app_storage st')
    \<and> view (app_storage st') = view (app_storage st)
    \<and> (\<forall>auth. r = Ok auth \<longrightarrow> ad_workspace_id auth = w \<and> (\<exists>dev. request_signed env now req dev
         \<and> ad_device_id auth = dr_device_id dev \<and> member_may (view (app_storage st)) w dev perm)))"
  unfolding authenticate_request_def
proof (rule post_mono[OF authenticate_post], goal_cases)
  case (1 st' r)
  obtain s res where get: "so_get_access_state ops w (app_storage st) = (s, res)" by fastforce
  have law: "inv s \<and> view s = view (app_storage st) \<and> (\<forall>a. res = Ok a \<longrightarrow> a = current_access (view (app_storage st)) w)"
    using postD[OF get_access_state[OF inv w], OF get] .
  show ?case
  proof (cases r)
    case (Err e)
    then show ?thesis using 1 law inv get by auto
  next
    case (Ok auth)
    then obtain sr a cache where *: "signed_http_request_from_headers (en_crypto env) (en_b64dec env) (rq_method req)
          (rq_uri req) (rq_headers req) (rq_body req) = Ok sr"
        "res = Ok a" "authentic (en_crypto env) now a sr"
        "require_permission a (hs_device_id (sr_input sr)) perm = Ok ()"
        "auth = \<lparr>ad_workspace_id = w, ad_device_id = hs_device_id (sr_input sr), ad_permission = perm\<rparr>"
        "st' = st\<lparr>app_storage := s, app_replay_cache := cache\<rparr>"
      using 1 get by auto
    obtain dev where dev: "active_device_record a (hs_device_id (sr_input sr)) = Ok dev"
        "verify_with_device (en_crypto env) sr dev = Ok ()" "dr_device_id dev = hs_device_id (sr_input sr)"
        "unat (abs_diff64 now (hs_timestamp (sr_input sr))) \<le> 300"
      using *(3) unfolding authentic_def by blast
    then have "request_signed env now req dev" unfolding request_signed_def using *(1) by blast
    then show ?thesis using law Ok *(2,4,5,6) dev(1,3)
      by (intro conjI) (auto simp: member_may_def intro!: exI[of _ dev])
  qed
qed


text \<open>Applying an event for its authenticated actor.\<close>

lemma apply_event_law:
  assumes inv: "inv (app_storage st)" and w: "workspace_plain w" and cx: "en_crypto env = cx"
    and actor: "ev_actor_device_id e = dr_device_id dev" and p: "required_permission (ev_event e) = Some p"
    and may: "member_may (view (app_storage st)) w dev p"
    and pending: "\<And>j device role. ev_event e = DeviceJoined j device role \<Longrightarrow>
        \<exists>q. vw_join (view (app_storage st)) w j = Some q \<and> jr_device q = device \<and> verify_for_workspace cx q w = Ok ()"
  shows "post (verify_and_apply_access_event env ops w e) st (\<lambda>st' r. inv (app_storage st')
    \<and> (view (app_storage st') = view (app_storage st) \<and> \<not> is_ok r
       \<or> (\<exists>s. view (app_storage st') = set_access w s (view (app_storage st))
            \<and> apply_verified_event cx (current_access (view (app_storage st)) w) e = (s, Ok ())
            \<and> store_step cx w dev (ApplyEvent e) (view (app_storage st)) (view (app_storage st')))))"
proof (cases "ev_workspace_id e = w")
  case False
  then show ?thesis by (simp add: verify_and_apply_access_event_def post_simps inv)
next
  case True
  let ?v = "view (app_storage st)"
  let ?a = "current_access ?v w"
  show ?thesis
    unfolding verify_and_apply_access_event_def post_simps using True
  proof (simp add: post_simps, rule_tac post_mono[OF get_access_state[OF inv w]], goal_cases)
    case (1 s r)
    show ?case
    proof (cases r)
      case (Err x)
      then show ?thesis using 1 by simp
    next
      case (Ok a)
      then have a: "a = ?a" and s: "inv s" "view s = ?v" using 1 by simp_all
      have dev: "active_device_record ?a (ev_actor_device_id e) = Ok dev"
        using may actor by (simp add: member_may_def)
      obtain s' applied where ap: "apply_verified_event cx ?a e = (s', applied)" by fastforce
      show ?thesis
      proof (cases "verify_event_signature cx e dev = Ok () \<and> applied = Ok ()")
        case False
        then show ?thesis using s dev ap
          by (cases "verify_event_signature cx e dev"; cases applied)
             (auto simp: Ok a cx post_simps split: result.splits)
      next
        case verified: True
        have step: "store_step cx w dev (ApplyEvent e) ?v (set_access w s' ?v)"
          by (rule store_step.apply_event[OF True actor p may conjunct1[OF verified] pending])
             (use ap verified in simp_all)
        show ?thesis
          unfolding Ok result.case a cx dev ap conjunct1[OF verified] conjunct2[OF verified] map_err.simps
            prod.case post_simps storage_after
          by (rule post_mono[OF save_access_state[OF s(1) w, of s']]) (use step s ap verified in \<open>auto split: result.splits\<close>)
      qed
    qed
  qed
qed

text \<open>Admitting a device: the event, then the removal of its request.\<close>

lemma admit_law:
  assumes inv: "inv (app_storage st)" and w: "workspace_plain w" and cx: "en_crypto env = cx"
    and actor: "ev_actor_device_id e = dr_device_id dev" and p: "required_permission (ev_event e) = Some p"
    and may: "member_may (view (app_storage st)) w dev p" and j: "join_request_id_ok j"
    and signed: "request_signed env now req dev"
  shows "post (admit_pending_device env ops w j e) st (\<lambda>st' _. served view inv env now req w st st')"
proof -
  let ?v = "view (app_storage st)"
  show ?thesis
    unfolding admit_pending_device_def post_simps
  proof (rule post_mono[OF get_join_request[OF inv w j]], goal_cases)
    case (1 s r)
    then have s: "inv s" "view s = ?v" and r: "\<And>q. r = Ok (Some q) \<Longrightarrow> vw_join ?v w j = Some q" by auto
    have unchanged: "served view inv env now req w st (st\<lparr>app_storage := s\<rparr>)" using s by (simp add: served_def)
    consider (none) "\<forall>q. r \<noteq> Ok (Some q)" | (some) q where "r = Ok (Some q)" by blast
    then show ?case
    proof cases
      case none
      then have "\<not> is_ok r \<or> r = Ok None" by (cases r) auto
      then show ?thesis using unchanged by (auto simp: not_is_ok_iff)
    next
      case (some q)
      have q: "vw_join ?v w j = Some q" using r some .
      then have id: "jr_request_id q = j" using joins_addressed[OF inv w j] by blast
      show ?thesis
      proof (cases "verify_for_workspace cx q w = Ok () \<and> event_verify_join_request e q = Ok ()")
        case False
        then show ?thesis using unchanged some cx
          by (cases "verify_for_workspace cx q w"; cases "event_verify_join_request e q") auto
      next
        case True
        have ok: "verify_for_workspace cx q w = Ok ()" "event_verify_join_request e q = Ok ()" using True by simp_all
        obtain role where ev: "ev_event e = DeviceJoined j (jr_device q) role"
          using ok(2) id by (auto simp: event_verify_join_request_Ok_iff)
        have pending: "\<exists>q. vw_join (view (app_storage (st\<lparr>app_storage := s\<rparr>))) w j' = Some q
            \<and> jr_device q = device \<and> verify_for_workspace cx q w = Ok ()"
          if "ev_event e = DeviceJoined j' device r'" for j' device r'
          using that ev q ok(1) s(2) by auto
        have law: "post (verify_and_apply_access_event env ops w e) (st\<lparr>app_storage := s\<rparr>) (\<lambda>st' r. inv (app_storage st')
            \<and> (view (app_storage st') = ?v \<and> \<not> is_ok r
               \<or> (\<exists>a. view (app_storage st') = set_access w a ?v
                    \<and> apply_verified_event cx (current_access ?v w) e = (a, Ok ())
                    \<and> store_step cx w dev (ApplyEvent e) ?v (view (app_storage st')))))"
          using apply_event_law[where st = "st\<lparr>app_storage := s\<rparr>", OF _ w cx actor p _ pending] s may by simp
        show ?thesis
          unfolding some result.case ok_or.simps cx ok map_err.simps
        proof (rule post_mono[OF law], goal_cases)
          case (1 st1 r1)
          show ?case
          proof (cases r1)
            case (Err x)
            then show ?thesis using 1 signed cx by (auto simp: served_def intro: signer_stepsI)
          next
            case (Ok a1)
            then obtain a where i1: "inv (app_storage st1)" and v1: "view (app_storage st1) = set_access w a ?v"
              and ap: "apply_verified_event cx (current_access ?v w) e = (a, Ok ())"
              and step1: "store_step cx w dev (ApplyEvent e) ?v (view (app_storage st1))" using 1 by auto
            have step2: "store_step cx w dev (DropJoin j) (view (app_storage st1))
                (set_join w j None (view (app_storage st1)))"
              by (rule store_step.drop_join[where q = q]) (use q v1 joined_is_member[OF ap ev] in simp_all)
            have "device_steps cx w dev ?v (view (app_storage st1))" by (rule device_steps_one[OF step1])
            moreover have "device_steps cx w dev ?v (set_join w j None (view (app_storage st1)))"
              using calculation device_steps_one[OF step2] by (rule device_steps_trans)
            ultimately show ?thesis unfolding Ok result.case
              by (intro post_mono[OF remove_join_request[OF i1 w j]])
                 (use signed cx in \<open>auto simp: served_def signer_steps_def split: if_splits result.splits\<close>)
          qed
        qed
      qed
    qed
  qed
qed

text \<open>The rule for authentication, and for the checks of a join request's and a new workspace's signer.\<close>

lemma served_auth:
  assumes "untouched view inv st0 st" and w: "workspace_plain w" and cx: "en_crypto env = cx"
    and k: "\<And>st1 auth dev. untouched view inv st0 st1 \<Longrightarrow> request_signed env now req dev \<Longrightarrow>
           ad_device_id auth = dr_device_id dev \<Longrightarrow> member_may (view (app_storage st0)) w dev perm \<Longrightarrow>
           post (k auth) st1 (\<lambda>st' _. served view inv env now req w st0 st')"
  shows "post (then_do (authenticate_request env ops now w perm req) k) st
    (\<lambda>st' _. served view inv env now req w st0 st')"
proof -
  have "inv (app_storage st)" "view (app_storage st) = view (app_storage st0)"
    using assms(1) by (simp_all add: untouched_def)
  note law = authenticate_law[OF this(1) w cx, where perm = perm and req = req and now = now, unfolded this(2)]
  show ?thesis unfolding post_simps
  proof (rule post_mono[OF law], goal_cases)
    case (1 st1 r)
    then have "untouched view inv st0 st1" by (simp add: untouched_def)
    then show ?case using 1 k by (cases r) (auto intro: untouched_served)
  qed
qed

lemma authenticate_empty_read:
  assumes "untouched view inv st0 st" and w: "workspace_plain w" and cx: "en_crypto env = cx"
    and k: "\<And>st1 auth. untouched view inv st0 st1 \<Longrightarrow>
           post (k auth) st1 (\<lambda>st' _. served view inv env now req w st0 st')"
  shows "post (then_do (authenticate_empty_body env ops now w perm req) k) st
    (\<lambda>st' _. served view inv env now req w st0 st')"
proof -
  have "inv (app_storage st)" "view (app_storage st) = view (app_storage st0)"
    using assms(1) by (simp_all add: untouched_def)
  note law = authenticate_law[OF this(1) w cx, where perm = perm and req = "req\<lparr>rq_body := []\<rparr>" and now = now,
      unfolded this(2)]
  show ?thesis unfolding post_simps authenticate_empty_body_def
  proof (rule post_mono[OF law], goal_cases)
    case (1 st1 r)
    then have "untouched view inv st0 st1" by (simp add: untouched_def)
    then show ?case using 1 k by (cases r) (auto intro: untouched_served)
  qed
qed

lemma join_signature_law:
  "post (verify_join_request_http_signature env now w req q) st (\<lambda>st' r. app_storage st' = app_storage st
    \<and> (is_ok r \<longrightarrow> request_signed env now req (jr_device q)))"
proof (cases "signed_http_request_from_headers (en_crypto env) (en_b64dec env)
      (rq_method req) (rq_uri req) (rq_headers req) (rq_body req)")
  case (Ok r)
  then show ?thesis
    by (auto simp: verify_join_request_http_signature_def post_def then_do_def lift_result_def fail_with_def
        record_nonce_def request_signed_def split: result.splits prod.splits)
qed (simp add: verify_join_request_http_signature_def post_simps)

lemma bootstrap_signature_law:
  "post (verify_bootstrap_signature env now req c) st (\<lambda>st' r. app_storage st' = app_storage st
    \<and> (is_ok r \<longrightarrow> (\<exists>dev. request_signed env now req dev
         \<and> active_device_record (cw_access_state c) (dr_device_id dev) = Ok dev
         \<and> role_of (cw_access_state c) (dr_device_id dev) = Ok Owner)))"
proof (cases "signed_http_request_from_headers (en_crypto env) (en_b64dec env)
      (rq_method req) (rq_uri req) (rq_headers req) (rq_body req)")
  case (Ok r)
  then show ?thesis
    by (auto simp: verify_bootstrap_signature_def post_def then_do_def lift_result_def fail_with_def
        record_nonce_def request_signed_def Let_def split: result.splits prod.splits)
qed (simp add: verify_bootstrap_signature_def post_simps)

text \<open>The same for a check that leaves the storage alone.\<close>

lemma served_check:
  assumes u: "untouched view inv st0 st"
    and law: "post m st (\<lambda>st' r. app_storage st' = app_storage st \<and> (is_ok r \<longrightarrow> Q))"
    and k: "\<And>st1 a. untouched view inv st0 st1 \<Longrightarrow> Q \<Longrightarrow>
           post (k a) st1 (\<lambda>st' _. served view inv env now req w st0 st')"
  shows "post (then_do m k) st (\<lambda>st' _. served view inv env now req w st0 st')"
  unfolding post_simps
proof (rule post_mono[OF law], goal_cases)
  case (1 st1 r)
  then have "untouched view inv st0 st1" using u by (simp add: untouched_def)
  then show ?case using 1 k by (cases r) (auto intro: untouched_served)
qed


subsection \<open>Handlers\<close>

lemma start: "inv (app_storage st) \<Longrightarrow> untouched view inv st st"
  by (simp add: untouched_def)

lemma untouchedD:
  "untouched view inv st0 st \<Longrightarrow> inv (app_storage st)"
  "untouched view inv st0 st \<Longrightarrow> view (app_storage st) = view (app_storage st0)"
  by (simp_all add: untouched_def)

text \<open>A read, its outcome given in terms of the view before the request.\<close>

lemma served_get_access:
  assumes "untouched view inv st0 st" and "workspace_plain w"
    and "\<And>st1. untouched view inv st0 st1 \<Longrightarrow>
           post (k (current_access (view (app_storage st0)) w)) st1 (\<lambda>st' _. served view inv env now req w st0 st')"
  shows "post (then_do (on_storage (so_get_access_state ops w)) k) st
    (\<lambda>st' _. served view inv env now req w st0 st')"
  using assms(3) untouchedD(2)[OF assms(1)]
  by (intro served_read[OF assms(1) get_access_state[OF untouchedD(1)[OF assms(1)] assms(2)]]) auto

lemma put_key_envelope_served:
  assumes inv: "inv (app_storage st)" and w: "workspace_plain w" and cx: "en_crypto env = cx"
    and k: "key_plain k" and d: "device_id_ok d"
  shows "post (api_put_key_envelope env ops now w k d req) st (\<lambda>st' _. served view inv env now req w st st')"
  unfolding api_put_key_envelope_def
proof (rule served_lift[OF start[OF inv]], rule served_lift[OF start[OF inv]],
    rule served_auth[OF start[OF inv] w cx], goal_cases)
  case (1 _ envelope st1 auth dev)
  let ?v = "view (app_storage st)"
  show ?case
  proof (cases "ad_device_id auth \<noteq> ke_sender_device_id envelope \<or> ke_workspace_id envelope \<noteq> w
      \<or> ke_key_id envelope \<noteq> k \<or> ke_recipient_device_id envelope \<noteq> d")
    case True
    then show ?thesis using 1(3) by (auto intro: served_fail)
  next
    case False
    then have fields: "ke_sender_device_id envelope = dr_device_id dev" "ke_workspace_id envelope = w"
      "ke_key_id envelope = k" "ke_recipient_device_id envelope = d" using 1(5) by auto
    show ?thesis
      unfolding if_not_P[OF False[unfolded de_Morgan_disj, THEN conjunct1]] using False
    proof (simp, intro served_get_access[OF 1(3) w] served_lift, goal_cases)
      case (4 st2 sender recipient u)
      then have u2: "untouched view inv st st2" and dev: "sender = dev"
        and r: "active_device_record (current_access ?v w) d = Ok recipient"
        and sg: "verify_sender_signature cx envelope dev = Ok ()"
        using 1(6) fields cx by (auto simp: member_may_def)
      show ?case
      proof (cases "ke_access_revision envelope = as_revision (current_access ?v w)")
        case False
        then show ?thesis using u2 by (simp add: served_fail)
      next
        case True
        have step: "store_step cx w dev (StoreEnvelope envelope (rq_body req)) ?v (set_envelope w k d (rq_body req) ?v)"
          if "vw_envelope ?v w k d = None"
          using store_step.store_envelope[OF 1(6) fields(1,2) sg, of recipient "rq_body req"] r True that fields(3,4)
          by simp
        note law = put_key_envelope[OF untouchedD(1)[OF u2] w k d, of "rq_body req", unfolded untouchedD(2)[OF u2]]
        have "post (so_put_key_envelope ops w k d (rq_body req)) (app_storage st2)
            (\<lambda>s _. inv s \<and> signer_steps env now req w ?v (view s))"
          by (rule post_mono[OF law])
             (use signer_stepsI[OF 1(4) step[folded cx]] in \<open>auto simp: Let_def split: result.splits PutResult.splits\<close>)
        then show ?thesis using True u2 by (simp add: served_write)
      qed
    qed auto
  qed
qed


lemma pending_requests_card:
  assumes inv: "inv st" and w: "workspace_plain w"
    and qs: "distinct qs" "set qs = {q. \<exists>j. join_request_id_ok j \<and> vw_join (view st) w j = Some q}"
  shows "finite (pending_ids (view st) w)" and "card (pending_ids (view st) w) \<le> length qs"
proof -
  have eq: "pending_ids (view st) w = jr_request_id ` set qs"
  proof
    show "jr_request_id ` set qs \<subseteq> pending_ids (view st) w"
      using joins_addressed[OF inv w] unfolding qs(2) by (auto simp: pending_ids_def)
    show "pending_ids (view st) w \<subseteq> jr_request_id ` set qs"
    proof
      fix j assume j: "j \<in> pending_ids (view st) w"
      then obtain q where q: "join_request_id_ok j" "vw_join (view st) w j = Some q" by (auto simp: pending_ids_def)
      then have "q \<in> set qs" "jr_request_id q = j" using joins_addressed[OF inv w q] unfolding qs(2) by auto
      then show "j \<in> jr_request_id ` set qs" by blast
    qed
  qed
  show "finite (pending_ids (view st) w)" "card (pending_ids (view st) w) \<le> length qs"
    unfolding eq using card_image_le[of "set qs" jr_request_id] distinct_card[OF qs(1)] by auto
qed

lemma submit_join_request_served:
  assumes inv: "inv (app_storage st)" and w: "workspace_plain w" and cx: "en_crypto env = cx"
    and ids: "identifiers_ok env"
  shows "post (api_submit_join_request env ops now w req) st (\<lambda>st' _. served view inv env now req w st st')"
  unfolding api_submit_join_request_def
proof (rule served_lift[OF start[OF inv]], rule served_lift[OF start[OF inv]],
    rule served_lift[OF start[OF inv]], rule served_check[OF start[OF inv] join_signature_law],
    rule served_get_access[OF _ w], assumption, goal_cases)
  case (1 _ q _ st1 a st2)
  let ?v = "view (app_storage st)"
  let ?dev = "jr_device q"
  note signed = 1(5) and u2 = 1(6)
  have qok: "verify_for_workspace cx q w = Ok ()" using 1(3) cx by simp
  have j: "join_request_id_ok (jr_request_id q)" using 1(2) ids by (auto simp: parse_json_def identifiers_ok_def)
  have submit: "post (then_do (on_storage (so_submit_join_request ops w q))
      (\<lambda>result. lift_result (join_submission_response (jr_request_id q) result))) st3
      (\<lambda>st' _. served view inv env now req w st st')"
    if u3: "untouched view inv st st3"
      and free: "vw_join ?v w (jr_request_id q) = None \<Longrightarrow>
        signer_steps env now req w ?v (set_join w (jr_request_id q) (Some q) ?v)" for st3
  proof (rule served_write(1)[OF u3])
    note law = submit_join_request[OF untouchedD(1)[OF u3] w j, unfolded untouchedD(2)[OF u3]]
    show "post (so_submit_join_request ops w q) (app_storage st3)
        (\<lambda>s _. inv s \<and> signer_steps env now req w ?v (view s))"
      by (rule post_mono[OF law]) (use free in \<open>auto simp: Let_def split: result.splits JoinRequestPutResult.splits\<close>)
  qed
  show ?case
  proof (cases "as_revision (current_access ?v w) = 0 \<or> is_active_member (current_access ?v w) (dr_device_id ?dev)")
    case True
    then show ?thesis using u2 by (auto intro: served_fail)
  next
    case False
    then have member: "as_revision (current_access ?v w) \<noteq> 0"
      "\<not> is_active_member (current_access ?v w) (dr_device_id ?dev)" by simp_all
    note get = get_join_request[OF untouchedD(1)[OF u2] w j, unfolded untouchedD(2)[OF u2]]
    have reads: "view (app_storage st2) = ?v" by (rule untouchedD(2)[OF u2])
    show ?thesis
      unfolding if_not_P[OF member(1)] if_not_P[OF member(2)] Let_def
    proof (rule served_read[OF u2, of _ "\<lambda>r. \<forall>o'. r = Ok o' \<longrightarrow> o' = vw_join ?v w (jr_request_id q)"], goal_cases)
      case 1
      show ?case using get unfolding reads .
    next
      case (2 st3 known)
      then have known: "known = vw_join ?v w (jr_request_id q)" by simp
      show ?case
      proof (cases "known = None")
        case False
        then have "vw_join ?v w (jr_request_id q) \<noteq> None" using known by simp
        then show ?thesis unfolding if_P[OF False] by (intro submit[OF 2(1)]) blast
      next
        case True
        note lst = list_join_requests[OF untouchedD(1)[OF 2(1)] w, unfolded untouchedD(2)[OF 2(1)]]
        show ?thesis
          using True
        proof (simp, intro served_read[OF 2(1), of _ "\<lambda>r. \<forall>qs. r = Ok qs \<longrightarrow> distinct qs
            \<and> set qs = {q. \<exists>j. join_request_id_ok j \<and> vw_join ?v w j = Some q}"], goal_cases)
          case 1
          show ?case using lst unfolding untouchedD(2)[OF 2(1)] .
        next
          case (2 st4 qs)
          then have qs: "distinct qs" "set qs = {q. \<exists>j. join_request_id_ok j \<and> vw_join ?v w j = Some q}" by simp_all
          have u4: "untouched view inv st st4" using 2 by simp
          note card = pending_requests_card[OF inv w qs]
          show ?case
          proof (cases "find (\<lambda>p. dr_device_id (jr_device p) = dr_device_id ?dev) qs")
            case (Some q')
            show ?thesis unfolding Some option.case by (rule served_done[OF u4])
          next
            case None
            show ?thesis
            proof (cases "128 \<le> length qs")
              case True
              then show ?thesis using None u4
                by (simp add: served_fail MAX_PENDING_JOIN_REQUESTS_PER_WORKSPACE_def)
            next
              case False
              have "store_step cx w ?dev (SubmitJoin q) ?v (set_join w (jr_request_id q) (Some q) ?v)"
                if "vw_join ?v w (jr_request_id q) = None"
              proof (rule store_step.submit_join[OF refl qok j that member card(1)])
                show "card (pending_ids ?v w) < 128" using card(2) False by simp
                fix i q' assume "i \<in> pending_ids ?v w" "vw_join ?v w i = Some q'"
                then have "q' \<in> set qs" unfolding qs(2) by (auto simp: pending_ids_def)
                then show "dr_device_id (jr_device q') \<noteq> dr_device_id ?dev" using None by (auto simp: find_None_iff)
              qed
              then have "signer_steps env now req w ?v (set_join w (jr_request_id q) (Some q) ?v)"
                if "vw_join ?v w (jr_request_id q) = None" using that signed cx by (blast intro: signer_stepsI)
              from submit[OF u4 this] show ?thesis using None False
                by (simp add: MAX_PENDING_JOIN_REQUESTS_PER_WORKSPACE_def)
            qed
          qed
        qed
      qed
    qed
  qed
qed


text \<open>Approval authenticates for \<^verbatim>\<open>ManageDevices\<close>, which is what a joining event requires; any
  other event is refused for not matching the request.\<close>

lemma admit_or_refuse:
  assumes inv: "inv (app_storage st)" and w: "workspace_plain w" and cx: "en_crypto env = cx"
    and actor: "ev_actor_device_id e = dr_device_id dev"
    and may: "member_may (view (app_storage st)) w dev ManageDevices" and j: "join_request_id_ok j"
    and signed: "request_signed env now req dev"
  shows "post (admit_pending_device env ops w j e) st (\<lambda>st' _. served view inv env now req w st st')"
proof (cases "required_permission (ev_event e) = Some ManageDevices")
  case True
  then show ?thesis using admit_law[OF inv w cx actor _ may j signed] by simp
next
  case False
  have refused: "event_verify_join_request e q \<noteq> Ok ()" for q
    using False by (auto simp: event_verify_join_request_Ok_iff)
  show ?thesis unfolding admit_pending_device_def
  proof (rule served_read[OF start[OF inv], of _ "\<lambda>_. True"], goal_cases)
    case 1
    show ?case using get_join_request[OF inv w j] by (rule post_mono) simp
  next
    case (2 st1 r)
    then show ?case by (intro served_lift) (simp_all add: refused)
  qed
qed

lemma apply_access_event_served:
  assumes inv: "inv (app_storage st)" and w: "workspace_plain w" and cx: "en_crypto env = cx"
    and ids: "identifiers_ok env"
  shows "post (api_apply_access_event env ops now w req) st (\<lambda>st' _. served view inv env now req w st st')"
  unfolding api_apply_access_event_def Let_def
proof (rule served_lift[OF start[OF inv]], rule served_lift[OF start[OF inv]],
    rule served_lift[OF start[OF inv]], rule served_auth[OF start[OF inv] w cx], goal_cases)
  case (1 _ request perm st1 auth dev)
  let ?v = "view (app_storage st)" and ?e = "ae_event request"
  have perm: "required_permission (ev_event ?e) = Some perm" using 1(3) by (cases "required_permission (ev_event ?e)") auto
  have i1: "inv (app_storage st1)" and v1: "view (app_storage st1) = ?v" using untouchedD[OF 1(4)] by simp_all
  have finish: "post (then_do m (\<lambda>a. done_with (STATUS_OK, AccessStateBody a))) st1 (\<lambda>st' _. served view inv env now req w st st')"
    if "post m st1 (\<lambda>st' _. served view inv env now req w st1 st')" for m :: "('st, AccessState) handler"
    unfolding post_simps
    by (rule post_mono[OF that]) (auto intro: served_from[OF 1(4)] split: result.splits)
  show ?case
  proof (cases "ad_device_id auth = ev_actor_device_id ?e")
    case False
    then show ?thesis using 1(4) by (simp add: served_fail)
  next
    case True
    then have actor: "ev_actor_device_id ?e = dr_device_id dev" using 1(6) by simp
    have may: "member_may (view (app_storage st1)) w dev perm" using 1(7) v1 by simp
    have "post (case ev_event ?e of DeviceJoined j _ _ \<Rightarrow> admit_pending_device env ops w j ?e
           | _ \<Rightarrow> verify_and_apply_access_event env ops w ?e) st1 (\<lambda>st' _. served view inv env now req w st1 st')"
    proof (cases "\<exists>j d r. ev_event ?e = DeviceJoined j d r")
      case True
      then obtain j d r where ev: "ev_event ?e = DeviceJoined j d r" by blast
      have "join_request_id_ok j" using 1(2) ids ev by (auto simp: parse_json_def identifiers_ok_def)
      then show ?thesis using admit_law[OF i1 w cx actor perm may _ 1(5)] ev by simp
    next
      case False
      have "post (verify_and_apply_access_event env ops w ?e) st1 (\<lambda>st' _. served view inv env now req w st1 st')"
        by (rule post_mono[OF apply_event_law[OF i1 w cx actor perm may]])
           (use False 1(5) cx in \<open>auto simp: served_def intro: signer_stepsI\<close>)
      then show ?thesis using False by (auto split: AccessEvent.splits)
    qed
    then show ?thesis using True by (simp add: finish)
  qed
qed

lemma approve_join_request_served:
  assumes inv: "inv (app_storage st)" and w: "workspace_plain w" and cx: "en_crypto env = cx"
    and j: "join_request_id_ok j"
  shows "post (api_approve_join_request env ops now w j req) st (\<lambda>st' _. served view inv env now req w st st')"
  unfolding api_approve_join_request_def
proof (rule served_lift[OF start[OF inv]], rule served_lift[OF start[OF inv]], goal_cases)
  case (1 _ request)
  let ?e = "aj_event request"
  show ?case
  proof (cases "aj_join_request_id request = j")
    case False
    then show ?thesis using start[OF inv] by (simp add: served_fail)
  next
    case True
    have "post (then_do (authenticate_request env ops now w ManageDevices req) (\<lambda>auth.
        if ad_device_id auth \<noteq> ev_actor_device_id ?e
        then fail_with (invalid_access_event ''authenticated device does not match access event actor'')
        else then_do (admit_pending_device env ops w j ?e) (\<lambda>a. done_with (STATUS_OK, AccessStateBody a)))) st
      (\<lambda>st' _. served view inv env now req w st st')"
    proof (rule served_auth[OF start[OF inv] w cx], goal_cases)
      case (1 st1 auth dev)
      have v1: "view (app_storage st1) = view (app_storage st)" and i1: "inv (app_storage st1)"
        using untouchedD[OF 1(1)] by simp_all
      show ?case
      proof (cases "ad_device_id auth = ev_actor_device_id ?e")
        case False
        then show ?thesis using 1(1) by (simp add: served_fail)
      next
        case True
        then have actor: "ev_actor_device_id ?e = dr_device_id dev" using 1(3) by simp
        note admit = admit_or_refuse[OF i1 w cx actor 1(4)[folded v1] j 1(2)]
        show ?thesis using True unfolding post_simps
          by simp (rule post_mono[OF admit], auto intro: served_from[OF 1(1)] split: result.splits)
      qed
    qed
    then show ?thesis using True by simp
  qed
qed

lemma create_workspace_served:
  assumes inv: "inv (app_storage st)" and w: "workspace_plain w" and cx: "en_crypto env = cx"
    and ids: "\<And>c. en_create env (rq_body req) = Ok c \<Longrightarrow> cw_workspace_id c = w"
  shows "post (api_create_workspace env ops now req) st (\<lambda>st' _. served view inv env now req w st st')"
  unfolding api_create_workspace_def
proof (rule served_lift[OF start[OF inv]], rule served_lift[OF start[OF inv]],
    rule served_check[OF start[OF inv] bootstrap_signature_law], goal_cases)
  case (1 _ c st1 u)
  then have cw: "cw_workspace_id c = w" using ids by (simp add: parse_json_def)
  obtain dev where dev: "request_signed env now req dev"
    "active_device_record (cw_access_state c) (dr_device_id dev) = Ok dev"
    "role_of (cw_access_state c) (dr_device_id dev) = Ok Owner" using 1(4) by blast
  note law = create_access_state[OF untouchedD(1)[OF 1(3)] w, of "cw_access_state c", unfolded untouchedD(2)[OF 1(3)]]
  have "post (so_create_access_state ops w (cw_access_state c)) (app_storage st1)
      (\<lambda>s _. inv s \<and> signer_steps env now req w (view (app_storage st)) (view s))"
    by (rule post_mono[OF law])
       (use signer_stepsI[OF dev(1) store_step.create_workspace[OF _ _ dev(2,3)]] cx in \<open>auto simp: Let_def split: if_splits\<close>)
  then show ?case using 1(3) cw by (auto intro: served_fail served_write)
qed

lemma update_head_served:
  assumes u: "untouched view inv st0 st" and w: "workspace_plain w" and cx: "en_crypto env = cx"
    and m: "manifest_id_ok (uh_manifest_id request)" and dev: "request_signed env now req dev"
    and auth: "ad_device_id auth = dr_device_id dev" and may: "member_may (view (app_storage st0)) w dev UpdateHead"
  shows "post (api_update_head ops now w auth request) st (\<lambda>st' _. served view inv env now req w st0 st')"
proof -
  obtain h where h: "uh_manifest_id request = manifest_of_hash h" "length h = 32"
    using manifest_id_ok_hash[OF m] by blast
  note law = update_head[OF untouchedD(1)[OF u] w h(2), of now "uh_expected_revision request" "Some (ad_device_id auth)",
      unfolded untouchedD(2)[OF u]]
  show ?thesis
    unfolding api_update_head_def post_simps h(1)
  proof (rule post_mono[OF law], goal_cases)
    case (1 s r)
    have "served view inv env now req w st0 (st\<lparr>app_storage := s\<rparr>)"
    proof (cases "view s = view (app_storage st0)")
      case True
      then show ?thesis using 1 by (simp add: served_def)
    next
      case False
      then obtain res hd where r: "r = Ok (res, hd)" using 1 by (cases r) auto
      have hd: "r = Ok (HeadUpdated, hd)" using 1 r False by (cases res) auto
      have "store_step cx w dev (MoveHead hd) (view (app_storage st0)) (set_head w hd (view (app_storage st0)))"
        by (rule store_step.move_head[OF may, of h]) (use 1 hd auth in auto)
      then show ?thesis using 1 hd dev cx by (auto simp: served_def intro: signer_stepsI)
    qed
    then show ?case by (auto simp: post_simps split: result.splits HeadUpdateResult.splits prod.splits)
  qed
qed


text \<open>Objects are written for whoever the middleware let through to the handler.\<close>

lemma object_put_law:
  assumes u: "untouched view inv st0 st" and w: "workspace_plain w" and cx: "en_crypto env = cx"
    and dev: "request_signed env now req dev" and may: "member_may (view (app_storage st0)) w dev WriteObjects"
    and v: "view s = view (app_storage st0) \<or> object_stored (cr_sha256 cx) w b (view (app_storage st0)) (view s)"
  shows "signer_steps env now req w (view (app_storage st0)) (view s)"
  using v signer_stepsI[OF dev store_step.store_object[OF may, of "en_crypto env" b]] cx
  by (auto simp: object_stored_def)

lemma put_blob_served:
  assumes u: "untouched view inv st0 st" and w: "workspace_plain w" and cx: "en_crypto env = cx"
    and dev: "request_signed env now req dev" and may: "member_may (view (app_storage st0)) w dev WriteObjects"
  shows "post (api_put_blob ops w i b) st (\<lambda>st' _. served view inv env now req w st0 st')"
  unfolding api_put_blob_def
proof (rule served_write(1)[OF u])
  note law = put_blob[OF untouchedD(1)[OF u] w, of i b, unfolded untouchedD(2)[OF u]]
  show "post (so_put_blob ops w i b) (app_storage st)
      (\<lambda>s _. inv s \<and> signer_steps env now req w (view (app_storage st0)) (view s))"
    by (rule post_mono[OF law]) (use object_put_law[OF u w cx dev may] in \<open>auto split: if_splits\<close>)
qed

lemma put_manifest_served:
  assumes u: "untouched view inv st0 st" and w: "workspace_plain w" and cx: "en_crypto env = cx"
    and dev: "request_signed env now req dev" and may: "member_may (view (app_storage st0)) w dev WriteObjects"
  shows "post (api_put_manifest ops w m b) st (\<lambda>st' _. served view inv env now req w st0 st')"
  unfolding api_put_manifest_def
proof (rule served_write(1)[OF u])
  note law = put_manifest[OF untouchedD(1)[OF u] w, of m b, unfolded untouchedD(2)[OF u]]
  show "post (so_put_manifest ops w m b) (app_storage st)
      (\<lambda>s _. inv s \<and> signer_steps env now req w (view (app_storage st0)) (view s))"
    by (rule post_mono[OF law]) (use object_put_law[OF u w cx dev may] in \<open>auto split: if_splits\<close>)
qed

text \<open>Reading handlers.\<close>

lemma read_served:
  assumes u: "untouched view inv st0 st"
    and law: "post m (app_storage st) (\<lambda>s r. inv s \<and> view s = view (app_storage st) \<and> Q r)"
  shows "post (then_do (on_storage m) (\<lambda>a. done_with (g a))) st (\<lambda>st' _. served view inv env now req w st0 st')"
  by (rule served_read[OF u law]) (rule served_done)

lemma get_head_served:
  "untouched view inv st0 st \<Longrightarrow> workspace_plain w \<Longrightarrow>
   post (api_get_head ops w) st (\<lambda>st' _. served view inv env now req w st0 st')"
  unfolding api_get_head_def by (rule read_served, assumption, rule get_head) (auto dest: untouchedD)

lemma get_blob_served:
  assumes "untouched view inv st0 st" and "workspace_plain w" and "blob_id_ok i"
  shows "post (api_get_blob ops w i) st (\<lambda>st' _. served view inv env now req w st0 st')"
proof -
  obtain h where h: "i = blob_of_hash h" "length h = 32" using blob_id_ok_hash[OF assms(3)] by blast
  show ?thesis unfolding api_get_blob_def h(1)
    by (rule read_served[OF assms(1) get_blob[OF untouchedD(1)[OF assms(1)] assms(2) h(2)]])
qed

lemma get_manifest_served:
  assumes "untouched view inv st0 st" and "workspace_plain w" and "manifest_id_ok m"
  shows "post (api_get_manifest ops w m) st (\<lambda>st' _. served view inv env now req w st0 st')"
proof -
  obtain h where h: "m = manifest_of_hash h" "length h = 32" using manifest_id_ok_hash[OF assms(3)] by blast
  show ?thesis unfolding api_get_manifest_def h(1)
    by (rule read_served[OF assms(1) get_manifest[OF untouchedD(1)[OF assms(1)] assms(2) h(2)]])
qed

lemma list_join_requests_served:
  assumes "inv (app_storage st)" and w: "workspace_plain w" and cx: "en_crypto env = cx"
  shows "post (api_list_join_requests env ops now w req) st (\<lambda>st' _. served view inv env now req w st st')"
  unfolding api_list_join_requests_def
  by (rule authenticate_empty_read[OF start[OF assms(1)] w cx])
     (rule read_served, assumption, rule list_join_requests[OF untouchedD(1) w])

lemma fetch_access_state_served:
  assumes "inv (app_storage st)" and w: "workspace_plain w" and cx: "en_crypto env = cx"
  shows "post (api_fetch_access_state env ops now w req) st (\<lambda>st' _. served view inv env now req w st st')"
  unfolding api_fetch_access_state_def
  by (rule authenticate_empty_read[OF start[OF assms(1)] w cx])
     (rule read_served, assumption, rule get_access_state[OF untouchedD(1) w])

lemma fetch_key_envelope_served:
  assumes "inv (app_storage st)" and w: "workspace_plain w" and cx: "en_crypto env = cx"
    and k: "key_plain k" and d: "device_id_ok d"
  shows "post (api_fetch_key_envelope env ops now w k d req) st (\<lambda>st' _. served view inv env now req w st st')"
  unfolding api_fetch_key_envelope_def
proof (rule authenticate_empty_read[OF start[OF assms(1)] w cx], goal_cases)
  case (1 st1 auth)
  show ?case
  proof (cases "ad_device_id auth = d")
    case False
    then show ?thesis using 1 by (simp add: served_fail)
  next
    case True
    then show ?thesis
      by simp (rule served_read[OF 1 get_key_envelope[OF untouchedD(1)[OF 1] w k d]],
        intro served_lift served_done, assumption+)
  qed
qed


subsection \<open>The service\<close>

lemma served_reject: "untouched view inv st0 st \<Longrightarrow> post reject st (\<lambda>st' _. served view inv env now req w st0 st')"
  unfolding reject_def by (rule served_done)

lemma served_respond:
  "post m st (\<lambda>st' _. served view inv env now req w st0 st') \<Longrightarrow>
   post (respond m) st (\<lambda>st' _. served view inv env now req w st0 st')"
  unfolding respond_def post_simps by (erule post_mono) (auto split: result.splits)

lemma served_respond_from:
  "untouched view inv st0 st \<Longrightarrow> post m st (\<lambda>st' _. served view inv env now req w st st') \<Longrightarrow>
   post (respond m) st (\<lambda>st' _. served view inv env now req w st0 st')"
  by (rule served_respond, erule post_mono) (rule served_from)

lemma served_body:
  "untouched view inv st0 st \<Longrightarrow> post m st (\<lambda>st' _. served view inv env now req w st0 st') \<Longrightarrow>
   post (with_body req m) st (\<lambda>st' _. served view inv env now req w st0 st')"
  by (simp add: with_body_def served_reject)

lemma served_param:
  "untouched view inv st0 st \<Longrightarrow> (\<And>x. p = Some x \<Longrightarrow> post (k x) st (\<lambda>st' _. served view inv env now req w st0 st')) \<Longrightarrow>
   post (with_param p k) st (\<lambda>st' _. served view inv env now req w st0 st')"
  by (cases p) (simp_all add: with_param_def served_reject)

lemma served_if:
  "(c \<Longrightarrow> post m st P) \<Longrightarrow> (\<not> c \<Longrightarrow> post n st P) \<Longrightarrow> post (if c then m else n) st P"
  by simp

lemma workspace_service_served:
  assumes u: "untouched view inv st0 st" and w: "workspace_plain w" and cx: "en_crypto env = cx"
    and ids: "identifiers_ok env"
    and keys: "\<And>s k d i. route = KeyEnvelopeRoute s k d \<Longrightarrow> path_param env parse_key_id k = Some i \<Longrightarrow> key_plain i"
    and put: "sync_tail route \<noteq> None \<Longrightarrow> rq_method req = ''PUT'' \<Longrightarrow>
      \<exists>a dev. auth = Some a \<and> request_signed env now req dev \<and> ad_device_id a = dr_device_id dev
        \<and> member_may (view (app_storage st0)) w dev (put_permission route)"
  shows "post (workspace_service env ops now auth req route w) st (\<lambda>st' _. served view inv env now req w st0 st')"
proof -
  have i: "inv (app_storage st)" by (rule untouchedD(1)[OF u])
  note via = served_respond_from[OF u]
  show ?thesis
  proof (cases route)
    case (JoinRequestsRoute s)
    then show ?thesis
      by (simp add: workspace_service_def split del: if_split)
         (intro served_if served_body[OF u] via submit_join_request_served[OF i w cx ids]
           list_join_requests_served[OF i w cx] served_reject[OF u])
  next
    case (ApprovalRoute s j)
    then show ?thesis
      by (simp add: workspace_service_def split del: if_split)
         (intro served_if served_param[OF u] served_body[OF u] via approve_join_request_served[OF i w cx]
           served_reject[OF u], erule path_param_ok)
  next
    case (AccessEventsRoute s)
    then show ?thesis
      by (simp add: workspace_service_def split del: if_split)
         (intro served_if served_body[OF u] via apply_access_event_served[OF i w cx ids] served_reject[OF u])
  next
    case (AccessStateRoute s)
    then show ?thesis
      by (simp add: workspace_service_def split del: if_split)
         (intro served_if via fetch_access_state_served[OF i w cx] served_reject[OF u])
  next
    case (KeyEnvelopeRoute s k d)
    then show ?thesis
      by (simp add: workspace_service_def split del: if_split)
         (intro served_if served_param[OF u] served_body[OF u] via put_key_envelope_served[OF i w cx]
           fetch_key_envelope_served[OF i w cx] served_reject[OF u]; (erule keys path_param_ok | rule KeyEnvelopeRoute))
  next
    case (HeadRoute s)
    have "post (api_update_head ops now w a r) st (\<lambda>st' _. served view inv env now req w st0 st')"
      if h: "rq_method req = ''PUT''" "auth = Some a" "en_update_head env (rq_headers req) (rq_body req) = Some r" for a r
    proof -
      have m: "manifest_id_ok (uh_manifest_id r)" using h(3) ids by (simp add: identifiers_ok_def)
      obtain dev where "request_signed env now req dev" "ad_device_id a = dr_device_id dev"
        "member_may (view (app_storage st0)) w dev UpdateHead"
        using put h(1,2) HeadRoute by (auto simp: sync_tail_def put_permission_def)
      then show ?thesis by (rule update_head_served[OF u w cx m])
    qed
    then show ?thesis using HeadRoute
      by (simp add: workspace_service_def split del: if_split)
         (intro served_if served_param[OF u] served_body[OF u] served_respond get_head_served[OF u w] served_reject[OF u])
  next
    case (ManifestRoute s m)
    have "post (api_put_manifest ops w x (rq_body req)) st (\<lambda>st' _. served view inv env now req w st0 st')"
      if "rq_method req = ''PUT''" for x
      using put that ManifestRoute put_manifest_served[OF u w cx] by (auto simp: sync_tail_def put_permission_def)
    then show ?thesis using ManifestRoute
      by (simp add: workspace_service_def split del: if_split)
         (intro served_if served_param[OF u] served_body[OF u] served_respond get_manifest_served[OF u w]
           served_reject[OF u], assumption, erule path_param_ok)
  next
    case (BlobRoute s i)
    have "post (api_put_blob ops w x (rq_body req)) st (\<lambda>st' _. served view inv env now req w st0 st')"
      if "rq_method req = ''PUT''" for x
      using put that BlobRoute put_blob_served[OF u w cx] by (auto simp: sync_tail_def put_permission_def)
    then show ?thesis using BlobRoute
      by (simp add: workspace_service_def split del: if_split)
         (intro served_if served_param[OF u] served_body[OF u] served_respond get_blob_served[OF u w]
           served_reject[OF u], assumption, erule path_param_ok)
  qed (simp_all add: workspace_service_def served_reject[OF u])
qed


lemma create_app_served:
  assumes inv: "inv (app_storage st)" and cx: "en_crypto env = cx" and ids: "identifiers_ok env"
    and plain: "plain_request env req"
  shows "post (create_app env ops now req) st (\<lambda>st' _. \<exists>w. served view inv env now req w st st')"
proof -
  have service: "post (route_request env ops now auth req) st1 (\<lambda>st' _. \<exists>w. served view inv env now req w st st')"
    if u: "untouched view inv st st1"
      and put: "\<And>route s t w. match_route (uri_path (rq_uri req)) = Some route \<Longrightarrow> route_workspace route = Some s \<Longrightarrow>
        path_param env parse_workspace_id s = Some w \<Longrightarrow> sync_tail route = Some t \<Longrightarrow> rq_method req = ''PUT'' \<Longrightarrow>
        \<exists>a dev. auth = Some a \<and> request_signed env now req dev \<and> ad_device_id a = dr_device_id dev
          \<and> member_may (view (app_storage st)) w dev (put_permission route)"
    for auth st1
  proof (cases "match_route (uri_path (rq_uri req))")
    case None
    then show ?thesis using u by (auto simp: route_request_def with_param_def reject_def post_simps served_def untouched_def)
  next
    case (Some route)
    have some: "post m st1 (\<lambda>st' _. \<exists>w. served view inv env now req w st st')"
      if "post m st1 (\<lambda>st' _. served view inv env now req w st st')" for w and m :: "'st service"
      by (rule post_mono[OF that]) blast
    show ?thesis
    proof (cases "route = HealthRoute \<or> route = WorkspacesRoute")
      case True
      then show ?thesis
      proof
        assume r: "route = HealthRoute"
        show ?thesis by (rule some) (simp add: route_request_def Some r with_param_def served_reject[OF u]
            respond_def post_simps untouched_served[OF u])
      next
        assume r: "route = WorkspacesRoute"
        have "post (respond (api_create_workspace env ops now req)) st1
            (\<lambda>st' _. \<exists>w. served view inv env now req w st st')"
        proof (cases "en_create env (rq_body req)")
          case (Ok c)
          then have "workspace_plain (cw_workspace_id c)" using plain Some r by (simp add: plain_request_def)
          then show ?thesis using Ok
            by (intro some served_respond_from[OF u] create_workspace_served[OF untouchedD(1)[OF u] _ cx]) simp_all
        next
          case (Err e)
          then show ?thesis
            by (intro some[of _ "undefined"] served_respond_from[OF u])
               (auto simp: api_create_workspace_def parse_json_def intro!: served_lift start untouchedD(1)[OF u])
        qed
        then show ?thesis using Some r untouched_served[OF u]
          by (auto simp: route_request_def with_param_def with_body_def reject_def post_simps)
      qed
    next
      case False
      then have route: "route_request env ops now auth req =
          with_param (Option.bind (route_workspace route) (path_param env parse_workspace_id))
            (\<lambda>w. workspace_service env ops now auth req route w)"
        by (auto simp: route_request_def Some with_param_def split: Route.splits)
      show ?thesis
      proof (cases "Option.bind (route_workspace route) (path_param env parse_workspace_id)")
        case None
        then show ?thesis unfolding route with_param_def using some[OF served_reject[OF u]] by simp
      next
        case w: (Some w)
        then obtain s where s: "route_workspace route = Some s" "path_param env parse_workspace_id s = Some w"
          by (auto simp: bind_eq_Some_conv)
        have plain_w: "workspace_plain w" using plain Some w False
          by (cases route) (auto simp: plain_request_def)
        have keys: "key_plain i" if "route = KeyEnvelopeRoute s' k d" "path_param env parse_key_id k = Some i" for s' k d i
          using plain Some that by (simp add: plain_request_def)
        show ?thesis unfolding route with_param_def w option.case
          by (rule some[OF workspace_service_served[OF u plain_w cx ids]]) (use keys put[OF Some s] in auto)
      qed
    qed
  qed
  show ?thesis
  proof (cases "classify_auth_target (rq_method req) (rq_uri req)")
    case (Err e)
    then show ?thesis using untouched_served[OF start[OF inv]]
      by (auto simp: create_app_def workspace_auth_middleware_def post_simps)
  next
    case (Ok target)
    have sync: "\<exists>p. target = Some \<lparr>at_workspace_id = w, at_required_permission = p\<rparr>
        \<and> (rq_method req = ''PUT'' \<longrightarrow> p = put_permission route)"
      if "match_route (uri_path (rq_uri req)) = Some route" "route_workspace route = Some s"
        "path_param env parse_workspace_id s = Some w" "sync_tail route = Some t" for route s t w
      using sync_route_authenticated[OF that(1,2,4,3) ids Ok] .
    show ?thesis
    proof (cases target)
      case None
      have "post (route_request env ops now None req) st (\<lambda>st' _. \<exists>w. served view inv env now req w st st')"
        by (rule service[OF start[OF inv]]) (use sync None in blast)
      then show ?thesis by (simp add: create_app_def workspace_auth_middleware_def post_simps Ok None)
    next
      case (Some t)
      have w: "workspace_plain (at_workspace_id t)" using plain by (simp add: plain_request_def Ok Some)
      note law = authenticate_law[OF inv w cx, where perm = "at_required_permission t" and req = req and now = now]
      have "post (then_do (authenticate_request env ops now (at_workspace_id t) (at_required_permission t) req)
          (\<lambda>device. route_request env ops now (Some device) req)) st
          (\<lambda>st' _. \<exists>w. served view inv env now req w st st')"
        unfolding post_simps
      proof (rule post_mono[OF law], goal_cases)
        case (1 st1 r)
        then have u: "untouched view inv st st1" by (simp add: untouched_def)
        show ?case
        proof (cases r)
          case (Err e)
          then show ?thesis using untouched_served[OF u] by auto
        next
          case (Ok auth)
          then obtain dev where dev: "request_signed env now req dev" "ad_device_id auth = dr_device_id dev"
            "member_may (view (app_storage st)) (at_workspace_id t) dev (at_required_permission t)" using 1 by auto
          show ?thesis unfolding Ok result.case
            by (rule service[OF u]) (use sync Some dev in fastforce)
        qed
      qed
      then show ?thesis using untouched_served[OF start[OF inv]]
        by (auto simp: create_app_def workspace_auth_middleware_def authenticate_request_def Ok Some post_simps)
    qed
  qed
qed

end


section \<open>Runs\<close>

text \<open>Requests served one after the other, each with the clock it meets.\<close>

fun run_server :: "server_env \<Rightarrow> 'st Storage \<Rightarrow> (u64 \<times> Request) list \<Rightarrow> 'st AppState \<Rightarrow> 'st AppState" where
  "run_server env ops [] st = st"
| "run_server env ops ((now, req) # reqs) st = run_server env ops reqs (fst (create_app env ops now req st))"

lemma run_server_append: "run_server env ops (xs @ ys) st = run_server env ops ys (run_server env ops xs st)"
  by (induction env ops xs st rule: run_server.induct) simp_all

context service begin

lemma run_server_refines:
  assumes "inv (app_storage st)" and "en_crypto env = cx" and "identifiers_ok env"
    and "list_all (plain_request env \<circ> snd) reqs" and "store_run cx u (view (app_storage st))"
  shows "let st' = run_server env ops reqs st in inv (app_storage st') \<and> store_run cx u (view (app_storage st'))"
  using assms(1,4,5)
proof (induction reqs arbitrary: st)
  case (Cons r reqs)
  obtain now req where r: "r = (now, req)" by (cases r)
  let ?st = "fst (create_app env ops now req st)"
  have "plain_request env req" using Cons.prems(2) by (simp add: r)
  then have "post (create_app env ops now req) st (\<lambda>st' _. \<exists>w. served view inv env now req w st st')"
    using create_app_served[OF Cons.prems(1) assms(2,3)] by blast
  then have "inv (app_storage ?st)" and "store_run cx u (view (app_storage ?st))"
    using Cons.prems(3) assms(2) by (auto simp: post_def served_def signer_steps_def dest: device_steps_run)
  then show ?case using Cons.IH[of ?st] Cons.prems(2) r by simp
qed simp

end

end
