(* ===== verification/Server_Props.thy ===== *)
theory Server_Props
  imports Server_Contract Fs_Contract
begin

text \<open>
  The properties of the server on the file back end: one request at a time it implements the store
  specification whatever the file system does, and what follows for every run from an empty directory.
\<close>

text \<open>The handlers' lemmas on the file back end.\<close>

interpretation fs_api: service cx "fs_storage cx js pid" "fs_view js" "fs_inv cx js"
  by (rule service.intro[OF fs.storage_axioms])


section \<open>One request\<close>

text \<open>
  Property C18: the server implements the store specification.  A request to the service over the file
  back end, under any faults of the file system, leaves a data directory whose files are well formed,
  and what it changed of the stored objects, heads, access states, join requests and envelopes is a
  sequence of steps the specification allows to the device whose key signed this request within five
  minutes of the clock: nothing changes for an unsigned request, or beyond the signer's permissions.
\<close>

theorem server_implements_store_spec:
  assumes "identifiers_ok env" and "plain_request env req" and "fs_inv (en_crypto env) js (app_storage st)"
  shows "let (st', answer) = create_app env (fs_storage (en_crypto env) js pid) now req st;
             v = fs_view js (app_storage st); v' = fs_view js (app_storage st')
         in fs_inv (en_crypto env) js (app_storage st')
            \<and> (v' = v \<or> (\<exists>w dev. request_signed env now req dev \<and> device_steps (en_crypto env) w dev v v'))"
  using fs_api.create_app_served[OF assms(3) refl assms(1,2), of pid now]
  by (auto simp: post_def served_def signer_steps_def Let_def split: prod.splits)


section \<open>Runs\<close>

lemma fs_run_refines:
  assumes "identifiers_ok env" and "list_all (plain_request env \<circ> snd) reqs"
    and "fs_inv (en_crypto env) js (app_storage st)"
    and "store_run (en_crypto env) u (fs_view js (app_storage st))"
  shows "let st' = run_server env (fs_storage (en_crypto env) js pid) reqs st in
    fs_inv (en_crypto env) js (app_storage st') \<and> store_run (en_crypto env) u (fs_view js (app_storage st'))"
  by (rule fs_api.run_server_refines[OF assms(3) refl assms(1,2,4)])

text \<open>A server started on an empty data directory.\<close>

definition fresh_server :: "Fault option list \<Rightarrow> nat list \<Rightarrow> FileSys AppState" where
  "fresh_server faults nanos = \<lparr>app_storage = \<lparr>fs_files = [], fs_faults = faults, fs_nanos = nanos\<rparr>,
     app_replay_cache = []\<rparr>"


lemma fresh_server_facts:
  assumes "codec_ok js" and "sha256_size (cr_sha256 cx)"
  shows "fs_inv cx js (app_storage (fresh_server faults nanos))"
    and "vw_object (fs_view js (app_storage (fresh_server faults nanos))) w h = None"
    and "pending_bounded (fs_view js (app_storage (fresh_server faults nanos))) w"
    and "head_stored (fs_view js (app_storage (fresh_server faults nanos))) w"
  using fs_inv_empty[OF assms, of "app_storage (fresh_server faults nanos)"]
  by (simp_all add: fresh_server_def fs_view_eq view_of_select visible_def fs_get_def pending_bounded_def
      pending_ids_def head_stored_def current_head_def head_empty_def)

text \<open>
  Property C19: what is stored stays.  In every run of the server from an empty directory, with any
  faults on the way, an object that is visible after some requests is visible with the same bytes after
  any further requests, and is stored under the SHA-256 of its bytes; a key envelope, likewise, is never
  replaced.
\<close>

theorem stored_content_is_permanent:
  assumes "identifiers_ok env" and "codec_ok js" and "sha256_size (cr_sha256 (en_crypto env))"
    and "list_all (plain_request env \<circ> snd) (before @ later)"
  shows "let server = \<lambda>reqs. fs_view js (app_storage
      (run_server env (fs_storage (en_crypto env) js pid) reqs (fresh_server faults nanos)))
    in (vw_object (server before) w h = Some b \<longrightarrow>
            cr_sha256 (en_crypto env) b = h \<and> vw_object (server (before @ later)) w h = Some b)
    \<and> (vw_envelope (server before) w k d = Some e \<longrightarrow> vw_envelope (server (before @ later)) w k d = Some e)"
proof -
  let ?cx = "en_crypto env" and ?ops = "fs_storage (en_crypto env) js pid"
  let ?st = "run_server env ?ops before (fresh_server faults nanos)"
  define server where "server = (\<lambda>reqs. fs_view js (app_storage (run_server env ?ops reqs (fresh_server faults nanos))))"
  note fresh = fresh_server_facts[OF assms(2,3), of faults nanos]
  have inv: "fs_inv ?cx js (app_storage ?st)"
    using fs_run_refines[OF assms(1) _ fresh(1) run_refl, of before pid] assms(4) by (simp add: Let_def)
  have "store_run ?cx (server before) (server (before @ later))"
    using fs_run_refines[OF assms(1) _ inv run_refl, of later pid] assms(4)
    by (simp add: Let_def server_def run_server_append)
  then show ?thesis
    using fs_objects_hashed[OF inv] run_keeps_objects run_keeps_envelopes
    unfolding Let_def server_def[symmetric] by (metis server_def)
qed

text \<open>
  Property C21: the queue of join requests is bounded.  In every run from an empty directory no
  workspace ever holds more than 128 pending join requests, and no two of them come from one device.
\<close>

theorem pending_join_requests_bounded:
  assumes "identifiers_ok env" and "codec_ok js" and "sha256_size (cr_sha256 (en_crypto env))"
    and "list_all (plain_request env \<circ> snd) reqs"
  shows "let v = fs_view js (app_storage
           (run_server env (fs_storage (en_crypto env) js pid) reqs (fresh_server faults nanos)));
             pending = {j. join_request_id_ok j \<and> vw_join v w j \<noteq> None}
    in finite pending \<and> card pending \<le> MAX_PENDING_JOIN_REQUESTS_PER_WORKSPACE
       \<and> inj_on (\<lambda>j. dr_device_id (jr_device (the (vw_join v w j)))) pending"
proof -
  note fresh = fresh_server_facts[OF assms(2,3), of faults nanos]
  let ?v = "fs_view js (app_storage (run_server env (fs_storage (en_crypto env) js pid) reqs (fresh_server faults nanos)))"
  have "store_run (en_crypto env) (fs_view js (app_storage (fresh_server faults nanos))) ?v"
    using fs_run_refines[OF assms(1) assms(4) fresh(1) run_refl, where pid = pid] by (simp add: Let_def)
  from run_pending_bounded[OF this fresh(3)[of w]]
  have b: "finite (pending_ids ?v w)" "card (pending_ids ?v w) \<le> 128"
    and inj: "inj_on (\<lambda>j. map_option (\<lambda>q. dr_device_id (jr_device q)) (vw_join ?v w j)) (pending_ids ?v w)"
    by (simp_all add: pending_bounded_def)
  have "inj_on (\<lambda>j. dr_device_id (jr_device (the (vw_join ?v w j)))) (pending_ids ?v w)"
    by (rule inj_onI, rule inj_onD[OF inj]) (auto simp: pending_ids_def)
  then show ?thesis
    using b by (simp add: Let_def pending_ids_def MAX_PENDING_JOIN_REQUESTS_PER_WORKSPACE_def)
qed

text \<open>
  Property C20: the head only moves forward, to what is there.  In every run from an empty directory the
  revision of a workspace's head never falls, and the head names no manifest or one whose bytes are
  stored.
\<close>

theorem head_moves_forward:
  assumes "identifiers_ok env" and "codec_ok js" and "sha256_size (cr_sha256 (en_crypto env))"
    and "list_all (plain_request env \<circ> snd) (before @ later)"
  shows "let server = \<lambda>reqs. fs_view js (app_storage
      (run_server env (fs_storage (en_crypto env) js pid) reqs (fresh_server faults nanos)))
    in wh_revision (current_head (server before) w) \<le> wh_revision (current_head (server (before @ later)) w)
    \<and> (case wh_manifest_id (current_head (server before) w) of None \<Rightarrow> True
       | Some m \<Rightarrow> \<exists>b. m = manifest_id_from_content (cr_sha256 (en_crypto env)) b
            \<and> vw_object (server before) w (cr_sha256 (en_crypto env) b) = Some b)"
proof -
  let ?cx = "en_crypto env" and ?ops = "fs_storage (en_crypto env) js pid"
  let ?st = "run_server env ?ops before (fresh_server faults nanos)"
  define server where "server = (\<lambda>reqs. fs_view js (app_storage (run_server env ?ops reqs (fresh_server faults nanos))))"
  note fresh = fresh_server_facts[OF assms(2,3), of faults nanos]
  have inv: "fs_inv ?cx js (app_storage ?st)"
    and run: "store_run ?cx (fs_view js (app_storage (fresh_server faults nanos))) (server before)"
    using fs_run_refines[OF assms(1) _ fresh(1) run_refl, of before pid] assms(4)
    by (simp_all add: Let_def server_def)
  have "store_run ?cx (server before) (server (before @ later))"
    using fs_run_refines[OF assms(1) _ inv run_refl, of later pid] assms(4)
    by (simp add: Let_def server_def run_server_append)
  from run_head_revision[OF this]
  have "wh_revision (current_head (server before) w) \<le> wh_revision (current_head (server (before @ later)) w)"
    by (simp add: word_le_nat_alt)
  moreover have "\<exists>b. m = manifest_id_from_content (cr_sha256 ?cx) b
      \<and> vw_object (server before) w (cr_sha256 ?cx b) = Some b"
    if m: "wh_manifest_id (current_head (server before) w) = Some m" for m
  proof -
    obtain h b where h: "m = manifest_of_hash h" "vw_object (server before) w h = Some b"
      using run_head_stored[OF run fresh(4)[of w]] m by (auto simp: head_stored_def)
    then have "h = cr_sha256 ?cx b" using fs_objects_hashed[OF inv] by (simp add: server_def)
    then show ?thesis using h by (auto simp: object_of_hash_content)
  qed
  ultimately show ?thesis unfolding Let_def server_def[symmetric] by (simp split: option.splits)
qed


section \<open>Witnesses\<close>

text \<open>A codec that writes one access state as one byte, and an environment in which the body \<^verbatim>\<open>[1]\<close>
  is the request to create that workspace.\<close>

definition sample_codec :: json_codec where
  "sample_codec = \<lparr>
     js_head_to_vec = (\<lambda>h. if h = head_empty sample_workspace then Ok [0] else Err ''''),
     js_head_from_slice = (\<lambda>b. if b = [0] then Ok (head_empty sample_workspace) else Err ''''),
     js_access_to_vec = (\<lambda>s. if s = sample_state 1 then Ok [1] else Err ''''),
     js_access_from_slice = (\<lambda>b. if b = [1] then Ok (sample_state 1) else Err ''''),
     js_join_to_vec = (\<lambda>_. Err ''''), js_join_from_slice = (\<lambda>_. Err '''')\<rparr>"

definition sample_env :: server_env where
  "sample_env = \<lparr>en_crypto = sample_crypto, en_b64dec = sample_b64dec, en_percent = Some,
     en_create = (\<lambda>b. if b = [1] then Ok \<lparr>cw_workspace_id = sample_workspace, cw_access_state = sample_state 1\<rparr>
                      else Err ''expected value''),
     en_join = (\<lambda>_. Err ''''), en_approve = (\<lambda>_. Err ''''), en_apply = (\<lambda>_. Err ''''),
     en_envelope = (\<lambda>_. Err ''''), en_update_head = (\<lambda>_ _. None)\<rparr>"

definition sample_create_request :: Request where
  "sample_create_request = \<lparr>rq_method = ''POST'',
     rq_uri = \<lparr>uri_path = ''/workspaces'', uri_path_and_query = Some ''/workspaces''\<rparr>,
     rq_headers = sample_headers ''device_a'' 10 ''n'', rq_body = [1]\<rparr>"

lemma sample_codec_ok: "codec_ok sample_codec"
  by (auto simp: codec_ok_def sample_codec_def split: if_splits)

lemma sample_sha256_size: "sha256_size (cr_sha256 (en_crypto sample_env))"
  by (simp add: sample_env_def sample_crypto_def sha256_size_def)

lemma sample_identifiers_ok: "identifiers_ok sample_env"
proof -
  have "workspace_id_ok sample_workspace" by code_simp
  then show ?thesis by (auto simp: identifiers_ok_def sample_env_def split: if_splits)
qed

lemma sample_create_plain: "plain_request sample_env sample_create_request"
  by code_simp

definition sample_served :: "FileSys AppState" where
  "sample_served = \<lparr>app_storage = \<lparr>fs_files = [(access_state_path ''ws'', [1])], fs_faults = [], fs_nanos = []\<rparr>,
     app_replay_cache = [(\<lparr>rk_workspace_id = sample_workspace, rk_device_id = DeviceId ''device_a'',
       rk_nonce = RequestNonce ''n''\<rparr>, 10)]\<rparr>"

lemma sample_created_state:
  "fst (create_app sample_env (fs_storage sample_crypto sample_codec 7) 300 sample_create_request (fresh_server [] []))
     = sample_served"
proof -
  have target: "classify_auth_target (rq_method sample_create_request) (rq_uri sample_create_request) = Ok None"
    by code_simp
  have route: "match_route (uri_path (rq_uri sample_create_request)) = Some WorkspacesRoute" by code_simp
  let ?c = "\<lparr>cw_workspace_id = sample_workspace, cw_access_state = sample_state 1\<rparr>"
  let ?dir = "\<lparr>fs_files = [], fs_faults = [], fs_nanos = []\<rparr>"
  have sign: "verify_bootstrap_signature sample_env 300 sample_create_request ?c \<lparr>app_storage = ?dir, app_replay_cache = []\<rparr>
      = (\<lparr>app_storage = ?dir, app_replay_cache = app_replay_cache sample_served\<rparr>, Ok ())"
    by code_simp
  have create: "fs_create_access_state sample_crypto sample_codec 7 sample_workspace (sample_state 1) ?dir
      = (app_storage sample_served, Ok ())"
    by code_simp
  have ws: "as_workspace_id (sample_state 1) = sample_workspace" by code_simp
  have decoded: "en_create sample_env (rq_body sample_create_request) = Ok ?c"
    by (simp add: sample_env_def sample_create_request_def)
  have small: "length (rq_body sample_create_request) = 1" "rq_method sample_create_request = ''POST''"
    by (simp_all add: sample_create_request_def)
  show ?thesis
    using target route sign create
    by (simp add: create_app_def workspace_auth_middleware_def then_do_def lift_result_def route_request_def
        with_param_def with_body_def small MAX_OBJECT_BODY_BYTES_def respond_def api_create_workspace_def
        ensure_body_limit_def MAX_AUTH_BODY_BYTES_def parse_json_def decoded ws fresh_server_def on_storage_def
        fs_storage_def done_with_def del: One_nat_def)
qed

lemma sample_created:
  "vw_access (fs_view sample_codec (app_storage (fst (create_app sample_env (fs_storage sample_crypto sample_codec 7)
      300 sample_create_request (fresh_server [] []))))) sample_workspace = Some (sample_state 1)"
proof -
  have "vw_access (fs_view sample_codec (app_storage sample_served)) sample_workspace = Some (sample_state 1)" by code_simp
  then show ?thesis unfolding sample_created_state .
qed

theorem server_implements_store_spec_witness:
  "\<exists>w dev. request_signed sample_env 300 sample_create_request dev
     \<and> device_steps sample_crypto w dev (fs_view sample_codec (app_storage (fresh_server [] [])))
         (fs_view sample_codec (app_storage (fst (create_app sample_env (fs_storage sample_crypto sample_codec 7)
            300 sample_create_request (fresh_server [] [])))))"
proof -
  have cx: "en_crypto sample_env = sample_crypto" by (simp add: sample_env_def)
  have "vw_access (fs_view sample_codec (app_storage (fresh_server [] []))) sample_workspace = None"
    by (simp add: fresh_server_def fs_view_eq view_of_select visible_def fs_get_def)
  then have changed: "fs_view sample_codec (app_storage (fst (create_app sample_env (fs_storage sample_crypto sample_codec 7)
      300 sample_create_request (fresh_server [] [])))) \<noteq> fs_view sample_codec (app_storage (fresh_server [] []))"
    using sample_created by auto
  show ?thesis
    using server_implements_store_spec[OF sample_identifiers_ok sample_create_plain
        fresh_server_facts(1)[OF sample_codec_ok sample_sha256_size], of 7 300 "[]" "[]"] changed
    unfolding cx by (auto simp: Let_def split: prod.splits)
qed

theorem stored_content_is_permanent_witness:
  "let server = \<lambda>reqs. fs_view sample_codec (app_storage
      (run_server sample_env (fs_storage sample_crypto sample_codec 7) reqs (fresh_server [] [])))
   in (case vw_object (server [(300, sample_create_request)]) sample_workspace (replicate 32 0) of None \<Rightarrow> True
       | Some b \<Rightarrow> vw_object (server [(300, sample_create_request), (301, sample_create_request)])
                     sample_workspace (replicate 32 0) = Some b)"
  using stored_content_is_permanent[OF sample_identifiers_ok sample_codec_ok sample_sha256_size,
      of "[(300, sample_create_request)]" "[(301, sample_create_request)]" 7 "[]" "[]" sample_workspace "replicate 32 0"]
    sample_create_plain
  by (simp add: Let_def sample_env_def split: option.splits)

theorem pending_join_requests_bounded_witness:
  "card {j. join_request_id_ok j \<and> vw_join (fs_view sample_codec (app_storage
      (run_server sample_env (fs_storage sample_crypto sample_codec 7) [(300, sample_create_request)]
         (fresh_server [] [])))) sample_workspace j \<noteq> None} \<le> 128"
  using pending_join_requests_bounded[OF sample_identifiers_ok sample_codec_ok sample_sha256_size,
      of "[(300, sample_create_request)]" 7 "[]" "[]" sample_workspace] sample_create_plain
  by (simp add: Let_def sample_env_def MAX_PENDING_JOIN_REQUESTS_PER_WORKSPACE_def)

theorem head_moves_forward_witness:
  "let server = \<lambda>reqs. fs_view sample_codec (app_storage
      (run_server sample_env (fs_storage sample_crypto sample_codec 7) reqs (fresh_server [] [])))
   in wh_revision (current_head (server []) sample_workspace)
        \<le> wh_revision (current_head (server [(300, sample_create_request)]) sample_workspace)"
  using head_moves_forward[OF sample_identifiers_ok sample_codec_ok sample_sha256_size,
      of "[]" "[(300, sample_create_request)]" 7 "[]" "[]" sample_workspace] sample_create_plain
  by (simp add: Let_def sample_env_def)

end
