(* ===== verification/Combine.thy ===== *)
theory Combine
  imports Reconcile_Facts Decimal
begin

text \<open>
  The combination of a reconciliation plan into one manifest
  (\<^verbatim>\<open>rustsync-cli/src/sync_workflow.rs\<close>, the loop of \<^verbatim>\<open>sync_attempt\<close> and
  \<^verbatim>\<open>add_conflict\<close>): what is taken from which side, the text merge, and the copies a
  conflict keeps of the remote side under fresh names.  The \<^verbatim>\<open>BTreeSet\<close> of reserved paths is
  a list, of which only membership matters.
\<close>

section \<open>Fresh names\<close>

definition conflict_copy_path :: "string \<Rightarrow> u64 \<Rightarrow> string" where
  "conflict_copy_path path revision = path @ ''.rustsync-conflict-remote-r'' @ show_u64 revision"

text \<open>The names the loop tries: the prefix, then the prefix with a counter.\<close>

definition candidate :: "string \<Rightarrow> nat \<Rightarrow> string" where
  "candidate prefix suffix = (if suffix = 0 then prefix else prefix @ ''-'' @ show_nat suffix)"

lemma candidate_inj [simp]: "candidate p m = candidate p n \<longleftrightarrow> m = n"
  by (auto simp: candidate_def)

lemma finite_candidates: "finite {m. candidate prefix m \<in> set reserved}"
proof (rule finite_imageD)
  show "finite (candidate prefix ` {m. candidate prefix m \<in> set reserved})"
    by (rule finite_subset[of _ "set reserved"]) auto
  show "inj_on (candidate prefix) {m. candidate prefix m \<in> set reserved}" by (simp add: inj_on_def)
qed

function fresh_copy :: "string list \<Rightarrow> string \<Rightarrow> nat \<Rightarrow> string" where
  "fresh_copy reserved prefix suffix =
    (if candidate prefix suffix \<in> set reserved then fresh_copy reserved prefix (suffix + 1)
     else candidate prefix suffix)"
  by auto

termination
proof (relation "measure (\<lambda>(reserved, prefix, suffix).
    card ({m. candidate prefix m \<in> set reserved} - {..<suffix}))")
  fix reserved :: "string list" and prefix :: string and suffix :: nat
  assume taken: "candidate prefix suffix \<in> set reserved"
  let ?taken = "{m. candidate prefix m \<in> set reserved}"
  have "?taken - {..<suffix + 1} \<subset> ?taken - {..<suffix}" using taken by auto
  then show "((reserved, prefix, suffix + 1), reserved, prefix, suffix)
      \<in> measure (\<lambda>(reserved, prefix, suffix). card ({m. candidate prefix m \<in> set reserved} - {..<suffix}))"
    using finite_candidates[of prefix reserved] by (simp add: psubset_card_mono)
qed simp

declare fresh_copy.simps [simp del]

lemma fresh_copy_fresh: "fresh_copy reserved prefix suffix \<notin> set reserved"
  by (induction reserved prefix suffix rule: fresh_copy.induct) (subst fresh_copy.simps, simp)

lemma fresh_copy_candidate: "\<exists>n \<ge> suffix. fresh_copy reserved prefix suffix = candidate prefix n
    \<and> (\<forall>m. suffix \<le> m \<and> m < n \<longrightarrow> candidate prefix m \<in> set reserved)"
proof (induction reserved prefix suffix rule: fresh_copy.induct)
  case (1 reserved prefix suffix)
  show ?case
  proof (cases "candidate prefix suffix \<in> set reserved")
    case True
    then obtain n where n: "suffix + 1 \<le> n" "fresh_copy reserved prefix (suffix + 1) = candidate prefix n"
      "\<forall>m. suffix + 1 \<le> m \<and> m < n \<longrightarrow> candidate prefix m \<in> set reserved" using 1 by blast
    moreover have "candidate prefix m \<in> set reserved" if "suffix \<le> m" "m < n" for m
      using that True n(3) by (cases "m = suffix") auto
    ultimately show ?thesis using True by (subst fresh_copy.simps) (auto intro!: exI[of _ n])
  next
    case False
    then show ?thesis by (subst fresh_copy.simps) auto
  qed
qed


section \<open>Conflicts\<close>

text \<open>What the loop changes: the manifest under construction, the conflicts of the state and of the
  report, the reserved paths and the merged contents by hash.\<close>

record Combined =
  cb_manifest :: Manifest
  cb_state :: SyncState
  cb_report_conflicts :: "string list"
  cb_reserved :: "string list"
  cb_merged_bytes :: "(string \<times> bytes) list"

definition in_subtree :: "string \<Rightarrow> string \<Rightarrow> bool" where
  "in_subtree path entry_path \<longleftrightarrow> entry_path = path \<or> under path entry_path"

fun insert_all :: "Manifest \<Rightarrow> (string \<times> ManifestEntry) list \<Rightarrow> Manifest protocol_result" where
  "insert_all m [] = Ok m"
| "insert_all m ((path, entry) # rest) = and_then (manifest_insert m path entry) (\<lambda>m. insert_all m rest)"

definition subtree_entries :: "string \<Rightarrow> Manifest \<Rightarrow> (string \<times> ManifestEntry) list" where
  "subtree_entries path m = filter (\<lambda>(entry_path, _). in_subtree path entry_path) (mf_entries m)"

definition copy_entries :: "string \<Rightarrow> string \<Rightarrow> Manifest \<Rightarrow> (string \<times> ManifestEntry) list" where
  "copy_entries path remote_copy_path m =
     map (\<lambda>(entry_path, entry). (remote_copy_path @ drop (length path) entry_path, entry))
       (subtree_entries path m)"

definition add_conflict :: "Manifest \<Rightarrow> Manifest \<Rightarrow> u64 \<Rightarrow> string \<Rightarrow> Combined \<Rightarrow> Combined protocol_result" where
  "add_conflict loc rem revision path cb =
    and_then (insert_all (cb_manifest cb) (subtree_entries path loc)) (\<lambda>combined.
    let remote_copy_path = fresh_copy (cb_reserved cb) (conflict_copy_path path revision) 0;
        copies = copy_entries path remote_copy_path rem;
        record = \<lparr>cf_local_copy_path = path, cf_remote_copy_path = remote_copy_path,
                  cf_remote_deleted = (\<not> manifest_contains_path rem path)\<rparr>
    in and_then (insert_all combined copies) (\<lambda>combined.
       Ok (cb\<lparr>cb_manifest := combined,
              cb_reserved := map fst copies @ remote_copy_path # cb_reserved cb,
              cb_state := (cb_state cb)\<lparr>ss_conflicts := bt_insert path record (ss_conflicts (cb_state cb))\<rparr>,
              cb_report_conflicts := cb_report_conflicts cb @ [path]\<rparr>)))"


section \<open>The loop\<close>

record Blobs =
  bl_base :: "(string \<times> bytes) list"
  bl_local :: "(string \<times> bytes) list"
  bl_remote :: "(string \<times> bytes) list"

text \<open>The contents a merge works on: the remote file's may be known from any of the three.\<close>

definition remote_bytes :: "Blobs \<Rightarrow> string \<Rightarrow> bytes option" where
  "remote_bytes blobs hash = (case map_of (bl_remote blobs) hash of Some b \<Rightarrow> Some b
     | None \<Rightarrow> (case map_of (bl_local blobs) hash of Some b \<Rightarrow> Some b
         | None \<Rightarrow> map_of (bl_base blobs) hash))"

definition merged_text :: "Blobs \<Rightarrow> ManifestEntry option \<Rightarrow> ManifestEntry option \<Rightarrow> ManifestEntry option \<Rightarrow>
    (FileEntry \<times> bytes) option" where
  "merged_text blobs b l r = (case (b, l, r) of
     (Some (File base_file), Some (File local_file), Some (File remote_file)) \<Rightarrow>
       (case (map_of (bl_base blobs) (fe_content_hash base_file),
              map_of (bl_local blobs) (fe_content_hash local_file),
              remote_bytes blobs (fe_content_hash remote_file)) of
          (Some base_b, Some local_b, Some remote_b) \<Rightarrow>
            map_option (Pair local_file) (merge_text_three_way base_b local_b remote_b)
        | _ \<Rightarrow> None)
   | _ \<Rightarrow> None)"

definition insert_entry :: "Combined \<Rightarrow> string \<Rightarrow> ManifestEntry option \<Rightarrow> Combined protocol_result" where
  "insert_entry cb path entry = (case entry of None \<Rightarrow> Ok cb
     | Some e \<Rightarrow> and_then (manifest_insert (cb_manifest cb) path e) (\<lambda>m. Ok (cb\<lparr>cb_manifest := m\<rparr>)))"

definition merged_entry :: "(bytes \<Rightarrow> bytes) \<Rightarrow> FileEntry \<Rightarrow> bytes \<Rightarrow> ManifestEntry" where
  "merged_entry sha256 local_file b =
     entry_file (word_of_nat (length b)) (hex_encode (sha256 b)) (fe_modified_at local_file)"

definition combine_item :: "(bytes \<Rightarrow> bytes) \<Rightarrow> Blobs \<Rightarrow> Manifest \<Rightarrow> Manifest \<Rightarrow> Manifest \<Rightarrow> u64 \<Rightarrow>
    ReconciliationPath \<Rightarrow> Combined \<Rightarrow> Combined protocol_result" where
  "combine_item sha256 blobs base staged rem revision item cb =
    (let path = rp_path item; local_entry = manifest_get staged path; remote_entry = manifest_get rem path in
     case rp_action item of
       Unchanged \<Rightarrow> insert_entry cb path local_entry
     | Upload \<Rightarrow> insert_entry cb path local_entry
     | Download \<Rightarrow> insert_entry cb path remote_entry
     | Merge \<Rightarrow> (case merged_text blobs (manifest_get base path) local_entry remote_entry of
           Some (local_file, b) \<Rightarrow>
             and_then (insert_entry cb path (Some (merged_entry sha256 local_file b))) (\<lambda>cb.
               Ok (cb\<lparr>cb_merged_bytes := bt_insert (hex_encode (sha256 b)) b (cb_merged_bytes cb)\<rparr>))
         | None \<Rightarrow> add_conflict staged rem revision path cb)
     | Conflict \<Rightarrow> add_conflict staged rem revision path cb)"

fun combine :: "(bytes \<Rightarrow> bytes) \<Rightarrow> Blobs \<Rightarrow> Manifest \<Rightarrow> Manifest \<Rightarrow> Manifest \<Rightarrow> u64 \<Rightarrow>
    ReconciliationPath list \<Rightarrow> Combined \<Rightarrow> Combined protocol_result" where
  "combine sha256 blobs base staged rem revision [] cb = Ok cb"
| "combine sha256 blobs base staged rem revision (item # items) cb =
    and_then (combine_item sha256 blobs base staged rem revision item cb) (\<lambda>cb.
      combine sha256 blobs base staged rem revision items cb)"

text \<open>Before the loop: nothing combined, and every path in use reserved.\<close>

definition combine_start :: "WorkspaceId \<Rightarrow> SyncState \<Rightarrow> string list \<Rightarrow> Manifest \<Rightarrow> Manifest \<Rightarrow> Manifest \<Rightarrow>
    Combined" where
  "combine_start w state report_conflicts base loc rem = \<lparr>
     cb_manifest = manifest_new w, cb_state = state, cb_report_conflicts = report_conflicts,
     cb_reserved = entry_keys loc @ entry_keys rem @ entry_keys base
       @ map (cf_remote_copy_path \<circ> snd) (ss_conflicts state),
     cb_merged_bytes = []\<rparr>"



section \<open>Inserting many entries\<close>

definition put_all :: "(string \<times> ManifestEntry) list \<Rightarrow> Manifest \<Rightarrow> Manifest" where
  "put_all kvs m = m\<lparr>mf_entries := fold (\<lambda>(k, v). bt_insert k v) kvs (mf_entries m)\<rparr>"

lemma put_all_simps [simp]:
  "put_all [] m = m" "put_all ((k, v) # kvs) m = put_all kvs (m\<lparr>mf_entries := bt_insert k v (mf_entries m)\<rparr>)"
  "mf_workspace_id (put_all kvs m) = mf_workspace_id m"
  by (simp_all add: put_all_def)

lemma insert_all_put_all: "\<forall>k \<in> fst ` set kvs. path_ok k \<Longrightarrow> insert_all m kvs = Ok (put_all kvs m)"
proof (induction kvs arbitrary: m)
  case (Cons kv kvs)
  obtain k v where kv: "kv = (k, v)" by (cases kv)
  then have "manifest_insert m k v = Ok (m\<lparr>mf_entries := bt_insert k v (mf_entries m)\<rparr>)"
    using Cons.prems by (auto simp: manifest_insert_Ok_iff)
  then show ?case using Cons kv by simp
qed simp

lemma get_put_all:
  "distinct (map fst kvs) \<Longrightarrow> manifest_get (put_all kvs m) q
     = (case map_of kvs q of Some e \<Rightarrow> Some e | None \<Rightarrow> manifest_get m q)"
proof (induction kvs arbitrary: m)
  case (Cons kv kvs)
  obtain k v where kv: "kv = (k, v)" by (cases kv)
  have "k \<notin> fst ` set kvs" using Cons.prems kv by auto
  then have "map_of kvs k = None" by (simp add: map_of_eq_None_iff)
  moreover have "manifest_get (put_all kvs (m\<lparr>mf_entries := bt_insert k v (mf_entries m)\<rparr>)) q =
      (case map_of kvs q of Some e \<Rightarrow> Some e
       | None \<Rightarrow> manifest_get (m\<lparr>mf_entries := bt_insert k v (mf_entries m)\<rparr>) q)"
    using Cons by simp
  ultimately show ?case using kv by (auto simp: manifest_get_def split: option.splits)
qed simp

lemma put_all_wf: "manifest_wf m \<Longrightarrow> \<forall>k \<in> fst ` set kvs. path_ok k \<Longrightarrow> manifest_wf (put_all kvs m)"
proof (induction kvs arbitrary: m)
  case (Cons kv kvs)
  obtain k v where kv: "kv = (k, v)" by (cases kv)
  then have "manifest_wf (m\<lparr>mf_entries := bt_insert k v (mf_entries m)\<rparr>)"
    using Cons.prems manifest_insert_wf[of m k v] by (auto simp: manifest_insert_Ok_iff)
  then show ?case using Cons kv by simp
qed simp


section \<open>Subtrees and their copies\<close>

lemma in_subtree_iff: "in_subtree r q \<longleftrightarrow> (\<exists>s. q = r @ s \<and> (s = [] \<or> (\<exists>t. s = slash # t)))"
  by (auto simp: in_subtree_def under_iff)

lemma map_of_subtree_entries:
  "map_of (subtree_entries r m) q = (if in_subtree r q then manifest_get m q else None)"
proof -
  have "map_of (filter (\<lambda>(k, _). P k) xs) q = (if P q then map_of xs q else None)"
    for P and xs :: "(string \<times> ManifestEntry) list"
    by (induction xs) auto
  then show ?thesis by (simp add: subtree_entries_def manifest_get_def)
qed

lemma subtree_entries_key: "(k, v) \<in> set (subtree_entries r m) \<Longrightarrow> in_subtree r k \<and> (k, v) \<in> set (mf_entries m)"
  by (auto simp: subtree_entries_def)

lemma distinct_subtree_entries: "manifest_wf m \<Longrightarrow> distinct (map fst (subtree_entries r m))"
  unfolding subtree_entries_def manifest_wf_def using bt_wf_distinct bt_wf_filter by blast

lemma copy_entries_key:
  "(k, v) \<in> set (copy_entries r C m) \<Longrightarrow> \<exists>s. k = C @ s \<and> (r @ s, v) \<in> set (mf_entries m) \<and> in_subtree r (r @ s)"
  by (auto simp: copy_entries_def in_subtree_iff dest!: subtree_entries_key)

lemma distinct_copy_entries:
  assumes "manifest_wf m"
  shows "distinct (map fst (copy_entries r C m))"
proof -
  have keys: "map fst (copy_entries r C m) = map (\<lambda>k. C @ drop (length r) k) (map fst (subtree_entries r m))"
    by (auto simp: copy_entries_def)
  have "inj_on (\<lambda>k. C @ drop (length r) k) (set (map fst (subtree_entries r m)))"
    by (auto simp: inj_on_def in_subtree_iff dest!: subtree_entries_key)
  then show ?thesis unfolding keys by (rule distinct_map[THEN iffD2, OF conjI, OF distinct_subtree_entries[OF assms]])
qed

lemma map_of_copy_entries:
  assumes "manifest_wf m"
  shows "map_of (copy_entries r C m) q =
    (if in_subtree C q then manifest_get m (r @ drop (length C) q) else None)"
proof (cases "map_of (copy_entries r C m) q")
  case None
  have "manifest_get m (r @ s) = None" if "q = C @ s" "s = [] \<or> (\<exists>t. s = slash # t)" for s
  proof (rule ccontr)
    assume "manifest_get m (r @ s) \<noteq> None"
    then obtain e where "(r @ s, e) \<in> set (mf_entries m)" by (auto simp: manifest_get_def dest: map_of_SomeD)
    then have "(r @ s, e) \<in> set (subtree_entries r m)" using that(2) by (auto simp: subtree_entries_def in_subtree_iff)
    then have "(C @ s, e) \<in> set (copy_entries r C m)" by (force simp: copy_entries_def)
    then show False using None that(1) by (auto simp: map_of_eq_None_iff intro: rev_image_eqI)
  qed
  then show ?thesis using None by (auto simp: in_subtree_iff)
next
  case (Some e)
  then obtain s where s: "q = C @ s" "(r @ s, e) \<in> set (mf_entries m)" "in_subtree r (r @ s)"
    by (auto dest!: map_of_SomeD copy_entries_key)
  then have "manifest_get m (r @ s) = Some e" using assms by (simp add: manifest_get_def manifest_wf_def bt_in_set_iff)
  then show ?thesis using Some s by (auto simp: in_subtree_iff)
qed

text \<open>The paths of a copy are valid.\<close>

lemma split_on_append_general: "split_on c (s @ c # t) = split_on c s @ split_on c t"
  by (induction s) (auto split: list.splits)

lemma path_ok_child: "path_ok (r @ slash # t) \<Longrightarrow> path_ok C \<Longrightarrow> path_ok (C @ slash # t)"
  by (auto simp: path_ok_components path_components_def split_on_append_general)

lemma split_on_extend:
  "c \<notin> set x \<Longrightarrow> split_on c (s @ x) = butlast (split_on c s) @ [last (split_on c s) @ x]"
proof (induction s)
  case Nil
  then show ?case by (simp add: split_on_no_sep)
next
  case (Cons a s)
  obtain y ys where y: "split_on c s = y # ys" by (cases "split_on c s") auto
  show ?case using Cons y by (cases ys rule: rev_cases) (auto simp: butlast_append)
qed

lemma path_ok_extend:
  assumes "path_ok r" and "slash \<notin> set x" and "backslash \<notin> set x" and "length x > 2"
  shows "path_ok (r @ x)"
proof -
  have "\<not> bad_component (y @ x)" for y
    using assms(4) by (auto simp: bad_component_def dest!: arg_cong[of _ _ length])
  then show ?thesis using assms
    by (auto simp: path_ok_components path_components_def split_on_extend dest: in_set_butlastD)
qed

lemma copy_name_suffix:
  "\<exists>x. candidate (conflict_copy_path r revision) n = r @ x \<and> slash \<notin> set x \<and> backslash \<notin> set x \<and> length x > 2"
proof -
  have digits: "slash \<notin> set (show_nat m) \<and> backslash \<notin> set (show_nat m)" for m
    using show_nat_digits[of m] by (auto simp: list_all_iff is_digit_char_def less_eq_char_def)
  show ?thesis
    by (rule exI[of _ "''.rustsync-conflict-remote-r'' @ show_u64 revision @ (if n = 0 then [] else ''-'' @ show_nat n)"])
       (auto simp: candidate_def conflict_copy_path_def show_u64_def digits)
qed

end
