(* ===== verification/Combine_Props.thy ===== *)
theory Combine_Props
  imports Combine
begin

text \<open>
  The combination of a plan into one manifest: it always succeeds on valid manifests, yields a
  valid tree again, and keeps what either side changed.  The proofs follow one invariant over the
  items done so far, which fixes the content of every path the two sides use and confines all other
  paths to the copies the conflicts made.
\<close>

section \<open>Trees\<close>

text \<open>The paths above a path, and manifests that list every directory above an entry.\<close>

definition parent_paths :: "string \<Rightarrow> string list" where
  "parent_paths p = map (\<lambda>i. take i p) (filter (\<lambda>i. p ! i = slash) [0..<length p])"

lemma set_parent_paths: "q \<in> set (parent_paths p) \<longleftrightarrow> under q p"
proof
  assume "q \<in> set (parent_paths p)"
  then obtain i where i: "i < length p" "p ! i = slash" "q = take i p" by (auto simp: parent_paths_def)
  then have "p = q @ slash # drop (Suc i) p" by (metis id_take_nth_drop)
  then show "under q p" by (auto simp: under_iff)
next
  assume "under q p"
  then obtain t where "p = q @ slash # t" by (auto simp: under_iff)
  then show "q \<in> set (parent_paths p)"
    by (auto simp: parent_paths_def intro!: image_eqI[of _ _ "length q"])
qed

definition dir_closed :: "Manifest \<Rightarrow> bool" where
  "dir_closed m \<longleftrightarrow> list_all (\<lambda>p. list_all (\<lambda>q. manifest_get m q = Some Directory) (parent_paths p)) (entry_keys m)"

lemma dir_closed_iff:
  "dir_closed m \<longleftrightarrow> (\<forall>p q. manifest_get m p \<noteq> None \<and> under q p \<longrightarrow> manifest_get m q = Some Directory)"
  by (auto simp: dir_closed_def list_all_iff set_parent_paths manifest_get_None_iff)

lemma dir_closedD: "dir_closed m \<Longrightarrow> manifest_get m p = Some e \<Longrightarrow> under q p \<Longrightarrow> manifest_get m q = Some Directory"
  by (auto simp: dir_closed_iff)

text \<open>The paths the two sides use, and what the two manifests have to be.\<close>

definition used :: "Manifest \<Rightarrow> Manifest \<Rightarrow> string \<Rightarrow> bool" where
  "used loc rem p \<longleftrightarrow> manifest_get loc p \<noteq> None \<or> manifest_get rem p \<noteq> None"

definition valid_tree :: "Manifest \<Rightarrow> bool" where
  "valid_tree m \<longleftrightarrow> manifest_wf m \<and> dir_closed m"

lemma used_parent:
  "valid_tree loc \<Longrightarrow> valid_tree rem \<Longrightarrow> used loc rem p \<Longrightarrow> under q p \<Longrightarrow> used loc rem q"
  by (auto simp: used_def valid_tree_def dest: dir_closedD)

lemma used_path_ok:
  assumes "valid_tree loc" and "valid_tree rem" and "used loc rem p"
  shows "path_ok p"
proof -
  have "path_ok p" if "manifest_wf m" "manifest_get m p = Some e" for m e
    using that by (force simp: manifest_wf_def manifest_get_def dest: map_of_SomeD)
  then show ?thesis using assms by (auto simp: used_def valid_tree_def)
qed


section \<open>Copies keep to themselves\<close>

text \<open>A name that extends a path without a slash.\<close>

definition sibling :: "string \<Rightarrow> string \<Rightarrow> bool" where
  "sibling r C \<longleftrightarrow> (\<exists>x. C = r @ x \<and> x \<noteq> [] \<and> slash \<notin> set x)"

lemma under_sibling: "under q (r @ x) \<Longrightarrow> slash \<notin> set x \<Longrightarrow> under q r"
proof -
  assume "under q (r @ x)" and x: "slash \<notin> set x"
  then obtain t where t: "r @ x = q @ slash # t" by (auto simp: under_iff)
  have "length q < length r"
  proof (rule ccontr)
    assume "\<not> length q < length r"
    then have "(r @ x) ! length q = x ! (length q - length r)" by (simp add: nth_append)
    moreover have "length q - length r < length x"
      using arg_cong[OF t, of length] \<open>\<not> length q < length r\<close> by simp
    ultimately have "slash \<in> set x" using t by (metis nth_append_length nth_mem)
    then show False using x by simp
  qed
  then have "r ! length q = slash" "take (length q) r = q"
    using arg_cong[OF t, of "\<lambda>s. s ! length q"] arg_cong[OF t, of "take (length q)"] by (simp_all add: nth_append)
  then have "r = q @ slash # drop (Suc (length q)) r"
    using \<open>length q < length r\<close> by (metis id_take_nth_drop)
  then show "under q r" by (auto simp: under_iff)
qed

lemma sibling_under: "sibling r C \<Longrightarrow> under q C \<Longrightarrow> under q r"
  by (auto simp: sibling_def dest: under_sibling)

lemma sibling_subtree: "sibling r C \<Longrightarrow> in_subtree C q \<Longrightarrow> \<not> in_subtree r q"
  by (auto simp: sibling_def in_subtree_iff append_eq_Cons_conv)

lemma in_subtree_linear: "in_subtree a q \<Longrightarrow> in_subtree b q \<Longrightarrow> a = b \<or> under a b \<or> under b a"
proof -
  assume "in_subtree a q" "in_subtree b q"
  then obtain s t where q: "q = a @ s" "q = b @ t" "s = [] \<or> (\<exists>u. s = slash # u)" "t = [] \<or> (\<exists>u. t = slash # u)"
    unfolding in_subtree_iff by blast
  then have eq: "a @ s = b @ t" by simp
  then obtain us where "a = b @ us \<and> us @ s = t \<or> a @ us = b \<and> s = us @ t" by (auto simp: append_eq_append_conv2)
  then show ?thesis using q(3,4) by (cases us) (auto simp: under_iff)
qed

text \<open>Two copies of used paths do not meet, and none meets a used path.\<close>

lemma copy_not_used:
  "valid_tree loc \<Longrightarrow> valid_tree rem \<Longrightarrow> \<not> used loc rem C \<Longrightarrow> in_subtree C q \<Longrightarrow> \<not> used loc rem q"
  using used_parent by (auto simp: in_subtree_def)

lemma copies_disjoint:
  assumes "valid_tree loc" "valid_tree rem" "sibling r C" "sibling r' C'" "used loc rem r" "used loc rem r'"
    "\<not> used loc rem C" "\<not> used loc rem C'" "in_subtree C q" "in_subtree C' q"
  shows "C = C'"
proof -
  have "\<not> under C C'" using assms used_parent sibling_under by blast
  moreover have "\<not> under C' C" using assms used_parent sibling_under by blast
  ultimately show ?thesis using in_subtree_linear[OF assms(9,10)] by blast
qed


section \<open>What is chosen for a path\<close>

definition merge_of :: "Blobs \<Rightarrow> Manifest \<Rightarrow> Manifest \<Rightarrow> Manifest \<Rightarrow> string \<Rightarrow> (FileEntry \<times> bytes) option" where
  "merge_of blobs base loc rem p =
     merged_text blobs (manifest_get base p) (manifest_get loc p) (manifest_get rem p)"

definition conflicting :: "Blobs \<Rightarrow> Manifest \<Rightarrow> Manifest \<Rightarrow> Manifest \<Rightarrow> string \<Rightarrow> bool" where
  "conflicting blobs base loc rem p \<longleftrightarrow> path_action base loc rem p = Conflict
     \<or> path_action base loc rem p = Merge \<and> merge_of blobs base loc rem p = None"

definition chosen :: "(bytes \<Rightarrow> bytes) \<Rightarrow> Blobs \<Rightarrow> Manifest \<Rightarrow> Manifest \<Rightarrow> Manifest \<Rightarrow> string \<Rightarrow>
    ManifestEntry option" where
  "chosen sha256 blobs base loc rem p =
    (if shadowed base loc rem p then manifest_get loc p
     else (case path_action base loc rem p of
         Download \<Rightarrow> manifest_get rem p
       | Merge \<Rightarrow> (case merge_of blobs base loc rem p of
             Some (f, b) \<Rightarrow> Some (merged_entry sha256 f b) | None \<Rightarrow> manifest_get loc p)
       | _ \<Rightarrow> manifest_get loc p))"

lemma merge_of_files:
  "merge_of blobs base loc rem p = Some (f, b) \<Longrightarrow> manifest_get loc p = Some (File f)"
  by (auto simp: merge_of_def merged_text_def split: option.splits ManifestEntry.splits prod.splits)

lemma chosen_used: "chosen sha256 blobs base loc rem p = Some e \<Longrightarrow> used loc rem p"
  by (auto simp: chosen_def used_def dest!: merge_of_files split: if_splits ReconciliationAction.splits option.splits)

lemma conflicting_used: "conflicting blobs base loc rem p \<Longrightarrow> used loc rem p"
  using path_action_sound[where base = base and loc = loc and rem = rem and p = p] by (auto simp: conflicting_def used_def)

lemma conflicting_chosen: "conflicting blobs base loc rem p \<Longrightarrow> chosen sha256 blobs base loc rem p = manifest_get loc p"
  by (auto simp: conflicting_def chosen_def)

lemma shadowed_chosen: "shadowed base loc rem p \<Longrightarrow> chosen sha256 blobs base loc rem p = manifest_get loc p"
  by (simp add: chosen_def)

lemma all_paths_used: "used loc rem p \<Longrightarrow> p \<in> set (all_paths base loc rem)"
  by (auto simp: used_def all_paths_def manifest_get_None_iff)

text \<open>Below a conflict nothing else is decided: a path is shadowed, or nobody uses it.\<close>

lemma below_conflict:
  assumes "valid_tree loc" "valid_tree rem" "conflicting blobs base loc rem r" "under r q" "used loc rem q"
  shows "shadowed base loc rem q"
proof (cases "structural loc rem r")
  case True
  then have "path_action base loc rem r \<noteq> Merge" by (auto simp: path_action_def)
  then have "conflict_root base loc rem r" using True assms(3) by (auto simp: conflict_root_def conflicting_def)
  moreover have "r \<in> set (all_paths base loc rem)" using conflicting_used[OF assms(3)] by (rule all_paths_used)
  ultimately show ?thesis using assms(4) by (auto simp: shadowed_def list_ex_iff)
next
  case False
  have "manifest_get loc r = Some Directory \<or> manifest_get rem r = Some Directory"
    using assms(1,2,4,5) dir_closedD by (auto simp: used_def valid_tree_def)
  then have "manifest_get loc r = manifest_get rem r"
    using False by (auto simp: structural_def is_directory_def)
  then show ?thesis using path_action_sound[where base = base and loc = loc and rem = rem and p = r] assms(3) by (auto simp: conflicting_def)
qed



section \<open>The invariant of the loop\<close>

definition copied :: "Manifest \<Rightarrow> Manifest \<Rightarrow> Combined \<Rightarrow> string \<Rightarrow> bool" where
  "copied loc rem cb r \<longleftrightarrow> (\<exists>C.
     map_of (ss_conflicts (cb_state cb)) r = Some \<lparr>cf_local_copy_path = r, cf_remote_copy_path = C,
       cf_remote_deleted = (manifest_get rem r = None)\<rparr>
     \<and> \<not> used loc rem C \<and> C \<in> set (cb_reserved cb) \<and> sibling r C
     \<and> (\<forall>q. in_subtree C q \<longrightarrow> manifest_get (cb_manifest cb) q = manifest_get rem (r @ drop (length C) q)))"

definition in_copy :: "Combined \<Rightarrow> string \<Rightarrow> string \<Rightarrow> bool" where
  "in_copy cb r q \<longleftrightarrow> (\<exists>rec. map_of (ss_conflicts (cb_state cb)) r = Some rec
     \<and> in_subtree (cf_remote_copy_path rec) q)"

text \<open>What holds when the items with the paths \<open>ps\<close> are done.\<close>

definition combine_inv :: "(bytes \<Rightarrow> bytes) \<Rightarrow> Blobs \<Rightarrow> Manifest \<Rightarrow> Manifest \<Rightarrow> Manifest \<Rightarrow>
    string set \<Rightarrow> Combined \<Rightarrow> bool" where
  "combine_inv sha256 blobs base loc rem ps cb \<longleftrightarrow>
     manifest_wf (cb_manifest cb)
   \<and> (\<forall>q. used loc rem q \<longrightarrow> q \<in> set (cb_reserved cb))
   \<and> (\<forall>q. used loc rem q \<longrightarrow> manifest_get (cb_manifest cb) q \<in> {None, chosen sha256 blobs base loc rem q})
   \<and> (\<forall>p \<in> ps. used loc rem p \<longrightarrow> manifest_get (cb_manifest cb) p = chosen sha256 blobs base loc rem p)
   \<and> (\<forall>p \<in> ps. conflicting blobs base loc rem p \<longrightarrow> copied loc rem cb p
        \<and> (\<forall>q. under p q \<and> used loc rem q \<longrightarrow> manifest_get (cb_manifest cb) q = manifest_get loc q))
   \<and> (\<forall>q. \<not> used loc rem q \<and> manifest_get (cb_manifest cb) q \<noteq> None \<longrightarrow>
        (\<exists>p \<in> ps. conflicting blobs base loc rem p \<and> in_copy cb p q))"

lemma combine_invD:
  assumes "combine_inv sha256 blobs base loc rem ps cb"
  shows "manifest_wf (cb_manifest cb)"
    and "used loc rem q \<Longrightarrow> q \<in> set (cb_reserved cb)"
    and "used loc rem q \<Longrightarrow> manifest_get (cb_manifest cb) q \<in> {None, chosen sha256 blobs base loc rem q}"
    and "p \<in> ps \<Longrightarrow> used loc rem p \<Longrightarrow> manifest_get (cb_manifest cb) p = chosen sha256 blobs base loc rem p"
    and "p \<in> ps \<Longrightarrow> conflicting blobs base loc rem p \<Longrightarrow> copied loc rem cb p"
    and "p \<in> ps \<Longrightarrow> conflicting blobs base loc rem p \<Longrightarrow> under p q \<Longrightarrow> used loc rem q \<Longrightarrow>
           manifest_get (cb_manifest cb) q = manifest_get loc q"
    and "\<not> used loc rem q \<Longrightarrow> manifest_get (cb_manifest cb) q = Some e \<Longrightarrow>
           \<exists>p \<in> ps. conflicting blobs base loc rem p \<and> in_copy cb p q"
  using assms by (simp_all add: combine_inv_def)

lemma combine_inv_start:
  assumes "set (entry_keys loc0) = set (entry_keys loc)"
  shows "combine_inv sha256 blobs base loc rem {} (combine_start w state rc base loc0 rem)"
proof -
  have "manifest_get (manifest_new w) q = None" for q by (simp add: manifest_get_def manifest_new_def)
  then show ?thesis by (auto simp: combine_inv_def combine_start_def used_def manifest_get_None_iff assms)
qed

text \<open>Any other item writes its own path only.\<close>

lemma combine_item_plain:
  assumes "\<not> shadowed base loc rem p" "\<not> conflicting blobs base loc rem p"
  shows "\<exists>merged. combine_item sha256 blobs base loc rem revision
           \<lparr>rp_path = p, rp_action = path_action base loc rem p\<rparr> cb =
         (case chosen sha256 blobs base loc rem p of None \<Rightarrow> Ok cb
          | Some e \<Rightarrow> and_then (manifest_insert (cb_manifest cb) p e)
              (\<lambda>m. Ok (cb\<lparr>cb_manifest := m, cb_merged_bytes := merged\<rparr>)))"
proof (cases "path_action base loc rem p = Merge")
  case True
  then obtain f b where fb: "merge_of blobs base loc rem p = Some (f, b)" using assms by (auto simp: conflicting_def)
  show ?thesis
    by (rule exI[of _ "bt_insert (hex_encode (sha256 b)) b (cb_merged_bytes cb)"])
       (use True fb assms in \<open>cases "manifest_insert (cb_manifest cb) p (merged_entry sha256 f b)";
          simp add: combine_item_def chosen_def merge_of_def insert_entry_def\<close>)
next
  case False
  have "cb\<lparr>cb_manifest := m, cb_merged_bytes := cb_merged_bytes cb\<rparr> = cb\<lparr>cb_manifest := m\<rparr>" for m by simp
  then show ?thesis using False assms
    by (intro exI[of _ "cb_merged_bytes cb"])
       (auto simp: combine_item_def chosen_def insert_entry_def conflicting_def split: ReconciliationAction.splits option.splits)
qed

lemma combine_step_plain:
  assumes trees: "valid_tree loc" "valid_tree rem"
    and inv: "combine_inv sha256 blobs base loc rem ps cb"
    and p: "\<not> shadowed base loc rem p" "\<not> conflicting blobs base loc rem p"
  shows "\<exists>cb'. combine_item sha256 blobs base loc rem revision
           \<lparr>rp_path = p, rp_action = path_action base loc rem p\<rparr> cb = Ok cb'
         \<and> combine_inv sha256 blobs base loc rem (insert p ps) cb'"
proof -
  obtain merged where run: "combine_item sha256 blobs base loc rem revision
           \<lparr>rp_path = p, rp_action = path_action base loc rem p\<rparr> cb =
         (case chosen sha256 blobs base loc rem p of None \<Rightarrow> Ok cb
          | Some e \<Rightarrow> and_then (manifest_insert (cb_manifest cb) p e)
              (\<lambda>m. Ok (cb\<lparr>cb_manifest := m, cb_merged_bytes := merged\<rparr>)))"
    using combine_item_plain[OF p] by blast
  show ?thesis
  proof (cases "chosen sha256 blobs base loc rem p")
    case None
    then have "combine_inv sha256 blobs base loc rem (insert p ps) cb"
      using inv p combine_invD(3)[OF inv, of p] by (auto simp: combine_inv_def)
    then show ?thesis using run None by simp
  next
    case (Some e)
    have used: "used loc rem p" using chosen_used[OF Some] .
    then have "path_ok p" using trees used_path_ok by blast
    then obtain m where m: "manifest_insert (cb_manifest cb) p e = Ok m" by (auto simp: manifest_insert_Ok_iff)
    let ?cb = "cb\<lparr>cb_manifest := m, cb_merged_bytes := merged\<rparr>"
    have get: "manifest_get m q = (if q = p then Some e else manifest_get (cb_manifest cb) q)" for q
      using manifest_get_insert[OF m] .
    have copied: "copied loc rem ?cb r" if "copied loc rem cb r" for r
      using that copy_not_used[OF trees] used by (fastforce simp: copied_def get)
    have below: "manifest_get m q = manifest_get loc q"
      if "p' \<in> ps" "conflicting blobs base loc rem p'" "under p' q" "used loc rem q" for p' q
      using below_conflict[OF trees that(2-4)] p(1) combine_invD(6)[OF inv that] get by auto
    show ?thesis
    proof (intro exI conjI)
      show "combine_inv sha256 blobs base loc rem (insert p ps) ?cb"
        using inv manifest_insert_wf[OF _ m] Some used p copied below
        by (auto simp: combine_inv_def get in_copy_def)
    qed (use run m Some in simp)
  qed
qed


text \<open>A conflict keeps the local side and copies the remote one.\<close>

lemma contains_iff: "manifest_contains_path m p \<longleftrightarrow> manifest_get m p \<noteq> None"
  by (simp add: manifest_contains_path_def bt_contains_def manifest_get_def)

lemma add_conflict_run:
  fixes revision :: u64
  assumes trees: "valid_tree loc" "valid_tree rem"
    and inv: "combine_inv sha256 blobs base loc rem ps cb" and r: "used loc rem r"
  shows "\<exists>C cb'. add_conflict loc rem revision r cb = Ok cb'
     \<and> C \<notin> set (cb_reserved cb) \<and> sibling r C \<and> C \<in> set (cb_reserved cb')
     \<and> set (cb_reserved cb) \<subseteq> set (cb_reserved cb') \<and> manifest_wf (cb_manifest cb')
     \<and> cb_state cb' = (cb_state cb)\<lparr>ss_conflicts := bt_insert r \<lparr>cf_local_copy_path = r,
         cf_remote_copy_path = C, cf_remote_deleted = (manifest_get rem r = None)\<rparr> (ss_conflicts (cb_state cb))\<rparr>
     \<and> (\<forall>q. manifest_get (cb_manifest cb') q =
         (if in_subtree C q \<and> manifest_get rem (r @ drop (length C) q) \<noteq> None
          then manifest_get rem (r @ drop (length C) q)
          else if in_subtree r q \<and> manifest_get loc q \<noteq> None then manifest_get loc q
          else manifest_get (cb_manifest cb) q))"
proof -
  let ?C = "fresh_copy (cb_reserved cb) (conflict_copy_path r revision) 0"
  let ?own = "subtree_entries r loc" and ?copies = "copy_entries r ?C rem"
  obtain n where n: "?C = candidate (conflict_copy_path r revision) n" using fresh_copy_candidate by blast
  obtain x where x: "?C = r @ x" "slash \<notin> set x" "backslash \<notin> set x" "length x > 2"
    using copy_name_suffix[of r revision n] n by auto
  have wf: "manifest_wf loc" "manifest_wf rem" using trees by (auto simp: valid_tree_def)
  have C_ok: "path_ok ?C" using path_ok_extend[OF used_path_ok[OF trees r] x(2-4)] x(1) by simp
  have ok: "path_ok k" if "(k, e) \<in> set (mf_entries m)" "manifest_wf m" for k e m
    using that by (force simp: manifest_wf_def)
  have own: "\<forall>k \<in> fst ` set ?own. path_ok k" using wf ok subtree_entries_key by (fastforce intro: ok)
  have copies: "\<forall>k \<in> fst ` set ?copies. path_ok k"
    using wf(2) C_ok ok path_ok_child by (fastforce simp: in_subtree_iff dest!: copy_entries_key)
  let ?m = "put_all ?copies (put_all ?own (cb_manifest cb))"
  let ?cr = "\<lparr>cf_local_copy_path = r, cf_remote_copy_path = ?C, cf_remote_deleted = (manifest_get rem r = None)\<rparr>"
  let ?cb = "cb\<lparr>cb_manifest := ?m, cb_reserved := map fst ?copies @ ?C # cb_reserved cb,
      cb_state := (cb_state cb)\<lparr>ss_conflicts := bt_insert r ?cr (ss_conflicts (cb_state cb))\<rparr>,
      cb_report_conflicts := cb_report_conflicts cb @ [r]\<rparr>"
  have get: "manifest_get ?m q =
         (if in_subtree ?C q \<and> manifest_get rem (r @ drop (length ?C) q) \<noteq> None
          then manifest_get rem (r @ drop (length ?C) q)
          else if in_subtree r q \<and> manifest_get loc q \<noteq> None then manifest_get loc q
          else manifest_get (cb_manifest cb) q)" for q
    using wf by (auto simp: get_put_all distinct_copy_entries distinct_subtree_entries map_of_copy_entries
        map_of_subtree_entries split: option.splits)
  have "add_conflict loc rem revision r cb = Ok ?cb"
    by (simp add: add_conflict_def insert_all_put_all[OF own] insert_all_put_all[OF copies] contains_iff Let_def)
  moreover have "sibling r ?C" using x by (auto simp: sibling_def)
  moreover have "manifest_wf ?m" using put_all_wf own copies combine_invD(1)[OF inv] by blast
  ultimately show ?thesis using fresh_copy_fresh[of "cb_reserved cb"] get
    by (intro exI[of _ ?C] exI[of _ ?cb]) auto
qed


lemma combine_item_conflict:
  "conflicting blobs base loc rem p \<Longrightarrow> combine_item sha256 blobs base loc rem revision
      \<lparr>rp_path = p, rp_action = path_action base loc rem p\<rparr> cb = add_conflict loc rem revision p cb"
  by (auto simp: conflicting_def combine_item_def merge_of_def)

lemma combine_step_conflict:
  fixes revision :: u64
  assumes trees: "valid_tree loc" "valid_tree rem"
    and inv: "combine_inv sha256 blobs base loc rem ps cb"
    and r: "conflicting blobs base loc rem r" "r \<notin> ps"
  shows "\<exists>cb'. add_conflict loc rem revision r cb = Ok cb'
         \<and> combine_inv sha256 blobs base loc rem (insert r ps) cb'"
proof -
  have used: "used loc rem r" using conflicting_used[OF r(1)] .
  obtain C cb' where run: "add_conflict loc rem revision r cb = Ok cb'"
    and C: "C \<notin> set (cb_reserved cb)" "sibling r C" "C \<in> set (cb_reserved cb')"
    and reserved: "set (cb_reserved cb) \<subseteq> set (cb_reserved cb')" and wf: "manifest_wf (cb_manifest cb')"
    and state: "cb_state cb' = (cb_state cb)\<lparr>ss_conflicts := bt_insert r \<lparr>cf_local_copy_path = r,
         cf_remote_copy_path = C, cf_remote_deleted = (manifest_get rem r = None)\<rparr> (ss_conflicts (cb_state cb))\<rparr>"
    and get: "\<And>q. manifest_get (cb_manifest cb') q =
         (if in_subtree C q \<and> manifest_get rem (r @ drop (length C) q) \<noteq> None
          then manifest_get rem (r @ drop (length C) q)
          else if in_subtree r q \<and> manifest_get loc q \<noteq> None then manifest_get loc q
          else manifest_get (cb_manifest cb) q)"
    using add_conflict_run[OF trees inv used] by blast
  have C_unused: "\<not> used loc rem C" using C(1) combine_invD(2)[OF inv] by blast
  note clean = copy_not_used[OF trees C_unused]
  have local_used: "used loc rem q" if "manifest_get loc q \<noteq> None" for q using that by (simp add: used_def)
  have at_used: "manifest_get (cb_manifest cb') q = (if in_subtree r q \<and> manifest_get loc q \<noteq> None
      then manifest_get loc q else manifest_get (cb_manifest cb) q)" if "used loc rem q" for q
    using that clean get by auto
  have choose: "chosen sha256 blobs base loc rem q = manifest_get loc q" if "in_subtree r q" "used loc rem q" for q
    using that below_conflict[OF trees r(1)] conflicting_chosen[OF r(1)] shadowed_chosen by (auto simp: in_subtree_def)
  have old: "\<not> in_subtree C q" if h: "p \<in> ps" "conflicting blobs base loc rem p"
      "map_of (ss_conflicts (cb_state cb)) p = Some rec" "in_subtree (cf_remote_copy_path rec) q" for p rec q
  proof
    assume "in_subtree C q"
    obtain C' where C': "rec = \<lparr>cf_local_copy_path = p, cf_remote_copy_path = C',
        cf_remote_deleted = (manifest_get rem p = None)\<rparr>" "\<not> used loc rem C'" "C' \<in> set (cb_reserved cb)" "sibling p C'"
      using combine_invD(5)[OF inv h(1,2)] h(3) by (auto simp: copied_def)
    then have "C = C'" using copies_disjoint[OF trees C(2) C'(4) used conflicting_used[OF h(2)] C_unused C'(2)
        \<open>in_subtree C q\<close>] h(4) C'(1) by simp
    then show False using C(1) C'(3) by simp
  qed
  have copied_r: "copied loc rem cb' r"
  proof -
    have "manifest_get (cb_manifest cb) q = None" if "in_subtree C q" for q
      using combine_invD(7)[OF inv clean[OF that]] old that by (cases "manifest_get (cb_manifest cb) q") (auto simp: in_copy_def)
    then show ?thesis using C C_unused sibling_subtree[OF C(2)] by (auto simp: copied_def state get)
  qed
  have copied_p: "copied loc rem cb' p" if p: "p \<in> ps" "conflicting blobs base loc rem p" for p
  proof -
    obtain C' where C': "map_of (ss_conflicts (cb_state cb)) p = Some \<lparr>cf_local_copy_path = p, cf_remote_copy_path = C',
        cf_remote_deleted = (manifest_get rem p = None)\<rparr>" "\<not> used loc rem C'" "C' \<in> set (cb_reserved cb)" "sibling p C'"
      and sub: "\<And>q. in_subtree C' q \<Longrightarrow> manifest_get (cb_manifest cb) q = manifest_get rem (p @ drop (length C') q)"
      using combine_invD(5)[OF inv p] by (auto simp: copied_def)
    have "p \<noteq> r" using p(1) r(2) by blast
    moreover have "manifest_get (cb_manifest cb') q = manifest_get (cb_manifest cb) q" if "in_subtree C' q" for q
      using old[OF p C'(1)] that copy_not_used[OF trees C'(2) that] local_used by (auto simp: get)
    ultimately show ?thesis using C' reserved sub by (auto simp: copied_def state)
  qed
  have "combine_inv sha256 blobs base loc rem (insert r ps) cb'"
    unfolding combine_inv_def
  proof (intro conjI allI impI ballI; (elim conjE)?)
    fix q assume "used loc rem q"
    then show "q \<in> set (cb_reserved cb')" using combine_invD(2)[OF inv] reserved by blast
    show "manifest_get (cb_manifest cb') q \<in> {None, chosen sha256 blobs base loc rem q}"
      using combine_invD(3)[OF inv \<open>used loc rem q\<close>] choose \<open>used loc rem q\<close> by (auto simp: at_used)
  next
    fix p assume p: "p \<in> insert r ps" "used loc rem p"
    have "in_subtree r r" by (simp add: in_subtree_def)
    then show "manifest_get (cb_manifest cb') p = chosen sha256 blobs base loc rem p"
      using p choose[OF _ p(2)] combine_invD(3,4)[OF inv, of p] by (auto simp: at_used)
  next
    fix p assume "p \<in> insert r ps" "conflicting blobs base loc rem p"
    then show "copied loc rem cb' p" using copied_r copied_p by blast
  next
    fix p q assume p: "p \<in> insert r ps" "conflicting blobs base loc rem p" "under p q" "used loc rem q"
    have "in_subtree r q \<Longrightarrow> manifest_get loc q = None \<Longrightarrow> manifest_get (cb_manifest cb) q = None"
      using combine_invD(3)[OF inv p(4)] choose p(4) by auto
    moreover have "\<not> in_subtree r q \<Longrightarrow> p \<in> ps" using p(1,3) by (auto simp: in_subtree_def)
    ultimately show "manifest_get (cb_manifest cb') q = manifest_get loc q"
      using p combine_invD(6)[OF inv _ p(2-4)] by (auto simp: at_used in_subtree_def)
  next
    fix q assume q: "\<not> used loc rem q" "manifest_get (cb_manifest cb') q \<noteq> None"
    have same: "in_copy cb' p q" if "p \<in> ps" "in_copy cb p q" for p
      using that r(2) by (auto simp: in_copy_def state)
    show "\<exists>p \<in> insert r ps. conflicting blobs base loc rem p \<and> in_copy cb' p q"
    proof (cases "in_subtree C q")
      case True
      then show ?thesis using r(1) by (auto simp: in_copy_def state)
    next
      case False
      then have "manifest_get (cb_manifest cb) q \<noteq> None" using q local_used by (auto simp: get split: if_splits)
      then show ?thesis using combine_invD(7)[OF inv q(1)] same by blast
    qed
  qed (rule wf)
  then show ?thesis using run by blast
qed

text \<open>The whole loop.\<close>

lemma combine_loop:
  fixes revision :: u64
  assumes trees: "valid_tree loc" "valid_tree rem"
    and inv: "combine_inv sha256 blobs base loc rem ps cb"
    and fresh: "distinct qs" "set qs \<inter> ps = {}" "\<forall>q \<in> set qs. \<not> shadowed base loc rem q"
  shows "\<exists>cb'. combine sha256 blobs base loc rem revision
           (map (\<lambda>p. \<lparr>rp_path = p, rp_action = path_action base loc rem p\<rparr>) qs) cb = Ok cb'
         \<and> combine_inv sha256 blobs base loc rem (set qs \<union> ps) cb'"
  using inv fresh
proof (induction qs arbitrary: cb ps)
  case (Cons q qs)
  obtain cb1 where cb1: "combine_item sha256 blobs base loc rem revision
      \<lparr>rp_path = q, rp_action = path_action base loc rem q\<rparr> cb = Ok cb1"
    "combine_inv sha256 blobs base loc rem (insert q ps) cb1"
  proof (cases "conflicting blobs base loc rem q")
    case True
    then show ?thesis using combine_step_conflict[OF trees Cons.prems(1) True, of revision] Cons.prems(3) that
      by (auto simp: combine_item_conflict)
  next
    case False
    then show ?thesis using combine_step_plain[OF trees Cons.prems(1) _ False, of revision] Cons.prems(4) that by auto
  qed
  have "set qs \<inter> insert q ps = {}" using Cons.prems(2,3) by auto
  then obtain cb' where "combine sha256 blobs base loc rem revision
      (map (\<lambda>p. \<lparr>rp_path = p, rp_action = path_action base loc rem p\<rparr>) qs) cb1 = Ok cb'"
    "combine_inv sha256 blobs base loc rem (set qs \<union> insert q ps) cb'"
    using Cons.IH[OF cb1(2)] Cons.prems by auto
  then show ?case using cb1(1) by auto
qed auto



section \<open>The result of the loop\<close>

text \<open>The plan depends on what the entries agree on only, so it may be computed before staging.\<close>

lemma same_entries_keys: "same_entries loc loc' \<Longrightarrow> set (entry_keys loc) = set (entry_keys loc')"
proof -
  assume "same_entries loc loc'"
  then have "manifest_get loc p = None \<longleftrightarrow> manifest_get loc' p = None" for p
    unfolding same_entries_def by (metis entries_equal_None)
  then show ?thesis by (auto simp: set_eq_iff manifest_get_None_iff)
qed

lemma planned_cong:
  assumes same: "same_entries loc loc'"
  shows "planned base loc rem = planned base loc' rem"
proof -
  have eq: "entries_equal x (manifest_get loc p) = entries_equal x (manifest_get loc' p)"
    "entries_equal (manifest_get loc p) x = entries_equal (manifest_get loc' p) x" for x p
    using same by (auto simp: same_entries_def entries_equal_iff)
  have dir: "is_directory (manifest_get loc p) = is_directory (manifest_get loc' p)" for p
    using same by (auto simp: same_entries_def dest: entries_equal_directory)
  have is_f: "is_file (manifest_get loc p) = is_file (manifest_get loc' p)" for p
  proof -
    have "entries_equal (manifest_get loc p) (manifest_get loc' p)" using same by (simp add: same_entries_def)
    then show ?thesis by (cases "(manifest_get loc p, manifest_get loc' p)" rule: entries_equal.cases) (auto simp: is_file_def)
  qed
  have action: "path_action base loc rem p = path_action base loc' rem p" for p
    by (simp add: path_action_def structural_def subtrees_equal_iff reconcile_entry_def eq dir is_f)
  have "all_paths base loc rem = all_paths base loc' rem"
    unfolding all_paths_def by (rule collect_set_cong) (simp add: same_entries_keys[OF same])
  moreover have "conflict_root base loc rem p = conflict_root base loc' rem p" for p
    by (simp add: conflict_root_def action structural_def dir)
  ultimately show ?thesis by (simp add: planned_def shadowed_def action)
qed

text \<open>The topmost conflict above a shadowed path is not shadowed itself.\<close>

lemma shadowed_root:
  assumes "shadowed base loc rem q"
  shows "\<exists>r. conflict_root base loc rem r \<and> under r q \<and> \<not> shadowed base loc rem r"
proof -
  obtain r where "conflict_root base loc rem r \<and> under r q"
    and least: "\<And>r'. length r' < length r \<Longrightarrow> \<not> (conflict_root base loc rem r' \<and> under r' q)"
    using assms exists_least_iff[of "\<lambda>n. \<exists>r. length r = n \<and> conflict_root base loc rem r \<and> under r q"]
    by (auto simp: shadowed_def list_ex_iff)
  moreover have "\<not> shadowed base loc rem r"
  proof
    assume "shadowed base loc rem r"
    then obtain r' where "conflict_root base loc rem r'" "under r' r" by (auto simp: shadowed_def list_ex_iff)
    moreover have "length r' < length r" using \<open>under r' r\<close> by (auto simp: under_iff)
    ultimately show False using least \<open>conflict_root base loc rem r \<and> under r q\<close> under_trans by blast
  qed
  ultimately show ?thesis by blast
qed

lemma conflict_root_conflicting: "conflict_root base loc rem r \<Longrightarrow> conflicting blobs base loc rem r"
  by (simp add: conflict_root_def conflicting_def)

lemma combine_result:
  fixes revision :: u64
  assumes plan: "plan_reconciliation base loc0 rem = Ok plan"
    and trees: "valid_tree loc" "valid_tree rem" and same: "same_entries loc0 loc"
  shows "\<exists>cb. combine sha256 blobs base loc rem revision (rn_paths plan) (combine_start w state rc base loc0 rem) = Ok cb
    \<and> manifest_wf (cb_manifest cb)
    \<and> (\<forall>q. used loc rem q \<longrightarrow> manifest_get (cb_manifest cb) q = chosen sha256 blobs base loc rem q)
    \<and> (\<forall>p. conflicting blobs base loc rem p \<and> \<not> shadowed base loc rem p \<longrightarrow> copied loc rem cb p)
    \<and> (\<forall>q. \<not> used loc rem q \<and> manifest_get (cb_manifest cb) q \<noteq> None \<longrightarrow>
         (\<exists>p. conflicting blobs base loc rem p \<and> \<not> shadowed base loc rem p \<and> in_copy cb p q))"
proof -
  let ?qs = "filter (\<lambda>p. \<not> shadowed base loc rem p) (all_paths base loc rem)"
  have items: "rn_paths plan = map (\<lambda>p. \<lparr>rp_path = p, rp_action = path_action base loc rem p\<rparr>) ?qs"
    using plan planned_cong[OF same, of base rem] by (auto simp: plan_reconciliation_eq planned_def split: if_splits)
  have "distinct ?qs" by (simp add: all_paths_def collect_set_def)
  note start = combine_inv_start[OF same_entries_keys[OF same], of sha256 blobs base rem w state rc]
  have "set ?qs \<inter> {} = {}" "\<forall>q \<in> set ?qs. \<not> shadowed base loc rem q" by simp_all
  then obtain cb where cb: "combine sha256 blobs base loc rem revision (rn_paths plan)
      (combine_start w state rc base loc0 rem) = Ok cb"
    and inv: "combine_inv sha256 blobs base loc rem (set ?qs) cb"
    using combine_loop[OF trees start \<open>distinct ?qs\<close>, of revision] unfolding items Un_empty_right by blast
  have at: "manifest_get (cb_manifest cb) q = chosen sha256 blobs base loc rem q" if "used loc rem q" for q
  proof (cases "shadowed base loc rem q")
    case True
    then obtain r where r: "conflict_root base loc rem r" "under r q" "\<not> shadowed base loc rem r"
      using shadowed_root by blast
    have conf: "conflicting blobs base loc rem r" using r(1) by (rule conflict_root_conflicting)
    then have "r \<in> set ?qs" using r(3) all_paths_used conflicting_used by auto
    then show ?thesis using combine_invD(6)[OF inv _ conf r(2) that] shadowed_chosen[OF True] by simp
  next
    case False
    then have "q \<in> set ?qs" using that all_paths_used by simp
    then show ?thesis using combine_invD(4)[OF inv _ that] by blast
  qed
  have "copied loc rem cb p" if "conflicting blobs base loc rem p" "\<not> shadowed base loc rem p" for p
  proof -
    have "p \<in> set ?qs" using that all_paths_used conflicting_used by auto
    then show ?thesis using combine_invD(5)[OF inv _ that(1)] by blast
  qed
  moreover have "\<exists>p. conflicting blobs base loc rem p \<and> \<not> shadowed base loc rem p \<and> in_copy cb p q"
    if "\<not> used loc rem q" "manifest_get (cb_manifest cb) q \<noteq> None" for q
    using combine_invD(7)[OF inv that(1)] that(2) by auto
  ultimately show ?thesis using cb at combine_invD(1)[OF inv] by blast
qed



section \<open>The result is a tree\<close>

lemma subtrees_equal_below: "subtrees_equal a b q \<Longrightarrow> under q p \<Longrightarrow> subtrees_equal a b p"
  by (auto simp: subtrees_equal_iff dest: under_trans)

text \<open>Above a path that is not shadowed, one side did not change or both have a directory.\<close>

lemma above_unshadowed:
  assumes trees: "valid_tree loc" "valid_tree rem"
    and p: "\<not> shadowed base loc rem p" "used loc rem p" "under q p"
  obtains (download) "structural loc rem q" "subtrees_equal base loc q" "path_action base loc rem q = Download"
  | (upload) "structural loc rem q" "subtrees_equal base rem q" "path_action base loc rem q = Upload"
  | (directory) "manifest_get loc q = Some Directory" "manifest_get rem q = Some Directory"
      "path_action base loc rem q = Unchanged"
proof (cases "structural loc rem q")
  case True
  have "used loc rem q" using used_parent[OF trees p(2,3)] .
  then have "\<not> conflict_root base loc rem q"
    using p(1,3) all_paths_used by (auto simp: shadowed_def list_ex_iff)
  then show ?thesis using True download upload by (auto simp: conflict_root_def path_action_def split: if_splits)
next
  case False
  have "manifest_get loc q = Some Directory \<or> manifest_get rem q = Some Directory"
    using trees p(2,3) dir_closedD by (auto simp: used_def valid_tree_def)
  then have both: "manifest_get loc q = Some Directory" "manifest_get rem q = Some Directory"
    using False by (auto simp: structural_def is_directory_def)
  then have "path_action base loc rem q = Unchanged" using False by (simp add: path_action_def reconcile_entry_def)
  then show ?thesis using directory both by blast
qed

lemma unshadowed_above: "\<not> shadowed base loc rem p \<Longrightarrow> under q p \<Longrightarrow> \<not> shadowed base loc rem q"
  by (auto simp: shadowed_def list_ex_iff dest: under_trans)

lemma conflicting_not_equal:
  assumes "conflicting blobs base loc rem r"
  shows "\<not> subtrees_equal base loc r" and "\<not> subtrees_equal base rem r"
proof -
  have "path_action base loc rem r \<in> {Conflict, Merge}" using assms by (auto simp: conflicting_def)
  then show "\<not> subtrees_equal base loc r" "\<not> subtrees_equal base rem r"
    by (auto simp: path_action_def reconcile_entry_def subtrees_equal_iff entries_equal_iff split: if_splits)
qed

lemma above_conflict:
  assumes "valid_tree loc" "valid_tree rem" "conflicting blobs base loc rem r" "\<not> shadowed base loc rem r" "under q r"
  shows "chosen sha256 blobs base loc rem q = Some Directory"
  using assms(1,2,4) conflicting_used[OF assms(3)] assms(5)
proof (cases rule: above_unshadowed)
  case directory
  then show ?thesis using unshadowed_above[OF assms(4,5)] by (simp add: chosen_def)
qed (use conflicting_not_equal[OF assms(3)] subtrees_equal_below assms(5) in blast)+

lemma chosen_closed:
  assumes trees: "valid_tree loc" "valid_tree rem"
    and p: "chosen sha256 blobs base loc rem p = Some e" "under q p"
  shows "chosen sha256 blobs base loc rem q = Some Directory"
proof (cases "shadowed base loc rem p")
  case True
  then have "manifest_get loc p = Some e" using p(1) by (simp add: chosen_def)
  then have dir: "manifest_get loc q = Some Directory" using trees p(2) dir_closedD by (auto simp: valid_tree_def)
  obtain r where r: "conflict_root base loc rem r" "under r p" "\<not> shadowed base loc rem r"
    using shadowed_root[OF True] by blast
  note conf = conflict_root_conflicting[OF r(1)]
  have "r = q \<or> under r q \<or> under q r" using in_subtree_linear r(2) p(2) by (auto simp: in_subtree_def)
  then show ?thesis
  proof (elim disjE)
    assume "r = q" then show ?thesis using conflicting_chosen[OF conf] dir by simp
  next
    assume "under r q"
    moreover have "r \<in> set (all_paths base loc rem)" using conflicting_used[OF conf] by (rule all_paths_used)
    ultimately have "shadowed base loc rem q" using r(1) by (auto simp: shadowed_def list_ex_iff)
    then show ?thesis using dir by (simp add: chosen_def)
  next
    assume "under q r" then show ?thesis using above_conflict[OF trees conf r(3)] by blast
  qed
next
  case False
  note q = unshadowed_above[OF False p(2)]
  have used: "used loc rem p" using chosen_used[OF p(1)] .
  have sound: "path_action base loc rem p = Merge \<Longrightarrow> manifest_get loc p \<noteq> None \<and> manifest_get rem p \<noteq> None"
    using path_action_sound[where base = base and loc = loc and rem = rem and p = p]
    by (auto simp: is_file_def split: option.splits)
  have dirs: "manifest_get loc p \<noteq> None \<Longrightarrow> manifest_get loc q = Some Directory"
    "manifest_get rem p \<noteq> None \<Longrightarrow> manifest_get rem q = Some Directory"
    using trees p(2) dir_closedD by (auto simp: valid_tree_def)
  show ?thesis using trees False used p(2)
  proof (cases rule: above_unshadowed)
    case download
    then have same: "subtrees_equal base loc p" using p(2) subtrees_equal_below by blast
    have "manifest_get rem p \<noteq> None"
    proof
      assume none: "manifest_get rem p = None"
      then have "manifest_get loc p \<noteq> None" using used by (simp add: used_def)
      moreover have "path_action base loc rem p = Download"
        using same calculation none by (auto simp: path_action_def reconcile_entry_def subtrees_equal_iff)
      ultimately show False using none p(1) False by (simp add: chosen_def)
    qed
    then show ?thesis using dirs(2) q download(3) by (simp add: chosen_def)
  next
    case upload
    then have same: "subtrees_equal base rem p" using p(2) subtrees_equal_below by blast
    have "manifest_get loc p \<noteq> None"
    proof
      assume none: "manifest_get loc p = None"
      then have rem: "manifest_get rem p \<noteq> None" using used by (simp add: used_def)
      moreover have "entries_equal (manifest_get base p) (manifest_get rem p)"
        using same by (simp add: subtrees_equal_iff)
      ultimately have "\<not> entries_equal (manifest_get base p) None"
        by (cases "manifest_get base p") auto
      then have "path_action base loc rem p = Upload"
        using same rem none by (auto simp: path_action_def reconcile_entry_def subtrees_equal_iff)
      then show False using none p(1) False by (simp add: chosen_def)
    qed
    then show ?thesis using dirs(1) q upload(3) by (simp add: chosen_def)
  next
    case directory
    then show ?thesis using q by (simp add: chosen_def)
  qed
qed

text \<open>The copies of conflicts are trees below paths that stay directories.\<close>

lemma combined_closed:
  assumes trees: "valid_tree loc" "valid_tree rem"
    and used: "\<And>q. used loc rem q \<Longrightarrow> manifest_get m q = chosen sha256 blobs base loc rem q"
    and copies: "\<And>p. conflicting blobs base loc rem p \<Longrightarrow> \<not> shadowed base loc rem p \<Longrightarrow> copied loc rem cb p"
    and others: "\<And>q. \<not> used loc rem q \<Longrightarrow> manifest_get m q \<noteq> None \<Longrightarrow>
         \<exists>p. conflicting blobs base loc rem p \<and> \<not> shadowed base loc rem p \<and> in_copy cb p q"
    and m: "m = cb_manifest cb"
  shows "dir_closed m"
  unfolding dir_closed_iff
proof (intro allI impI, elim conjE)
  fix p q assume p: "manifest_get m p \<noteq> None" and q: "under q p"
  have chosen_used: "manifest_get m q = Some Directory" if "chosen sha256 blobs base loc rem q = Some Directory"
    using that chosen_used used by metis
  show "manifest_get m q = Some Directory"
  proof (cases "used loc rem p")
    case True
    then obtain e where "chosen sha256 blobs base loc rem p = Some e" using used p by auto
    then show ?thesis using chosen_closed[OF trees _ q] chosen_used by blast
  next
    case False
    then obtain r where r: "conflicting blobs base loc rem r" "\<not> shadowed base loc rem r" "in_copy cb r p"
      using others p by blast
    then obtain C where C: "in_subtree C p" "sibling r C"
      "\<And>q. in_subtree C q \<Longrightarrow> manifest_get m q = manifest_get rem (r @ drop (length C) q)"
      using copies[OF r(1,2)] m by (auto simp: copied_def in_copy_def)
    show ?thesis
    proof (cases "in_subtree C q")
      case True
      have "under (r @ drop (length C) q) (r @ drop (length C) p)"
        using q True by (auto simp: in_subtree_iff under_iff)
      moreover have "manifest_get rem (r @ drop (length C) p) \<noteq> None" using C(3)[OF C(1)] p by simp
      ultimately show ?thesis using trees C(3)[OF True] by (auto simp: valid_tree_def dir_closed_iff)
    next
      case False
      then have "under q C" using in_subtree_linear[of C p q] C(1) q by (auto simp: in_subtree_def)
      then show ?thesis using above_conflict[OF trees r(1,2)] sibling_under[OF C(2)] chosen_used by blast
    qed
  qed
qed



section \<open>Properties\<close>

lemma unchanged_entries:
  "manifest_wf loc \<Longrightarrow> valid_tree staged \<Longrightarrow> diff_manifests loc staged = [] \<Longrightarrow> same_entries loc staged"
  using diff_empty_iff by (simp add: manifest_wf_def valid_tree_def)

text \<open>
  Property C26: combining always succeeds.  When the local and the remote manifest are valid trees (all
  paths well-formed, every directory above an entry listed) and the working tree did not change
  between planning and staging, the loop over the plan meets no error, whatever the base and the
  contents are, and its result is again a valid tree: it can be inserted, uploaded and applied.
\<close>
theorem combination_yields_valid_tree:
  assumes "plan_reconciliation base loc rem = Ok plan"
    and "manifest_wf loc" "valid_tree staged" "valid_tree rem"
    and "diff_manifests loc staged = []"
  shows "\<exists>cb. combine sha256 blobs base staged rem revision (rn_paths plan)
      (combine_start w state rc base loc rem) = Ok cb \<and> valid_tree (cb_manifest cb)"
proof -
  obtain cb where cb: "combine sha256 blobs base staged rem revision (rn_paths plan)
      (combine_start w state rc base loc rem) = Ok cb" "manifest_wf (cb_manifest cb)"
    "\<And>q. used staged rem q \<Longrightarrow> manifest_get (cb_manifest cb) q = chosen sha256 blobs base staged rem q"
    "\<And>p. conflicting blobs base staged rem p \<Longrightarrow> \<not> shadowed base staged rem p \<Longrightarrow> copied staged rem cb p"
    "\<And>q. \<not> used staged rem q \<Longrightarrow> manifest_get (cb_manifest cb) q \<noteq> None \<Longrightarrow>
       \<exists>p. conflicting blobs base staged rem p \<and> \<not> shadowed base staged rem p \<and> in_copy cb p q"
    using combine_result[OF assms(1,3,4) unchanged_entries[OF assms(2,3,5)], of sha256 blobs revision w state rc]
    by auto
  have "dir_closed (cb_manifest cb)" by (rule combined_closed[OF assms(3,4) cb(3-5) refl])
  then show ?thesis using cb(1,2) by (auto simp: valid_tree_def)
qed

text \<open>An entry that is the merge of the two sides.\<close>

definition merged_at :: "(bytes \<Rightarrow> bytes) \<Rightarrow> Blobs \<Rightarrow> Manifest \<Rightarrow> Manifest \<Rightarrow> Manifest \<Rightarrow> string \<Rightarrow>
    ManifestEntry \<Rightarrow> bool" where
  "merged_at sha256 blobs base loc rem p e \<longleftrightarrow> (case merge_of blobs base loc rem p of
     Some (f, b) \<Rightarrow> e = merged_entry sha256 f b | None \<Rightarrow> False)"

text \<open>An entry that stands in the copy some recorded conflict made of the remote side.\<close>

definition kept_as_copy :: "Combined \<Rightarrow> string \<Rightarrow> ManifestEntry \<Rightarrow> bool" where
  "kept_as_copy cb p e \<longleftrightarrow> list_ex (\<lambda>(r, cr). in_subtree r p
     \<and> manifest_get (cb_manifest cb) (cf_remote_copy_path cr @ drop (length r) p) = Some e)
     (ss_conflicts (cb_state cb))"

lemma kept_as_copyI:
  "map_of (ss_conflicts (cb_state cb)) r = Some rec \<Longrightarrow> in_subtree r p \<Longrightarrow>
   manifest_get (cb_manifest cb) (cf_remote_copy_path rec @ drop (length r) p) = Some e \<Longrightarrow> kept_as_copy cb p e"
  by (force simp: kept_as_copy_def list_ex_iff dest: map_of_SomeD)

lemma copied_kept:
  assumes "copied loc rem cb r" "in_subtree r p" "manifest_get rem p = Some e"
  shows "kept_as_copy cb p e"
proof -
  obtain C where C: "map_of (ss_conflicts (cb_state cb)) r = Some \<lparr>cf_local_copy_path = r,
      cf_remote_copy_path = C, cf_remote_deleted = (manifest_get rem r = None)\<rparr>"
    "\<And>q. in_subtree C q \<Longrightarrow> manifest_get (cb_manifest cb) q = manifest_get rem (r @ drop (length C) q)"
    using assms(1) by (auto simp: copied_def)
  obtain s where s: "p = r @ s" "s = [] \<or> (\<exists>t. s = slash # t)" using assms(2) unfolding in_subtree_iff by blast
  then have "in_subtree C (C @ s)" by (auto simp: in_subtree_iff)
  then show ?thesis using C s assms(2,3) by (intro kept_as_copyI[OF C(1)]) simp_all
qed


text \<open>
  Property C27: the search for a free copy name ends, with the first free candidate.  It tries no
  more names than there are reserved paths, so its counter stays below their number.
\<close>
theorem fresh_copy_first_free:
  "fresh_copy reserved prefix 0 \<notin> set reserved
   \<and> (\<exists>n \<le> length reserved. fresh_copy reserved prefix 0 = candidate prefix n
        \<and> (\<forall>m < n. candidate prefix m \<in> set reserved))"
proof -
  obtain n where n: "fresh_copy reserved prefix 0 = candidate prefix n" "\<forall>m < n. candidate prefix m \<in> set reserved"
    using fresh_copy_candidate[of 0 reserved prefix] by auto
  have "card (candidate prefix ` {..<n}) \<le> card (set reserved)" using n(2) by (intro card_mono) auto
  then have "n \<le> length reserved" using card_length[of reserved] by (simp add: card_image inj_on_def)
  then show ?thesis using n fresh_copy_fresh by blast
qed

theorem fresh_copy_first_free_witness: "fresh_copy [''a''] ''a'' 0 = candidate ''a'' 1"
proof -
  obtain n where n: "n \<le> 1" "fresh_copy [''a''] ''a'' 0 = candidate ''a'' n"
    using fresh_copy_first_free[of "[''a'']" "''a''"] by auto
  have "fresh_copy [''a''] ''a'' 0 \<notin> set [''a'']" using fresh_copy_first_free[of "[''a'']" "''a''"] by blast
  moreover have "candidate ''a'' 0 = ''a''" by (simp add: candidate_def)
  ultimately have "n \<noteq> 0" using n(2) by (metis list.set_intros(1))
  then have "n = 1" using n(1) by simp
  then show ?thesis using n(2) by simp
qed


section \<open>A concrete combination\<close>

text \<open>Both sides changed \<open>a\<close>, the remote side into a directory; the local side added \<open>b\<close>, the remote
  side \<open>c\<close>; both edited a different line of \<open>t\<close>.\<close>

definition tree :: "(string \<times> ManifestEntry) list \<Rightarrow> Manifest" where
  "tree entries = \<lparr>mf_workspace_id = WorkspaceId ''wks_one'', mf_entries = entries\<rparr>"

definition base_tree :: Manifest where
  "base_tree = tree [(''a'', entry_file 1 ''h0'' 5), (''t'', entry_file 4 ''t0'' 5)]"

definition local_tree :: Manifest where
  "local_tree = tree [(''a'', entry_file 2 ''h1'' 6), (''b'', entry_file 1 ''hb'' 6), (''t'', entry_file 4 ''t1'' 6)]"

definition remote_tree :: Manifest where
  "remote_tree = tree [(''a'', Directory), (''a/x'', entry_file 3 ''hx'' 7), (''c'', entry_file 1 ''hc'' 7),
     (''t'', entry_file 4 ''t2'' 7)]"

definition sample_blobs :: Blobs where
  "sample_blobs = \<lparr>bl_base = [(''t0'', [97, 10, 98, 10])], bl_local = [(''t1'', [97, 10, 99, 10])],
     bl_remote = [(''t2'', [100, 10, 98, 10])]\<rparr>"

definition sample_sync :: SyncState where
  "sample_sync = \<lparr>ss_last_synced_revision = Some 3, ss_last_synced_manifest = Some base_tree,
     ss_last_observed_remote = None, ss_last_published_local = None, ss_pending_operation = None,
     ss_conflicts = []\<rparr>"

definition sample_plan :: ReconciliationPlan where
  "sample_plan = (case plan_reconciliation base_tree local_tree remote_tree of Ok plan \<Rightarrow> plan | Err _ \<Rightarrow> \<lparr>rn_paths = []\<rparr>)"

definition sample_combined :: Combined where
  "sample_combined = (case combine (\<lambda>b. take 2 (b @ [0, 0])) sample_blobs base_tree local_tree remote_tree 4
       (rn_paths sample_plan) (combine_start (WorkspaceId ''wks_one'') sample_sync [] base_tree local_tree remote_tree) of
     Ok cb \<Rightarrow> cb | Err _ \<Rightarrow> combine_start (WorkspaceId ''wks_one'') sample_sync [] base_tree local_tree remote_tree)"

lemma sample_hypotheses:
  "plan_reconciliation base_tree local_tree remote_tree = Ok sample_plan"
  "manifest_wf local_tree" "valid_tree local_tree" "valid_tree remote_tree"
  "diff_manifests local_tree local_tree = []"
  by code_simp+

lemma sample_combine:
  "combine (\<lambda>b. take 2 (b @ [0, 0])) sample_blobs base_tree local_tree remote_tree 4 (rn_paths sample_plan)
     (combine_start (WorkspaceId ''wks_one'') sample_sync [] base_tree local_tree remote_tree) = Ok sample_combined"
  by code_simp

lemma combination_yields_valid_tree_witness:
  "\<exists>cb. combine (\<lambda>b. take 2 (b @ [0, 0])) sample_blobs base_tree local_tree remote_tree 4 (rn_paths sample_plan)
     (combine_start (WorkspaceId ''wks_one'') sample_sync [] base_tree local_tree remote_tree) = Ok cb \<and> valid_tree (cb_manifest cb)"
  by (rule combination_yields_valid_tree[OF sample_hypotheses])


end
