(* ===== verification/Sqlite_Db.thy ===== *)
theory Sqlite_Db
  imports Storage_Paths "HOL-Library.Product_Lexorder"
begin

text \<open>
  \<^verbatim>\<open>rustsync-server/src/storage/sqlite.rs\<close>: the database of one workspace.  The tables are
  typed as the schema declares them, keyed tables are ordered maps, and every SQL statement of the code
  is a function on the tables.  A statement may fail for a reason the model does not determine and then has
  no effect; a transaction that fails is undone.  The failures to come and the clock readings belong to
  the state of the connection.
\<close>

section \<open>Tables\<close>

record ObjectRow =
  or_object_id :: string
  or_object_kind :: string
  or_hash_algorithm :: string
  or_encrypted_size :: int
  or_created_at :: int

record HeadRow =
  hr_manifest_id :: "string option"
  hr_revision :: int
  hr_updated_by :: "string option"
  hr_updated_at :: "int option"

record AccessRow =
  ar_access_state_json :: bytes
  ar_created_at :: int
  ar_updated_at :: int

record JoinRow =
  jw_request_json :: bytes
  jw_created_at :: int

record Tables =
  tb_objects :: "ObjectRow list"
  tb_workspace_head :: "HeadRow option"
  tb_access_state :: "AccessRow option"
  tb_join_requests :: "(string \<times> JoinRow) list"
  tb_key_envelopes :: "((string \<times> string) \<times> bytes) list"

definition empty_tables :: Tables where
  "empty_tables = \<lparr>tb_objects = [], tb_workspace_head = None, tb_access_state = None,
     tb_join_requests = [], tb_key_envelopes = []\<rparr>"

text \<open>A database file: what \<^verbatim>\<open>sqlite_master\<close>, \<^verbatim>\<open>pragma_table_info\<close> and
  \<^verbatim>\<open>quick_check\<close> report, the migration history, and the tables.\<close>

record DbFile =
  df_objects :: "(string \<times> string \<times> string option) list"
  df_columns :: "(string \<times> (string \<times> string \<times> int \<times> int) list) list"
  df_quick_check :: "string list"
  df_versions :: "(int \<times> int) list"
  df_tables :: Tables

definition empty_db_file :: DbFile where
  "empty_db_file = \<lparr>df_objects = [], df_columns = [], df_quick_check = [''ok''], df_versions = [],
     df_tables = empty_tables\<rparr>"


section \<open>Statements\<close>

record Conn =
  cn_file :: DbFile
  cn_faults :: "string option list"
  cn_clock :: "u64 list"

type_synonym 'a db_action = "(Conn, 'a) storage_action"

definition statement :: "(DbFile \<Rightarrow> DbFile \<times> 'a) \<Rightarrow> 'a db_action" where
  "statement run cn = (case cn_faults cn of
     Some e # rest \<Rightarrow> (cn\<lparr>cn_faults := rest\<rparr>, Err (Database e))
   | faults \<Rightarrow> (let (file, a) = run (cn_file cn)
               in (cn\<lparr>cn_file := file, cn_faults := tl faults\<rparr>, Ok a)))"

definition query :: "(Tables \<Rightarrow> 'a) \<Rightarrow> 'a db_action" where
  "query f = statement (\<lambda>file. (file, f (df_tables file)))"

text \<open>A statement that changes the tables; its value is \<^verbatim>\<open>rows_affected\<close>.\<close>

definition execute :: "(Tables \<Rightarrow> Tables \<times> nat) \<Rightarrow> nat db_action" where
  "execute f = statement (\<lambda>file. let (tables, n) = f (df_tables file) in (file\<lparr>df_tables := tables\<rparr>, n))"

text \<open>What a failed operation did is undone; a transaction that fails, or whose commit fails, is.\<close>

definition undo :: "DbFile \<Rightarrow> 'a db_action \<Rightarrow> 'a db_action" where
  "undo file m cn = (case m cn of (cn', Ok a) \<Rightarrow> (cn', Ok a) | (cn', Err e) \<Rightarrow> (cn'\<lparr>cn_file := file\<rparr>, Err e))"

definition control :: "unit db_action" where
  "control = statement (\<lambda>file. (file, ()))"

definition transaction :: "'a db_action \<Rightarrow> 'a db_action" where
  "transaction body = then_do control (\<lambda>_ cn.
     undo (cn_file cn) (then_do body (\<lambda>a. then_do control (\<lambda>_. done_with a))) cn)"

definition read_clock :: "u64 db_action" where
  "read_clock cn = (case cn_clock cn of [] \<Rightarrow> (cn, Ok 0) | t # ts \<Rightarrow> (cn\<lparr>cn_clock := ts\<rparr>, Ok t))"

definition i64_max :: int where "i64_max = 9223372036854775807"

definition to_i64 :: "u64 \<Rightarrow> string \<Rightarrow> int server_result" where
  "to_i64 v f = (if uint v \<le> i64_max then Ok (uint v) else Err (IntegerOutOfRange f))"

definition to_u64 :: "int \<Rightarrow> string \<Rightarrow> u64 server_result" where
  "to_u64 v f = (if 0 \<le> v then Ok (word_of_int v) else Err (CorruptDatabase (''negative '' @ f)))"

definition now_i64 :: "u64 \<Rightarrow> int" where
  "now_i64 t = (if uint t \<le> i64_max then uint t else i64_max)"

fun try_map :: "('a \<Rightarrow> ('b, 'e) result) \<Rightarrow> 'a list \<Rightarrow> ('b list, 'e) result" where
  "try_map f [] = Ok []"
| "try_map f (x # xs) = and_then (f x) (\<lambda>y. and_then (try_map f xs) (\<lambda>ys. Ok (y # ys)))"


section \<open>The object catalogue\<close>

datatype StoredObjectKind = BlobKind | ManifestKind

fun kind_str :: "StoredObjectKind \<Rightarrow> string" where
  "kind_str BlobKind = ''blob''"
| "kind_str ManifestKind = ''manifest''"

definition parse_kind :: "string \<Rightarrow> StoredObjectKind server_result" where
  "parse_kind s = (if s = ''blob'' then Ok BlobKind else if s = ''manifest'' then Ok ManifestKind
     else Err (CorruptDatabase (''unknown object kind `'' @ s @ ''`'')))"

definition OBJECT_HASH_ALGORITHM :: string where "OBJECT_HASH_ALGORITHM = ''sha256''"

record StoredObjectMetadata =
  sm_object_id :: string
  sm_kind :: StoredObjectKind
  sm_encrypted_size :: u64

datatype ObjectInsertResult = ObjectInserted | ObjectExactExisting

record StoredObjectRow =
  sr_kind :: StoredObjectKind
  sr_hash_algorithm :: string
  sr_encrypted_size :: u64

definition read_object_row :: "ObjectRow \<Rightarrow> StoredObjectRow server_result" where
  "read_object_row row = and_then (parse_kind (or_object_kind row)) (\<lambda>kind.
     and_then (to_u64 (or_encrypted_size row) ''encrypted object size'') (\<lambda>sz.
       Ok \<lparr>sr_kind = kind, sr_hash_algorithm = or_hash_algorithm row, sr_encrypted_size = sz\<rparr>))"

definition object_rows_by_id :: "StoredObjectKind \<Rightarrow> string \<Rightarrow> StoredObjectRow list db_action" where
  "object_rows_by_id kind object_id = then_do
     (query (\<lambda>t. filter (\<lambda>r. or_object_kind r = kind_str kind \<and> or_object_id r = object_id) (tb_objects t)))
     (\<lambda>rows. lift_result (try_map read_object_row rows))"

definition object_rows_by_object_id :: "string \<Rightarrow> StoredObjectRow list db_action" where
  "object_rows_by_object_id object_id = then_do
     (query (\<lambda>t. filter (\<lambda>r. or_object_id r = object_id) (tb_objects t)))
     (\<lambda>rows. lift_result (try_map read_object_row rows))"

definition validate_object_rows ::
  "StoredObjectMetadata \<Rightarrow> StoredObjectRow list \<Rightarrow> ObjectInsertResult server_result" where
  "validate_object_rows metadata rows =
    (if length rows = 1 \<and> list_all (\<lambda>row. sr_kind row = sm_kind metadata
          \<and> sr_encrypted_size row = sm_encrypted_size metadata
          \<and> sr_hash_algorithm row = OBJECT_HASH_ALGORITHM) rows
     then Ok ObjectExactExisting
     else Err (StorageCorruption (''catalog metadata for '' @ kind_str (sm_kind metadata) @ '' `''
            @ sm_object_id metadata @ ''` does not match its physical object'')))"

text \<open>\<^verbatim>\<open>INSERT INTO objects ... ON CONFLICT(object_kind,object_id) DO NOTHING\<close>.\<close>

definition sql_insert_object :: "ObjectRow \<Rightarrow> Tables \<Rightarrow> Tables \<times> nat" where
  "sql_insert_object row t =
    (if list_ex (\<lambda>r. or_object_kind r = or_object_kind row \<and> or_object_id r = or_object_id row) (tb_objects t)
     then (t, 0) else (t\<lparr>tb_objects := tb_objects t @ [row]\<rparr>, 1))"

definition insert_object_if_absent :: "StoredObjectMetadata \<Rightarrow> ObjectInsertResult db_action" where
  "insert_object_if_absent metadata =
    then_do (lift_result (to_i64 (sm_encrypted_size metadata) ''encrypted object size'')) (\<lambda>sz.
    then_do (object_rows_by_id (sm_kind metadata) (sm_object_id metadata)) (\<lambda>existing.
    if existing \<noteq> [] then lift_result (validate_object_rows metadata existing) else
    then_do (object_rows_by_object_id (sm_object_id metadata)) (\<lambda>conflicting.
    if conflicting \<noteq> [] then lift_result (validate_object_rows metadata conflicting) else
    then_do read_clock (\<lambda>t.
    then_do (execute (sql_insert_object \<lparr>or_object_id = sm_object_id metadata,
        or_object_kind = kind_str (sm_kind metadata), or_hash_algorithm = OBJECT_HASH_ALGORITHM,
        or_encrypted_size = sz, or_created_at = now_i64 t\<rparr>)) (\<lambda>rows_affected.
    then_do (object_rows_by_id (sm_kind metadata) (sm_object_id metadata)) (\<lambda>rows.
    then_do (lift_result (validate_object_rows metadata rows)) (\<lambda>outcome.
      done_with (if rows_affected = 1 then ObjectInserted else outcome))))))))"

definition get_object_metadata :: "StoredObjectKind \<Rightarrow> string \<Rightarrow> StoredObjectMetadata option db_action" where
  "get_object_metadata kind object_id = then_do (object_rows_by_id kind object_id) (\<lambda>rows. case rows of
     [] \<Rightarrow> then_do (object_rows_by_object_id object_id) (\<lambda>conflicting.
             if conflicting = [] then done_with None
             else fail_with (StorageCorruption (''catalog metadata for '' @ kind_str kind @ '' `'' @ object_id
                    @ ''` is stored under the wrong object kind'')))
   | [row] \<Rightarrow> (if sr_kind row = kind \<and> sr_hash_algorithm row = OBJECT_HASH_ALGORITHM
               then done_with (Some \<lparr>sm_object_id = object_id, sm_kind = sr_kind row,
                      sm_encrypted_size = sr_encrypted_size row\<rparr>)
               else fail_with (StorageCorruption (''catalog metadata for '' @ kind_str kind @ '' `'' @ object_id
                      @ ''` is invalid'')))
   | _ \<Rightarrow> fail_with (StorageCorruption (''catalog metadata for '' @ kind_str kind @ '' `'' @ object_id
             @ ''` is invalid'')))"


section \<open>The head\<close>

text \<open>What the code takes from third-party packages: the JSON codec, the texts of errors, SQLite's
  execution of a \<^verbatim>\<open>CREATE\<close> statement, and the removal of white space and lower-casing of
  a text, which follow the Unicode tables of the standard library.\<close>

record db_env =
  de_json :: json_codec
  de_display :: "ProtocolError \<Rightarrow> string"
  de_create :: "string \<Rightarrow> DbFile \<Rightarrow> DbFile"
  de_fold_case :: "string \<Rightarrow> string"

definition optional :: "('a \<Rightarrow> ('b, 'e) result) \<Rightarrow> 'a option \<Rightarrow> ('b option, 'e) result" where
  "optional f x = (case x of None \<Rightarrow> Ok None | Some a \<Rightarrow> and_then (f a) (\<lambda>b. Ok (Some b)))"

definition read_head :: "db_env \<Rightarrow> WorkspaceId \<Rightarrow> HeadRow \<Rightarrow> WorkspaceHead server_result" where
  "read_head de w row =
    and_then (optional (\<lambda>s. map_err (parse_manifest_id s) (\<lambda>e. CorruptDatabase (de_display de e)))
      (hr_manifest_id row)) (\<lambda>manifest_id.
    and_then (to_u64 (hr_revision row) ''workspace head revision'') (\<lambda>revision.
    and_then (optional (\<lambda>s. map_err (parse_device_id s) (\<lambda>e. CorruptDatabase (de_display de e)))
      (hr_updated_by row)) (\<lambda>updated_by.
    and_then (optional (\<lambda>t. to_u64 t ''workspace head timestamp'') (hr_updated_at row)) (\<lambda>updated_at.
      Ok \<lparr>wh_workspace_id = w, wh_manifest_id = manifest_id, wh_revision = revision,
          wh_updated_by = updated_by, wh_updated_at = updated_at\<rparr>))))"

definition read_head_row :: "db_env \<Rightarrow> WorkspaceId \<Rightarrow> HeadRow option \<Rightarrow> WorkspaceHead server_result" where
  "read_head_row de w row = (case row of None \<Rightarrow> Ok (head_empty w) | Some r \<Rightarrow> read_head de w r)"

definition db_get_head :: "db_env \<Rightarrow> WorkspaceId \<Rightarrow> WorkspaceHead db_action" where
  "db_get_head de w = then_do (query tb_workspace_head) (\<lambda>row. lift_result (read_head_row de w row))"

text \<open>\<^verbatim>\<open>INSERT INTO workspace_head ... ON CONFLICT(singleton) DO NOTHING\<close>, and the
  conditional \<^verbatim>\<open>UPDATE\<close>.\<close>

definition sql_insert_head :: "HeadRow \<Rightarrow> Tables \<Rightarrow> Tables \<times> nat" where
  "sql_insert_head row t = (case tb_workspace_head t of
     None \<Rightarrow> (t\<lparr>tb_workspace_head := Some row\<rparr>, 1) | Some _ \<Rightarrow> (t, 0))"

definition sql_update_head :: "HeadRow \<Rightarrow> int \<Rightarrow> Tables \<Rightarrow> Tables \<times> nat" where
  "sql_update_head row expected t = (case tb_workspace_head t of
     Some old \<Rightarrow> (if hr_revision old = expected then (t\<lparr>tb_workspace_head := Some row\<rparr>, 1) else (t, 0))
   | None \<Rightarrow> (t, 0))"

definition db_update_head :: "db_env \<Rightarrow> u64 \<Rightarrow> WorkspaceId \<Rightarrow> u64 \<Rightarrow> ManifestId \<Rightarrow> DeviceId option \<Rightarrow>
    (HeadUpdateResult \<times> WorkspaceHead) db_action" where
  "db_update_head de now w expected_revision manifest_id updated_by =
    then_do (lift_result (to_i64 expected_revision ''workspace head revision'')) (\<lambda>expected.
    then_do (lift_result (ok_or (checked_add64 expected_revision 1) HeadRevisionOverflow)) (\<lambda>succ.
    then_do (lift_result (map_err (to_i64 succ ''workspace head revision'') (\<lambda>_. HeadRevisionOverflow))) (\<lambda>next_revision.
    let row = \<lparr>hr_manifest_id = Some (manifest_id_str manifest_id), hr_revision = next_revision,
               hr_updated_by = map_option device_id_str updated_by, hr_updated_at = Some (now_i64 now)\<rparr>
    in transaction (
       then_do (execute (if expected = 0 then sql_insert_head row else sql_update_head row expected)) (\<lambda>rows_affected.
       then_do (db_get_head de w) (\<lambda>h.
         done_with (if rows_affected = 1 then HeadUpdated else HeadConflict, h)))))))"


section \<open>The access state\<close>

definition db_validate_state :: "crypto \<Rightarrow> WorkspaceId \<Rightarrow> AccessState \<Rightarrow> unit server_result" where
  "db_validate_state cx w s =
    (if as_workspace_id s \<noteq> w then Err (AccessStateWorkspaceMismatch w (as_workspace_id s))
     else map_err (validate_state cx s) InvalidAccessState)"

definition db_get_access_state :: "crypto \<Rightarrow> db_env \<Rightarrow> WorkspaceId \<Rightarrow> AccessState db_action" where
  "db_get_access_state cx de w = then_do (query tb_access_state) (\<lambda>row. case row of
     None \<Rightarrow> done_with (state_empty w)
   | Some r \<Rightarrow>
       then_do (lift_result (map_err (js_access_from_slice (de_json de) (ar_access_state_json r))
          InvalidStoredAccessStateJson)) (\<lambda>s.
       then_do (lift_result (db_validate_state cx w s)) (\<lambda>_. done_with s)))"

definition sql_insert_access :: "AccessRow \<Rightarrow> Tables \<Rightarrow> Tables \<times> nat" where
  "sql_insert_access row t = (case tb_access_state t of
     None \<Rightarrow> (t\<lparr>tb_access_state := Some row\<rparr>, 1) | Some _ \<Rightarrow> (t, 0))"

definition sql_upsert_access :: "AccessRow \<Rightarrow> Tables \<Rightarrow> Tables \<times> nat" where
  "sql_upsert_access row t = (t\<lparr>tb_access_state := Some (case tb_access_state t of
     None \<Rightarrow> row
   | Some old \<Rightarrow> old\<lparr>ar_access_state_json := ar_access_state_json row, ar_updated_at := ar_updated_at row\<rparr>)\<rparr>, 1)"

definition encode_access :: "crypto \<Rightarrow> db_env \<Rightarrow> WorkspaceId \<Rightarrow> AccessState \<Rightarrow> AccessRow db_action" where
  "encode_access cx de w s =
    then_do (lift_result (db_validate_state cx w s)) (\<lambda>_.
    then_do (lift_result (map_err (js_access_to_vec (de_json de) s) InvalidStoredAccessStateJson)) (\<lambda>b.
    then_do read_clock (\<lambda>t.
      done_with \<lparr>ar_access_state_json = b, ar_created_at = now_i64 t, ar_updated_at = now_i64 t\<rparr>)))"

definition db_create_access_state :: "crypto \<Rightarrow> db_env \<Rightarrow> WorkspaceId \<Rightarrow> AccessState \<Rightarrow> unit db_action" where
  "db_create_access_state cx de w s = then_do (encode_access cx de w s) (\<lambda>row.
     then_do (execute (sql_insert_access row)) (\<lambda>rows_affected.
       if rows_affected = 1 then done_with () else fail_with WorkspaceAlreadyExists))"

definition db_save_access_state :: "crypto \<Rightarrow> db_env \<Rightarrow> WorkspaceId \<Rightarrow> AccessState \<Rightarrow> unit db_action" where
  "db_save_access_state cx de w s = then_do (encode_access cx de w s) (\<lambda>row.
     then_do (execute (sql_upsert_access row)) (\<lambda>_. done_with ()))"


section \<open>Key envelopes\<close>

definition sql_insert_envelope :: "string \<times> string \<Rightarrow> bytes \<Rightarrow> Tables \<Rightarrow> Tables \<times> nat" where
  "sql_insert_envelope k b t = (case map_of (tb_key_envelopes t) k of
     None \<Rightarrow> (t\<lparr>tb_key_envelopes := bt_insert k b (tb_key_envelopes t)\<rparr>, 1) | Some _ \<Rightarrow> (t, 0))"

definition db_get_key_envelope :: "KeyId \<Rightarrow> DeviceId \<Rightarrow> bytes option db_action" where
  "db_get_key_envelope k d = query (\<lambda>t. map_of (tb_key_envelopes t) (key_id_str k, device_id_str d))"

definition db_put_key_envelope :: "KeyId \<Rightarrow> DeviceId \<Rightarrow> bytes \<Rightarrow> PutResult db_action" where
  "db_put_key_envelope k d b =
    then_do (execute (sql_insert_envelope (key_id_str k, device_id_str d) b)) (\<lambda>rows_affected.
    if rows_affected = 1 then done_with PutCreated
    else then_do (query (\<lambda>t. map_of (tb_key_envelopes t) (key_id_str k, device_id_str d))) (\<lambda>found. case found of
        None \<Rightarrow> fail_with (StorageCorruption ''key envelope insert conflicted but no stored envelope exists'')
      | Some existing \<Rightarrow> done_with (if existing = b then PutAlreadyExists else PutConflict)))"


section \<open>Join requests\<close>

definition validate_request :: "WorkspaceId \<Rightarrow> DeviceJoinRequest \<Rightarrow> unit server_result" where
  "validate_request w q =
    (if jr_workspace_id q \<noteq> w then Err (AccessStateWorkspaceMismatch w (jr_workspace_id q)) else Ok ())"

definition deserialize_request :: "db_env \<Rightarrow> WorkspaceId \<Rightarrow> bytes \<Rightarrow> DeviceJoinRequest server_result" where
  "deserialize_request de w b =
    and_then (map_err (js_join_from_slice (de_json de) b)
      (\<lambda>e. CorruptDatabase (''invalid stored join request: '' @ e))) (\<lambda>q.
    and_then (validate_request w q) (\<lambda>_. Ok q))"

definition sql_insert_join :: "string \<Rightarrow> JoinRow \<Rightarrow> Tables \<Rightarrow> Tables \<times> nat" where
  "sql_insert_join k row t = (case map_of (tb_join_requests t) k of
     None \<Rightarrow> (t\<lparr>tb_join_requests := bt_insert k row (tb_join_requests t)\<rparr>, 1) | Some _ \<Rightarrow> (t, 0))"

definition sql_delete_join :: "string \<Rightarrow> Tables \<Rightarrow> Tables \<times> nat" where
  "sql_delete_join k t = (t\<lparr>tb_join_requests := bt_remove k (tb_join_requests t)\<rparr>,
     length (filter (\<lambda>(j, _). j = k) (tb_join_requests t)))"

text \<open>\<^verbatim>\<open>ORDER BY created_at,join_request_id\<close>: the map is in the order of the identifiers
  and the sort is stable.\<close>

definition sql_list_joins :: "Tables \<Rightarrow> bytes list" where
  "sql_list_joins t = map (jw_request_json \<circ> snd) (sort_key (jw_created_at \<circ> snd) (tb_join_requests t))"

definition db_submit_join_request :: "db_env \<Rightarrow> WorkspaceId \<Rightarrow> DeviceJoinRequest \<Rightarrow> JoinRequestPutResult db_action" where
  "db_submit_join_request de w q =
    (let j = join_request_id_str (jr_request_id q) in
     then_do (lift_result (validate_request w q)) (\<lambda>_.
     then_do (lift_result (map_err (js_join_to_vec (de_json de) q) SrvInvalidRequest)) (\<lambda>b.
     then_do (lift_result (to_i64 (jr_created_at q) ''join request timestamp'')) (\<lambda>created.
     then_do (execute (sql_insert_join j \<lparr>jw_request_json = b, jw_created_at = created\<rparr>)) (\<lambda>rows_affected.
     if rows_affected = 1 then done_with JoinSubmitted
     else then_do (query (\<lambda>t. map_of (tb_join_requests t) j)) (\<lambda>found. case found of
         None \<Rightarrow> fail_with (StorageCorruption (''join request `'' @ j
                  @ ''` conflicted during insert but no stored request exists''))
       | Some row \<Rightarrow>
           then_do (lift_result (map_err (js_join_from_slice (de_json de) (jw_request_json row))
             (\<lambda>e. StorageCorruption (''stored join request `'' @ j @ ''` is invalid JSON: '' @ e)))) (\<lambda>existing.
           then_do (lift_result (validate_request w existing)) (\<lambda>_.
             done_with (if existing \<noteq> q then JoinConflict else JoinAlreadyPending)))))))))"

definition db_list_join_requests :: "db_env \<Rightarrow> WorkspaceId \<Rightarrow> DeviceJoinRequest list db_action" where
  "db_list_join_requests de w = then_do (query sql_list_joins) (\<lambda>rows.
     lift_result (try_map (deserialize_request de w) rows))"

definition db_get_join_request :: "db_env \<Rightarrow> WorkspaceId \<Rightarrow> JoinRequestId \<Rightarrow> DeviceJoinRequest option db_action" where
  "db_get_join_request de w j = then_do (query (\<lambda>t. map_of (tb_join_requests t) (join_request_id_str j)))
     (\<lambda>found. lift_result (optional (\<lambda>row. deserialize_request de w (jw_request_json row)) found))"

definition db_remove_join_request :: "JoinRequestId \<Rightarrow> unit db_action" where
  "db_remove_join_request j = then_do (execute (sql_delete_join (join_request_id_str j))) (\<lambda>_. done_with ())"

end
