(* ===== verification/Sqlite_Open.thy ===== *)
theory Sqlite_Open
  imports Sqlite_Db Decimal
begin

text \<open>
  Opening a database (\<^verbatim>\<open>sqlite.rs\<close>: \<^verbatim>\<open>migrate\<close>, \<^verbatim>\<open>validate_v1_schema\<close>
  and the description of the first schema): a new file is given the schema, an existing one is accepted when
  its objects, their definitions, its columns and its migration history are those of the schema.
\<close>

section \<open>The first schema\<close>

definition LATEST_SCHEMA_VERSION :: int where "LATEST_SCHEMA_VERSION = 1"

definition V1_OBJECTS :: "(string \<times> string) list" where
  "V1_OBJECTS = [(''table'', ''schema_migrations''), (''table'', ''objects''), (''index'', ''idx_objects_id''),
     (''table'', ''workspace_head''), (''table'', ''access_state''), (''table'', ''join_requests''),
     (''index'', ''idx_join_requests_order''), (''table'', ''key_envelopes'')]"

definition V1_COLUMNS :: "(string \<times> (string \<times> string \<times> bool \<times> int) list) list" where
  "V1_COLUMNS = [
     (''schema_migrations'', [(''version'', ''INTEGER'', False, 1), (''applied_at'', ''INTEGER'', True, 0)]),
     (''objects'', [(''object_id'', ''TEXT'', True, 2), (''object_kind'', ''TEXT'', True, 1),
        (''hash_algorithm'', ''TEXT'', True, 0), (''encrypted_size'', ''INTEGER'', True, 0),
        (''created_at'', ''INTEGER'', True, 0)]),
     (''workspace_head'', [(''singleton'', ''INTEGER'', False, 1), (''manifest_id'', ''TEXT'', False, 0),
        (''revision'', ''INTEGER'', True, 0), (''updated_by'', ''TEXT'', False, 0),
        (''updated_at'', ''INTEGER'', False, 0)]),
     (''access_state'', [(''singleton'', ''INTEGER'', False, 1), (''access_state_json'', ''BLOB'', True, 0),
        (''created_at'', ''INTEGER'', True, 0), (''updated_at'', ''INTEGER'', True, 0)]),
     (''join_requests'', [(''join_request_id'', ''TEXT'', False, 1), (''request_json'', ''BLOB'', True, 0),
        (''created_at'', ''INTEGER'', True, 0)]),
     (''key_envelopes'', [(''key_id'', ''TEXT'', True, 1), (''recipient_device_id'', ''TEXT'', True, 2),
        (''envelope'', ''BLOB'', True, 0)])]"

definition V1_MIGRATION :: string where
  "V1_MIGRATION =
     ''CREATE TABLE IF NOT EXISTS schema_migrations (version INTEGER PRIMARY KEY, applied_at INTEGER NOT NULL);'' @ CHR 0x0A #
     ''CREATE TABLE IF NOT EXISTS objects ('' @ CHR 0x0A #
     '' object_id TEXT NOT NULL, object_kind TEXT NOT NULL CHECK(object_kind IN ('blob','manifest')),'' @ CHR 0x0A #
     '' hash_algorithm TEXT NOT NULL CHECK(hash_algorithm = 'sha256'), encrypted_size INTEGER NOT NULL CHECK(encrypted_size >= 0),'' @ CHR 0x0A #
     '' created_at INTEGER NOT NULL, PRIMARY KEY(object_kind, object_id));'' @ CHR 0x0A #
     ''CREATE INDEX IF NOT EXISTS idx_objects_id ON objects(object_id);'' @ CHR 0x0A #
     ''CREATE TABLE IF NOT EXISTS workspace_head (singleton INTEGER PRIMARY KEY CHECK(singleton = 1), manifest_id TEXT NULL, revision INTEGER NOT NULL CHECK(revision >= 0), updated_by TEXT NULL, updated_at INTEGER NULL);'' @ CHR 0x0A #
     ''CREATE TABLE IF NOT EXISTS access_state (singleton INTEGER PRIMARY KEY CHECK(singleton = 1), access_state_json BLOB NOT NULL, created_at INTEGER NOT NULL, updated_at INTEGER NOT NULL);'' @ CHR 0x0A #
     ''CREATE TABLE IF NOT EXISTS join_requests (join_request_id TEXT PRIMARY KEY, request_json BLOB NOT NULL, created_at INTEGER NOT NULL);'' @ CHR 0x0A #
     ''CREATE INDEX IF NOT EXISTS idx_join_requests_order ON join_requests(created_at, join_request_id);'' @ CHR 0x0A #
     ''CREATE TABLE IF NOT EXISTS key_envelopes (key_id TEXT NOT NULL, recipient_device_id TEXT NOT NULL, envelope BLOB NOT NULL, PRIMARY KEY(key_id, recipient_device_id));'' @ [CHR 0x0A]"

definition V1_DEFINITIONS :: "(string \<times> string) list" where
  "V1_DEFINITIONS = [
     (''schema_migrations'',
      ''CREATE TABLE IF NOT EXISTS schema_migrations (version INTEGER PRIMARY KEY, applied_at INTEGER NOT NULL)''),
     (''objects'',
      ''CREATE TABLE IF NOT EXISTS objects ( object_id TEXT NOT NULL, object_kind TEXT NOT NULL CHECK(object_kind IN ('blob','manifest')), hash_algorithm TEXT NOT NULL CHECK(hash_algorithm = 'sha256'), encrypted_size INTEGER NOT NULL CHECK(encrypted_size >= 0), created_at INTEGER NOT NULL, PRIMARY KEY(object_kind, object_id))''),
     (''idx_objects_id'', ''CREATE INDEX IF NOT EXISTS idx_objects_id ON objects(object_id)''),
     (''workspace_head'',
      ''CREATE TABLE IF NOT EXISTS workspace_head (singleton INTEGER PRIMARY KEY CHECK(singleton = 1), manifest_id TEXT NULL, revision INTEGER NOT NULL CHECK(revision >= 0), updated_by TEXT NULL, updated_at INTEGER NULL)''),
     (''access_state'',
      ''CREATE TABLE IF NOT EXISTS access_state (singleton INTEGER PRIMARY KEY CHECK(singleton = 1), access_state_json BLOB NOT NULL, created_at INTEGER NOT NULL, updated_at INTEGER NOT NULL)''),
     (''join_requests'',
      ''CREATE TABLE IF NOT EXISTS join_requests (join_request_id TEXT PRIMARY KEY, request_json BLOB NOT NULL, created_at INTEGER NOT NULL)''),
     (''idx_join_requests_order'',
      ''CREATE INDEX IF NOT EXISTS idx_join_requests_order ON join_requests(created_at, join_request_id)''),
     (''key_envelopes'',
      ''CREATE TABLE IF NOT EXISTS key_envelopes (key_id TEXT NOT NULL, recipient_device_id TEXT NOT NULL, envelope BLOB NOT NULL, PRIMARY KEY(key_id, recipient_device_id))'')]"

definition expected_object_sql :: "string \<Rightarrow> string option" where
  "expected_object_sql object_name = map_of V1_DEFINITIONS object_name"

text \<open>\<^verbatim>\<open>str::replace\<close> with the empty string.\<close>

function remove_all_str :: "string \<Rightarrow> string \<Rightarrow> string" where
  "remove_all_str pat s = (case s of [] \<Rightarrow> []
     | c # cs \<Rightarrow> (if pat \<noteq> [] \<and> starts_with s pat then remove_all_str pat (drop (length pat) s)
                 else c # remove_all_str pat cs))"
  by auto
termination by (relation "measure (length \<circ> snd)") auto

declare remove_all_str.simps [simp del]

definition normalize_sql :: "db_env \<Rightarrow> string \<Rightarrow> string" where
  "normalize_sql de sql = remove_all_str ''ifnotexists'' (de_fold_case de sql)"


section \<open>Validation\<close>

text \<open>\<^verbatim>\<open>name NOT LIKE 'sqlite_%'\<close>: the underscore is any one character and letters are compared
  without case.\<close>

definition ascii_lower :: "char \<Rightarrow> char" where
  "ascii_lower c = (if CHR ''A'' \<le> c \<and> c \<le> CHR ''Z'' then char_of ((of_char c :: nat) + 32) else c)"

definition like_sqlite :: "string \<Rightarrow> bool" where
  "like_sqlite s \<longleftrightarrow> 7 \<le> length s \<and> map ascii_lower (take 6 s) = ''sqlite''"

definition sql_schema_objects :: "DbFile \<Rightarrow> (string \<times> string \<times> string option) list" where
  "sql_schema_objects file = sort_key (\<lambda>(object_type, n, _). (object_type, n))
     (filter (\<lambda>(_, n, _). \<not> like_sqlite n) (df_objects file))"

definition schema_objects :: "(string \<times> string \<times> string option) list db_action" where
  "schema_objects = statement (\<lambda>file. (file, sql_schema_objects file))"

definition sql_table_info :: "string \<Rightarrow> DbFile \<Rightarrow> (string \<times> string \<times> int \<times> int) list" where
  "sql_table_info table file = (case map_of (df_columns file) table of None \<Rightarrow> [] | Some columns \<Rightarrow> columns)"

definition corrupt :: "string \<Rightarrow> ServerError" where
  "corrupt message = CorruptDatabase message"

definition validate_definition :: "db_env \<Rightarrow> string \<times> string \<times> string option \<Rightarrow> unit server_result" where
  "validate_definition de = (\<lambda>(object_type, n, sql).
     and_then (ok_or (expected_object_sql n) (corrupt (''unexpected '' @ object_type @ '' `'' @ n @ ''`''))) (\<lambda>expected.
       if normalize_sql de (case sql of None \<Rightarrow> '''' | Some s \<Rightarrow> s) \<noteq> normalize_sql de expected
       then Err (corrupt (''unexpected definition for '' @ object_type @ '' `'' @ n @ ''`'')) else Ok ()))"

fun validate_columns :: "(string \<times> (string \<times> string \<times> bool \<times> int) list) list \<Rightarrow> unit db_action" where
  "validate_columns [] = done_with ()"
| "validate_columns ((table, expected) # rest) =
     then_do (statement (\<lambda>file. (file, sql_table_info table file))) (\<lambda>actual.
       if actual \<noteq> map (\<lambda>(n, column_type, not_null, primary_key).
            (n, column_type, if not_null then 1 else 0, primary_key)) expected
       then fail_with (corrupt (''unexpected columns for table `'' @ table @ ''`''))
       else validate_columns rest)"

definition validate_v1_schema ::
  "db_env \<Rightarrow> (string \<times> string \<times> string option) list \<Rightarrow> unit db_action" where
  "validate_v1_schema de objects =
    (if map (\<lambda>(object_type, n, _). (object_type, n)) objects \<noteq> sort V1_OBJECTS
     then fail_with (corrupt ''unexpected V1 schema objects'')
     else then_do (lift_result (try_for (validate_definition de) objects)) (\<lambda>_.
       then_do (validate_columns V1_COLUMNS) (\<lambda>_.
       then_do (statement (\<lambda>file. (file, df_quick_check file))) (\<lambda>quick_check.
         if quick_check \<noteq> [''ok'']
         then fail_with (corrupt (''SQLite quick_check failed: '' @ join_with ''; '' quick_check))
         else done_with ()))))"


section \<open>Migration\<close>

definition migration_statements :: "string list" where
  "migration_statements = filter (list_ex (\<lambda>c. c \<noteq> CHR 0x0A \<and> c \<noteq> CHR '' ''))
     (split_on CHR '';'' V1_MIGRATION)"

fun create_schema :: "db_env \<Rightarrow> string list \<Rightarrow> unit db_action" where
  "create_schema de [] = done_with ()"
| "create_schema de (s # rest) =
     then_do (statement (\<lambda>file. (de_create de s file, ()))) (\<lambda>_. create_schema de rest)"

text \<open>\<^verbatim>\<open>INSERT INTO schema_migrations\<close> of version 1; its callers have checked that there is none.\<close>

definition record_migration :: "unit db_action" where
  "record_migration = then_do read_clock (\<lambda>t.
     statement (\<lambda>file. (file\<lparr>df_versions := (1, now_i64 t) # df_versions file\<rparr>, ())))"

definition migrate_body :: "db_env \<Rightarrow> unit db_action" where
  "migrate_body de = then_do schema_objects (\<lambda>objects.
     if objects = [] then
       then_do (create_schema de migration_statements) (\<lambda>_.
       then_do record_migration (\<lambda>_.
       then_do schema_objects (\<lambda>objects. validate_v1_schema de objects)))
     else if \<not> list_ex (\<lambda>(object_type, n, _). object_type = ''table'' \<and> n = ''schema_migrations'') objects
     then validate_v1_schema de objects
     else then_do (statement (\<lambda>file. (file, sort (map fst (df_versions file))))) (\<lambda>versions.
       case find (\<lambda>v. v > LATEST_SCHEMA_VERSION) versions of
         Some found \<Rightarrow> fail_with (UnsupportedSchemaVersion found LATEST_SCHEMA_VERSION)
       | None \<Rightarrow> then_do (validate_v1_schema de objects) (\<lambda>_.
           if versions = [] then record_migration
           else if versions = [LATEST_SCHEMA_VERSION] then done_with ()
           else fail_with (corrupt ''invalid schema migration history''))))"

definition migrate :: "db_env \<Rightarrow> unit db_action" where
  "migrate de = then_do control (\<lambda>_ cn. undo (cn_file cn) (match_do (migrate_body de) (\<lambda>r. case r of
       Ok _ \<Rightarrow> control
     | Err e \<Rightarrow> then_do control (\<lambda>_. fail_with e))) cn)"

end
