(* ===== verification/Indexed_Fs.thy ===== *)
theory Indexed_Fs
  imports Fs_Storage Sqlite_Open
begin

text \<open>
  \<^verbatim>\<open>rustsync-server/src/storage/indexed_fs.rs\<close>, the back end the server runs: objects are
  files, named by their content, and one database per workspace holds the rest together with a catalogue
  of the objects.  Its state is the file system, the database files by path, and the registry of open
  databases.  The mutexes \<^verbatim>\<open>put_lock\<close> and \<^verbatim>\<open>databases\<close> are the atomicity of
  the operations.
\<close>

section \<open>State\<close>

record Indexed =
  ix_fs :: FileSys
  ix_dbs :: "(path \<times> DbFile) list"
  ix_databases :: "WorkspaceId list"
  ix_faults :: "string option list"
  ix_clock :: "u64 list"

type_synonym 'a ix_action = "(Indexed, 'a) storage_action"

definition on_fs :: "(FileSys, 'a) storage_action \<Rightarrow> 'a ix_action" where
  "on_fs m ix = (case m (ix_fs ix) of (fs, r) \<Rightarrow> (ix\<lparr>ix_fs := fs\<rparr>, r))"

text \<open>Runs a database operation on the file at a path.\<close>

definition on_db :: "path \<Rightarrow> 'a db_action \<Rightarrow> 'a ix_action" where
  "on_db p m ix = (case map_of (ix_dbs ix) p of
     None \<Rightarrow> (ix, Err (Database ''unable to open database file''))
   | Some file \<Rightarrow> (case m \<lparr>cn_file = file, cn_faults = ix_faults ix, cn_clock = ix_clock ix\<rparr> of
       (cn, r) \<Rightarrow> (ix\<lparr>ix_dbs := bt_insert p (cn_file cn) (ix_dbs ix), ix_faults := cn_faults cn,
                     ix_clock := cn_clock cn\<rparr>, r)))"


section \<open>The registry\<close>

text \<open>Connecting to a file that is missing creates it.\<close>

definition connect :: "path \<Rightarrow> unit ix_action" where
  "connect p ix = (case ix_faults ix of
     Some e # rest \<Rightarrow> (ix\<lparr>ix_faults := rest\<rparr>, Err (Database e))
   | faults \<Rightarrow> (ix\<lparr>ix_faults := tl faults, ix_dbs := (case map_of (ix_dbs ix) p of
        Some _ \<Rightarrow> ix_dbs ix | None \<Rightarrow> bt_insert p empty_db_file (ix_dbs ix))\<rparr>, Ok ()))"

definition db_open :: "db_env \<Rightarrow> path \<Rightarrow> unit ix_action" where
  "db_open de p = then_do (on_fs (st_io (fs_create_dir_all (butlast p)))) (\<lambda>_.
     then_do (connect p) (\<lambda>_. on_db p (migrate de)))"

text \<open>How a path is shown in an error message; the root is not part of the model.\<close>

definition show_path :: "path \<Rightarrow> string" where
  "show_path p = join_with ''/'' p"

definition open_error :: "WorkspaceId \<Rightarrow> path \<Rightarrow> ServerError \<Rightarrow> ServerError" where
  "open_error w p source = (case source of
     Database e \<Rightarrow> WorkspaceDatabase w (show_path p) ''open'' (Database e) | _ \<Rightarrow> source)"

definition get_or_open :: "db_env \<Rightarrow> WorkspaceId \<Rightarrow> path ix_action" where
  "get_or_open de w ix =
    (let p = workspace_state_path (workspace_id_str w) in
     if w \<in> set (ix_databases ix) then (ix, Ok p)
     else then_do (map_error (db_open de p) (open_error w p)) (\<lambda>_ ix.
       (ix\<lparr>ix_databases := w # ix_databases ix\<rparr>, Ok p)) ix)"

definition db_file_exists :: "path \<Rightarrow> bool ix_action" where
  "db_file_exists p ix = (case fs_faults (ix_fs ix) of
     Some f # rest \<Rightarrow> (ix\<lparr>ix_fs := (ix_fs ix)\<lparr>fs_faults := rest\<rparr>\<rparr>,
                      Err (StorageIo (IoError OtherKind (fault_message f))))
   | faults \<Rightarrow> (ix\<lparr>ix_fs := (ix_fs ix)\<lparr>fs_faults := tl faults\<rparr>\<rparr>, Ok (map_of (ix_dbs ix) p \<noteq> None)))"

definition get_existing :: "db_env \<Rightarrow> WorkspaceId \<Rightarrow> path option ix_action" where
  "get_existing de w ix =
    (let p = workspace_state_path (workspace_id_str w) in
     if w \<in> set (ix_databases ix) then (ix, Ok (Some p))
     else then_do (db_file_exists p) (\<lambda>present.
       if \<not> present then done_with None
       else then_do (get_or_open de w) (\<lambda>p. done_with (Some p))) ix)"

definition with_db :: "db_env \<Rightarrow> WorkspaceId \<Rightarrow> 'a db_action \<Rightarrow> 'a ix_action" where
  "with_db de w m = then_do (get_or_open de w) (\<lambda>p. on_db p m)"


section \<open>Objects\<close>

fun ix_object_path :: "WorkspaceId \<Rightarrow> StoredObjectKind \<Rightarrow> string \<Rightarrow> path" where
  "ix_object_path w BlobKind i = blob_path (workspace_id_str w) i"
| "ix_object_path w ManifestKind i = manifest_path (workspace_id_str w) i"

fun matches_id :: "(bytes \<Rightarrow> bytes) \<Rightarrow> StoredObjectKind \<Rightarrow> string \<Rightarrow> bytes \<Rightarrow> bool" where
  "matches_id sha BlobKind i b \<longleftrightarrow> blob_id_str (blob_id_from_content sha b) = i"
| "matches_id sha ManifestKind i b \<longleftrightarrow> manifest_id_str (manifest_id_from_content sha b) = i"

definition catalogue_entry :: "StoredObjectKind \<Rightarrow> string \<Rightarrow> bytes \<Rightarrow> StoredObjectMetadata" where
  "catalogue_entry k i b = \<lparr>sm_object_id = i, sm_kind = k, sm_encrypted_size = word_of_nat (length b)\<rparr>"

definition read_canonical :: "nat \<Rightarrow> path \<Rightarrow> bytes \<Rightarrow> (FileSys, bytes) storage_action" where
  "read_canonical pid p b = match_do (fs_read p) (\<lambda>r. case r of
     Ok existing \<Rightarrow> done_with existing
   | Err e \<Rightarrow> (if io_kind e = NotFound
              then then_do (st_io (write_new pid p b)) (\<lambda>_. st_io (fs_read p))
              else fail_with (StorageIo e)))"

definition put_object :: "crypto \<Rightarrow> db_env \<Rightarrow> nat \<Rightarrow> WorkspaceId \<Rightarrow> StoredObjectKind \<Rightarrow> string \<Rightarrow> bytes \<Rightarrow>
    PutResult ix_action" where
  "put_object cx de pid w k i b = then_do (on_fs (read_canonical pid (ix_object_path w k i) b)) (\<lambda>canonical.
     if canonical \<noteq> b \<or> \<not> matches_id (cr_sha256 cx) k i canonical
     then fail_with (StorageCorruption (''canonical '' @ kind_str k @ '' `'' @ i
            @ ''` does not exactly match submitted bytes and content ID''))
     else then_do (with_db de w (insert_object_if_absent (catalogue_entry k i canonical))) (\<lambda>row.
       done_with (if row = ObjectInserted then PutCreated else PutAlreadyExists)))"

definition verify_backfill :: "crypto \<Rightarrow> db_env \<Rightarrow> WorkspaceId \<Rightarrow> StoredObjectKind \<Rightarrow> string \<Rightarrow> bytes \<Rightarrow>
    unit ix_action" where
  "verify_backfill cx de w k i b =
    (if \<not> matches_id (cr_sha256 cx) k i b
     then fail_with (StorageCorruption (''stored '' @ kind_str k @ '' `'' @ i @ ''` does not match its content ID''))
     else then_do (with_db de w (insert_object_if_absent (catalogue_entry k i b))) (\<lambda>_. done_with ()))"

definition report_missing_catalog_row :: "db_env \<Rightarrow> WorkspaceId \<Rightarrow> StoredObjectKind \<Rightarrow> string \<Rightarrow> unit ix_action" where
  "report_missing_catalog_row de w k i = then_do (with_db de w (get_object_metadata k i)) (\<lambda>row.
     if row \<noteq> None
     then fail_with (StorageCorruption (''catalog metadata for '' @ kind_str k @ '' `'' @ i
            @ ''` exists but its canonical file is missing''))
     else done_with ())"

definition ix_read :: "path \<Rightarrow> bytes option ix_action" where
  "ix_read p = on_fs (match_do (fs_read p) (\<lambda>r. case r of
     Ok b \<Rightarrow> done_with (Some b)
   | Err e \<Rightarrow> (if io_kind e = NotFound then done_with None else fail_with (StorageIo e))))"

definition get_object :: "crypto \<Rightarrow> db_env \<Rightarrow> WorkspaceId \<Rightarrow> StoredObjectKind \<Rightarrow> string \<Rightarrow> ServerError \<Rightarrow>
    bytes ix_action" where
  "get_object cx de w k i missing = then_do (ix_read (ix_object_path w k i)) (\<lambda>found. case found of
     None \<Rightarrow> then_do (report_missing_catalog_row de w k i) (\<lambda>_. fail_with missing)
   | Some b \<Rightarrow> then_do (verify_backfill cx de w k i b) (\<lambda>_. done_with b))"

definition exists_object :: "crypto \<Rightarrow> db_env \<Rightarrow> WorkspaceId \<Rightarrow> StoredObjectKind \<Rightarrow> string \<Rightarrow> bool ix_action" where
  "exists_object cx de w k i = then_do (ix_read (ix_object_path w k i)) (\<lambda>found. case found of
     None \<Rightarrow> then_do (report_missing_catalog_row de w k i) (\<lambda>_. done_with False)
   | Some b \<Rightarrow> then_do (verify_backfill cx de w k i b) (\<lambda>_. done_with True))"


section \<open>The storage interface\<close>

definition ix_put_blob :: "crypto \<Rightarrow> db_env \<Rightarrow> nat \<Rightarrow> WorkspaceId \<Rightarrow> BlobId \<Rightarrow> bytes \<Rightarrow> PutResult ix_action" where
  "ix_put_blob cx de pid w i b =
    (if blob_id_from_content (cr_sha256 cx) b \<noteq> i then fail_with ObjectHashMismatch
     else put_object cx de pid w BlobKind (blob_id_str i) b)"

definition ix_get_blob :: "crypto \<Rightarrow> db_env \<Rightarrow> WorkspaceId \<Rightarrow> BlobId \<Rightarrow> bytes ix_action" where
  "ix_get_blob cx de w i = get_object cx de w BlobKind (blob_id_str i) BlobNotFound"

definition ix_blob_exists :: "crypto \<Rightarrow> db_env \<Rightarrow> WorkspaceId \<Rightarrow> BlobId \<Rightarrow> bool ix_action" where
  "ix_blob_exists cx de w i = exists_object cx de w BlobKind (blob_id_str i)"

definition ix_put_manifest ::
  "crypto \<Rightarrow> db_env \<Rightarrow> nat \<Rightarrow> WorkspaceId \<Rightarrow> ManifestId \<Rightarrow> bytes \<Rightarrow> PutResult ix_action" where
  "ix_put_manifest cx de pid w m b =
    (if manifest_id_from_content (cr_sha256 cx) b \<noteq> m then fail_with ObjectHashMismatch
     else put_object cx de pid w ManifestKind (manifest_id_str m) b)"

definition ix_get_manifest :: "crypto \<Rightarrow> db_env \<Rightarrow> WorkspaceId \<Rightarrow> ManifestId \<Rightarrow> bytes ix_action" where
  "ix_get_manifest cx de w m = get_object cx de w ManifestKind (manifest_id_str m) ManifestNotFound"

definition ix_manifest_exists :: "crypto \<Rightarrow> db_env \<Rightarrow> WorkspaceId \<Rightarrow> ManifestId \<Rightarrow> bool ix_action" where
  "ix_manifest_exists cx de w m = exists_object cx de w ManifestKind (manifest_id_str m)"

definition ix_put_key_envelope ::
  "db_env \<Rightarrow> WorkspaceId \<Rightarrow> KeyId \<Rightarrow> DeviceId \<Rightarrow> bytes \<Rightarrow> PutResult ix_action" where
  "ix_put_key_envelope de w k d b = with_db de w (db_put_key_envelope k d b)"

definition ix_get_key_envelope :: "db_env \<Rightarrow> WorkspaceId \<Rightarrow> KeyId \<Rightarrow> DeviceId \<Rightarrow> bytes option ix_action" where
  "ix_get_key_envelope de w k d = with_db de w (db_get_key_envelope k d)"

definition ix_get_head :: "crypto \<Rightarrow> db_env \<Rightarrow> WorkspaceId \<Rightarrow> WorkspaceHead ix_action" where
  "ix_get_head cx de w = then_do (with_db de w (db_get_head de w)) (\<lambda>h. case wh_manifest_id h of
     None \<Rightarrow> done_with h
   | Some m \<Rightarrow> then_do (ix_get_manifest cx de w m) (\<lambda>_. done_with h))"

definition ix_update_head :: "crypto \<Rightarrow> db_env \<Rightarrow> u64 \<Rightarrow> WorkspaceId \<Rightarrow> u64 \<Rightarrow> ManifestId \<Rightarrow> DeviceId option \<Rightarrow>
    (HeadUpdateResult \<times> WorkspaceHead) ix_action" where
  "ix_update_head cx de now w e m d = then_do (ix_manifest_exists cx de w m) (\<lambda>present.
     if \<not> present then fail_with ManifestNotFound
     else with_db de w (db_update_head de now w e m d))"

definition ix_get_access_state :: "crypto \<Rightarrow> db_env \<Rightarrow> WorkspaceId \<Rightarrow> AccessState ix_action" where
  "ix_get_access_state cx de w = then_do (get_existing de w) (\<lambda>found. case found of
     Some p \<Rightarrow> on_db p (db_get_access_state cx de w) | None \<Rightarrow> done_with (state_empty w))"

definition ix_create_access_state :: "crypto \<Rightarrow> db_env \<Rightarrow> WorkspaceId \<Rightarrow> AccessState \<Rightarrow> unit ix_action" where
  "ix_create_access_state cx de w s = with_db de w (db_create_access_state cx de w s)"

definition ix_save_access_state :: "crypto \<Rightarrow> db_env \<Rightarrow> WorkspaceId \<Rightarrow> AccessState \<Rightarrow> unit ix_action" where
  "ix_save_access_state cx de w s = with_db de w (db_save_access_state cx de w s)"

definition ix_submit_join_request ::
  "db_env \<Rightarrow> WorkspaceId \<Rightarrow> DeviceJoinRequest \<Rightarrow> JoinRequestPutResult ix_action" where
  "ix_submit_join_request de w q = with_db de w (db_submit_join_request de w q)"

definition ix_list_join_requests :: "db_env \<Rightarrow> WorkspaceId \<Rightarrow> DeviceJoinRequest list ix_action" where
  "ix_list_join_requests de w = with_db de w (db_list_join_requests de w)"

definition ix_get_join_request :: "db_env \<Rightarrow> WorkspaceId \<Rightarrow> JoinRequestId \<Rightarrow> DeviceJoinRequest option ix_action" where
  "ix_get_join_request de w j = with_db de w (db_get_join_request de w j)"

definition ix_remove_join_request :: "db_env \<Rightarrow> WorkspaceId \<Rightarrow> JoinRequestId \<Rightarrow> unit ix_action" where
  "ix_remove_join_request de w j = with_db de w (db_remove_join_request j)"

definition indexed_storage :: "crypto \<Rightarrow> db_env \<Rightarrow> nat \<Rightarrow> Indexed Storage" where
  "indexed_storage cx de pid = \<lparr>so_put_blob = ix_put_blob cx de pid, so_get_blob = ix_get_blob cx de,
     so_blob_exists = ix_blob_exists cx de, so_put_manifest = ix_put_manifest cx de pid,
     so_get_manifest = ix_get_manifest cx de, so_manifest_exists = ix_manifest_exists cx de,
     so_put_key_envelope = ix_put_key_envelope de, so_get_key_envelope = ix_get_key_envelope de,
     so_get_head = ix_get_head cx de, so_update_head = ix_update_head cx de,
     so_get_access_state = ix_get_access_state cx de, so_create_access_state = ix_create_access_state cx de,
     so_save_access_state = ix_save_access_state cx de, so_submit_join_request = ix_submit_join_request de,
     so_list_join_requests = ix_list_join_requests de, so_get_join_request = ix_get_join_request de,
     so_remove_join_request = ix_remove_join_request de\<rparr>"

end
