(* ===== verification/Indexed_Contract.thy ===== *)
theory Indexed_Contract
  imports Indexed_Fs Fs_Contract
begin

text \<open>
  The back end the server runs meets the storage contract: what each database operation does to the
  tables of its workspace, under any failures of statements and of the file system, what that is in the
  view, and the interpretation of the contract.
\<close>

section \<open>Statements and transactions\<close>

abbreviation tables_of :: "Conn \<Rightarrow> Tables" where
  "tables_of cn \<equiv> df_tables (cn_file cn)"

lemma statement_post:
  assumes "\<And>cn'. cn_file cn' = fst (run (cn_file cn)) \<Longrightarrow> P cn' (Ok (snd (run (cn_file cn))))"
    and "\<And>cn' e. cn_file cn' = cn_file cn \<Longrightarrow> P cn' (Err (Database e))"
  shows "post (statement run) cn P"
  using assms by (auto simp: statement_def post_def Let_def split: list.splits option.splits prod.splits)

lemma query_post:
  "post (query f) cn (\<lambda>cn' r. tables_of cn' = tables_of cn \<and> (\<forall>x. r = Ok x \<longrightarrow> x = f (tables_of cn)))"
  unfolding query_def by (rule statement_post) simp_all

lemma execute_post:
  "post (execute f) cn (\<lambda>cn' r. case r of Ok n \<Rightarrow> tables_of cn' = fst (f (tables_of cn)) \<and> n = snd (f (tables_of cn))
     | Err _ \<Rightarrow> tables_of cn' = tables_of cn)"
  unfolding execute_def by (rule statement_post) (simp_all add: Let_def split: prod.splits)

lemma control_post: "post control cn (\<lambda>cn' r. cn_file cn' = cn_file cn)"
  unfolding control_def by (rule statement_post) simp_all

lemma undo_post:
  assumes "post m cn (\<lambda>cn' r. \<forall>a. r = Ok a \<longrightarrow> P cn' a)"
  shows "post (undo file m) cn (\<lambda>cn' r. case r of Ok a \<Rightarrow> P cn' a | Err _ \<Rightarrow> cn_file cn' = file)"
  using assms by (auto simp: undo_def post_def split: prod.splits result.splits)

lemma transaction_post:
  assumes "\<And>cn'. tables_of cn' = tables_of cn \<Longrightarrow> post body cn' (\<lambda>cn'' r. \<forall>a. r = Ok a \<longrightarrow> R (tables_of cn'') a)"
  shows "post (transaction body) cn (\<lambda>cn' r. case r of Ok a \<Rightarrow> R (tables_of cn') a | Err _ \<Rightarrow> tables_of cn' = tables_of cn)"
  unfolding transaction_def post_then
proof (rule post_mono[OF control_post], goal_cases)
  case (1 cn1 r)
  show ?case
  proof (cases r)
    case (Ok u)
    have body: "post (then_do body (\<lambda>a. then_do control (\<lambda>_. done_with a))) cn1 (\<lambda>cn' r. \<forall>a. r = Ok a \<longrightarrow> R (tables_of cn') a)"
      unfolding post_then
    proof (rule post_mono[OF assms[of cn1]], goal_cases)
      case (2 cn2 r2)
      then show ?case
        by (cases r2) (auto simp: post_simps intro!: post_mono[OF control_post] split: result.splits)
    qed (use 1 in simp)
    have "post (undo (cn_file cn1) (then_do body (\<lambda>a. then_do control (\<lambda>_. done_with a)))) cn1
        (\<lambda>cn' r. case r of Ok a \<Rightarrow> R (tables_of cn') a | Err _ \<Rightarrow> tables_of cn' = tables_of cn)"
      by (rule post_mono[OF undo_post[OF body]]) (use 1 in \<open>auto split: result.splits\<close>)
    then show ?thesis using Ok by (simp add: post_def)
  qed (use 1 in simp)
qed

lemma keeps_statement:
  "(\<And>file. df_tables (fst (run file)) = df_tables file) \<Longrightarrow> keeps tables_of (statement run)"
  unfolding keeps_def by (intro allI statement_post) simp_all

lemma keeps_control: "keeps tables_of control"
  unfolding control_def by (rule keeps_statement) simp

lemma keeps_query: "keeps tables_of (query f)"
  unfolding query_def by (rule keeps_statement) simp

lemma keeps_clock: "keeps tables_of read_clock"
  by (auto simp: keeps_def post_def read_clock_def split: list.splits)

lemmas keeps_db = keeps_intros keeps_basic keeps_statement keeps_control keeps_query keeps_clock


section \<open>Opening changes no table\<close>

definition create_ok :: "db_env \<Rightarrow> bool" where
  "create_ok de \<longleftrightarrow> (\<forall>s file. df_tables (de_create de s file) = df_tables file)"

lemma keeps_create_schema: "create_ok de \<Longrightarrow> keeps tables_of (create_schema de ss)"
  by (induction ss) (auto simp: create_ok_def intro!: keeps_db)

lemma keeps_validate_columns: "keeps tables_of (validate_columns cs)"
  by (induction cs rule: validate_columns.induct) (auto intro!: keeps_db)

lemma keeps_validate: "keeps tables_of (validate_v1_schema de objects)"
  unfolding validate_v1_schema_def by (auto intro!: keeps_db keeps_validate_columns)

lemma keeps_record_migration: "keeps tables_of record_migration"
  unfolding record_migration_def by (auto intro!: keeps_db)

lemma keeps_migrate_body: "create_ok de \<Longrightarrow> keeps tables_of (migrate_body de)"
  unfolding migrate_body_def schema_objects_def
  by (auto intro!: keeps_db keeps_validate keeps_record_migration keeps_create_schema split: option.split)

lemma keeps_migrate:
  assumes "create_ok de"
  shows "keeps tables_of (migrate de)"
proof -
  have "keeps tables_of (match_do (migrate_body de) (\<lambda>r. case r of Ok _ \<Rightarrow> control
      | Err e \<Rightarrow> then_do control (\<lambda>_. fail_with e)))" (is "keeps _ ?m")
    by (auto intro!: keeps_db keeps_migrate_body[OF assms] split: result.split)
  then have "keeps tables_of (\<lambda>cn. undo (cn_file cn) ?m cn)"
    unfolding keeps_def post_def undo_def by (auto split: prod.splits result.splits) (metis fst_conv)
  then show ?thesis unfolding migrate_def by (intro keeps_then keeps_control)
qed


section \<open>View and invariant\<close>

definition tables :: "Indexed \<Rightarrow> WorkspaceId \<Rightarrow> Tables" where
  "tables ix w = (case map_of (ix_dbs ix) (workspace_state_path (workspace_id_str w)) of
     None \<Rightarrow> empty_tables | Some file \<Rightarrow> df_tables file)"

definition view_from :: "db_env \<Rightarrow> (path \<Rightarrow> bytes option) \<Rightarrow> (WorkspaceId \<Rightarrow> Tables) \<Rightarrow> StoreView" where
  "view_from de files ts = \<lparr>
     vw_object = (\<lambda>w h. files (hash_path (workspace_id_str w) (hex_encode h))),
     vw_envelope = (\<lambda>w k d. map_of (tb_key_envelopes (ts w)) (key_id_str k, device_id_str d)),
     vw_head = (\<lambda>w. Option.bind (tb_workspace_head (ts w)) (\<lambda>r. decoded (read_head de w r))),
     vw_access = (\<lambda>w. Option.bind (tb_access_state (ts w))
        (\<lambda>r. decoded (js_access_from_slice (de_json de) (ar_access_state_json r)))),
     vw_join = (\<lambda>w j. Option.bind (map_of (tb_join_requests (ts w)) (join_request_id_str j))
        (\<lambda>r. decoded (js_join_from_slice (de_json de) (jw_request_json r))))\<rparr>"

definition ix_view :: "db_env \<Rightarrow> Indexed \<Rightarrow> StoreView" where
  "ix_view de ix = view_from de (visible (ix_fs ix)) (tables ix)"

definition join_row_ok :: "db_env \<Rightarrow> WorkspaceId \<Rightarrow> string \<times> JoinRow \<Rightarrow> bool" where
  "join_row_ok de w = (\<lambda>(j, row). \<exists>q. js_join_from_slice (de_json de) (jw_request_json row) = Ok q
     \<and> jr_workspace_id q = w \<and> join_request_id_ok (jr_request_id q) \<and> j = join_request_id_str (jr_request_id q))"

definition tables_ok :: "crypto \<Rightarrow> db_env \<Rightarrow> WorkspaceId \<Rightarrow> Tables \<Rightarrow> bool" where
  "tables_ok cx de w t \<longleftrightarrow>
     (\<forall>r. tb_workspace_head t = Some r \<longrightarrow> 1 \<le> hr_revision r \<and> hr_revision r \<le> i64_max \<and> is_ok (read_head de w r))
   \<and> (\<forall>r. tb_access_state t = Some r \<longrightarrow>
        (\<exists>s. js_access_from_slice (de_json de) (ar_access_state_json r) = Ok s \<and> valid_access cx w s))
   \<and> bt_wf (tb_join_requests t) \<and> list_all (join_row_ok de w) (tb_join_requests t)"

definition env_ok :: "crypto \<Rightarrow> db_env \<Rightarrow> bool" where
  "env_ok cx de \<longleftrightarrow> codec_ok (de_json de) \<and> create_ok de \<and> sha256_size (cr_sha256 cx)"

definition objects_ok :: "crypto \<Rightarrow> (path \<Rightarrow> bytes option) \<Rightarrow> bool" where
  "objects_ok cx files \<longleftrightarrow> (\<forall>w h b. files (hash_path w (hex_encode h)) = Some b \<longrightarrow> cr_sha256 cx b = h)"

definition ix_inv :: "crypto \<Rightarrow> db_env \<Rightarrow> Indexed \<Rightarrow> bool" where
  "ix_inv cx de ix \<longleftrightarrow> env_ok cx de \<and> fst (seen (ix_fs ix)) \<and> objects_ok cx (snd (seen (ix_fs ix)))
     \<and> (\<forall>w. tables_ok cx de w (tables ix w))"

lemma tables_ok_empty: "tables_ok cx de w empty_tables"
  by (simp add: tables_ok_def empty_tables_def)

lemma ix_view_eq: "ix_view de ix = view_from de (snd (seen (ix_fs ix))) (tables ix)"
  by (simp add: ix_view_def seen_def)


section \<open>Opening a database\<close>

text \<open>The errors with which opening fails, and those that are not the absence of an object.\<close>

definition open_failure :: "ServerError \<Rightarrow> bool" where
  "open_failure e \<longleftrightarrow> (case e of StorageIo _ \<Rightarrow> True | Database _ \<Rightarrow> True | WorkspaceDatabase _ _ _ _ \<Rightarrow> True
     | CorruptDatabase _ \<Rightarrow> True | UnsupportedSchemaVersion _ _ \<Rightarrow> True | _ \<Rightarrow> False)"

definition not_missing :: "ServerError \<Rightarrow> bool" where
  "not_missing e \<longleftrightarrow> e \<noteq> BlobNotFound \<and> e \<noteq> ManifestNotFound"

lemma error_simps [simp]:
  "open_failure (Database m)" "open_failure (CorruptDatabase m)" "open_failure (UnsupportedSchemaVersion i j)"
  "open_failure (StorageIo io)" "open_failure (WorkspaceDatabase w p m err)" "open_failure (corrupt m)"
  "\<not> open_failure (StorageCorruption m)"
  "not_missing (StorageCorruption m)" "not_missing (IntegerOutOfRange m)"
  by (simp_all add: open_failure_def not_missing_def corrupt_def)

lemma open_failure_not_missing [simp]: "open_failure e \<Longrightarrow> not_missing e"
  by (auto simp: open_failure_def not_missing_def)

definition fails_only :: "(ServerError \<Rightarrow> bool) \<Rightarrow> ('s, 'a) storage_action \<Rightarrow> bool" where
  "fails_only P m \<longleftrightarrow> (\<forall>s. post m s (\<lambda>_ r. \<forall>e. r = Err e \<longrightarrow> P e))"

lemma fails_only_basic:
  "fails_only P (done_with a)" "P e \<Longrightarrow> fails_only P (fail_with e)"
  "(\<And>e. r = Err e \<Longrightarrow> P e) \<Longrightarrow> fails_only P (lift_result r)"
  by (simp_all add: fails_only_def post_simps)

lemma fails_only_then: "fails_only P m \<Longrightarrow> (\<And>a. fails_only P (k a)) \<Longrightarrow> fails_only P (then_do m k)"
  unfolding fails_only_def post_def then_do_def by (auto split: prod.splits result.splits) (metis snd_conv)+

lemma fails_only_match:
  "fails_only P m \<Longrightarrow> (\<And>a. fails_only P (k (Ok a))) \<Longrightarrow> (\<And>e. P e \<Longrightarrow> fails_only P (k (Err e))) \<Longrightarrow>
   fails_only P (match_do m k)"
proof -
  assume m: "fails_only P m" and k: "\<And>a. fails_only P (k (Ok a))" "\<And>e. P e \<Longrightarrow> fails_only P (k (Err e))"
  have "post (k r) s' (\<lambda>_ r. \<forall>e. r = Err e \<longrightarrow> P e)" if "\<forall>e. r = Err e \<longrightarrow> P e" for r s'
    using that k by (cases r) (auto simp: fails_only_def)
  then show "fails_only P (match_do m k)"
    using m unfolding fails_only_def post_match by (auto intro: post_mono)
qed

lemma fails_only_statement: "(\<And>m. P (Database m)) \<Longrightarrow> fails_only P (statement run)"
  unfolding fails_only_def by (intro allI statement_post) auto

lemma fails_only_undo: "fails_only P m \<Longrightarrow> fails_only P (\<lambda>cn. undo (f cn) m cn)"
  unfolding fails_only_def post_def undo_def by (auto split: prod.splits result.splits) (metis snd_conv)

lemma fails_only_clock: "fails_only P read_clock"
  by (auto simp: fails_only_def post_def read_clock_def split: list.splits)

lemmas fails_only_intros = fails_only_basic fails_only_then fails_only_match fails_only_statement
  fails_only_undo fails_only_clock

lemma fails_open_create: "fails_only open_failure (create_schema de ss)"
  by (induction ss) (auto intro!: fails_only_intros)

lemma fails_open_columns: "fails_only open_failure (validate_columns cs)"
  by (induction cs rule: validate_columns.induct) (auto intro!: fails_only_intros)

lemma try_for_Err: "try_for f xs = Err e \<Longrightarrow> \<exists>x \<in> set xs. f x = Err e"
  by (induction xs) (auto simp: and_then_Err_iff)

lemma fails_open_validate: "fails_only open_failure (validate_v1_schema de objects)"
proof -
  have "open_failure e" if "try_for (validate_definition de) objects = Err e" for e
    using try_for_Err[OF that] by (auto simp: validate_definition_def and_then_Err_iff split: if_splits)
  then show ?thesis unfolding validate_v1_schema_def
    by (auto intro!: fails_only_intros fails_open_columns)
qed

lemma fails_open_migrate: "fails_only open_failure (migrate de)"
  unfolding migrate_def migrate_body_def schema_objects_def control_def record_migration_def
  by (auto intro!: fails_only_intros fails_open_validate fails_open_create split: option.split result.split)

text \<open>What an operation on the state leaves alone: the visible files and all tables.\<close>

definition same_stores :: "Indexed \<Rightarrow> Indexed \<Rightarrow> bool" where
  "same_stores ix ix' \<longleftrightarrow> seen (ix_fs ix') = seen (ix_fs ix) \<and> tables ix' = tables ix"

lemma same_stores_inv:
  "same_stores ix ix' \<Longrightarrow> ix_inv cx de ix' = ix_inv cx de ix \<and> ix_view de ix' = ix_view de ix"
  by (simp add: same_stores_def ix_inv_def ix_view_eq)

lemma tables_insert:
  "tables (ix\<lparr>ix_dbs := bt_insert (workspace_state_path (workspace_id_str w)) file (ix_dbs ix)\<rparr>)
     = (tables ix)(w := df_tables file)"
  by (auto simp: tables_def fun_eq_iff path_defs id_str_inj)

lemma on_fs_post: "post m (ix_fs ix) (\<lambda>fs r. P (ix\<lparr>ix_fs := fs\<rparr>) r) \<Longrightarrow> post (on_fs m) ix P"
  by (auto simp: post_def on_fs_def split: prod.splits)

lemma tables_other [simp]:
  "tables (ix\<lparr>ix_fs := f\<rparr>) = tables ix" "tables (ix\<lparr>ix_databases := d\<rparr>) = tables ix"
  "tables (ix\<lparr>ix_faults := x\<rparr>) = tables ix" "tables (ix\<lparr>ix_clock := c\<rparr>) = tables ix"
  by (simp_all add: tables_def fun_eq_iff)

lemma on_db_post:
  assumes "\<And>cn. tables_of cn = tables ix w \<Longrightarrow> post m cn (\<lambda>cn' r. Q (tables_of cn') r)"
    and "\<And>e. open_failure e \<Longrightarrow> Q (tables ix w) (Err e)"
  shows "post (on_db (workspace_state_path (workspace_id_str w)) m) ix (\<lambda>ix' r.
     seen (ix_fs ix') = seen (ix_fs ix) \<and> (\<exists>t. tables ix' = (tables ix)(w := t) \<and> Q t r))"
proof (cases "map_of (ix_dbs ix) (workspace_state_path (workspace_id_str w))")
  case None
  then show ?thesis using assms(2) by (auto simp: post_def on_db_def intro!: exI[of _ "tables ix w"])
next
  case (Some db)
  let ?cn = "\<lparr>cn_file = db, cn_faults = ix_faults ix, cn_clock = ix_clock ix\<rparr>"
  have "tables_of ?cn = tables ix w" using Some by (simp add: tables_def)
  then show ?thesis using assms(1)[of ?cn] Some
    by (auto simp: post_def on_db_def tables_insert split: prod.splits)
qed

lemma connect_post:
  "post (connect p) ix (\<lambda>ix' r. same_stores ix ix' \<and> (\<forall>e. r = Err e \<longrightarrow> open_failure e))"
proof -
  have "tables (ix\<lparr>ix_faults := f, ix_dbs := bt_insert p empty_db_file (ix_dbs ix)\<rparr>) = tables ix"
    if "map_of (ix_dbs ix) p = None" for f
    using that by (auto simp: tables_def empty_db_file_def fun_eq_iff)
  then show ?thesis
    by (auto simp: connect_def post_def same_stores_def tables_def split: list.splits option.splits)
qed

lemma create_dir_post:
  "post (on_fs (st_io (fs_create_dir_all d))) ix (\<lambda>ix' r. same_stores ix ix' \<and> (\<forall>e. r = Err e \<longrightarrow> open_failure e))"
  unfolding st_io_def
  by (intro on_fs_post) (auto simp: post_simps same_stores_def intro!: post_mono[OF fs_create_dir_all_post])

lemma same_stores_refl [simp]: "same_stores ix ix"
  by (simp add: same_stores_def)

lemma same_stores_trans: "same_stores a b \<Longrightarrow> same_stores b c \<Longrightarrow> same_stores a c"
  by (simp add: same_stores_def)

text \<open>Operations that leave the stores alone and fail for other reasons compose.\<close>

definition quiet :: "'a ix_action \<Rightarrow> bool" where
  "quiet m \<longleftrightarrow> (\<forall>ix. post m ix (\<lambda>ix' r. same_stores ix ix' \<and> (\<forall>e. r = Err e \<longrightarrow> open_failure e)))"

lemma quiet_then: "quiet m \<Longrightarrow> (\<And>a. quiet (k a)) \<Longrightarrow> quiet (then_do m k)"
  unfolding quiet_def post_def then_do_def
  by (auto split: prod.splits result.splits) (metis same_stores_trans fst_conv snd_conv)+

lemma quiet_done: "quiet (done_with a)"
  by (simp add: quiet_def post_simps)

lemma quiet_migrate:
  assumes "create_ok de"
  shows "quiet (on_db (workspace_state_path (workspace_id_str w)) (migrate de))"
  unfolding quiet_def
proof
  fix ix
  have "post (migrate de) cn (\<lambda>cn' r. tables_of cn' = tables_of cn \<and> (\<forall>e. r = Err e \<longrightarrow> open_failure e))" for cn
    using keeps_migrate[OF assms] fails_open_migrate by (simp add: keeps_def fails_only_def post_def)
  then have "post (migrate de) cn (\<lambda>cn' r. tables_of cn' = tables ix w \<and> (\<forall>e. r = Err e \<longrightarrow> open_failure e))"
    if "tables_of cn = tables ix w" for cn unfolding that[symmetric] .
  then show "post (on_db (workspace_state_path (workspace_id_str w)) (migrate de)) ix
      (\<lambda>ix' r. same_stores ix ix' \<and> (\<forall>e. r = Err e \<longrightarrow> open_failure e))"
    by (intro post_mono[OF on_db_post[where Q = "\<lambda>t r. t = tables ix w \<and> (\<forall>e. r = Err e \<longrightarrow> open_failure e)"]])
       (auto simp: same_stores_def)
qed

lemma open_post:
  assumes "create_ok de"
  shows "quiet (map_error (db_open de (workspace_state_path (workspace_id_str w))) (open_error w p))"
proof -
  have "quiet (db_open de (workspace_state_path (workspace_id_str w)))"
    unfolding db_open_def
    by (intro quiet_then quiet_migrate[OF assms]) (simp_all add: quiet_def create_dir_post connect_post)
  moreover have "open_failure e \<Longrightarrow> open_failure (open_error w p e)" for e
    by (auto simp: open_error_def split: ServerError.splits)
  ultimately show ?thesis unfolding quiet_def post_simps by (auto simp: post_def)
qed

lemma get_or_open_post:
  assumes "create_ok de"
  shows "post (get_or_open de w) ix (\<lambda>ix' r. same_stores ix ix' \<and> (case r of
     Ok p \<Rightarrow> p = workspace_state_path (workspace_id_str w) | Err e \<Rightarrow> open_failure e))"
  using open_post[OF assms, of w "workspace_state_path (workspace_id_str w)"]
  by (auto simp: get_or_open_def Let_def post_def then_do_def quiet_def same_stores_def
      split: prod.splits result.splits) (metis fst_conv snd_conv)+

lemma with_db_post:
  assumes env: "create_ok de"
    and run: "\<And>cn. tables_of cn = tables ix w \<Longrightarrow> post m cn (\<lambda>cn' r. Q (tables_of cn') r)"
    and failed: "\<And>e. open_failure e \<Longrightarrow> Q (tables ix w) (Err e)"
  shows "post (with_db de w m) ix (\<lambda>ix' r. seen (ix_fs ix') = seen (ix_fs ix)
     \<and> (\<exists>t. tables ix' = (tables ix)(w := t) \<and> Q t r))"
  unfolding with_db_def post_then
proof (rule post_mono[OF get_or_open_post[OF env]], goal_cases)
  case (1 ix1 r)
  then have same: "tables ix1 = tables ix" "seen (ix_fs ix1) = seen (ix_fs ix)" by (simp_all add: same_stores_def)
  show ?case
  proof (cases r)
    case (Ok p)
    have "post (on_db (workspace_state_path (workspace_id_str w)) m) ix1 (\<lambda>ix' r.
       seen (ix_fs ix') = seen (ix_fs ix1) \<and> (\<exists>t. tables ix' = (tables ix1)(w := t) \<and> Q t r))"
      by (rule on_db_post) (simp_all add: same run failed)
    then show ?thesis using 1 Ok same by simp
  next
    case (Err e)
    then show ?thesis using 1 same failed by (auto intro!: exI[of _ "tables ix w"])
  qed
qed



section \<open>Sequenced statements\<close>

lemma then_query:
  "(\<And>cn'. tables_of cn' = tables_of cn \<Longrightarrow> post (k (f (tables_of cn))) cn' P) \<Longrightarrow>
   (\<And>cn' e. tables_of cn' = tables_of cn \<Longrightarrow> P cn' (Err (Database e))) \<Longrightarrow> post (then_do (query f) k) cn P"
  unfolding query_def post_then by (rule statement_post) simp_all

lemma then_execute:
  "(\<And>cn'. tables_of cn' = fst (f (tables_of cn)) \<Longrightarrow> post (k (snd (f (tables_of cn)))) cn' P) \<Longrightarrow>
   (\<And>cn' e. tables_of cn' = tables_of cn \<Longrightarrow> P cn' (Err (Database e))) \<Longrightarrow> post (then_do (execute f) k) cn P"
  unfolding execute_def post_then by (rule statement_post) (simp_all add: Let_def split: prod.splits)

lemma then_clock:
  "(\<And>cn' t. tables_of cn' = tables_of cn \<Longrightarrow> post (k t) cn' P) \<Longrightarrow> post (then_do read_clock k) cn P"
  unfolding post_then by (auto simp: post_def[of read_clock] read_clock_def split: list.splits)

lemma then_lift:
  "(\<And>a. r = Ok a \<Longrightarrow> post (k a) cn P) \<Longrightarrow> (\<And>e. r = Err e \<Longrightarrow> P cn (Err e)) \<Longrightarrow>
   post (then_do (lift_result r) k) cn P"
  by (cases r) (simp_all add: post_simps)

lemmas then_steps = then_lift then_clock then_query then_execute


section \<open>What the operations do to the tables\<close>

definition core :: "Tables \<Rightarrow> Tables" where
  "core t = t\<lparr>tb_objects := []\<rparr>"

lemma keeps_core: "keeps tables_of m \<Longrightarrow> keeps (\<lambda>cn. core (tables_of cn)) m"
  by (simp add: keeps_def post_def)

lemma keeps_core_insert: "keeps (\<lambda>cn. core (tables_of cn)) (execute (sql_insert_object row))"
  unfolding keeps_def
  by (intro allI post_mono[OF execute_post]) (auto simp: sql_insert_object_def core_def split: result.splits)

lemma keeps_rows: "keeps tables_of (object_rows_by_id k i)" "keeps tables_of (object_rows_by_object_id i)"
  unfolding object_rows_by_id_def object_rows_by_object_id_def by (auto intro!: keeps_db)

lemma keeps_insert_object: "keeps (\<lambda>cn. core (tables_of cn)) (insert_object_if_absent md)"
  unfolding insert_object_if_absent_def
  by (auto intro!: keeps_intros keeps_core_insert keeps_core[OF keeps_rows(1)] keeps_core[OF keeps_rows(2)]
      keeps_core[OF keeps_clock])

lemma keeps_metadata: "keeps (\<lambda>cn. core (tables_of cn)) (get_object_metadata k i)"
  unfolding get_object_metadata_def
  by (auto intro!: keeps_intros keeps_core[OF keeps_rows(1)] keeps_core[OF keeps_rows(2)] split: list.split)

lemma try_map_Err: "try_map f xs = Err e \<Longrightarrow> \<exists>x \<in> set xs. f x = Err e"
  by (induction xs) (auto simp: and_then_Err_iff)

lemma fails_other_rows: "fails_only not_missing (object_rows_by_id k i)" "fails_only not_missing (object_rows_by_object_id i)"
proof -
  have "not_missing e" if "try_map read_object_row rows = Err e" for rows e
    using try_map_Err[OF that]
    by (auto simp: read_object_row_def and_then_Err_iff parse_kind_def to_u64_def split: if_splits)
  then show "fails_only not_missing (object_rows_by_id k i)" "fails_only not_missing (object_rows_by_object_id i)"
    unfolding object_rows_by_id_def object_rows_by_object_id_def query_def by (auto intro!: fails_only_intros)
qed

lemma fails_other_insert: "fails_only not_missing (insert_object_if_absent md)"
  unfolding insert_object_if_absent_def execute_def
  by (intro fails_only_intros fails_other_rows)
     (auto intro!: fails_only_intros fails_other_rows simp: validate_object_rows_def to_i64_def split: if_splits)

lemma fails_other_metadata: "fails_only not_missing (get_object_metadata k i)"
  unfolding get_object_metadata_def
  by (auto intro!: fails_only_intros fails_other_rows split: list.split)

lemma db_get_head_post:
  "post (db_get_head de w) cn (\<lambda>cn' r. tables_of cn' = tables_of cn
     \<and> (\<forall>h. r = Ok h \<longrightarrow> read_head_row de w (tb_workspace_head (tables_of cn)) = Ok h))"
  unfolding db_get_head_def by (rule then_query) (simp_all add: post_simps)

lemma then_head:
  "(\<And>cn' h. tables_of cn' = tables_of cn \<Longrightarrow> read_head_row de w (tb_workspace_head (tables_of cn)) = Ok h \<Longrightarrow>
      post (k h) cn' P) \<Longrightarrow>
   (\<And>cn' e. tables_of cn' = tables_of cn \<Longrightarrow> P cn' (Err e)) \<Longrightarrow> post (then_do (db_get_head de w) k) cn P"
  unfolding post_then by (rule post_mono[OF db_get_head_post]) (auto split: result.splits)

lemma checked_add64_one: "checked_add64 e 1 = Some s \<Longrightarrow> uint s = uint e + 1"
  by (simp only: checked_add64_Some_iff uint_nat unat_1 of_nat_add of_nat_1)

definition head_row :: "u64 \<Rightarrow> u64 \<Rightarrow> ManifestId \<Rightarrow> DeviceId option \<Rightarrow> HeadRow" where
  "head_row now e m d = \<lparr>hr_manifest_id = Some (manifest_id_str m), hr_revision = uint e + 1,
     hr_updated_by = map_option device_id_str d, hr_updated_at = Some (now_i64 now)\<rparr>"

text \<open>Insertion of the first revision and conditional update amount to one compare-and-swap.\<close>

lemma db_update_head_post:
  "post (db_update_head de now w e m d) cn (\<lambda>cn' r. case r of
     Ok (HeadUpdated, h) \<Rightarrow> tables_of cn' = (tables_of cn)\<lparr>tb_workspace_head := Some (head_row now e m d)\<rparr>
       \<and> read_head de w (head_row now e m d) = Ok h \<and> uint e + 1 \<le> i64_max
       \<and> (case tb_workspace_head (tables_of cn) of None \<Rightarrow> e = 0 | Some old \<Rightarrow> e \<noteq> 0 \<and> hr_revision old = uint e)
   | Ok (HeadConflict, h) \<Rightarrow> tables_of cn' = tables_of cn
       \<and> read_head_row de w (tb_workspace_head (tables_of cn)) = Ok h
       \<and> (case tb_workspace_head (tables_of cn) of None \<Rightarrow> e \<noteq> 0 | Some old \<Rightarrow> e = 0 \<or> hr_revision old \<noteq> uint e)
   | Err _ \<Rightarrow> tables_of cn' = tables_of cn)" (is "post _ _ ?Q")
proof -
  let ?R = "\<lambda>t x. case x of
     (HeadUpdated, h) \<Rightarrow> t = (tables_of cn)\<lparr>tb_workspace_head := Some (head_row now e m d)\<rparr>
       \<and> read_head de w (head_row now e m d) = Ok h
       \<and> (case tb_workspace_head (tables_of cn) of None \<Rightarrow> e = 0 | Some old \<Rightarrow> e \<noteq> 0 \<and> hr_revision old = uint e)
   | (HeadConflict, h) \<Rightarrow> t = tables_of cn
       \<and> read_head_row de w (tb_workspace_head (tables_of cn)) = Ok h
       \<and> (case tb_workspace_head (tables_of cn) of None \<Rightarrow> e \<noteq> 0 | Some old \<Rightarrow> e = 0 \<or> hr_revision old \<noteq> uint e)"
  have zero: "uint e = 0 \<longleftrightarrow> e = 0" by (simp add: uint_0_iff)
  let ?run = "if uint e = 0 then sql_insert_head (head_row now e m d) else sql_update_head (head_row now e m d) (uint e)"
  have run: "?run (tables_of cn) = (if (case tb_workspace_head (tables_of cn) of None \<Rightarrow> e = 0
        | Some old \<Rightarrow> e \<noteq> 0 \<and> hr_revision old = uint e)
      then ((tables_of cn)\<lparr>tb_workspace_head := Some (head_row now e m d)\<rparr>, 1) else (tables_of cn, 0))"
    by (auto simp: sql_insert_head_def sql_update_head_def zero split: option.splits)
  have body: "post (then_do (execute ?run) (\<lambda>rows_affected. then_do (db_get_head de w) (\<lambda>h.
        done_with (if rows_affected = 1 then HeadUpdated else HeadConflict, h)))) cn'
      (\<lambda>cn'' r. \<forall>a. r = Ok a \<longrightarrow> ?R (tables_of cn'') a)"
    if same: "tables_of cn' = tables_of cn" for cn'
  proof (rule then_execute)
    fix cn1 assume "tables_of cn1 = fst (?run (tables_of cn'))"
    then show "post (then_do (db_get_head de w) (\<lambda>h. done_with (if snd (?run (tables_of cn')) = 1
        then HeadUpdated else HeadConflict, h))) cn1 (\<lambda>cn'' r. \<forall>a. r = Ok a \<longrightarrow> ?R (tables_of cn'') a)"
      unfolding same run
      by (intro then_head)
         (auto simp: post_simps read_head_row_def split: if_splits option.splits)
  qed simp
  show ?thesis
    unfolding db_update_head_def Let_def
  proof (intro then_lift, goal_cases)
    case (1 expected succ next_revision)
    then have n: "next_revision = uint e + 1" "expected = uint e" "uint e + 1 \<le> i64_max"
      using checked_add64_one by (auto simp: to_i64_def split: if_splits)
    show ?case unfolding n(1,2) head_row_def[symmetric]
      by (rule post_mono[OF transaction_post[OF body]]) (use n(3) in \<open>auto split: result.splits HeadUpdateResult.splits\<close>)
  qed simp_all
qed


lemma db_get_access_state_post:
  "post (db_get_access_state cx de w) cn (\<lambda>cn' r. tables_of cn' = tables_of cn
     \<and> (\<forall>s. r = Ok s \<longrightarrow> (case tb_access_state (tables_of cn) of None \<Rightarrow> s = state_empty w
          | Some row \<Rightarrow> js_access_from_slice (de_json de) (ar_access_state_json row) = Ok s)))"
  unfolding db_get_access_state_def
  by (rule then_query) (auto simp: post_simps split: option.splits result.splits)

lemma then_encode:
  assumes codec: "codec_ok (de_json de)"
    and run: "\<And>cn' row. tables_of cn' = tables_of cn \<Longrightarrow> valid_access cx w s \<Longrightarrow>
      js_access_from_slice (de_json de) (ar_access_state_json row) = Ok s \<Longrightarrow> post (k row) cn' P"
    and err: "\<And>cn' e. tables_of cn' = tables_of cn \<Longrightarrow> P cn' (Err e)"
  shows "post (then_do (encode_access cx de w s) k) cn P"
proof -
  have "post (encode_access cx de w s) cn (\<lambda>cn' r. tables_of cn' = tables_of cn \<and> (\<forall>row. r = Ok row \<longrightarrow>
      valid_access cx w s \<and> js_access_from_slice (de_json de) (ar_access_state_json row) = Ok s))"
    unfolding encode_access_def using codec
    by (intro then_steps)
       (auto simp: post_simps codec_ok_def db_validate_state_def valid_access_def split: if_splits)
  then show ?thesis unfolding post_then by (rule post_mono) (use run err in \<open>auto split: result.splits\<close>)
qed

lemma db_create_access_state_post:
  assumes "codec_ok (de_json de)"
  shows "post (db_create_access_state cx de w s) cn (\<lambda>cn' r. case r of
     Ok _ \<Rightarrow> tb_access_state (tables_of cn) = None \<and> valid_access cx w s
       \<and> (\<exists>row. js_access_from_slice (de_json de) (ar_access_state_json row) = Ok s
            \<and> tables_of cn' = (tables_of cn)\<lparr>tb_access_state := Some row\<rparr>)
   | Err _ \<Rightarrow> tables_of cn' = tables_of cn)"
  unfolding db_create_access_state_def
  by (intro then_encode[OF assms] then_execute)
     (auto simp: post_simps sql_insert_access_def split: option.splits)

lemma db_save_access_state_post:
  assumes "codec_ok (de_json de)"
  shows "post (db_save_access_state cx de w s) cn (\<lambda>cn' r. case r of
     Ok _ \<Rightarrow> valid_access cx w s
       \<and> (\<exists>row. js_access_from_slice (de_json de) (ar_access_state_json row) = Ok s
            \<and> tables_of cn' = (tables_of cn)\<lparr>tb_access_state := Some row\<rparr>)
   | Err _ \<Rightarrow> tables_of cn' = tables_of cn)"
  unfolding db_save_access_state_def
  by (intro then_encode[OF assms] then_execute)
     (auto simp: post_simps sql_upsert_access_def split: option.splits, rule exI, rule conjI[rotated], rule refl, simp)

lemma db_get_key_envelope_post:
  "post (db_get_key_envelope k d) cn (\<lambda>cn' r. tables_of cn' = tables_of cn
     \<and> (\<forall>x. r = Ok x \<longrightarrow> x = map_of (tb_key_envelopes (tables_of cn)) (key_id_str k, device_id_str d)))"
  unfolding db_get_key_envelope_def by (rule query_post)

lemma db_put_key_envelope_post:
  "post (db_put_key_envelope k d b) cn (\<lambda>cn' r. let
      key = (key_id_str k, device_id_str d); old = map_of (tb_key_envelopes (tables_of cn)) key in case r of
     Ok PutCreated \<Rightarrow> old = None
       \<and> tables_of cn' = (tables_of cn)\<lparr>tb_key_envelopes := bt_insert key b (tb_key_envelopes (tables_of cn))\<rparr>
   | Ok PutAlreadyExists \<Rightarrow> tables_of cn' = tables_of cn \<and> old = Some b
   | Ok PutConflict \<Rightarrow> tables_of cn' = tables_of cn \<and> old \<noteq> None \<and> old \<noteq> Some b
   | Err _ \<Rightarrow> tables_of cn' = tables_of cn)"
proof (cases "map_of (tb_key_envelopes (tables_of cn)) (key_id_str k, device_id_str d)")
  case None
  then show ?thesis unfolding db_put_key_envelope_def
    by (intro then_execute) (simp_all add: post_simps sql_insert_envelope_def Let_def)
next
  case (Some old)
  show ?thesis unfolding db_put_key_envelope_def
  proof (rule then_execute)
    fix cn' assume "tables_of cn' = fst (sql_insert_envelope (key_id_str k, device_id_str d) b (tables_of cn))"
    then have same: "tables_of cn' = tables_of cn" using Some by (simp add: sql_insert_envelope_def)
    show "post (if snd (sql_insert_envelope (key_id_str k, device_id_str d) b (tables_of cn)) = 1
        then done_with PutCreated
        else then_do (query (\<lambda>t. map_of (tb_key_envelopes t) (key_id_str k, device_id_str d))) (\<lambda>found. case found of
            None \<Rightarrow> fail_with (StorageCorruption ''key envelope insert conflicted but no stored envelope exists'')
          | Some existing \<Rightarrow> done_with (if existing = b then PutAlreadyExists else PutConflict))) cn'
       (\<lambda>cn' r. let
      key = (key_id_str k, device_id_str d); old = map_of (tb_key_envelopes (tables_of cn)) key in case r of
     Ok PutCreated \<Rightarrow> old = None
       \<and> tables_of cn' = (tables_of cn)\<lparr>tb_key_envelopes := bt_insert key b (tb_key_envelopes (tables_of cn))\<rparr>
   | Ok PutAlreadyExists \<Rightarrow> tables_of cn' = tables_of cn \<and> old = Some b
   | Ok PutConflict \<Rightarrow> tables_of cn' = tables_of cn \<and> old \<noteq> None \<and> old \<noteq> Some b
   | Err _ \<Rightarrow> tables_of cn' = tables_of cn)"
      using Some by (simp add: sql_insert_envelope_def) (rule then_query; simp add: post_simps same Let_def)
  qed (simp add: Let_def)
qed

lemma db_submit_join_request_post:
  assumes "codec_ok (de_json de)" and "tables_ok cx de w (tables_of cn)"
  shows "post (db_submit_join_request de w q) cn (\<lambda>cn' r. let
      j = join_request_id_str (jr_request_id q); old = map_of (tb_join_requests (tables_of cn)) j in case r of
     Ok JoinSubmitted \<Rightarrow> old = None \<and> jr_workspace_id q = w
       \<and> (\<exists>row. js_join_from_slice (de_json de) (jw_request_json row) = Ok q
            \<and> tables_of cn' = (tables_of cn)\<lparr>tb_join_requests := bt_insert j row (tb_join_requests (tables_of cn))\<rparr>)
   | Ok JoinAlreadyPending \<Rightarrow> tables_of cn' = tables_of cn
       \<and> (\<exists>row. old = Some row \<and> js_join_from_slice (de_json de) (jw_request_json row) = Ok q)
   | Ok JoinConflict \<Rightarrow> tables_of cn' = tables_of cn
       \<and> (\<exists>row q'. old = Some row \<and> js_join_from_slice (de_json de) (jw_request_json row) = Ok q' \<and> q' \<noteq> q)
   | Err _ \<Rightarrow> tables_of cn' = tables_of cn)"
proof (cases "map_of (tb_join_requests (tables_of cn)) (join_request_id_str (jr_request_id q))")
  case None
  then show ?thesis using assms(1) unfolding db_submit_join_request_def Let_def
    by (intro then_steps)
       (auto simp: post_simps sql_insert_join_def validate_request_def codec_ok_def split: if_splits,
        rule exI, rule conjI[rotated], rule refl, simp)
next
  case (Some old)
  then show ?thesis unfolding db_submit_join_request_def Let_def
  proof (intro then_lift then_execute, goal_cases)
    case (1 a b c cn')
    then have same: "tables_of cn' = tables_of cn" by (simp add: sql_insert_join_def)
    show ?case using 1
      by (simp add: sql_insert_join_def) (rule then_query; auto simp: post_simps same split: result.splits)
  qed (simp_all add: sql_insert_join_def)
qed

lemma db_remove_join_request_post:
  "post (db_remove_join_request j) cn (\<lambda>cn' r. tables_of cn' = (if is_ok r
     then (tables_of cn)\<lparr>tb_join_requests := bt_remove (join_request_id_str j) (tb_join_requests (tables_of cn))\<rparr>
     else tables_of cn))"
  unfolding db_remove_join_request_def
  by (rule then_execute) (simp_all add: post_simps sql_delete_join_def)

lemma db_get_join_request_post:
  "post (db_get_join_request de w j) cn (\<lambda>cn' r. tables_of cn' = tables_of cn
     \<and> (\<forall>x. r = Ok x \<longrightarrow> x = Option.bind (map_of (tb_join_requests (tables_of cn)) (join_request_id_str j))
          (\<lambda>row. decoded (js_join_from_slice (de_json de) (jw_request_json row)))))"
  unfolding db_get_join_request_def
  by (rule then_query) (auto simp: post_simps optional_def deserialize_request_def decoded_def split: option.splits)


lemma decoded_Some_iff [simp]: "decoded r = Some x \<longleftrightarrow> r = Ok x"
  by (cases r) (simp_all add: decoded_def)

lemma try_map_Ok_iff: "try_map f xs = Ok ys \<longleftrightarrow> list_all2 (\<lambda>x y. f x = Ok y) xs ys"
  by (induction xs arbitrary: ys) (auto simp: list_all2_Cons1)

lemma db_list_join_requests_post:
  assumes ok: "tables_ok cx de w (tables_of cn)"
  shows "post (db_list_join_requests de w) cn (\<lambda>cn' r. tables_of cn' = tables_of cn \<and> (\<forall>qs. r = Ok qs \<longrightarrow>
     distinct qs \<and> set qs = {q. \<exists>j. join_request_id_ok j \<and>
       Option.bind (map_of (tb_join_requests (tables_of cn)) (join_request_id_str j))
         (\<lambda>row. decoded (js_join_from_slice (de_json de) (jw_request_json row))) = Some q}))"
proof -
  let ?joins = "tb_join_requests (tables_of cn)" and ?sorted = "sort_key (jw_created_at \<circ> snd) (tb_join_requests (tables_of cn))"
  let ?P = "\<lambda>x q. deserialize_request de w (jw_request_json (snd x)) = Ok q"
  have wf: "bt_wf ?joins" and rows: "x \<in> set ?joins \<Longrightarrow> join_row_ok de w x" for x
    using ok by (auto simp: tables_ok_def list_all_iff)
  have row: "join_request_id_str (jr_request_id q) = fst x \<and> join_request_id_ok (jr_request_id q)
      \<and> js_join_from_slice (de_json de) (jw_request_json (snd x)) = Ok q"
    if "x \<in> set ?joins" "?P x q" for x q
    using rows[OF that(1)] that(2) by (auto simp: join_row_ok_def deserialize_request_def split: prod.splits)
  have result: "distinct qs \<and> set qs = {q. \<exists>j. join_request_id_ok j \<and>
       Option.bind (map_of ?joins (join_request_id_str j))
         (\<lambda>row. decoded (js_join_from_slice (de_json de) (jw_request_json row))) = Some q}"
    if "list_all2 ?P ?sorted qs" for qs
  proof -
    have "map (join_request_id_str \<circ> jr_request_id) qs = map fst ?sorted"
    proof (rule nth_equalityI)
      show "length (map (join_request_id_str \<circ> jr_request_id) qs) = length (map fst ?sorted)"
        using list_all2_lengthD[OF that] by simp
      fix i assume i: "i < length (map (join_request_id_str \<circ> jr_request_id) qs)"
      then have "?P (?sorted ! i) (qs ! i)" using list_all2_nthD2[OF that] by simp
      moreover have "?sorted ! i \<in> set ?joins"
        using i list_all2_lengthD[OF that] nth_mem[of i ?sorted] by simp
      ultimately show "map (join_request_id_str \<circ> jr_request_id) qs ! i = map fst ?sorted ! i"
        using row i list_all2_lengthD[OF that] by simp
    qed
    moreover have "distinct (map fst ?sorted)"
    proof -
      have "inj_on fst (set ?joins)" "distinct ?joins" using bt_wf_distinct[OF wf] by (simp_all add: distinct_map)
      then show ?thesis by (simp add: distinct_map)
    qed
    ultimately have "distinct (map (join_request_id_str \<circ> jr_request_id) qs)" by simp
    then have "distinct qs" by (simp add: distinct_map)
    moreover have mem: "q \<in> set qs \<longleftrightarrow> (\<exists>x \<in> set ?joins. ?P x q)" for q
    proof -
      have "q \<in> set qs \<longleftrightarrow> (\<exists>i < length qs. q = qs ! i)" by (auto simp: in_set_conv_nth)
      moreover have "(\<exists>x \<in> set ?joins. ?P x q) \<longleftrightarrow> (\<exists>i < length ?sorted. ?P (?sorted ! i) q)"
        using set_sort[of "jw_created_at \<circ> snd" ?joins] by (metis in_set_conv_nth)
      moreover have "length ?sorted = length qs" by (rule list_all2_lengthD[OF that])
      moreover have "?P (?sorted ! i) q \<longleftrightarrow> q = qs ! i" if "i < length qs" for i
        using list_all2_nthD2[OF \<open>list_all2 ?P ?sorted qs\<close> that] by auto
      ultimately show ?thesis by auto
    qed
    moreover have "(\<exists>x \<in> set ?joins. ?P x q) \<longleftrightarrow> (\<exists>j. join_request_id_ok j \<and>
       Option.bind (map_of ?joins (join_request_id_str j))
         (\<lambda>row. decoded (js_join_from_slice (de_json de) (jw_request_json row))) = Some q)" for q
    proof
      assume "\<exists>x \<in> set ?joins. ?P x q"
      then obtain x where x: "x \<in> set ?joins" "?P x q" by blast
      then have "map_of ?joins (fst x) = Some (snd x)" using bt_in_setD[OF wf] by blast
      then show "\<exists>j. join_request_id_ok j \<and> Option.bind (map_of ?joins (join_request_id_str j))
         (\<lambda>row. decoded (js_join_from_slice (de_json de) (jw_request_json row))) = Some q"
        using row[OF x] by (intro exI[of _ "jr_request_id q"]) simp
    next
      assume "\<exists>j. join_request_id_ok j \<and> Option.bind (map_of ?joins (join_request_id_str j))
         (\<lambda>row. decoded (js_join_from_slice (de_json de) (jw_request_json row))) = Some q"
      then obtain j r where j: "map_of ?joins (join_request_id_str j) = Some r"
        "js_join_from_slice (de_json de) (jw_request_json r) = Ok q"
        by (auto simp: bind_eq_Some_conv)
      then have x: "(join_request_id_str j, r) \<in> set ?joins" by (simp add: map_of_SomeD)
      then have "jr_workspace_id q = w" using rows[OF x] j(2) by (auto simp: join_row_ok_def)
      then show "\<exists>x \<in> set ?joins. ?P x q"
        using x j(2) by (intro bexI[of _ "(join_request_id_str j, r)"]) (auto simp: deserialize_request_def validate_request_def)
    qed
    ultimately show ?thesis by auto
  qed
  show ?thesis unfolding db_list_join_requests_def
    by (rule then_query)
       (use result in \<open>auto simp: post_simps sql_list_joins_def try_map_Ok_iff list_all2_map1 comp_def\<close>)
qed


section \<open>Operations on objects\<close>

text \<open>The view and the invariant do not depend on the catalogue.\<close>

definition same_view :: "Indexed \<Rightarrow> Indexed \<Rightarrow> bool" where
  "same_view ix ix' \<longleftrightarrow> seen (ix_fs ix') = seen (ix_fs ix) \<and> (\<forall>w. core (tables ix' w) = core (tables ix w))"

lemma core_select:
  "core t = core t' \<Longrightarrow> tb_workspace_head t = tb_workspace_head t' \<and> tb_access_state t = tb_access_state t'
     \<and> tb_join_requests t = tb_join_requests t' \<and> tb_key_envelopes t = tb_key_envelopes t'"
  by (cases t; cases t') (simp add: core_def)

lemma view_from_core:
  assumes "\<And>w. core (ts w) = core (ts' w)"
  shows "view_from de files ts = view_from de files ts'"
proof -
  have "tb_workspace_head (ts w) = tb_workspace_head (ts' w)" "tb_access_state (ts w) = tb_access_state (ts' w)"
    "tb_join_requests (ts w) = tb_join_requests (ts' w)" "tb_key_envelopes (ts w) = tb_key_envelopes (ts' w)" for w
    using core_select[OF assms[of w]] by simp_all
  then show ?thesis by (simp add: view_from_def)
qed

lemma tables_ok_core: "core t = core t' \<Longrightarrow> tables_ok cx de w t = tables_ok cx de w t'"
  using core_select[of t t'] by (simp add: tables_ok_def)

lemma same_view_inv:
  assumes "same_view ix ix'"
  shows "ix_inv cx de ix' = ix_inv cx de ix \<and> ix_view de ix' = ix_view de ix"
proof -
  have "core (tables ix' w) = core (tables ix w)" for w using assms by (simp add: same_view_def)
  then have "view_from de files (tables ix') = view_from de files (tables ix)"
    and "tables_ok cx de w (tables ix' w) = tables_ok cx de w (tables ix w)" for files w
    by (rule view_from_core, rule tables_ok_core)
  moreover have "seen (ix_fs ix') = seen (ix_fs ix)" using assms by (simp add: same_view_def)
  ultimately show ?thesis by (simp only: ix_inv_def ix_view_eq)
qed

lemma with_db_quiet:
  assumes env: "create_ok de" and m: "keeps (\<lambda>cn. core (tables_of cn)) m" "fails_only not_missing m"
  shows "post (with_db de w m) ix (\<lambda>ix' r. same_view ix ix' \<and> (\<forall>e. r = Err e \<longrightarrow> not_missing e))"
proof -
  have "post (with_db de w m) ix (\<lambda>ix' r. seen (ix_fs ix') = seen (ix_fs ix) \<and> (\<exists>t. tables ix' = (tables ix)(w := t)
     \<and> (core t = core (tables ix w) \<and> (\<forall>e. r = Err e \<longrightarrow> not_missing e))))"
  proof (rule with_db_post[OF env])
    fix cn assume "tables_of cn = tables ix w"
    then show "post m cn (\<lambda>cn' r. core (tables_of cn') = core (tables ix w) \<and> (\<forall>e. r = Err e \<longrightarrow> not_missing e))"
      using m by (simp add: keeps_def fails_only_def post_def)
  qed simp
  then show ?thesis by (rule post_mono) (auto simp: same_view_def)
qed


lemma view_from_set_object:
  "view_from de (files(hash_path (workspace_id_str w) (hex_encode h) \<mapsto> b)) ts = set_object w h b (view_from de files ts)"
  by (auto simp: view_from_def set_object_def fun_eq_iff hex_encode_inj id_str_inj)

lemma ix_invD:
  assumes "ix_inv cx de ix"
  shows "create_ok de" "codec_ok (de_json de)" "sha256_size (cr_sha256 cx)" "fs_wf (ix_fs ix)"
    "objects_ok cx (visible (ix_fs ix))" "tables_ok cx de w (tables ix w)"
  using assms by (simp_all add: ix_inv_def env_ok_def seen_def)

lemma object_added:
  assumes inv: "ix_inv cx de ix" and "seen fs = (True, (visible (ix_fs ix))(hash_path (workspace_id_str w) (hex_encode (cr_sha256 cx b)) \<mapsto> b))"
  shows "ix_inv cx de (ix\<lparr>ix_fs := fs\<rparr>)"
    and "ix_view de (ix\<lparr>ix_fs := fs\<rparr>) = set_object w (cr_sha256 cx b) b (ix_view de ix)"
  using assms by (auto simp: ix_inv_def objects_ok_def seen_def hex_encode_inj ix_view_eq view_from_set_object)

lemma then_ix:
  assumes m: "post m ix (\<lambda>ix' r. same_view ix ix' \<and> (\<forall>e. r = Err e \<longrightarrow> not_missing e))"
    and k: "\<And>ix' a. same_view ix ix' \<Longrightarrow> post (k a) ix' P"
    and err: "\<And>ix' e. same_view ix ix' \<Longrightarrow> not_missing e \<Longrightarrow> P ix' (Err e)"
  shows "post (then_do m k) ix P"
  unfolding post_then by (rule post_mono[OF m]) (use k err in \<open>auto split: result.splits\<close>)

lemma ix_read_post:
  assumes "\<not> hidden p"
  shows "post (ix_read p) ix (\<lambda>ix' r. same_view ix ix' \<and> (\<forall>b. r = Ok b \<longrightarrow> b = visible (ix_fs ix) p)
    \<and> (\<forall>e. r = Err e \<longrightarrow> not_missing e))"
  unfolding ix_read_def
  by (rule on_fs_post) (auto simp: post_simps same_view_def intro!: post_mono[OF read_post[OF assms]]
      split: result.splits)

lemma read_canonical_post:
  assumes wf: "fs_wf fs" and p: "\<not> hidden p"
  shows "post (read_canonical pid p b) fs (\<lambda>fs' r.
    (seen fs' = seen fs \<or> visible fs p = None \<and> seen fs' = (True, (visible fs)(p \<mapsto> b)))
    \<and> (\<forall>c. r = Ok c \<longrightarrow> visible fs' p = Some c))"
  unfolding read_canonical_def st_io_def post_match
proof (rule post_mono[OF read_post[OF p]], goal_cases)
  case (1 fs1 r)
  then have wf1: "fs_wf fs1" and v1: "visible fs1 = visible fs" "seen fs1 = seen fs" using wf by (simp_all add: seen_def)
  show ?case
  proof (cases r)
    case (Err e)
    have "post (write_new pid p b) fs1 (\<lambda>s' r. fs_wf s' \<and>
        (seen s' = seen fs \<or> visible fs p = None \<and> seen s' = (True, (visible fs)(p \<mapsto> b))))"
      by (rule post_mono[OF write_new_post[OF wf1 p]])
         (use v1 wf in \<open>auto simp: seen_def split: result.splits if_splits\<close>)
    then have wrote: "post (then_do (map_error (write_new pid p b) StorageIo) (\<lambda>_. map_error (fs_read p) StorageIo)) fs1 (\<lambda>fs' r.
        (seen fs' = seen fs \<or> visible fs p = None \<and> seen fs' = (True, (visible fs)(p \<mapsto> b)))
        \<and> (\<forall>c. r = Ok c \<longrightarrow> visible fs' p = Some c))"
      unfolding post_simps
    proof (rule post_mono, goal_cases)
      case (1 fs2 r2)
      then show ?case
        by (cases r2) (auto simp: post_simps seen_def intro!: post_mono[OF read_post[OF p]] split: result.splits)
    qed
    show ?thesis
    proof (cases "io_kind e = NotFound")
      case True
      then show ?thesis using wrote by (simp only: Err result.case if_True refl)
    qed (use 1 Err in \<open>simp add: post_simps(2)\<close>)
  qed (use 1 in \<open>auto simp: post_simps seen_def\<close>)
qed

definition id_of :: "StoredObjectKind \<Rightarrow> bytes \<Rightarrow> string" where
  "id_of k h = (case k of BlobKind \<Rightarrow> blob_id_str (blob_of_hash h) | ManifestKind \<Rightarrow> manifest_id_str (manifest_of_hash h))"

lemma id_of_path: "ix_object_path w k (id_of k h) = hash_path (workspace_id_str w) (hex_encode h)"
  by (cases k) (simp_all add: id_of_def object_paths)

lemma id_of_match: "matches_id (cr_sha256 cx) k (id_of k h) b \<longleftrightarrow> cr_sha256 cx b = h"
  by (cases k) (simp_all add: id_of_def object_of_hash_content blob_of_hash_def manifest_of_hash_def hex_encode_inj)

lemma catalogue_quiet:
  "create_ok de \<Longrightarrow> post (with_db de w (insert_object_if_absent md)) ix
     (\<lambda>ix' r. same_view ix ix' \<and> (\<forall>e. r = Err e \<longrightarrow> not_missing e))"
  by (rule with_db_quiet[OF _ keeps_insert_object fails_other_insert])

lemma put_object_law:
  assumes inv: "ix_inv cx de ix"
  shows "post (put_object cx de pid w k (id_of k (cr_sha256 cx b)) b) ix (\<lambda>ix' r. ix_inv cx de ix'
     \<and> object_stored (cr_sha256 cx) w b (ix_view de ix) (ix_view de ix')
     \<and> (is_ok r \<longrightarrow> r \<noteq> Ok PutConflict \<and> vw_object (ix_view de ix') w (cr_sha256 cx b) \<noteq> None))"
proof -
  let ?p = "hash_path (workspace_id_str w) (hex_encode (cr_sha256 cx b))"
  note p = sha_hidden[OF ix_invD(3)[OF inv]]
  have vis: "visible (ix_fs ix') ?p \<noteq> None \<Longrightarrow> vw_object (ix_view de ix') w (cr_sha256 cx b) \<noteq> None" for ix'
    by (simp add: ix_view_def view_from_def)
  show ?thesis
    unfolding put_object_def id_of_path post_then[of "on_fs _"]
  proof (rule on_fs_post, rule post_mono[OF read_canonical_post[OF ix_invD(4)[OF inv] p]], goal_cases)
    case (1 fs r)
    let ?ix = "ix\<lparr>ix_fs := fs\<rparr>"
    have stored: "ix_inv cx de ?ix \<and> object_stored (cr_sha256 cx) w b (ix_view de ix) (ix_view de ?ix)"
    proof (cases "seen fs = seen (ix_fs ix)")
      case True
      then have "same_view ix ?ix" by (simp add: same_view_def)
      then show ?thesis using same_view_inv inv by (simp add: object_stored_def)
    next
      case False
      then show ?thesis using 1 object_added[OF inv, of fs w b]
        by (auto simp: object_stored_def ix_view_def[of de ix] view_from_def)
    qed
    show ?case
    proof (cases r)
      case (Ok c)
      have "visible fs ?p = Some c" using 1 Ok by blast
      then have there: "vw_object (ix_view de ?ix) w (cr_sha256 cx b) \<noteq> None" by (simp add: vis)
      show ?thesis unfolding Ok result.case
        by (simp add: post_simps(2) stored, intro impI, rule then_ix[OF catalogue_quiet[OF ix_invD(1)[OF inv]]])
           (use same_view_inv[of ?ix _ cx de] stored there in \<open>auto simp: post_simps split: if_splits\<close>)
    qed (use stored in simp)
  qed
qed


lemma backfill_post:
  assumes env: "create_ok de"
  shows "post (verify_backfill cx de w k i b) ix (\<lambda>ix' r. same_view ix ix' \<and> (\<forall>e. r = Err e \<longrightarrow> not_missing e))"
  unfolding verify_backfill_def post_if
  by (auto simp: post_simps(2) same_view_def intro!: then_ix[OF catalogue_quiet[OF env]]) (simp_all add: post_simps same_view_def)

lemma report_missing_post:
  assumes env: "create_ok de"
  shows "post (report_missing_catalog_row de w k i) ix (\<lambda>ix' r. same_view ix ix' \<and> (\<forall>e. r = Err e \<longrightarrow> not_missing e))"
  unfolding report_missing_catalog_row_def
  by (rule then_ix[OF with_db_quiet[OF env keeps_metadata fails_other_metadata]]) (auto simp: post_simps)

lemma same_view_trans: "same_view a b \<Longrightarrow> same_view b c \<Longrightarrow> same_view a c"
  by (simp add: same_view_def)

lemma get_object_post:
  assumes env: "create_ok de" and p: "\<not> hidden (ix_object_path w k i)"
  shows "post (get_object cx de w k i missing) ix (\<lambda>ix' r. same_view ix ix'
     \<and> (\<forall>b. r = Ok b \<longrightarrow> visible (ix_fs ix) (ix_object_path w k i) = Some b)
     \<and> (\<forall>e. r = Err e \<longrightarrow> e = missing \<and> visible (ix_fs ix) (ix_object_path w k i) = None \<or> not_missing e))"
  unfolding get_object_def post_then[of "ix_read _"]
proof (rule post_mono[OF ix_read_post[OF p]], goal_cases)
  case (1 ix1 r)
  show ?case
  proof (cases r)
    case (Ok found)
    show ?thesis
    proof (cases found)
      case None
      show ?thesis unfolding Ok None result.case option.case
        by (rule then_ix[OF report_missing_post[OF env]]) (use 1 Ok None same_view_trans in \<open>auto simp: post_simps\<close>)
    next
      case (Some b)
      show ?thesis unfolding Ok Some result.case option.case
        by (rule then_ix[OF backfill_post[OF env]]) (use 1 Ok Some same_view_trans in \<open>auto simp: post_simps\<close>)
    qed
  qed (use 1 in simp)
qed

lemma exists_object_post:
  assumes env: "create_ok de" and p: "\<not> hidden (ix_object_path w k i)"
  shows "post (exists_object cx de w k i) ix (\<lambda>ix' r. same_view ix ix'
     \<and> (\<forall>x. r = Ok x \<longrightarrow> x = (visible (ix_fs ix) (ix_object_path w k i) \<noteq> None)))"
  unfolding exists_object_def post_then[of "ix_read _"]
proof (rule post_mono[OF ix_read_post[OF p]], goal_cases)
  case (1 ix1 r)
  show ?case
  proof (cases r)
    case (Ok found)
    show ?thesis
    proof (cases found)
      case None
      show ?thesis unfolding Ok None result.case option.case
        by (rule then_ix[OF report_missing_post[OF env]]) (use 1 Ok None same_view_trans in \<open>auto simp: post_simps\<close>)
    next
      case (Some b)
      show ?thesis unfolding Ok Some result.case option.case
        by (rule then_ix[OF backfill_post[OF env]])
          (use 1 Ok Some same_view_trans in \<open>auto simp: post_simps intro!: exI[of _ b]\<close>)
    qed
  qed (use 1 in simp)
qed

lemma visible_object: "length h = 32 \<Longrightarrow> \<not> hidden (ix_object_path w k (id_of k h))"
  by (simp add: id_of_path length_visible)

lemma object_view: "vw_object (ix_view de ix) w h = visible (ix_fs ix) (ix_object_path w k (id_of k h))"
  by (simp add: ix_view_def view_from_def id_of_path)

lemma get_object_law:
  assumes inv: "ix_inv cx de ix" and "length h = 32" and "\<not> not_missing missing"
  shows "post (get_object cx de w k (id_of k h) missing) ix (\<lambda>ix' r. ix_inv cx de ix' \<and> ix_view de ix' = ix_view de ix
     \<and> (\<forall>b. r = Ok b \<longrightarrow> vw_object (ix_view de ix) w h = Some b)
     \<and> (r = Err missing \<longrightarrow> vw_object (ix_view de ix) w h = None))"
  by (rule post_mono[OF get_object_post[OF ix_invD(1)[OF inv] visible_object[OF assms(2)]]])
     (use inv assms(3) same_view_inv[of ix _ cx de] in \<open>auto simp: object_view[where k = k]\<close>)

lemma exists_object_law:
  assumes inv: "ix_inv cx de ix" and "length h = 32"
  shows "post (exists_object cx de w k (id_of k h)) ix (\<lambda>ix' r. ix_inv cx de ix' \<and> ix_view de ix' = ix_view de ix
     \<and> (\<forall>e. r = Ok e \<longrightarrow> e = (vw_object (ix_view de ix) w h \<noteq> None)))"
  by (rule post_mono[OF exists_object_post[OF ix_invD(1)[OF inv] visible_object[OF assms(2)]]])
     (use inv same_view_inv[of ix _ cx de] in \<open>auto simp: object_view[where k = k]\<close>)


section \<open>Operations on the tables\<close>

lemma view_from_update:
  "view_from de files (ts(w := (ts w)\<lparr>tb_key_envelopes := bt_insert (key_id_str k, device_id_str d) b (tb_key_envelopes (ts w))\<rparr>))
     = set_envelope w k d b (view_from de files ts)"
  "read_head de w row = Ok h \<Longrightarrow>
   view_from de files (ts(w := (ts w)\<lparr>tb_workspace_head := Some row\<rparr>)) = set_head w h (view_from de files ts)"
  "js_access_from_slice (de_json de) (ar_access_state_json ra) = Ok s \<Longrightarrow>
   view_from de files (ts(w := (ts w)\<lparr>tb_access_state := Some ra\<rparr>)) = set_access w s (view_from de files ts)"
  "js_join_from_slice (de_json de) (jw_request_json rj) = Ok q \<Longrightarrow>
   view_from de files (ts(w := (ts w)\<lparr>tb_join_requests := bt_insert (join_request_id_str j) rj (tb_join_requests (ts w))\<rparr>))
     = set_join w j (Some q) (view_from de files ts)"
  "view_from de files (ts(w := (ts w)\<lparr>tb_join_requests := bt_remove (join_request_id_str j) (tb_join_requests (ts w))\<rparr>))
     = set_join w j None (view_from de files ts)"
  by (auto simp: view_from_def set_envelope_def set_head_def set_access_def set_join_def fun_eq_iff id_str_inj)

lemma view_select:
  "vw_envelope (ix_view de ix) w k d = map_of (tb_key_envelopes (tables ix w)) (key_id_str k, device_id_str d)"
  "vw_head (ix_view de ix) w = Option.bind (tb_workspace_head (tables ix w)) (\<lambda>r. decoded (read_head de w r))"
  "vw_access (ix_view de ix) w = Option.bind (tb_access_state (tables ix w))
     (\<lambda>r. decoded (js_access_from_slice (de_json de) (ar_access_state_json r)))"
  "vw_join (ix_view de ix) w j = Option.bind (map_of (tb_join_requests (tables ix w)) (join_request_id_str j))
     (\<lambda>r. decoded (js_join_from_slice (de_json de) (jw_request_json r)))"
  by (simp_all add: ix_view_def view_from_def)

text \<open>An operation of one workspace's database, by what it does to the tables.\<close>

lemma with_db_law:
  assumes inv: "ix_inv cx de ix"
    and run: "\<And>cn. tables_of cn = tables ix w \<Longrightarrow> post m cn (\<lambda>cn' r. Q (tables_of cn') r)"
    and failed: "\<And>e. Q (tables ix w) (Err e)"
    and ok: "\<And>t r. Q t r \<Longrightarrow> tables_ok cx de w t"
    and result: "\<And>t r. Q t r \<Longrightarrow> R (view_from de (visible (ix_fs ix)) ((tables ix)(w := t))) r"
  shows "post (with_db de w m) ix (\<lambda>ix' r. ix_inv cx de ix' \<and> R (ix_view de ix') r)"
proof (rule post_mono[OF with_db_post[OF ix_invD(1)[OF inv], where Q = Q]])
  fix ix' r assume "seen (ix_fs ix') = seen (ix_fs ix) \<and> (\<exists>t. tables ix' = (tables ix)(w := t) \<and> Q t r)"
  then obtain t where t: "seen (ix_fs ix') = seen (ix_fs ix)" "tables ix' = (tables ix)(w := t)" "Q t r" by blast
  have "ix_inv cx de ix'" using inv t(1,2) ok[OF t(3)] by (auto simp: ix_inv_def)
  moreover have "visible (ix_fs ix') = visible (ix_fs ix)" using t(1) by (simp add: seen_def)
  ultimately show "ix_inv cx de ix' \<and> R (ix_view de ix') r" using result[OF t(3)] t(2) by (simp add: ix_view_def)
qed (use run failed in auto)


lemma ix_get_head_law:
  assumes inv: "ix_inv cx de ix" and w: "workspace_plain w"
  shows "post (ix_get_head cx de w) ix (\<lambda>ix' r. ix_inv cx de ix' \<and> ix_view de ix' = ix_view de ix
     \<and> (\<forall>h. r = Ok h \<longrightarrow> h = current_head (ix_view de ix) w))"
proof -
  have head: "current_head (ix_view de ix) w = h"
    if "read_head_row de w (tb_workspace_head (tables ix w)) = Ok h" for h
    using that by (auto simp: current_head_def view_select read_head_row_def split: option.splits)
  have "post (with_db de w (db_get_head de w)) ix (\<lambda>ix' r. ix_inv cx de ix' \<and> (ix_view de ix' = ix_view de ix
      \<and> (\<forall>h. r = Ok h \<longrightarrow> read_head_row de w (tb_workspace_head (tables ix w)) = Ok h)))"
  proof (rule with_db_law[OF inv, where Q = "\<lambda>t r. t = tables ix w
      \<and> (\<forall>h. r = Ok h \<longrightarrow> read_head_row de w (tb_workspace_head (tables ix w)) = Ok h)"])
    fix cn assume "tables_of cn = tables ix w"
    then show "post (db_get_head de w) cn (\<lambda>cn' r. tables_of cn' = tables ix w
        \<and> (\<forall>h. r = Ok h \<longrightarrow> read_head_row de w (tb_workspace_head (tables ix w)) = Ok h))"
      using db_get_head_post[of de w cn] by simp
  qed (use ix_invD(6)[OF inv] in \<open>auto simp: ix_view_def\<close>)
  then show ?thesis unfolding ix_get_head_def post_then
  proof (rule post_mono, goal_cases)
    case (1 ix1 r)
    show ?case
    proof (cases r)
      case (Ok h)
      then have h: "read_head_row de w (tb_workspace_head (tables ix w)) = Ok h" using 1 by blast
      show ?thesis
      proof (cases "wh_manifest_id h")
        case (Some m)
        have "manifest_id_ok m"
          using h Some by (auto simp: read_head_row_def read_head_def head_empty_def optional_def split: option.splits)
        then obtain mh where m: "m = manifest_of_hash mh" "length mh = 32"
          using manifest_id_ok_hash by blast
        have inv1: "ix_inv cx de ix1" "ix_view de ix1 = ix_view de ix" using 1 by auto
        have "post (ix_get_manifest cx de w m) ix1 (\<lambda>ix' r. ix_inv cx de ix' \<and> ix_view de ix' = ix_view de ix1)"
          using get_object_law[OF inv1(1) m(2), where k = ManifestKind and w = w and missing = ManifestNotFound]
          by (auto simp: ix_get_manifest_def m(1) id_of_def not_missing_def elim!: post_mono)
        then show ?thesis using Ok Some head[OF h] inv1
          by (auto simp: post_simps elim!: post_mono split: result.splits)
      qed (use Ok 1 head[OF h] in \<open>simp add: post_simps\<close>)
    qed (use 1 in simp)
  qed
qed


lemma current_head_row:
  assumes "tables_ok cx de w (tables ix w)"
  shows "tb_workspace_head (tables ix w) = None \<Longrightarrow> current_head (ix_view de ix) w = head_empty w"
    and "tb_workspace_head (tables ix w) = Some row \<Longrightarrow> read_head de w row = Ok (current_head (ix_view de ix) w)
           \<and> wh_revision (current_head (ix_view de ix) w) = word_of_int (hr_revision row)
           \<and> 1 \<le> hr_revision row \<and> hr_revision row \<le> i64_max"
proof -
  show "tb_workspace_head (tables ix w) = None \<Longrightarrow> current_head (ix_view de ix) w = head_empty w"
    by (simp add: current_head_def view_select)
  assume row: "tb_workspace_head (tables ix w) = Some row"
  then have range: "1 \<le> hr_revision row" "hr_revision row \<le> i64_max" "is_ok (read_head de w row)"
    using assms by (auto simp: tables_ok_def)
  then obtain h where h: "read_head de w row = Ok h" by (auto simp: is_ok_iff)
  moreover have "current_head (ix_view de ix) w = h" using row h by (simp add: current_head_def view_select)
  moreover have "wh_revision h = word_of_int (hr_revision row)"
    using h by (auto simp: read_head_def to_u64_def split: if_splits)
  ultimately show "read_head de w row = Ok (current_head (ix_view de ix) w)
      \<and> wh_revision (current_head (ix_view de ix) w) = word_of_int (hr_revision row)
      \<and> 1 \<le> hr_revision row \<and> hr_revision row \<le> i64_max" using range by simp
qed

lemma word_of_int_eq_uint: "0 \<le> i \<Longrightarrow> i \<le> i64_max \<Longrightarrow> (word_of_int i :: u64) = e \<longleftrightarrow> i = uint e"
  by (auto simp: i64_max_def word_of_int_inverse uint_word_of_int)

lemma manifest_id_str_inj: "manifest_id_str m = manifest_id_str m' \<longleftrightarrow> m = m'"
  by (cases m; cases m') simp

lemma read_head_row_fields:
  assumes "read_head de w (head_row now e m d) = Ok h" and "uint e + 1 \<le> i64_max"
  shows "wh_workspace_id h = w" "wh_manifest_id h = Some m" "unat (wh_revision h) = unat e + 1" "wh_updated_by h = d"
proof -
  have fields: "wh_workspace_id h = w" "wh_manifest_id h = Some m" "wh_updated_by h = d"
    "wh_revision h = word_of_int (uint e + 1)"
    using assms(1) by (auto simp: read_head_def head_row_def optional_def to_u64_def id_str_inj manifest_id_str_inj
        split: if_splits option.splits)
  have "uint e + 1 = uint (word_of_int (uint e + 1) :: u64)"
    by (rule word_of_int_eq_uint[THEN iffD1, OF _ assms(2) refl]) simp
  then have "uint (wh_revision h) = uint e + 1" using fields(4) by (simp only:)
  then have "unat (wh_revision h) = unat e + 1" by (simp only: uint_nat)
  then show "wh_workspace_id h = w" "wh_manifest_id h = Some m" "unat (wh_revision h) = unat e + 1" "wh_updated_by h = d"
    using fields(1-3) by blast+
qed

lemma ix_update_head_law:
  assumes inv: "ix_inv cx de ix" and w: "workspace_plain w" and mh: "length mh = 32"
  shows "post (ix_update_head cx de now w e (manifest_of_hash mh) d) ix (\<lambda>ix' r. ix_inv cx de ix' \<and> (case r of
      Ok (HeadUpdated, h) \<Rightarrow> wh_revision (current_head (ix_view de ix) w) = e
        \<and> vw_object (ix_view de ix) w mh \<noteq> None \<and> ix_view de ix' = set_head w h (ix_view de ix)
        \<and> wh_workspace_id h = w \<and> wh_manifest_id h = Some (manifest_of_hash mh)
        \<and> unat (wh_revision h) = unat e + 1 \<and> wh_updated_by h = d
    | Ok (HeadConflict, h) \<Rightarrow> ix_view de ix' = ix_view de ix \<and> h = current_head (ix_view de ix) w \<and> wh_revision h \<noteq> e
    | Err _ \<Rightarrow> ix_view de ix' = ix_view de ix))"
proof -
  let ?m = "manifest_of_hash mh"
  let ?row = "head_row now e ?m d"
  have swap: "post (with_db de w (db_update_head de now w e ?m d)) ix1 (\<lambda>ix' r. ix_inv cx de ix' \<and> (case r of
      Ok (HeadUpdated, h) \<Rightarrow> wh_revision (current_head (ix_view de ix1) w) = e
        \<and> ix_view de ix' = set_head w h (ix_view de ix1)
        \<and> wh_workspace_id h = w \<and> wh_manifest_id h = Some ?m \<and> unat (wh_revision h) = unat e + 1 \<and> wh_updated_by h = d
    | Ok (HeadConflict, h) \<Rightarrow> ix_view de ix' = ix_view de ix1 \<and> h = current_head (ix_view de ix1) w \<and> wh_revision h \<noteq> e
    | Err _ \<Rightarrow> ix_view de ix' = ix_view de ix1))" if inv1: "ix_inv cx de ix1" for ix1
  proof -
    note ok = ix_invD(6)[OF inv1, of w]
    let ?Q = "\<lambda>t r. case r of
       Ok (HeadUpdated, h) \<Rightarrow> t = (tables ix1 w)\<lparr>tb_workspace_head := Some ?row\<rparr>
         \<and> read_head de w ?row = Ok h \<and> uint e + 1 \<le> i64_max
         \<and> (case tb_workspace_head (tables ix1 w) of None \<Rightarrow> e = 0 | Some old \<Rightarrow> e \<noteq> 0 \<and> hr_revision old = uint e)
     | Ok (HeadConflict, h) \<Rightarrow> t = tables ix1 w \<and> read_head_row de w (tb_workspace_head (tables ix1 w)) = Ok h
         \<and> (case tb_workspace_head (tables ix1 w) of None \<Rightarrow> e \<noteq> 0 | Some old \<Rightarrow> e = 0 \<or> hr_revision old \<noteq> uint e)
     | Err _ \<Rightarrow> t = tables ix1 w"
    have rev: "wh_revision (current_head (ix_view de ix1) w) = e \<longleftrightarrow>
        (case tb_workspace_head (tables ix1 w) of None \<Rightarrow> e = 0 | Some old \<Rightarrow> e \<noteq> 0 \<and> hr_revision old = uint e)"
    proof (cases "tb_workspace_head (tables ix1 w)")
      case None
      then show ?thesis using current_head_row(1)[OF ok] by (auto simp: head_empty_def)
    next
      case (Some old)
      then have o: "wh_revision (current_head (ix_view de ix1) w) = word_of_int (hr_revision old)"
        "1 \<le> hr_revision old" "hr_revision old \<le> i64_max" using current_head_row(2)[OF ok] by auto
      then have "wh_revision (current_head (ix_view de ix1) w) = e \<longleftrightarrow> hr_revision old = uint e"
        using word_of_int_eq_uint[of "hr_revision old" e] by simp
      then show ?thesis using Some o(2) by auto
    qed
    show ?thesis
    proof (rule with_db_law[OF inv1, where Q = ?Q])
      fix cn assume same: "tables_of cn = tables ix1 w"
      show "post (db_update_head de now w e ?m d) cn (\<lambda>cn' r. ?Q (tables_of cn') r)"
        using db_update_head_post[of de now w e ?m d cn] unfolding same .
    next
      fix t and r :: "(HeadUpdateResult \<times> WorkspaceHead) server_result" assume q: "?Q t r"
      show "tables_ok cx de w t"
        using q ok by (auto simp: tables_ok_def head_row_def split: result.splits prod.splits HeadUpdateResult.splits)
      show "case r of
          Ok (HeadUpdated, h) \<Rightarrow> wh_revision (current_head (ix_view de ix1) w) = e
            \<and> view_from de (visible (ix_fs ix1)) ((tables ix1)(w := t)) = set_head w h (ix_view de ix1)
            \<and> wh_workspace_id h = w \<and> wh_manifest_id h = Some ?m \<and> unat (wh_revision h) = unat e + 1 \<and> wh_updated_by h = d
        | Ok (HeadConflict, h) \<Rightarrow> view_from de (visible (ix_fs ix1)) ((tables ix1)(w := t)) = ix_view de ix1
            \<and> h = current_head (ix_view de ix1) w \<and> wh_revision h \<noteq> e
        | Err _ \<Rightarrow> view_from de (visible (ix_fs ix1)) ((tables ix1)(w := t)) = ix_view de ix1"
      proof (cases r)
        case (Ok uh)
        obtain u h where uh: "uh = (u, h)" by (cases uh)
        show ?thesis
        proof (cases u)
          case HeadUpdated
          then show ?thesis using q Ok uh rev read_head_row_fields[of de w now e ?m d h] view_from_update(2)[of de w ?row h]
            by (auto simp: ix_view_def)
        next
          case HeadConflict
          then have c: "t = tables ix1 w" "read_head_row de w (tb_workspace_head (tables ix1 w)) = Ok h"
            "wh_revision (current_head (ix_view de ix1) w) \<noteq> e"
            using q Ok uh rev by (auto split: option.splits)
          then have "h = current_head (ix_view de ix1) w"
            using current_head_row[OF ok] by (cases "tb_workspace_head (tables ix1 w)") (auto simp: read_head_row_def)
          then show ?thesis using c Ok uh HeadConflict by (simp add: ix_view_def)
        qed
      qed (use q in \<open>simp add: ix_view_def\<close>)
    qed simp
  qed
  show ?thesis
    unfolding ix_update_head_def ix_manifest_exists_def post_then[of "exists_object _ _ _ _ _"]
  proof (rule post_mono[OF exists_object_law[OF inv mh, where k = ManifestKind and w = w,
        unfolded id_of_def StoredObjectKind.case]], goal_cases)
    case (1 ix1 r)
    show ?case
    proof (cases r)
      case (Ok present)
      show ?thesis
      proof (cases present)
        case True
        show ?thesis unfolding Ok result.case
          by (simp add: True, rule post_mono[OF swap[of ix1]])
             (use 1 Ok True in \<open>auto split: result.splits prod.splits HeadUpdateResult.splits\<close>)
      qed (use 1 Ok in \<open>simp add: post_simps\<close>)
    qed (use 1 in simp)
  qed
qed


lemma post_run: "m s = m' s \<Longrightarrow> post m' s P \<Longrightarrow> post m s P"
  by (simp add: post_def)

lemma ix_get_access_state_law:
  assumes inv: "ix_inv cx de ix"
  shows "post (ix_get_access_state cx de w) ix (\<lambda>ix' r. ix_inv cx de ix' \<and> ix_view de ix' = ix_view de ix
     \<and> (\<forall>s. r = Ok s \<longrightarrow> s = current_access (ix_view de ix) w))"
proof -
  have "post (get_existing de w) ix (\<lambda>ix' r. same_view ix ix' \<and> (case r of
      Ok None \<Rightarrow> tables ix w = empty_tables
    | Ok (Some p) \<Rightarrow> p = workspace_state_path (workspace_id_str w) \<and> tables ix' w = tables ix w | Err _ \<Rightarrow> True))"
  proof (cases "w \<in> set (ix_databases ix)")
    case True
    then show ?thesis by (simp add: get_existing_def post_def same_view_def)
  next
    case False
    let ?p = "workspace_state_path (workspace_id_str w)"
    let ?m = "then_do (db_file_exists ?p) (\<lambda>present. if \<not> present then done_with None
        else then_do (get_or_open de w) (\<lambda>p. done_with (Some p)))"
    have run: "get_existing de w ix = ?m ix"
      using False by (simp add: get_existing_def)
    have exists: "post (db_file_exists ?p) ix (\<lambda>ix' r. same_stores ix ix'
        \<and> (\<forall>present. r = Ok present \<longrightarrow> present = (map_of (ix_dbs ix) ?p \<noteq> None)))"
      by (auto simp: db_file_exists_def post_def same_stores_def split: list.splits option.splits)
    show ?thesis
    proof (rule post_run[where m = "get_existing de w" and m' = ?m and s = ix, OF run], unfold post_then, rule post_mono[OF exists], goal_cases)
      case (1 ix1 r)
      then have same: "same_stores ix ix1" by blast
      show ?case
      proof (cases r)
        case (Ok present)
        show ?thesis
        proof (cases present)
          case True
          have "post (get_or_open de w) ix1 (\<lambda>ix' r. same_stores ix1 ix' \<and> (case r of Ok p \<Rightarrow> p = ?p | Err e \<Rightarrow> open_failure e))"
            by (rule get_or_open_post[OF ix_invD(1)[OF inv]])
          then show ?thesis unfolding Ok result.case using same True
            by (auto simp: post_simps same_view_def same_stores_def elim!: post_mono split: result.splits)
        next
          case False
          then have "map_of (ix_dbs ix) ?p = None" using 1 Ok by auto
          then have "tables ix w = empty_tables" by (simp add: tables_def)
          then show ?thesis using Ok False same by (simp add: post_simps same_view_def same_stores_def)
        qed
      qed (use same in \<open>simp add: same_view_def same_stores_def\<close>)
    qed
  qed
  then show ?thesis unfolding ix_get_access_state_def post_then
  proof (rule post_mono, goal_cases)
    case (1 ix1 r)
    then have sv: "ix_inv cx de ix1" "ix_view de ix1 = ix_view de ix" using same_view_inv[of ix ix1 cx de] inv by auto
    show ?case
    proof (cases r)
      case (Ok found)
      show ?thesis
      proof (cases found)
        case None
        then have "tables ix w = empty_tables" using 1 Ok by simp
        then have "current_access (ix_view de ix) w = state_empty w"
          by (simp add: current_access_def view_select empty_tables_def)
        then show ?thesis using Ok None sv by (simp add: post_simps)
      next
        case (Some p)
        have p: "p = workspace_state_path (workspace_id_str w)" using 1 Ok Some by simp
        let ?Q = "\<lambda>t r. t = tables ix1 w \<and> (\<forall>s. r = Ok s \<longrightarrow> s = current_access (ix_view de ix) w)"
        have "post (on_db p (db_get_access_state cx de w)) ix1 (\<lambda>ix' r.
            seen (ix_fs ix') = seen (ix_fs ix1) \<and> (\<exists>t. tables ix' = (tables ix1)(w := t) \<and> ?Q t r))"
          unfolding p
        proof (rule on_db_post)
          fix cn assume same: "tables_of cn = tables ix1 w"
          have "current_access (ix_view de ix) w = (case tb_access_state (tables ix1 w) of None \<Rightarrow> state_empty w
              | Some row \<Rightarrow> (case decoded (js_access_from_slice (de_json de) (ar_access_state_json row)) of
                  None \<Rightarrow> state_empty w | Some s \<Rightarrow> s))"
            unfolding sv(2)[symmetric] by (auto simp: current_access_def view_select split: option.splits)
          then show "post (db_get_access_state cx de w) cn (\<lambda>cn' r. ?Q (tables_of cn') r)"
            using same by (auto split: option.splits intro!: post_mono[OF db_get_access_state_post])
        qed auto
        then show ?thesis unfolding Ok Some result.case option.case
          by (rule post_mono) (use sv in \<open>auto simp: ix_inv_def ix_view_eq\<close>)
      qed
    qed (use sv in simp)
  qed
qed

lemma ix_create_access_state_law:
  assumes inv: "ix_inv cx de ix"
  shows "post (ix_create_access_state cx de w s) ix (\<lambda>ix' r. ix_inv cx de ix' \<and> (let
     put = (vw_access (ix_view de ix) w = None \<and> valid_access cx w s \<and> ix_view de ix' = set_access w s (ix_view de ix))
     in if is_ok r then put else ix_view de ix' = ix_view de ix \<or> put))"
  unfolding ix_create_access_state_def
proof (rule with_db_law[OF inv, where Q = "\<lambda>t r. case r of
     Ok _ \<Rightarrow> tb_access_state (tables ix w) = None \<and> valid_access cx w s
       \<and> (\<exists>row. js_access_from_slice (de_json de) (ar_access_state_json row) = Ok s
            \<and> t = (tables ix w)\<lparr>tb_access_state := Some row\<rparr>)
   | Err _ \<Rightarrow> t = tables ix w"], goal_cases)
  case (1 cn)
  show ?case using db_create_access_state_post[OF ix_invD(2)[OF inv], of cx w s cn] unfolding 1 .
next
  case (3 t r)
  then show ?case using ix_invD(6)[OF inv, of w] by (auto simp: tables_ok_def split: result.splits)
next
  case (4 t r)
  then show ?case
    by (auto simp: Let_def ix_view_def view_from_update(3) view_from_def[of _ _ "tables ix"] split: result.splits)
qed simp

lemma ix_save_access_state_law:
  assumes inv: "ix_inv cx de ix"
  shows "post (ix_save_access_state cx de w s) ix (\<lambda>ix' r. ix_inv cx de ix' \<and> (if is_ok r
     then valid_access cx w s \<and> ix_view de ix' = set_access w s (ix_view de ix) else ix_view de ix' = ix_view de ix))"
  unfolding ix_save_access_state_def
proof (rule with_db_law[OF inv, where Q = "\<lambda>t r. case r of
     Ok _ \<Rightarrow> valid_access cx w s \<and> (\<exists>row. js_access_from_slice (de_json de) (ar_access_state_json row) = Ok s
            \<and> t = (tables ix w)\<lparr>tb_access_state := Some row\<rparr>)
   | Err _ \<Rightarrow> t = tables ix w"], goal_cases)
  case (1 cn)
  show ?case using db_save_access_state_post[OF ix_invD(2)[OF inv], of cx w s cn] unfolding 1 .
next
  case (3 t r)
  then show ?case using ix_invD(6)[OF inv, of w] by (auto simp: tables_ok_def split: result.splits)
next
  case (4 t r)
  then show ?case by (auto simp: ix_view_def view_from_update(3) split: result.splits)
qed simp


lemma ix_put_key_envelope_law:
  assumes inv: "ix_inv cx de ix"
  shows "post (ix_put_key_envelope de w k d b) ix (\<lambda>ix' r. ix_inv cx de ix' \<and> (let
      old = vw_envelope (ix_view de ix) w k d;
      put = (old = None \<and> ix_view de ix' = set_envelope w k d b (ix_view de ix)) in case r of
        Ok PutCreated \<Rightarrow> put
      | Ok PutAlreadyExists \<Rightarrow> ix_view de ix' = ix_view de ix \<and> old = Some b
      | Ok PutConflict \<Rightarrow> ix_view de ix' = ix_view de ix \<and> old \<noteq> None \<and> old \<noteq> Some b
      | Err _ \<Rightarrow> ix_view de ix' = ix_view de ix \<or> put))"
  unfolding ix_put_key_envelope_def
proof (rule with_db_law[OF inv, where Q = "\<lambda>t r. let
      key = (key_id_str k, device_id_str d); old = map_of (tb_key_envelopes (tables ix w)) key in case r of
     Ok PutCreated \<Rightarrow> old = None
       \<and> t = (tables ix w)\<lparr>tb_key_envelopes := bt_insert key b (tb_key_envelopes (tables ix w))\<rparr>
   | Ok PutAlreadyExists \<Rightarrow> t = tables ix w \<and> old = Some b
   | Ok PutConflict \<Rightarrow> t = tables ix w \<and> old \<noteq> None \<and> old \<noteq> Some b
   | Err _ \<Rightarrow> t = tables ix w"], goal_cases)
  case (1 cn)
  show ?case using db_put_key_envelope_post[of k d b cn] unfolding 1 .
next
  case (3 t r)
  then show ?case using ix_invD(6)[OF inv, of w]
    by (auto simp: tables_ok_def Let_def split: result.splits PutResult.splits)
next
  case (4 t r)
  then show ?case
    by (auto simp: Let_def ix_view_def view_from_update(1) view_from_def[of _ _ "tables ix"]
        split: result.splits PutResult.splits)
qed (simp add: Let_def)

lemma ix_get_key_envelope_law:
  assumes inv: "ix_inv cx de ix"
  shows "post (ix_get_key_envelope de w k d) ix (\<lambda>ix' r. ix_inv cx de ix' \<and> (ix_view de ix' = ix_view de ix
    \<and> (\<forall>e. r = Ok e \<longrightarrow> e = vw_envelope (ix_view de ix) w k d)))"
  unfolding ix_get_key_envelope_def
proof (rule with_db_law[OF inv, where Q = "\<lambda>t r. t = tables ix w
    \<and> (\<forall>x. r = Ok x \<longrightarrow> x = map_of (tb_key_envelopes (tables ix w)) (key_id_str k, device_id_str d))"], goal_cases)
  case (1 cn)
  show ?case using db_get_key_envelope_post[of k d cn] unfolding 1 .
next
  case (3 t r)
  then show ?case using ix_invD(6)[OF inv, of w] by simp
next
  case (4 t r)
  then show ?case by (simp add: view_select) (simp add: ix_view_def)
qed simp

lemma ix_submit_join_request_law:
  assumes inv: "ix_inv cx de ix" and j: "join_request_id_ok (jr_request_id q)"
  shows "post (ix_submit_join_request de w q) ix (\<lambda>ix' r. ix_inv cx de ix' \<and> (let
      old = vw_join (ix_view de ix) w (jr_request_id q);
      put = (old = None \<and> jr_workspace_id q = w
             \<and> ix_view de ix' = set_join w (jr_request_id q) (Some q) (ix_view de ix)) in case r of
        Ok JoinSubmitted \<Rightarrow> put
      | Ok JoinAlreadyPending \<Rightarrow> ix_view de ix' = ix_view de ix \<and> old = Some q
      | Ok JoinConflict \<Rightarrow> ix_view de ix' = ix_view de ix \<and> old \<noteq> None \<and> old \<noteq> Some q
      | Err _ \<Rightarrow> ix_view de ix' = ix_view de ix \<or> put))"
  unfolding ix_submit_join_request_def
proof (rule with_db_law[OF inv, where Q = "\<lambda>t r. let
      j = join_request_id_str (jr_request_id q); old = map_of (tb_join_requests (tables ix w)) j in case r of
     Ok JoinSubmitted \<Rightarrow> old = None \<and> jr_workspace_id q = w
       \<and> (\<exists>row. js_join_from_slice (de_json de) (jw_request_json row) = Ok q
            \<and> t = (tables ix w)\<lparr>tb_join_requests := bt_insert j row (tb_join_requests (tables ix w))\<rparr>)
   | Ok JoinAlreadyPending \<Rightarrow> t = tables ix w
       \<and> (\<exists>row. old = Some row \<and> js_join_from_slice (de_json de) (jw_request_json row) = Ok q)
   | Ok JoinConflict \<Rightarrow> t = tables ix w
       \<and> (\<exists>row q'. old = Some row \<and> js_join_from_slice (de_json de) (jw_request_json row) = Ok q' \<and> q' \<noteq> q)
   | Err _ \<Rightarrow> t = tables ix w"], goal_cases)
  case (1 cn)
  have ok: "tables_ok cx de w (tables_of cn)" using 1 ix_invD(6)[OF inv] by simp
  show ?case using db_submit_join_request_post[OF ix_invD(2)[OF inv] ok, of q] unfolding 1 .
next
  case (3 t r)
  show ?case
  proof (cases "t = tables ix w")
    case True
    then show ?thesis using ix_invD(6)[OF inv] by simp
  next
    case False
    then obtain row where "js_join_from_slice (de_json de) (jw_request_json row) = Ok q" "jr_workspace_id q = w"
      "t = (tables ix w)\<lparr>tb_join_requests := bt_insert (join_request_id_str (jr_request_id q)) row (tb_join_requests (tables ix w))\<rparr>"
      using 3 by (auto simp: Let_def split: result.splits JoinRequestPutResult.splits)
    then show ?thesis using ix_invD(6)[OF inv, of w] j
      by (auto simp: tables_ok_def list_all_iff join_row_ok_def dest: snd_set_bt_insert)
  qed
next
  case (4 t r)
  have same: "view_from de (visible (ix_fs ix)) ((tables ix)(w := tables ix w)) = ix_view de ix" by (simp add: ix_view_def)
  have old: "map_of (tb_join_requests (tables ix w)) (join_request_id_str (jr_request_id q)) = None \<Longrightarrow>
      vw_join (ix_view de ix) w (jr_request_id q) = None"
    "map_of (tb_join_requests (tables ix w)) (join_request_id_str (jr_request_id q)) = Some row \<Longrightarrow>
      vw_join (ix_view de ix) w (jr_request_id q) = decoded (js_join_from_slice (de_json de) (jw_request_json row))" for row
    by (simp_all add: view_select)
  show ?case using 4 old same view_from_update(4)[of de _ q "visible (ix_fs ix)" "tables ix" w "jr_request_id q"]
    by (auto simp: Let_def ix_view_def[of de ix, symmetric] split: result.splits JoinRequestPutResult.splits)
qed (simp add: Let_def)

lemma ix_list_join_requests_law:
  assumes inv: "ix_inv cx de ix"
  shows "post (ix_list_join_requests de w) ix (\<lambda>ix' r. ix_inv cx de ix' \<and> (ix_view de ix' = ix_view de ix
    \<and> (\<forall>qs. r = Ok qs \<longrightarrow> distinct qs
         \<and> set qs = {q. \<exists>j. join_request_id_ok j \<and> vw_join (ix_view de ix) w j = Some q})))"
  unfolding ix_list_join_requests_def
proof (rule with_db_law[OF inv, where Q = "\<lambda>t r. t = tables ix w \<and> (\<forall>qs. r = Ok qs \<longrightarrow>
     distinct qs \<and> set qs = {q. \<exists>j. join_request_id_ok j \<and> vw_join (ix_view de ix) w j = Some q})"], goal_cases)
  case (1 cn)
  have ok: "tables_ok cx de w (tables_of cn)" using 1 ix_invD(6)[OF inv] by simp
  show ?case using db_list_join_requests_post[OF ok] unfolding 1 view_select .
next
  case (3 t r)
  then show ?case using ix_invD(6)[OF inv, of w] by simp
next
  case (4 t r)
  then show ?case by (simp add: ix_view_def)
qed simp

lemma ix_get_join_request_law:
  assumes inv: "ix_inv cx de ix"
  shows "post (ix_get_join_request de w j) ix (\<lambda>ix' r. ix_inv cx de ix' \<and> (ix_view de ix' = ix_view de ix
    \<and> (\<forall>q. r = Ok q \<longrightarrow> q = vw_join (ix_view de ix) w j)))"
  unfolding ix_get_join_request_def
proof (rule with_db_law[OF inv, where Q = "\<lambda>t r. t = tables ix w \<and> (\<forall>q. r = Ok q \<longrightarrow> q = vw_join (ix_view de ix) w j)"], goal_cases)
  case (1 cn)
  show ?case using db_get_join_request_post[of de w j cn] unfolding 1 view_select .
next
  case (3 t r)
  then show ?case using ix_invD(6)[OF inv, of w] by simp
next
  case (4 t r)
  then show ?case by (simp add: ix_view_def)
qed simp

lemma ix_remove_join_request_law:
  assumes inv: "ix_inv cx de ix"
  shows "post (ix_remove_join_request de w j) ix (\<lambda>ix' r. ix_inv cx de ix'
    \<and> (if is_ok r then ix_view de ix' = set_join w j None (ix_view de ix) else ix_view de ix' = ix_view de ix))"
  unfolding ix_remove_join_request_def
proof (rule with_db_law[OF inv, where Q = "\<lambda>t r. t = (if is_ok r
     then (tables ix w)\<lparr>tb_join_requests := bt_remove (join_request_id_str j) (tb_join_requests (tables ix w))\<rparr>
     else tables ix w)"], goal_cases)
  case (1 cn)
  show ?case using db_remove_join_request_post[of j cn] unfolding 1 .
next
  case (3 t r)
  then show ?case using ix_invD(6)[OF inv, of w]
    by (auto simp: tables_ok_def list_all_iff bt_remove_def)
next
  case (4 t r)
  then show ?case by (simp add: ix_view_def view_from_update(5))
qed simp


section \<open>The interpretation\<close>

lemma ix_objects_hashed: "ix_inv cx de ix \<Longrightarrow> vw_object (ix_view de ix) w h = Some b \<Longrightarrow> h = cr_sha256 cx b"
  by (auto simp: ix_inv_def objects_ok_def seen_def ix_view_def view_from_def)

lemma ix_access_valid:
  assumes "ix_inv cx de ix" "vw_access (ix_view de ix) w = Some s"
  shows "valid_access cx w s"
  using ix_invD(6)[OF assms(1), of w] assms(2) by (auto simp: tables_ok_def view_select bind_eq_Some_conv)

lemma ix_joins_addressed:
  assumes "ix_inv cx de ix" "vw_join (ix_view de ix) w j = Some q"
  shows "jr_request_id q = j \<and> jr_workspace_id q = w"
proof -
  obtain row where row: "map_of (tb_join_requests (tables ix w)) (join_request_id_str j) = Some row"
    "js_join_from_slice (de_json de) (jw_request_json row) = Ok q"
    using assms(2) by (auto simp: view_select bind_eq_Some_conv)
  then have "join_row_ok de w (join_request_id_str j, row)"
    using ix_invD(6)[OF assms(1), of w] by (auto simp: tables_ok_def list_all_iff dest!: map_of_SomeD)
  then show ?thesis using row(2) by (auto simp: join_row_ok_def id_str_inj)
qed

lemma ix_put_law:
  assumes "ix_inv cx de ix"
  shows "post (ix_put_blob cx de pid w i b) ix (\<lambda>ix' r. ix_inv cx de ix' \<and>
    (if i = blob_id_from_content (cr_sha256 cx) b
     then object_stored (cr_sha256 cx) w b (ix_view de ix) (ix_view de ix')
       \<and> (is_ok r \<longrightarrow> r \<noteq> Ok PutConflict \<and> vw_object (ix_view de ix') w (cr_sha256 cx b) \<noteq> None)
     else ix_view de ix' = ix_view de ix \<and> r = Err ObjectHashMismatch))"
    and "post (ix_put_manifest cx de pid w m b) ix (\<lambda>ix' r. ix_inv cx de ix' \<and>
    (if m = manifest_id_from_content (cr_sha256 cx) b
     then object_stored (cr_sha256 cx) w b (ix_view de ix) (ix_view de ix')
       \<and> (is_ok r \<longrightarrow> r \<noteq> Ok PutConflict \<and> vw_object (ix_view de ix') w (cr_sha256 cx b) \<noteq> None)
     else ix_view de ix' = ix_view de ix \<and> r = Err ObjectHashMismatch))"
  using put_object_law[OF assms, of pid w BlobKind b] put_object_law[OF assms, of pid w ManifestKind b] assms
  by (auto simp: ix_put_blob_def ix_put_manifest_def id_of_def object_of_hash_content post_simps)

lemma indexed_storage_select:
  "so_put_blob (indexed_storage cx de pid) = ix_put_blob cx de pid"
  "so_get_blob (indexed_storage cx de pid) = ix_get_blob cx de"
  "so_blob_exists (indexed_storage cx de pid) = ix_blob_exists cx de"
  "so_put_manifest (indexed_storage cx de pid) = ix_put_manifest cx de pid"
  "so_get_manifest (indexed_storage cx de pid) = ix_get_manifest cx de"
  "so_manifest_exists (indexed_storage cx de pid) = ix_manifest_exists cx de"
  "so_put_key_envelope (indexed_storage cx de pid) = ix_put_key_envelope de"
  "so_get_key_envelope (indexed_storage cx de pid) = ix_get_key_envelope de"
  "so_get_head (indexed_storage cx de pid) = ix_get_head cx de"
  "so_update_head (indexed_storage cx de pid) = ix_update_head cx de"
  "so_get_access_state (indexed_storage cx de pid) = ix_get_access_state cx de"
  "so_create_access_state (indexed_storage cx de pid) = ix_create_access_state cx de"
  "so_save_access_state (indexed_storage cx de pid) = ix_save_access_state cx de"
  "so_submit_join_request (indexed_storage cx de pid) = ix_submit_join_request de"
  "so_list_join_requests (indexed_storage cx de pid) = ix_list_join_requests de"
  "so_get_join_request (indexed_storage cx de pid) = ix_get_join_request de"
  "so_remove_join_request (indexed_storage cx de pid) = ix_remove_join_request de"
  by (simp_all add: indexed_storage_def)

interpretation ix: storage cx "indexed_storage cx de pid" "ix_view de" "ix_inv cx de"
proof (unfold_locales, unfold indexed_storage_select, goal_cases)
  case (1 ix w h b) then show ?case by (rule ix_objects_hashed)
next
  case (2 ix w s) then show ?case by (rule ix_access_valid)
next
  case (3 ix w j q) then show ?case using ix_joins_addressed by blast
next
  case (4 ix w i b) then show ?case by (intro ix_put_law(1))
next
  case (5 ix w h)
  then show ?case using get_object_law[of cx de ix h BlobNotFound w BlobKind]
    by (simp add: ix_get_blob_def id_of_def not_missing_def)
next
  case (6 ix w h)
  then show ?case using exists_object_law[of cx de ix h w BlobKind] by (simp add: ix_blob_exists_def id_of_def)
next
  case (7 ix w m b) then show ?case by (intro ix_put_law(2))
next
  case (8 ix w h)
  then show ?case using get_object_law[of cx de ix h ManifestNotFound w ManifestKind]
    by (simp add: ix_get_manifest_def id_of_def not_missing_def)
next
  case (9 ix w h)
  then show ?case using exists_object_law[of cx de ix h w ManifestKind] by (simp add: ix_manifest_exists_def id_of_def)
next
  case (10 ix w k d b) then show ?case by (intro ix_put_key_envelope_law)
next
  case (11 ix w k d) then show ?case by (intro ix_get_key_envelope_law)
next
  case (12 ix w) then show ?case by (intro ix_get_head_law)
next
  case (13 ix w mh t e d) then show ?case by (intro ix_update_head_law)
next
  case (14 ix w) then show ?case by (intro ix_get_access_state_law)
next
  case (15 ix w s) then show ?case by (intro ix_create_access_state_law)
next
  case (16 ix w s) then show ?case by (intro ix_save_access_state_law)
next
  case (17 ix w q) then show ?case by (intro ix_submit_join_request_law)
next
  case (18 ix w) then show ?case by (intro ix_list_join_requests_law)
next
  case (19 ix w j) then show ?case by (intro ix_get_join_request_law)
next
  case (20 ix w j) then show ?case by (intro ix_remove_join_request_law)
qed

text \<open>The invariant holds of an empty data directory.\<close>

lemma ix_inv_empty:
  "env_ok cx de \<Longrightarrow> fs_files (ix_fs ix) = [] \<Longrightarrow> ix_dbs ix = [] \<Longrightarrow> ix_inv cx de ix"
  by (simp add: ix_inv_def seen_def fs_wf_def objects_ok_def visible_def fs_get_def tables_def tables_ok_empty)

end
