(* ===== verification/Indexed_Catalogue.thy ===== *)
theory Indexed_Catalogue
  imports Indexed_Contract Server_Contract
begin

text \<open>
  The catalogue of the back end agrees with the object files: an invariant that every operation
  keeps under any failures, so that the errors that report a corrupt store do not arise.
\<close>

section \<open>The catalogue\<close>

definition row_ok :: "crypto \<Rightarrow> (path \<Rightarrow> bytes option) \<Rightarrow> WorkspaceId \<Rightarrow> ObjectRow \<Rightarrow> bool" where
  "row_ok cx files w row \<longleftrightarrow> (\<exists>k b. or_object_kind row = kind_str k
     \<and> or_object_id row = id_of k (cr_sha256 cx b)
     \<and> files (hash_path (workspace_id_str w) (hex_encode (cr_sha256 cx b))) = Some b
     \<and> or_encrypted_size row = uint (word_of_nat (length b) :: u64)
     \<and> or_hash_algorithm row = OBJECT_HASH_ALGORITHM)"

definition row_key :: "ObjectRow \<Rightarrow> string \<times> string" where
  "row_key row = (or_object_kind row, or_object_id row)"

definition rows_ok :: "crypto \<Rightarrow> (path \<Rightarrow> bytes option) \<Rightarrow> WorkspaceId \<Rightarrow> ObjectRow list \<Rightarrow> bool" where
  "rows_ok cx files w rows \<longleftrightarrow> list_all (row_ok cx files w) rows \<and> distinct (map row_key rows)"

definition catalogue_ok :: "crypto \<Rightarrow> Indexed \<Rightarrow> bool" where
  "catalogue_ok cx ix \<longleftrightarrow> (\<forall>w. rows_ok cx (visible (ix_fs ix)) w (tb_objects (tables ix w)))"

lemma kind_str_inj [simp]: "kind_str k = kind_str k' \<longleftrightarrow> k = k'"
  by (cases k; cases k') simp_all

lemma id_of_inj [simp]: "id_of k h = id_of k' h' \<longleftrightarrow> k = k' \<and> h = h'"
  by (cases k; cases k') (auto simp: id_of_def blob_of_hash_def manifest_of_hash_def BLOB_ID_PREFIX_def
      MANIFEST_ID_PREFIX_def hex_encode_inj)

lemma parse_kind_str [simp]: "parse_kind (kind_str k) = Ok k"
  by (cases k) (simp_all add: parse_kind_def)

lemma row_ok_more: "row_ok cx files w row \<Longrightarrow> (\<And>p b. files p = Some b \<Longrightarrow> files' p = Some b) \<Longrightarrow> row_ok cx files' w row"
  unfolding row_ok_def by blast

lemma rows_ok_more:
  "rows_ok cx files w rows \<Longrightarrow> (\<And>p b. files p = Some b \<Longrightarrow> files' p = Some b) \<Longrightarrow> rows_ok cx files' w rows"
  using row_ok_more by (fastforce simp: rows_ok_def list_all_iff)

text \<open>What the statements read from a good catalogue.\<close>

lemma read_row_ok: "row_ok cx files w row \<Longrightarrow> \<exists>r. read_object_row row = Ok r"
  by (auto simp: row_ok_def read_object_row_def to_u64_def)

lemma try_map_total: "(\<And>x. x \<in> set xs \<Longrightarrow> \<exists>y. f x = Ok y) \<Longrightarrow> \<exists>ys. try_map f xs = Ok ys"
proof (induction xs)
  case (Cons x xs)
  obtain y ys where "f x = Ok y" "try_map f xs = Ok ys" using Cons by (metis list.set_intros)
  then show ?case by simp
qed simp

definition expected_row :: "StoredObjectKind \<Rightarrow> bytes \<Rightarrow> StoredObjectRow" where
  "expected_row k b = \<lparr>sr_kind = k, sr_hash_algorithm = OBJECT_HASH_ALGORITHM, sr_encrypted_size = word_of_nat (length b)\<rparr>"

lemma singleton_list: "set xs = {a} \<Longrightarrow> distinct xs \<Longrightarrow> xs = [a]"
proof -
  assume xs: "set xs = {a}" "distinct xs"
  then have "length xs = 1" using distinct_card[of xs] by simp
  then obtain b where "xs = [b]" by (auto simp: length_Suc_conv)
  then show "xs = [a]" using xs by simp
qed

lemma row_unique:
  assumes "rows_ok cx files w rows" "r \<in> set rows" "row \<in> set rows" "row_key r = row_key row"
  shows "r = row"
  using assms unfolding rows_ok_def distinct_map by (metis inj_onD)

lemma row_found:
  assumes ok: "rows_ok cx files w rows" and row: "row \<in> set rows" "row_key row = (kind_str k, id_of k (cr_sha256 cx b))"
    and b: "files (hash_path (workspace_id_str w) (hex_encode (cr_sha256 cx b))) = Some b"
  shows "filter (\<lambda>r. or_object_kind r = kind_str k \<and> or_object_id r = id_of k (cr_sha256 cx b)) rows = [row]"
    and "read_object_row row = Ok (expected_row k b)"
proof -
  have one: "distinct rows" using ok by (simp add: rows_ok_def distinct_map)
  have key: "row_key r = row_key row \<longleftrightarrow> or_object_kind r = kind_str k \<and> or_object_id r = id_of k (cr_sha256 cx b)" for r
    unfolding row(2) by (simp add: row_key_def)
  have "set (filter (\<lambda>r. row_key r = row_key row) rows) = {row}"
    using row(1) row_unique[OF ok _ row(1)] unfolding set_filter by blast
  then show "filter (\<lambda>r. or_object_kind r = kind_str k \<and> or_object_id r = id_of k (cr_sha256 cx b)) rows = [row]"
    unfolding key by (rule singleton_list) (rule distinct_filter[OF one])
  have "row_ok cx files w row" using ok row(1) by (simp add: rows_ok_def list_all_iff)
  then obtain k' b' where b': "or_object_kind row = kind_str k'" "or_object_id row = id_of k' (cr_sha256 cx b')"
    "files (hash_path (workspace_id_str w) (hex_encode (cr_sha256 cx b'))) = Some b'"
    "or_encrypted_size row = uint (word_of_nat (length b') :: u64)" "or_hash_algorithm row = OBJECT_HASH_ALGORITHM"
    unfolding row_ok_def by blast
  have same: "k' = k" "cr_sha256 cx b' = cr_sha256 cx b" using row(2) b'(1,2) by (simp_all add: row_key_def)
  then have "b' = b" using b'(3) b by (metis option.inject)
  then show "read_object_row row = Ok (expected_row k b)" using b' same
    by (simp only: read_object_row_def to_u64_def expected_row_def and_then.simps parse_kind_str uint_ge_0 if_True word_of_int_uint)
qed

lemma kind_rows:
  assumes ok: "rows_ok cx files w rows"
    and b: "files (hash_path (workspace_id_str w) (hex_encode (cr_sha256 cx b))) = Some b"
  shows "try_map read_object_row (filter (\<lambda>r. or_object_kind r = kind_str k \<and> or_object_id r = id_of k (cr_sha256 cx b)) rows)
     = Ok (if (kind_str k, id_of k (cr_sha256 cx b)) \<in> row_key ` set rows then [expected_row k b] else [])"
proof (cases "(kind_str k, id_of k (cr_sha256 cx b)) \<in> row_key ` set rows")
  case True
  then obtain row where row: "row \<in> set rows" "row_key row = (kind_str k, id_of k (cr_sha256 cx b))" by (metis imageE)
  show ?thesis unfolding row_found(1)[OF ok row b] using True row_found(2)[OF ok row b] by simp
next
  case False
  then have "filter (\<lambda>r. or_object_kind r = kind_str k \<and> or_object_id r = id_of k (cr_sha256 cx b)) rows = []"
    unfolding filter_empty_conv row_key_def image_iff by (metis (no_types))
  then show ?thesis using False by (simp only: try_map.simps if_False)
qed

lemma id_rows:
  assumes "rows_ok cx files w rows"
  shows "filter (\<lambda>r. or_object_id r = id_of k h) rows
     = filter (\<lambda>r. or_object_kind r = kind_str k \<and> or_object_id r = id_of k h) rows"
  using assms by (intro filter_cong) (auto simp: rows_ok_def list_all_iff row_ok_def)


section \<open>Inserting a row\<close>

lemma then_rows:
  assumes "try_map read_object_row (filter (\<lambda>r. or_object_kind r = kind_str k \<and> or_object_id r = i) (tb_objects (tables_of cn))) = Ok rows"
    and "\<And>cn'. tables_of cn' = tables_of cn \<Longrightarrow> post (f rows) cn' P"
    and "\<And>cn' m. tables_of cn' = tables_of cn \<Longrightarrow> P cn' (Err (Database m))"
  shows "post (then_do (object_rows_by_id k i) f) cn P"
  unfolding object_rows_by_id_def post_then query_def
  by (rule statement_post) (simp_all add: post_simps assms)

lemma then_rows_by_id:
  assumes "try_map read_object_row (filter (\<lambda>r. or_object_id r = i) (tb_objects (tables_of cn))) = Ok rows"
    and "\<And>cn'. tables_of cn' = tables_of cn \<Longrightarrow> post (f rows) cn' P"
    and "\<And>cn' m. tables_of cn' = tables_of cn \<Longrightarrow> P cn' (Err (Database m))"
  shows "post (then_do (object_rows_by_object_id i) f) cn P"
  unfolding object_rows_by_object_id_def post_then query_def
  by (rule statement_post) (simp_all add: post_simps assms)

text \<open>Failures other than a report of corruption.\<close>

definition not_corrupt :: "ServerError \<Rightarrow> bool" where
  "not_corrupt e \<longleftrightarrow> (\<forall>m. e \<noteq> StorageCorruption m)"

lemma not_corrupt_simps [simp]: "open_failure e \<Longrightarrow> not_corrupt e" "not_corrupt (IntegerOutOfRange m)"
  "\<not> not_corrupt (StorageCorruption m)" "not_corrupt BlobNotFound" "not_corrupt ManifestNotFound"
  by (auto simp: not_corrupt_def open_failure_def)

lemma insert_object_catalogue:
  assumes ok: "rows_ok cx files w (tb_objects (tables_of cn))"
    and b: "files (hash_path (workspace_id_str w) (hex_encode (cr_sha256 cx b))) = Some b"
  shows "post (insert_object_if_absent (catalogue_entry k (id_of k (cr_sha256 cx b)) b)) cn (\<lambda>cn' r.
     rows_ok cx files w (tb_objects (tables_of cn')) \<and> (\<forall>e. r = Err e \<longrightarrow> not_corrupt e))"
proof -
  let ?i = "id_of k (cr_sha256 cx b)" and ?rows = "tb_objects (tables_of cn)"
  let ?md = "catalogue_entry k ?i b"
  have valid: "validate_object_rows ?md [expected_row k b] = Ok ObjectExactExisting"
    by (simp add: validate_object_rows_def catalogue_entry_def expected_row_def)
  have md: "sm_kind ?md = k" "sm_object_id ?md = ?i" by (simp_all add: catalogue_entry_def)
  show ?thesis
    unfolding insert_object_if_absent_def md
  proof (intro then_lift, goal_cases)
    case (1 sz)
    then have sz: "sz = uint (word_of_nat (length b) :: u64)"
      by (auto simp: catalogue_entry_def to_i64_def split: if_splits)
    note rows = kind_rows[OF ok b, of k]
    show ?case
    proof (cases "(kind_str k, ?i) \<in> row_key ` set ?rows")
      case True
      show ?thesis
        by (rule then_rows[OF rows]) (simp_all add: True valid post_simps ok)
    next
      case False
      let ?row = "\<lambda>t. \<lparr>or_object_id = ?i, or_object_kind = kind_str k, or_hash_algorithm = OBJECT_HASH_ALGORITHM,
         or_encrypted_size = sz, or_created_at = now_i64 t\<rparr>"
      have new: "rows_ok cx files w (?rows @ [?row t])" for t
        using ok b False by (auto simp: rows_ok_def row_ok_def row_key_def sz)
      have insert: "sql_insert_object (?row t) tb = (tb\<lparr>tb_objects := ?rows @ [?row t]\<rparr>, 1)"
        if "tb_objects tb = ?rows" for t tb
        using False that by (auto simp: sql_insert_object_def list_ex_iff row_key_def image_iff)
      show ?thesis
      proof (rule then_rows[OF rows], goal_cases)
        case (1 cn1)
        then have r1: "tb_objects (tables_of cn1) = ?rows" by simp
        have none: "try_map read_object_row (filter (\<lambda>r. or_object_id r = ?i) (tb_objects (tables_of cn1))) = Ok []"
          using rows False unfolding r1 id_rows[OF ok] by simp
        show ?case
        proof (simp add: False, rule then_rows_by_id[OF none], goal_cases)
          case (1 cn2)
          then have r2: "tb_objects (tables_of cn2) = ?rows" using r1 by simp
          show ?case
          proof (simp, intro then_clock then_execute, goal_cases)
            case (1 cn3 t cn4)
            have "tb_objects (tables_of cn3) = ?rows" using 1(1) r2 by simp
            then have r4: "tb_objects (tables_of cn4) = ?rows @ [?row t]"
              using 1(2) insert[of "tables_of cn3" t] by simp
            have "(kind_str k, ?i) \<in> row_key ` set (?rows @ [?row t])" by (simp add: row_key_def)
            then have found: "try_map read_object_row (filter (\<lambda>r. or_object_kind r = kind_str k \<and> or_object_id r = ?i)
                (tb_objects (tables_of cn4))) = Ok [expected_row k b]"
              using kind_rows[OF new[of t] b, of k] unfolding r4 by simp
            show ?case
              by (rule then_rows[OF found]) (simp_all add: valid post_simps r4 new)
          next
            case (2 cn3 t cn4 e)
            then show ?case using ok r2 by simp
          qed
        qed (use ok r1 in simp)
      qed (use ok in simp)
    qed
  next
    case (2 e)
    then show ?case using ok by (auto simp: to_i64_def split: if_splits)
  qed
qed



section \<open>Database operations\<close>

text \<open>The other operations of the database leave the catalogue alone and do not report corruption.\<close>

abbreviation objects_of :: "Conn \<Rightarrow> ObjectRow list" where
  "objects_of cn \<equiv> tb_objects (tables_of cn)"

lemma keeps_objects: "keeps tables_of m \<Longrightarrow> keeps objects_of m"
  by (simp add: keeps_def post_def)

lemma keeps_objects_execute:
  assumes "\<And>t. tb_objects (fst (f t)) = tb_objects t"
  shows "keeps objects_of (execute f)"
  unfolding execute_def statement_def keeps_def post_def using assms
  by (auto simp: Let_def split: prod.splits list.splits option.splits) (metis fst_conv)+

lemma keeps_objects_undo: "keeps objects_of m \<Longrightarrow> keeps objects_of (\<lambda>cn. undo (cn_file cn) m cn)"
  unfolding keeps_def post_def undo_def by (auto split: prod.splits result.splits) (metis fst_conv)

lemmas keeps_objects_db = keeps_intros keeps_basic keeps_objects_execute keeps_objects_undo
  keeps_objects[OF keeps_control] keeps_objects[OF keeps_query] keeps_objects[OF keeps_clock]

lemma sql_objects [simp]:
  "tb_objects (fst (sql_insert_head row t)) = tb_objects t"
  "tb_objects (fst (sql_update_head row e t)) = tb_objects t"
  "tb_objects (fst (sql_insert_access arow t)) = tb_objects t"
  "tb_objects (fst (sql_upsert_access arow t)) = tb_objects t"
  "tb_objects (fst (sql_insert_envelope k b t)) = tb_objects t"
  "tb_objects (fst (sql_insert_join j jrow t)) = tb_objects t"
  "tb_objects (fst (sql_delete_join j t)) = tb_objects t"
  by (simp_all add: sql_insert_head_def sql_update_head_def sql_insert_access_def sql_upsert_access_def
      sql_insert_envelope_def sql_insert_join_def sql_delete_join_def split: option.split)

lemma keeps_objects_operations:
  "keeps objects_of (db_get_head de w)" "keeps objects_of (db_update_head de now w e m by)"
  "keeps objects_of (db_get_access_state cx de w)" "keeps objects_of (db_create_access_state cx de w s)"
  "keeps objects_of (db_save_access_state cx de w s)" "keeps objects_of (db_get_key_envelope k d)"
  "keeps objects_of (db_put_key_envelope k d b)" "keeps objects_of (db_submit_join_request de w q)"
  "keeps objects_of (db_list_join_requests de w)" "keeps objects_of (db_get_join_request de w j)"
  "keeps objects_of (db_remove_join_request j)"
  unfolding db_get_head_def db_update_head_def db_get_access_state_def db_create_access_state_def
    db_save_access_state_def db_get_key_envelope_def db_put_key_envelope_def db_submit_join_request_def
    db_list_join_requests_def db_get_join_request_def db_remove_join_request_def encode_access_def
    transaction_def Let_def
  by (auto intro!: keeps_objects_db split: option.split)


lemma read_head_not_corrupt: "read_head_row de w row = Err e \<Longrightarrow> not_corrupt e"
  by (auto simp: read_head_row_def read_head_def optional_def and_then_Err_iff to_u64_def not_corrupt_def
      split: option.splits if_splits)

lemma fails_only_transaction: "fails_only not_corrupt m \<Longrightarrow> fails_only not_corrupt (transaction m)"
  unfolding transaction_def control_def by (auto intro!: fails_only_intros simp: not_corrupt_def)

lemma validate_state_not_corrupt: "db_validate_state cx w s = Err e \<Longrightarrow> not_corrupt e"
  by (auto simp: db_validate_state_def not_corrupt_def split: if_splits)

lemma to_i64_not_corrupt: "to_i64 v f = Err e \<Longrightarrow> not_corrupt e"
  by (auto simp: to_i64_def split: if_splits)

lemma deserialize_not_corrupt: "deserialize_request de w b = Err e \<Longrightarrow> not_corrupt e"
  by (auto simp: deserialize_request_def validate_request_def and_then_Err_iff not_corrupt_def split: if_splits)

lemma encode_not_corrupt: "fails_only not_corrupt (encode_access cx de w s)"
  unfolding encode_access_def
  by (auto intro!: fails_only_intros dest!: validate_state_not_corrupt simp: not_corrupt_def)

lemma fails_not_corrupt:
  "fails_only not_corrupt (db_get_head de w)" "fails_only not_corrupt (db_update_head de now w e m by)"
  "fails_only not_corrupt (db_get_access_state cx de w)" "fails_only not_corrupt (db_create_access_state cx de w s)"
  "fails_only not_corrupt (db_save_access_state cx de w s)" "fails_only not_corrupt (db_get_key_envelope k d)"
  "fails_only not_corrupt (db_list_join_requests de w)" "fails_only not_corrupt (db_get_join_request de w j)"
  "fails_only not_corrupt (db_remove_join_request j)"
proof -
  show head: "fails_only not_corrupt (db_get_head de w)"
    unfolding db_get_head_def query_def by (auto intro!: fails_only_intros dest: read_head_not_corrupt)
  have "not_corrupt HeadRevisionOverflow" by (simp add: not_corrupt_def)
  then show "fails_only not_corrupt (db_update_head de now w e m by)"
    unfolding db_update_head_def execute_def Let_def
    by (auto intro!: fails_only_intros fails_only_transaction head dest: to_i64_not_corrupt)
  show "fails_only not_corrupt (db_get_access_state cx de w)"
    unfolding db_get_access_state_def query_def
    by (auto intro!: fails_only_intros dest!: validate_state_not_corrupt simp: not_corrupt_def split: option.split)
  show "fails_only not_corrupt (db_create_access_state cx de w s)" "fails_only not_corrupt (db_save_access_state cx de w s)"
    unfolding db_create_access_state_def db_save_access_state_def execute_def
    by (auto intro!: fails_only_intros encode_not_corrupt simp: not_corrupt_def)
  show "fails_only not_corrupt (db_get_key_envelope k d)" "fails_only not_corrupt (db_remove_join_request j)"
    unfolding db_get_key_envelope_def db_remove_join_request_def query_def execute_def by (auto intro!: fails_only_intros)
  show "fails_only not_corrupt (db_list_join_requests de w)"
    unfolding db_list_join_requests_def query_def
    by (auto intro!: fails_only_intros dest!: try_map_Err dest: deserialize_not_corrupt)
  show "fails_only not_corrupt (db_get_join_request de w j)"
    unfolding db_get_join_request_def query_def
    by (auto intro!: fails_only_intros simp: optional_def and_then_Err_iff dest: deserialize_not_corrupt split: option.splits)
qed

lemma put_envelope_not_corrupt: "fails_only not_corrupt (db_put_key_envelope k d b)"
  unfolding fails_only_def
proof
  fix cn
  show "post (db_put_key_envelope k d b) cn (\<lambda>_ r. \<forall>e. r = Err e \<longrightarrow> not_corrupt e)"
    unfolding db_put_key_envelope_def
  proof (rule then_execute, goal_cases)
    case (1 cn')
    then have "map_of (tb_key_envelopes (tables_of cn')) (key_id_str k, device_id_str d) \<noteq> None"
      if "snd (sql_insert_envelope (key_id_str k, device_id_str d) b (tables_of cn)) \<noteq> 1"
      using that by (auto simp: sql_insert_envelope_def split: option.splits)
    then show ?case
      unfolding post_if by (auto simp: post_simps(1)) (rule then_query; auto simp: post_simps not_corrupt_def)
  qed simp
qed

lemma submit_not_corrupt:
  assumes codec: "codec_ok (de_json de)" and ok: "tables_ok cx de w (tables_of cn)"
  shows "post (db_submit_join_request de w q) cn (\<lambda>_ r. \<forall>e. r = Err e \<longrightarrow> not_corrupt e)"
proof -
  let ?j = "join_request_id_str (jr_request_id q)"
  have stored: "\<exists>q'. js_join_from_slice (de_json de) (jw_request_json row) = Ok q'"
    if "map_of (tb_join_requests (tables_of cn)) ?j = Some row" for row
    using map_of_SomeD[OF that] ok by (force simp: tables_ok_def list_all_iff join_row_ok_def)
  show ?thesis unfolding db_submit_join_request_def Let_def
  proof (intro then_lift then_execute, goal_cases)
    case (1 a b' c cn')
    show ?case
    proof (cases "map_of (tb_join_requests (tables_of cn)) ?j")
      case None
      then show ?thesis by (simp add: sql_insert_join_def post_simps)
    next
      case (Some row)
      then have same: "tables_of cn' = tables_of cn" using 1 by (simp add: sql_insert_join_def)
      obtain q' where q': "js_join_from_slice (de_json de) (jw_request_json row) = Ok q'" using stored[OF Some] by blast
      show ?thesis using Some
        by (simp add: sql_insert_join_def)
           (rule then_query; auto simp: same q' post_simps validate_request_def not_corrupt_def)
    qed
  qed (auto simp: validate_request_def not_corrupt_def to_i64_def split: if_splits)
qed



section \<open>The operations of the back end\<close>

text \<open>An outcome that agrees with the catalogue invariant: the same files, a good catalogue, no
  report of corruption.\<close>

definition sound_outcome :: "crypto \<Rightarrow> Indexed \<Rightarrow> Indexed \<Rightarrow> 'a server_result \<Rightarrow> bool" where
  "sound_outcome cx ix ix' r \<longleftrightarrow> seen (ix_fs ix') = seen (ix_fs ix) \<and> catalogue_ok cx ix' \<and> (\<forall>e. r = Err e \<longrightarrow> not_corrupt e)"

lemma catalogue_rows: "catalogue_ok cx ix \<Longrightarrow> rows_ok cx (visible (ix_fs ix)) w (tb_objects (tables ix w))"
  by (simp add: catalogue_ok_def)

lemma with_db_sound:
  assumes env: "create_ok de" and ok: "catalogue_ok cx ix"
    and run: "\<And>cn. tables_of cn = tables ix w \<Longrightarrow> post m cn (\<lambda>cn' r.
        rows_ok cx (visible (ix_fs ix)) w (objects_of cn') \<and> (\<forall>e. r = Err e \<longrightarrow> not_corrupt e))"
  shows "post (with_db de w m) ix (sound_outcome cx ix)"
proof (rule post_mono[OF with_db_post[OF env, where Q = "\<lambda>t r. rows_ok cx (visible (ix_fs ix)) w (tb_objects t)
    \<and> (\<forall>e. r = Err e \<longrightarrow> not_corrupt e)"]], goal_cases)
  case (1 cn)
  then show ?case by (rule run)
next
  case (2 e)
  then show ?case using catalogue_rows[OF ok] by simp
next
  case (3 ix' r)
  then show ?case using ok by (auto simp: sound_outcome_def catalogue_ok_def seen_def)
qed

lemma with_db_sound_other:
  assumes env: "create_ok de" and ok: "catalogue_ok cx ix" and keeps: "keeps objects_of m"
    and fails: "\<And>cn. tables_of cn = tables ix w \<Longrightarrow> post m cn (\<lambda>_ r. \<forall>e. r = Err e \<longrightarrow> not_corrupt e)"
  shows "post (with_db de w m) ix (sound_outcome cx ix)"
proof (rule with_db_sound[OF env ok])
  fix cn assume cn: "tables_of cn = tables ix w"
  have "post m cn (\<lambda>cn' r. objects_of cn' = objects_of cn)" using keeps by (simp add: keeps_def)
  then show "post m cn (\<lambda>cn' r. rows_ok cx (visible (ix_fs ix)) w (objects_of cn') \<and> (\<forall>e. r = Err e \<longrightarrow> not_corrupt e))"
    using fails[OF cn] catalogue_rows[OF ok, of w] by (simp add: post_def cn)
qed

lemma with_db_sound_fails:
  "create_ok de \<Longrightarrow> catalogue_ok cx ix \<Longrightarrow> keeps objects_of m \<Longrightarrow> fails_only not_corrupt m \<Longrightarrow>
   post (with_db de w m) ix (sound_outcome cx ix)"
  by (rule with_db_sound_other) (simp_all add: fails_only_def)

text \<open>Recording an object whose file is there.\<close>

lemma catalogue_sound:
  assumes env: "create_ok de" and ok: "catalogue_ok cx ix"
    and b: "visible (ix_fs ix) (hash_path (workspace_id_str w) (hex_encode (cr_sha256 cx b))) = Some b"
  shows "post (with_db de w (insert_object_if_absent (catalogue_entry k (id_of k (cr_sha256 cx b)) b))) ix (sound_outcome cx ix)"
proof (rule with_db_sound[OF env ok])
  fix cn assume "tables_of cn = tables ix w"
  then show "post (insert_object_if_absent (catalogue_entry k (id_of k (cr_sha256 cx b)) b)) cn (\<lambda>cn' r.
      rows_ok cx (visible (ix_fs ix)) w (objects_of cn') \<and> (\<forall>e. r = Err e \<longrightarrow> not_corrupt e))"
    using insert_object_catalogue[of cx "visible (ix_fs ix)" w cn b k] catalogue_rows[OF ok, of w] b by simp
qed

text \<open>Looking for the row of an object whose file is missing.\<close>

lemma rows_missing:
  assumes ok: "rows_ok cx files w rows" and none: "files (hash_path (workspace_id_str w) (hex_encode h)) = None"
  shows "filter (\<lambda>r. or_object_id r = id_of k h) rows = []"
  using assms unfolding rows_ok_def list_all_iff filter_empty_conv row_ok_def
  by (metis id_of_inj option.distinct(1))

lemma metadata_missing:
  assumes ok: "rows_ok cx files w (objects_of cn)" and none: "files (hash_path (workspace_id_str w) (hex_encode h)) = None"
  shows "post (get_object_metadata k (id_of k h)) cn (\<lambda>cn' r. rows_ok cx files w (objects_of cn') \<and> (r = Ok None \<or> (\<exists>m. r = Err (Database m))))"
proof -
  note empty = rows_missing[OF ok none, of k]
  have "filter (\<lambda>r. or_object_kind r = kind_str k \<and> or_object_id r = id_of k h) (objects_of cn) = []"
    using empty unfolding filter_empty_conv by blast
  then have "try_map read_object_row (filter (\<lambda>r. or_object_kind r = kind_str k \<and> or_object_id r = id_of k h) (objects_of cn)) = Ok []"
    by simp
  then show ?thesis unfolding get_object_metadata_def
  proof (rule then_rows, goal_cases)
    case (1 cn')
    then have "try_map read_object_row (filter (\<lambda>r. or_object_id r = id_of k h) (objects_of cn')) = Ok []"
      using empty by simp
    then show ?case using ok 1 by (simp, intro then_rows_by_id) (auto simp: post_simps)
  qed (use ok in simp)
qed

lemma report_missing_sound:
  assumes env: "create_ok de" and ok: "catalogue_ok cx ix"
    and none: "visible (ix_fs ix) (hash_path (workspace_id_str w) (hex_encode h)) = None"
  shows "post (report_missing_catalog_row de w k (id_of k h)) ix (sound_outcome cx ix)"
proof -
  let ?Q = "\<lambda>t r. rows_ok cx (visible (ix_fs ix)) w (tb_objects t) \<and> (r = Ok None \<or> (\<exists>e. r = Err e \<and> not_corrupt e))"
  have "post (with_db de w (get_object_metadata k (id_of k h))) ix (\<lambda>ix' r. sound_outcome cx ix ix' r \<and> (\<forall>a. r = Ok a \<longrightarrow> a = None))"
  proof (rule post_mono[OF with_db_post[OF env, where Q = ?Q]], goal_cases)
    case (1 cn)
    then show ?case
      by (intro post_mono[OF metadata_missing[where files = "visible (ix_fs ix)", OF _ none]]) (auto simp: catalogue_rows[OF ok] not_corrupt_def)
  next
    case (2 e)
    then show ?case using catalogue_rows[OF ok] by simp
  next
    case (3 ix' r)
    then show ?case using ok by (auto simp: sound_outcome_def catalogue_ok_def seen_def)
  qed
  then show ?thesis unfolding report_missing_catalog_row_def post_then
    by (rule post_mono) (auto simp: post_simps sound_outcome_def split: result.splits)
qed


lemma sound_trans: "sound_outcome cx ix ix1 r \<Longrightarrow> sound_outcome cx ix1 ix2 r' \<Longrightarrow> sound_outcome cx ix ix2 r'"
  by (simp add: sound_outcome_def)

lemma sound_then:
  assumes m: "post m ix (sound_outcome cx ix)"
    and k: "\<And>ix' a. sound_outcome cx ix ix' (Ok a) \<Longrightarrow> post (k a) ix' (sound_outcome cx ix')"
  shows "post (then_do m k) ix (sound_outcome cx ix)"
  unfolding post_then
proof (rule post_mono[OF m], goal_cases)
  case (1 ix1 r)
  show ?case
  proof (cases r)
    case (Ok a)
    then show ?thesis using 1 by (auto intro: post_mono[OF k] sound_trans)
  next
    case (Err e)
    then show ?thesis using 1 by (simp add: sound_outcome_def)
  qed
qed

lemma ix_read_sound:
  assumes ok: "catalogue_ok cx ix" and p: "\<not> hidden p"
  shows "post (ix_read p) ix (\<lambda>ix' r. sound_outcome cx ix ix' r \<and> (\<forall>b. r = Ok b \<longrightarrow> b = visible (ix_fs ix) p))"
  unfolding ix_read_def
  by (rule on_fs_post) (use ok in \<open>auto simp: post_simps sound_outcome_def catalogue_ok_def seen_def not_corrupt_def
      intro!: post_mono[OF read_post[OF p]] split: result.splits\<close>)

lemma sound_return [simp]:
  "sound_outcome cx ix ix (Ok a) \<longleftrightarrow> catalogue_ok cx ix"
  "sound_outcome cx ix ix (Err e) \<longleftrightarrow> catalogue_ok cx ix \<and> not_corrupt e"
  by (auto simp: sound_outcome_def)

lemma sound_ok: "sound_outcome cx ix ix' r \<Longrightarrow> catalogue_ok cx ix' \<and> seen (ix_fs ix') = seen (ix_fs ix)"
  by (simp add: sound_outcome_def)

lemma backfill_sound:
  assumes env: "create_ok de" and ok: "catalogue_ok cx ix" "objects_ok cx (visible (ix_fs ix))"
    and b: "visible (ix_fs ix) (ix_object_path w k (id_of k h)) = Some b"
  shows "post (verify_backfill cx de w k (id_of k h) b) ix (sound_outcome cx ix)"
proof -
  have h: "cr_sha256 cx b = h" using ok(2) b by (simp add: objects_ok_def id_of_path)
  then show ?thesis using catalogue_sound[OF env ok(1), of w b k] b unfolding verify_backfill_def id_of_path id_of_match
    by (auto simp: post_simps(2) intro!: sound_then) (simp_all add: post_simps sound_outcome_def)
qed

text \<open>Reading an object, or asking whether it is there.\<close>

lemma object_lookup_sound:
  assumes env: "create_ok de" and ok: "catalogue_ok cx ix" "objects_ok cx (visible (ix_fs ix))"
    and p: "\<not> hidden (ix_object_path w k (id_of k h))"
    and found: "\<And>ix' b. catalogue_ok cx ix' \<Longrightarrow> post (found b) ix' (sound_outcome cx ix')"
    and missing: "\<And>ix'. catalogue_ok cx ix' \<Longrightarrow> post missing ix' (sound_outcome cx ix')"
  shows "post (then_do (ix_read (ix_object_path w k (id_of k h))) (\<lambda>r. case r of
       None \<Rightarrow> then_do (report_missing_catalog_row de w k (id_of k h)) (\<lambda>_. missing)
     | Some b \<Rightarrow> then_do (verify_backfill cx de w k (id_of k h) b) (\<lambda>_. found b))) ix (sound_outcome cx ix)"
  unfolding post_then[of "ix_read _"]
proof (rule post_mono[OF ix_read_sound[OF ok(1) p]], goal_cases)
  case (1 ix1 r)
  then have ok1: "catalogue_ok cx ix1" and vis: "visible (ix_fs ix1) = visible (ix_fs ix)"
    by (auto simp: sound_outcome_def seen_def)
  show ?case
  proof (cases r)
    case (Err e)
    then show ?thesis using 1 by (simp add: sound_outcome_def)
  next
    case (Ok c)
    have "post (case c of None \<Rightarrow> then_do (report_missing_catalog_row de w k (id_of k h)) (\<lambda>_. missing)
     | Some b \<Rightarrow> then_do (verify_backfill cx de w k (id_of k h) b) (\<lambda>_. found b)) ix1 (sound_outcome cx ix1)"
    proof (cases c)
      case None
      then have "visible (ix_fs ix1) (hash_path (workspace_id_str w) (hex_encode h)) = None"
        using 1 Ok by (simp add: vis id_of_path)
      then show ?thesis unfolding None option.case
        by (intro sound_then report_missing_sound[OF env ok1] missing) (simp_all add: sound_outcome_def)
    next
      case (Some b)
      then have "visible (ix_fs ix1) (ix_object_path w k (id_of k h)) = Some b" using 1 Ok by (simp add: vis)
      then show ?thesis unfolding Some option.case using ok(2)
        by (intro sound_then backfill_sound[OF env ok1] found) (simp_all add: sound_outcome_def vis)
    qed
    then show ?thesis using 1 Ok by (auto intro: post_mono sound_trans)
  qed
qed


lemma object_operations_sound:
  assumes inv: "ix_inv cx de ix" and ok: "catalogue_ok cx ix" and h: "length h = 32"
  shows "not_corrupt missing \<Longrightarrow> post (get_object cx de w k (id_of k h) missing) ix (sound_outcome cx ix)"
    and "post (exists_object cx de w k (id_of k h)) ix (sound_outcome cx ix)"
  unfolding get_object_def exists_object_def
  by (rule object_lookup_sound[OF ix_invD(1)[OF inv] ok ix_invD(5)[OF inv] visible_object[OF h]];
      simp add: post_simps)+

text \<open>Storing an object: its file appears, if it was missing, and its row.  Corruption is reported when
  another content of the same hash is stored, and only then.\<close>

lemma fails_io: "fails_only not_corrupt (st_io m)"
  by (auto simp: fails_only_def st_io_def post_map_error) (auto simp: post_def not_corrupt_def)

lemma fails_only_match_any: "(\<And>r. fails_only P (k r)) \<Longrightarrow> fails_only P (match_do m k)"
  by (simp add: fails_only_def post_match) (simp add: post_def)

lemma read_canonical_fails: "fails_only not_corrupt (read_canonical pid p b)"
  unfolding read_canonical_def
  by (intro fails_only_match_any) (auto intro!: fails_only_intros fails_io simp: not_corrupt_def split: result.split)

lemma put_object_sound:
  assumes inv: "ix_inv cx de ix" and ok: "catalogue_ok cx ix"
  shows "post (put_object cx de pid w k (id_of k (cr_sha256 cx b)) b) ix (\<lambda>ix' r.
     catalogue_ok cx ix'
     \<and> (vw_object (ix_view de ix) w (cr_sha256 cx b) \<in> {None, Some b} \<longrightarrow> (\<forall>e. r = Err e \<longrightarrow> not_corrupt e)))"
proof -
  let ?p = "hash_path (workspace_id_str w) (hex_encode (cr_sha256 cx b))"
  note p = sha_hidden[OF ix_invD(3)[OF inv]]
  note io = read_canonical_fails[of pid ?p b]
  have read: "post (read_canonical pid ?p b) (ix_fs ix) (\<lambda>fs r.
    ((seen fs = seen (ix_fs ix) \<or> visible (ix_fs ix) ?p = None \<and> seen fs = (True, (visible (ix_fs ix))(?p \<mapsto> b)))
     \<and> (\<forall>c. r = Ok c \<longrightarrow> visible fs ?p = Some c)) \<and> (\<forall>e. r = Err e \<longrightarrow> not_corrupt e))"
    using post_conj[OF read_canonical_post[OF ix_invD(4)[OF inv] p] io[unfolded fails_only_def, rule_format]] .
  show ?thesis
    unfolding put_object_def id_of_path post_then[of "on_fs _"]
  proof (rule on_fs_post, rule post_mono[OF read], goal_cases)
    case (1 fs r)
    let ?ix = "ix\<lparr>ix_fs := fs\<rparr>"
    have "rows_ok cx (visible fs) w' (tb_objects (tables ix w'))" for w'
      by (rule rows_ok_more[OF catalogue_rows[OF ok]]) (use 1 in \<open>auto simp: seen_def split: if_splits\<close>)
    then have ok1: "catalogue_ok cx ?ix" by (simp add: catalogue_ok_def)
    show ?case
    proof (cases r)
      case (Err e)
      then show ?thesis using ok1 1 by simp
    next
      case (Ok c)
      have there: "visible fs ?p = Some c" using 1 Ok by blast
      show ?thesis
      proof (cases "c = b")
        case True
        have "post (with_db de w (insert_object_if_absent (catalogue_entry k (id_of k (cr_sha256 cx b)) b))) ?ix (sound_outcome cx ?ix)"
          by (rule catalogue_sound[OF ix_invD(1)[OF inv] ok1]) (use there True in simp)
        then have "post (then_do (with_db de w (insert_object_if_absent (catalogue_entry k (id_of k (cr_sha256 cx b)) c)))
            (\<lambda>row. done_with (if row = ObjectInserted then PutCreated else PutAlreadyExists))) ?ix (sound_outcome cx ?ix)"
          unfolding True by (rule sound_then) (simp add: post_simps sound_outcome_def)
        then show ?thesis using Ok True
          by (simp add: id_of_match) (auto intro: post_mono simp: sound_outcome_def)
      next
        case False
        have "visible (ix_fs ix) ?p \<notin> {None, Some b}"
          using False there 1 by (auto simp: seen_def)
        then show ?thesis using Ok False ok1 by (simp add: post_simps(2) ix_view_def view_from_def)
      qed
    qed
  qed
qed



section \<open>Every operation keeps the catalogue\<close>

definition ix_good :: "crypto \<Rightarrow> db_env \<Rightarrow> Indexed \<Rightarrow> bool" where
  "ix_good cx de ix \<longleftrightarrow> ix_inv cx de ix \<and> catalogue_ok cx ix"

lemma ix_goodD:
  assumes "ix_good cx de ix"
  shows "ix_inv cx de ix" "catalogue_ok cx ix" "create_ok de" "codec_ok (de_json de)" "tables_ok cx de w (tables ix w)"
  using assms ix_invD[of cx de ix] by (simp_all add: ix_good_def)

lemma same_stores_catalogue: "same_stores ix ix' \<Longrightarrow> catalogue_ok cx ix' = catalogue_ok cx ix"
  by (auto simp: same_stores_def catalogue_ok_def seen_def)

lemma get_existing_post:
  assumes "create_ok de"
  shows "post (get_existing de w) ix (\<lambda>ix' r. same_stores ix ix' \<and> (case r of
     Ok found \<Rightarrow> (\<forall>p. found = Some p \<longrightarrow> p = workspace_state_path (workspace_id_str w)) | Err e \<Rightarrow> open_failure e))"
proof (cases "w \<in> set (ix_databases ix)")
  case True
  then show ?thesis by (simp add: get_existing_def post_def)
next
  case False
  let ?p = "workspace_state_path (workspace_id_str w)"
  let ?m = "then_do (db_file_exists ?p) (\<lambda>present. if \<not> present then done_with None
      else then_do (get_or_open de w) (\<lambda>p. done_with (Some p)))"
  have run: "get_existing de w ix = ?m ix" using False by (simp add: get_existing_def)
  have exists: "post (db_file_exists ?p) ix (\<lambda>ix' r. same_stores ix ix' \<and> (\<forall>e. r = Err e \<longrightarrow> open_failure e))"
    by (auto simp: db_file_exists_def post_def same_stores_def split: list.splits option.splits)
  show ?thesis
    by (rule post_run[where m = "get_existing de w" and m' = ?m and s = ix, OF run], unfold post_then, rule post_mono[OF exists])
       (auto simp: post_simps intro!: post_mono[OF get_or_open_post[OF assms]] intro: same_stores_trans split: result.splits)
qed

lemma on_db_sound_fails:
  assumes ok: "catalogue_ok cx ix" and keeps: "keeps objects_of m" and fails: "fails_only not_corrupt m"
  shows "post (on_db (workspace_state_path (workspace_id_str w)) m) ix (sound_outcome cx ix)"
proof (rule post_mono[OF on_db_post[where Q = "\<lambda>t r. tb_objects t = tb_objects (tables ix w) \<and> (\<forall>e. r = Err e \<longrightarrow> not_corrupt e)"]], goal_cases)
  case (1 cn)
  then show ?case using keeps fails by (auto simp: keeps_def fails_only_def post_def)
next
  case (3 ix' r)
  then show ?case using ok by (auto simp: sound_outcome_def catalogue_ok_def seen_def)
qed simp_all

lemma get_access_state_sound:
  assumes "ix_good cx de ix"
  shows "post (ix_get_access_state cx de w) ix (sound_outcome cx ix)"
  unfolding ix_get_access_state_def post_then
proof (rule post_mono[OF get_existing_post[OF ix_goodD(3)[OF assms]]], goal_cases)
  case (1 ix1 r)
  then have ok: "catalogue_ok cx ix1" and files: "seen (ix_fs ix1) = seen (ix_fs ix)"
    using same_stores_catalogue[of ix ix1 cx] ix_goodD(2)[OF assms] by (simp_all add: same_stores_def)
  show ?case
  proof (cases r)
    case (Ok found)
    have "post (on_db (workspace_state_path (workspace_id_str w)) (db_get_access_state cx de w)) ix1 (sound_outcome cx ix1)"
      by (rule on_db_sound_fails[OF ok]) (rule keeps_objects_operations fails_not_corrupt)+
    then have "post (on_db (workspace_state_path (workspace_id_str w)) (db_get_access_state cx de w)) ix1 (sound_outcome cx ix)"
      by (rule post_mono) (simp add: sound_outcome_def files)
    then show ?thesis using 1 Ok ok files
      by (cases found) (simp_all add: post_simps(1) sound_outcome_def)
  next
    case (Err e)
    then show ?thesis using 1 ok files by (simp add: sound_outcome_def)
  qed
qed

lemma db_operations_sound:
  assumes good: "ix_good cx de ix"
  shows "post (ix_put_key_envelope de w k d b) ix (sound_outcome cx ix)"
    "post (ix_get_key_envelope de w k d) ix (sound_outcome cx ix)"
    "post (ix_create_access_state cx de w s) ix (sound_outcome cx ix)"
    "post (ix_save_access_state cx de w s) ix (sound_outcome cx ix)"
    "post (ix_list_join_requests de w) ix (sound_outcome cx ix)"
    "post (ix_get_join_request de w j) ix (sound_outcome cx ix)"
    "post (ix_remove_join_request de w j) ix (sound_outcome cx ix)"
    "post (with_db de w (db_get_head de w)) ix (sound_outcome cx ix)"
    "post (with_db de w (db_update_head de now w e m by)) ix (sound_outcome cx ix)"
  unfolding ix_put_key_envelope_def ix_get_key_envelope_def ix_create_access_state_def ix_save_access_state_def
    ix_list_join_requests_def ix_get_join_request_def ix_remove_join_request_def
  by (rule with_db_sound_fails[OF ix_goodD(3,2)[OF good]], rule keeps_objects_operations,
      rule fails_not_corrupt put_envelope_not_corrupt)+

lemma submit_join_sound:
  assumes good: "ix_good cx de ix"
  shows "post (ix_submit_join_request de w q) ix (sound_outcome cx ix)"
  unfolding ix_submit_join_request_def
proof (rule with_db_sound_other[OF ix_goodD(3,2)[OF good]])
  show "keeps objects_of (db_submit_join_request de w q)" by (rule keeps_objects_operations)
  fix cn assume "tables_of cn = tables ix w"
  then show "post (db_submit_join_request de w q) cn (\<lambda>_ r. \<forall>e. r = Err e \<longrightarrow> not_corrupt e)"
    using submit_not_corrupt[OF ix_goodD(4)[OF good], of cx w cn q] ix_goodD(5)[OF good, of w] by simp
qed


lemma head_manifest_ok: "read_head_row de w row = Ok h \<Longrightarrow> wh_manifest_id h = Some m \<Longrightarrow> manifest_id_ok m"
  by (auto simp: read_head_row_def read_head_def head_empty_def optional_def split: option.splits)

lemma get_head_row_post:
  assumes good: "ix_good cx de ix"
  shows "post (with_db de w (db_get_head de w)) ix (\<lambda>ix' r. same_stores ix ix' \<and> (\<forall>e. r = Err e \<longrightarrow> not_corrupt e)
    \<and> (\<forall>h m. r = Ok h \<longrightarrow> wh_manifest_id h = Some m \<longrightarrow> manifest_id_ok m))"
proof -
  let ?Q = "\<lambda>t r. t = tables ix w \<and> (\<forall>h. r = Ok h \<longrightarrow> read_head_row de w (tb_workspace_head (tables ix w)) = Ok h)"
  have "post (with_db de w (db_get_head de w)) ix (\<lambda>ix' r. seen (ix_fs ix') = seen (ix_fs ix)
     \<and> (\<exists>t. tables ix' = (tables ix)(w := t) \<and> ?Q t r))"
  proof (rule with_db_post[OF ix_goodD(3)[OF good]])
    fix cn assume "tables_of cn = tables ix w"
    then show "post (db_get_head de w) cn (\<lambda>cn' r. ?Q (tables_of cn') r)"
      using db_get_head_post[of de w cn] by simp
  qed simp
  from post_conj[OF this db_operations_sound(8)[OF good, of w]] show ?thesis
    by (rule post_mono) (auto simp: same_stores_def sound_outcome_def dest: head_manifest_ok)
qed

lemma same_stores_good: "same_stores ix ix' \<Longrightarrow> ix_good cx de ix' = ix_good cx de ix"
  using same_stores_inv[of ix ix' cx de] same_stores_catalogue[of ix ix' cx] by (simp add: ix_good_def)

lemma ix_objects_sound:
  assumes good: "ix_good cx de ix" and h: "length h = 32"
  shows "post (ix_get_blob cx de w (blob_of_hash h)) ix (sound_outcome cx ix)"
    "post (ix_blob_exists cx de w (blob_of_hash h)) ix (sound_outcome cx ix)"
    "post (ix_get_manifest cx de w (manifest_of_hash h)) ix (sound_outcome cx ix)"
    "post (ix_manifest_exists cx de w (manifest_of_hash h)) ix (sound_outcome cx ix)"
  using object_operations_sound(1)[OF ix_goodD(1,2)[OF good] h, of BlobNotFound w StoredObjectKind.BlobKind]
    object_operations_sound(1)[OF ix_goodD(1,2)[OF good] h, of ManifestNotFound w StoredObjectKind.ManifestKind]
    object_operations_sound(2)[OF ix_goodD(1,2)[OF good] h, of w StoredObjectKind.BlobKind]
    object_operations_sound(2)[OF ix_goodD(1,2)[OF good] h, of w StoredObjectKind.ManifestKind]
  by (simp_all add: ix_get_blob_def ix_blob_exists_def ix_get_manifest_def ix_manifest_exists_def id_of_def)

lemma get_head_sound:
  assumes good: "ix_good cx de ix"
  shows "post (ix_get_head cx de w) ix (sound_outcome cx ix)"
  unfolding ix_get_head_def post_then
proof (rule post_mono[OF get_head_row_post[OF good]], goal_cases)
  case (1 ix1 r)
  then have good1: "ix_good cx de ix1" and files: "seen (ix_fs ix1) = seen (ix_fs ix)"
    using same_stores_good[of ix ix1 cx de] good by (simp_all add: same_stores_def)
  show ?case
  proof (cases r)
    case (Ok h)
    show ?thesis
    proof (cases "wh_manifest_id h")
      case None
      then show ?thesis using Ok files ix_goodD(2)[OF good1] by (simp add: post_simps sound_outcome_def)
    next
      case (Some m)
      then obtain mh where m: "m = manifest_of_hash mh" "length mh = 32" using 1 Ok manifest_id_ok_hash by blast
      have "post (then_do (ix_get_manifest cx de w m) (\<lambda>_. done_with h)) ix1 (sound_outcome cx ix1)"
        unfolding m(1) by (rule sound_then[OF ix_objects_sound(3)[OF good1 m(2)]]) (simp add: post_simps sound_outcome_def)
      then have "post (then_do (ix_get_manifest cx de w m) (\<lambda>_. done_with h)) ix1 (sound_outcome cx ix)"
        by (rule post_mono) (simp add: sound_outcome_def files)
      then show ?thesis by (simp add: Ok Some)
    qed
  qed (use 1 files ix_goodD(2)[OF good1] in \<open>simp add: sound_outcome_def\<close>)
qed

lemma update_head_sound:
  assumes good: "ix_good cx de ix" and h: "length mh = 32"
  shows "post (ix_update_head cx de now w e (manifest_of_hash mh) by) ix (sound_outcome cx ix)"
  unfolding ix_update_head_def
proof (rule sound_then[OF ix_objects_sound(4)[OF good h]])
  fix ix' and a :: bool assume "sound_outcome cx ix ix' (Ok a)"
  then have ok: "catalogue_ok cx ix'" by (simp add: sound_outcome_def)
  have "post (with_db de w (db_update_head de now w e (manifest_of_hash mh) by)) ix' (sound_outcome cx ix')"
    by (rule with_db_sound_fails[OF ix_goodD(3)[OF good] ok]) (rule keeps_objects_operations fails_not_corrupt)+
  then show "post (if \<not> a then fail_with ManifestNotFound else with_db de w (db_update_head de now w e (manifest_of_hash mh) by))
      ix' (sound_outcome cx ix')"
    using ok by (simp add: post_simps(2))
qed

lemma ix_put_sound:
  assumes good: "ix_good cx de ix"
  shows "post (ix_put_blob cx de pid w i b) ix (\<lambda>ix' r. catalogue_ok cx ix'
      \<and> (vw_object (ix_view de ix) w (cr_sha256 cx b) \<in> {None, Some b} \<longrightarrow> (\<forall>e. r = Err e \<longrightarrow> not_corrupt e)))"
    "post (ix_put_manifest cx de pid w m b) ix (\<lambda>ix' r. catalogue_ok cx ix'
      \<and> (vw_object (ix_view de ix) w (cr_sha256 cx b) \<in> {None, Some b} \<longrightarrow> (\<forall>e. r = Err e \<longrightarrow> not_corrupt e)))"
  using put_object_sound[OF ix_goodD(1,2)[OF good], of pid w StoredObjectKind.BlobKind b]
    put_object_sound[OF ix_goodD(1,2)[OF good], of pid w StoredObjectKind.ManifestKind b] ix_goodD(2)[OF good]
  by (auto simp: ix_put_blob_def ix_put_manifest_def id_of_def object_of_hash_content post_simps not_corrupt_def)


section \<open>The contract with the catalogue\<close>

lemma good_post:
  "post m ix (\<lambda>ix' r. ix_inv cx de ix' \<and> P ix' r) \<Longrightarrow> post m ix (\<lambda>ix' _. catalogue_ok cx ix') \<Longrightarrow>
   post m ix (\<lambda>ix' r. ix_good cx de ix' \<and> P ix' r)"
  by (simp add: post_def ix_good_def)

lemma sound_catalogue: "post m ix (sound_outcome cx ix) \<Longrightarrow> post m ix (\<lambda>ix' _. catalogue_ok cx ix')"
  by (simp add: post_def sound_outcome_def)

lemma ix_good_empty:
  "env_ok cx de \<Longrightarrow> fs_files (ix_fs ix) = [] \<Longrightarrow> ix_dbs ix = [] \<Longrightarrow> ix_good cx de ix"
  using ix_inv_empty[of cx de ix]
  by (simp add: ix_good_def catalogue_ok_def rows_ok_def tables_def empty_tables_def)


interpretation ix_kept: storage cx "indexed_storage cx de pid" "ix_view de" "ix_good cx de"
proof (unfold_locales, unfold indexed_storage_select, goal_cases)
  case (1 ix w h b) then show ?case using ix_objects_hashed[of cx de ix w h b] by (simp add: ix_good_def)
next
  case (2 ix w s) then show ?case using ix_access_valid[of cx de ix w s] by (simp add: ix_good_def)
next
  case (3 ix w j q) then show ?case using ix_joins_addressed[of cx de ix] by (simp add: ix_good_def)
next
  case (4 ix w i b)
  show ?case by (rule good_post[OF ix.put_blob[unfolded indexed_storage_select]])
     (use 4 ix_put_sound(1)[OF 4(1), of pid w i b] in \<open>simp_all add: ix_good_def post_def\<close>)
next
  case (5 ix w h)
  show ?case by (rule good_post[OF ix.get_blob[unfolded indexed_storage_select] sound_catalogue[OF ix_objects_sound(1)[OF 5(1,3)]]])
     (use 5 in \<open>simp_all add: ix_good_def\<close>)
next
  case (6 ix w h)
  show ?case by (rule good_post[OF ix.blob_exists[unfolded indexed_storage_select] sound_catalogue[OF ix_objects_sound(2)[OF 6(1,3)]]])
     (use 6 in \<open>simp_all add: ix_good_def\<close>)
next
  case (7 ix w m b)
  show ?case by (rule good_post[OF ix.put_manifest[unfolded indexed_storage_select]])
     (use 7 ix_put_sound(2)[OF 7(1), of pid w m b] in \<open>simp_all add: ix_good_def post_def\<close>)
next
  case (8 ix w h)
  show ?case by (rule good_post[OF ix.get_manifest[unfolded indexed_storage_select] sound_catalogue[OF ix_objects_sound(3)[OF 8(1,3)]]])
     (use 8 in \<open>simp_all add: ix_good_def\<close>)
next
  case (9 ix w h)
  show ?case by (rule good_post[OF ix.manifest_exists[unfolded indexed_storage_select] sound_catalogue[OF ix_objects_sound(4)[OF 9(1,3)]]])
     (use 9 in \<open>simp_all add: ix_good_def\<close>)
next
  case (10 ix w k d b)
  show ?case by (rule good_post[OF ix.put_key_envelope[unfolded indexed_storage_select] sound_catalogue[OF db_operations_sound(1)[OF 10(1)]]])
     (use 10 in \<open>simp_all add: ix_good_def\<close>)
next
  case (11 ix w k d)
  show ?case by (rule good_post[OF ix.get_key_envelope[unfolded indexed_storage_select] sound_catalogue[OF db_operations_sound(2)[OF 11(1)]]])
     (use 11 in \<open>simp_all add: ix_good_def\<close>)
next
  case (12 ix w)
  show ?case by (rule good_post[OF ix.get_head[unfolded indexed_storage_select] sound_catalogue[OF get_head_sound[OF 12(1)]]])
     (use 12 in \<open>simp_all add: ix_good_def\<close>)
next
  case (13 ix w mh t e d)
  show ?case by (rule good_post[OF ix.update_head[unfolded indexed_storage_select] sound_catalogue[OF update_head_sound[OF 13(1,3)]]])
     (use 13 in \<open>simp_all add: ix_good_def\<close>)
next
  case (14 ix w)
  show ?case by (rule good_post[OF ix.get_access_state[unfolded indexed_storage_select] sound_catalogue[OF get_access_state_sound[OF 14(1)]]])
     (use 14 in \<open>simp_all add: ix_good_def\<close>)
next
  case (15 ix w s)
  show ?case by (rule good_post[OF ix.create_access_state[unfolded indexed_storage_select] sound_catalogue[OF db_operations_sound(3)[OF 15(1)]]])
     (use 15 in \<open>simp_all add: ix_good_def\<close>)
next
  case (16 ix w s)
  show ?case by (rule good_post[OF ix.save_access_state[unfolded indexed_storage_select] sound_catalogue[OF db_operations_sound(4)[OF 16(1)]]])
     (use 16 in \<open>simp_all add: ix_good_def\<close>)
next
  case (17 ix w q)
  show ?case by (rule good_post[OF ix.submit_join_request[unfolded indexed_storage_select] sound_catalogue[OF submit_join_sound[OF 17(1)]]])
     (use 17 in \<open>simp_all add: ix_good_def\<close>)
next
  case (18 ix w)
  show ?case by (rule good_post[OF ix.list_join_requests[unfolded indexed_storage_select] sound_catalogue[OF db_operations_sound(5)[OF 18(1)]]])
     (use 18 in \<open>simp_all add: ix_good_def\<close>)
next
  case (19 ix w j)
  show ?case by (rule good_post[OF ix.get_join_request[unfolded indexed_storage_select] sound_catalogue[OF db_operations_sound(6)[OF 19(1)]]])
     (use 19 in \<open>simp_all add: ix_good_def\<close>)
next
  case (20 ix w j)
  show ?case by (rule good_post[OF ix.remove_join_request[unfolded indexed_storage_select] sound_catalogue[OF db_operations_sound(7)[OF 20(1)]]])
     (use 20 in \<open>simp_all add: ix_good_def\<close>)
qed

interpretation ix_api: service cx "indexed_storage cx de pid" "ix_view de" "ix_good cx de"
  by (rule service.intro[OF ix_kept.storage_axioms])

end
