(* ===== verification/Sqlite_Props.thy ===== *)
theory Sqlite_Props
  imports Indexed_Catalogue
begin

text \<open>
  Opening a database: which files are accepted, what opening leaves behind, and that it does nothing when
  it fails or has been done before.
\<close>

section \<open>A database of the first schema\<close>

definition definitions_ok :: "db_env \<Rightarrow> (string \<times> string \<times> string option) list \<Rightarrow> bool" where
  "definitions_ok de objects \<longleftrightarrow> list_all (\<lambda>(_, n, sql). case expected_object_sql n of None \<Rightarrow> False
     | Some expected \<Rightarrow> normalize_sql de (case sql of None \<Rightarrow> '''' | Some s \<Rightarrow> s) = normalize_sql de expected) objects"

definition columns_ok :: "DbFile \<Rightarrow> bool" where
  "columns_ok file \<longleftrightarrow> list_all (\<lambda>(table, expected). sql_table_info table file
     = map (\<lambda>(n, column_type, not_null, primary_key). (n, column_type, if not_null then 1 else 0, primary_key)) expected) V1_COLUMNS"

definition v1_schema :: "db_env \<Rightarrow> DbFile \<Rightarrow> bool" where
  "v1_schema de file \<longleftrightarrow> map (\<lambda>(object_type, n, _). (object_type, n)) (sql_schema_objects file) = sort V1_OBJECTS
     \<and> definitions_ok de (sql_schema_objects file) \<and> columns_ok file \<and> df_quick_check file = [''ok'']"

definition v1_database :: "db_env \<Rightarrow> DbFile \<Rightarrow> bool" where
  "v1_database de file \<longleftrightarrow> v1_schema de file \<and> map fst (df_versions file) = [LATEST_SCHEMA_VERSION]"

text \<open>A file without a schema has no migration history, and creating the schema writes none.\<close>

definition history_ok :: "db_env \<Rightarrow> DbFile \<Rightarrow> bool" where
  "history_ok de file \<longleftrightarrow> (\<forall>s f. df_versions (de_create de s f) = df_versions f)
     \<and> (sql_schema_objects file = [] \<longrightarrow> df_versions file = [])"


section \<open>What the statements of opening do\<close>

text \<open>A statement that only reads succeeds with what it reads, or fails.\<close>

lemma then_read:
  assumes "\<And>cn'. cn_file cn' = cn_file cn \<Longrightarrow> post (k (f (cn_file cn))) cn' P"
    and "\<And>cn' e. cn_file cn' = cn_file cn \<Longrightarrow> P cn' (Err (Database e))"
  shows "post (then_do (statement (\<lambda>file. (file, f file))) k) cn P"
  unfolding post_then by (rule statement_post) (simp_all add: assms)

lemma then_lift_Ok: "then_do (lift_result (Ok a)) k = k a"
  by (simp add: then_do_def lift_result_def fun_eq_iff)

text \<open>Without failures a statement runs.\<close>

lemma statement_runs:
  "cn_faults cn = [] \<Longrightarrow> statement run cn = (cn\<lparr>cn_file := fst (run (cn_file cn))\<rparr>, Ok (snd (run (cn_file cn))))"
  by (simp add: statement_def Let_def split: prod.splits)

lemma definitions_ok_iff: "try_for (validate_definition de) objects = Ok () \<longleftrightarrow> definitions_ok de objects"
proof -
  have "validate_definition de x = Ok () \<longleftrightarrow> (case x of (_, n, sql) \<Rightarrow> (case expected_object_sql n of None \<Rightarrow> False
      | Some expected \<Rightarrow> normalize_sql de (case sql of None \<Rightarrow> '''' | Some s \<Rightarrow> s) = normalize_sql de expected))" for x
    by (cases x; cases "expected_object_sql (fst (snd x))") (simp_all add: validate_definition_def)
  then show ?thesis by (simp add: definitions_ok_def list_all_iff)
qed

lemma columns_post:
  "post (validate_columns cs) cn (\<lambda>cn' r. cn_file cn' = cn_file cn \<and> (r = Ok () \<longrightarrow>
     list_all (\<lambda>(table, expected). sql_table_info table (cn_file cn)
       = map (\<lambda>(n, column_type, not_null, primary_key). (n, column_type, if not_null then 1 else 0, primary_key)) expected) cs))"
proof (induction cs arbitrary: cn rule: validate_columns.induct)
  case (2 table expected rest)
  show ?case unfolding validate_columns.simps
  proof (rule then_read, goal_cases)
    case (1 cn')
    show ?case
    proof (cases "sql_table_info table (cn_file cn) = map (\<lambda>(n, column_type, not_null, primary_key).
        (n, column_type, if not_null then 1 else 0, primary_key)) expected")
      case True
      have "post (validate_columns rest) cn' (\<lambda>cn'' r. cn_file cn'' = cn_file cn' \<and> (r = Ok () \<longrightarrow>
          list_all (\<lambda>(table, expected). sql_table_info table (cn_file cn')
            = map (\<lambda>(n, column_type, not_null, primary_key). (n, column_type, if not_null then 1 else 0, primary_key)) expected) rest))"
        by (rule 2[of "sql_table_info table (cn_file cn)"]) (simp add: True)
      then show ?thesis unfolding 1 using True by simp
    qed (use 1 in \<open>simp add: post_simps\<close>)
  qed simp
qed (simp add: post_simps)

lemma validate_post:
  "post (validate_v1_schema de objects) cn (\<lambda>cn' r. cn_file cn' = cn_file cn \<and>
     (r = Ok () \<longrightarrow> objects = sql_schema_objects (cn_file cn) \<longrightarrow> v1_schema de (cn_file cn)))"
proof (cases "map (\<lambda>(object_type, n, _). (object_type, n)) objects = sort V1_OBJECTS \<and> definitions_ok de objects")
  case True
  then have checked: "try_for (validate_definition de) objects = Ok ()" by (simp only: definitions_ok_iff)
  have "post (then_do (validate_columns V1_COLUMNS) (\<lambda>_. then_do (statement (\<lambda>file. (file, df_quick_check file))) (\<lambda>quick_check.
      if quick_check \<noteq> [''ok''] then fail_with (corrupt (''SQLite quick_check failed: '' @ join_with ''; '' quick_check))
      else done_with ()))) cn (\<lambda>cn' r. cn_file cn' = cn_file cn \<and> (r = Ok () \<longrightarrow> columns_ok (cn_file cn) \<and> df_quick_check (cn_file cn) = [''ok'']))"
    unfolding post_then[of "validate_columns _"]
  proof (rule post_mono[OF columns_post], goal_cases)
    case (1 cn' r)
    then show ?case
      by (cases r) (auto simp: columns_ok_def[symmetric] post_simps(2) intro!: then_read split del: if_split, auto simp: post_simps columns_ok_def)
  qed
  then show ?thesis using True unfolding validate_v1_schema_def checked then_lift_Ok
    by (simp only: if_not_P refl if_False simp_thms) (erule post_mono, auto simp: v1_schema_def)
next
  case False
  then have "map (\<lambda>(object_type, n, _). (object_type, n)) objects = sort V1_OBJECTS \<Longrightarrow>
      \<exists>e. try_for (validate_definition de) objects = Err e"
    using definitions_ok_iff[of de objects] by (cases "try_for (validate_definition de) objects") auto
  then show ?thesis unfolding validate_v1_schema_def by (auto simp: post_simps)
qed


lemma create_schema_post:
  assumes "\<And>s f. df_versions (de_create de s f) = df_versions f"
  shows "post (create_schema de ss) cn (\<lambda>cn' _. df_versions (cn_file cn') = df_versions (cn_file cn))"
proof (induction ss arbitrary: cn)
  case (Cons s ss)
  show ?case unfolding create_schema.simps post_then
  proof (rule statement_post, goal_cases)
    case (1 cn')
    then have "df_versions (cn_file cn') = df_versions (cn_file cn)" by (simp add: assms)
    then show ?case using Cons[of cn'] by simp
  qed simp
qed (simp add: post_simps)

lemma record_migration_post:
  "post record_migration cn (\<lambda>cn' r. (\<exists>t. cn_file cn' = (cn_file cn)\<lparr>df_versions := (1, t) # df_versions (cn_file cn)\<rparr>)
     \<or> (\<exists>e. r = Err e) \<and> cn_file cn' = cn_file cn)"
  unfolding record_migration_def post_then
  by (auto simp: read_clock_def post_def statement_def Let_def split: list.splits option.splits)

lemma v1_schema_versions [simp]: "v1_schema de (file\<lparr>df_versions := v\<rparr>) = v1_schema de file"
  by (simp add: v1_schema_def columns_ok_def sql_table_info_def sql_schema_objects_def)

lemma v1_tables: "v1_schema de file \<Longrightarrow> (''table'', ''schema_migrations'') \<in> (\<lambda>(object_type, n, _). (object_type, n)) ` set (sql_schema_objects file)"
proof -
  assume "v1_schema de file"
  then have "(\<lambda>(object_type, n, _). (object_type, n)) ` set (sql_schema_objects file) = set (sort V1_OBJECTS)"
    unfolding v1_schema_def by (metis list.set_map)
  then show ?thesis by (simp add: V1_OBJECTS_def)
qed

text \<open>Opening a file that has a migration table.\<close>

definition open_existing :: "db_env \<Rightarrow> (string \<times> string \<times> string option) list \<Rightarrow> unit db_action" where
  "open_existing de objects = then_do (statement (\<lambda>file. (file, sort (map fst (df_versions file))))) (\<lambda>versions.
       case find (\<lambda>v. v > LATEST_SCHEMA_VERSION) versions of
         Some found \<Rightarrow> fail_with (UnsupportedSchemaVersion found LATEST_SCHEMA_VERSION)
       | None \<Rightarrow> then_do (validate_v1_schema de objects) (\<lambda>_.
           if versions = [] then record_migration
           else if versions = [LATEST_SCHEMA_VERSION] then done_with ()
           else fail_with (corrupt ''invalid schema migration history'')))"

lemma sorted_one: "sort xs = [x] \<Longrightarrow> xs = [x]"
proof -
  assume one: "sort xs = [x]"
  then have "length xs = 1" using length_sort[of "\<lambda>v. v" xs] by simp
  then obtain y where "xs = [y]" by (auto simp: length_Suc_conv)
  then show "xs = [x]" using one by simp
qed

lemma open_existing_post:
  "post (open_existing de (sql_schema_objects (cn_file cn))) cn (\<lambda>cn' r. (r = Ok () \<longrightarrow> v1_database de (cn_file cn'))
     \<and> (v1_database de (cn_file cn) \<longrightarrow> cn_file cn' = cn_file cn))"
  unfolding open_existing_def
proof (rule then_read, goal_cases)
  case (1 cn1)
  let ?versions = "sort (map fst (df_versions (cn_file cn)))"
  show ?case
  proof (cases "find (\<lambda>v. v > LATEST_SCHEMA_VERSION) ?versions")
    case (Some found)
    then show ?thesis using 1 by (simp add: post_simps(2))
  next
    case None
    show ?thesis unfolding None option.case post_then[of "validate_v1_schema _ _"]
    proof (rule post_mono[OF validate_post], goal_cases)
      case (1 cn2 r)
      then have same: "cn_file cn2 = cn_file cn" using \<open>cn_file cn1 = cn_file cn\<close> by simp
      show ?case
      proof (cases r)
        case (Ok u)
        then have v1: "v1_schema de (cn_file cn)" using 1 \<open>cn_file cn1 = cn_file cn\<close> by simp
        consider "?versions = []" | "?versions = [LATEST_SCHEMA_VERSION]" | "?versions \<noteq> []" "?versions \<noteq> [LATEST_SCHEMA_VERSION]" by blast
        then show ?thesis
        proof cases
          case 1
          then have "map fst (df_versions (cn_file cn)) = []" using length_sort[of "\<lambda>v. v" "map fst (df_versions (cn_file cn))"] by simp
          then have "\<not> v1_database de (cn_file cn)" by (simp add: v1_database_def)
          then show ?thesis unfolding Ok result.case if_P[OF 1] using \<open>map fst (df_versions (cn_file cn)) = []\<close>
            by (intro post_mono[OF record_migration_post]) (auto simp: same v1 v1_database_def LATEST_SCHEMA_VERSION_def)
        next
          case 2
          then show ?thesis unfolding Ok result.case using sorted_one[OF 2] v1 same by (simp add: post_simps(1) v1_database_def)
        next
          case 3
          then show ?thesis unfolding Ok result.case using same by (simp add: post_simps(2) v1_database_def)
        qed
      qed (use same in simp)
    qed
  qed
qed simp

lemma migrate_body_post:
  assumes history: "history_ok de (cn_file cn)"
  shows "post (migrate_body de) cn (\<lambda>cn' r. (r = Ok () \<longrightarrow> v1_database de (cn_file cn'))
     \<and> (v1_database de (cn_file cn) \<longrightarrow> cn_file cn' = cn_file cn))"
  unfolding migrate_body_def schema_objects_def
proof (rule then_read, goal_cases)
  case (1 cn1)
  let ?objects = "sql_schema_objects (cn_file cn)"
  show ?case
  proof (cases "?objects = []")
    case True
    then have old: "\<not> v1_database de (cn_file cn)" using v1_tables[of de "cn_file cn"] by (auto simp: v1_database_def)
    have keep: "\<And>s f. df_versions (de_create de s f) = df_versions f" and none: "df_versions (cn_file cn1) = []"
      using history True 1 by (simp_all add: history_ok_def)
    show ?thesis unfolding if_P[OF True] post_then[of "create_schema _ _"]
    proof (rule post_mono[OF create_schema_post[OF keep]], goal_cases)
      case (1 cn2 r2)
      show ?case
      proof (cases r2)
        case (Ok u)
        show ?thesis unfolding Ok result.case post_then[of record_migration]
        proof (rule post_mono[OF record_migration_post], goal_cases)
          case (1 cn3 r3)
          show ?case
          proof (cases r3)
            case ok3: (Ok u)
            then obtain t where "cn_file cn3 = (cn_file cn2)\<lparr>df_versions := (1, t) # df_versions (cn_file cn2)\<rparr>"
              using 1 by auto
            then have v: "map fst (df_versions (cn_file cn3)) = [1]"
              using \<open>df_versions (cn_file cn2) = df_versions (cn_file cn1)\<close> none by simp
            show ?thesis unfolding ok3 result.case
            proof (rule then_read, goal_cases)
              case (1 cn4)
              show ?case
                by (rule post_mono[OF validate_post]) (use 1 old v in \<open>auto simp: v1_database_def LATEST_SCHEMA_VERSION_def\<close>)
            qed (use old in simp)
          qed (use old in simp)
        qed
      qed (use old in simp)
    qed
  next
    case False
    have "post (if \<not> list_ex (\<lambda>(object_type, n, _). object_type = ''table'' \<and> n = ''schema_migrations'') ?objects
        then validate_v1_schema de ?objects else open_existing de ?objects) cn1
       (\<lambda>cn' r. (r = Ok () \<longrightarrow> v1_database de (cn_file cn')) \<and> (v1_database de (cn_file cn) \<longrightarrow> cn_file cn' = cn_file cn))"
    proof (cases "list_ex (\<lambda>(object_type, n, _). object_type = ''table'' \<and> n = ''schema_migrations'') ?objects")
      case True
      then show ?thesis using open_existing_post[of de cn1] 1 by simp
    next
      case none: False
      have "\<not> v1_schema de (cn_file cn)" using v1_tables[of de "cn_file cn"] none by (auto simp: list_ex_iff)
      then show ?thesis using none by (simp, intro post_mono[OF validate_post]) (auto simp: 1 v1_database_def)
    qed
    then show ?thesis unfolding if_not_P[OF False] open_existing_def .
  qed
qed simp

text \<open>Opening as a whole: a failed opening is undone.\<close>

lemma migrate_post:
  assumes "history_ok de (cn_file cn)"
  shows "post (migrate de) cn (\<lambda>cn' r. (case r of Ok _ \<Rightarrow> v1_database de (cn_file cn') | Err _ \<Rightarrow> cn_file cn' = cn_file cn)
     \<and> (v1_database de (cn_file cn) \<longrightarrow> cn_file cn' = cn_file cn))"
  unfolding migrate_def post_then
proof (rule post_mono[OF control_post], goal_cases)
  case (1 cn1 r)
  let ?body = "match_do (migrate_body de) (\<lambda>r. case r of Ok _ \<Rightarrow> control | Err e \<Rightarrow> then_do control (\<lambda>_. fail_with e))"
  have body: "post ?body cn1 (\<lambda>cn' r. (r = Ok () \<longrightarrow> v1_database de (cn_file cn'))
     \<and> (v1_database de (cn_file cn) \<longrightarrow> cn_file cn' = cn_file cn))"
    unfolding post_match
  proof (rule post_mono[OF migrate_body_post], goal_cases)
    case (2 cn2 r2)
    then show ?case using 1
      by (cases r2) (auto simp: post_simps intro!: post_mono[OF control_post] split: result.splits)
  qed (use assms 1 in simp)
  have undone: "post (undo (cn_file cn1) ?body) cn1 (\<lambda>cn' r. (case r of Ok _ \<Rightarrow> v1_database de (cn_file cn') | Err _ \<Rightarrow> cn_file cn' = cn_file cn)
     \<and> (v1_database de (cn_file cn) \<longrightarrow> cn_file cn' = cn_file cn))"
    using body 1 by (auto simp: undo_def post_def split: prod.splits result.splits)
  show ?case
  proof (cases r)
    case (Ok u)
    then show ?thesis using undone by (simp add: post_def)
  qed (use 1 in simp)
qed

text \<open>Without failures.\<close>

lemma columns_run:
  "cn_faults cn = [] \<Longrightarrow> list_all (\<lambda>(table, expected). sql_table_info table (cn_file cn)
       = map (\<lambda>(n, column_type, not_null, primary_key). (n, column_type, if not_null then 1 else 0, primary_key)) expected) cs \<Longrightarrow>
   validate_columns cs cn = (cn, Ok ())"
  by (induction cs rule: validate_columns.induct) (simp_all add: done_with_def then_do_def statement_runs)

lemma validate_run:
  assumes "cn_faults cn = []" and "v1_schema de (cn_file cn)"
  shows "validate_v1_schema de (sql_schema_objects (cn_file cn)) cn = (cn, Ok ())"
proof -
  have checked: "try_for (validate_definition de) (sql_schema_objects (cn_file cn)) = Ok ()"
    using assms(2) by (simp only: definitions_ok_iff v1_schema_def)
  show ?thesis using assms columns_run[OF assms(1), of V1_COLUMNS]
    unfolding validate_v1_schema_def checked then_lift_Ok
    by (simp add: then_do_def statement_runs v1_schema_def columns_ok_def done_with_def)
qed

lemma migrate_body_table:
  assumes "cn_faults cn = []"
    and "(''table'', ''schema_migrations'') \<in> (\<lambda>(object_type, n, _). (object_type, n)) ` set (sql_schema_objects (cn_file cn))"
  shows "migrate_body de cn = open_existing de (sql_schema_objects (cn_file cn)) cn"
proof -
  have "sql_schema_objects (cn_file cn) \<noteq> []"
    "list_ex (\<lambda>(object_type, n, _). object_type = ''table'' \<and> n = ''schema_migrations'') (sql_schema_objects (cn_file cn))"
    using assms(2) by (auto simp: list_ex_iff)
  then show ?thesis using assms(1)
    by (simp add: migrate_body_def schema_objects_def then_do_def statement_runs open_existing_def[symmetric])
qed

lemma migrate_run:
  assumes "cn_faults cn = []" and "migrate_body de cn = (cn, r)"
  shows "migrate de cn = (cn, r)"
  using assms by (cases r) (simp_all add: migrate_def then_do_def control_def statement_runs match_do_def undo_def fail_with_def)

lemma migrate_reopens:
  assumes "cn_faults cn = []" and v1: "v1_database de (cn_file cn)"
  shows "migrate de cn = (cn, Ok ())"
proof (rule migrate_run[OF assms(1)])
  have "v1_schema de (cn_file cn)" "map fst (df_versions (cn_file cn)) = [1]"
    using v1 by (simp_all add: v1_database_def LATEST_SCHEMA_VERSION_def)
  then show "migrate_body de cn = (cn, Ok ())"
    using assms(1) validate_run[OF assms(1)] v1_tables
    by (simp add: migrate_body_table open_existing_def then_do_def statement_runs LATEST_SCHEMA_VERSION_def done_with_def)
qed

lemma migrate_newer:
  assumes "cn_faults cn = []"
    and "(''table'', ''schema_migrations'') \<in> (\<lambda>(object_type, n, _). (object_type, n)) ` set (sql_schema_objects (cn_file cn))"
    and "\<exists>v \<in> fst ` set (df_versions (cn_file cn)). 1 < v"
  shows "\<exists>v \<in> fst ` set (df_versions (cn_file cn)). 1 < v \<and> migrate de cn = (cn, Err (UnsupportedSchemaVersion v 1))"
proof -
  let ?versions = "sort (map fst (df_versions (cn_file cn)))"
  obtain v where v: "find (\<lambda>v. v > LATEST_SCHEMA_VERSION) ?versions = Some v"
    using assms(3) find_None_iff[of "\<lambda>v. v > LATEST_SCHEMA_VERSION" ?versions]
    by (cases "find (\<lambda>v. v > LATEST_SCHEMA_VERSION) ?versions") (auto simp: LATEST_SCHEMA_VERSION_def)
  have "v \<in> fst ` set (df_versions (cn_file cn))" "1 < v"
    using v by (auto simp: find_Some_iff LATEST_SCHEMA_VERSION_def) (metis length_map length_sort list.set_map nth_mem set_sort)
  moreover have "migrate_body de cn = (cn, Err (UnsupportedSchemaVersion v 1))"
    using v assms(1) migrate_body_table[OF assms(1,2), of de]
    by (simp add: open_existing_def then_do_def statement_runs fail_with_def LATEST_SCHEMA_VERSION_def)
  ultimately show ?thesis using migrate_run[OF assms(1)] by blast
qed


section \<open>Opening a database\<close>

text \<open>
  Property C31: opening a database is all or nothing.  Whatever the file holds and whichever statement
  fails, \<^verbatim>\<open>migrate\<close> returns without error only when the file then is a database of the first
  schema (its objects, their definitions, its columns, a clean check, the history \<^verbatim>\<open>[1]\<close>); when it
  returns an error the file is as it was; a file that already was such a database is not changed at all; and
  the rows of the tables are never touched.
\<close>

theorem opening_is_all_or_nothing:
  assumes "history_ok de (cn_file cn)" and "create_ok de"
  shows "let (cn', r) = migrate de cn in
     (case r of Ok _ \<Rightarrow> v1_database de (cn_file cn') | Err _ \<Rightarrow> cn_file cn' = cn_file cn)
   \<and> (v1_database de (cn_file cn) \<longrightarrow> cn_file cn' = cn_file cn)
   \<and> df_tables (cn_file cn') = df_tables (cn_file cn)"
  using migrate_post[OF assms(1)] keeps_migrate[OF assms(2)]
  by (simp add: post_def keeps_def case_prod_unfold Let_def)

text \<open>
  Without failures a database of the first schema opens, again and again; one whose history
  has a version after the first is refused with \<^verbatim>\<open>UnsupportedSchemaVersion\<close>, naming such a version, and
  is left alone.
\<close>

theorem opening_by_version:
  assumes "cn_faults cn = []"
    and "(''table'', ''schema_migrations'') \<in> (\<lambda>(object_type, n, _). (object_type, n)) ` set (sql_schema_objects (cn_file cn))"
  shows "(v1_database de (cn_file cn) \<longrightarrow> migrate de cn = (cn, Ok ()))
   \<and> ((\<exists>v \<in> fst ` set (df_versions (cn_file cn)). LATEST_SCHEMA_VERSION < v) \<longrightarrow>
       (\<exists>v \<in> fst ` set (df_versions (cn_file cn)). LATEST_SCHEMA_VERSION < v
          \<and> migrate de cn = (cn, Err (UnsupportedSchemaVersion v LATEST_SCHEMA_VERSION))))"
  using migrate_reopens[OF assms(1)] migrate_newer[OF assms] by (simp add: LATEST_SCHEMA_VERSION_def)


section \<open>Witnesses\<close>

text \<open>A database engine that creates the whole schema with the first statement.\<close>

definition sample_columns :: "(string \<times> (string \<times> string \<times> int \<times> int) list) list" where
  "sample_columns = map (\<lambda>(table, columns). (table, map (\<lambda>(n, column_type, not_null, primary_key).
     (n, column_type, if not_null then 1 else 0, primary_key)) columns)) V1_COLUMNS"

definition sample_objects :: "(string \<times> string \<times> string option) list" where
  "sample_objects = map (\<lambda>(object_type, n). (object_type, n, expected_object_sql n)) V1_OBJECTS"

definition sample_db_env :: "json_codec \<Rightarrow> db_env" where
  "sample_db_env js = \<lparr>de_json = js, de_display = (\<lambda>_. ''invalid''),
     de_create = (\<lambda>_ file. file\<lparr>df_objects := sample_objects, df_columns := sample_columns\<rparr>),
     de_fold_case = (\<lambda>s. map ascii_lower (filter (\<lambda>c. c \<noteq> CHR '' '') s))\<rparr>"

lemma sample_create_ok: "create_ok (sample_db_env js)"
  by (simp add: create_ok_def sample_db_env_def)

definition sample_v1_file :: DbFile where
  "sample_v1_file = empty_db_file\<lparr>df_objects := sample_objects, df_columns := sample_columns, df_versions := [(1, 0)]\<rparr>"

lemma sample_schema_objects:
  "map (\<lambda>(object_type, n, _). (object_type, n)) (sql_schema_objects sample_v1_file) = sort V1_OBJECTS"
  "list_all (\<lambda>(_, n, sql). sql = expected_object_sql n \<and> sql \<noteq> None) (sql_schema_objects sample_v1_file)"
  by code_simp+


lemma sample_v1_schema: "v1_schema de (sample_v1_file\<lparr>df_versions := v\<rparr>)"
proof -
  have "definitions_ok de (sql_schema_objects sample_v1_file)"
    using sample_schema_objects(2) by (auto simp: definitions_ok_def list_all_iff)
  moreover have "columns_ok sample_v1_file" by code_simp
  moreover have "df_quick_check sample_v1_file = [''ok'']" by (simp add: sample_v1_file_def empty_db_file_def)
  ultimately have "v1_schema de sample_v1_file" using sample_schema_objects(1) by (simp add: v1_schema_def)
  then show ?thesis by simp
qed

lemma sample_opens:
  "migrate (sample_db_env js) \<lparr>cn_file = empty_db_file, cn_faults = [], cn_clock = 5 # ts\<rparr>
     = (\<lparr>cn_file = sample_v1_file\<lparr>df_versions := [(1, 5)]\<rparr>, cn_faults = [], cn_clock = ts\<rparr>, Ok ())"
proof -
  let ?de = "sample_db_env js" and ?file = "\<lambda>v. sample_v1_file\<lparr>df_versions := v\<rparr>"
  let ?cn = "\<lambda>file clock. \<lparr>cn_file = file, cn_faults = [], cn_clock = clock\<rparr>"
  have created: "create_schema ?de (s # ss) (?cn empty_db_file c) = (?cn (?file []) c, Ok ())"
    "create_schema ?de ss (?cn (?file []) c) = (?cn (?file []) c, Ok ())" for s ss c
  proof -
    have create: "de_create ?de s' f = f\<lparr>df_objects := sample_objects, df_columns := sample_columns\<rparr>" for s' f
      by (simp add: sample_db_env_def)
    have first: "empty_db_file\<lparr>df_objects := sample_objects, df_columns := sample_columns\<rparr> = ?file []"
      "(?file [])\<lparr>df_objects := sample_objects, df_columns := sample_columns\<rparr> = ?file []"
      by (simp_all add: sample_v1_file_def empty_db_file_def)
    show again: "create_schema ?de ss (?cn (?file []) c) = (?cn (?file []) c, Ok ())" for ss
      by (induction ss) (simp_all add: done_with_def then_do_def statement_runs create first)
    show "create_schema ?de (s # ss) (?cn empty_db_file c) = (?cn (?file []) c, Ok ())"
      using again[of ss] by (simp add: then_do_def statement_runs create first)
  qed
  have "migration_statements \<noteq> []" by code_simp
  then obtain s ss where statements: "migration_statements = s # ss" by (cases migration_statements) auto
  have empty: "sql_schema_objects empty_db_file = []" by code_simp
  have recorded: "record_migration (?cn (?file []) (5 # ts)) = (?cn (?file [(1, 5)]) ts, Ok ())"
    by (simp add: record_migration_def then_do_def read_clock_def statement_runs now_i64_def i64_max_def sample_v1_file_def)
  have "migrate_body ?de (?cn empty_db_file (5 # ts)) = (?cn (?file [(1, 5)]) ts, Ok ())"
    using validate_run[of "?cn (?file [(1, 5)]) ts" ?de, OF _ ] sample_v1_schema[of ?de "[(1, 5)]"]
    by (simp add: migrate_body_def schema_objects_def then_do_def statement_runs empty statements created(1) recorded del: create_schema.simps)
  then show ?thesis
    by (simp add: migrate_def then_do_def control_def statement_runs match_do_def undo_def)
qed

theorem opening_is_all_or_nothing_witness:
  "\<forall>js. v1_database (sample_db_env js) (cn_file (fst (migrate (sample_db_env js)
     \<lparr>cn_file = empty_db_file, cn_faults = [], cn_clock = [5]\<rparr>)))"
proof
  fix js
  have "sql_schema_objects empty_db_file = []" by code_simp
  then have "history_ok (sample_db_env js) (cn_file \<lparr>cn_file = empty_db_file, cn_faults = [], cn_clock = [5]\<rparr>)"
    by (simp add: history_ok_def sample_db_env_def empty_db_file_def)
  from opening_is_all_or_nothing[OF this sample_create_ok]
  show "v1_database (sample_db_env js) (cn_file (fst (migrate (sample_db_env js)
     \<lparr>cn_file = empty_db_file, cn_faults = [], cn_clock = [5]\<rparr>)))" by (simp add: sample_opens Let_def)
qed

theorem opening_by_version_witness:
  "\<forall>js. migrate (sample_db_env js) \<lparr>cn_file = sample_v1_file, cn_faults = [], cn_clock = []\<rparr>
     = (\<lparr>cn_file = sample_v1_file, cn_faults = [], cn_clock = []\<rparr>, Ok ())
   \<and> migrate (sample_db_env js) \<lparr>cn_file = sample_v1_file\<lparr>df_versions := [(1, 0), (2, 9)]\<rparr>, cn_faults = [], cn_clock = []\<rparr>
     = (\<lparr>cn_file = sample_v1_file\<lparr>df_versions := [(1, 0), (2, 9)]\<rparr>, cn_faults = [], cn_clock = []\<rparr>,
        Err (UnsupportedSchemaVersion 2 1))"
proof
  fix js
  let ?cn = "\<lambda>v. \<lparr>cn_file = sample_v1_file\<lparr>df_versions := v\<rparr>, cn_faults = [], cn_clock = []\<rparr>"
  have same: "sample_v1_file = sample_v1_file\<lparr>df_versions := [(1, 0)]\<rparr>" by (simp add: sample_v1_file_def)
  have table: "(''table'', ''schema_migrations'') \<in> (\<lambda>(object_type, n, _). (object_type, n)) ` set (sql_schema_objects (cn_file (?cn v)))" for v
    using v1_tables[OF sample_v1_schema[of _ v]] by simp
  have v1: "v1_database (sample_db_env js) (sample_v1_file\<lparr>df_versions := [(1, 0)]\<rparr>)"
    using sample_v1_schema by (simp add: v1_database_def LATEST_SCHEMA_VERSION_def)
  show "migrate (sample_db_env js) \<lparr>cn_file = sample_v1_file, cn_faults = [], cn_clock = []\<rparr>
     = (\<lparr>cn_file = sample_v1_file, cn_faults = [], cn_clock = []\<rparr>, Ok ())
   \<and> migrate (sample_db_env js) \<lparr>cn_file = sample_v1_file\<lparr>df_versions := [(1, 0), (2, 9)]\<rparr>, cn_faults = [], cn_clock = []\<rparr>
     = (\<lparr>cn_file = sample_v1_file\<lparr>df_versions := [(1, 0), (2, 9)]\<rparr>, cn_faults = [], cn_clock = []\<rparr>,
        Err (UnsupportedSchemaVersion 2 1))"
    using opening_by_version[OF _ table, of "[(1, 0)]" "sample_db_env js"] opening_by_version[OF _ table, of "[(1, 0), (2, 9)]" "sample_db_env js"] v1
    by (subst (1 2) same) (simp add: LATEST_SCHEMA_VERSION_def)
qed

end
