(* ===== verification/Indexed_Props.thy ===== *)
theory Indexed_Props
  imports Sqlite_Props Server_Props
begin

text \<open>
  The properties of the server as it is run, on the indexed back end: it implements the same store
  specification, its catalogue agrees with its files, and it never reports a corrupt store.
\<close>

section \<open>Runs\<close>

definition fresh_indexed ::
  "Fault option list \<Rightarrow> nat list \<Rightarrow> string option list \<Rightarrow> u64 list \<Rightarrow> Indexed AppState" where
  "fresh_indexed faults nanos sql_faults clock = \<lparr>app_storage = \<lparr>
      ix_fs = \<lparr>fs_files = [], fs_faults = faults, fs_nanos = nanos\<rparr>, ix_dbs = [], ix_databases = [],
      ix_faults = sql_faults, ix_clock = clock\<rparr>, app_replay_cache = []\<rparr>"

abbreviation run_indexed :: "server_env \<Rightarrow> db_env \<Rightarrow> nat \<Rightarrow> (u64 \<times> Request) list \<Rightarrow> Indexed AppState \<Rightarrow> Indexed AppState" where
  "run_indexed env de pid \<equiv> run_server env (indexed_storage (en_crypto env) de pid)"

lemma fresh_indexed_good:
  "env_ok cx de \<Longrightarrow> ix_good cx de (app_storage (fresh_indexed faults nanos sql_faults clock))"
  by (rule ix_good_empty) (simp_all add: fresh_indexed_def)

lemma run_indexed_good:
  assumes "identifiers_ok env" and "env_ok (en_crypto env) de" and "list_all (plain_request env \<circ> snd) reqs"
  shows "ix_good (en_crypto env) de (app_storage (run_indexed env de pid reqs (fresh_indexed faults nanos sql_faults clock)))"
  using ix_api.run_server_refines[OF fresh_indexed_good[OF assms(2)] refl assms(1,3) run_refl, of pid]
  by (simp add: Let_def)

text \<open>
  Property C28: the server as it is deployed implements the store specification.  In any run from an empty
  data directory, with any failures of the file system and of SQL statements on the way, what one more
  request changes of the stored objects, heads, access states, join requests and envelopes is a sequence of
  steps the specification allows to the device whose key signed that request within five minutes of the
  clock: nothing changes for an unsigned request, or beyond the signer's permissions.
\<close>

theorem indexed_server_implements_store_spec:
  assumes "identifiers_ok env" and "env_ok (en_crypto env) de"
    and "list_all (plain_request env \<circ> snd) before" and "plain_request env req"
  shows "let st = run_indexed env de pid before (fresh_indexed faults nanos sql_faults clock);
             (st', answer) = create_app env (indexed_storage (en_crypto env) de pid) now req st;
             v = ix_view de (app_storage st); v' = ix_view de (app_storage st')
         in v' = v \<or> (\<exists>w dev. request_signed env now req dev \<and> device_steps (en_crypto env) w dev v v')"
  using ix_api.create_app_served[OF run_indexed_good[OF assms(1,2,3), where pid = pid and faults = faults and nanos = nanos
      and sql_faults = sql_faults and clock = clock] refl assms(1,4), of pid now]
  by (auto simp: post_def served_def signer_steps_def Let_def split: prod.splits)

text \<open>
  Property C29: the catalogue agrees with the files.  In every run from an empty directory, with any failures,
  every row of the object catalogue of a workspace records the kind, the identifier (the SHA-256 of the
  content), the size and the hash algorithm of an object whose file is there with that content, and no two
  rows record the same kind and identifier.
\<close>

theorem catalogue_agrees_with_files:
  assumes "identifiers_ok env" and "env_ok (en_crypto env) de" and "list_all (plain_request env \<circ> snd) reqs"
  shows "let cx = en_crypto env;
             ix = app_storage (run_indexed env de pid reqs (fresh_indexed faults nanos sql_faults clock));
             rows = tb_objects (tables ix w)
         in distinct (map (\<lambda>row. (or_object_kind row, or_object_id row)) rows)
          \<and> list_all (\<lambda>row. \<exists>k b. matches_id (cr_sha256 cx) k (or_object_id row) b
              \<and> visible (ix_fs ix) (ix_object_path w k (or_object_id row)) = Some b
              \<and> or_object_kind row = kind_str k \<and> or_hash_algorithm row = OBJECT_HASH_ALGORITHM
              \<and> or_encrypted_size row = uint (word_of_nat (length b) :: u64)) rows"
proof -
  let ?ix = "app_storage (run_indexed env de pid reqs (fresh_indexed faults nanos sql_faults clock))"
  have ok: "rows_ok (en_crypto env) (visible (ix_fs ?ix)) w (tb_objects (tables ?ix w))"
    by (rule catalogue_rows[OF ix_goodD(2)[OF run_indexed_good[OF assms]]])
  have row: "\<exists>k b. matches_id (cr_sha256 (en_crypto env)) k (or_object_id row) b
      \<and> visible (ix_fs ?ix) (ix_object_path w k (or_object_id row)) = Some b
      \<and> or_object_kind row = kind_str k \<and> or_hash_algorithm row = OBJECT_HASH_ALGORITHM
      \<and> or_encrypted_size row = uint (word_of_nat (length b) :: u64)"
    if r: "row_ok (en_crypto env) (visible (ix_fs ?ix)) w row" for row
  proof -
    obtain k b where "or_object_kind row = kind_str k" "or_object_id row = id_of k (cr_sha256 (en_crypto env) b)"
      "visible (ix_fs ?ix) (hash_path (workspace_id_str w) (hex_encode (cr_sha256 (en_crypto env) b))) = Some b"
      "or_encrypted_size row = uint (word_of_nat (length b) :: u64)" "or_hash_algorithm row = OBJECT_HASH_ALGORITHM"
      using r unfolding row_ok_def by blast
    then show ?thesis by (intro exI[of _ k] exI[of _ b]) (simp add: id_of_match id_of_path)
  qed
  show ?thesis using ok unfolding Let_def rows_ok_def list_all_iff row_key_def using row by blast
qed

definition never_corrupt :: "'a ix_action \<Rightarrow> Indexed \<Rightarrow> bool" where
  "never_corrupt m ix \<longleftrightarrow> post m ix (\<lambda>_ r. \<forall>message. r \<noteq> Err (StorageCorruption message))"

lemma sound_never_corrupt: "post m ix (sound_outcome cx ix) \<Longrightarrow> never_corrupt m ix"
  by (auto simp: never_corrupt_def post_def sound_outcome_def not_corrupt_def)



section \<open>Witnesses\<close>

abbreviation sample_db :: db_env where
  "sample_db \<equiv> sample_db_env sample_codec"

lemma sample_env_ok: "env_ok (en_crypto sample_env) sample_db"
  using sample_codec_ok sample_sha256_size sample_create_ok by (simp add: env_ok_def sample_db_env_def)

text \<open>The request to create a workspace, on an empty data directory: the database is created, given the
  schema, and the access state is stored.\<close>

lemma sample_indexed_create:
  "\<exists>ix'. ix_create_access_state sample_crypto sample_db sample_workspace (sample_state 1)
      (app_storage (fresh_indexed [] [] [] [5, 6])) = (ix', Ok ())
    \<and> vw_access (ix_view sample_db ix') sample_workspace = Some (sample_state 1)"
proof -
  let ?p = "workspace_state_path (workspace_id_str sample_workspace)"
  let ?ix = "\<lparr>ix_fs = \<lparr>fs_files = [], fs_faults = [], fs_nanos = []\<rparr>, ix_dbs = [], ix_databases = [], ix_faults = [],
     ix_clock = [5, 6]\<rparr>"
  have ix: "app_storage (fresh_indexed [] [] [] [5, 6]) = ?ix" by (simp add: fresh_indexed_def)
  let ?file = "sample_v1_file\<lparr>df_versions := [(1, 5)]\<rparr>"
  let ?ix1 = "?ix\<lparr>ix_dbs := [(?p, ?file)], ix_clock := [6], ix_databases := [sample_workspace]\<rparr>"
  let ?row = "\<lparr>ar_access_state_json = [1], ar_created_at = 6, ar_updated_at = 6\<rparr>"
  let ?ix2 = "?ix1\<lparr>ix_dbs := [(?p, ?file\<lparr>df_tables := (df_tables ?file)\<lparr>tb_access_state := Some ?row\<rparr>\<rparr>)], ix_clock := []\<rparr>"
  have opened: "get_or_open sample_db sample_workspace ?ix = (?ix1, Ok ?p)"
    by (simp add: get_or_open_def db_open_def map_error_def then_do_def on_fs_def st_io_def connect_def on_db_def Let_def
        fs_create_dir_all_def with_fault_def sample_opens)
  have "db_create_access_state sample_crypto sample_db sample_workspace (sample_state 1)
      \<lparr>cn_file = ?file, cn_faults = [], cn_clock = [6]\<rparr>
    = (\<lparr>cn_file = ?file\<lparr>df_tables := (df_tables ?file)\<lparr>tb_access_state := Some ?row\<rparr>\<rparr>, cn_faults = [], cn_clock = []\<rparr>, Ok ())"
    by code_simp
  then have "ix_create_access_state sample_crypto sample_db sample_workspace (sample_state 1) ?ix = (?ix2, Ok ())"
    by (simp add: ix_create_access_state_def with_db_def then_do_def opened on_db_def del: One_nat_def)
  moreover have "vw_access (ix_view sample_db ?ix2) sample_workspace = Some (sample_state 1)"
    by (simp add: ix_view_def view_from_def tables_def sample_db_env_def sample_codec_def del: One_nat_def)
  ultimately show ?thesis unfolding ix by blast
qed


lemma sample_indexed_created:
  "vw_access (ix_view sample_db (app_storage (fst (create_app sample_env (indexed_storage sample_crypto sample_db 7)
      300 sample_create_request (fresh_indexed [] [] [] [5, 6]))))) sample_workspace = Some (sample_state 1)"
proof -
  have target: "classify_auth_target (rq_method sample_create_request) (rq_uri sample_create_request) = Ok None"
    by code_simp
  have route: "match_route (uri_path (rq_uri sample_create_request)) = Some WorkspacesRoute" by code_simp
  let ?c = "\<lparr>cw_workspace_id = sample_workspace, cw_access_state = sample_state 1\<rparr>"
  let ?key = "\<lparr>rk_workspace_id = sample_workspace, rk_device_id = DeviceId ''device_a'', rk_nonce = RequestNonce ''n''\<rparr>"
  let ?ix = "app_storage (fresh_indexed [] [] [] [5, 6])"
  obtain ix' where create: "ix_create_access_state sample_crypto sample_db sample_workspace (sample_state 1) ?ix = (ix', Ok ())"
    and view: "vw_access (ix_view sample_db ix') sample_workspace = Some (sample_state 1)"
    using sample_indexed_create by blast
  have sign: "verify_bootstrap_signature sample_env 300 sample_create_request ?c (fresh_indexed [] [] [] [5, 6])
      = (\<lparr>app_storage = ?ix, app_replay_cache = [(?key, 10)]\<rparr>, Ok ())"
    by code_simp
  have ws: "as_workspace_id (sample_state 1) = sample_workspace" by code_simp
  have decoded: "en_create sample_env (rq_body sample_create_request) = Ok ?c"
    by (simp add: sample_env_def sample_create_request_def)
  have small: "length (rq_body sample_create_request) = 1" "rq_method sample_create_request = ''POST''"
    by (simp_all add: sample_create_request_def)
  have "app_storage (fst (create_app sample_env (indexed_storage sample_crypto sample_db 7) 300 sample_create_request
      (fresh_indexed [] [] [] [5, 6]))) = ix'"
    using target route sign create
    by (simp add: create_app_def workspace_auth_middleware_def then_do_def lift_result_def route_request_def
        with_param_def with_body_def small MAX_OBJECT_BODY_BYTES_def respond_def api_create_workspace_def
        ensure_body_limit_def MAX_AUTH_BODY_BYTES_def parse_json_def decoded ws on_storage_def
        indexed_storage_select done_with_def del: One_nat_def)
  then show ?thesis using view by simp
qed

theorem indexed_server_implements_store_spec_witness:
  "\<exists>w dev. request_signed sample_env 300 sample_create_request dev
     \<and> device_steps sample_crypto w dev (ix_view sample_db (app_storage (fresh_indexed [] [] [] [5, 6])))
         (ix_view sample_db (app_storage (fst (create_app sample_env (indexed_storage sample_crypto sample_db 7)
            300 sample_create_request (fresh_indexed [] [] [] [5, 6])))))"
proof -
  have cx: "en_crypto sample_env = sample_crypto" by (simp add: sample_env_def)
  have "vw_access (ix_view sample_db (app_storage (fresh_indexed [] [] [] [5, 6]))) sample_workspace = None"
    by (simp add: fresh_indexed_def ix_view_def view_from_def tables_def empty_tables_def)
  then have "ix_view sample_db (app_storage (fst (create_app sample_env (indexed_storage sample_crypto sample_db 7)
      300 sample_create_request (fresh_indexed [] [] [] [5, 6])))) \<noteq> ix_view sample_db (app_storage (fresh_indexed [] [] [] [5, 6]))"
    using sample_indexed_created by auto
  then show ?thesis
    using indexed_server_implements_store_spec[where before = "[]" and pid = 7 and now = 300 and faults = "[]" and nanos = "[]"
        and sql_faults = "[]" and clock = "[5, 6]", OF sample_identifiers_ok sample_env_ok _ sample_create_plain]
    unfolding cx by (auto simp: Let_def split: prod.splits)
qed

theorem catalogue_agrees_with_files_witness:
  "distinct (map (\<lambda>row. (or_object_kind row, or_object_id row)) (tb_objects (tables (app_storage
     (run_server sample_env (indexed_storage sample_crypto sample_db 7) [(300, sample_create_request)]
        (fresh_indexed [] [] [] [5, 6]))) sample_workspace)))"
  using catalogue_agrees_with_files[where pid = 7 and reqs = "[(300, sample_create_request)]" and faults = "[]" and nanos = "[]"
      and sql_faults = "[]" and clock = "[5, 6]" and w = sample_workspace, OF sample_identifiers_ok sample_env_ok] sample_create_plain
  by (simp add: Let_def sample_env_def)


end
