(* ===== verification/Key_Delivery.thy ===== *)
theory Key_Delivery
  imports Samples Core_Errors Object_Frame
begin

text \<open>
  \<^verbatim>\<open>rustsync-core/src/device/identity.rs\<close>, \<^verbatim>\<open>device/registry.rs\<close>,
  \<^verbatim>\<open>encryption.rs\<close> and \<^verbatim>\<open>access/envelope.rs\<close>: a device's keys, the
  registry of known devices, the encryption of objects, and the delivery of a workspace key in a sealed
  envelope.  Random bytes are arguments.
\<close>

section \<open>Third-party primitives\<close>

text \<open>What the code calls of \<^verbatim>\<open>ed25519_dalek\<close> (the public half of a signing key, a
  signature), \<^verbatim>\<open>x25519_dalek\<close> (the public half of an exchange key, a shared secret),
  \<^verbatim>\<open>hkdf\<close> and \<^verbatim>\<open>chacha20poly1305\<close> (with key, nonce and associated
  data).\<close>

record device_crypto =
  dc_crypto :: crypto
  dc_signing_public :: "bytes \<Rightarrow> bytes"
  dc_sign :: "bytes \<Rightarrow> bytes \<Rightarrow> bytes"
  dc_exchange_public :: "bytes \<Rightarrow> bytes"
  dc_diffie_hellman :: "bytes \<Rightarrow> bytes \<Rightarrow> bytes"
  dc_hkdf_expand :: "bytes \<Rightarrow> bytes \<Rightarrow> bytes \<Rightarrow> bytes option"
  dc_encrypt :: "bytes \<Rightarrow> bytes \<Rightarrow> bytes \<Rightarrow> bytes \<Rightarrow> bytes option"
  dc_decrypt :: "bytes \<Rightarrow> bytes \<Rightarrow> bytes \<Rightarrow> bytes \<Rightarrow> bytes option"

text \<open>What these packages promise: a signature verifies under the public half, the two sides of an
  exchange agree, and what was encrypted decrypts.\<close>

definition primitives_ok :: "device_crypto \<Rightarrow> bool" where
  "primitives_ok dc \<longleftrightarrow>
     (\<forall>sk m. cr_signature_from_slice (dc_crypto dc) (dc_sign dc sk m)
        \<and> cr_verify (dc_crypto dc) (dc_signing_public dc sk) m (dc_sign dc sk m) \<and> dc_sign dc sk m \<noteq> [])
   \<and> (\<forall>a b. dc_diffie_hellman dc a (dc_exchange_public dc b) = dc_diffie_hellman dc b (dc_exchange_public dc a))
   \<and> (\<forall>k n a m c. dc_encrypt dc k n a m = Some c
        \<longrightarrow> length c = length m + XCHACHA20_POLY1305_TAG_SIZE \<and> dc_decrypt dc k n a c = Some m)"


section \<open>Encryption of objects\<close>

text \<open>The \<^verbatim>\<open>nonce\<close> is the one that was drawn; objects carry no associated data.\<close>

definition encrypt :: "device_crypto \<Rightarrow> bytes \<Rightarrow> KeyId \<Rightarrow> bytes \<Rightarrow> bytes \<Rightarrow> (EncryptedObject, EncryptionError) result" where
  "encrypt dc plaintext key_id key nonce =
    and_then (ok_or (dc_encrypt dc key nonce [] plaintext) EncryptionFailed) (\<lambda>ciphertext.
    let encrypted_object = encrypted_object_new key_id XChaCha20Poly1305 nonce ciphertext
    in and_then (map_err (validate_object encrypted_object) EncryptionProtocol) (\<lambda>_. Ok encrypted_object))"

definition decrypt :: "device_crypto \<Rightarrow> EncryptedObject \<Rightarrow> bytes \<Rightarrow> (bytes, EncryptionError) result" where
  "decrypt dc encrypted_object key =
    and_then (map_err (validate_object encrypted_object) EncryptionProtocol) (\<lambda>_.
      if length (eo_nonce encrypted_object) \<noteq> XCHACHA20_POLY1305_NONCE_SIZE
      then Err (EncryptionInvalidNonceLength XCHACHA20_POLY1305_NONCE_SIZE (length (eo_nonce encrypted_object)))
      else ok_or (dc_decrypt dc key (eo_nonce encrypted_object) [] (eo_ciphertext encrypted_object)) DecryptionFailed)"

lemma decrypt_encrypt:
  "primitives_ok dc \<Longrightarrow> encrypt dc m k key nonce = Ok ob \<Longrightarrow> decrypt dc ob key = Ok m"
  by (auto simp: encrypt_def decrypt_def primitives_ok_def encrypted_object_new_def Let_def
      XCHACHA20_POLY1305_NONCE_SIZE_def)

lemma encrypt_succeeds:
  assumes "primitives_ok dc" and "dc_encrypt dc key nonce [] m = Some c"
    and "length nonce = XCHACHA20_POLY1305_NONCE_SIZE"
  shows "encrypt dc m k key nonce = Ok (encrypted_object_new k XChaCha20Poly1305 nonce c)"
proof -
  have "length c = length m + XCHACHA20_POLY1305_TAG_SIZE"
    using assms(1,2) unfolding primitives_ok_def by blast
  then show ?thesis using assms(2,3)
    by (auto simp: encrypt_def encrypted_object_new_def XCHACHA20_POLY1305_TAG_SIZE_def
        XCHACHA20_POLY1305_NONCE_SIZE_def Let_def)
qed


section \<open>Device identities\<close>

record DeviceIdentity =
  di_device_id :: DeviceId
  di_device_name :: string
  di_signing_public_key :: bytes
  di_signing_private_key :: bytes
  di_exchange_public_key :: bytes
  di_exchange_private_key :: bytes

definition identity_fingerprint :: "device_crypto \<Rightarrow> DeviceIdentity \<Rightarrow> string" where
  "identity_fingerprint dc i =
     fingerprint_from_public_keys (dc_crypto dc) (di_signing_public_key i) (di_exchange_public_key i)"

definition public_record :: "device_crypto \<Rightarrow> DeviceIdentity \<Rightarrow> DeviceStatus \<Rightarrow> DeviceRecord" where
  "public_record dc i status = \<lparr>dr_device_id = di_device_id i, dr_device_name = di_device_name i,
     dr_signing_public_key = di_signing_public_key i, dr_exchange_public_key = di_exchange_public_key i,
     dr_fingerprint = identity_fingerprint dc i, dr_status = status\<rparr>"

definition validate_identity :: "device_crypto \<Rightarrow> DeviceIdentity \<Rightarrow> (unit, DeviceError) result" where
  "validate_identity dc i =
    (if dc_signing_public dc (di_signing_private_key i) \<noteq> di_signing_public_key i then Err SigningKeyMismatch
     else if dc_exchange_public dc (di_exchange_private_key i) \<noteq> di_exchange_public_key i
     then Err ExchangeKeyMismatch
     else map_err (validate_device (dc_crypto dc) (public_record dc i ActiveDevice)) DeviceProtocol)"

text \<open>\<^verbatim>\<open>generate\<close>, from the normalised name, the two private keys and the identifier
  that were drawn.\<close>

definition generate_identity :: "device_crypto \<Rightarrow> string \<Rightarrow> bytes \<Rightarrow> bytes \<Rightarrow> string \<Rightarrow> (DeviceIdentity, DeviceError) result" where
  "generate_identity dc name signing exchange uuid =
    and_then (map_err (parse_device_id (DEVICE_ID_PREFIX @ uuid)) DeviceProtocol) (\<lambda>device_id.
    let identity = \<lparr>di_device_id = device_id, di_device_name = name,
       di_signing_public_key = dc_signing_public dc signing, di_signing_private_key = signing,
       di_exchange_public_key = dc_exchange_public dc exchange, di_exchange_private_key = exchange\<rparr>
    in and_then (validate_identity dc identity) (\<lambda>_. Ok identity))"

definition identity_sign :: "device_crypto \<Rightarrow> DeviceIdentity \<Rightarrow> bytes \<Rightarrow> (bytes, DeviceError) result" where
  "identity_sign dc i payload = and_then (validate_identity dc i) (\<lambda>_.
     Ok (dc_sign dc (di_signing_private_key i) (device_signature_payload payload)))"

definition create_join_request_at ::
  "device_crypto \<Rightarrow> DeviceIdentity \<Rightarrow> JoinRequestId \<Rightarrow> WorkspaceId \<Rightarrow> u64 \<Rightarrow> (DeviceJoinRequest, DeviceError) result" where
  "create_join_request_at dc i request_id w created_at = and_then (validate_identity dc i) (\<lambda>_.
     let request = join_request_new_unsigned request_id w (public_record dc i Pending) created_at
     in and_then (identity_sign dc i (join_signing_payload request)) (\<lambda>signature.
        Ok (join_request_with_signature request signature)))"

definition matches_record :: "DeviceIdentity \<Rightarrow> DeviceRecord \<Rightarrow> bool" where
  "matches_record i r \<longleftrightarrow> di_device_id i = dr_device_id r \<and> di_signing_public_key i = dr_signing_public_key r
     \<and> di_exchange_public_key i = dr_exchange_public_key r"


section \<open>The registry of devices\<close>

record DeviceRegistry =
  rg_workspace_id :: WorkspaceId
  rg_devices :: "(DeviceId \<times> DeviceRecord) list"

type_synonym 'a device_result = "('a, DeviceError) result"

definition registry_new :: "WorkspaceId \<Rightarrow> DeviceRegistry" where
  "registry_new w = \<lparr>rg_workspace_id = w, rg_devices = []\<rparr>"

definition registry_insert :: "device_crypto \<Rightarrow> DeviceRecord \<Rightarrow> DeviceRegistry \<Rightarrow> DeviceRegistry device_result" where
  "registry_insert dc r rg = and_then (map_err (validate_device (dc_crypto dc) r) DeviceProtocol) (\<lambda>_.
     if bt_contains (rg_devices rg) (dr_device_id r) then Err (DeviceAlreadyExists (dr_device_id r))
     else Ok (rg\<lparr>rg_devices := bt_insert (dr_device_id r) r (rg_devices rg)\<rparr>))"

definition with_owner :: "device_crypto \<Rightarrow> WorkspaceId \<Rightarrow> DeviceIdentity \<Rightarrow> DeviceRegistry device_result" where
  "with_owner dc w owner = and_then (validate_identity dc owner) (\<lambda>_.
     registry_insert dc (public_record dc owner ActiveDevice) (registry_new w))"

definition insert_pending :: "device_crypto \<Rightarrow> DeviceRecord \<Rightarrow> DeviceRegistry \<Rightarrow> DeviceRegistry device_result" where
  "insert_pending dc r = registry_insert dc (r\<lparr>dr_status := Pending\<rparr>)"

definition registry_get :: "DeviceId \<Rightarrow> DeviceRegistry \<Rightarrow> DeviceRecord device_result" where
  "registry_get d rg = ok_or (map_of (rg_devices rg) d) (UnknownDevice d)"

definition registry_put :: "DeviceId \<Rightarrow> DeviceRecord \<Rightarrow> DeviceRegistry \<Rightarrow> DeviceRegistry" where
  "registry_put d r rg = rg\<lparr>rg_devices := bt_insert d r (rg_devices rg)\<rparr>"

definition registry_activate :: "DeviceId \<Rightarrow> DeviceRegistry \<Rightarrow> DeviceRegistry device_result" where
  "registry_activate d rg = and_then (registry_get d rg) (\<lambda>device.
     if is_revoked device then Err (DeviceRevoked d) else Ok (registry_put d (activate device) rg))"

definition registry_revoke :: "DeviceId \<Rightarrow> DeviceRegistry \<Rightarrow> DeviceRegistry device_result" where
  "registry_revoke d rg = and_then (registry_get d rg) (\<lambda>device. Ok (registry_put d (revoke device) rg))"

definition registry_remove :: "DeviceId \<Rightarrow> DeviceRegistry \<Rightarrow> (DeviceRecord \<times> DeviceRegistry) device_result" where
  "registry_remove d rg = and_then (ok_or (map_of (rg_devices rg) d) (UnknownDevice d)) (\<lambda>device.
     Ok (device, rg\<lparr>rg_devices := bt_remove d (rg_devices rg)\<rparr>))"

definition require_active :: "DeviceId \<Rightarrow> DeviceRegistry \<Rightarrow> DeviceRecord device_result" where
  "require_active d rg = and_then (registry_get d rg) (\<lambda>device. case dr_status device of
     ActiveDevice \<Rightarrow> Ok device | Pending \<Rightarrow> Err (DevicePending d) | Revoked \<Rightarrow> Err (DeviceRevoked d))"

definition registry_with_status :: "(DeviceRecord \<Rightarrow> bool) \<Rightarrow> DeviceRegistry \<Rightarrow> DeviceRecord list" where
  "registry_with_status p rg = filter p (map snd (rg_devices rg))"


section \<open>Authorised delivery\<close>

datatype KeyVisibility = Shared | Restricted

type_synonym 'a access_result = "('a, AccessError) result"

definition authorize_key_delivery ::
  "AccessState \<Rightarrow> KeyVisibility \<Rightarrow> KeyId \<Rightarrow> u64 \<Rightarrow> DeviceId \<Rightarrow> DeviceId \<Rightarrow> unit access_result" where
  "authorize_key_delivery st visibility key_id generation sender recipient =
    and_then (map_err (require_permission st sender ManageKeys) AccessProtocol) (\<lambda>_.
    and_then (map_err (active_membership st recipient) AccessProtocol) (\<lambda>_.
      if visibility = Restricted
      then and_then (map_err (require_key_grant st key_id generation recipient) AccessProtocol) (\<lambda>_. Ok ())
      else Ok ()))"

definition require_identity_matches_record :: "DeviceIdentity \<Rightarrow> DeviceRecord \<Rightarrow> unit access_result" where
  "require_identity_matches_record i r =
    (if di_device_id i \<noteq> dr_device_id r \<or> di_signing_public_key i \<noteq> dr_signing_public_key r
        \<or> di_exchange_public_key i \<noteq> dr_exchange_public_key r
     then Err (DeviceIdentityConflict (dr_device_id r)) else Ok ())"

definition ENVELOPE_HKDF_SALT :: bytes where
  "ENVELOPE_HKDF_SALT = str_bytes ''rustsync/key-envelope/hkdf-sha256''"

definition WORKSPACE_KEY_SIZE :: nat where "WORKSPACE_KEY_SIZE = 32"

definition derive_envelope_key :: "device_crypto \<Rightarrow> bytes \<Rightarrow> bytes \<Rightarrow> bytes access_result" where
  "derive_envelope_key dc shared context = ok_or (dc_hkdf_expand dc ENVELOPE_HKDF_SALT shared context) KeyDerivationFailed"

text \<open>The \<^verbatim>\<open>ephemeral\<close> secret and the \<^verbatim>\<open>nonce\<close> are the random bytes drawn.\<close>

definition seal_key_envelope :: "device_crypto \<Rightarrow> AccessState \<Rightarrow> KeyVisibility \<Rightarrow> KeyId \<Rightarrow> u64 \<Rightarrow> bytes \<Rightarrow>
    DeviceIdentity \<Rightarrow> DeviceRecord \<Rightarrow> DeviceRecord \<Rightarrow> u64 \<Rightarrow> bytes \<Rightarrow> bytes \<Rightarrow> KeyEnvelope access_result" where
  "seal_key_envelope dc st visibility key_id generation workspace_key sender sender_record recipient created_at
      ephemeral nonce =
    and_then (map_err (validate_identity dc sender) AccessDevice) (\<lambda>_.
    and_then (map_err (validate_device (dc_crypto dc) sender_record) AccessProtocol) (\<lambda>_.
    and_then (map_err (validate_device (dc_crypto dc) recipient) AccessProtocol) (\<lambda>_.
    and_then (require_identity_matches_record sender sender_record) (\<lambda>_.
    and_then (authorize_key_delivery st visibility key_id generation (dr_device_id sender_record)
                (dr_device_id recipient)) (\<lambda>_.
    let shared = dc_diffie_hellman dc ephemeral (dr_exchange_public_key recipient);
        envelope = \<lparr>ke_workspace_id = as_workspace_id st, ke_key_id = key_id, ke_key_generation = generation,
          ke_access_revision = as_revision st, ke_sender_device_id = dr_device_id sender_record,
          ke_recipient_device_id = dr_device_id recipient,
          ke_algorithm = X25519HkdfSha256XChaCha20Poly1305,
          ke_sender_ephemeral_public_key = dc_exchange_public dc ephemeral, ke_nonce = replicate 24 0,
          ke_encrypted_workspace_key = [], ke_created_at = created_at, ke_signature = []\<rparr>;
        context = envelope_context_bytes envelope
    in and_then (derive_envelope_key dc shared context) (\<lambda>envelope_key.
       let envelope = envelope\<lparr>ke_nonce := nonce\<rparr> in
       and_then (ok_or (dc_encrypt dc envelope_key nonce context workspace_key) EnvelopeEncryptionFailed) (\<lambda>encrypted.
       let envelope = envelope\<lparr>ke_encrypted_workspace_key := encrypted\<rparr> in
       and_then (map_err (identity_sign dc sender (envelope_signing_payload envelope)) AccessDevice) (\<lambda>signature.
         Ok (envelope\<lparr>ke_signature := signature\<rparr>)))))))))"

definition open_key_envelope :: "device_crypto \<Rightarrow> AccessState \<Rightarrow> KeyVisibility \<Rightarrow> KeyEnvelope \<Rightarrow> DeviceIdentity \<Rightarrow>
    DeviceRecord \<Rightarrow> DeviceRecord \<Rightarrow> bytes access_result" where
  "open_key_envelope dc st visibility envelope recipient recipient_record sender_record =
    (if ke_workspace_id envelope \<noteq> as_workspace_id st
     then Err (AccessWorkspaceMismatch (as_workspace_id st) (ke_workspace_id envelope))
     else if ke_access_revision envelope > as_revision st
     then Err (AccessStateTooOld (as_revision st) (ke_access_revision envelope))
     else
    and_then (map_err (validate_identity dc recipient) AccessDevice) (\<lambda>_.
    and_then (map_err (validate_device (dc_crypto dc) recipient_record) AccessProtocol) (\<lambda>_.
    and_then (map_err (validate_device (dc_crypto dc) sender_record) AccessProtocol) (\<lambda>_.
    and_then (require_identity_matches_record recipient recipient_record) (\<lambda>_.
    if ke_recipient_device_id envelope \<noteq> dr_device_id recipient_record
    then Err (WrongEnvelopeRecipient (dr_device_id recipient_record) (ke_recipient_device_id envelope))
    else
    and_then (authorize_key_delivery st visibility (ke_key_id envelope) (ke_key_generation envelope)
                (dr_device_id sender_record) (dr_device_id recipient_record)) (\<lambda>_.
    and_then (map_err (verify_sender_signature (dc_crypto dc) envelope sender_record) AccessProtocol) (\<lambda>_.
    let shared = dc_diffie_hellman dc (di_exchange_private_key recipient) (ke_sender_ephemeral_public_key envelope);
        context = envelope_context_bytes envelope
    in and_then (derive_envelope_key dc shared context) (\<lambda>envelope_key.
       and_then (ok_or (dc_decrypt dc envelope_key (ke_nonce envelope) context (ke_encrypted_workspace_key envelope))
                   EnvelopeDecryptionFailed) (\<lambda>decrypted.
         if length decrypted = WORKSPACE_KEY_SIZE then Ok decrypted
         else Err (InvalidWorkspaceKeyLength WORKSPACE_KEY_SIZE (length decrypted)))))))))))"


section \<open>What a sealed envelope opens to\<close>

lemma primitives_okD:
  assumes "primitives_ok dc"
  shows "cr_signature_from_slice (dc_crypto dc) (dc_sign dc sk m)"
    "cr_verify (dc_crypto dc) (dc_signing_public dc sk) m (dc_sign dc sk m)" "dc_sign dc sk m \<noteq> []"
    "dc_diffie_hellman dc a (dc_exchange_public dc b) = dc_diffie_hellman dc b (dc_exchange_public dc a)"
    "dc_encrypt dc k n ad m = Some c \<Longrightarrow> dc_decrypt dc k n ad c = Some m \<and> c \<noteq> []"
  using assms by (fastforce simp: primitives_ok_def XCHACHA20_POLY1305_TAG_SIZE_def)+

lemma identity_sign_Ok_iff:
  "identity_sign dc i p = Ok sg \<longleftrightarrow> validate_identity dc i = Ok ()
     \<and> sg = dc_sign dc (di_signing_private_key i) (device_signature_payload p)"
  by (auto simp: identity_sign_def)

lemma validate_identity_Ok_iff:
  "validate_identity dc i = Ok u \<longleftrightarrow> di_signing_public_key i = dc_signing_public dc (di_signing_private_key i)
     \<and> di_exchange_public_key i = dc_exchange_public dc (di_exchange_private_key i)
     \<and> device_valid (dc_crypto dc) (public_record dc i ActiveDevice)"
  by (auto simp: validate_identity_def device_valid_def)

lemma require_identity_Ok_iff:
  "require_identity_matches_record i r = Ok u \<longleftrightarrow> matches_record i r"
  by (auto simp: require_identity_matches_record_def matches_record_def)

text \<open>A signature made by an identity verifies under the record that matches it.\<close>

lemma signed_by_identity:
  assumes "primitives_ok dc" and "identity_sign dc i p = Ok sg" and "matches_record i r"
    and "device_valid (dc_crypto dc) r"
  shows "verify_device_signature (dc_crypto dc) r p sg = Ok ()"
  using assms primitives_okD(1,2)[OF assms(1)]
  by (auto simp: identity_sign_Ok_iff validate_identity_Ok_iff matches_record_def) metis

lemma public_record_simps [simp]:
  "dr_device_id (public_record dc i s) = di_device_id i"
  "dr_signing_public_key (public_record dc i s) = di_signing_public_key i"
  "dr_exchange_public_key (public_record dc i s) = di_exchange_public_key i"
  "dr_status (public_record dc i s) = s" "(public_record dc i s)\<lparr>dr_status := s'\<rparr> = public_record dc i s'"
  by (simp_all add: public_record_def)

lemma public_record_valid:
  "device_valid cx (public_record dc i s) \<longleftrightarrow> device_valid cx (public_record dc i ActiveDevice)"
  by (metis device_valid_status public_record_simps(5))

text \<open>A join request that an identity makes is one the workspace accepts.\<close>

lemma own_join_request_verifies:
  assumes "primitives_ok dc" and "create_join_request_at dc i rid w t = Ok r"
  shows "verify_for_workspace (dc_crypto dc) r w = Ok ()"
  using assms primitives_okD(1,2)[OF assms(1)]
  by (auto simp: primitives_okD(3)[OF assms(1)] create_join_request_at_def verify_for_workspace_def verify_join_request_signature_def
      validate_join_request_def identity_sign_Ok_iff validate_identity_Ok_iff join_request_new_unsigned_def
      join_request_with_signature_def join_signing_payload_def Let_def public_record_valid[of _ _ _ Pending]
      device_valid_def[symmetric] is_pending_def dest: primitives_okD(3)[OF assms(1), THEN notE])

lemma seal_OkD:
  assumes "seal_key_envelope dc st v k g key sender srec rec t ephemeral nonce = Ok e"
  shows "validate_identity dc sender = Ok ()" "device_valid (dc_crypto dc) srec" "device_valid (dc_crypto dc) rec"
    "matches_record sender srec"
    "authorize_key_delivery st v k g (dr_device_id srec) (dr_device_id rec) = Ok ()"
    "\<exists>envelope_key. dc_hkdf_expand dc ENVELOPE_HKDF_SALT (dc_diffie_hellman dc ephemeral (dr_exchange_public_key rec))
         (envelope_context_bytes e) = Some envelope_key
       \<and> dc_encrypt dc envelope_key nonce (envelope_context_bytes e) key = Some (ke_encrypted_workspace_key e)"
    "ke_workspace_id e = as_workspace_id st \<and> ke_key_id e = k \<and> ke_key_generation e = g
     \<and> ke_access_revision e = as_revision st \<and> ke_sender_device_id e = dr_device_id srec
     \<and> ke_recipient_device_id e = dr_device_id rec
     \<and> ke_sender_ephemeral_public_key e = dc_exchange_public dc ephemeral \<and> ke_nonce e = nonce"
    "identity_sign dc sender (envelope_signing_payload e) = Ok (ke_signature e)"
  using assms by (auto simp: seal_key_envelope_def derive_envelope_key_def require_identity_Ok_iff Let_def
      device_valid_def envelope_context_bytes_def envelope_signing_payload_def identity_sign_Ok_iff)

lemma seal_succeeds:
  assumes "validate_identity dc sender = Ok ()" "device_valid (dc_crypto dc) srec" "device_valid (dc_crypto dc) rec"
    "matches_record sender srec" "authorize_key_delivery st v k g (dr_device_id srec) (dr_device_id rec) = Ok ()"
    and "\<And>shared context. dc_hkdf_expand dc ENVELOPE_HKDF_SALT shared context = Some (kdf shared context)"
    and "\<And>k context. dc_encrypt dc k nonce context key = Some (cipher k context)"
  shows "is_ok (seal_key_envelope dc st v k g key sender srec rec t ephemeral nonce)"
  using assms by (auto simp: seal_key_envelope_def derive_envelope_key_def require_identity_matches_record_def
      matches_record_def device_valid_def is_ok_iff identity_sign_Ok_iff Let_def)

lemma run_events_revision:
  "access_inv cx st \<Longrightarrow> as_revision st \<le> as_revision (run_events cx st es)"
proof (induction es arbitrary: st)
  case (Cons e es)
  have "as_revision st \<le> as_revision (fst (apply_verified_event cx st e))"
    using apply_refines[OF Cons.prems, of e]
    by (auto simp: Let_def word_le_nat_alt split: prod.splits option.splits if_splits)
  then show ?case using Cons.IH[OF apply_inv[OF Cons.prems]] by (simp add: order_trans)
qed simp

lemma sealed_opens:
  assumes dc: "primitives_ok dc"
    and seal: "seal_key_envelope dc st v k g key sender srec rec t ephemeral nonce = Ok e"
    and size: "length key = WORKSPACE_KEY_SIZE" and g: "g \<noteq> 0"
    and own: "validate_identity dc recipient = Ok ()" "matches_record recipient rec"
    and later: "as_workspace_id st' = as_workspace_id st" "as_revision st \<le> as_revision st'"
  shows "open_key_envelope dc st' v e recipient rec srec =
    and_then (authorize_key_delivery st' v k g (dr_device_id srec) (dr_device_id rec)) (\<lambda>_. Ok key)"
proof -
  note e = seal_OkD[OF seal]
  obtain envelope_key where ek: "dc_hkdf_expand dc ENVELOPE_HKDF_SALT
        (dc_diffie_hellman dc ephemeral (dr_exchange_public_key rec)) (envelope_context_bytes e) = Some envelope_key"
      "dc_encrypt dc envelope_key nonce (envelope_context_bytes e) key = Some (ke_encrypted_workspace_key e)"
    using e(6) by auto
  have signed: "verify_device_signature (dc_crypto dc) srec (envelope_signing_payload e) (ke_signature e) = Ok ()"
    using e by (intro signed_by_identity[OF dc]) auto
  have "ke_signature e \<noteq> []" using e primitives_okD(3)[OF dc] by (simp add: identity_sign_Ok_iff)
  then have sender: "verify_sender_signature (dc_crypto dc) e srec = Ok ()"
    using e g signed primitives_okD(5)[OF dc ek(2)]
    by (simp add: verify_sender_signature_Ok_iff validate_envelope_def del: verify_device_signature_Ok_iff)
  have shared: "dc_diffie_hellman dc (di_exchange_private_key recipient) (ke_sender_ephemeral_public_key e)
      = dc_diffie_hellman dc ephemeral (dr_exchange_public_key rec)"
    using e own primitives_okD(4)[OF dc] by (simp add: validate_identity_Ok_iff matches_record_def)
  have req: "require_identity_matches_record recipient rec = Ok ()" using own(2) by (simp add: require_identity_Ok_iff)
  have valid: "validate_device (dc_crypto dc) srec = Ok ()" "validate_device (dc_crypto dc) rec = Ok ()"
    using e(2,3) by (simp_all add: device_valid_def)
  show ?thesis
  proof (cases "authorize_key_delivery st' v k g (dr_device_id srec) (dr_device_id rec)")
    case Ok
    have shared': "dc_diffie_hellman dc (di_exchange_private_key recipient) (dc_exchange_public dc ephemeral)
        = dc_diffie_hellman dc ephemeral (dr_exchange_public_key rec)" using shared e(7) by simp
    show ?thesis using Ok e(7) later primitives_okD(5)[OF dc ek(2)]
      by (auto simp: open_key_envelope_def own valid req sender shared' derive_envelope_key_def ek(1) size Let_def)
  next
    case Err
    then show ?thesis using e(7) later by (auto simp: open_key_envelope_def own valid req)
  qed
qed

lemma authorize_members:
  "authorize_key_delivery st v k g sender recipient = Ok u \<Longrightarrow>
   is_active_member st sender \<and> is_active_member st recipient"
  by (auto simp: authorize_key_delivery_def is_active_member_iff split: if_splits)

lemma open_authorized:
  "open_key_envelope dc st v e recipient rec srec = Ok key \<Longrightarrow>
   authorize_key_delivery st v (ke_key_id e) (ke_key_generation e) (dr_device_id srec) (dr_device_id rec) = Ok ()"
  by (auto simp: open_key_envelope_def split: if_splits)


section \<open>Properties\<close>

text \<open>
  Property C32: a workspace key sealed for a device comes out of the envelope as it went in.  Whatever
  access events follow the sealing, the recipient opens the envelope to exactly the sealed key when the
  delivery is still authorised in the later access state (the sender manages keys, the recipient is an active
  member, and holds the grant of a restricted key), and otherwise gets the authorisation's error and no key.
\<close>

theorem sealed_key_opens:
  assumes "primitives_ok dc"
    and "seal_key_envelope dc (run_events (dc_crypto dc) (state_empty w) es) visibility k g key
           sender sender_record recipient t ephemeral nonce = Ok envelope"
    and "length key = WORKSPACE_KEY_SIZE" and "g \<noteq> 0"
    and "validate_identity dc identity = Ok ()" and "matches_record identity recipient"
  shows "let st = run_events (dc_crypto dc) (state_empty w) (es @ later) in
    open_key_envelope dc st visibility envelope identity recipient sender_record =
      and_then (authorize_key_delivery st visibility k g (dr_device_id sender_record) (dr_device_id recipient))
        (\<lambda>_. Ok key)"
proof -
  let ?st = "run_events (dc_crypto dc) (state_empty w) es"
  have inv: "access_inv (dc_crypto dc) ?st" by (rule run_events_inv[OF access_inv_empty])
  show ?thesis
    using sealed_opens[OF assms(1-6) run_events_workspace[OF inv] run_events_revision[OF inv], of later]
    by (simp add: Let_def run_events_append)
qed

text \<open>
  Property C33: a removed device is out of every key delivery.  After its removal, whatever events follow,
  no key can be sealed by it or for it, and no envelope opens with it as the recipient or the sender, for
  shared and for restricted keys.
\<close>

theorem removed_device_gets_no_key:
  assumes "membership (run_events (dc_crypto dc) (state_empty w) es) d = Some m" and "mb_status m = Removed"
    and "dr_device_id sender_record = d \<or> dr_device_id recipient = d"
  shows "let st = run_events (dc_crypto dc) (state_empty w) (es @ later) in
    \<not> is_ok (seal_key_envelope dc st visibility k g key sender sender_record recipient t ephemeral nonce)
    \<and> \<not> is_ok (open_key_envelope dc st visibility envelope identity recipient sender_record)"
proof -
  let ?st = "run_events (dc_crypto dc) (state_empty w) es"
  let ?fin = "run_events (dc_crypto dc) ?st later"
  have inv: "access_inv (dc_crypto dc) ?st" by (rule run_events_inv[OF access_inv_empty])
  obtain m' where "membership ?fin d = Some m'" "mb_status m' = Removed"
    using run_keeps_removed[OF inv assms(1,2)] by auto
  then have "\<not> is_active_member ?fin d" by (simp add: is_active_member_iff)
  then have "authorize_key_delivery ?fin visibility k g (dr_device_id sender_record) (dr_device_id recipient) \<noteq> Ok ()"
    for k g using authorize_members[of ?fin visibility k g _ _ "()"] assms(3) by auto
  then show ?thesis
    by (auto simp: Let_def run_events_append is_ok_iff dest!: open_authorized seal_OkD(5))
qed


section \<open>A concrete delivery\<close>

text \<open>Primitives for which the promises hold: a public half repeats the first byte of its key, a shared
  secret is a bytewise sum, encryption appends a tag.\<close>

definition sample_device_crypto :: device_crypto where
  "sample_device_crypto = \<lparr>dc_crypto = sample_crypto, dc_signing_public = (\<lambda>k. replicate 32 (hd k)),
     dc_sign = (\<lambda>k _. replicate 64 (hd k)), dc_exchange_public = (\<lambda>k. k),
     dc_diffie_hellman = (\<lambda>a b. map2 (+) a b), dc_hkdf_expand = (\<lambda>_ shared _. Some shared),
     dc_encrypt = (\<lambda>_ _ _ m. Some (m @ replicate 16 0)), dc_decrypt = (\<lambda>_ _ _ c. Some (take (length c - 16) c))\<rparr>"

lemma sample_primitives_ok: "primitives_ok sample_device_crypto"
proof -
  have "map2 (+) a b = map2 (+) b a" for a b :: bytes
    by (induction a b rule: list_induct2') (simp_all add: add.commute)
  then show ?thesis
    by (auto simp: primitives_ok_def sample_device_crypto_def sample_crypto_def XCHACHA20_POLY1305_TAG_SIZE_def
        simp flip: replicate_Suc)
qed

definition sample_identity :: "string \<Rightarrow> DeviceIdentity" where
  "sample_identity name = \<lparr>di_device_id = DeviceId (''device_'' @ name), di_device_name = name,
     di_signing_public_key = replicate 32 1, di_signing_private_key = [1],
     di_exchange_public_key = replicate 32 2, di_exchange_private_key = replicate 32 2\<rparr>"

definition sample_seal :: "nat \<Rightarrow> KeyEnvelope access_result" where
  "sample_seal n = seal_key_envelope sample_device_crypto (sample_state n) Restricted (KeyId ''k'') 1 (replicate 32 7)
     (sample_identity ''a'') (sample_device ''a'' ActiveDevice) (sample_device ''b'' ActiveDevice) 2000
     (replicate 32 3) (replicate 24 4)"

definition sample_sealed :: KeyEnvelope where
  "sample_sealed = (case sample_seal 3 of Ok e \<Rightarrow> e | Err _ \<Rightarrow> undefined)"

lemma sample_identity_valid:
  "validate_identity sample_device_crypto (sample_identity ''a'') = Ok ()"
  "validate_identity sample_device_crypto (sample_identity ''b'') = Ok ()"
  "device_valid (dc_crypto sample_device_crypto) (sample_device ''a'' ActiveDevice)"
  "device_valid (dc_crypto sample_device_crypto) (sample_device ''b'' ActiveDevice)"
  "matches_record (sample_identity ''a'') (sample_device ''a'' ActiveDevice)"
  "matches_record (sample_identity ''b'') (sample_device ''b'' ActiveDevice)"
  by code_simp+

lemma sample_authorized:
  "authorize_key_delivery (sample_state 3) Restricted (KeyId ''k'') 1 (DeviceId ''device_a'') (DeviceId ''device_b'')
     = Ok ()"
  by code_simp

lemma sample_seals: "sample_seal 3 = Ok sample_sealed"
proof -
  have "is_ok (sample_seal 3)" unfolding sample_seal_def
  proof (rule seal_succeeds[OF sample_identity_valid(1,3,4,5)])
    show "authorize_key_delivery (sample_state 3) Restricted (KeyId ''k'') 1
        (dr_device_id (sample_device ''a'' ActiveDevice)) (dr_device_id (sample_device ''b'' ActiveDevice)) = Ok ()"
      using sample_authorized by (simp add: sample_device_def)
  qed (simp_all add: sample_device_crypto_def)
  then show ?thesis by (auto simp: sample_sealed_def is_ok_iff)
qed

theorem sealed_key_opens_witness:
  "open_key_envelope sample_device_crypto (sample_state 3) Restricted sample_sealed (sample_identity ''b'')
     (sample_device ''b'' ActiveDevice) (sample_device ''a'' ActiveDevice) = Ok (replicate 32 7)"
proof -
  have cx: "dc_crypto sample_device_crypto = sample_crypto" by (simp add: sample_device_crypto_def)
  note seal = sample_seals[unfolded sample_seal_def sample_state_def, folded cx]
  have ids: "dr_device_id (sample_device ''a'' ActiveDevice) = DeviceId ''device_a''"
      "dr_device_id (sample_device ''b'' ActiveDevice) = DeviceId ''device_b''" by (simp_all add: sample_device_def)
  show ?thesis
    using sealed_key_opens[OF sample_primitives_ok seal _ _ sample_identity_valid(2,6), of "[]"] sample_authorized
    by (simp add: cx Let_def ids sample_state_def WORKSPACE_KEY_SIZE_def)
qed

theorem removed_device_gets_no_key_witness: "\<not> is_ok (sample_seal 4)"
proof -
  have cx: "dc_crypto sample_device_crypto = sample_crypto" by (simp add: sample_device_crypto_def)
  have d: "dr_device_id (sample_device ''b'' ActiveDevice) = DeviceId ''device_b''" by (simp add: sample_device_def)
  obtain m where "membership (sample_state 4) (DeviceId ''device_b'') = Some m" "mb_status m = Removed"
    using sample_removed_member by auto
  then show ?thesis
    using removed_device_gets_no_key[of sample_device_crypto sample_workspace "take 4 sample_history"
        "DeviceId ''device_b''" m _ "sample_device ''b'' ActiveDevice" "[]"]
    unfolding sample_seal_def by (simp add: cx d sample_state_def Let_def)
qed

end
