(* ===== verification/Client.thy ===== *)
theory Client
  imports Key_Delivery Server_Api
begin

text \<open>
  \<^verbatim>\<open>rustsync-client\<close> (\<^verbatim>\<open>error.rs\<close>, \<^verbatim>\<open>auth.rs\<close>,
  \<^verbatim>\<open>transport.rs\<close>, \<^verbatim>\<open>client.rs\<close>) and
  \<^verbatim>\<open>rustsync-cli/src/local_device_signer.rs\<close>: how a device signs a request, sends it and reads
  the answer.  The HTTP library, \<^verbatim>\<open>Url::join\<close>, JSON and the \<^verbatim>\<open>Display\<close> texts are
  parameters; the clock and the random bytes of a call are arguments.
\<close>

section \<open>The HTTP library\<close>

text \<open>\<^verbatim>\<open>reqwest::Error\<close> by what the code asks of it.\<close>

datatype RequestFailure = TimedOut | DecodeFailure string | NetworkFailure string

fun failure_text :: "RequestFailure \<Rightarrow> string" where
  "failure_text TimedOut = ''operation timed out''"
| "failure_text (DecodeFailure e) = e"
| "failure_text (NetworkFailure e) = e"

text \<open>A response: its status, the announced length of the body, and the pieces the body arrives in.\<close>

record HttpResponse =
  hr_status :: nat
  hr_content_length :: "u64 option"
  hr_chunks :: "(bytes, RequestFailure) result list"

record Url =
  url_path :: string
  url_query :: "string option"

definition is_success :: "HttpResponse \<Rightarrow> bool" where
  "is_success r \<longleftrightarrow> 200 \<le> hr_status r \<and> hr_status r < 300"

fun whole_body :: "(bytes, RequestFailure) result list \<Rightarrow> (bytes, RequestFailure) result" where
  "whole_body [] = Ok []"
| "whole_body (c # cs) = and_then c (\<lambda>b. and_then (whole_body cs) (\<lambda>bs. Ok (b @ bs)))"

text \<open>\<^verbatim>\<open>Response::json\<close>.\<close>

definition response_json :: "(bytes \<Rightarrow> ('a, string) result) \<Rightarrow> HttpResponse \<Rightarrow> ('a, RequestFailure) result" where
  "response_json from_slice r = and_then (whole_body (hr_chunks r)) (\<lambda>b. map_err (from_slice b) DecodeFailure)"


section \<open>Errors\<close>

datatype ClientError =
    ClServer ApiErrorResponse
  | ClTimeout
  | ClSigning string
  | ClNetwork string
  | InvalidResponse string
  | InvalidConfig string

type_synonym 'a client_result = "('a, ClientError) result"

fun from_reqwest :: "RequestFailure \<Rightarrow> ClientError" where
  "from_reqwest TimedOut = ClTimeout"
| "from_reqwest (DecodeFailure e) = InvalidResponse (''failed to decode JSON response: '' @ e)"
| "from_reqwest (NetworkFailure e) = ClNetwork e"


section \<open>A client\<close>

text \<open>The texts of errors and of a status, as \<^verbatim>\<open>Display\<close> prints them.\<close>

record texts =
  tx_device :: "DeviceError \<Rightarrow> string"
  tx_protocol :: "ProtocolError \<Rightarrow> string"
  tx_status :: "nat \<Rightarrow> string"

text \<open>\<^verbatim>\<open>RustSyncClient\<close>: the base URL as what it joins to, the signer, and the HTTP
  client, which sends a request to whatever answers it.\<close>

record 'st client =
  cl_crypto :: crypto
  cl_texts :: texts
  cl_join :: "string \<Rightarrow> (Url, string) result"
  cl_device_id :: DeviceId
  cl_sign :: "bytes \<Rightarrow> bytes client_result"
  cl_send :: "Request \<Rightarrow> ('st, HttpResponse, RequestFailure) action"

text \<open>What one call draws from its surroundings: the time, and sixteen random bytes or the failure to
  get them.\<close>

record call =
  co_now :: u64
  co_random :: "(bytes, string) result"

datatype Method = GetMethod | PostMethod | PutMethod

fun method_as_str :: "Method \<Rightarrow> string" where
  "method_as_str GetMethod = ''GET''"
| "method_as_str PostMethod = ''POST''"
| "method_as_str PutMethod = ''PUT''"

text \<open>\<^verbatim>\<open>LocalDeviceRequestSigner\<close> and \<^verbatim>\<open>client_for_workspace\<close>.\<close>

definition local_device_sign :: "device_crypto \<Rightarrow> texts \<Rightarrow> DeviceIdentity \<Rightarrow> bytes \<Rightarrow> bytes client_result" where
  "local_device_sign dc tx identity canonical_request =
     map_err (identity_sign dc identity canonical_request) (\<lambda>error. ClSigning (tx_device tx error))"

definition client_for_workspace :: "device_crypto \<Rightarrow> texts \<Rightarrow> (string \<Rightarrow> (Url, string) result) \<Rightarrow>
    (Request \<Rightarrow> ('st, HttpResponse, RequestFailure) action) \<Rightarrow> DeviceIdentity \<Rightarrow> 'st client" where
  "client_for_workspace dc tx join send identity = \<lparr>cl_crypto = dc_crypto dc, cl_texts = tx, cl_join = join,
     cl_device_id = di_device_id identity, cl_sign = local_device_sign dc tx identity, cl_send = send\<rparr>"


section \<open>Transport\<close>

definition url_path_and_query :: "Url \<Rightarrow> string" where
  "url_path_and_query url = (case url_query url of
     None \<Rightarrow> url_path url | Some query \<Rightarrow> url_path url @ ''?'' @ query)"

text \<open>The sixteen bytes are printed as the hexadecimal digits of a little-endian number.\<close>

definition generate_nonce :: "texts \<Rightarrow> (bytes, string) result \<Rightarrow> RequestNonce client_result" where
  "generate_nonce tx random =
    and_then (map_err random (\<lambda>error. ClSigning (''failed to generate request nonce: '' @ error))) (\<lambda>bs.
      map_err (parse_nonce (''nonce_'' @ hex_encode (rev bs))) (\<lambda>error. ClSigning (tx_protocol tx error)))"

text \<open>\<^verbatim>\<open>send_signed\<close> up to the request it builds; the HTTP library sends the target of the URL.\<close>

definition signed_request :: "'st client \<Rightarrow> call \<Rightarrow> Method \<Rightarrow> string \<Rightarrow> bytes \<Rightarrow> string option \<Rightarrow> Request client_result" where
  "signed_request cl co meth path body content_type =
    and_then (map_err (cl_join cl path) InvalidConfig) (\<lambda>url.
    let path_and_query = url_path_and_query url; timestamp = co_now co in
    and_then (generate_nonce (cl_texts cl) (co_random co)) (\<lambda>nonce.
    let input = signature_input (cl_crypto cl) (parts_new (method_as_str meth) path_and_query body)
                  (cl_device_id cl) timestamp nonce in
    and_then (cl_sign cl (canonical_payload input)) (\<lambda>signature.
    let auth = to_header_values (cl_crypto cl) (auth_headers (with_signature input signature)) in
    Ok \<lparr>rq_method = method_as_str meth,
        rq_uri = \<lparr>uri_path = url_path url, uri_path_and_query = Some path_and_query\<rparr>,
        rq_headers = [(DEVICE_ID_HEADER, str_bytes (hv_device_id auth)),
          (TIMESTAMP_HEADER, str_bytes (hv_timestamp auth)), (NONCE_HEADER, str_bytes (hv_nonce auth)),
          (SIGNATURE_HEADER, str_bytes (hv_signature auth))]
          @ (case content_type of None \<Rightarrow> [] | Some t \<Rightarrow> [(''content-type'', str_bytes t)]),
        rq_body = body\<rparr>)))"

definition send_signed :: "'st client \<Rightarrow> call \<Rightarrow> Method \<Rightarrow> string \<Rightarrow> bytes \<Rightarrow> string option \<Rightarrow>
    ('st, HttpResponse, ClientError) action" where
  "send_signed cl co meth path body content_type =
    then_do (lift_result (signed_request cl co meth path body content_type)) (\<lambda>request.
      map_error (cl_send cl request) from_reqwest)"

definition decode_error_response :: "texts \<Rightarrow> (bytes \<Rightarrow> (ApiErrorResponse, string) result) \<Rightarrow> HttpResponse \<Rightarrow> ClientError" where
  "decode_error_response tx error_json r = (case response_json error_json r of
     Ok e \<Rightarrow> ClServer e
   | Err error \<Rightarrow> InvalidResponse (''failed to decode JSON error response for HTTP '' @ tx_status tx (hr_status r)
         @ '': '' @ failure_text error))"

text \<open>The codecs of \<^verbatim>\<open>serde_json\<close> for the types a client writes and reads.\<close>

record client_codec =
  cj_error :: "bytes \<Rightarrow> (ApiErrorResponse, string) result"
  cj_created :: "bytes \<Rightarrow> (WorkspaceId \<times> WorkspaceHead, string) result"
  cj_submitted :: "bytes \<Rightarrow> (JoinRequestSubmissionResponse, string) result"
  cj_joins :: "bytes \<Rightarrow> (DeviceJoinRequest list, string) result"
  cj_access :: "bytes \<Rightarrow> (AccessState, string) result"
  cj_upload :: "bytes \<Rightarrow> (ObjectUploadStatus, string) result"
  cj_envelope :: "bytes \<Rightarrow> (KeyEnvelope, string) result"
  cj_head :: "bytes \<Rightarrow> (WorkspaceHead, string) result"
  ck_create :: "CreateWorkspaceRequest \<Rightarrow> (bytes, string) result"
  ck_join :: "DeviceJoinRequest \<Rightarrow> (bytes, string) result"
  ck_approve :: "ApproveJoinRequestRequest \<Rightarrow> (bytes, string) result"
  ck_apply :: "ApplyAccessEventRequest \<Rightarrow> (bytes, string) result"
  ck_envelope :: "KeyEnvelope \<Rightarrow> (bytes, string) result"
  ck_update_head :: "UpdateHeadRequest \<Rightarrow> (bytes, string) result"

definition decode_json_response :: "texts \<Rightarrow> client_codec \<Rightarrow> (bytes \<Rightarrow> ('a, string) result) \<Rightarrow> HttpResponse \<Rightarrow> 'a client_result" where
  "decode_json_response tx js from_slice r =
    (if \<not> is_success r then Err (decode_error_response tx (cj_error js) r)
     else map_err (response_json from_slice r) from_reqwest)"

definition over_limit :: "nat \<Rightarrow> ClientError" where
  "over_limit maximum = InvalidResponse (''response body exceeds the '' @ show_nat maximum @ ''-byte limit'')"

fun read_chunks :: "nat \<Rightarrow> bytes \<Rightarrow> (bytes, RequestFailure) result list \<Rightarrow> bytes client_result" where
  "read_chunks maximum acc [] = Ok acc"
| "read_chunks maximum acc (c # cs) = and_then (map_err c from_reqwest) (\<lambda>chunk.
     if length chunk > maximum - length acc then Err (over_limit maximum)
     else read_chunks maximum (acc @ chunk) cs)"

definition decode_bytes_response :: "texts \<Rightarrow> client_codec \<Rightarrow> nat \<Rightarrow> HttpResponse \<Rightarrow> bytes client_result" where
  "decode_bytes_response tx js maximum r =
    (if \<not> is_success r then Err (decode_error_response tx (cj_error js) r)
     else if (case hr_content_length r of None \<Rightarrow> False | Some n \<Rightarrow> unat n > maximum) then Err (over_limit maximum)
     else read_chunks maximum [] (hr_chunks r))"

definition request_json_signed :: "client_codec \<Rightarrow> (bytes \<Rightarrow> ('a, string) result) \<Rightarrow> 'st client \<Rightarrow> call \<Rightarrow> Method \<Rightarrow>
    string \<Rightarrow> bytes \<Rightarrow> ('st, 'a, ClientError) action" where
  "request_json_signed js from_slice cl co meth path body =
    then_do (send_signed cl co meth path body None) (\<lambda>response.
      lift_result (decode_json_response (cl_texts cl) js from_slice response))"

definition request_json_body_signed :: "client_codec \<Rightarrow> (bytes \<Rightarrow> ('a, string) result) \<Rightarrow> 'st client \<Rightarrow> call \<Rightarrow>
    Method \<Rightarrow> string \<Rightarrow> (bytes, string) result \<Rightarrow> ('st, 'a, ClientError) action" where
  "request_json_body_signed js from_slice cl co meth path body =
    then_do (lift_result (map_err body (\<lambda>error. InvalidConfig (''failed to encode JSON body: '' @ error)))) (\<lambda>body.
    then_do (send_signed cl co meth path body (Some ''application/json'')) (\<lambda>response.
      lift_result (decode_json_response (cl_texts cl) js from_slice response)))"

definition request_bytes_signed :: "client_codec \<Rightarrow> 'st client \<Rightarrow> call \<Rightarrow> Method \<Rightarrow> string \<Rightarrow> bytes \<Rightarrow> nat \<Rightarrow>
    ('st, bytes, ClientError) action" where
  "request_bytes_signed js cl co meth path body maximum =
    then_do (send_signed cl co meth path body None) (\<lambda>response.
      lift_result (decode_bytes_response (cl_texts cl) js maximum response))"


section \<open>The operations of a client\<close>

type_synonym ('st, 'a) client_call = "('st, 'a, ClientError) action"

definition cl_upload_object :: "client_codec \<Rightarrow> 'st client \<Rightarrow> call \<Rightarrow> string \<Rightarrow> bytes \<Rightarrow> ('st, ObjectUploadStatus) client_call" where
  "cl_upload_object js cl co path bs = request_json_signed js (cj_upload js) cl co PutMethod path bs"

definition cl_download_object :: "client_codec \<Rightarrow> 'st client \<Rightarrow> call \<Rightarrow> string \<Rightarrow> ('st, bytes) client_call" where
  "cl_download_object js cl co path = request_bytes_signed js cl co GetMethod path [] MAX_ENCRYPTED_OBJECT_BYTES"

definition cl_upload_blob :: "client_codec \<Rightarrow> 'st client \<Rightarrow> call \<Rightarrow> WorkspaceId \<Rightarrow> BlobId \<Rightarrow> bytes \<Rightarrow>
    ('st, ObjectUploadStatus) client_call" where
  "cl_upload_blob js cl co w b bs = cl_upload_object js cl co (sync_relative_path (endpoint_blob w b)) bs"

definition cl_download_blob :: "client_codec \<Rightarrow> 'st client \<Rightarrow> call \<Rightarrow> WorkspaceId \<Rightarrow> BlobId \<Rightarrow> ('st, bytes) client_call" where
  "cl_download_blob js cl co w b = cl_download_object js cl co (sync_relative_path (endpoint_blob w b))"

definition cl_upload_manifest :: "client_codec \<Rightarrow> 'st client \<Rightarrow> call \<Rightarrow> WorkspaceId \<Rightarrow> ManifestId \<Rightarrow> bytes \<Rightarrow>
    ('st, ObjectUploadStatus) client_call" where
  "cl_upload_manifest js cl co w i bs = cl_upload_object js cl co (sync_relative_path (endpoint_manifest w i)) bs"

definition cl_download_manifest :: "client_codec \<Rightarrow> 'st client \<Rightarrow> call \<Rightarrow> WorkspaceId \<Rightarrow> ManifestId \<Rightarrow> ('st, bytes) client_call" where
  "cl_download_manifest js cl co w i = cl_download_object js cl co (sync_relative_path (endpoint_manifest w i))"

definition cl_fetch_workspace_head :: "client_codec \<Rightarrow> 'st client \<Rightarrow> call \<Rightarrow> WorkspaceId \<Rightarrow> ('st, WorkspaceHead) client_call" where
  "cl_fetch_workspace_head js cl co w =
     request_json_signed js (cj_head js) cl co GetMethod (sync_relative_path (endpoint_head w)) []"

definition cl_update_workspace_head :: "client_codec \<Rightarrow> 'st client \<Rightarrow> call \<Rightarrow> WorkspaceId \<Rightarrow> u64 \<Rightarrow> ManifestId \<Rightarrow>
    ('st, WorkspaceHead) client_call" where
  "cl_update_workspace_head js cl co w expected_revision manifest_id =
     request_json_body_signed js (cj_head js) cl co PutMethod (sync_relative_path (endpoint_head w))
       (ck_update_head js \<lparr>uh_expected_revision = expected_revision, uh_manifest_id = manifest_id\<rparr>)"

definition access_path :: "WorkspaceId \<Rightarrow> WorkspaceAccessResource \<Rightarrow> string" where
  "access_path w r = access_relative_path \<lparr>ae_workspace_id = w, ae_resource = r\<rparr>"

definition cl_create_workspace :: "client_codec \<Rightarrow> 'st client \<Rightarrow> call \<Rightarrow> CreateWorkspaceRequest \<Rightarrow>
    ('st, WorkspaceId \<times> WorkspaceHead) client_call" where
  "cl_create_workspace js cl co request =
     request_json_body_signed js (cj_created js) cl co PostMethod ''workspaces'' (ck_create js request)"

definition cl_submit_join_request :: "client_codec \<Rightarrow> 'st client \<Rightarrow> call \<Rightarrow> DeviceJoinRequest \<Rightarrow>
    ('st, JoinRequestSubmissionResponse) client_call" where
  "cl_submit_join_request js cl co request =
     request_json_body_signed js (cj_submitted js) cl co PostMethod (access_path (jr_workspace_id request) JoinRequests)
       (ck_join js request)"

definition cl_list_join_requests :: "client_codec \<Rightarrow> 'st client \<Rightarrow> call \<Rightarrow> WorkspaceId \<Rightarrow>
    ('st, DeviceJoinRequest list) client_call" where
  "cl_list_join_requests js cl co w = request_json_signed js (cj_joins js) cl co GetMethod (access_path w JoinRequests) []"

definition cl_approve_join_request :: "client_codec \<Rightarrow> 'st client \<Rightarrow> call \<Rightarrow> WorkspaceId \<Rightarrow> JoinRequestId \<Rightarrow>
    SignedAccessEvent \<Rightarrow> ('st, AccessState) client_call" where
  "cl_approve_join_request js cl co w join_request_id event =
     request_json_body_signed js (cj_access js) cl co PostMethod (access_path w (JoinRequestApproval join_request_id))
       (ck_approve js \<lparr>aj_join_request_id = join_request_id, aj_event = event\<rparr>)"

definition cl_apply_access_event :: "client_codec \<Rightarrow> 'st client \<Rightarrow> call \<Rightarrow> WorkspaceId \<Rightarrow> SignedAccessEvent \<Rightarrow>
    ('st, AccessState) client_call" where
  "cl_apply_access_event js cl co w event =
     request_json_body_signed js (cj_access js) cl co PostMethod (access_path w AccessEvents)
       (ck_apply js \<lparr>ae_event = event\<rparr>)"

definition cl_fetch_access_state :: "client_codec \<Rightarrow> 'st client \<Rightarrow> call \<Rightarrow> WorkspaceId \<Rightarrow> ('st, AccessState) client_call" where
  "cl_fetch_access_state js cl co w = request_json_signed js (cj_access js) cl co GetMethod (access_path w AccessStateResource) []"

definition cl_upload_key_envelope :: "client_codec \<Rightarrow> 'st client \<Rightarrow> call \<Rightarrow> KeyEnvelope \<Rightarrow>
    ('st, ObjectUploadStatus) client_call" where
  "cl_upload_key_envelope js cl co envelope =
     request_json_body_signed js (cj_upload js) cl co PutMethod
       (access_path (ke_workspace_id envelope) (KeyEnvelopeResource (ke_key_id envelope) (ke_recipient_device_id envelope)))
       (ck_envelope js envelope)"

definition cl_download_key_envelope :: "client_codec \<Rightarrow> 'st client \<Rightarrow> call \<Rightarrow> WorkspaceId \<Rightarrow> KeyId \<Rightarrow> DeviceId \<Rightarrow>
    ('st, KeyEnvelope) client_call" where
  "cl_download_key_envelope js cl co w key_id recipient_device_id =
     request_json_signed js (cj_envelope js) cl co GetMethod (access_path w (KeyEnvelopeResource key_id recipient_device_id)) []"

end
