(* ===== verification/Client_Props.thy ===== *)
theory Client_Props
  imports Client Server_Props
begin

text \<open>
  The client against the server: what the client signs is what the server verifies, the paths it builds
  are the routes the server serves, and what one device uploads is what another downloads.
\<close>

section \<open>Texts in headers\<close>

definition visible_text :: "string \<Rightarrow> bool" where
  "visible_text s \<longleftrightarrow> list_all (\<lambda>c. CHR '' '' \<le> c \<and> c \<le> CHR ''~'') s"

lemma visible_parts:
  "list_all id_char s \<Longrightarrow> visible_text s" "visible_text (show_u64 t)"
proof -
  show "list_all id_char s \<Longrightarrow> visible_text s"
    by (auto simp: visible_text_def list_all_iff id_char_def is_ascii_alphanumeric_def less_eq_char_def)
  show "visible_text (show_u64 t)"
    using show_nat_digits[of "unat t"]
    by (auto simp: visible_text_def show_u64_def list_all_iff is_digit_char_def less_eq_char_def)
qed

lemma header_value_visible: "visible_text s \<Longrightarrow> header_value_to_str (str_bytes s) = Ok s"
proof -
  assume s: "visible_text s"
  have "32 \<le> (of_char c :: byte) \<and> (of_char c :: byte) < 127" if "CHR '' '' \<le> c \<and> c \<le> CHR ''~''" for c
    using that by (simp add: less_eq_char_def word_le_nat_alt word_less_nat_alt unat_of_char)
  then have "list_all (\<lambda>b. b = 9 \<or> (32 \<le> b \<and> b < 127)) (str_bytes s)"
    using s by (auto simp: visible_text_def list_all_iff str_bytes_def)
  then show ?thesis unfolding header_value_to_str_def by (simp only: if_True bytes_str_bytes)
qed

text \<open>A nonce made of sixteen random bytes is accepted by its own parser.\<close>

definition nonce_of :: "bytes \<Rightarrow> RequestNonce" where
  "nonce_of bs = RequestNonce (''nonce_'' @ hex_encode (rev bs))"

lemma nonce_of_ok: "length bs = 16 \<Longrightarrow> nonce_ok (nonce_of bs)"
proof -
  assume n: "length bs = 16"
  have "list_all id_char (hex_encode (rev bs))"
    using hex_encode_lower[of "rev bs"] by (auto simp: list_all_iff is_lower_hex_def id_char_def is_ascii_alphanumeric_def less_eq_char_def)
  moreover have "list_all id_char ''nonce_''" by code_simp
  ultimately have chars: "list_all id_char (''nonce_'' @ hex_encode (rev bs))" by (simp only: list_all_append)
  have size: "length (''nonce_'' @ hex_encode (rev bs)) = 38" by (simp add: n)
  show ?thesis using chars size
    by (simp add: nonce_ok_def valid_text_id_def nonce_of_def MAX_REQUEST_NONCE_LEN_def)
qed

lemma generate_nonce_Ok: "length bs = 16 \<Longrightarrow> generate_nonce tx (Ok bs) = Ok (nonce_of bs)"
  using nonce_of_ok[of bs] by (simp add: generate_nonce_def nonce_of_def)


section \<open>Routes\<close>

definition endpoint_route :: "WorkspaceSyncEndpoint \<Rightarrow> Route" where
  "endpoint_route ep = (case se_resource ep of
     Blob b \<Rightarrow> BlobRoute (workspace_id_str (se_workspace_id ep)) (blob_id_str b)
   | ManifestResource i \<Rightarrow> ManifestRoute (workspace_id_str (se_workspace_id ep)) (manifest_id_str i)
   | Head \<Rightarrow> HeadRoute (workspace_id_str (se_workspace_id ep)))"

text \<open>The handler a sync endpoint is meant to reach.\<close>

definition endpoint_handler :: "server_env \<Rightarrow> 'st Storage \<Rightarrow> u64 \<Rightarrow> AuthenticatedDevice \<Rightarrow> WorkspaceSyncMethod \<Rightarrow>
    Request \<Rightarrow> WorkspaceSyncEndpoint \<Rightarrow> 'st service" where
  "endpoint_handler env ops now auth meth req ep = (let w = se_workspace_id ep in case (meth, se_resource ep) of
     (Get, Blob b) \<Rightarrow> respond (api_get_blob ops w b)
   | (Put, Blob b) \<Rightarrow> respond (api_put_blob ops w b (rq_body req))
   | (Get, ManifestResource i) \<Rightarrow> respond (api_get_manifest ops w i)
   | (Put, ManifestResource i) \<Rightarrow> respond (api_put_manifest ops w i (rq_body req))
   | (Get, Head) \<Rightarrow> respond (api_get_head ops w)
   | (Put, Head) \<Rightarrow> with_param (en_update_head env (rq_headers req) (rq_body req)) (\<lambda>request.
       respond (api_update_head ops now w auth request)))"

lemma id_no_percent: "valid_text_id p n s \<Longrightarrow> CHR ''%'' \<notin> set s"
  by (auto simp: valid_text_id_def list_all_iff id_char_def is_ascii_alphanumeric_def less_eq_char_def)

lemma object_id_no_percent:
  assumes "valid_object_id p s" and "CHR ''%'' \<notin> set p"
  shows "CHR ''%'' \<notin> set s"
proof -
  have "\<not> is_lower_hex (CHR ''%'')" by (simp add: is_lower_hex_def less_eq_char_def)
  then show ?thesis using assms by (auto simp: valid_object_id_def list_all_iff)
qed

lemma own_path_param:
  assumes "identifiers_ok env"
  shows "workspace_id_ok w \<Longrightarrow> path_param env parse_workspace_id (workspace_id_str w) = Some w"
    and "blob_id_ok b \<Longrightarrow> path_param env parse_blob_id (blob_id_str b) = Some b"
    and "manifest_id_ok i \<Longrightarrow> path_param env parse_manifest_id (manifest_id_str i) = Some i"
proof -
  have percent: "CHR ''%'' \<notin> set s \<Longrightarrow> en_percent env s = Some s" for s
    using assms by (simp add: identifiers_ok_def)
  show "path_param env parse_workspace_id (workspace_id_str w) = Some w" if w: "workspace_id_ok w"
  proof -
    have "parse_workspace_id (workspace_id_str w) = Ok w" using w by simp
    moreover have "CHR ''%'' \<notin> set (workspace_id_str w)" using w id_no_percent by (auto simp: workspace_id_ok_def)
    ultimately show ?thesis by (simp add: path_param_def percent del: parse_workspace_id_Ok_iff)
  qed
  show "path_param env parse_blob_id (blob_id_str b) = Some b" if b: "blob_id_ok b"
  proof -
    have "parse_blob_id (blob_id_str b) = Ok b" using b by simp
    moreover have "CHR ''%'' \<notin> set (blob_id_str b)"
      using b object_id_no_percent[of BLOB_ID_PREFIX] by (auto simp: blob_id_ok_def BLOB_ID_PREFIX_def)
    ultimately show ?thesis by (simp add: path_param_def percent del: parse_blob_id_Ok_iff)
  qed
  show "path_param env parse_manifest_id (manifest_id_str i) = Some i" if i: "manifest_id_ok i"
  proof -
    have "parse_manifest_id (manifest_id_str i) = Ok i" using i by simp
    moreover have "CHR ''%'' \<notin> set (manifest_id_str i)"
      using i object_id_no_percent[of MANIFEST_ID_PREFIX] by (auto simp: manifest_id_ok_def MANIFEST_ID_PREFIX_def)
    ultimately show ?thesis by (simp add: path_param_def percent del: parse_manifest_id_Ok_iff)
  qed
qed

lemma split_on_pair: "c \<notin> set a \<Longrightarrow> c \<notin> set b \<Longrightarrow> split_on c (a @ c # b) = [a, b]"
  by (simp add: split_on_append split_on_no_sep)

lemma match_own_path:
  assumes ep: "endpoint_ok ep"
  shows "match_route (sync_absolute_path ep) = Some (endpoint_route ep)"
proof -
  let ?w = "workspace_id_str (se_workspace_id ep)"
  let ?t = "resource_tail (se_resource ep)"
  have w: "CHR ''/'' \<notin> set ?w" "?w \<noteq> []"
    using ep workspace_id_ok_no_slash by (auto simp: endpoint_ok_def workspace_id_ok_def valid_text_id_def)
  have tail: "match_workspace_route ?w (split_on CHR ''/'' ?t) = Some (endpoint_route ep)"
  proof (cases "se_resource ep")
    case (Blob b)
    then have "blob_id_ok b" using ep by (simp add: endpoint_ok_def resource_ok_def)
    then have b: "CHR ''/'' \<notin> set (blob_id_str b)" "blob_id_str b \<noteq> []"
      using blob_id_ok_no_slash by (auto simp: blob_id_ok_def valid_object_id_def BLOB_ID_PREFIX_def)
    have "split_on CHR ''/'' ?t = [''blobs'', blob_id_str b]"
      using split_on_pair[of "CHR ''/''" "''blobs''" "blob_id_str b"] b by (simp add: Blob resource_tail_def)
    then show ?thesis using b by (simp add: match_workspace_route_def endpoint_route_def Blob)
  next
    case (ManifestResource i)
    then have "manifest_id_ok i" using ep by (simp add: endpoint_ok_def resource_ok_def)
    then have i: "CHR ''/'' \<notin> set (manifest_id_str i)" "manifest_id_str i \<noteq> []"
      using manifest_id_ok_no_slash by (auto simp: manifest_id_ok_def valid_object_id_def MANIFEST_ID_PREFIX_def)
    have "split_on CHR ''/'' ?t = [''manifests'', manifest_id_str i]"
      using split_on_pair[of "CHR ''/''" "''manifests''" "manifest_id_str i"] i
      by (simp add: ManifestResource resource_tail_def)
    then show ?thesis using i by (simp add: match_workspace_route_def endpoint_route_def ManifestResource)
  next
    case Head
    then show ?thesis by (simp add: match_workspace_route_def endpoint_route_def resource_tail_def)
  qed
  have rest: "strip_prefix (sync_absolute_path ep) workspaces_prefix = Some (?w @ CHR ''/'' # ?t)"
    by (simp add: sync_absolute_path_eq strip_prefix_append)
  have fixed: "sync_absolute_path ep \<noteq> ''/health'' \<and> sync_absolute_path ep \<noteq> ''/workspaces''"
    by (simp add: sync_absolute_path_eq workspaces_prefix_def)
  show ?thesis using fixed w by (simp add: match_route_def rest split_once_append tail)
qed

lemma route_own_path:
  assumes ids: "identifiers_ok env" and ep: "endpoint_ok ep"
    and path: "uri_path (rq_uri req) = sync_absolute_path ep"
    and meth: "rq_method req = method_str meth" and body: "length (rq_body req) \<le> MAX_OBJECT_BODY_BYTES"
  shows "route_request env ops now (Some auth) req = endpoint_handler env ops now auth meth req ep"
proof -
  have w: "path_param env parse_workspace_id (workspace_id_str (se_workspace_id ep)) = Some (se_workspace_id ep)"
    using own_path_param(1)[OF ids] ep by (simp add: endpoint_ok_def)
  have r: "resource_ok (se_resource ep)" using ep by (simp add: endpoint_ok_def)
  show ?thesis using own_path_param(2,3)[OF ids] r body meth w
    by (cases "se_resource ep"; cases meth)
       (auto simp: route_request_def path match_own_path[OF ep] endpoint_route_def with_param_def route_workspace_def
        workspace_service_def endpoint_handler_def is_get_def with_body_def resource_ok_def Let_def split: option.splits)
qed


section \<open>Signatures\<close>

lemma headers_of_client:
  assumes "visible_text (device_id_str d)" and "visible_text (nonce_str n)" and "visible_text sg"
    and "device_id_ok d" and "nonce_ok n" and "b64dec sg = Some s"
  shows "parse_auth_headers b64dec ([(DEVICE_ID_HEADER, str_bytes (device_id_str d)),
      (TIMESTAMP_HEADER, str_bytes (show_u64 t)), (NONCE_HEADER, str_bytes (nonce_str n)),
      (SIGNATURE_HEADER, str_bytes sg)] @ rest)
    = Ok \<lparr>ah_device_id = d, ah_timestamp = t, ah_nonce = n, ah_signature = s\<rparr>"
proof -
  have ids: "parse_device_id (device_id_str d) = Ok d" "parse_nonce (nonce_str n) = Ok n" using assms(4,5) by simp_all
  show ?thesis
    by (simp add: parse_auth_headers_def required_header_def header_value_visible assms(1,2,3,6) visible_parts(2)
        DEVICE_ID_HEADER_def TIMESTAMP_HEADER_def NONCE_HEADER_def SIGNATURE_HEADER_def from_header_values_def ids
        parse_signature_def del: and_then_Ok_iff map_err_Ok_iff parse_device_id_Ok_iff parse_nonce_Ok_iff)
qed

text \<open>What a device signs, in a client built for it, verifies under its record.\<close>

definition signs_visibly :: "server_env \<Rightarrow> device_crypto \<Rightarrow> DeviceIdentity \<Rightarrow> bool" where
  "signs_visibly env dc identity \<longleftrightarrow> (\<forall>m. let sg = dc_sign dc (di_signing_private_key identity) m in
     visible_text (cr_base64 (dc_crypto dc) sg) \<and> en_b64dec env (cr_base64 (dc_crypto dc) sg) = Some sg)"

definition client_method :: "WorkspaceSyncMethod \<Rightarrow> Method" where
  "client_method m = (case m of Get \<Rightarrow> GetMethod | Put \<Rightarrow> PutMethod)"

lemma client_method_str [simp]: "method_as_str (client_method m) = method_str m"
  by (cases m) (simp_all add: client_method_def)

lemma signed_request_of_device:
  assumes dc: "primitives_ok dc" and cx: "en_crypto env = dc_crypto dc" and b64: "signs_visibly env dc identity"
    and ident: "validate_identity dc identity = Ok ()" "device_id_ok (di_device_id identity)"
    and join: "join path = Ok url" and random: "co_random co = Ok bs" "length bs = 16"
    and dev: "matches_record identity dev" "device_valid (dc_crypto dc) dev"
  obtains req sr where
    "signed_request (client_for_workspace dc tx join send identity) co meth path body ctype = Ok req"
    "rq_method req = method_as_str meth" "uri_path (rq_uri req) = url_path url" "rq_body req = body"
    "signed_http_request_from_headers (en_crypto env) (en_b64dec env) (rq_method req) (rq_uri req) (rq_headers req)
       (rq_body req) = Ok sr"
    "hs_device_id (sr_input sr) = di_device_id identity" "hs_timestamp (sr_input sr) = co_now co"
    "hs_nonce (sr_input sr) = nonce_of bs" "verify_with_device (en_crypto env) sr dev = Ok ()"
proof -
  let ?cl = "client_for_workspace dc tx join send identity"
  define input where "input = signature_input (dc_crypto dc) (parts_new (method_as_str meth) (url_path_and_query url) body)
      (di_device_id identity) (co_now co) (nonce_of bs)"
  let ?sg = "dc_sign dc (di_signing_private_key identity) (device_signature_payload (canonical_payload input))"
  have sign: "identity_sign dc identity (canonical_payload input) = Ok ?sg"
    using ident(1) by (simp add: identity_sign_Ok_iff)
  define req where "req = \<lparr>rq_method = method_as_str meth,
      rq_uri = \<lparr>uri_path = url_path url, uri_path_and_query = Some (url_path_and_query url)\<rparr>,
      rq_headers = [(DEVICE_ID_HEADER, str_bytes (device_id_str (di_device_id identity))),
          (TIMESTAMP_HEADER, str_bytes (show_u64 (co_now co))), (NONCE_HEADER, str_bytes (nonce_str (nonce_of bs))),
          (SIGNATURE_HEADER, str_bytes (cr_base64 (dc_crypto dc) ?sg))]
          @ (case ctype of None \<Rightarrow> [] | Some t \<Rightarrow> [(''content-type'', str_bytes t)]),
      rq_body = body\<rparr>"
  have fields: "hs_device_id input = di_device_id identity" "hs_timestamp input = co_now co" "hs_nonce input = nonce_of bs"
    by (simp_all add: input_def signature_input_def)
  have sign': "local_device_sign dc tx identity (canonical_payload input) = Ok ?sg"
    by (simp add: local_device_sign_def sign del: map_err_Ok_iff)
  have build: "signed_request ?cl co meth path body ctype = Ok req"
    by (simp add: signed_request_def client_for_workspace_def join random generate_nonce_Ok Let_def
        input_def[symmetric] sign' req_def auth_headers_def with_signature_def to_header_values_def fields
        del: and_then_Ok_iff map_err_Ok_iff)
  have vis: "visible_text (cr_base64 (dc_crypto dc) ?sg)" "en_b64dec env (cr_base64 (dc_crypto dc) ?sg) = Some ?sg"
    using b64 by (simp_all add: signs_visibly_def Let_def)
  have ids: "visible_text (device_id_str (di_device_id identity))" "visible_text (nonce_str (nonce_of bs))"
    using ident(2) nonce_of_ok[OF random(2)]
    by (auto simp: device_id_ok_def nonce_ok_def valid_text_id_def intro!: visible_parts(1))
  have parsed_headers: "parse_auth_headers (en_b64dec env) (rq_headers req) = Ok \<lparr>ah_device_id = di_device_id identity,
      ah_timestamp = co_now co, ah_nonce = nonce_of bs, ah_signature = ?sg\<rparr>"
    unfolding req_def Request.simps
    by (rule headers_of_client[where d = "di_device_id identity" and n = "nonce_of bs" and t = "co_now co"
          and b64dec = "en_b64dec env" and sg = "cr_base64 (dc_crypto dc) ?sg",
          OF ids vis(1) ident(2) nonce_of_ok[OF random(2)] vis(2)])
  define sr where "sr = with_signature input ?sg"
  have parsed: "signed_http_request_from_headers (en_crypto env) (en_b64dec env) (rq_method req) (rq_uri req)
      (rq_headers req) (rq_body req) = Ok sr"
    by (simp add: signed_http_request_from_headers_def parsed_headers) (simp add: req_def
        from_auth_headers_def cx sr_def input_def Let_def del: and_then_Ok_iff)
  have "verify_device_signature (dc_crypto dc) dev (canonical_payload input) ?sg = Ok ()"
    by (rule signed_by_identity[OF dc sign dev])
  moreover have "di_device_id identity = dr_device_id dev" using dev(1) by (simp add: matches_record_def)
  ultimately have ok: "verify_with_device (en_crypto env) sr dev = Ok ()"
    by (simp add: cx sr_def with_signature_def input_def signature_input_def del: verify_device_signature_Ok_iff)
  show thesis
    by (intro that[OF build _ _ _ parsed _ _ _ ok]) (simp_all add: req_def sr_def with_signature_def fields)
qed


section \<open>Requests reach their handlers\<close>

lemma device_request_reaches:
  assumes "primitives_ok dc" and "en_crypto env = dc_crypto dc" and "identifiers_ok env"
    and "signs_visibly env dc identity"
    and "endpoint_ok ep" and "join (sync_relative_path ep) = Ok \<lparr>url_path = sync_absolute_path ep, url_query = None\<rparr>"
    and "validate_identity dc identity = Ok ()" and "device_id_ok (di_device_id identity)"
    and "co_random co = Ok bs" and "length bs = 16" and "length body \<le> MAX_OBJECT_BODY_BYTES"
    and "so_get_access_state ops (se_workspace_id ep) (app_storage st) = (s, Ok access)"
    and "active_device_record access (di_device_id identity) = Ok dev"
    and "matches_record identity dev" and "device_valid (dc_crypto dc) dev"
    and "require_permission access (di_device_id identity) (permission_for meth (se_resource ep)) = Ok ()"
    and "abs_diff64 now (co_now co) \<le> MAX_TIMESTAMP_SKEW_SECONDS"
    and "\<lparr>rk_workspace_id = se_workspace_id ep, rk_device_id = di_device_id identity, rk_nonce = nonce_of bs\<rparr>
           \<notin> fst ` set (app_replay_cache st)"
  shows "\<exists>req cache. signed_request (client_for_workspace dc tx join send identity) co (client_method meth)
        (sync_relative_path ep) body ctype = Ok req
    \<and> rq_body req = body
    \<and> set cache \<subseteq> insert (\<lparr>rk_workspace_id = se_workspace_id ep, rk_device_id = di_device_id identity,
          rk_nonce = nonce_of bs\<rparr>, co_now co) (set (app_replay_cache st))
    \<and> create_app env ops now req st = endpoint_handler env ops now
        \<lparr>ad_workspace_id = se_workspace_id ep, ad_device_id = di_device_id identity,
         ad_permission = permission_for meth (se_resource ep)\<rparr> meth req ep
        \<lparr>app_storage = s, app_replay_cache = cache\<rparr>"
proof -
  obtain req sr where req: "signed_request (client_for_workspace dc tx join send identity) co (client_method meth)
        (sync_relative_path ep) body ctype = Ok req" "rq_method req = method_str meth"
      "uri_path (rq_uri req) = sync_absolute_path ep" "rq_body req = body"
    and sr: "signed_http_request_from_headers (en_crypto env) (en_b64dec env) (rq_method req) (rq_uri req)
        (rq_headers req) (rq_body req) = Ok sr" "hs_device_id (sr_input sr) = di_device_id identity"
      "hs_timestamp (sr_input sr) = co_now co" "hs_nonce (sr_input sr) = nonce_of bs"
      "verify_with_device (en_crypto env) sr dev = Ok ()"
    using signed_request_of_device[where join = join and path = "sync_relative_path ep", OF assms(1,2,4,7,8,6,9,10,14,15)]
    by (metis client_method_str Url.select_convs(1))
  let ?w = "se_workspace_id ep" and ?p = "permission_for meth (se_resource ep)"
  have target: "classify_auth_target (rq_method req) (rq_uri req) =
      Ok (Some \<lparr>at_workspace_id = ?w, at_required_permission = ?p\<rparr>)"
    by (simp add: classify_auth_target_def req(2,3) auth_target_own_path[OF assms(5)] del: map_err_Ok_iff)
  let ?key = "\<lparr>rk_workspace_id = ?w, rk_device_id = di_device_id identity, rk_nonce = nonce_of bs\<rparr>"
  define recent where "recent = filter (\<lambda>(_, t). t \<ge> saturating_sub64 (co_now co) MAX_TIMESTAMP_SKEW_SECONDS)
      (app_replay_cache st)"
  have "?key \<notin> fst ` set recent" using assms(18) by (auto simp: recent_def)
  then have "map_of recent ?key = None" by (simp add: map_of_eq_None_iff)
  then have nonce: "record_nonce ?w (di_device_id identity) (nonce_of bs) (co_now co) \<lparr>app_storage = s, app_replay_cache = app_replay_cache st\<rparr>
      = (\<lparr>app_storage = s, app_replay_cache = (?key, co_now co) # recent\<rparr>, Ok ())"
    by (simp add: record_nonce_def check_and_record_def Let_def recent_def[symmetric])
  have st: "st\<lparr>app_storage := s\<rparr> = \<lparr>app_storage = s, app_replay_cache = app_replay_cache st\<rparr>"
    by (cases st) simp
  have auth: "authenticate (en_crypto env) (en_b64dec env) now (so_get_access_state ops) ?w ?p (rq_method req)
      (rq_uri req) (rq_headers req) (rq_body req) st =
      (\<lparr>app_storage = s, app_replay_cache = (?key, co_now co) # recent\<rparr>,
       Ok \<lparr>ad_workspace_id = ?w, ad_device_id = di_device_id identity, ad_permission = ?p\<rparr>)"
    using assms(12,13,16,17) sr nonce[folded st]
    by (simp add: authenticate_def then_do_def lift_result_def on_storage_def validate_timestamp_def done_with_def
        Let_def not_less del: verify_with_device_Ok_iff require_permission_Ok_iff)
  have small: "\<not> length (rq_body req) > MAX_AUTH_BODY_BYTES" "length (rq_body req) \<le> MAX_OBJECT_BODY_BYTES"
    using assms(11) by (simp_all add: req(4) MAX_AUTH_BODY_BYTES_def MAX_OBJECT_BODY_BYTES_def)
  note route = route_own_path[OF assms(3,5) req(3,2) small(2)]
  have "create_app env ops now req st = route_request env ops now
      (Some \<lparr>ad_workspace_id = ?w, ad_device_id = di_device_id identity, ad_permission = ?p\<rparr>) req
      \<lparr>app_storage = s, app_replay_cache = (?key, co_now co) # recent\<rparr>"
    using small(1) by (simp add: create_app_def workspace_auth_middleware_def then_do_def lift_result_def target auth)
  moreover have "set ((?key, co_now co) # recent) \<subseteq> insert (?key, co_now co) (set (app_replay_cache st))"
    by (auto simp: recent_def)
  ultimately show ?thesis unfolding route using req(1,4) by blast
qed

text \<open>
  Property C34: client and server agree.  A request that an active device signs with its own identity, for
  any sync endpoint and either method, passes the server's authentication whenever the device has the
  permission the endpoint needs, the clocks differ by at most five minutes and the nonce is new in the
  replay cache; the server then runs exactly the handler of that endpoint, on the body that was sent,
  with the device as the authenticated one.
\<close>

theorem client_request_reaches_handler:
  assumes "primitives_ok dc" and "en_crypto env = dc_crypto dc" and "identifiers_ok env"
    and "signs_visibly env dc identity"
    and "endpoint_ok ep" and "join (sync_relative_path ep) = Ok \<lparr>url_path = sync_absolute_path ep, url_query = None\<rparr>"
    and "validate_identity dc identity = Ok ()" and "device_id_ok (di_device_id identity)"
    and "co_random co = Ok bs" and "length bs = 16" and "length body \<le> MAX_OBJECT_BODY_BYTES"
    and "so_get_access_state ops (se_workspace_id ep) (app_storage st) = (s, Ok access)"
    and "active_device_record access (di_device_id identity) = Ok dev"
    and "matches_record identity dev" and "device_valid (dc_crypto dc) dev"
    and "require_permission access (di_device_id identity) (permission_for meth (se_resource ep)) = Ok ()"
    and "abs_diff64 now (co_now co) \<le> MAX_TIMESTAMP_SKEW_SECONDS"
    and "\<lparr>rk_workspace_id = se_workspace_id ep, rk_device_id = di_device_id identity, rk_nonce = nonce_of bs\<rparr>
           \<notin> fst ` set (app_replay_cache st)"
  shows "\<exists>req cache. signed_request (client_for_workspace dc tx join send identity) co (client_method meth)
        (sync_relative_path ep) body ctype = Ok req
    \<and> rq_body req = body
    \<and> set cache \<subseteq> insert (\<lparr>rk_workspace_id = se_workspace_id ep, rk_device_id = di_device_id identity,
          rk_nonce = nonce_of bs\<rparr>, co_now co) (set (app_replay_cache st))
    \<and> create_app env ops now req st = endpoint_handler env ops now
        \<lparr>ad_workspace_id = se_workspace_id ep, ad_device_id = di_device_id identity,
         ad_permission = permission_for meth (se_resource ep)\<rparr> meth req ep
        \<lparr>app_storage = s, app_replay_cache = cache\<rparr>"
  by (rule device_request_reaches[where join = join and ops = ops and co = co and identity = identity and st = st, OF assms])


section \<open>The service as the peer of a client\<close>

fun status_number :: "StatusCode \<Rightarrow> nat" where
  "status_number STATUS_OK = 200"
| "status_number STATUS_CREATED = 201"
| "status_number BAD_REQUEST = 400"
| "status_number UNAUTHORIZED = 401"
| "status_number FORBIDDEN = 403"
| "status_number NOT_FOUND = 404"
| "status_number CONFLICT = 409"
| "status_number PAYLOAD_TOO_LARGE = 413"
| "status_number INTERNAL_SERVER_ERROR = 500"

text \<open>How the framework writes an answer: the JSON of a body (bytes as they are) and of an error, and its
  own answer to a request it rejects.\<close>

record wire =
  wi_body :: "ResponseBody \<Rightarrow> bytes"
  wi_error :: "ApiErrorResponse \<Rightarrow> bytes"
  wi_display :: "ServerError \<Rightarrow> string"
  wi_reject :: "Request \<Rightarrow> HttpResponse"

definition wire_ok :: "wire \<Rightarrow> bool" where
  "wire_ok wi \<longleftrightarrow> (\<forall>b. wi_body wi (BytesBody b) = b) \<and> (\<forall>req. \<not> is_success (wi_reject wi req))"

definition http_response :: "StatusCode \<Rightarrow> bytes \<Rightarrow> HttpResponse" where
  "http_response status bs = \<lparr>hr_status = status_number status, hr_content_length = Some (of_nat (length bs)),
     hr_chunks = [Ok bs]\<rparr>"

definition answer_request :: "wire \<Rightarrow> server_env \<Rightarrow> 'st Storage \<Rightarrow> u64 \<Rightarrow> Request \<Rightarrow>
    ('st AppState, HttpResponse, RequestFailure) action" where
  "answer_request wi env ops now req st = (case create_app env ops now req st of
     (st', Ok (Some (status, body))) \<Rightarrow> (st', Ok (http_response status (wi_body wi body)))
   | (st', Ok None) \<Rightarrow> (st', Ok (wi_reject wi req))
   | (st', Err e) \<Rightarrow> (st', Ok (case into_response (wi_display wi) e of (status, err) \<Rightarrow>
        http_response status (wi_error wi err))))"

lemma error_not_success: "\<not> is_success (http_response (status_code e) bs)"
  by (cases e) (simp_all add: is_success_def http_response_def split: ProtocolError.splits)

lemma signed_request_shape:
  assumes "signed_request cl co meth path body ctype = Ok req" and "cl_join cl path = Ok url"
  shows "rq_method req = method_as_str meth" "uri_path (rq_uri req) = url_path url" "rq_body req = body"
  using assms by (auto simp: signed_request_def Let_def)

lemma answered:
  assumes "answer_request wi env ops now req st = (st', Ok r)" and "is_success r" and "wire_ok wi"
  shows "\<exists>status body. create_app env ops now req st = (st', Ok (Some (status, body)))
    \<and> r = http_response status (wi_body wi body)"
  using assms error_not_success
  by (auto simp: answer_request_def wire_ok_def into_response_def Let_def split: prod.splits result.splits option.splits)

lemma answer_total: "\<exists>r. snd (answer_request wi env ops now req st) = Ok r"
  by (auto simp: answer_request_def split: prod.splits result.splits option.splits)

text \<open>A call that succeeds was answered by a handler.\<close>

lemma upload_answered:
  assumes "cl_upload_object js cl co path bs st = (st', Ok u)" and "cl_send cl = answer_request wi env ops now"
    and "wire_ok wi" and "cl_join cl path = Ok url"
  obtains req status body where "create_app env ops now req st = (st', Ok (Some (status, body)))"
    and "rq_method req = method_str Put" "uri_path (rq_uri req) = url_path url" "rq_body req = bs"
proof -
  obtain req r where req: "signed_request cl co PutMethod path bs None = Ok req"
    and r: "answer_request wi env ops now req st = (st', Ok r)" "decode_json_response (cl_texts cl) js (cj_upload js) r = Ok u"
    using assms(1,2)
    by (auto simp: cl_upload_object_def request_json_signed_def send_signed_def then_do_def lift_result_def map_error_def
        split: result.splits prod.splits)
  have "is_success r" using r(2) by (auto simp: decode_json_response_def split: if_splits)
  then show thesis using answered[OF r(1) _ assms(3)] signed_request_shape[OF req assms(4)] that by auto
qed

lemma read_chunks_one: "read_chunks n [] [Ok b] = (if length b > n then Err (over_limit n) else Ok b)"
  by simp

lemma download_answered:
  assumes "cl_download_object js cl co path st = (st', Ok out)" and "cl_send cl = answer_request wi env ops now"
    and "wire_ok wi" and "cl_join cl path = Ok url"
  obtains req status body where "create_app env ops now req st = (st', Ok (Some (status, body)))"
    and "rq_method req = method_str Get" "uri_path (rq_uri req) = url_path url" "rq_body req = []"
    and "wi_body wi body = out"
proof -
  obtain req r where req: "signed_request cl co GetMethod path [] None = Ok req"
    and r: "answer_request wi env ops now req st = (st', Ok r)"
      "decode_bytes_response (cl_texts cl) js MAX_ENCRYPTED_OBJECT_BYTES r = Ok out"
    using assms(1,2)
    by (auto simp: cl_download_object_def request_bytes_signed_def send_signed_def then_do_def lift_result_def
        map_error_def split: result.splits prod.splits)
  have ok: "is_success r" and out: "read_chunks MAX_ENCRYPTED_OBJECT_BYTES [] (hr_chunks r) = Ok out"
    using r(2) by (auto simp: decode_bytes_response_def split: if_splits)
  obtain status body where body: "create_app env ops now req st = (st', Ok (Some (status, body)))"
      "r = http_response status (wi_body wi body)"
    using answered[OF r(1) ok assms(3)] by auto
  have "wi_body wi body = out"
    using out by (simp add: body(2) http_response_def split: if_splits)
  then show thesis using that[OF body(1)] signed_request_shape[OF req assms(4)] by simp
qed


section \<open>What is uploaded is what is downloaded\<close>

lemma blob_of_hash_ok: "length h = 32 \<Longrightarrow> blob_id_ok (blob_of_hash h)"
  using hex_encode_lower[of h] by (auto simp: blob_id_ok_def valid_object_id_def blob_of_hash_def)

context service begin

lemma endpoint_answered:
  assumes inv: "inv (app_storage st)" and cx: "en_crypto env = cx" and ids: "identifiers_ok env"
    and ep: "endpoint_ok ep" "workspace_plain (se_workspace_id ep)"
    and path: "uri_path (rq_uri req) = sync_absolute_path ep" and meth: "rq_method req = method_str meth"
    and run: "create_app env ops now req st = (st', Ok answer)"
  obtains st1 auth where "untouched view inv st st1"
    and "endpoint_handler env ops now auth meth req ep st1 = (st', Ok answer)"
proof -
  let ?w = "se_workspace_id ep" and ?p = "permission_for meth (se_resource ep)"
  have target: "classify_auth_target (rq_method req) (rq_uri req) =
      Ok (Some \<lparr>at_workspace_id = ?w, at_required_permission = ?p\<rparr>)"
    by (simp add: classify_auth_target_def path meth auth_target_own_path[OF ep(1)] del: map_err_Ok_iff)
  have small: "length (rq_body req) \<le> MAX_OBJECT_BODY_BYTES"
  proof (rule ccontr)
    assume "\<not> ?thesis"
    then have "length (rq_body req) > MAX_AUTH_BODY_BYTES"
      by (simp add: MAX_AUTH_BODY_BYTES_def MAX_OBJECT_BODY_BYTES_def)
    then show False using run
      by (simp add: create_app_def workspace_auth_middleware_def then_do_def lift_result_def target fail_with_def)
  qed
  then have "\<not> length (rq_body req) > MAX_AUTH_BODY_BYTES"
    by (simp add: MAX_AUTH_BODY_BYTES_def MAX_OBJECT_BODY_BYTES_def)
  then obtain st1 auth where auth: "authenticate_request env ops now ?w ?p req st = (st1, Ok auth)"
    and rest: "route_request env ops now (Some auth) req st1 = (st', Ok answer)"
    using run by (auto simp: create_app_def workspace_auth_middleware_def then_do_def lift_result_def target
        authenticate_request_def split: prod.splits result.splits)
  have "untouched view inv st st1"
    using postD[OF authenticate_law[OF inv ep(2) cx] auth] by (simp add: untouched_def)
  then show thesis using that rest[unfolded route_own_path[OF ids ep(1) path meth small]] by blast
qed

lemma blob_uploaded:
  assumes inv: "inv (app_storage st)" and cx: "en_crypto env = cx" and ids: "identifiers_ok env"
    and w: "workspace_id_ok w" "workspace_plain w" and b: "blob_id_ok b"
    and req: "uri_path (rq_uri req) = sync_absolute_path (endpoint_blob w b)" "rq_method req = method_str Put"
    and run: "create_app env ops now req st = (st', Ok answer)"
  shows "inv (app_storage st')" and "b = blob_id_from_content (cr_sha256 cx) (rq_body req)"
    and "vw_object (view (app_storage st')) w (cr_sha256 cx (rq_body req)) \<noteq> None"
proof -
  have ep: "endpoint_ok (endpoint_blob w b)" "workspace_plain (se_workspace_id (endpoint_blob w b))"
    using w b by (simp_all add: endpoint_ok_def resource_ok_def endpoint_blob_def)
  obtain st1 auth where st1: "untouched view inv st st1"
    and put: "endpoint_handler env ops now auth Put req (endpoint_blob w b) st1 = (st', Ok answer)"
    using endpoint_answered[OF inv cx ids ep req run] by blast
  obtain s r where s: "so_put_blob ops w b (rq_body req) (app_storage st1) = (s, Ok r)" and st': "app_storage st' = s"
    using put by (auto simp: endpoint_handler_def endpoint_blob_def respond_def api_put_blob_def then_do_def on_storage_def
        lift_result_def done_with_def Let_def split: prod.splits result.splits)
  have "inv (app_storage st1)" using st1 by (simp add: untouched_def)
  from postD[OF put_blob[OF this w(2)] s]
  show "inv (app_storage st')" "b = blob_id_from_content (cr_sha256 cx) (rq_body req)"
    "vw_object (view (app_storage st')) w (cr_sha256 cx (rq_body req)) \<noteq> None"
    by (auto simp: st' split: if_splits)
qed

lemma blob_downloaded:
  assumes inv: "inv (app_storage st)" and cx: "en_crypto env = cx" and ids: "identifiers_ok env"
    and w: "workspace_id_ok w" "workspace_plain w" and h: "length h = 32"
    and req: "uri_path (rq_uri req) = sync_absolute_path (endpoint_blob w (blob_of_hash h))" "rq_method req = method_str Get"
    and run: "create_app env ops now req st = (st', Ok (Some (status, body)))"
  shows "\<exists>c. body = BytesBody c \<and> vw_object (view (app_storage st)) w h = Some c"
proof -
  have ep: "endpoint_ok (endpoint_blob w (blob_of_hash h))"
      "workspace_plain (se_workspace_id (endpoint_blob w (blob_of_hash h)))"
    using w by (simp_all add: endpoint_ok_def resource_ok_def endpoint_blob_def blob_of_hash_ok[OF h])
  obtain st1 auth where st1: "untouched view inv st st1"
    and get: "endpoint_handler env ops now auth Get req (endpoint_blob w (blob_of_hash h)) st1 = (st', Ok (Some (status, body)))"
    using endpoint_answered[OF inv cx ids ep req run] by blast
  obtain s c where s: "so_get_blob ops w (blob_of_hash h) (app_storage st1) = (s, Ok c)" and c: "body = BytesBody c"
    using get by (auto simp: endpoint_handler_def endpoint_blob_def respond_def api_get_blob_def then_do_def on_storage_def
        done_with_def Let_def split: prod.splits result.splits)
  have "inv (app_storage st1)" "view (app_storage st1) = view (app_storage st)" using st1 by (simp_all add: untouched_def)
  then show ?thesis using postD[OF get_blob[OF _ w(2) h] s] c by auto
qed

lemma upload_then_download:
  assumes inv: "inv (app_storage st)" and cx: "en_crypto env = cx" and ids: "identifiers_ok env"
    and wire: "wire_ok wi" and later: "list_all (plain_request env \<circ> snd) later"
    and w: "workspace_id_ok w" "workspace_plain w" and b: "blob_id_ok b" and sha: "sha256_size (cr_sha256 cx)"
    and join: "cl_join sender (sync_relative_path (endpoint_blob w b)) = Ok url"
      "cl_join receiver (sync_relative_path (endpoint_blob w b)) = Ok url'"
      "url_path url = sync_absolute_path (endpoint_blob w b)" "url_path url' = sync_absolute_path (endpoint_blob w b)"
    and send: "cl_send sender = answer_request wi env ops now" "cl_send receiver = answer_request wi env ops now'"
    and up: "cl_upload_blob js sender co w b content st = (st1, Ok u)"
    and down: "cl_download_blob js' receiver co' w b (run_server env ops later st1) = (st2, Ok out)"
  shows "b = blob_id_from_content (cr_sha256 cx) content \<and> cr_sha256 cx out = cr_sha256 cx content"
proof -
  obtain req status body where put: "create_app env ops now req st = (st1, Ok (Some (status, body)))"
      "rq_method req = method_str Put" "uri_path (rq_uri req) = sync_absolute_path (endpoint_blob w b)" "rq_body req = content"
    using upload_answered[OF up[unfolded cl_upload_blob_def] send(1) wire join(1)] join(3) by metis
  note stored = blob_uploaded[OF inv cx ids w b put(3,2,1), unfolded put(4)]
  let ?h = "cr_sha256 cx content"
  have h: "length ?h = 32" using sha by (simp add: sha256_size_def)
  have blob: "b = blob_of_hash ?h" using stored(2) by (simp add: object_of_hash_content)
  obtain c where c: "vw_object (view (app_storage st1)) w ?h = Some c" using stored(3) by auto
  have kept: "inv (app_storage (run_server env ops later st1))"
      "store_run cx (view (app_storage st1)) (view (app_storage (run_server env ops later st1)))"
    using run_server_refines[OF stored(1) cx ids later run_refl] by (simp_all add: Let_def)
  obtain req' status' body' where get: "create_app env ops now' req' (run_server env ops later st1) = (st2, Ok (Some (status', body')))"
      "rq_method req' = method_str Get" "uri_path (rq_uri req') = sync_absolute_path (endpoint_blob w b)" "wi_body wi body' = out"
    using download_answered[OF down[unfolded cl_download_blob_def] send(2) wire join(2)] join(4) by metis
  obtain out' where "body' = BytesBody out'" "vw_object (view (app_storage (run_server env ops later st1))) w ?h = Some out'"
    using blob_downloaded[OF kept(1) cx ids w h get(3)[unfolded blob] get(2,1)] by auto
  then have "out' = c" "out = out'"
    using run_keeps_objects[OF kept(2) c] get(4) wire by (auto simp: wire_ok_def)
  then show ?thesis using objects_hashed[OF stored(1) c] stored(2) by simp
qed

end


text \<open>
  Property C35: what one device uploads is what another downloads.  Against a server on the file system
  storage, in any history of requests, a client call that uploads a blob and succeeds stores content whose hash is
  the blob's identifier; whatever requests follow, a download of that blob by any client that succeeds
  returns bytes with the hash of what was uploaded.
\<close>

theorem uploaded_blob_is_downloaded:
  assumes "identifiers_ok env" and "codec_ok json" and "sha256_size (cr_sha256 (en_crypto env))" and "wire_ok wi"
    and "list_all (plain_request env \<circ> snd) (before @ later)"
    and "workspace_id_ok w" and "workspace_plain w" and "blob_id_ok b"
    and "cl_join sender (sync_relative_path (endpoint_blob w b)) = Ok url"
    and "cl_join receiver (sync_relative_path (endpoint_blob w b)) = Ok url'"
    and "url_path url = sync_absolute_path (endpoint_blob w b)"
    and "url_path url' = sync_absolute_path (endpoint_blob w b)"
    and "cl_send sender = answer_request wi env (fs_storage (en_crypto env) json pid) now"
    and "cl_send receiver = answer_request wi env (fs_storage (en_crypto env) json pid) now'"
    and "cl_upload_blob js sender co w b content
           (run_server env (fs_storage (en_crypto env) json pid) before (fresh_server faults nanos)) = (st1, Ok u)"
    and "cl_download_blob js' receiver co' w b
           (run_server env (fs_storage (en_crypto env) json pid) later st1) = (st2, Ok out)"
  shows "b = blob_id_from_content (cr_sha256 (en_crypto env)) content
    \<and> cr_sha256 (en_crypto env) out = cr_sha256 (en_crypto env) content"
proof -
  let ?st = "run_server env (fs_storage (en_crypto env) json pid) before (fresh_server faults nanos)"
  have "fs_inv (en_crypto env) json (app_storage ?st)"
    using fs_run_refines[OF assms(1) _ fresh_server_facts(1)[OF assms(2,3)] run_refl, of before pid] assms(5)
    by (simp add: Let_def)
  from fs_api.upload_then_download[OF this refl assms(1,4) _ assms(6-8,3,9-16)] assms(5)
  show ?thesis by simp
qed


section \<open>A concrete exchange\<close>

definition sample_wire :: wire where
  "sample_wire = \<lparr>wi_body = (\<lambda>b. case b of BytesBody bs \<Rightarrow> bs | _ \<Rightarrow> [1]), wi_error = (\<lambda>_. []), wi_display = (\<lambda>_. []),
     wi_reject = (\<lambda>_. \<lparr>hr_status = 404, hr_content_length = None, hr_chunks = []\<rparr>)\<rparr>"

definition sample_texts :: texts where
  "sample_texts = \<lparr>tx_device = (\<lambda>_. []), tx_protocol = (\<lambda>_. []), tx_status = (\<lambda>_. [])\<rparr>"

definition sample_client_codec :: client_codec where
  "sample_client_codec = \<lparr>cj_error = (\<lambda>_. Err []), cj_created = (\<lambda>_. Err []), cj_submitted = (\<lambda>_. Err []),
     cj_joins = (\<lambda>_. Err []), cj_access = (\<lambda>_. Err []), cj_upload = (\<lambda>_. Ok UploadCreated), cj_envelope = (\<lambda>_. Err []),
     cj_head = (\<lambda>_. Err []), ck_create = (\<lambda>_. Err []), ck_join = (\<lambda>_. Err []), ck_approve = (\<lambda>_. Err []),
     ck_apply = (\<lambda>_. Err []), ck_envelope = (\<lambda>_. Err []), ck_update_head = (\<lambda>_. Err [])\<rparr>"

definition sample_join :: "string \<Rightarrow> (Url, string) result" where
  "sample_join path = Ok \<lparr>url_path = CHR ''/'' # path, url_query = None\<rparr>"

abbreviation "sample_ops \<equiv> fs_storage sample_crypto sample_codec 7"

definition sample_client :: "FileSys AppState client" where
  "sample_client = client_for_workspace sample_device_crypto sample_texts sample_join
     (answer_request sample_wire sample_env sample_ops 300) (sample_identity ''a'')"

definition sample_call :: "byte \<Rightarrow> call" where
  "sample_call n = \<lparr>co_now = 200, co_random = Ok (replicate 16 n)\<rparr>"

definition sample_blob :: BlobId where "sample_blob = blob_of_hash (replicate 32 0)"

lemma sample_signs: "signs_visibly sample_env sample_device_crypto (sample_identity ''a'')"
proof -
  have "visible_text ''AAAAAAAAAA''" by code_simp
  moreover have "sample_signature = replicate 64 1" by (simp add: sample_signature_def)
  ultimately show ?thesis
    by (simp add: signs_visibly_def sample_device_crypto_def sample_crypto_def sample_env_def sample_b64dec_def
        sample_identity_def Let_def)
qed

definition sample_auth :: "WorkspacePermission \<Rightarrow> AuthenticatedDevice" where
  "sample_auth p = \<lparr>ad_workspace_id = sample_workspace, ad_device_id = DeviceId ''device_a'', ad_permission = p\<rparr>"

definition sample_key :: "byte \<Rightarrow> ReplayKey" where
  "sample_key n = \<lparr>rk_workspace_id = sample_workspace, rk_device_id = DeviceId ''device_a'', rk_nonce = nonce_of (replicate 16 n)\<rparr>"

lemma sample_member:
  "active_device_record (sample_state 1) (DeviceId ''device_a'') = Ok (sample_device ''a'' ActiveDevice)"
  "require_permission (sample_state 1) (DeviceId ''device_a'') p = Ok ()"
  "device_id_ok (DeviceId ''device_a'')"
proof -
  show "active_device_record (sample_state 1) (DeviceId ''device_a'') = Ok (sample_device ''a'' ActiveDevice)"
    "device_id_ok (DeviceId ''device_a'')" by code_simp+
  have "map_option (\<lambda>m. (mb_role m, mb_status m)) (membership (sample_state 1) (DeviceId ''device_a'')) = Some (Owner, Active)"
    by code_simp
  moreover have "allows Owner p" by (cases p) code_simp+
  ultimately show "require_permission (sample_state 1) (DeviceId ''device_a'') p = Ok ()" by auto
qed

lemma sample_reaches:
  assumes "fs_get_access_state sample_codec sample_workspace (app_storage st) = (s, Ok (sample_state 1))"
    and "endpoint_ok ep" and "se_workspace_id ep = sample_workspace" and "length body \<le> MAX_OBJECT_BODY_BYTES"
    and "sample_key n \<notin> fst ` set (app_replay_cache st)"
  shows "\<exists>req cache. signed_request sample_client (sample_call n) (client_method meth) (sync_relative_path ep) body None = Ok req
    \<and> rq_body req = body \<and> set cache \<subseteq> insert (sample_key n, 200) (set (app_replay_cache st))
    \<and> create_app sample_env sample_ops 300 req st =
        endpoint_handler sample_env sample_ops 300 (sample_auth (permission_for meth (se_resource ep))) meth req ep
          \<lparr>app_storage = s, app_replay_cache = cache\<rparr>"
proof -
  have i: "di_device_id (sample_identity ''a'') = DeviceId ''device_a''" by (simp add: sample_identity_def)
  have cx: "en_crypto sample_env = dc_crypto sample_device_crypto" by (simp add: sample_env_def sample_device_crypto_def)
  have window: "abs_diff64 300 (co_now (sample_call n)) \<le> MAX_TIMESTAMP_SKEW_SECONDS" by code_simp
  have join: "sample_join (sync_relative_path ep) = Ok \<lparr>url_path = sync_absolute_path ep, url_query = None\<rparr>"
    by (simp add: sample_join_def sync_absolute_path_def)
  have get: "so_get_access_state sample_ops (se_workspace_id ep) (app_storage st) = (s, Ok (sample_state 1))"
    using assms(1,3) by (simp add: fs_storage_def)
  have random: "co_random (sample_call n) = Ok (replicate 16 n)" "length (replicate 16 n) = 16" "co_now (sample_call n) = 200"
    by (simp_all add: sample_call_def)
  show ?thesis
    using device_request_reaches[where join = sample_join and ops = sample_ops and now = 300 and identity = "sample_identity ''a''" and co = "sample_call n" and body = body and ctype = None and st = st and meth = meth
        and tx = sample_texts and send = "answer_request sample_wire sample_env sample_ops 300",
        OF sample_primitives_ok cx sample_identifiers_ok sample_signs assms(2) join sample_identity_valid(1) _ random(1,2) assms(4)
          get _ sample_identity_valid(5,3) _ window]
      sample_member assms(3,5)
    by (simp add: i sample_client_def sample_auth_def sample_key_def random(3))
qed


lemma sample_head_endpoint: "endpoint_ok (endpoint_head sample_workspace)"
proof -
  have "workspace_id_ok sample_workspace" by code_simp
  then show ?thesis by (simp add: endpoint_ok_def endpoint_head_def resource_ok_def)
qed

lemma sample_access: "fs_get_access_state sample_codec sample_workspace (app_storage sample_served) =
    (app_storage sample_served, Ok (sample_state 1))"
  by code_simp

theorem client_request_reaches_handler_witness:
  "\<exists>req cache. create_app sample_env sample_ops 300 req sample_served =
     endpoint_handler sample_env sample_ops 300 (sample_auth ReadObjects) Get req (endpoint_head sample_workspace)
       \<lparr>app_storage = app_storage sample_served, app_replay_cache = cache\<rparr>"
proof -
  have i: "di_device_id (sample_identity ''a'') = DeviceId ''device_a''" by (simp add: sample_identity_def)
  have cx: "en_crypto sample_env = dc_crypto sample_device_crypto" by (simp add: sample_env_def sample_device_crypto_def)
  have window: "abs_diff64 300 (co_now (sample_call 5)) \<le> MAX_TIMESTAMP_SKEW_SECONDS" by code_simp
  have join: "sample_join (sync_relative_path (endpoint_head sample_workspace))
      = Ok \<lparr>url_path = sync_absolute_path (endpoint_head sample_workspace), url_query = None\<rparr>"
    by (simp add: sample_join_def sync_absolute_path_def)
  have w: "se_workspace_id (endpoint_head sample_workspace) = sample_workspace"
      "se_resource (endpoint_head sample_workspace) = Head" by (simp_all add: endpoint_head_def)
  have get: "so_get_access_state sample_ops (se_workspace_id (endpoint_head sample_workspace)) (app_storage sample_served)
      = (app_storage sample_served, Ok (sample_state 1))" using sample_access by (simp add: fs_storage_def w)
  have random: "co_random (sample_call 5) = Ok (replicate 16 5)" "length (replicate 16 (5 :: byte)) = 16"
    by (simp_all add: sample_call_def)
  have fresh: "\<lparr>rk_workspace_id = se_workspace_id (endpoint_head sample_workspace),
      rk_device_id = di_device_id (sample_identity ''a''), rk_nonce = nonce_of (replicate 16 5)\<rparr>
      \<notin> fst ` set (app_replay_cache sample_served)" by (simp add: sample_served_def nonce_of_def)
  show ?thesis
    using client_request_reaches_handler[where co = "sample_call 5" and body = "[]" and ctype = None and st = sample_served
        and meth = Get and tx = sample_texts and send = "answer_request sample_wire sample_env sample_ops 300" and now = 300
        and join = sample_join and ops = sample_ops and identity = "sample_identity ''a''",
        OF sample_primitives_ok cx sample_identifiers_ok sample_signs sample_head_endpoint join sample_identity_valid(1) _
          random _ get _ sample_identity_valid(5,3) _ window fresh] sample_member
    by (auto simp: i sample_auth_def w)
qed

text \<open>The blob is uploaded after the workspace was created, and downloaded from the state that is left.\<close>

lemma sample_blob_endpoint: "endpoint_ok (endpoint_blob sample_workspace sample_blob)"
proof -
  have "workspace_id_ok sample_workspace" by code_simp
  then show ?thesis by (simp add: endpoint_ok_def endpoint_blob_def resource_ok_def sample_blob_def blob_of_hash_ok)
qed

definition sample_stored :: FileSys where
  "sample_stored = \<lparr>fs_files = [(access_state_path ''ws'', [1]), (blob_path ''ws'' (blob_id_str sample_blob), [7])],
     fs_faults = [], fs_nanos = []\<rparr>"

lemma sample_put:
  "fs_put_blob sample_crypto 7 sample_workspace sample_blob [7] (app_storage sample_served) = (sample_stored, Ok PutCreated)"
  by code_simp

lemma sample_upload:
  "\<exists>cache. cl_upload_blob sample_client_codec sample_client (sample_call 1) sample_workspace sample_blob [7] sample_served
    = (\<lparr>app_storage = sample_stored,
        app_replay_cache = cache\<rparr>, Ok UploadCreated)
    \<and> set cache \<subseteq> insert (sample_key 1, 200) (set (app_replay_cache sample_served))"
proof -
  let ?ep = "endpoint_blob sample_workspace sample_blob"
  have fresh: "sample_key 1 \<notin> fst ` set (app_replay_cache sample_served)"
    by (simp add: sample_served_def nonce_of_def sample_key_def)
  have w: "se_workspace_id ?ep = sample_workspace" "se_resource ?ep = Blob sample_blob" by (simp_all add: endpoint_blob_def)
  obtain req cache where req: "signed_request sample_client (sample_call 1) PutMethod (sync_relative_path ?ep) [7] None = Ok req"
      "rq_body req = [7]" and cache: "set cache \<subseteq> insert (sample_key 1, 200) (set (app_replay_cache sample_served))"
    and run: "create_app sample_env sample_ops 300 req sample_served =
        endpoint_handler sample_env sample_ops 300 (sample_auth WriteObjects) Put req ?ep
          \<lparr>app_storage = app_storage sample_served, app_replay_cache = cache\<rparr>"
    using sample_reaches[OF sample_access sample_blob_endpoint w(1) _ fresh, of "[7]" Put]
    by (auto simp: w client_method_def MAX_OBJECT_BODY_BYTES_def)
  have ops: "so_put_blob sample_ops = fs_put_blob sample_crypto 7" by (simp add: fs_storage_def)
  have answer: "create_app sample_env sample_ops 300 req sample_served =
      (\<lparr>app_storage = sample_stored, app_replay_cache = cache\<rparr>, Ok (Some (STATUS_CREATED, UploadBody UploadCreated)))"
    unfolding run
    by (simp add: endpoint_handler_def w req(2) respond_def api_put_blob_def on_storage_def then_do_def ops sample_put
        lift_result_def done_with_def upload_response_def Let_def)
  have cl: "cl_send sample_client = answer_request sample_wire sample_env sample_ops 300" "cl_texts sample_client = sample_texts"
    by (simp_all add: sample_client_def client_for_workspace_def)
  have "cl_upload_blob sample_client_codec sample_client (sample_call 1) sample_workspace sample_blob [7] sample_served
      = (\<lparr>app_storage = sample_stored, app_replay_cache = cache\<rparr>, Ok UploadCreated)"
    by (simp add: cl_upload_blob_def cl_upload_object_def request_json_signed_def send_signed_def then_do_def lift_result_def
        map_error_def req(1) cl answer_request_def answer http_response_def decode_json_response_def is_success_def
        response_json_def sample_client_codec_def)
  then show ?thesis using cache by auto
qed

lemma sample_stored_access:
  "fs_get_access_state sample_codec sample_workspace sample_stored = (sample_stored, Ok (sample_state 1))"
  by code_simp

lemma sample_stored_blob: "fs_get_blob sample_workspace sample_blob sample_stored = (sample_stored, Ok [7])"
  by code_simp

lemma sample_keys: "sample_key 2 \<notin> fst ` set cache"
  if "set cache \<subseteq> insert (sample_key 1, 200) (set (app_replay_cache sample_served))"
proof -
  have other: "nonce_of (replicate 16 2) \<noteq> nonce_of (replicate 16 1)" "nonce_of (replicate 16 2) \<noteq> RequestNonce ''n''"
    by (simp_all add: nonce_of_def hex_encode_inj)
  have "\<forall>k \<in> fst ` set cache. rk_nonce k = nonce_of (replicate 16 1) \<or> rk_nonce k = RequestNonce ''n''"
    using that by (force simp: sample_served_def sample_key_def)
  then show ?thesis using other by (force simp: sample_key_def)
qed

lemma sample_download:
  assumes "set cache \<subseteq> insert (sample_key 1, 200) (set (app_replay_cache sample_served))"
  shows "\<exists>st. cl_download_blob sample_client_codec sample_client (sample_call 2) sample_workspace sample_blob
      \<lparr>app_storage = sample_stored, app_replay_cache = cache\<rparr> = (st, Ok [7])"
proof -
  let ?ep = "endpoint_blob sample_workspace sample_blob" and ?st = "\<lparr>app_storage = sample_stored, app_replay_cache = cache\<rparr>"
  have fresh: "sample_key 2 \<notin> fst ` set (app_replay_cache ?st)" using sample_keys[OF assms] by simp
  have access: "fs_get_access_state sample_codec sample_workspace (app_storage ?st) = (sample_stored, Ok (sample_state 1))"
    using sample_stored_access by simp
  have w: "se_workspace_id ?ep = sample_workspace" "se_resource ?ep = Blob sample_blob" by (simp_all add: endpoint_blob_def)
  obtain req cache' where req: "signed_request sample_client (sample_call 2) GetMethod (sync_relative_path ?ep) [] None = Ok req"
    and run: "create_app sample_env sample_ops 300 req ?st =
        endpoint_handler sample_env sample_ops 300 (sample_auth ReadObjects) Get req ?ep
          \<lparr>app_storage = sample_stored, app_replay_cache = cache'\<rparr>"
    using sample_reaches[OF access sample_blob_endpoint w(1) _ fresh, of "[]" Get]
    by (auto simp: w client_method_def)
  have ops: "so_get_blob sample_ops = fs_get_blob" by (simp add: fs_storage_def)
  have answer: "create_app sample_env sample_ops 300 req ?st =
      (\<lparr>app_storage = sample_stored, app_replay_cache = cache'\<rparr>, Ok (Some (STATUS_OK, BytesBody [7])))"
    unfolding run
    by (simp add: endpoint_handler_def w respond_def api_get_blob_def on_storage_def then_do_def ops sample_stored_blob
        done_with_def Let_def)
  have cl: "cl_send sample_client = answer_request sample_wire sample_env sample_ops 300" "cl_texts sample_client = sample_texts"
    by (simp_all add: sample_client_def client_for_workspace_def)
  have "cl_download_blob sample_client_codec sample_client (sample_call 2) sample_workspace sample_blob ?st
      = (\<lparr>app_storage = sample_stored, app_replay_cache = cache'\<rparr>, Ok [7])"
    by (simp add: cl_download_blob_def cl_download_object_def request_bytes_signed_def send_signed_def then_do_def
        lift_result_def map_error_def req(1) cl answer_request_def answer http_response_def decode_bytes_response_def
        is_success_def sample_wire_def MAX_ENCRYPTED_OBJECT_BYTES_def)
  then show ?thesis by blast
qed

theorem uploaded_blob_is_downloaded_witness:
  "\<exists>st1 st2 out. cl_upload_blob sample_client_codec sample_client (sample_call 1) sample_workspace sample_blob [7]
        (run_server sample_env sample_ops [(300, sample_create_request)] (fresh_server [] [])) = (st1, Ok UploadCreated)
    \<and> cl_download_blob sample_client_codec sample_client (sample_call 2) sample_workspace sample_blob st1 = (st2, Ok out)
    \<and> cr_sha256 sample_crypto out = cr_sha256 sample_crypto [7]"
proof -
  have cx: "en_crypto sample_env = sample_crypto" by (simp add: sample_env_def)
  have start: "run_server sample_env sample_ops [(300, sample_create_request)] (fresh_server [] []) = sample_served"
    by (simp add: sample_created_state)
  obtain st1 where up: "cl_upload_blob sample_client_codec sample_client (sample_call 1) sample_workspace sample_blob [7]
        sample_served = (st1, Ok UploadCreated)"
    and st1: "\<exists>cache. st1 = \<lparr>app_storage = sample_stored, app_replay_cache = cache\<rparr>
        \<and> set cache \<subseteq> insert (sample_key 1, 200) (set (app_replay_cache sample_served))"
    using sample_upload by auto
  then obtain st2 where down: "cl_download_blob sample_client_codec sample_client (sample_call 2) sample_workspace sample_blob
        st1 = (st2, Ok [7])"
    using sample_download by blast
  have join: "cl_join sample_client (sync_relative_path (endpoint_blob sample_workspace sample_blob))
      = Ok \<lparr>url_path = sync_absolute_path (endpoint_blob sample_workspace sample_blob), url_query = None\<rparr>"
    by (simp add: sample_client_def client_for_workspace_def sample_join_def sync_absolute_path_def)
  have send: "cl_send sample_client = answer_request sample_wire sample_env (fs_storage (en_crypto sample_env) sample_codec 7) 300"
    by (simp add: sample_client_def client_for_workspace_def cx)
  have wire: "wire_ok sample_wire" by (simp add: wire_ok_def sample_wire_def is_success_def)
  have ids: "workspace_id_ok sample_workspace" "workspace_plain sample_workspace" by code_simp+
  have blob: "blob_id_ok sample_blob" by (simp add: sample_blob_def blob_of_hash_ok)
  have up': "cl_upload_blob sample_client_codec sample_client (sample_call 1) sample_workspace sample_blob [7]
        (run_server sample_env (fs_storage (en_crypto sample_env) sample_codec 7) [(300, sample_create_request)]
           (fresh_server [] [])) = (st1, Ok UploadCreated)"
    unfolding cx start by (rule up)
  have down': "cl_download_blob sample_client_codec sample_client (sample_call 2) sample_workspace sample_blob
        (run_server sample_env (fs_storage (en_crypto sample_env) sample_codec 7) [] st1) = (st2, Ok [7])"
    unfolding run_server.simps by (rule down)
  have "cr_sha256 (en_crypto sample_env) [7] = cr_sha256 (en_crypto sample_env) [7]
      \<and> sample_blob = blob_id_from_content (cr_sha256 (en_crypto sample_env)) [7]"
    using uploaded_blob_is_downloaded[OF sample_identifiers_ok sample_codec_ok sample_sha256_size wire _ ids blob join join
        _ _ send send up' down'] by (simp add: sample_create_plain)
  then show ?thesis using up down start by auto
qed

end
