(* ===== verification/Local_Tree.thy ===== *)
theory Local_Tree
  imports File_System Manifest
begin

text \<open>
  The file system of a device, as the workspace engine uses it: a tree of regular files, folders and
  symbolic links, named by their absolute paths.  A lookup follows links in every component but the
  last, and in the last one unless the call says otherwise, at most forty of them; a link holds the
  absolute path it denotes.  Any call may fail for a reason the model does not determine: the faults
  to come are part of the state, as are the clock and the names drawn for temporary files.  Names are
  text; hard links and permissions are not modelled.
\<close>

section \<open>Nodes\<close>

datatype Node = RegularFile (node_bytes: bytes) (node_modified: "u64 option") | Folder | SymLink path

record LocalFs =
  lf_nodes :: "(path \<times> Node) list"
  lf_faults :: "Fault option list"
  lf_names :: "string list"
  lf_now :: "u64 option"

type_synonym 'a local_io = "(LocalFs, 'a, IoError) action"

definition node_at :: "LocalFs \<Rightarrow> path \<Rightarrow> Node option" where
  "node_at fs p = (if p = [] then Some Folder else map_of (lf_nodes fs) p)"

definition put_node :: "path \<Rightarrow> Node \<Rightarrow> LocalFs \<Rightarrow> LocalFs" where
  "put_node p n fs = fs\<lparr>lf_nodes := bt_insert p n (lf_nodes fs)\<rparr>"

definition is_under :: "path \<Rightarrow> path \<Rightarrow> bool" where
  "is_under p q \<longleftrightarrow> take (length p) q = p"

definition delete_where :: "(path \<Rightarrow> bool) \<Rightarrow> LocalFs \<Rightarrow> LocalFs" where
  "delete_where P fs = fs\<lparr>lf_nodes := filter (\<lambda>(q, _). \<not> P q) (lf_nodes fs)\<rparr>"

definition children :: "LocalFs \<Rightarrow> path \<Rightarrow> string list" where
  "children fs d = map last (filter (\<lambda>q. q \<noteq> [] \<and> butlast q = d) (map fst (lf_nodes fs)))"


section \<open>Lookup\<close>

text \<open>Follows a path from a folder, given how many more links it may follow.\<close>

function walk_path :: "nat \<Rightarrow> LocalFs \<Rightarrow> path \<Rightarrow> string list \<Rightarrow> (path, IoError) result" where
  "walk_path links fs dir [] = Ok dir"
| "walk_path links fs dir (c # cs) = (case node_at fs (dir @ [c]) of
     Some Folder \<Rightarrow> walk_path links fs (dir @ [c]) cs
   | Some (RegularFile _ _) \<Rightarrow> (if cs = [] then Ok (dir @ [c]) else Err (io_error NotADirectory))
   | Some (SymLink target) \<Rightarrow> (if links = 0 then Err (IoError OtherKind ''too many levels of symbolic links'')
        else walk_path (links - 1) fs [] (target @ cs))
   | None \<Rightarrow> (if cs = [] then Ok (dir @ [c]) else Err (io_error NotFound)))"
  by pat_completeness auto
termination by (relation "inv_image (less_than <*lex*> less_than) (\<lambda>(links, fs, dir, cs). (links, length cs))") auto

definition resolve :: "LocalFs \<Rightarrow> path \<Rightarrow> (path, IoError) result" where
  "resolve fs p = walk_path 40 fs [] p"

text \<open>The place of the last component itself, without following it.\<close>

definition resolve_entry :: "LocalFs \<Rightarrow> path \<Rightarrow> (path, IoError) result" where
  "resolve_entry fs p = (if p = [] then Ok [] else and_then (resolve fs (butlast p)) (\<lambda>d. case node_at fs d of
     Some Folder \<Rightarrow> Ok (d @ [last p])
   | None \<Rightarrow> Err (io_error NotFound)
   | Some _ \<Rightarrow> Err (io_error NotADirectory)))"


section \<open>Calls\<close>

definition with_local_fault :: "(nat \<Rightarrow> LocalFs \<Rightarrow> LocalFs) \<Rightarrow> 'a local_io \<Rightarrow> 'a local_io" where
  "with_local_fault damage run fs = (case lf_faults fs of
     [] \<Rightarrow> run fs
   | None # rest \<Rightarrow> run (fs\<lparr>lf_faults := rest\<rparr>)
   | Some f # rest \<Rightarrow> (damage (fault_written f) (fs\<lparr>lf_faults := rest\<rparr>),
                        Err (IoError OtherKind (fault_message f))))"

abbreviation unharmed :: "nat \<Rightarrow> LocalFs \<Rightarrow> LocalFs" where "unharmed \<equiv> \<lambda>_ fs. fs"

text \<open>A call that only looks: its answer is a function of the tree.\<close>

definition looking :: "(LocalFs \<Rightarrow> ('a, IoError) result) \<Rightarrow> 'a local_io" where
  "looking f = with_local_fault unharmed (\<lambda>fs. (fs, f fs))"

text \<open>A call that changes the tree or fails; a fault may leave some of it done.\<close>

definition changing :: "(nat \<Rightarrow> LocalFs \<Rightarrow> LocalFs) \<Rightarrow> (LocalFs \<Rightarrow> (LocalFs, IoError) result) \<Rightarrow> unit local_io" where
  "changing damage f = with_local_fault damage (\<lambda>fs. case f fs of Ok fs' \<Rightarrow> (fs', Ok ()) | Err e \<Rightarrow> (fs, Err e))"

definition found :: "LocalFs \<Rightarrow> path \<Rightarrow> (Node, IoError) result" where
  "found fs p = ok_or (node_at fs p) (io_error NotFound)"

definition symlink_metadata :: "path \<Rightarrow> Node local_io" where
  "symlink_metadata p = looking (\<lambda>fs. and_then (resolve_entry fs p) (found fs))"

definition try_exists :: "path \<Rightarrow> bool local_io" where
  "try_exists p = looking (\<lambda>fs. case resolve fs p of
     Ok q \<Rightarrow> Ok (node_at fs q \<noteq> None)
   | Err e \<Rightarrow> (if io_kind e = NotFound then Ok False else Err e))"

definition canonicalize :: "path \<Rightarrow> path local_io" where
  "canonicalize p = looking (\<lambda>fs. and_then (resolve fs p) (\<lambda>q. and_then (found fs q) (\<lambda>_. Ok q)))"

definition read_file :: "path \<Rightarrow> bytes local_io" where
  "read_file p = looking (\<lambda>fs. and_then (resolve fs p) (\<lambda>q. and_then (found fs q) (\<lambda>n. case n of
     RegularFile b _ \<Rightarrow> Ok b | _ \<Rightarrow> Err (IoError OtherKind ''is a directory''))))"

definition read_directory :: "path \<Rightarrow> string list local_io" where
  "read_directory p = looking (\<lambda>fs. and_then (resolve fs p) (\<lambda>q. and_then (found fs q) (\<lambda>n. case n of
     Folder \<Rightarrow> Ok (children fs q) | _ \<Rightarrow> Err (io_error NotADirectory))))"

definition remove_file :: "path \<Rightarrow> unit local_io" where
  "remove_file p = changing unharmed (\<lambda>fs. and_then (resolve_entry fs p) (\<lambda>q. and_then (found fs q) (\<lambda>n. case n of
     Folder \<Rightarrow> Err (IoError OtherKind ''is a directory'') | _ \<Rightarrow> Ok (delete_where (\<lambda>r. r = q) fs))))"

definition remove_dir :: "path \<Rightarrow> unit local_io" where
  "remove_dir p = changing unharmed (\<lambda>fs. and_then (resolve_entry fs p) (\<lambda>q. and_then (found fs q) (\<lambda>n. case n of
     Folder \<Rightarrow> (if children fs q = [] then Ok (delete_where (\<lambda>r. r = q) fs) else Err (io_error DirectoryNotEmpty))
   | _ \<Rightarrow> Err (io_error NotADirectory))))"

text \<open>The contents go before the folder; a fault leaves the upper part.\<close>

definition remove_some :: "path \<Rightarrow> nat \<Rightarrow> LocalFs \<Rightarrow> LocalFs" where
  "remove_some p n fs = (case resolve_entry fs p of
     Ok q \<Rightarrow> delete_where (\<lambda>r. is_under q r \<and> length q + n < length r) fs
   | Err _ \<Rightarrow> fs)"

definition remove_dir_all :: "path \<Rightarrow> unit local_io" where
  "remove_dir_all p = changing (remove_some p) (\<lambda>fs. and_then (resolve_entry fs p) (\<lambda>q. and_then (found fs q) (\<lambda>n. case n of
     Folder \<Rightarrow> Ok (delete_where (is_under q) fs)
   | SymLink _ \<Rightarrow> Ok (delete_where (\<lambda>r. r = q) fs)
   | RegularFile _ _ \<Rightarrow> Err (io_error NotADirectory))))"

text \<open>Makes the folders that are missing along a path.\<close>

fun make_folders :: "path \<Rightarrow> string list \<Rightarrow> LocalFs \<Rightarrow> LocalFs \<times> (unit, IoError) result" where
  "make_folders dir [] fs = (fs, Ok ())"
| "make_folders dir (c # cs) fs = (case resolve_entry fs (dir @ [c]) of
     Err e \<Rightarrow> (fs, Err e)
   | Ok q \<Rightarrow> (case node_at fs q of
       Some Folder \<Rightarrow> make_folders (dir @ [c]) cs fs
     | None \<Rightarrow> make_folders (dir @ [c]) cs (put_node q Folder fs)
     | Some (RegularFile _ _) \<Rightarrow> (fs, Err (io_error AlreadyExists))
     | Some (SymLink _) \<Rightarrow> (case and_then (resolve fs q) (found fs) of
           Ok Folder \<Rightarrow> make_folders (dir @ [c]) cs fs
         | _ \<Rightarrow> (fs, Err (io_error AlreadyExists)))))"

definition create_dir_all :: "path \<Rightarrow> unit local_io" where
  "create_dir_all p = with_local_fault (\<lambda>n fs. fst (make_folders [] (take n p) fs)) (make_folders [] p)"

text \<open>Opening a file for writing creates it or truncates it.\<close>

definition writable :: "LocalFs \<Rightarrow> path \<Rightarrow> (path, IoError) result" where
  "writable fs p = and_then (resolve fs p) (\<lambda>q. case node_at fs q of
     Some Folder \<Rightarrow> Err (IoError OtherKind ''is a directory'') | _ \<Rightarrow> Ok q)"

definition write_bytes :: "path \<Rightarrow> bytes \<Rightarrow> LocalFs \<Rightarrow> LocalFs" where
  "write_bytes q b fs = put_node q (RegularFile b (lf_now fs)) fs"

definition write_file :: "path \<Rightarrow> bytes \<Rightarrow> unit local_io" where
  "write_file p b = changing (\<lambda>n fs. case writable fs p of Ok q \<Rightarrow> write_bytes q (take n b) fs | Err _ \<Rightarrow> fs)
     (\<lambda>fs. and_then (writable fs p) (\<lambda>q. Ok (write_bytes q b fs)))"

definition copy_file :: "path \<Rightarrow> path \<Rightarrow> unit local_io" where
  "copy_file src dst = then_do (read_file src) (write_file dst)"

text \<open>A rename of a file replaces a file or a link, never a folder.\<close>

definition rename_file :: "path \<Rightarrow> path \<Rightarrow> unit local_io" where
  "rename_file src dst = changing unharmed (\<lambda>fs.
     and_then (resolve_entry fs src) (\<lambda>s. and_then (found fs s) (\<lambda>n.
     and_then (resolve_entry fs dst) (\<lambda>d. case (n, node_at fs d) of
       (Folder, _) \<Rightarrow> Err (io_error NotADirectory)
     | (_, Some Folder) \<Rightarrow> Err (IoError OtherKind ''is a directory'')
     | _ \<Rightarrow> Ok (put_node d n (delete_where (\<lambda>r. r = s) fs))))))"

definition sync_file :: "path \<Rightarrow> unit local_io" where
  "sync_file p = looking (\<lambda>_. Ok ())"

text \<open>A new file in a folder, under the first of the drawn names that is free.\<close>

fun free_name :: "LocalFs \<Rightarrow> path \<Rightarrow> string \<Rightarrow> string list \<Rightarrow> (string \<times> string list) option" where
  "free_name fs d prefix [] = None"
| "free_name fs d prefix (n # ns) =
     (if node_at fs (d @ [prefix @ n]) = None then Some (prefix @ n, ns) else free_name fs d prefix ns)"

definition temporary_file_in :: "path \<Rightarrow> string \<Rightarrow> path local_io" where
  "temporary_file_in parent prefix = with_local_fault unharmed (\<lambda>fs.
     case and_then (resolve fs parent) (\<lambda>d. and_then (found fs d) (\<lambda>n. case n of
         Folder \<Rightarrow> Ok d | _ \<Rightarrow> Err (io_error NotADirectory))) of
       Err e \<Rightarrow> (fs, Err e)
     | Ok d \<Rightarrow> (case free_name fs d prefix (lf_names fs) of
         None \<Rightarrow> (fs, Err (IoError AlreadyExists ''too many temporary files exist''))
       | Some (n, rest) \<Rightarrow> (write_bytes (d @ [n]) [] (fs\<lparr>lf_names := rest\<rparr>), Ok (parent @ [n]))))"


section \<open>What the calls change\<close>

lemma node_at_root [simp]: "node_at fs [] = Some Folder"
  by (simp add: node_at_def)

lemma node_at_put [simp]: "p \<noteq> [] \<Longrightarrow> node_at (put_node p n fs) q = (if q = p then Some n else node_at fs q)"
  by (simp add: node_at_def put_node_def)

lemma map_of_filter_not: "map_of (filter (\<lambda>(k, _). \<not> P k) xs) k = (if P k then None else map_of xs k)"
  by (induction xs) auto

lemma node_at_delete [simp]:
  "node_at (delete_where P fs) q = (if P q \<and> q \<noteq> [] then None else node_at fs q)"
  by (simp add: node_at_def delete_where_def map_of_filter_not)

lemma node_at_other [simp]:
  "node_at (fs\<lparr>lf_faults := f\<rparr>) = node_at fs" "node_at (fs\<lparr>lf_names := ns\<rparr>) = node_at fs"
  "node_at (fs\<lparr>lf_now := t\<rparr>) = node_at fs"
  by (simp_all add: node_at_def fun_eq_iff)

lemma node_at_write [simp]:
  "p \<noteq> [] \<Longrightarrow> node_at (write_bytes p b fs) q = (if q = p then Some (RegularFile b (lf_now fs)) else node_at fs q)"
  by (simp add: write_bytes_def)

lemma is_under_iff: "is_under p q \<longleftrightarrow> (\<exists>r. q = p @ r)"
  by (metis append_eq_conv_conj append_take_drop_id is_under_def)

lemma in_children: "c \<in> set (children fs d) \<longleftrightarrow> node_at fs (d @ [c]) \<noteq> None"
proof -
  have "c \<in> set (children fs d) \<longleftrightarrow> d @ [c] \<in> fst ` set (lf_nodes fs)"
    unfolding children_def by (force simp: snoc_eq_iff_butlast image_iff)
  then show ?thesis by (simp add: node_at_def map_of_eq_None_iff)
qed

end
