(* ===== verification/Local_Engine.thy ===== *)
theory Local_Engine
  imports Local_Tree Reconcile
begin

text \<open>
  The local side of a workspace: \<^verbatim>\<open>rustsync-core/src/workspace/local_engine.rs\<close> with
  \<^verbatim>\<open>ignore.rs\<close>, \<^verbatim>\<open>layout.rs\<close> and \<^verbatim>\<open>manifest/builder.rs\<close>, \<^verbatim>\<open>manifest/store.rs\<close>.
  The JSON of manifests and states, SHA-256 and the compiler of ignore rules are parameters; the
  directory walker is the recursion it documents.  A recursion over folders has fuel, the number of
  nodes: no path of folders is longer.
\<close>

section \<open>Parameters and layout\<close>

record local_env =
  le_sha256 :: "bytes \<Rightarrow> bytes"
  le_manifest_to_json :: "Manifest \<Rightarrow> (bytes, string) result"
  le_manifest_from_json :: "bytes \<Rightarrow> (Manifest, string) result"
  le_state_to_json :: "SyncState \<Rightarrow> (bytes, string) result"
  le_state_from_json :: "bytes \<Rightarrow> (SyncState, string) result"
  le_gitignore :: "bytes \<Rightarrow> (path \<Rightarrow> bool \<Rightarrow> bool, IoError) result"

definition WORKSPACE_DIR :: string where "WORKSPACE_DIR = ''.rustsync''"
definition ACTIVE_KEY_ID :: string where "ACTIVE_KEY_ID = ''main''"

record WorkspaceLayout =
  ly_root :: path
  ly_rustsync_dir :: path
  ly_config_path :: path
  ly_keys_dir :: path
  ly_keyring_path :: path
  ly_main_key_path :: path
  ly_manifest_path :: path
  ly_sync_state_path :: path
  ly_device_identity_path :: path
  ly_device_registry_path :: path
  ly_access_control_path :: path

definition layout_new :: "path \<Rightarrow> WorkspaceLayout" where
  "layout_new root = (let rustsync_dir = root @ [WORKSPACE_DIR]; keys_dir = rustsync_dir @ [''keys''] in \<lparr>
     ly_root = root, ly_rustsync_dir = rustsync_dir, ly_config_path = rustsync_dir @ [''workspace.toml''],
     ly_keys_dir = keys_dir, ly_keyring_path = keys_dir @ [''keyring.toml''],
     ly_main_key_path = keys_dir @ [ACTIVE_KEY_ID @ ''.key''],
     ly_manifest_path = rustsync_dir @ [''manifest.json''], ly_sync_state_path = rustsync_dir @ [''sync-state.json''],
     ly_device_identity_path = rustsync_dir @ [''device.identity.toml''],
     ly_device_registry_path = rustsync_dir @ [''devices.toml''],
     ly_access_control_path = rustsync_dir @ [''access.toml'']\<rparr>)"

definition key_path :: "WorkspaceLayout \<Rightarrow> KeyId \<Rightarrow> path" where
  "key_path ly key_id = ly_keys_dir ly @ [key_id_str key_id @ ''.key'']"

record WorkspaceConfig =
  wc_server_url :: "string option"
  wc_workspace_id :: WorkspaceId
  wc_local_device_id :: DeviceId
  wc_default_key_id :: KeyId

record Workspace =
  wk_layout :: WorkspaceLayout
  wk_config :: WorkspaceConfig

abbreviation wk_root :: "Workspace \<Rightarrow> path" where "wk_root wk \<equiv> ly_root (wk_layout wk)"
abbreviation wk_workspace_id :: "Workspace \<Rightarrow> WorkspaceId" where "wk_workspace_id wk \<equiv> wc_workspace_id (wk_config wk)"

type_synonym 'a manifest_io = "(LocalFs, 'a, ManifestError) action"
type_synonym 'a engine_io = "(LocalFs, 'a, LocalWorkspaceError) action"

text \<open>The components of a path given as text.\<close>

definition components_of :: "string \<Rightarrow> path" where
  "components_of s = filter (\<lambda>c. c \<noteq> [] \<and> c \<noteq> ''.'') (split_on slash s)"

text \<open>A loop that carries a value and stops at the first error.\<close>

primrec fold_do :: "('x \<Rightarrow> 'a \<Rightarrow> ('s, 'a, 'e) action) \<Rightarrow> 'x list \<Rightarrow> 'a \<Rightarrow> ('s, 'a, 'e) action" where
  "fold_do f [] a = done_with a"
| "fold_do f (x # xs) a = then_do (f x a) (fold_do f xs)"


section \<open>The stored manifest\<close>

definition manifest_to_json_bytes :: "local_env \<Rightarrow> Manifest \<Rightarrow> (bytes, ManifestError) result" where
  "manifest_to_json_bytes env m = map_err (le_manifest_to_json env m) SerializeManifest"

definition manifest_from_json_bytes :: "local_env \<Rightarrow> bytes \<Rightarrow> (Manifest, ManifestError) result" where
  "manifest_from_json_bytes env bs = map_err (le_manifest_from_json env bs) DeserializeManifest"

definition save_manifest :: "local_env \<Rightarrow> Workspace \<Rightarrow> Manifest \<Rightarrow> unit manifest_io" where
  "save_manifest env wk m =
    then_do (lift_result (manifest_to_json_bytes env m)) (\<lambda>bs.
      map_error (write_file (ly_manifest_path (wk_layout wk)) bs) ManifestIo)"

text \<open>\<^verbatim>\<open>Path::exists\<close> takes an error for absence.\<close>

definition path_exists :: "path \<Rightarrow> (LocalFs, bool, 'e) action" where
  "path_exists p = match_do (try_exists p) (\<lambda>r. done_with (r = Ok True))"

definition load_manifest :: "local_env \<Rightarrow> Workspace \<Rightarrow> Manifest option manifest_io" where
  "load_manifest env wk = (let path = ly_manifest_path (wk_layout wk) in
    then_do (path_exists path) (\<lambda>present.
    if \<not> present then done_with None
    else then_do (map_error (read_file path) ManifestIo) (\<lambda>bs.
      then_do (lift_result (manifest_from_json_bytes env bs)) (\<lambda>m. done_with (Some m)))))"

definition validate_manifest_workspace :: "Workspace \<Rightarrow> Manifest \<Rightarrow> (unit, ManifestError) result" where
  "validate_manifest_workspace wk m = (if mf_workspace_id m \<noteq> wk_workspace_id wk
     then Err (ManifestWorkspaceIdMismatch (mf_workspace_id m) (wk_workspace_id wk)) else Ok ())"


section \<open>Ignore rules\<close>

definition is_internal :: "path \<Rightarrow> bool" where
  "is_internal rel = list_ex (\<lambda>name. name = WORKSPACE_DIR \<or> starts_with name ''.rustsync-tmp-'') rel"

record IgnoreRules =
  ig_matcher :: "path \<Rightarrow> bool \<Rightarrow> bool"
  ig_tracked :: "path list"

definition excludes :: "IgnoreRules \<Rightarrow> path \<Rightarrow> bool \<Rightarrow> bool" where
  "excludes ig rel is_dir \<longleftrightarrow> is_internal rel \<or> rel \<notin> set (ig_tracked ig) \<and> ig_matcher ig rel is_dir"

text \<open>\<^verbatim>\<open>Path::ancestors\<close>: the path itself, its parents, the empty path.\<close>

definition ancestors :: "path \<Rightarrow> path list" where
  "ancestors p = map (\<lambda>n. take n p) (rev [0..<Suc (length p)])"

definition load_tracked :: "local_env \<Rightarrow> Workspace \<Rightarrow> (path \<Rightarrow> bool \<Rightarrow> bool) \<Rightarrow> (LocalFs, IgnoreRules, IoError) action" where
  "load_tracked env wk matcher =
    then_do (map_error (load_manifest env wk) (\<lambda>_. IoError OtherKind ''manifest'')) (\<lambda>stored.
      done_with \<lparr>ig_matcher = matcher, ig_tracked = (case stored of None \<Rightarrow> []
        | Some m \<Rightarrow> concat (map (\<lambda>(path, _). ancestors (components_of path)) (mf_entries m)))\<rparr>)"

definition load_ignore_rules :: "local_env \<Rightarrow> Workspace \<Rightarrow> (LocalFs, IgnoreRules, IoError) action" where
  "load_ignore_rules env wk =
    then_do (canonicalize (wk_root wk)) (\<lambda>root. let path = root @ [''.rustsyncignore''] in
    match_do (symlink_metadata path) (\<lambda>metadata. case metadata of
      Ok (RegularFile _ _) \<Rightarrow> then_do (read_file path) (\<lambda>rules.
        then_do (lift_result (le_gitignore env rules)) (load_tracked env wk))
    | Ok _ \<Rightarrow> fail_with (IoError OtherKind ''.rustsyncignore must be a regular file'')
    | Err e \<Rightarrow> (if io_kind e = NotFound then then_do (lift_result (le_gitignore env [])) (load_tracked env wk)
               else fail_with e)))"


section \<open>Building the manifest of the tree\<close>

definition walk_error :: "IoError \<Rightarrow> ManifestError" where "walk_error e = WalkDir (io_message e)"

definition build_file :: "local_env \<Rightarrow> path \<Rightarrow> string \<Rightarrow> bytes \<Rightarrow> u64 option \<Rightarrow> Manifest \<Rightarrow> Manifest manifest_io" where
  "build_file env path manifest_path metadata_bytes modified m =
    then_do (map_error (read_file path) ManifestIo) (\<lambda>contents.
    then_do (lift_result (ok_or modified (InvalidModifiedTime manifest_path))) (\<lambda>modified_at.
      lift_result (map_err (manifest_insert m manifest_path
        (entry_file (of_nat (length metadata_bytes)) (hex_encode (le_sha256 env contents)) modified_at)) ManifestProtocol)))"

primrec build_walk :: "nat \<Rightarrow> local_env \<Rightarrow> IgnoreRules \<Rightarrow> path \<Rightarrow> path \<Rightarrow> Manifest \<Rightarrow> Manifest manifest_io" where
  "build_walk 0 env ig root rel m = fail_with (WalkDir ''out of fuel'')"
| "build_walk (Suc fuel) env ig root rel m =
    then_do (map_error (read_directory (root @ rel)) walk_error) (\<lambda>names.
    fold_do (\<lambda>name m. let rel = rel @ [name]; path = root @ rel; manifest_path = join_with [slash] rel in
      then_do (map_error (symlink_metadata path) walk_error) (\<lambda>file_type.
      if excludes ig rel (file_type = Folder) then done_with m
      else then_do (map_error (symlink_metadata path) ManifestIo) (\<lambda>metadata. case metadata of
        SymLink _ \<Rightarrow> fail_with (ManifestIo (IoError InvalidInput (''unsupported workspace entry `'' @ manifest_path
          @ ''`: only regular files and directories can be synced'')))
      | Folder \<Rightarrow> then_do (lift_result (map_err (manifest_insert m manifest_path entry_directory) ManifestProtocol))
          (build_walk fuel env ig root rel)
      | RegularFile bs modified \<Rightarrow> build_file env path manifest_path bs modified m))) names m)"

definition depth :: "string \<Rightarrow> int" where "depth path = int (count_list path slash)"

definition has_visible_child :: "Manifest \<Rightarrow> string \<Rightarrow> bool" where
  "has_visible_child m path = (let prefix = path @ [slash] in
     case filter (\<lambda>(child, _). prefix \<le> child) (mf_entries m) of
       [] \<Rightarrow> False | (child, _) # _ \<Rightarrow> starts_with child prefix)"

text \<open>Folders whose only contents are ignored are left out, deepest first.\<close>

definition prune_directory :: "path \<Rightarrow> string \<Rightarrow> Manifest \<Rightarrow> Manifest manifest_io" where
  "prune_directory root path m =
    (if has_visible_child m path then done_with m
     else then_do (map_error (read_directory (root @ components_of path)) ManifestIo) (\<lambda>names.
       done_with (if names \<noteq> [] then m\<lparr>mf_entries := bt_remove path (mf_entries m)\<rparr> else m)))"

definition walk_fuel :: "LocalFs \<Rightarrow> nat" where "walk_fuel fs = Suc (length (lf_nodes fs))"

definition build_manifest :: "local_env \<Rightarrow> Workspace \<Rightarrow> Manifest manifest_io" where
  "build_manifest env wk =
    then_do (map_error (canonicalize (wk_root wk)) ManifestIo) (\<lambda>root.
    then_do (map_error (load_ignore_rules env wk) ManifestIo) (\<lambda>ignores.
    then_do (\<lambda>fs. build_walk (walk_fuel fs) env ignores root [] (manifest_new (wk_workspace_id wk)) fs) (\<lambda>m.
    let directories = map fst (filter (\<lambda>(_, e). e = Directory) (mf_entries m))
    in fold_do (prune_directory root) (sort_key (\<lambda>p. - depth p) directories) m)))"


section \<open>Paths of a manifest\<close>

definition engine_validate_path :: "string \<Rightarrow> (unit, LocalWorkspaceError) result" where
  "engine_validate_path relative_path =
    (if relative_path = [] \<or> relative_path = WORKSPACE_DIR \<or> starts_with relative_path (WORKSPACE_DIR @ [slash])
        \<or> backslash \<in> set relative_path \<or> CHR 0x00 \<in> set relative_path
        \<or> list_ex bad_component (split_on slash relative_path) \<or> starts_with relative_path [slash]
     then Err (UnsafeManifestPath relative_path) else Ok ())"

text \<open>The prefixes of a path that end before a slash.\<close>

definition slash_prefixes :: "string \<Rightarrow> string list" where
  "slash_prefixes path = map (\<lambda>i. take i path) (filter (\<lambda>i. path ! i = slash) [0..<length path])"

definition engine_validate_paths :: "Manifest \<Rightarrow> (unit, LocalWorkspaceError) result" where
  "engine_validate_paths m = try_for (\<lambda>path. and_then (engine_validate_path path) (\<lambda>_.
     try_for (\<lambda>prefix. case manifest_get m prefix of
       Some (File _) \<Rightarrow> Err (UnsafeManifestPath path) | _ \<Rightarrow> Ok ()) (slash_prefixes path))) (entry_keys m)"

definition workspace_path :: "Workspace \<Rightarrow> string \<Rightarrow> (path, LocalWorkspaceError) result" where
  "workspace_path wk relative_path =
     and_then (engine_validate_path relative_path) (\<lambda>_. Ok (wk_root wk @ components_of relative_path))"

definition validate_pulled_manifest :: "Workspace \<Rightarrow> Manifest \<Rightarrow> (unit, LocalWorkspaceError) result" where
  "validate_pulled_manifest wk m =
     and_then (map_err (validate_manifest_workspace wk m) LocalManifest) (\<lambda>_. engine_validate_paths m)"


section \<open>The blob cache\<close>

definition staged_blob_path :: "Workspace \<Rightarrow> string \<Rightarrow> path" where
  "staged_blob_path wk content_hash = ly_rustsync_dir (wk_layout wk) @ [''blobs'', content_hash]"

definition verify_blob_hash :: "local_env \<Rightarrow> string \<Rightarrow> bytes \<Rightarrow> (unit, LocalWorkspaceError) result" where
  "verify_blob_hash env content_hash bs =
     (if hex_encode (le_sha256 env bs) \<noteq> content_hash then Err (BlobHashMismatch content_hash) else Ok ())"

definition verify_cached_blob :: "local_env \<Rightarrow> path \<Rightarrow> string \<Rightarrow> bool engine_io" where
  "verify_cached_blob env path content_hash =
     then_do (map_error (read_file path) LocalIo) (\<lambda>bs. done_with (hex_encode (le_sha256 env bs) = content_hash))"

text \<open>Whether the cache already holds the content; the second check is made only if the first holds.\<close>

definition cached :: "local_env \<Rightarrow> path \<Rightarrow> string \<Rightarrow> bool engine_io" where
  "cached env target content_hash =
     then_do (map_error (try_exists target) LocalIo) (\<lambda>present.
       if present then verify_cached_blob env target content_hash else done_with False)"

definition cache_blob :: "local_env \<Rightarrow> Workspace \<Rightarrow> string \<Rightarrow> bytes \<Rightarrow> bool engine_io" where
  "cache_blob env wk content_hash bs = (let target = staged_blob_path wk content_hash in
     then_do (cached env target content_hash) (\<lambda>present.
     if present then done_with False
     else then_do (map_error (create_dir_all (butlast target)) LocalIo) (\<lambda>_.
       then_do (map_error (write_file target bs) LocalIo) (\<lambda>_. done_with True))))"

definition cache_entry :: "local_env \<Rightarrow> Workspace \<Rightarrow> string \<times> ManifestEntry \<Rightarrow> unit \<Rightarrow> unit engine_io" where
  "cache_entry env wk item u = (case item of (_, Directory) \<Rightarrow> done_with ()
     | (relative_path, File f) \<Rightarrow> (let target = staged_blob_path wk (fe_content_hash f) in
         then_do (cached env target (fe_content_hash f)) (\<lambda>present.
         if present then done_with ()
         else then_do (map_error (create_dir_all (butlast target)) LocalIo) (\<lambda>_.
           map_error (copy_file (wk_root wk @ components_of relative_path) target) LocalIo))))"

definition cache_manifest_blobs :: "local_env \<Rightarrow> Workspace \<Rightarrow> Manifest \<Rightarrow> unit engine_io" where
  "cache_manifest_blobs env wk m = fold_do (cache_entry env wk) (mf_entries m) ()"

definition verify_cached_objects :: "local_env \<Rightarrow> Workspace \<Rightarrow> nat engine_io" where
  "verify_cached_objects env wk = (let directory = ly_rustsync_dir (wk_layout wk) @ [''blobs''] in
     match_do (read_directory directory) (\<lambda>entries. case entries of
       Err e \<Rightarrow> (if io_kind e = NotFound then done_with 0 else fail_with (LocalIo e))
     | Ok names \<Rightarrow> fold_do (\<lambda>name verified. let path = directory @ [name] in
         then_do (map_error (symlink_metadata path) LocalIo) (\<lambda>file_type. case file_type of
           RegularFile _ _ \<Rightarrow> then_do (map_error (read_file path) LocalIo) (\<lambda>bs.
             then_do (lift_result (verify_blob_hash env name bs)) (\<lambda>_. done_with (verified + 1)))
         | _ \<Rightarrow> fail_with (LocalIo (IoError OtherKind (''cached object is not a regular file: '' @ name))))) names 0))"

definition staged_blob :: "local_env \<Rightarrow> Workspace \<Rightarrow> string \<times> ManifestEntry \<Rightarrow> (string \<times> bytes) list \<Rightarrow>
    (string \<times> bytes) list engine_io" where
  "staged_blob env wk item blobs = (case item of (_, Directory) \<Rightarrow> done_with blobs
     | (_, File f) \<Rightarrow> then_do (map_error (read_file (staged_blob_path wk (fe_content_hash f)))
           (MissingStagedBlob (fe_content_hash f))) (\<lambda>bs.
         then_do (lift_result (verify_blob_hash env (fe_content_hash f) bs)) (\<lambda>_.
           done_with (blobs @ [(fe_content_hash f, bs)]))))"

definition staged_blobs_for_manifest :: "local_env \<Rightarrow> Workspace \<Rightarrow> Manifest \<Rightarrow> (string \<times> bytes) list engine_io" where
  "staged_blobs_for_manifest env wk m =
     then_do (lift_result (map_err (validate_manifest_workspace wk m) LocalManifest)) (\<lambda>_.
       fold_do (staged_blob env wk) (mf_entries m) [])"


section \<open>Staging and status\<close>

definition load_manifest_optional :: "local_env \<Rightarrow> Workspace \<Rightarrow> Manifest option engine_io" where
  "load_manifest_optional env wk =
     then_do (map_error (load_manifest env wk) LocalManifest) (\<lambda>stored.
     then_do (lift_result (case stored of None \<Rightarrow> Ok ()
         | Some m \<Rightarrow> map_err (validate_manifest_workspace wk m) LocalManifest)) (\<lambda>_. done_with stored))"

definition load_staged_manifest :: "local_env \<Rightarrow> Workspace \<Rightarrow> Manifest engine_io" where
  "load_staged_manifest env wk =
     then_do (load_manifest_optional env wk) (\<lambda>stored. lift_result (ok_or stored MissingStagedManifest))"

record StageReport =
  sr_manifest :: Manifest
  sr_diff :: "ManifestChange list"
  sr_summary :: StageSummary

definition stage_all :: "local_env \<Rightarrow> Workspace \<Rightarrow> StageReport engine_io" where
  "stage_all env wk =
     then_do (load_manifest_optional env wk) (\<lambda>stored.
     let previous = (case stored of Some m \<Rightarrow> m | None \<Rightarrow> manifest_new (wk_workspace_id wk)) in
     then_do (map_error (build_manifest env wk) LocalManifest) (\<lambda>next.
     then_do (cache_manifest_blobs env wk next) (\<lambda>_.
     then_do (map_error (save_manifest env wk next) LocalManifest) (\<lambda>_.
     let diff = diff_manifests previous next
     in done_with \<lparr>sr_manifest = next, sr_diff = diff, sr_summary = summary_from_changes diff\<rparr>))))"

record WorkingTreeStatus =
  ts_current :: Manifest
  ts_baseline :: Manifest
  ts_diff :: "ManifestChange list"
  ts_has_baseline :: bool

definition working_tree_status :: "local_env \<Rightarrow> Workspace \<Rightarrow> WorkingTreeStatus engine_io" where
  "working_tree_status env wk =
     then_do (map_error (build_manifest env wk) LocalManifest) (\<lambda>current.
     then_do (load_manifest_optional env wk) (\<lambda>stored.
     let baseline = (case stored of Some m \<Rightarrow> m | None \<Rightarrow> manifest_new (wk_workspace_id wk))
     in done_with \<lparr>ts_current = current, ts_baseline = baseline, ts_diff = diff_manifests baseline current,
          ts_has_baseline = (stored \<noteq> None)\<rparr>))"

definition sync_state_default :: SyncState where
  "sync_state_default = \<lparr>ss_last_synced_revision = None, ss_last_synced_manifest = None, ss_last_observed_remote = None,
     ss_last_published_local = None, ss_pending_operation = None, ss_conflicts = []\<rparr>"

definition load_sync_state :: "local_env \<Rightarrow> Workspace \<Rightarrow> SyncState engine_io" where
  "load_sync_state env wk = (let path = ly_sync_state_path (wk_layout wk) in
     then_do (map_error (try_exists path) LocalIo) (\<lambda>present.
     if \<not> present then done_with sync_state_default
     else then_do (map_error (read_file path) LocalIo) (\<lambda>bs.
       lift_result (map_err (le_state_from_json env bs) LocalSyncState))))"

definition save_sync_state :: "local_env \<Rightarrow> Workspace \<Rightarrow> SyncState \<Rightarrow> unit engine_io" where
  "save_sync_state env wk state = (let path = ly_sync_state_path (wk_layout wk);
       temporary = ly_rustsync_dir (wk_layout wk) @ [''sync-state.json.tmp''] in
     then_do (lift_result (map_err (le_state_to_json env state) LocalSyncState)) (\<lambda>bs.
     then_do (map_error (write_file temporary bs) LocalIo) (\<lambda>_.
       map_error (rename_file temporary path) LocalIo)))"


section \<open>Applying a manifest\<close>

record ApplyReport =
  ar_removed_paths :: nat
  ar_written_files :: nat
  ar_prepared_directories :: nat
  ar_cached_blobs :: nat

text \<open>Whether no component is a link and every component exists.\<close>

fun probe_components :: "path \<Rightarrow> path \<Rightarrow> bool engine_io" where
  "probe_components target [] = done_with True"
| "probe_components target (c # cs) = (let target = target @ [c] in
     match_do (symlink_metadata target) (\<lambda>metadata. case metadata of
       Ok (SymLink _) \<Rightarrow> done_with False
     | Ok _ \<Rightarrow> probe_components target cs
     | Err e \<Rightarrow> (if io_kind e = NotFound \<or> io_kind e = NotADirectory then done_with False else fail_with (LocalIo e))))"

definition matching_local_file :: "local_env \<Rightarrow> path \<Rightarrow> string \<Rightarrow> FileEntry \<Rightarrow> bytes option engine_io" where
  "matching_local_file env root relative f = (let target = root @ components_of relative in
     then_do (probe_components root (components_of relative)) (\<lambda>plain.
     if \<not> plain then done_with None
     else then_do (map_error (symlink_metadata target) LocalIo) (\<lambda>metadata. case metadata of
         RegularFile b _ \<Rightarrow> (if of_nat (length b) \<noteq> fe_size f then done_with None
           else then_do (map_error (read_file target) LocalIo) (\<lambda>bs.
             done_with (if of_nat (length bs) = fe_size f \<and> hex_encode (le_sha256 env bs) = fe_content_hash f
               then Some bs else None)))
       | _ \<Rightarrow> done_with None)))"

text \<open>The paths found in the tree and the ignored ones, as text with forward slashes.\<close>

definition relative_text :: "path \<Rightarrow> string" where
  "relative_text rel = map (\<lambda>c. if c = backslash then slash else c) (join_with [slash] rel)"

definition collect_entry :: "(path \<Rightarrow> string list \<times> string list \<Rightarrow> (string list \<times> string list) engine_io) \<Rightarrow> IgnoreRules \<Rightarrow>
    path \<Rightarrow> path \<Rightarrow> string \<Rightarrow> string list \<times> string list \<Rightarrow> (string list \<times> string list) engine_io" where
  "collect_entry descend ig root rel name acc = (case acc of (out, protected) \<Rightarrow>
     let path = rel @ [name]; relative = relative_text path in
     if is_internal (components_of relative) then done_with (out, protected)
     else then_do (map_error (symlink_metadata (root @ path)) LocalIo) (\<lambda>file_type.
     if excludes ig (components_of relative) (file_type = Folder) then done_with (out, protected @ [relative])
     else then_do (map_error (symlink_metadata (root @ path)) LocalIo) (\<lambda>file_type.
       if file_type = Folder then descend path (out @ [relative], protected)
       else done_with (out @ [relative], protected))))"

primrec collect_workspace_paths :: "nat \<Rightarrow> IgnoreRules \<Rightarrow> path \<Rightarrow> path \<Rightarrow> string list \<times> string list \<Rightarrow>
    (string list \<times> string list) engine_io" where
  "collect_workspace_paths 0 ig root rel acc = fail_with (LocalIo (IoError OtherKind ''out of fuel''))"
| "collect_workspace_paths (Suc fuel) ig root rel acc =
    then_do (map_error (read_directory (root @ rel)) LocalIo)
      (\<lambda>names. fold_do (collect_entry (collect_workspace_paths fuel ig root) ig root rel) names acc)"

definition refuse_protected :: "Manifest \<Rightarrow> string list \<Rightarrow> (unit, LocalWorkspaceError) result" where
  "refuse_protected m protected_paths = try_for (\<lambda>protected. try_for (\<lambda>(path, entry).
     if path = protected \<or> under protected path \<or> entry \<noteq> Directory \<and> under path protected
     then Err (LocalIo (IoError OtherKind (''pull would overwrite ignored local path `'' @ protected
       @ ''`; move it or update .rustsyncignore'')))
     else Ok ()) (mf_entries m)) protected_paths"

text \<open>Contents the tree already has, then contents from the source, by hash.\<close>

definition fetch_unchanged :: "local_env \<Rightarrow> Workspace \<Rightarrow> string \<times> ManifestEntry \<Rightarrow> string list \<times> (string \<times> bytes) list \<Rightarrow>
    (string list \<times> (string \<times> bytes) list) engine_io" where
  "fetch_unchanged env wk item acc = (case (item, acc) of
     ((_, Directory), _) \<Rightarrow> done_with acc
   | ((path, File f), (unchanged, fetched)) \<Rightarrow>
       then_do (matching_local_file env (wk_root wk) path f) (\<lambda>found. case found of
         None \<Rightarrow> done_with acc
       | Some bs \<Rightarrow> done_with (unchanged @ [path], bt_insert (fe_content_hash f) bs fetched)))"

definition fetch_missing :: "local_env \<Rightarrow> (string \<Rightarrow> (bytes, IoError) result) \<Rightarrow> string \<times> ManifestEntry \<Rightarrow>
    (string \<times> bytes) list \<Rightarrow> (string \<times> bytes) list engine_io" where
  "fetch_missing env blob_source item fetched = (case item of
     (_, Directory) \<Rightarrow> done_with fetched
   | (_, File f) \<Rightarrow> (let hash = fe_content_hash f in
       if bt_contains fetched hash then done_with fetched
       else then_do (lift_result (map_err (blob_source hash) (BlobSource hash))) (\<lambda>bs.
         then_do (lift_result (verify_blob_hash env hash bs)) (\<lambda>_. done_with (bt_insert hash bs fetched)))))"

definition check_sizes :: "Manifest \<Rightarrow> (string \<times> bytes) list \<Rightarrow> (unit, LocalWorkspaceError) result" where
  "check_sizes m fetched = try_for (\<lambda>(path, entry). case entry of
     Directory \<Rightarrow> Ok ()
   | File f \<Rightarrow> (if map_option (\<lambda>bs. of_nat (length bs)) (map_of fetched (fe_content_hash f)) \<noteq> Some (fe_size f)
       then Err (LocalIo (IoError InvalidData (''manifest size does not match downloaded file `'' @ path @ ''`'')))
       else Ok ())) (mf_entries m)"

definition remove_path_if_exists :: "path \<Rightarrow> bool engine_io" where
  "remove_path_if_exists path = match_do (symlink_metadata path) (\<lambda>metadata. case metadata of
     Ok Folder \<Rightarrow> then_do (map_error (remove_dir_all path) LocalIo) (\<lambda>_. done_with True)
   | Ok _ \<Rightarrow> then_do (map_error (remove_file path) LocalIo) (\<lambda>_. done_with True)
   | Err e \<Rightarrow> (if io_kind e = NotFound then done_with False else fail_with (LocalIo e)))"

definition remove_missing :: "Workspace \<Rightarrow> Manifest \<Rightarrow> string \<Rightarrow> nat \<Rightarrow> nat engine_io" where
  "remove_missing wk m relative_path removed =
    (if manifest_contains_path m relative_path then done_with removed
     else then_do (lift_result (workspace_path wk relative_path)) (\<lambda>target.
     match_do (symlink_metadata target) (\<lambda>metadata.
     if metadata = Ok Folder then match_do (remove_dir target) (\<lambda>r. case r of
         Ok _ \<Rightarrow> done_with (removed + 1)
       | Err e \<Rightarrow> (if io_kind e = DirectoryNotEmpty then done_with removed else fail_with (LocalIo e)))
     else then_do (remove_path_if_exists target) (\<lambda>gone. done_with (if gone then removed + 1 else removed)))))"

definition remove_entries_missing_from_remote :: "Workspace \<Rightarrow> Manifest \<Rightarrow> string list \<Rightarrow> nat engine_io" where
  "remove_entries_missing_from_remote wk m local_paths =
     fold_do (remove_missing wk m) (sort_key (\<lambda>path. - depth path) local_paths) 0"

definition prepare_directory_path :: "path \<Rightarrow> unit engine_io" where
  "prepare_directory_path path = match_do (symlink_metadata path) (\<lambda>metadata. case metadata of
     Ok Folder \<Rightarrow> done_with ()
   | Ok _ \<Rightarrow> then_do (map_error (remove_file path) LocalIo) (\<lambda>_. map_error (create_dir_all path) LocalIo)
   | Err e \<Rightarrow> (if io_kind e = NotFound then map_error (create_dir_all path) LocalIo else fail_with (LocalIo e)))"

text \<open>A temporary file that is dropped is removed, whether or not that works.\<close>

definition or_drop :: "path \<Rightarrow> (LocalFs, 'a, IoError) action \<Rightarrow> 'a engine_io" where
  "or_drop temporary m = match_do m (\<lambda>r. case r of
     Ok a \<Rightarrow> done_with a
   | Err e \<Rightarrow> match_do (remove_file temporary) (\<lambda>_. fail_with (LocalIo e)))"

definition replace_with :: "path \<Rightarrow> bytes \<Rightarrow> Node option \<Rightarrow> unit engine_io" where
  "replace_with path bs metadata =
     then_do (map_error (create_dir_all (butlast path)) LocalIo) (\<lambda>_.
     then_do (map_error (temporary_file_in (butlast path) ''.rustsync-tmp-'') LocalIo) (\<lambda>temporary.
     then_do (or_drop temporary (write_file temporary bs)) (\<lambda>_.
     then_do (or_drop temporary (sync_file temporary)) (\<lambda>_.
     then_do (if metadata = Some Folder then or_drop temporary (remove_dir_all path) else done_with ()) (\<lambda>_.
       or_drop temporary (rename_file temporary path))))))"

definition replace_file :: "path \<Rightarrow> bytes \<Rightarrow> unit engine_io" where
  "replace_file path bs = match_do (symlink_metadata path) (\<lambda>metadata. case metadata of
     Ok n \<Rightarrow> replace_with path bs (Some n)
   | Err e \<Rightarrow> (if io_kind e = NotFound then replace_with path bs None else fail_with (LocalIo e)))"

definition apply_entry :: "local_env \<Rightarrow> Workspace \<Rightarrow> (string \<times> bytes) list \<Rightarrow> string list \<Rightarrow> string \<times> ManifestEntry \<Rightarrow>
    ApplyReport \<Rightarrow> ApplyReport engine_io" where
  "apply_entry env wk fetched unchanged item report = (case item of (relative_path, entry) \<Rightarrow>
     then_do (lift_result (workspace_path wk relative_path)) (\<lambda>target. case entry of
       Directory \<Rightarrow> then_do (prepare_directory_path target) (\<lambda>_.
         done_with (report\<lparr>ar_prepared_directories := ar_prepared_directories report + 1\<rparr>))
     | File f \<Rightarrow> (case map_of fetched (fe_content_hash f) of
         None \<Rightarrow> fail_with (LocalIo (IoError OtherKind ''blob prefetch should include every file entry''))
       | Some bs \<Rightarrow>
           then_do (cache_blob env wk (fe_content_hash f) bs) (\<lambda>added.
           let report = (if added then report\<lparr>ar_cached_blobs := ar_cached_blobs report + 1\<rparr> else report) in
           if relative_path \<in> set unchanged then done_with report
           else then_do (replace_file target bs) (\<lambda>_.
             done_with (report\<lparr>ar_written_files := ar_written_files report + 1\<rparr>))))))"

text \<open>What is checked and fetched before anything is changed: the paths found, the contents, and
  which files already have theirs.\<close>

definition fetch_contents :: "local_env \<Rightarrow> Workspace \<Rightarrow> Manifest \<Rightarrow> (string \<Rightarrow> (bytes, IoError) result) \<Rightarrow>
    (string list \<times> (string \<times> bytes) list) engine_io" where
  "fetch_contents env wk m blob_source =
     then_do (fold_do (fetch_unchanged env wk) (mf_entries m) ([], [])) (\<lambda>(unchanged, fetched).
     then_do (fold_do (fetch_missing env blob_source) (mf_entries m) fetched) (\<lambda>fetched.
     then_do (lift_result (check_sizes m fetched)) (\<lambda>_. done_with (unchanged, fetched))))"

definition prepare_apply :: "local_env \<Rightarrow> Workspace \<Rightarrow> Manifest \<Rightarrow> (string \<Rightarrow> (bytes, IoError) result) \<Rightarrow>
    (string list \<times> string list \<times> (string \<times> bytes) list) engine_io" where
  "prepare_apply env wk m blob_source =
     then_do (lift_result (validate_pulled_manifest wk m)) (\<lambda>_.
     then_do (map_error (load_ignore_rules env wk) LocalIo) (\<lambda>ignores.
     then_do (\<lambda>fs. collect_workspace_paths (walk_fuel fs) ignores (wk_root wk) [] ([], []) fs) (\<lambda>(local_paths, protected_paths).
     then_do (lift_result (refuse_protected m protected_paths)) (\<lambda>_.
     then_do (fetch_contents env wk m blob_source) (\<lambda>(unchanged, fetched). done_with (local_paths, unchanged, fetched))))))"

definition apply_pulled_manifest :: "local_env \<Rightarrow> Workspace \<Rightarrow> Manifest \<Rightarrow> (string \<Rightarrow> (bytes, IoError) result) \<Rightarrow>
    ApplyReport engine_io" where
  "apply_pulled_manifest env wk m blob_source =
     then_do (prepare_apply env wk m blob_source) (\<lambda>(local_paths, unchanged, fetched).
     then_do (remove_entries_missing_from_remote wk m local_paths) (\<lambda>removed.
     then_do (fold_do (apply_entry env wk fetched unchanged) (mf_entries m)
       \<lparr>ar_removed_paths = removed, ar_written_files = 0, ar_prepared_directories = 0, ar_cached_blobs = 0\<rparr>) (\<lambda>report.
     then_do (map_error (save_manifest env wk m) LocalManifest) (\<lambda>_. done_with report))))"

end
