(* ===== verification/Sync_Workflow.thy ===== *)
theory Sync_Workflow
  imports Combine Client Local_Engine
begin

text \<open>
  \<^verbatim>\<open>rustsync-cli/src/sync_workflow.rs\<close> and \<^verbatim>\<open>sync_workflow/transfer.rs\<close>: pushing,
  pulling and synchronising a workspace, over any engine for the local side and any remote.  The
  progress callback is not modelled.
\<close>

section \<open>The two sides\<close>

type_synonym ('st, 'a) engine_op = "('st, 'a, LocalWorkspaceError) action"

text \<open>The operations of \<^verbatim>\<open>LocalWorkspaceEngine\<close> and of its workspace's
  \<^verbatim>\<open>crypto()\<close>; a working tree status is the current manifest and its difference from the staged one.\<close>

record 'st Engine =
  eg_workspace_id :: WorkspaceId
  eg_working_tree_status :: "('st, Manifest \<times> ManifestChange list) engine_op"
  eg_stage_all :: "('st, Manifest) engine_op"
  eg_load_staged_manifest :: "('st, Manifest) engine_op"
  eg_staged_blobs_for_manifest :: "Manifest \<Rightarrow> ('st, (string \<times> bytes) list) engine_op"
  eg_validate_pulled_manifest :: "Manifest \<Rightarrow> (unit, LocalWorkspaceError) result"
  eg_apply_pulled_manifest :: "Manifest \<Rightarrow> (string \<Rightarrow> (bytes, IoError) result) \<Rightarrow> ('st, ApplyReport) engine_op"
  eg_load_sync_state :: "('st, SyncState) engine_op"
  eg_save_sync_state :: "SyncState \<Rightarrow> ('st, unit) engine_op"
  eg_encrypt_bytes :: "bytes \<Rightarrow> ('st, EncryptedObject, WorkspaceError) action"
  eg_decrypt_file :: "EncryptedObject \<Rightarrow> ('st, bytes, WorkspaceError) action"

text \<open>\<^verbatim>\<open>SyncRemote\<close>.\<close>

record 'st Remote =
  rm_upload_blob :: "WorkspaceId \<Rightarrow> BlobId \<Rightarrow> bytes \<Rightarrow> ('st, ObjectUploadStatus) client_call"
  rm_upload_manifest :: "WorkspaceId \<Rightarrow> ManifestId \<Rightarrow> bytes \<Rightarrow> ('st, ObjectUploadStatus) client_call"
  rm_download_blob :: "WorkspaceId \<Rightarrow> BlobId \<Rightarrow> ('st, bytes) client_call"
  rm_download_manifest :: "WorkspaceId \<Rightarrow> ManifestId \<Rightarrow> ('st, bytes) client_call"
  rm_fetch_workspace_head :: "WorkspaceId \<Rightarrow> ('st, WorkspaceHead) client_call"
  rm_update_workspace_head :: "WorkspaceId \<Rightarrow> u64 \<Rightarrow> ManifestId \<Rightarrow> ('st, WorkspaceHead) client_call"

text \<open>\<^verbatim>\<open>RustSyncClient\<close> as a remote; each call draws its time and random bytes from a
  function of the state.\<close>

definition client_remote :: "client_codec \<Rightarrow> 'st client \<Rightarrow> ('st \<Rightarrow> call) \<Rightarrow> 'st Remote" where
  "client_remote js cl draw = \<lparr>
     rm_upload_blob = (\<lambda>w b bs st. cl_upload_blob js cl (draw st) w b bs st),
     rm_upload_manifest = (\<lambda>w i bs st. cl_upload_manifest js cl (draw st) w i bs st),
     rm_download_blob = (\<lambda>w b st. cl_download_blob js cl (draw st) w b st),
     rm_download_manifest = (\<lambda>w i st. cl_download_manifest js cl (draw st) w i st),
     rm_fetch_workspace_head = (\<lambda>w st. cl_fetch_workspace_head js cl (draw st) w st),
     rm_update_workspace_head = (\<lambda>w r i st. cl_update_workspace_head js cl (draw st) w r i st)\<rparr>"

text \<open>What a \<^verbatim>\<open>Box<dyn Error>\<close> can hold here; an index out of range panics.\<close>

datatype SyncError =
    SyLocal LocalWorkspaceError
  | SyWorkspace WorkspaceError
  | SyProtocol ProtocolError
  | SyManifest ManifestError
  | SyRemote ClientError
  | SyIo IoError
  | UnstagedChangesError
  | SyncPublicationRace u64 u64
  | SyPanic string

type_synonym 'a sync_result = "('a, SyncError) result"
type_synonym ('st, 'a) sync = "('st, 'a, SyncError) action"

text \<open>Hashing, the JSON of a manifest, and the texts of errors.\<close>

record sync_env =
  sy_sha256 :: "bytes \<Rightarrow> bytes"
  sy_to_json :: "Manifest \<Rightarrow> (bytes, ManifestError) result"
  sy_from_json :: "bytes \<Rightarrow> (Manifest, ManifestError) result"
  sy_display :: "SyncError \<Rightarrow> string"

datatype PullMode = Safe | Force
datatype SyncMode = ReconcileMode | DryRun | DiscardLocal

record PushReport =
  pu_workspace_id :: WorkspaceId
  pu_manifest_id :: ManifestId
  pu_uploaded_blobs :: nat
  pu_reused_blobs :: nat
  pu_uploaded_manifests :: nat
  pu_reused_manifests :: nat
  pu_changed_files :: "string list"
  pu_previous_head_revision :: u64
  pu_updated_head_revision :: u64

record SyncReport =
  sp_workspace_id :: WorkspaceId
  sp_observed_remote_revision :: u64
  sp_synced_revision :: u64
  sp_plan :: ReconciliationPlan
  sp_mode :: SyncMode
  sp_local_content_changed :: bool
  sp_published :: bool
  sp_retry_count :: nat
  sp_conflicts :: "string list"

record PullReport =
  pl_workspace_id :: WorkspaceId
  pl_remote_head_revision :: u64
  pl_manifest_id :: "ManifestId option"
  pl_downloaded_blobs :: nat
  pl_changed_files :: "string list"
  pl_removed_paths :: nat
  pl_prepared_directories :: nat
  pl_written_files :: nat
  pl_cached_blobs :: nat

definition pull_report_from_apply ::
  "WorkspaceId \<Rightarrow> u64 \<Rightarrow> ManifestId option \<Rightarrow> nat \<Rightarrow> string list \<Rightarrow> ApplyReport \<Rightarrow> PullReport" where
  "pull_report_from_apply w revision manifest_id downloaded changed apply =
    \<lparr>pl_workspace_id = w, pl_remote_head_revision = revision, pl_manifest_id = manifest_id,
     pl_downloaded_blobs = downloaded, pl_changed_files = changed, pl_removed_paths = ar_removed_paths apply,
     pl_prepared_directories = ar_prepared_directories apply, pl_written_files = ar_written_files apply,
     pl_cached_blobs = ar_cached_blobs apply\<rparr>"


section \<open>Small steps\<close>

definition local_op :: "('st, 'a) engine_op \<Rightarrow> ('st, 'a) sync" where "local_op m = map_error m SyLocal"
definition remote_op :: "('st, 'a) client_call \<Rightarrow> ('st, 'a) sync" where "remote_op m = map_error m SyRemote"

definition io_other :: "string \<Rightarrow> SyncError" where "io_other text = SyIo (IoError OtherKind text)"

fun count_upload_response :: "ObjectUploadStatus \<Rightarrow> nat \<times> nat \<Rightarrow> nat \<times> nat" where
  "count_upload_response UploadCreated (uploaded, reused) = (uploaded + 1, reused)"
| "count_upload_response UploadAlreadyExists (uploaded, reused) = (uploaded, reused + 1)"

definition ensure_unchanged :: "Manifest \<Rightarrow> Manifest \<Rightarrow> unit sync_result" where
  "ensure_unchanged expected current =
    (if diff_manifests expected current \<noteq> []
     then Err (io_other ''workspace changed during synchronization; local edits were preserved, rerun `rustsync sync`'')
     else Ok ())"

definition changed_files :: "Manifest \<Rightarrow> string list" where
  "changed_files m = List.map_filter (\<lambda>(path, entry). case entry of File _ \<Rightarrow> Some path | Directory \<Rightarrow> None) (mf_entries m)"

definition verify_manifest_id :: "sync_env \<Rightarrow> bytes \<Rightarrow> ManifestId \<Rightarrow> unit sync_result" where
  "verify_manifest_id env bs manifest_id =
    (let actual = manifest_id_from_content (sy_sha256 env) bs in
     if actual = manifest_id then Ok ()
     else Err (SyIo (IoError InvalidData (''downloaded manifest content id mismatch: expected ''
            @ manifest_id_str manifest_id @ '', got '' @ manifest_id_str actual))))"

definition verify_blob_id :: "sync_env \<Rightarrow> bytes \<Rightarrow> BlobId \<Rightarrow> unit sync_result" where
  "verify_blob_id env bs blob_id =
    (let actual = blob_id_from_content (sy_sha256 env) bs in
     if actual = blob_id then Ok ()
     else Err (SyIo (IoError InvalidData (''downloaded blob content id mismatch: expected ''
            @ blob_id_str blob_id @ '', got '' @ blob_id_str actual))))"

fun text_contains :: "string \<Rightarrow> string \<Rightarrow> bool" where
  "text_contains [] p = (p = [])"
| "text_contains (c # s) p = (starts_with (c # s) p \<or> text_contains s p)"

definition is_head_revision_conflict :: "sync_env \<Rightarrow> SyncError \<Rightarrow> bool" where
  "is_head_revision_conflict env error =
    ((case error of SyRemote (ClServer response) \<Rightarrow> er_error response = ApiHeadRevisionConflict | _ \<Rightarrow> False)
     \<or> text_contains (sy_display env error) ''head revision conflict'')"

definition decrypt_remote_object_bytes :: "'st Engine \<Rightarrow> bytes \<Rightarrow> ('st, bytes) sync" where
  "decrypt_remote_object_bytes eg bs =
    then_do (lift_result (map_err (from_remote_bytes bs) SyProtocol)) (\<lambda>encrypted.
      map_error (eg_decrypt_file eg encrypted) SyWorkspace)"

definition encrypt_to_binary :: "'st Engine \<Rightarrow> bytes \<Rightarrow> ('st, bytes) sync" where
  "encrypt_to_binary eg bs =
    then_do (map_error (eg_encrypt_bytes eg bs) SyWorkspace) (\<lambda>encrypted.
      lift_result (map_err (encode encrypted) SyProtocol))"

definition ensure_working_tree_clean :: "'st Engine \<Rightarrow> ('st, unit) sync" where
  "ensure_working_tree_clean eg =
    then_do (local_op (eg_working_tree_status eg)) (\<lambda>(_, diff).
      if diff = [] then done_with () else fail_with UnstagedChangesError)"

definition local_blob_bytes :: "'st Engine \<Rightarrow> Manifest \<Rightarrow> ('st, (string \<times> bytes) list) sync" where
  "local_blob_bytes eg m = then_do (local_op (eg_staged_blobs_for_manifest eg m)) (\<lambda>blobs.
     done_with (fold (\<lambda>(hash, bs). bt_insert hash bs) blobs []))"

definition remote_status :: "'st Engine \<Rightarrow> 'st Remote \<Rightarrow> ('st, WorkspaceHead) sync" where
  "remote_status eg rm = remote_op (rm_fetch_workspace_head rm (eg_workspace_id eg))"


section \<open>Downloading\<close>

record RemoteFile =
  rf_content_hash :: string
  rf_size :: u64
  rf_blob_ids :: "BlobId list"

definition file_blob_ids :: "FileEntry \<Rightarrow> BlobId list sync_result" where
  "file_blob_ids f = (case (fe_remote_blob_id f, fe_remote_chunk_ids f) of
     (Some i, []) \<Rightarrow> Ok [i]
   | (None, c # cs) \<Rightarrow> Ok (c # cs)
   | _ \<Rightarrow> Err (io_other (''remote manifest file entry for content hash '' @ fe_content_hash f
       @ '' has missing remote_blob_id or conflicting chunk references'')))"

fun collect_remote_files :: "(string \<times> ManifestEntry) list \<Rightarrow> (string \<times> u64 \<times> BlobId list) list \<Rightarrow>
    (string \<times> u64 \<times> BlobId list) list sync_result" where
  "collect_remote_files [] blobs = Ok blobs"
| "collect_remote_files ((path, Directory) # entries) blobs = collect_remote_files entries blobs"
| "collect_remote_files ((path, File f) # entries) blobs =
    and_then (file_blob_ids f) (\<lambda>ids.
    let val = (fe_size f, ids) in
    (case map_of blobs (fe_content_hash f) of
       Some previous \<Rightarrow> (if previous \<noteq> val
         then Err (io_other ''inconsistent references for duplicate file content hash'')
         else collect_remote_files entries (bt_insert (fe_content_hash f) val blobs))
     | None \<Rightarrow> collect_remote_files entries (bt_insert (fe_content_hash f) val blobs)))"

definition unique_file_remote_blob_ids :: "Manifest \<Rightarrow> RemoteFile list sync_result" where
  "unique_file_remote_blob_ids m = and_then (collect_remote_files (mf_entries m) []) (\<lambda>blobs.
     Ok (map (\<lambda>(hash, size, ids). \<lparr>rf_content_hash = hash, rf_size = size, rf_blob_ids = ids\<rparr>) blobs))"

fun download_chunks :: "sync_env \<Rightarrow> 'st Engine \<Rightarrow> 'st Remote \<Rightarrow> WorkspaceId \<Rightarrow> u64 \<Rightarrow> BlobId list \<Rightarrow>
    bytes \<times> nat \<Rightarrow> ('st, bytes \<times> nat) sync" where
  "download_chunks env eg rm w expected_size [] (contents, blob_count) = done_with (contents, blob_count)"
| "download_chunks env eg rm w expected_size (blob_id # ids) (contents, blob_count) =
    then_do (remote_op (rm_download_blob rm w blob_id)) (\<lambda>bs.
    then_do (lift_result (verify_blob_id env bs blob_id)) (\<lambda>_.
    then_do (decrypt_remote_object_bytes eg bs) (\<lambda>chunk.
    if of_nat (length chunk) > saturating_sub64 expected_size (of_nat (length contents))
    then fail_with (io_other ''downloaded chunks exceed manifest file size'')
    else download_chunks env eg rm w expected_size ids (contents @ chunk, blob_count + 1))))"

fun download_files :: "sync_env \<Rightarrow> 'st Engine \<Rightarrow> 'st Remote \<Rightarrow> WorkspaceId \<Rightarrow> string list \<Rightarrow> RemoteFile list \<Rightarrow>
    (string \<times> bytes) list \<times> nat \<Rightarrow> ('st, (string \<times> bytes) list \<times> nat) sync" where
  "download_files env eg rm w available_hashes [] (blobs, blob_count) = done_with (blobs, blob_count)"
| "download_files env eg rm w available_hashes (f # fs) (blobs, blob_count) =
    (if rf_content_hash f \<in> set available_hashes
     then download_files env eg rm w available_hashes fs (blobs, blob_count)
     else then_do (download_chunks env eg rm w (rf_size f) (rf_blob_ids f) ([], blob_count)) (\<lambda>(contents, blob_count).
       if of_nat (length contents) \<noteq> rf_size f \<or> hex_encode (sy_sha256 env contents) \<noteq> rf_content_hash f
       then fail_with (io_other ''downloaded file size or content hash mismatch'')
       else download_files env eg rm w available_hashes fs
              (bt_insert (rf_content_hash f) contents blobs, blob_count)))"

definition download_manifest_blobs :: "sync_env \<Rightarrow> 'st Engine \<Rightarrow> 'st Remote \<Rightarrow> WorkspaceId \<Rightarrow> Manifest \<Rightarrow>
    string list \<Rightarrow> ('st, (string \<times> bytes) list \<times> nat) sync" where
  "download_manifest_blobs env eg rm w m available_hashes =
    then_do (lift_result (unique_file_remote_blob_ids m)) (\<lambda>files.
      download_files env eg rm w available_hashes files ([], 0))"

definition load_remote_manifest :: "sync_env \<Rightarrow> 'st Engine \<Rightarrow> 'st Remote \<Rightarrow> WorkspaceId \<Rightarrow> WorkspaceHead \<Rightarrow>
    ('st, Manifest) sync" where
  "load_remote_manifest env eg rm w head = (case wh_manifest_id head of
     None \<Rightarrow> done_with (manifest_new w)
   | Some manifest_id \<Rightarrow>
       then_do (remote_op (rm_download_manifest rm w manifest_id)) (\<lambda>bs.
       then_do (lift_result (verify_manifest_id env bs manifest_id)) (\<lambda>_.
       then_do (decrypt_remote_object_bytes eg bs) (\<lambda>plaintext.
       then_do (lift_result (map_err (sy_from_json env plaintext) SyManifest)) (\<lambda>m.
       then_do (lift_result (map_err (eg_validate_pulled_manifest eg m) SyLocal)) (\<lambda>_.
         done_with m))))))"


section \<open>Pulling\<close>

definition missing_blob :: "string \<Rightarrow> string \<Rightarrow> (bytes, IoError) result" where
  "missing_blob what hash = Err (IoError NotFound (what @ hash))"

text \<open>The contents that a file of the working tree already holds under the same path.\<close>

definition pull_available_hashes :: "Manifest \<Rightarrow> Manifest \<Rightarrow> string list" where
  "pull_available_hashes m loc = List.map_filter (\<lambda>(path, entry). case (entry, manifest_get loc path) of
       (File rem, Some (File l)) \<Rightarrow> (if fe_content_hash rem = fe_content_hash l \<and> fe_size rem = fe_size l
          then Some (fe_content_hash rem) else None)
     | _ \<Rightarrow> None) (mf_entries m)"

definition pull_with_mode :: "sync_env \<Rightarrow> 'st Engine \<Rightarrow> 'st Remote \<Rightarrow> PullMode \<Rightarrow> ('st, PullReport) sync" where
  "pull_with_mode env eg rm mode =
    then_do (if mode = Safe then ensure_working_tree_clean eg else done_with ()) (\<lambda>_.
    then_do (local_op (eg_working_tree_status eg)) (\<lambda>(loc, _).
    let w = eg_workspace_id eg in
    then_do (remote_op (rm_fetch_workspace_head rm w)) (\<lambda>head.
    case wh_manifest_id head of
      None \<Rightarrow>
        then_do (local_op (eg_apply_pulled_manifest eg (manifest_new w)
            (\<lambda>_. Err (IoError NotFound ''empty manifest has no blobs'')))) (\<lambda>apply.
          done_with (pull_report_from_apply w (wh_revision head) None 0 [] apply))
    | Some manifest_id \<Rightarrow>
        then_do (load_remote_manifest env eg rm w head) (\<lambda>m.
        then_do (download_manifest_blobs env eg rm w m (pull_available_hashes m loc)) (\<lambda>(blobs, downloaded_blobs).
        then_do (local_op (eg_working_tree_status eg)) (\<lambda>(current, _).
        then_do (lift_result (ensure_unchanged loc current)) (\<lambda>_.
        then_do (local_op (eg_apply_pulled_manifest eg m (\<lambda>hash. case map_of blobs hash of
            Some b \<Rightarrow> Ok b | None \<Rightarrow> missing_blob ''missing downloaded blob '' hash))) (\<lambda>apply.
          done_with (pull_report_from_apply w (wh_revision head) (Some manifest_id) downloaded_blobs
            (changed_files m) apply))))))))) "

definition pull :: "sync_env \<Rightarrow> 'st Engine \<Rightarrow> 'st Remote \<Rightarrow> ('st, PullReport) sync" where
  "pull env eg rm = pull_with_mode env eg rm Safe"


section \<open>Pushing\<close>

fun upload_chunks :: "sync_env \<Rightarrow> 'st Engine \<Rightarrow> 'st Remote \<Rightarrow> WorkspaceId \<Rightarrow> bytes list \<Rightarrow> nat \<times> nat \<Rightarrow> BlobId list \<Rightarrow>
    ('st, BlobId list \<times> nat \<times> nat) sync" where
  "upload_chunks env eg rm w [] counts ids = done_with (ids, counts)"
| "upload_chunks env eg rm w (chunk # rest) counts ids =
    then_do (encrypt_to_binary eg chunk) (\<lambda>encrypted_blob_bytes.
    let blob_id = blob_id_from_content (sy_sha256 env) encrypted_blob_bytes in
    then_do (remote_op (rm_upload_blob rm w blob_id encrypted_blob_bytes)) (\<lambda>response.
      upload_chunks env eg rm w rest (count_upload_response response counts) (ids @ [blob_id])))"

fun upload_blobs :: "sync_env \<Rightarrow> 'st Engine \<Rightarrow> 'st Remote \<Rightarrow> WorkspaceId \<Rightarrow> nat \<Rightarrow> (string \<times> bytes) list \<Rightarrow> string list \<Rightarrow>
    (string \<times> BlobId list) list \<Rightarrow> nat \<times> nat \<Rightarrow> ('st, (string \<times> BlobId list) list \<times> nat \<times> nat) sync" where
  "upload_blobs env eg rm w chunk_size [] known remote_blob_ids counts = done_with (remote_blob_ids, counts)"
| "upload_blobs env eg rm w chunk_size ((hash, bs) # blobs) known remote_blob_ids counts =
    (if hash \<in> set known then upload_blobs env eg rm w chunk_size blobs known remote_blob_ids counts
     else case map_of remote_blob_ids hash of
       Some ids \<Rightarrow> upload_blobs env eg rm w chunk_size blobs (hash # known) remote_blob_ids
          (fst counts, snd counts + length ids)
     | None \<Rightarrow>
         then_do (upload_chunks env eg rm w (if bs = [] then [[]] else chunks chunk_size bs) counts []) (\<lambda>(ids, counts).
           upload_blobs env eg rm w chunk_size blobs (hash # known) (bt_insert hash ids remote_blob_ids) counts))"

definition set_remote_ids :: "BlobId list \<Rightarrow> FileEntry \<Rightarrow> FileEntry" where
  "set_remote_ids ids f = (case ids of
     [i] \<Rightarrow> f\<lparr>fe_remote_blob_id := Some i, fe_remote_chunk_ids := []\<rparr>
   | _ \<Rightarrow> f\<lparr>fe_remote_blob_id := None, fe_remote_chunk_ids := ids\<rparr>)"

fun link_entries :: "(string \<times> BlobId list) list \<Rightarrow> (string \<times> ManifestEntry) list \<Rightarrow>
    (string \<times> ManifestEntry) list sync_result" where
  "link_entries remote_blob_ids [] = Ok []"
| "link_entries remote_blob_ids ((path, Directory) # entries) =
    and_then (link_entries remote_blob_ids entries) (\<lambda>es. Ok ((path, Directory) # es))"
| "link_entries remote_blob_ids ((path, File f) # entries) =
    and_then (ok_or (map_of remote_blob_ids (fe_content_hash f)) (SyPanic ''no entry found for key'')) (\<lambda>ids.
    and_then (link_entries remote_blob_ids entries) (\<lambda>es. Ok ((path, File (set_remote_ids ids f)) # es)))"

definition push_with_expected_head :: "sync_env \<Rightarrow> 'st Engine \<Rightarrow> 'st Remote \<Rightarrow> WorkspaceHead \<Rightarrow> Manifest \<Rightarrow>
    ('st, PushReport) sync" where
  "push_with_expected_head env eg rm previous_head previous_manifest =
    (let w = eg_workspace_id eg in
    then_do (local_op (eg_load_staged_manifest eg)) (\<lambda>m.
    then_do (lift_result (unique_file_remote_blob_ids previous_manifest)) (\<lambda>files.
    let remote_blob_ids = fold (\<lambda>f. bt_insert (rf_content_hash f) (rf_blob_ids f)) files [] in
    then_do (encrypt_to_binary eg []) (\<lambda>empty_object.
    let overhead = length empty_object in
    if MAX_ENCRYPTED_OBJECT_BYTES \<le> overhead
    then fail_with (io_other ''encryption framing leaves no room for file content'')
    else
    then_do (local_op (eg_staged_blobs_for_manifest eg m)) (\<lambda>blobs.
    then_do (upload_blobs env eg rm w (MAX_ENCRYPTED_OBJECT_BYTES - overhead) blobs [] remote_blob_ids (0, 0))
      (\<lambda>(remote_blob_ids, uploaded_blobs, reused_blobs).
    then_do (lift_result (link_entries remote_blob_ids (mf_entries m))) (\<lambda>entries.
    then_do (lift_result (map_err (sy_to_json env (m\<lparr>mf_entries := entries\<rparr>)) SyManifest)) (\<lambda>manifest_bytes.
    then_do (encrypt_to_binary eg manifest_bytes) (\<lambda>encrypted_manifest_bytes.
    let manifest_id = manifest_id_from_content (sy_sha256 env) encrypted_manifest_bytes in
    then_do (remote_op (rm_upload_manifest rm w manifest_id encrypted_manifest_bytes)) (\<lambda>manifest_response.
    let (uploaded_manifests, reused_manifests) = count_upload_response manifest_response (0, 0) in
    then_do (remote_op (rm_update_workspace_head rm w (wh_revision previous_head) manifest_id)) (\<lambda>updated_head.
      done_with \<lparr>pu_workspace_id = w, pu_manifest_id = manifest_id, pu_uploaded_blobs = uploaded_blobs,
        pu_reused_blobs = reused_blobs, pu_uploaded_manifests = uploaded_manifests,
        pu_reused_manifests = reused_manifests, pu_changed_files = changed_files m,
        pu_previous_head_revision = wh_revision previous_head,
        pu_updated_head_revision = wh_revision updated_head\<rparr>)))))))))))"

definition push :: "sync_env \<Rightarrow> 'st Engine \<Rightarrow> 'st Remote \<Rightarrow> ('st, PushReport) sync" where
  "push env eg rm =
    then_do (remote_status eg rm) (\<lambda>previous_head.
    then_do (load_remote_manifest env eg rm (eg_workspace_id eg) previous_head) (\<lambda>rem.
      push_with_expected_head env eg rm previous_head rem))"


section \<open>Synchronising\<close>

definition planned_blob :: "(string \<times> bytes) list \<Rightarrow> Blobs \<Rightarrow> string \<Rightarrow> (bytes, IoError) result" where
  "planned_blob merged blobs hash =
    (case map_of merged hash of Some b \<Rightarrow> Ok b
     | None \<Rightarrow> (case map_of (bl_local blobs) hash of Some b \<Rightarrow> Ok b
     | None \<Rightarrow> (case map_of (bl_remote blobs) hash of Some b \<Rightarrow> Ok b
     | None \<Rightarrow> (case map_of (bl_base blobs) hash of Some b \<Rightarrow> Ok b
     | None \<Rightarrow> missing_blob ''missing planned blob '' hash))))"

definition requires_publication :: "ReconciliationPlan \<Rightarrow> bool" where
  "requires_publication plan =
     list_ex (\<lambda>p. rp_action p = Upload \<or> rp_action p = Merge \<or> rp_action p = Conflict) (rn_paths plan)"

definition discard_local :: "sync_env \<Rightarrow> 'st Engine \<Rightarrow> 'st Remote \<Rightarrow> ('st, SyncReport) sync" where
  "discard_local env eg rm = (let w = eg_workspace_id eg in
    then_do (pull_with_mode env eg rm Force) (\<lambda>pull_report.
    then_do (local_op (eg_load_sync_state eg)) (\<lambda>state.
    let revision = pl_remote_head_revision pull_report;
        state = state\<lparr>ss_last_observed_remote := Some \<lparr>rs_head = \<lparr>wh_workspace_id = w,
          wh_manifest_id = pl_manifest_id pull_report, wh_revision = revision, wh_updated_by = None,
          wh_updated_at = None\<rparr>\<rparr>\<rparr>
    in then_do (local_op (eg_load_staged_manifest eg)) (\<lambda>staged.
    let state = complete_pending (state\<lparr>ss_last_synced_manifest := Some staged,
          ss_last_synced_revision := Some revision, ss_conflicts := []\<rparr>)
    in then_do (local_op (eg_save_sync_state eg state)) (\<lambda>_.
      done_with \<lparr>sp_workspace_id = w, sp_observed_remote_revision = revision, sp_synced_revision = revision,
        sp_plan = \<lparr>rn_paths = []\<rparr>, sp_mode = DiscardLocal, sp_local_content_changed = True,
        sp_published = False, sp_retry_count = 0, sp_conflicts = []\<rparr>)))))"

text \<open>Combining the two sides and applying the combination to the working tree: the new state, the
  conflicts to report.\<close>

definition apply_combination :: "sync_env \<Rightarrow> 'st Engine \<Rightarrow> 'st Remote \<Rightarrow> Manifest \<Rightarrow> Manifest \<Rightarrow> Manifest \<Rightarrow> WorkspaceHead \<Rightarrow>
    ReconciliationPlan \<Rightarrow> SyncState \<Rightarrow> string list \<Rightarrow> ('st, SyncState \<times> string list) sync" where
  "apply_combination env eg rm base loc rem remote_head plan state conflicts =
    (let w = eg_workspace_id eg in
    then_do (local_op (eg_stage_all eg)) (\<lambda>staged.
    then_do (lift_result (ensure_unchanged loc staged)) (\<lambda>_.
    then_do (local_blob_bytes eg staged) (\<lambda>local_blobs.
    then_do (local_blob_bytes eg base) (\<lambda>base_blobs.
    then_do (download_manifest_blobs env eg rm w rem (map fst local_blobs @ map fst base_blobs)) (\<lambda>(remote_blobs, _).
    let blobs = \<lparr>bl_base = base_blobs, bl_local = local_blobs, bl_remote = remote_blobs\<rparr> in
    then_do (lift_result (map_err (combine (sy_sha256 env) blobs base staged rem (wh_revision remote_head) (rn_paths plan)
        (combine_start w state conflicts base loc rem)) SyProtocol)) (\<lambda>cb.
    then_do (local_op (eg_working_tree_status eg)) (\<lambda>(current, _).
    then_do (lift_result (ensure_unchanged staged current)) (\<lambda>_.
    let state = begin_pending (cb_state cb) DownloadPhase (wh_revision remote_head) in
    then_do (local_op (eg_save_sync_state eg state)) (\<lambda>_.
    then_do (local_op (eg_apply_pulled_manifest eg (cb_manifest cb) (planned_blob (cb_merged_bytes cb) blobs))) (\<lambda>_.
      done_with (state, cb_report_conflicts cb))))))))))))"

text \<open>\<^verbatim>\<open>sync_attempt\<close>: a publication that loses the race for the head is retried once.\<close>

function (domintros) sync_attempt :: "sync_env \<Rightarrow> 'st Engine \<Rightarrow> 'st Remote \<Rightarrow> SyncMode \<Rightarrow> u64 option \<Rightarrow> nat \<Rightarrow>
    ('st, SyncReport) sync" where
  "sync_attempt env eg rm mode initial_revision retry_count =
    (if mode = DiscardLocal then discard_local env eg rm
     else let w = eg_workspace_id eg in
    then_do (local_op (eg_working_tree_status eg)) (\<lambda>(loc, _).
    then_do (local_op (eg_load_sync_state eg)) (\<lambda>state.
    then_do (remote_status eg rm) (\<lambda>remote_head.
    then_do (load_remote_manifest env eg rm w remote_head) (\<lambda>rem.
    let base = (case ss_last_synced_manifest state of Some b \<Rightarrow> b | None \<Rightarrow> manifest_new w) in
    then_do (lift_result (map_err (plan_reconciliation base loc rem) SyManifest)) (\<lambda>plan.
    let revision = wh_revision remote_head;
        report = \<lparr>sp_workspace_id = w, sp_observed_remote_revision = revision, sp_synced_revision = revision,
          sp_plan = plan, sp_mode = mode, sp_local_content_changed = False, sp_published = False,
          sp_retry_count = retry_count, sp_conflicts = map fst (ss_conflicts state)\<rparr>
    in if mode = DryRun then done_with report
    else let state = state\<lparr>ss_last_observed_remote := Some \<lparr>rs_head = remote_head\<rparr>\<rparr> in
    if \<not> has_changes plan then
      then_do (local_op (eg_stage_all eg)) (\<lambda>staged.
      then_do (lift_result (ensure_unchanged loc staged)) (\<lambda>_.
      then_do (local_op (eg_save_sync_state eg (complete_pending (state\<lparr>ss_last_synced_manifest := Some staged,
          ss_last_synced_revision := Some revision\<rparr>)))) (\<lambda>_. done_with report)))
    else
    let state = begin_pending state Planning revision in
    then_do (local_op (eg_save_sync_state eg state)) (\<lambda>_.
    then_do (apply_combination env eg rm base loc rem remote_head plan state (sp_conflicts report)) (\<lambda>(state, conflicts).
    then_do (local_op (eg_stage_all eg)) (\<lambda>published_manifest.
    let state = state\<lparr>ss_last_synced_manifest := Some rem, ss_last_synced_revision := Some revision\<rparr> in
    then_do (local_op (eg_save_sync_state eg state)) (\<lambda>_.
    let finish = (\<lambda>state report.
          let state = complete_pending (state\<lparr>ss_last_synced_manifest := Some published_manifest,
                ss_last_synced_revision := Some (sp_synced_revision report)\<rparr>)
          in then_do (local_op (eg_save_sync_state eg state)) (\<lambda>_.
               done_with (report\<lparr>sp_local_content_changed := True, sp_conflicts := map fst (ss_conflicts state)\<rparr>))) in
    if \<not> requires_publication plan then finish state report
    else
    let state = begin_pending state UploadPhase revision in
    then_do (local_op (eg_save_sync_state eg state)) (\<lambda>_.
    let state = begin_pending state Publication revision in
    then_do (local_op (eg_save_sync_state eg state)) (\<lambda>_.
    match_do (push_with_expected_head env eg rm remote_head rem) (\<lambda>pushed. case pushed of
      Ok published \<Rightarrow>
        finish (state\<lparr>ss_last_published_local := Some \<lparr>ps_manifest_id = pu_manifest_id published,
            ps_head_revision = pu_updated_head_revision published\<rparr>\<rparr>)
          (report\<lparr>sp_published := True, sp_synced_revision := pu_updated_head_revision published\<rparr>)
    | Err error \<Rightarrow>
        if is_head_revision_conflict env error
        then if retry_count = 0
          then sync_attempt env eg rm ReconcileMode (Some revision) (retry_count + 1)
          else then_do (remote_status eg rm) (\<lambda>head.
            fail_with (SyncPublicationRace (case initial_revision of Some r \<Rightarrow> r | None \<Rightarrow> revision) (wh_revision head)))
        else fail_with error)))))))))))))"
  by auto
termination by (relation "measure (\<lambda>(env, eg, rm, mode, initial, retry_count). 1 - retry_count)") auto

declare sync_attempt.simps [simp del]

definition sync :: "sync_env \<Rightarrow> 'st Engine \<Rightarrow> 'st Remote \<Rightarrow> SyncMode \<Rightarrow> ('st, SyncReport) sync" where
  "sync env eg rm mode = sync_attempt env eg rm mode None 0"

end
