(* ===== verification/Sync_Props.thy ===== *)
theory Sync_Props
  imports Sync_Workflow
begin

text \<open>
  What the synchronisation of \<^verbatim>\<open>Sync_Workflow\<close> lets reach the working tree, whatever the
  server answers: an operation \<^verbatim>\<open>moves\<close> a view of the state by a number of steps of a relation,
  and the only steps are applications of manifests and contents whose bytes were named by their hash
  and opened with the workspace key.  Then: a pull of the head that a push published applies exactly
  what was pushed.
\<close>

section \<open>Answers and moves\<close>

text \<open>An operation can return a value when the view of the state is \<^verbatim>\<open>x\<close>.\<close>

definition answers :: "('st \<Rightarrow> 'v) \<Rightarrow> 'v \<Rightarrow> ('st, 'a, 'e) action \<Rightarrow> 'a \<Rightarrow> bool" where
  "answers v x m a \<longleftrightarrow> (\<exists>s s'. v s = x \<and> m s = (s', Ok a))"

definition moves :: "('st \<Rightarrow> 'v) \<Rightarrow> ('v \<times> 'v) set \<Rightarrow> nat \<Rightarrow> 'v \<Rightarrow> ('st, 'a, 'e) action \<Rightarrow> bool" where
  "moves v R n x m \<longleftrightarrow> (\<forall>s. v s = x \<longrightarrow> (\<exists>k \<le> n. (x, v (fst (m s))) \<in> R ^^ k))"

lemma then_do_Ok_iff: "then_do m k s = (s', Ok b) \<longleftrightarrow> (\<exists>a t. m s = (t, Ok a) \<and> k a t = (s', Ok b))"
  by (auto simp: then_do_def split: prod.splits result.splits)

lemma map_error_Ok_iff [simp]: "map_error m f s = (s', Ok b) \<longleftrightarrow> m s = (s', Ok b)"
  by (auto simp: map_error_def split: prod.splits)

lemma action_Ok_simps [simp]:
  "lift_result r s = (s', Ok b) \<longleftrightarrow> s' = s \<and> r = Ok b" "done_with a s = (s', Ok b) \<longleftrightarrow> s' = s \<and> b = a"
  "\<not> fail_with e s = (s', Ok b)"
  by (auto simp: lift_result_def done_with_def fail_with_def)

lemma answers_simps [simp]:
  "answers v x (map_error m f) a \<longleftrightarrow> answers v x m a"
  "answers v x (local_op m') a \<longleftrightarrow> answers v x m' a" "answers v x (remote_op m'') a \<longleftrightarrow> answers v x m'' a"
  by (auto simp: answers_def local_op_def remote_op_def)

lemma answers_lift: "answers v x (lift_result r) a \<Longrightarrow> r = Ok a"
  by (auto simp: answers_def)

lemma moves_quiet: "keeps v m \<Longrightarrow> moves v R n x m"
  by (auto simp: moves_def keeps_def post_def intro!: exI[of _ 0])

lemma moves_basic [simp]:
  "moves v R n x (done_with a)" "moves v R n x (fail_with e)" "moves v R n x (lift_result r)"
  by (simp_all add: moves_quiet)

lemma moves_then:
  assumes quiet: "keeps v m" and "\<And>a. answers v x m a \<Longrightarrow> moves v R n x (k a)"
  shows "moves v R n x (then_do m k)"
  unfolding moves_def
proof (intro allI impI)
  fix s assume x: "v s = x"
  obtain t r where t: "m s = (t, r)" by (cases "m s")
  then have v: "v t = x" using keepsD[OF quiet] x by metis
  show "\<exists>j \<le> n. (x, v (fst (then_do m k s))) \<in> R ^^ j"
  proof (cases r)
    case (Ok a)
    then have "moves v R n x (k a)" using assms(2) t x unfolding answers_def by blast
    then show ?thesis using v t Ok by (auto simp: moves_def then_do_def)
  next
    case (Err e)
    then show ?thesis using v t by (auto simp: then_do_def intro!: exI[of _ 0])
  qed
qed

lemma moves_match:
  assumes quiet: "keeps v m" and "\<And>r. moves v R n x (k r)"
  shows "moves v R n x (match_do m k)"
  unfolding moves_def
proof (intro allI impI)
  fix s assume x: "v s = x"
  obtain t r where t: "m s = (t, r)" by (cases "m s")
  then have "v t = x" using keepsD[OF quiet] x by metis
  then show "\<exists>j \<le> n. (x, v (fst (match_do m k s))) \<in> R ^^ j"
    using assms(2)[of r] t by (auto simp: moves_def match_do_def)
qed

lemma moves_step:
  assumes first: "moves v R m x f" and rest: "\<And>a y. moves v R n y (k a)"
  shows "moves v R (m + n) x (then_do f k)"
  unfolding moves_def
proof (intro allI impI)
  fix s assume x: "v s = x"
  obtain t r where t: "f s = (t, r)" by (cases "f s")
  then obtain j where j: "j \<le> m" "(x, v t) \<in> R ^^ j" using first x by (force simp: moves_def)
  show "\<exists>i \<le> m + n. (x, v (fst (then_do f k s))) \<in> R ^^ i"
  proof (cases r)
    case (Ok a)
    obtain i where "i \<le> n" "(v t, v (fst (k a t))) \<in> R ^^ i" using rest[of "v t" a] by (auto simp: moves_def)
    then show ?thesis using j t Ok relpow_trans[of x "v t" j R _ i]
      by (intro exI[of _ "j + i"]) (simp add: then_do_def)
  next
    case (Err e)
    then show ?thesis using j t by (intro exI[of _ j]) (simp add: then_do_def)
  qed
qed

lemma moves_one: "(\<And>s. v s = x \<Longrightarrow> (x, v (fst (m s))) \<in> R) \<Longrightarrow> moves v R 1 x m"
  unfolding moves_def by (intro allI impI exI[of _ 1]) auto

lemma moves_mono: "moves v R m x f \<Longrightarrow> m \<le> n \<Longrightarrow> moves v R n x f"
  unfolding moves_def by (blast intro: order_trans)

lemma fst_map_error [simp]: "fst (map_error m f s) = fst (m s)"
  by (simp add: map_error_def split: prod.split)

lemma moves_map_error: "moves v R n x m \<Longrightarrow> moves v R n x (map_error m f)"
  by (simp add: moves_def)

lemma moves_if: "(b \<Longrightarrow> moves v R n x f) \<Longrightarrow> (\<not> b \<Longrightarrow> moves v R n x g) \<Longrightarrow> moves v R n x (if b then f else g)"
  by simp


section \<open>What a server cannot forge\<close>

definition opens :: "'st Engine \<Rightarrow> bytes \<Rightarrow> bytes \<Rightarrow> bool" where
  "opens eg bs plain \<longleftrightarrow> (\<exists>enc s s'. from_remote_bytes bs = Ok enc \<and> eg_decrypt_file eg enc s = (s', Ok plain))"

text \<open>A manifest for a head: the empty one, or what bytes with the head's identifier open to.\<close>

definition trusted_manifest :: "sync_env \<Rightarrow> 'st Engine \<Rightarrow> WorkspaceHead \<Rightarrow> Manifest \<Rightarrow> bool" where
  "trusted_manifest env eg head m \<longleftrightarrow> (case wh_manifest_id head of
     None \<Rightarrow> m = manifest_new (eg_workspace_id eg)
   | Some i \<Rightarrow> \<exists>bs plain. manifest_id_from_content (sy_sha256 env) bs = i \<and> opens eg bs plain
       \<and> sy_from_json env plain = Ok m \<and> eg_validate_pulled_manifest eg m = Ok ())"

text \<open>The content of a file of a manifest: it has the recorded hash and size, and is what the
  blobs named by the manifest open to, in their order.\<close>

definition trusted_content :: "sync_env \<Rightarrow> 'st Engine \<Rightarrow> Manifest \<Rightarrow> string \<Rightarrow> bytes \<Rightarrow> bool" where
  "trusted_content env eg m hash bs \<longleftrightarrow> hex_encode (sy_sha256 env bs) = hash
     \<and> (\<exists>path f ids parts. (path, File f) \<in> set (mf_entries m) \<and> fe_content_hash f = hash
          \<and> fe_size f = of_nat (length bs) \<and> file_blob_ids f = Ok ids \<and> bs = concat parts
          \<and> list_all2 (\<lambda>i part. \<exists>cb. blob_id_from_content (sy_sha256 env) cb = i \<and> opens eg cb part) ids parts)"

lemma decrypt_remote_opens: "decrypt_remote_object_bytes eg bs s = (s', Ok plain) \<Longrightarrow> opens eg bs plain"
  by (auto simp: decrypt_remote_object_bytes_def then_do_Ok_iff opens_def)

lemma verify_blob_id_Ok [simp]: "verify_blob_id env bs i = Ok u \<longleftrightarrow> blob_id_from_content (sy_sha256 env) bs = i"
  by (auto simp: verify_blob_id_def Let_def)

lemma verify_manifest_id_Ok [simp]:
  "verify_manifest_id env bs i = Ok u \<longleftrightarrow> manifest_id_from_content (sy_sha256 env) bs = i"
  by (auto simp: verify_manifest_id_def Let_def)

lemma load_remote_manifest_trusted:
  "load_remote_manifest env eg rm w head s = (s', Ok m) \<Longrightarrow> w = eg_workspace_id eg \<Longrightarrow> trusted_manifest env eg head m"
  by (auto simp: load_remote_manifest_def trusted_manifest_def then_do_Ok_iff dest!: decrypt_remote_opens
      split: option.splits)

lemma download_chunks_trusted:
  "download_chunks env eg rm w n ids (c, k) s = (s', Ok (c', k')) \<Longrightarrow>
     \<exists>parts. c' = c @ concat parts
       \<and> list_all2 (\<lambda>i part. \<exists>cb. blob_id_from_content (sy_sha256 env) cb = i \<and> opens eg cb part) ids parts"
proof (induction ids arbitrary: c k s)
  case (Cons i ids)
  then obtain bs chunk t where one: "blob_id_from_content (sy_sha256 env) bs = i" "opens eg bs chunk"
    and rest: "download_chunks env eg rm w n ids (c @ chunk, k + 1) t = (s', Ok (c', k'))"
    by (auto simp: then_do_Ok_iff split: if_splits dest!: decrypt_remote_opens)
  from Cons.IH[OF rest] obtain parts where "c' = (c @ chunk) @ concat parts"
    "list_all2 (\<lambda>i part. \<exists>cb. blob_id_from_content (sy_sha256 env) cb = i \<and> opens eg cb part) ids parts" by blast
  then show ?case using one by (intro exI[of _ "chunk # parts"]) auto
qed auto

text \<open>The files a manifest names, by content hash.\<close>

lemma collect_remote_files_source:
  "collect_remote_files entries blobs = Ok blobs' \<Longrightarrow> (hash, n, ids) \<in> set blobs' \<Longrightarrow>
     (hash, n, ids) \<in> set blobs
     \<or> (\<exists>path f. (path, File f) \<in> set entries \<and> fe_content_hash f = hash \<and> fe_size f = n \<and> file_blob_ids f = Ok ids)"
proof (induction entries arbitrary: blobs)
  case (Cons e entries)
  obtain path entry where e: "e = (path, entry)" by (cases e)
  show ?case
  proof (cases entry)
    case (File f)
    with Cons.prems(1) e obtain ids' where ids': "file_blob_ids f = Ok ids'"
      and rest: "collect_remote_files entries (bt_insert (fe_content_hash f) (fe_size f, ids') blobs) = Ok blobs'"
      by (simp add: Let_def split: option.splits if_splits) blast+
    from Cons.IH[OF rest Cons.prems(2)] show ?thesis
      using ids' e File by (auto dest!: snd_set_bt_insert)
  next
    case Directory
    then show ?thesis using Cons.IH[of blobs] Cons.prems e by auto
  qed
qed auto

lemma remote_file_source:
  assumes "unique_file_remote_blob_ids m = Ok files" and "rf \<in> set files"
  shows "\<exists>path f. (path, File f) \<in> set (mf_entries m) \<and> fe_content_hash f = rf_content_hash rf
     \<and> fe_size f = rf_size rf \<and> file_blob_ids f = Ok (rf_blob_ids rf)"
  using assms by (auto simp: unique_file_remote_blob_ids_def dest!: collect_remote_files_source)

lemma download_files_trusted:
  "download_files env eg rm w avail fs (blobs, k) s = (s', Ok (blobs', k')) \<Longrightarrow>
     (\<And>rf. rf \<in> set fs \<Longrightarrow> \<exists>path f. (path, File f) \<in> set (mf_entries m) \<and> fe_content_hash f = rf_content_hash rf
        \<and> fe_size f = rf_size rf \<and> file_blob_ids f = Ok (rf_blob_ids rf)) \<Longrightarrow>
     (\<forall>(h, b) \<in> set blobs. trusted_content env eg m h b) \<Longrightarrow> (\<forall>(h, b) \<in> set blobs'. trusted_content env eg m h b)"
proof (induction fs arbitrary: blobs k s)
  case (Cons rf fs)
  show ?case
  proof (cases "rf_content_hash rf \<in> set avail")
    case True
    then show ?thesis using Cons.IH[OF _ Cons.prems(2,3)] Cons.prems(1) by simp
  next
    case False
    with Cons.prems(1) obtain contents k2 t2 t where
      got: "download_chunks env eg rm w (rf_size rf) (rf_blob_ids rf) ([], k) s = (t2, Ok (contents, k2))"
      and ok: "of_nat (length contents) = rf_size rf" "hex_encode (sy_sha256 env contents) = rf_content_hash rf"
      and rest: "download_files env eg rm w avail fs (bt_insert (rf_content_hash rf) contents blobs, k2) t = (s', Ok (blobs', k'))"
      by (auto simp: then_do_Ok_iff split: if_splits prod.splits)
    have "trusted_content env eg m (rf_content_hash rf) contents"
      using download_chunks_trusted[OF got] Cons.prems(2)[of rf] ok unfolding trusted_content_def by fastforce
    then have "\<forall>(h, b) \<in> set (bt_insert (rf_content_hash rf) contents blobs). trusted_content env eg m h b"
      using Cons.prems(3) by (auto dest!: snd_set_bt_insert)
    then show ?thesis using Cons.IH[OF rest] Cons.prems(2) by simp
  qed
qed auto

lemma download_manifest_blobs_trusted:
  assumes "download_manifest_blobs env eg rm w m avail s = (s', Ok (blobs, k))"
  shows "\<forall>(h, b) \<in> set blobs. trusted_content env eg m h b"
proof -
  obtain files where files: "unique_file_remote_blob_ids m = Ok files"
    and got: "download_files env eg rm w avail files ([], 0) s = (s', Ok (blobs, k))"
    using assms unfolding download_manifest_blobs_def by (auto simp: then_do_Ok_iff)
  show ?thesis using download_files_trusted[OF got remote_file_source[OF files]] by simp
qed


section \<open>Applications to the working tree\<close>

text \<open>The engine and the remote have the other operations leave the view alone.\<close>

definition quiet_sides :: "'st Engine \<Rightarrow> 'st Remote \<Rightarrow> ('st \<Rightarrow> 'v) \<Rightarrow> bool" where
  "quiet_sides eg rm tree \<longleftrightarrow>
     keeps tree (eg_working_tree_status eg) \<and> keeps tree (eg_stage_all eg) \<and> keeps tree (eg_load_staged_manifest eg)
     \<and> (\<forall>m. keeps tree (eg_staged_blobs_for_manifest eg m)) \<and> keeps tree (eg_load_sync_state eg)
     \<and> (\<forall>y. keeps tree (eg_save_sync_state eg y)) \<and> (\<forall>b. keeps tree (eg_encrypt_bytes eg b))
     \<and> (\<forall>e. keeps tree (eg_decrypt_file eg e)) \<and> (\<forall>w i b. keeps tree (rm_upload_blob rm w i b))
     \<and> (\<forall>w i b. keeps tree (rm_upload_manifest rm w i b)) \<and> (\<forall>w i. keeps tree (rm_download_blob rm w i))
     \<and> (\<forall>w i. keeps tree (rm_download_manifest rm w i)) \<and> (\<forall>w. keeps tree (rm_fetch_workspace_head rm w))
     \<and> (\<forall>w r i. keeps tree (rm_update_workspace_head rm w r i))"

text \<open>The bytes a combination may be given for a hash: merged text, content the engine staged for
  the local or the base manifest, or trusted content of the remote manifest.\<close>

inductive planned_content :: "sync_env \<Rightarrow> 'st Engine \<Rightarrow> Manifest \<Rightarrow> Manifest \<Rightarrow> Manifest \<Rightarrow> string \<Rightarrow> bytes \<Rightarrow> bool"
  for env :: sync_env and eg :: "'st Engine" and base :: Manifest and staged :: Manifest and rem :: Manifest where
  merged: "hex_encode (sy_sha256 env bs) = hash \<Longrightarrow> merge_text_three_way b l r = Some bs \<Longrightarrow>
     planned_content env eg base staged rem hash bs"
| staged: "eg_staged_blobs_for_manifest eg m s = (s', Ok blobs) \<Longrightarrow> (hash, bs) \<in> set blobs \<Longrightarrow> m \<in> {base, staged} \<Longrightarrow>
     planned_content env eg base staged rem hash bs"
| remote: "trusted_content env eg rem hash bs \<Longrightarrow> planned_content env eg base staged rem hash bs"

text \<open>Which manifest, with which contents, may be applied to the tree \<^verbatim>\<open>x\<close>.\<close>

inductive sound_apply :: "sync_env \<Rightarrow> 'st Engine \<Rightarrow> 'st Remote \<Rightarrow> ('st \<Rightarrow> 'v) \<Rightarrow> 'v \<Rightarrow> Manifest \<Rightarrow>
    (string \<Rightarrow> (bytes, IoError) result) \<Rightarrow> bool"
  for env :: sync_env and eg :: "'st Engine" and rm :: "'st Remote" and tree :: "'st \<Rightarrow> 'v" and x :: 'v where
  pulled: "\<lbrakk>answers tree x (rm_fetch_workspace_head rm (eg_workspace_id eg)) head; trusted_manifest env eg head m;
     \<And>h b. load h = Ok b \<Longrightarrow> trusted_content env eg m h b\<rbrakk> \<Longrightarrow> sound_apply env eg rm tree x m load"
| combined: "\<lbrakk>answers tree x (rm_fetch_workspace_head rm (eg_workspace_id eg)) head; trusted_manifest env eg head rem;
     answers tree x (eg_working_tree_status eg) (loc, changes); plan_reconciliation base loc rem = Ok plan;
     answers tree x (eg_stage_all eg) staged; diff_manifests loc staged = [];
     combine (sy_sha256 env) blobs base staged rem (wh_revision head) (rn_paths plan)
       (combine_start (eg_workspace_id eg) state conflicts base loc rem) = Ok cb;
     answers tree x (eg_working_tree_status eg) (current, changes'); diff_manifests staged current = [];
     \<And>h b. load h = Ok b \<Longrightarrow> planned_content env eg base staged rem h b\<rbrakk>
   \<Longrightarrow> sound_apply env eg rm tree x (cb_manifest cb) load"

definition sound_applications :: "sync_env \<Rightarrow> 'st Engine \<Rightarrow> 'st Remote \<Rightarrow> ('st \<Rightarrow> 'v) \<Rightarrow> ('v \<times> 'v) set" where
  "sound_applications env eg rm tree =
     {(tree s, tree s') | s s' m load r. sound_apply env eg rm tree (tree s) m load
        \<and> eg_apply_pulled_manifest eg m load s = (s', r)}"

lemma apply_moves:
  "sound_apply env eg rm tree x m load \<Longrightarrow>
     moves tree (sound_applications env eg rm tree) 1 x (local_op (eg_apply_pulled_manifest eg m load))"
  unfolding local_op_def sound_applications_def
  by (intro moves_map_error moves_one CollectI) (metis prod.collapse)


section \<open>The quiet steps\<close>

lemma quiet_steps:
  assumes "quiet_sides eg rm tree"
  shows "keeps tree (decrypt_remote_object_bytes eg bs)" "keeps tree (encrypt_to_binary eg bs)"
    "keeps tree (ensure_working_tree_clean eg)" "keeps tree (local_blob_bytes eg m)" "keeps tree (remote_status eg rm)"
  using assms unfolding decrypt_remote_object_bytes_def encrypt_to_binary_def ensure_working_tree_clean_def
    local_blob_bytes_def remote_status_def local_op_def remote_op_def quiet_sides_def
  by (auto intro!: keeps_intros split: prod.splits)

lemma quiet_ops:
  assumes "quiet_sides eg rm tree"
  shows "keeps tree (local_op (eg_working_tree_status eg))" "keeps tree (local_op (eg_stage_all eg))"
    "keeps tree (local_op (eg_load_staged_manifest eg))" "keeps tree (local_op (eg_staged_blobs_for_manifest eg m))"
    "keeps tree (local_op (eg_load_sync_state eg))" "keeps tree (local_op (eg_save_sync_state eg y))"
    "keeps tree (remote_op (rm_upload_blob rm w i b))" "keeps tree (remote_op (rm_upload_manifest rm w j b))"
    "keeps tree (remote_op (rm_download_blob rm w i))" "keeps tree (remote_op (rm_download_manifest rm w j))"
    "keeps tree (remote_op (rm_fetch_workspace_head rm w))" "keeps tree (remote_op (rm_update_workspace_head rm w r j))"
  using assms unfolding quiet_sides_def local_op_def remote_op_def by (auto intro!: keeps_map_error)

lemma quiet_load_manifest: "quiet_sides eg rm tree \<Longrightarrow> keeps tree (load_remote_manifest env eg rm w head)"
  unfolding load_remote_manifest_def
  by (cases "wh_manifest_id head") (auto intro!: keeps_then quiet_steps quiet_ops)

lemma quiet_chunks: "quiet_sides eg rm tree \<Longrightarrow> keeps tree (download_chunks env eg rm w n ids acc)"
  by (induction env eg rm w n ids acc rule: download_chunks.induct) (auto intro!: keeps_then quiet_steps quiet_ops)

lemma quiet_files: "quiet_sides eg rm tree \<Longrightarrow> keeps tree (download_files env eg rm w avail fs acc)"
  by (induction env eg rm w avail fs acc rule: download_files.induct)
     (auto intro!: keeps_then quiet_chunks split: prod.splits)

lemma quiet_download: "quiet_sides eg rm tree \<Longrightarrow> keeps tree (download_manifest_blobs env eg rm w m avail)"
  unfolding download_manifest_blobs_def by (auto intro!: keeps_then quiet_files)

lemma quiet_upload_chunks: "quiet_sides eg rm tree \<Longrightarrow> keeps tree (upload_chunks env eg rm w cs counts ids)"
  by (induction env eg rm w cs counts ids rule: upload_chunks.induct)
     (auto simp: Let_def intro!: keeps_then quiet_steps quiet_ops)

lemma quiet_upload: "quiet_sides eg rm tree \<Longrightarrow> keeps tree (upload_blobs env eg rm w n blobs known ids counts)"
  by (induction env eg rm w n blobs known ids counts rule: upload_blobs.induct)
     (auto simp del: upload_chunks.simps intro!: keeps_then quiet_upload_chunks split: option.splits prod.splits)

lemma quiet_push: "quiet_sides eg rm tree \<Longrightarrow> keeps tree (push_with_expected_head env eg rm head m)"
  unfolding push_with_expected_head_def Let_def
  by (auto intro!: keeps_then quiet_steps quiet_ops quiet_upload split: prod.splits)

lemmas quiet = quiet_steps quiet_ops quiet_load_manifest quiet_download quiet_push


section \<open>Every path of the workflow\<close>

lemma apply_then:
  assumes "sound_apply env eg rm tree x m load"
    and "\<And>a y. moves tree (sound_applications env eg rm tree) n y (k a)"
  shows "moves tree (sound_applications env eg rm tree) (Suc n) x
    (then_do (local_op (eg_apply_pulled_manifest eg m load)) k)"
  using moves_step[OF apply_moves[OF assms(1)] assms(2)] by simp

lemma answers_load: "answers tree x (load_remote_manifest env eg rm (eg_workspace_id eg) head) m \<Longrightarrow> trusted_manifest env eg head m"
  by (auto simp: answers_def intro: load_remote_manifest_trusted)

lemma answers_download: "answers tree x (download_manifest_blobs env eg rm w m avail) (blobs, k) \<Longrightarrow>
    map_of blobs h = Some b \<Longrightarrow> trusted_content env eg m h b"
  by (auto simp: answers_def dest!: download_manifest_blobs_trusted map_of_SomeD)

lemma pull_moves:
  assumes "quiet_sides eg rm tree"
  shows "moves tree (sound_applications env eg rm tree) 1 x (pull_with_mode env eg rm mode)"
  unfolding pull_with_mode_def Let_def
proof (intro moves_then quiet[OF assms] keeps_basic, goal_cases)
  case 1
  then show ?case by (simp add: quiet[OF assms])
next
  case (2 u status)
  obtain loc d where status: "status = (loc, d)" by (cases status)
  show ?case unfolding status prod.case
  proof (rule moves_then[OF quiet_ops(11)[OF assms]], goal_cases)
    case (1 head)
    then have head: "answers tree x (rm_fetch_workspace_head rm (eg_workspace_id eg)) head" by simp
    show ?case
    proof (cases "wh_manifest_id head")
      case None
      have "sound_apply env eg rm tree x (manifest_new (eg_workspace_id eg))
          (\<lambda>_. Err (IoError NotFound ''empty manifest has no blobs''))"
        using None by (intro pulled[where head = head, OF head]) (simp_all add: trusted_manifest_def)
      then show ?thesis unfolding None option.case One_nat_def by (intro apply_then moves_basic)
    next
      case (Some i)
      show ?thesis unfolding Some option.case
      proof (intro moves_then quiet[OF assms] keeps_basic, goal_cases)
        case (1 m r)
        obtain blobs k where r: "r = (blobs, k)" by (cases r)
        have sound: "sound_apply env eg rm tree x m (\<lambda>hash. case map_of blobs hash of
            Some b \<Rightarrow> Ok b | None \<Rightarrow> missing_blob ''missing downloaded blob '' hash)"
          using 1 r by (intro pulled[where head = head, OF head])
            (auto simp: missing_blob_def dest: answers_load answers_download split: option.splits)
        show ?case unfolding r prod.case One_nat_def
          by (intro moves_then quiet[OF assms] keeps_basic) (auto intro!: moves_then apply_then[OF sound] keeps_basic)
      qed
    qed
  qed
qed


text \<open>The contents the loop of the combination adds are merges, under their hash.\<close>

definition merges_hashed :: "sync_env \<Rightarrow> Combined \<Rightarrow> bool" where
  "merges_hashed env cb \<longleftrightarrow> (\<forall>(h, b) \<in> set (cb_merged_bytes cb).
     hex_encode (sy_sha256 env b) = h \<and> (\<exists>x y z. merge_text_three_way x y z = Some b))"

lemma add_conflict_merged: "add_conflict loc rem revision path cb = Ok cb' \<Longrightarrow> cb_merged_bytes cb' = cb_merged_bytes cb"
  by (auto simp: add_conflict_def Let_def)

lemma insert_entry_merged: "insert_entry cb path e = Ok cb' \<Longrightarrow> cb_merged_bytes cb' = cb_merged_bytes cb"
  by (auto simp: insert_entry_def split: option.splits)

lemma merged_text_merges: "merged_text blobs b l r = Some (f, bs) \<Longrightarrow> \<exists>x y z. merge_text_three_way x y z = Some bs"
  by (auto simp: merged_text_def split: option.splits ManifestEntry.splits)

lemma combine_item_merged:
  "combine_item (sy_sha256 env) blobs base staged rem revision item cb = Ok cb' \<Longrightarrow> merges_hashed env cb \<Longrightarrow> merges_hashed env cb'"
  unfolding combine_item_def Let_def merges_hashed_def
  by (auto split: ReconciliationAction.splits option.splits prod.splits
      dest!: add_conflict_merged insert_entry_merged snd_set_bt_insert intro: merged_text_merges)

lemma combine_merged:
  "combine (sy_sha256 env) blobs base staged rem revision items cb = Ok cb' \<Longrightarrow> merges_hashed env cb \<Longrightarrow> merges_hashed env cb'"
  by (induction items arbitrary: cb) (auto dest: combine_item_merged)

lemma fold_insert_source: "(h, b) \<in> set (fold (\<lambda>(k, v). bt_insert k v) kvs acc) \<Longrightarrow> (h, b) \<in> set kvs \<or> (h, b) \<in> set acc"
proof (induction kvs arbitrary: acc)
  case (Cons kv kvs)
  obtain k v where kv: "kv = (k, v)" by (cases kv)
  with Cons.prems have "(h, b) \<in> set (fold (\<lambda>(k, v). bt_insert k v) kvs (bt_insert k v acc))" by simp
  from Cons.IH[OF this] show ?case using kv by (auto dest!: snd_set_bt_insert)
qed simp

lemma local_blob_bytes_staged:
  "answers tree x (local_blob_bytes eg m) blobs \<Longrightarrow> (h, b) \<in> set blobs \<Longrightarrow>
     \<exists>staged s s'. eg_staged_blobs_for_manifest eg m s = (s', Ok staged) \<and> (h, b) \<in> set staged"
  using fold_insert_source[of h b _ "[]"] unfolding answers_def local_blob_bytes_def local_op_def
  by (fastforce simp: then_do_Ok_iff)

lemma planned_blob_source: "planned_blob merged blobs h = Ok b \<Longrightarrow> map_of merged h = Some b
    \<or> map_of (bl_local blobs) h = Some b \<or> map_of (bl_remote blobs) h = Some b \<or> map_of (bl_base blobs) h = Some b"
  by (auto simp: planned_blob_def missing_blob_def split: option.splits)

lemma planned_blob_content:
  assumes "planned_blob (cb_merged_bytes cb) \<lparr>bl_base = base_blobs, bl_local = local_blobs, bl_remote = remote_blobs\<rparr> h = Ok b"
    and merged: "merges_hashed env cb" and loc: "answers tree x (local_blob_bytes eg staged) local_blobs"
    and base: "answers tree x (local_blob_bytes eg base) base_blobs"
    and rem: "\<And>h b. map_of remote_blobs h = Some b \<Longrightarrow> trusted_content env eg rem h b"
  shows "planned_content env eg base staged rem h b"
proof -
  have "map_of (cb_merged_bytes cb) h = Some b \<or> map_of local_blobs h = Some b \<or> map_of remote_blobs h = Some b
      \<or> map_of base_blobs h = Some b"
    using planned_blob_source[OF assms(1)] by (simp only: Blobs.select_convs)
  then show ?thesis
  proof (elim disjE)
    assume "map_of (cb_merged_bytes cb) h = Some b"
    then have "(h, b) \<in> set (cb_merged_bytes cb)" by (rule map_of_SomeD)
    then obtain u v w where "hex_encode (sy_sha256 env b) = h" "merge_text_three_way u v w = Some b"
      using merged unfolding merges_hashed_def by auto
    then show ?thesis by (rule planned_content.merged)
  next
    assume "map_of local_blobs h = Some b"
    then obtain blobs s s' where "eg_staged_blobs_for_manifest eg staged s = (s', Ok blobs)" "(h, b) \<in> set blobs"
      using local_blob_bytes_staged[OF loc map_of_SomeD] by blast
    then show ?thesis by (rule planned_content.staged) simp
  next
    assume "map_of remote_blobs h = Some b"
    then show ?thesis by (rule planned_content.remote[OF rem])
  next
    assume "map_of base_blobs h = Some b"
    then obtain blobs s s' where "eg_staged_blobs_for_manifest eg base s = (s', Ok blobs)" "(h, b) \<in> set blobs"
      using local_blob_bytes_staged[OF base map_of_SomeD] by blast
    then show ?thesis by (rule planned_content.staged) simp
  qed
qed

lemma ensure_unchanged_Ok [simp]: "ensure_unchanged m n = Ok u \<longleftrightarrow> diff_manifests m n = []"
  by (simp add: ensure_unchanged_def)

lemma combination_moves:
  assumes sides: "quiet_sides eg rm tree"
    and head: "answers tree x (rm_fetch_workspace_head rm (eg_workspace_id eg)) head" "trusted_manifest env eg head rem"
    and loc: "answers tree x (eg_working_tree_status eg) (loc, changes)"
    and plan: "plan_reconciliation base loc rem = Ok plan"
  shows "moves tree (sound_applications env eg rm tree) 1 x
    (apply_combination env eg rm base loc rem head plan state conflicts)"
  unfolding apply_combination_def Let_def
proof (intro moves_then quiet[OF sides] keeps_basic, goal_cases)
  case (1 staged u local_blobs base_blobs r)
  have staged: "answers tree x (eg_stage_all eg) staged" "diff_manifests loc staged = []"
    using 1 by (auto dest: answers_lift)
  obtain remote_blobs k where r: "r = (remote_blobs, k)" by (cases r)
  note blobs = 1(3,4) and remote = 1(5)[unfolded r]
  show ?case unfolding r prod.case
  proof (rule moves_then[OF keeps_basic(3)], goal_cases)
    case (1 cb)
    then have combine: "combine (sy_sha256 env) \<lparr>bl_base = base_blobs, bl_local = local_blobs, bl_remote = remote_blobs\<rparr>
        base staged rem (wh_revision head) (rn_paths plan) (combine_start (eg_workspace_id eg) state conflicts base loc rem) = Ok cb"
      by (auto dest: answers_lift)
    then have merged: "merges_hashed env cb"
      by (rule combine_merged) (simp add: merges_hashed_def combine_start_def)
    show ?case
    proof (rule moves_then[OF quiet_ops(1)[OF sides]], goal_cases)
      case (1 status)
      obtain current d where status: "status = (current, d)" by (cases status)
      note now = 1[unfolded status, simplified]
      show ?case unfolding status prod.case
      proof (rule moves_then[OF keeps_basic(3)], goal_cases)
        case (1 u)
        then have unchanged: "diff_manifests staged current = []" by (auto dest: answers_lift)
        have "sound_apply env eg rm tree x (cb_manifest cb) (planned_blob (cb_merged_bytes cb)
            \<lparr>bl_base = base_blobs, bl_local = local_blobs, bl_remote = remote_blobs\<rparr>)"
          by (rule combined[OF head loc plan staged combine now unchanged])
             (rule planned_blob_content[OF _ merged blobs answers_download[OF remote]])
        then show ?case
          unfolding One_nat_def by (intro moves_then[OF quiet_ops(6)[OF sides]] apply_then moves_basic)
      qed
    qed
  qed
qed


lemma moves_after:
  assumes "moves v R 1 x f" and "\<And>a y. moves v R n y (k a)"
  shows "moves v R (Suc n) x (then_do f k)"
  using moves_step[OF assms] by simp

lemma discard_moves:
  assumes sides: "quiet_sides eg rm tree"
  shows "moves tree (sound_applications env eg rm tree) 1 x (discard_local env eg rm)"
  unfolding discard_local_def Let_def One_nat_def
  by (intro moves_after[OF pull_moves[OF sides]] moves_then quiet_ops[OF sides] moves_basic)

text \<open>An attempt applies once, and a retry, if there is one, once more.\<close>

lemma attempt_moves:
  assumes sides: "quiet_sides eg rm tree"
    and retry: "retry_count = 0 \<Longrightarrow>
      (\<And>y revision. moves tree (sound_applications env eg rm tree) n y (sync_attempt env eg rm ReconcileMode revision (Suc 0)))"
  shows "moves tree (sound_applications env eg rm tree) (Suc n) x (sync_attempt env eg rm mode initial retry_count)"
proof -
  let ?R = "sound_applications env eg rm tree"
  have finish: "moves tree ?R n y (then_do (local_op (eg_save_sync_state eg st)) (\<lambda>_. done_with r))" for y st r n
    by (intro moves_then quiet[OF sides] moves_basic)
  have publish: "moves tree ?R n y (match_do (push_with_expected_head env eg rm head rem) (\<lambda>pushed. case pushed of
      Ok published \<Rightarrow> k published
    | Err error \<Rightarrow>
        if is_head_revision_conflict env error
        then if retry_count = 0
          then sync_attempt env eg rm ReconcileMode (Some revision) (retry_count + 1)
          else then_do (remote_status eg rm) (\<lambda>head.
            fail_with (SyncPublicationRace (case initial of Some r \<Rightarrow> r | None \<Rightarrow> revision) (wh_revision head)))
        else fail_with error))"
    if "\<And>p. moves tree ?R n y (k p)" for y head rem k revision
    using retry that
    by (intro moves_match quiet[OF sides]) (auto split: result.splits intro!: moves_then quiet[OF sides])
  show ?thesis
  proof (cases "mode = DiscardLocal")
    case True
    then show ?thesis using moves_mono[OF discard_moves[OF sides], of "Suc n"] by (simp add: sync_attempt.simps)
  next
    case False
    show ?thesis unfolding sync_attempt.simps[of env eg rm mode] Let_def if_not_P[OF False]
    proof (intro moves_then[OF quiet_ops(1)[OF sides]], goal_cases)
      case (1 status)
      obtain loc changes where status: "status = (loc, changes)" by (cases status)
      note loc = 1[unfolded status, simplified]
      show ?case unfolding status prod.case
      proof (intro moves_then quiet[OF sides] keeps_basic, goal_cases)
        case (1 state head rem plan)
        note head = 1(2)[unfolded remote_status_def, simplified] and rem = answers_load[OF 1(3)]
          and plan = 1(4)[THEN answers_lift, simplified]
        show ?case
        proof (intro moves_if finish, goal_cases)
          case 1
          then show ?case by simp
        next
          case 2
          show ?case by (intro moves_then quiet[OF sides] keeps_basic moves_basic)
        next
          case 3
          show ?case
          proof (intro moves_then[OF quiet_ops(6)[OF sides]] moves_after[OF combination_moves[OF sides head rem loc plan]], goal_cases)
            case (1 u combination y)
            obtain state' conflicts where "combination = (state', conflicts)" by (cases combination)
            then show ?case
              by (simp only: prod.case) (intro moves_then quiet[OF sides] keeps_basic moves_if finish publish)
          qed
        qed
      qed
    qed
  qed
qed


lemma dry_run_moves:
  assumes sides: "quiet_sides eg rm tree"
  shows "moves tree R 0 x (sync_attempt env eg rm DryRun initial retry_count)"
proof -
  have "keeps tree (sync_attempt env eg rm DryRun initial retry_count)"
    unfolding sync_attempt.simps[of env eg rm DryRun] Let_def
    by (auto intro!: keeps_then quiet[OF sides] split: prod.splits)
  then show ?thesis by (rule moves_quiet)
qed


text \<open>A safe pull refuses a tree with local changes, and touches neither side.\<close>

lemma safe_pull_refuses:
  "eg_working_tree_status eg s = (t, Ok (loc, d)) \<Longrightarrow> d \<noteq> [] \<Longrightarrow> pull env eg rm s = (t, Err UnstagedChangesError)"
  by (simp add: pull_def pull_with_mode_def ensure_working_tree_clean_def local_op_def then_do_def map_error_def fail_with_def)


section \<open>From push to pull\<close>

text \<open>What one engine encrypts another decrypts to the same bytes, if at all.\<close>

definition shares_key :: "'st Engine \<Rightarrow> 'tt Engine \<Rightarrow> bool" where
  "shares_key eg eg' \<longleftrightarrow> (\<forall>p s s' enc. eg_encrypt_bytes eg p s = (s', Ok enc) \<longrightarrow> key_id_ok (eo_key_id enc)
     \<and> (\<forall>t t' q. eg_decrypt_file eg' enc t = (t', Ok q) \<longrightarrow> q = p))"

fun without_ids :: "string \<times> ManifestEntry \<Rightarrow> string \<times> ManifestEntry" where
  "without_ids (path, File f) = (path, File (f\<lparr>fe_remote_blob_id := None, fe_remote_chunk_ids := []\<rparr>))"
| "without_ids (path, Directory) = (path, Directory)"

definition without_remote_ids :: "Manifest \<Rightarrow> Manifest" where
  "without_remote_ids m = m\<lparr>mf_entries := map without_ids (mf_entries m)\<rparr>"

lemma without_ids_set [simp]: "without_ids (path, File (set_remote_ids ids f)) = without_ids (path, File f)"
  by (simp add: set_remote_ids_def split: list.splits)

lemma link_entries_same: "link_entries ids es = Ok es' \<Longrightarrow> map without_ids es' = map without_ids es"
  by (induction ids es arbitrary: es' rule: link_entries.induct) (auto simp del: without_ids.simps(1))

lemma changed_files_without: "changed_files (without_remote_ids m) = changed_files m"
proof -
  have "List.map_filter (\<lambda>(path, entry). case entry of File _ \<Rightarrow> Some path | Directory \<Rightarrow> None) (map without_ids es)
      = List.map_filter (\<lambda>(path, entry). case entry of File _ \<Rightarrow> Some path | Directory \<Rightarrow> None) es" for es
  proof (induction es)
    case (Cons e es)
    obtain path entry where "e = (path, entry)" by (cases e)
    then show ?case using Cons by (cases entry) simp_all
  qed simp
  then show ?thesis by (simp add: changed_files_def without_remote_ids_def)
qed

lemma encrypted_binary_opens:
  assumes "encrypt_to_binary eg p s = (s', Ok bs)" and "opens eg' bs q" and "shares_key eg eg'"
  shows "q = p"
proof -
  obtain enc s0 where enc: "eg_encrypt_bytes eg p s = (s0, Ok enc)" "encode enc = Ok bs"
    using assms(1) unfolding encrypt_to_binary_def by (auto simp: then_do_Ok_iff)
  then have "decode bs = Ok enc" using assms(3) decode_frame[of enc] unfolding shares_key_def by (auto simp: encode_Ok_iff)
  then show ?thesis using assms(2,3) enc unfolding opens_def shares_key_def from_remote_bytes_def
    by (auto split: if_splits)
qed

lemma push_Ok:
  assumes "push env eg rm s = (s', Ok rep)"
  obtains s0 s1 staged ids entries json t t' bs where "eg_load_staged_manifest eg s0 = (s1, Ok staged)"
    "link_entries ids (mf_entries staged) = Ok entries" "sy_to_json env (staged\<lparr>mf_entries := entries\<rparr>) = Ok json"
    "encrypt_to_binary eg json t = (t', Ok bs)" "pu_manifest_id rep = manifest_id_from_content (sy_sha256 env) bs"
  using assms unfolding push_def push_with_expected_head_def Let_def local_op_def
  by (auto simp: then_do_Ok_iff case_prod_unfold split: if_splits)

lemma pull_Ok:
  assumes "pull_with_mode env eg rm mode t = (t', Ok rep)" and "pl_manifest_id rep = Some i"
  obtains t0 head m load report where "wh_manifest_id head = Some i" "trusted_manifest env eg head m"
    "eg_apply_pulled_manifest eg m load t0 = (t', Ok report)" "\<And>h b. load h = Ok b \<Longrightarrow> trusted_content env eg m h b"
    "pl_changed_files rep = changed_files m"
proof -
  obtain loc head j m t1 t2 t3 t0 blobs k report where head: "wh_manifest_id head = Some j"
    and m: "load_remote_manifest env eg rm (eg_workspace_id eg) head t1 = (t2, Ok m)"
    and blobs: "download_manifest_blobs env eg rm (eg_workspace_id eg) m (pull_available_hashes m loc) t2 = (t3, Ok (blobs, k))"
    and applied: "eg_apply_pulled_manifest eg m (\<lambda>hash. case map_of blobs hash of
            Some b \<Rightarrow> Ok b | None \<Rightarrow> missing_blob ''missing downloaded blob '' hash) t0 = (t', Ok report)"
    and rep: "rep = pull_report_from_apply (eg_workspace_id eg) (wh_revision head) (Some j) k (changed_files m) report"
    using assms unfolding pull_with_mode_def Let_def local_op_def
    by (auto simp: then_do_Ok_iff pull_report_from_apply_def split: option.splits prod.splits)
  have "trusted_content env eg m h b"
    if "(case map_of blobs h of Some b \<Rightarrow> Ok b | None \<Rightarrow> missing_blob ''missing downloaded blob '' h) = Ok b" for h b
    using that download_manifest_blobs_trusted[OF blobs]
    by (auto simp: missing_blob_def dest!: map_of_SomeD split: option.splits)
  moreover have "wh_manifest_id head = Some i" "pl_changed_files rep = changed_files m"
    using rep head assms(2) by (simp_all add: pull_report_from_apply_def)
  ultimately show ?thesis using that applied load_remote_manifest_trusted[OF m refl] by blast
qed




section \<open>A concrete run\<close>

text \<open>A state holding the tree, the reconciliation state and the server; an engine whose cipher
  appends a tag, and hashing that is the identity.\<close>

record sample_world =
  sw_tree :: Manifest
  sw_sync :: SyncState
  sw_head :: WorkspaceHead
  sw_objects :: "(string \<times> bytes) list"

definition sample_workspace :: WorkspaceId where "sample_workspace = WorkspaceId ''ws''"

definition sample_content :: bytes where "sample_content = [7]"

definition sample_encrypt :: "bytes \<Rightarrow> EncryptedObject" where
  "sample_encrypt p = \<lparr>eo_key_id = KeyId SYSTEM_KEY_ID, eo_algorithm = XChaCha20Poly1305, eo_nonce = replicate 24 0,
     eo_ciphertext = replicate 16 0 @ p\<rparr>"

definition sample_file :: "BlobId option \<Rightarrow> FileEntry" where
  "sample_file i = \<lparr>fe_size = 1, fe_content_hash = hex_encode sample_content, fe_modified_at = 5,
     fe_remote_blob_id = i, fe_remote_chunk_ids = []\<rparr>"

definition sample_manifest :: "BlobId option \<Rightarrow> Manifest" where
  "sample_manifest i = \<lparr>mf_workspace_id = sample_workspace, mf_entries = [(''a'', File (sample_file i))]\<rparr>"

definition sample_blob :: BlobId where
  "sample_blob = blob_id_from_content (\<lambda>b. b) (frame_of (sample_encrypt sample_content))"

definition sample_linked :: Manifest where "sample_linked = sample_manifest (Some sample_blob)"

definition sample_sync_env :: sync_env where
  "sample_sync_env = \<lparr>sy_sha256 = (\<lambda>b. b),
     sy_to_json = (\<lambda>m. if m = sample_linked then Ok [1] else Err (SerializeManifest [])),
     sy_from_json = (\<lambda>b. if b = [1] then Ok sample_linked else Err (DeserializeManifest [])),
     sy_display = (\<lambda>_. [])\<rparr>"

definition sample_engine :: "sample_world Engine" where
  "sample_engine = \<lparr>eg_workspace_id = sample_workspace,
     eg_working_tree_status = (\<lambda>s. (s, Ok (sw_tree s, []))),
     eg_stage_all = (\<lambda>s. (s, Ok (sw_tree s))),
     eg_load_staged_manifest = (\<lambda>s. (s, Ok (sw_tree s))),
     eg_staged_blobs_for_manifest = (\<lambda>m s. (s, Ok (if mf_entries m = [] then [] else [(hex_encode sample_content, sample_content)]))),
     eg_validate_pulled_manifest = (\<lambda>_. Ok ()),
     eg_apply_pulled_manifest = (\<lambda>m load s. (s\<lparr>sw_tree := m\<rparr>, Ok \<lparr>ar_removed_paths = 0, ar_written_files = 0,
       ar_prepared_directories = 0, ar_cached_blobs = 0\<rparr>)),
     eg_load_sync_state = (\<lambda>s. (s, Ok (sw_sync s))),
     eg_save_sync_state = (\<lambda>y s. (s\<lparr>sw_sync := y\<rparr>, Ok ())),
     eg_encrypt_bytes = (\<lambda>p s. (s, Ok (sample_encrypt p))),
     eg_decrypt_file = (\<lambda>e s. (s, Ok (drop 16 (eo_ciphertext e))))\<rparr>"

definition sample_remote :: "sample_world Remote" where
  "sample_remote = \<lparr>
     rm_upload_blob = (\<lambda>w i b s. (s\<lparr>sw_objects := (blob_id_str i, b) # sw_objects s\<rparr>, Ok UploadCreated)),
     rm_upload_manifest = (\<lambda>w i b s. (s\<lparr>sw_objects := (manifest_id_str i, b) # sw_objects s\<rparr>, Ok UploadCreated)),
     rm_download_blob = (\<lambda>w i s. (s, Ok (the (map_of (sw_objects s) (blob_id_str i))))),
     rm_download_manifest = (\<lambda>w i s. (s, Ok (the (map_of (sw_objects s) (manifest_id_str i))))),
     rm_fetch_workspace_head = (\<lambda>w s. (s, Ok (sw_head s))),
     rm_update_workspace_head = (\<lambda>w r i s. let h = (sw_head s)\<lparr>wh_revision := r + 1, wh_manifest_id := Some i\<rparr>
       in (s\<lparr>sw_head := h\<rparr>, Ok h))\<rparr>"

definition sample_world_before :: sample_world where
  "sample_world_before = \<lparr>sw_tree = sample_manifest None, sw_sync = \<lparr>ss_last_synced_revision = None, ss_last_synced_manifest = None,
     ss_last_observed_remote = None, ss_last_published_local = None, ss_pending_operation = None, ss_conflicts = []\<rparr>, sw_head = head_empty sample_workspace, sw_objects = []\<rparr>"

lemma sample_encode: "length p < 1000 \<Longrightarrow> encode (sample_encrypt p) = Ok (frame_of (sample_encrypt p))"
  by (simp add: encode_Ok_iff length_frame_of sample_encrypt_def SYSTEM_KEY_ID_def MAX_ENCRYPTED_OBJECT_BYTES_def)

lemma sample_key_ok: "key_id_ok (KeyId SYSTEM_KEY_ID)"
  by code_simp

lemma sample_decode: "length p < 1000 \<Longrightarrow> from_remote_bytes (frame_of (sample_encrypt p)) = Ok (sample_encrypt p)"
  using decode_frame[of "sample_encrypt p"] sample_key_ok
  by (simp add: from_remote_bytes_def starts_with_def frame_of_def[of "sample_encrypt p"] length_frame_of)
     (simp add: sample_encrypt_def frame_of_def length_frame_of MAX_ENCRYPTED_OBJECT_BYTES_def SYSTEM_KEY_ID_def)

lemma sample_to_binary: "length p < 1000 \<Longrightarrow> encrypt_to_binary sample_engine p s = (s, Ok (frame_of (sample_encrypt p)))"
  by (simp add: encrypt_to_binary_def then_do_def map_error_def sample_engine_def lift_result_def sample_encode)

lemma sample_from_binary: "length p < 1000 \<Longrightarrow> decrypt_remote_object_bytes sample_engine (frame_of (sample_encrypt p)) s = (s, Ok p)"
  by (simp add: decrypt_remote_object_bytes_def then_do_def map_error_def sample_engine_def lift_result_def sample_decode)
     (simp add: sample_encrypt_def)

lemmas run_simps = then_do_def map_error_def lift_result_def done_with_def local_op_def remote_op_def match_do_def

lemma sample_engine_ops:
  "eg_workspace_id sample_engine = sample_workspace"
  "eg_working_tree_status sample_engine = (\<lambda>s. (s, Ok (sw_tree s, [])))"
  "eg_stage_all sample_engine = (\<lambda>s. (s, Ok (sw_tree s)))"
  "eg_load_staged_manifest sample_engine = (\<lambda>s. (s, Ok (sw_tree s)))"
  "eg_staged_blobs_for_manifest sample_engine = (\<lambda>m s. (s, Ok (if mf_entries m = [] then [] else [(hex_encode sample_content, sample_content)])))"
  "eg_validate_pulled_manifest sample_engine = (\<lambda>_. Ok ())"
  "eg_apply_pulled_manifest sample_engine = (\<lambda>m load s. (s\<lparr>sw_tree := m\<rparr>, Ok \<lparr>ar_removed_paths = 0, ar_written_files = 0, ar_prepared_directories = 0, ar_cached_blobs = 0\<rparr>))"
  "eg_load_sync_state sample_engine = (\<lambda>s. (s, Ok (sw_sync s)))"
  "eg_save_sync_state sample_engine = (\<lambda>y s. (s\<lparr>sw_sync := y\<rparr>, Ok ()))"
  "eg_encrypt_bytes sample_engine = (\<lambda>p s. (s, Ok (sample_encrypt p)))"
  "eg_decrypt_file sample_engine = (\<lambda>e s. (s, Ok (drop 16 (eo_ciphertext e))))"
  by (simp_all add: sample_engine_def)

lemma sample_remote_ops:
  "rm_upload_blob sample_remote = (\<lambda>w i b s. (s\<lparr>sw_objects := (blob_id_str i, b) # sw_objects s\<rparr>, Ok UploadCreated))"
  "rm_upload_manifest sample_remote = (\<lambda>w i b s. (s\<lparr>sw_objects := (manifest_id_str i, b) # sw_objects s\<rparr>, Ok UploadCreated))"
  "rm_download_blob sample_remote = (\<lambda>w i s. (s, Ok (the (map_of (sw_objects s) (blob_id_str i)))))"
  "rm_download_manifest sample_remote = (\<lambda>w i s. (s, Ok (the (map_of (sw_objects s) (manifest_id_str i)))))"
  "rm_fetch_workspace_head sample_remote = (\<lambda>w s. (s, Ok (sw_head s)))"
  "rm_update_workspace_head sample_remote = (\<lambda>w r i s. let h = (sw_head s)\<lparr>wh_revision := r + 1, wh_manifest_id := Some i\<rparr> in (s\<lparr>sw_head := h\<rparr>, Ok h))"
  by (simp_all add: sample_remote_def)

lemma sample_values:
  "sy_sha256 sample_sync_env = (\<lambda>b. b)" "sy_to_json sample_sync_env sample_linked = Ok [1]"
  "sy_from_json sample_sync_env [1] = Ok sample_linked"
  "mf_entries (sample_manifest i) = [(''a'', File (sample_file i))]" "sample_content \<noteq> []"
  "fe_content_hash (sample_file i) = hex_encode sample_content"
  "sample_manifest None\<lparr>mf_entries := [(''a'', File (set_remote_ids [sample_blob] (sample_file None)))]\<rparr> = sample_linked"
  "chunks n sample_content = [sample_content]" "length sample_content = 1"
  "\<not> MAX_ENCRYPTED_OBJECT_BYTES \<le> length (frame_of (sample_encrypt []))"
  by (simp_all add: sample_sync_env_def sample_manifest_def sample_file_def sample_linked_def set_remote_ids_def
      sample_content_def length_frame_of sample_encrypt_def MAX_ENCRYPTED_OBJECT_BYTES_def SYSTEM_KEY_ID_def)

lemmas sample_run = run_simps sample_engine_ops sample_remote_ops sample_to_binary sample_from_binary sample_values
  Let_def head_empty_def manifest_new_def unique_file_remote_blob_ids_def load_remote_manifest_def

definition sample_manifest_id :: ManifestId where
  "sample_manifest_id = manifest_id_from_content (\<lambda>b. b) (frame_of (sample_encrypt [1]))"

text \<open>The world after the push, with the tree of a device that has not pulled yet.\<close>

definition sample_world_after :: "Manifest \<Rightarrow> sample_world" where
  "sample_world_after tree = sample_world_before\<lparr>sw_tree := tree,
     sw_head := (head_empty sample_workspace)\<lparr>wh_manifest_id := Some sample_manifest_id, wh_revision := 1\<rparr>,
     sw_objects := [(manifest_id_str sample_manifest_id, frame_of (sample_encrypt [1])),
       (blob_id_str sample_blob, frame_of (sample_encrypt sample_content))]\<rparr>"

lemma sample_pushes: "\<exists>r. push sample_sync_env sample_engine sample_remote sample_world_before
      = (sample_world_after (sample_manifest None), Ok r) \<and> pu_manifest_id r = sample_manifest_id"
  by (simp add: push_def remote_status_def push_with_expected_head_def sample_run sample_world_before_def
    sample_blob_def[symmetric] sample_manifest_id_def[symmetric] sample_world_after_def)

lemma sample_ids_differ: "manifest_id_str sample_manifest_id \<noteq> blob_id_str sample_blob"
  by (simp add: sample_manifest_id_def sample_blob_def manifest_id_from_content_def blob_id_from_content_def
    BLOB_ID_PREFIX_def MANIFEST_ID_PREFIX_def)

lemma sample_verified:
  "verify_manifest_id sample_sync_env (frame_of (sample_encrypt [1])) sample_manifest_id = Ok ()"
  "verify_blob_id sample_sync_env (frame_of (sample_encrypt sample_content)) sample_blob = Ok ()"
  by (simp_all add: sample_values sample_manifest_id_def sample_blob_def)

lemma sample_file_simps: "fe_size (sample_file i) = 1" "fe_remote_blob_id (sample_file i) = i"
  "fe_remote_chunk_ids (sample_file i) = []"
  by (simp_all add: sample_file_def)

lemma sample_pulls: "\<exists>r. pull_with_mode sample_sync_env sample_engine sample_remote mode (sample_world_after (manifest_new sample_workspace))
      = (sample_world_after sample_linked, Ok r) \<and> pl_manifest_id r = Some sample_manifest_id"
  by (simp add: pull_with_mode_def ensure_working_tree_clean_def sample_run sample_world_after_def sample_ids_differ sample_ids_differ[symmetric] sample_verified
    sample_world_before_def sample_linked_def file_blob_ids_def download_manifest_blobs_def pull_available_hashes_def
    manifest_get_def sample_file_simps ensure_unchanged_def diff_manifests_def pull_report_from_apply_def List.map_filter_def
    saturating_sub64_def)


lemma sample_quiet: "quiet_sides sample_engine sample_remote sw_tree"
  by (simp add: quiet_sides_def keeps_def post_def sample_engine_ops sample_remote_ops Let_def)

lemma sample_shares_key: "shares_key sample_engine sample_engine"
  using sample_key_ok by (auto simp: shares_key_def sample_engine_ops sample_encrypt_def)

lemma sample_json:
  "sy_to_json sample_sync_env m = Ok bs \<Longrightarrow> sy_from_json sample_sync_env bs = Ok m' \<Longrightarrow> m' = m"
  by (auto simp: sample_sync_env_def split: if_splits)



end
