(* ===== verification/Local_Facts.thy ===== *)
theory Local_Facts
  imports Local_Engine
begin

text \<open>
  What the calls of \<^verbatim>\<open>Local_Tree\<close> do to a tree when no component of the path but the last
  is a link: they act at the path itself.  Each lemma holds under every fault.
\<close>

section \<open>Trees\<close>

text \<open>Everything lies in folders.\<close>

definition tree_ok :: "LocalFs \<Rightarrow> bool" where
  "tree_ok fs \<longleftrightarrow> (\<forall>p. p \<noteq> [] \<and> node_at fs p \<noteq> None \<longrightarrow> node_at fs (butlast p) = Some Folder)"

text \<open>On the way to a path there are only folders, as far as there is anything.\<close>

definition clear :: "LocalFs \<Rightarrow> path \<Rightarrow> bool" where
  "clear fs p \<longleftrightarrow> (\<forall>q r. p = q @ r \<and> r \<noteq> [] \<longrightarrow> node_at fs q = None \<or> node_at fs q = Some Folder)"

lemma tree_ok_prefix: "tree_ok fs \<Longrightarrow> node_at fs (p @ q) \<noteq> None \<Longrightarrow> q \<noteq> [] \<Longrightarrow> node_at fs p = Some Folder"
proof (induction q rule: rev_induct)
  case (snoc c q)
  then have "node_at fs (butlast (p @ q @ [c])) = Some Folder" unfolding tree_ok_def by blast
  then have "node_at fs (p @ q) = Some Folder" by (simp add: butlast_append)
  then show ?case using snoc by (cases "q = []") auto
qed simp

lemma tree_ok_clear: "tree_ok fs \<Longrightarrow> node_at fs p \<noteq> None \<Longrightarrow> clear fs p"
  using tree_ok_prefix unfolding clear_def by blast

lemma clear_butlast: "clear fs p \<Longrightarrow> clear fs (butlast p)"
  unfolding clear_def by (metis append_assoc append_butlast_last_id append_is_Nil_conv butlast.simps(1))

lemma clear_parent: "clear fs p \<Longrightarrow> p \<noteq> [] \<Longrightarrow> node_at fs (butlast p) = None \<or> node_at fs (butlast p) = Some Folder"
  unfolding clear_def by (metis append_butlast_last_id not_Cons_self2)

lemma walk_clear:
  assumes "tree_ok fs" and "node_at fs dir = Some Folder"
    and "\<And>q r. cs = q @ r \<Longrightarrow> r \<noteq> [] \<Longrightarrow> node_at fs (dir @ q) = None \<or> node_at fs (dir @ q) = Some Folder"
    and "\<And>t. node_at fs (dir @ cs) \<noteq> Some (SymLink t)"
  shows "walk_path n fs dir cs = (if cs = [] \<or> node_at fs (dir @ butlast cs) = Some Folder then Ok (dir @ cs)
    else Err (io_error NotFound))"
  using assms
proof (induction cs arbitrary: dir)
  case (Cons c cs)
  show ?case
  proof (cases "cs = []")
    case True
    then show ?thesis using Cons.prems by (auto split: option.splits Node.splits)
  next
    case False
    have node: "node_at fs (dir @ [c]) = None \<or> node_at fs (dir @ [c]) = Some Folder"
      using Cons.prems(3)[of "[c]" cs] False by simp
    have butlast: "dir @ butlast (c # cs) = (dir @ [c]) @ butlast cs" using False by simp
    show ?thesis
    proof (cases "node_at fs (dir @ [c])")
      case None
      have "node_at fs ((dir @ [c]) @ butlast cs) \<noteq> Some Folder"
        using None tree_ok_prefix[OF Cons.prems(1), of "dir @ [c]" "butlast cs"] by (cases "butlast cs = []") auto
      then show ?thesis using None False butlast by simp
    next
      case (Some node')
      then have folder: "node_at fs (dir @ [c]) = Some Folder" using node by simp
      have "walk_path n fs (dir @ [c]) cs = (if cs = [] \<or> node_at fs ((dir @ [c]) @ butlast cs) = Some Folder
          then Ok ((dir @ [c]) @ cs) else Err (io_error NotFound))"
        using Cons.prems(3)[of "c # q" for q] Cons.prems(4) by (intro Cons.IH[OF Cons.prems(1) folder]) auto
      then show ?thesis using folder False by simp
    qed
  qed
qed simp

lemma resolve_clear:
  assumes "tree_ok fs" and "clear fs p" and "\<And>t. node_at fs p \<noteq> Some (SymLink t)"
  shows "resolve fs p = (if p = [] \<or> node_at fs (butlast p) = Some Folder then Ok p else Err (io_error NotFound))"
  using walk_clear[OF assms(1), of "[]" p 40] assms(2,3) unfolding resolve_def clear_def by auto

lemma resolve_entry_clear:
  assumes "tree_ok fs" and "clear fs p" and "p \<noteq> []"
  shows "resolve_entry fs p = (if node_at fs (butlast p) = Some Folder then Ok p else Err (io_error NotFound))"
proof -
  have parent: "node_at fs (butlast p) = None \<or> node_at fs (butlast p) = Some Folder" by (rule clear_parent[OF assms(2,3)])
  have walk: "resolve fs (butlast p) = (if butlast p = [] \<or> node_at fs (butlast (butlast p)) = Some Folder
      then Ok (butlast p) else Err (io_error NotFound))"
    using parent by (intro resolve_clear[OF assms(1) clear_butlast[OF assms(2)]]) auto
  show ?thesis
  proof (cases "node_at fs (butlast p) = Some Folder")
    case True
    then have "butlast p = [] \<or> node_at fs (butlast (butlast p)) = Some Folder" using assms(1) unfolding tree_ok_def by auto
    then show ?thesis using walk True assms(3) by (auto simp: resolve_entry_def)
  next
    case False
    then show ?thesis using walk parent assms(3) by (auto simp: resolve_entry_def)
  qed
qed


section \<open>Calls under faults\<close>

text \<open>The tree as the calls see it: faults, names and clock left out.\<close>

lemma node_at_nodes: "lf_nodes fs' = lf_nodes fs \<Longrightarrow> node_at fs' = node_at fs"
  by (simp add: node_at_def fun_eq_iff)

lemma looking_post:
  "post (looking f) fs (\<lambda>fs' r. lf_nodes fs' = lf_nodes fs \<and> (lf_faults fs = [] \<longrightarrow> lf_faults fs' = [])
     \<and> (r = f fs' \<or> lf_faults fs \<noteq> [] \<and> (\<exists>msg. r = Err (IoError OtherKind msg))))"
  by (auto simp: looking_def with_local_fault_def post_def split: list.splits option.splits)

lemma changing_post:
  assumes "\<And>fs0. lf_nodes fs0 = lf_nodes fs \<Longrightarrow> (lf_faults fs = [] \<Longrightarrow> lf_faults fs0 = []) \<Longrightarrow>
      (case f fs0 of Ok fs' \<Rightarrow> P fs' (Ok ()) | Err e \<Rightarrow> P fs0 (Err e))"
    and "\<And>fs0 n msg. lf_nodes fs0 = lf_nodes fs \<Longrightarrow> lf_faults fs \<noteq> [] \<Longrightarrow> P (damage n fs0) (Err (IoError OtherKind msg))"
  shows "post (changing damage f) fs P"
proof (cases "lf_faults fs")
  case Nil
  then show ?thesis using assms(1)[of fs]
    by (auto simp: changing_def with_local_fault_def post_def split: result.splits)
next
  case (Cons x rest)
  have ok: "case f (fs\<lparr>lf_faults := rest\<rparr>) of Ok fs' \<Rightarrow> P fs' (Ok ()) | Err e \<Rightarrow> P (fs\<lparr>lf_faults := rest\<rparr>) (Err e)"
    using assms(1)[of "fs\<lparr>lf_faults := rest\<rparr>"] Cons by simp
  show ?thesis using ok assms(2)[of "fs\<lparr>lf_faults := rest\<rparr>"] Cons
    by (auto simp: changing_def with_local_fault_def post_def split: option.splits result.splits)
qed

lemma tree_ok_nodes: "lf_nodes fs' = lf_nodes fs \<Longrightarrow> tree_ok fs' = tree_ok fs"
  using node_at_nodes[of fs' fs] by (simp add: tree_ok_def)

lemma clear_nodes: "lf_nodes fs' = lf_nodes fs \<Longrightarrow> clear fs' p = clear fs p"
  using node_at_nodes[of fs' fs] by (simp add: clear_def)



section \<open>The calls at a clear path\<close>

text \<open>Without faults no call fails but for what the tree says, and none appears.\<close>

definition calm :: "LocalFs \<Rightarrow> LocalFs \<Rightarrow> bool" where
  "calm fs fs' \<longleftrightarrow> (lf_faults fs = [] \<longrightarrow> lf_faults fs' = [])"

lemma calm_refl [simp]: "calm fs fs"
  by (simp add: calm_def)

lemma calm_trans: "calm fs fs' \<Longrightarrow> calm fs' fs'' \<Longrightarrow> calm fs fs''"
  by (simp add: calm_def)

lemma lf_faults_updates [simp]:
  "lf_faults (put_node p n fs) = lf_faults fs" "lf_faults (delete_where P fs) = lf_faults fs"
  "lf_faults (write_bytes p b fs) = lf_faults fs"
  by (simp_all add: put_node_def delete_where_def write_bytes_def)

text \<open>The node a call on the last component itself finds.\<close>

lemma entry_found:
  assumes "tree_ok fs" and "clear fs p" and "p \<noteq> []"
  shows "and_then (resolve_entry fs p) (\<lambda>q. and_then (found fs q) (k q)) =
    (case node_at fs p of None \<Rightarrow> Err (io_error NotFound) | Some n \<Rightarrow> k p n)"
proof -
  have "node_at fs p = None" if "node_at fs (butlast p) \<noteq> Some Folder"
    using that assms(1,3) unfolding tree_ok_def by blast
  then show ?thesis using resolve_entry_clear[OF assms] by (auto simp: found_def split: option.splits)
qed

lemma and_then_Ok: "and_then r Ok = r"
  by (cases r) auto

lemma symlink_metadata_post:
  assumes "tree_ok fs" and "clear fs p" and "p \<noteq> []"
  shows "post (symlink_metadata p) fs (\<lambda>fs' r. lf_nodes fs' = lf_nodes fs \<and> calm fs fs' \<and> (case r of
      Ok n \<Rightarrow> node_at fs p = Some n
    | Err e \<Rightarrow> (io_kind e = NotFound \<or> lf_faults fs = [] \<longrightarrow> node_at fs p = None \<and> io_kind e = NotFound)))"
  unfolding symlink_metadata_def
proof (rule post_mono[OF looking_post])
  fix fs' and r :: "(Node, IoError) result"
  assume run: "lf_nodes fs' = lf_nodes fs \<and> (lf_faults fs = [] \<longrightarrow> lf_faults fs' = [])
     \<and> (r = and_then (resolve_entry fs' p) (found fs') \<or> lf_faults fs \<noteq> [] \<and> (\<exists>msg. r = Err (IoError OtherKind msg)))"
  then have nodes: "lf_nodes fs' = lf_nodes fs" by simp
  have "and_then (resolve_entry fs' p) (\<lambda>q. and_then (found fs' q) Ok)
      = (case node_at fs p of None \<Rightarrow> Err (io_error NotFound) | Some n \<Rightarrow> Ok n)"
    unfolding node_at_nodes[OF nodes, symmetric]
    by (rule entry_found) (simp_all add: assms tree_ok_nodes[OF nodes] clear_nodes[OF nodes])
  then have eq: "and_then (resolve_entry fs' p) (found fs') = (case node_at fs p of None \<Rightarrow> Err (io_error NotFound) | Some n \<Rightarrow> Ok n)"
    by (simp only: and_then_Ok)
  have "r = (case node_at fs p of None \<Rightarrow> Err (io_error NotFound) | Some n \<Rightarrow> Ok n)
      \<or> lf_faults fs \<noteq> [] \<and> (\<exists>msg. r = Err (IoError OtherKind msg))"
    using conjunct2[OF conjunct2[OF run]] by (simp only: eq)
  moreover have "calm fs fs'" using conjunct1[OF conjunct2[OF run]] by (simp only: calm_def)
  ultimately show "lf_nodes fs' = lf_nodes fs \<and> calm fs fs' \<and> (case r of Ok n \<Rightarrow> node_at fs p = Some n
    | Err e \<Rightarrow> (io_kind e = NotFound \<or> lf_faults fs = [] \<longrightarrow> node_at fs p = None \<and> io_kind e = NotFound))"
    using nodes by (cases "node_at fs p") (auto simp: io_error_def)
qed

lemma tree_ok_delete_leaf: "tree_ok fs \<Longrightarrow> node_at fs p \<noteq> Some Folder \<Longrightarrow> tree_ok (delete_where (\<lambda>r. r = p) fs)"
  unfolding tree_ok_def by auto

lemma no_children: "children fs p = [] \<Longrightarrow> node_at fs (p @ [c]) = None"
  using in_children[of c fs p] by auto

lemma tree_ok_delete_empty:
  assumes "tree_ok fs" and "children fs p = []"
  shows "tree_ok (delete_where (\<lambda>r. r = p) fs)"
proof -
  show ?thesis unfolding tree_ok_def
  proof (intro allI impI, elim conjE)
    fix q assume q: "q \<noteq> []" "node_at (delete_where (\<lambda>r. r = p) fs) q \<noteq> None"
    then have at: "node_at fs q \<noteq> None" by (auto split: if_splits)
    have "butlast q \<noteq> p"
    proof
      assume "butlast q = p"
      then have "q = p @ [last q]" using q(1) by auto
      then show False using no_children[OF assms(2), of "last q"] at by simp
    qed
    moreover have "node_at fs (butlast q) = Some Folder" using assms(1) q(1) at unfolding tree_ok_def by simp
    ultimately show "node_at (delete_where (\<lambda>r. r = p) fs) (butlast q) = Some Folder" by simp
  qed
qed

lemma node_at_delete_one: "p \<noteq> [] \<Longrightarrow> node_at (delete_where (\<lambda>r. r = p) fs) = (node_at fs)(p := None)"
  by (auto simp: fun_eq_iff)

text \<open>A call that changes the entry at a clear path: what it does with the node it finds there.\<close>

lemma changing_entry_post:
  assumes "tree_ok fs" and "clear fs p" and "p \<noteq> []"
    and missing: "\<And>fs0. lf_nodes fs0 = lf_nodes fs \<Longrightarrow> calm fs fs0 \<Longrightarrow> tree_ok fs0 \<Longrightarrow> node_at fs p = None \<Longrightarrow>
        P fs0 (Err (io_error NotFound))"
    and found: "\<And>fs0 n. lf_nodes fs0 = lf_nodes fs \<Longrightarrow> calm fs fs0 \<Longrightarrow> tree_ok fs0 \<Longrightarrow> node_at fs p = Some n \<Longrightarrow>
        (case k fs0 p n of Ok fs' \<Rightarrow> P fs' (Ok ()) | Err e \<Rightarrow> P fs0 (Err e))"
    and fault: "\<And>fs0 n msg. lf_nodes fs0 = lf_nodes fs \<Longrightarrow> lf_faults fs \<noteq> [] \<Longrightarrow> tree_ok fs0 \<Longrightarrow>
        P (damage n fs0) (Err (IoError OtherKind msg))"
  shows "post (changing damage (\<lambda>fs. and_then (resolve_entry fs p) (\<lambda>q. and_then (found fs q) (\<lambda>n. k fs q n)))) fs P"
proof (rule changing_post, goal_cases)
  case (1 fs0)
  have "and_then (resolve_entry fs0 p) (\<lambda>q. and_then (found fs0 q) (k fs0 q))
      = (case node_at fs p of None \<Rightarrow> Err (io_error NotFound) | Some n \<Rightarrow> k fs0 p n)"
    using entry_found[of fs0 p] assms(1-3) tree_ok_nodes[OF 1(1)] clear_nodes[OF 1(1)] node_at_nodes[OF 1(1)] by simp
  then show ?case
    using missing[OF 1(1)] found[OF 1(1)] 1(2) assms(1) tree_ok_nodes[OF 1(1)]
    by (cases "node_at fs p") (simp_all add: calm_def)
next
  case (2 fs0 n msg)
  then show ?case using fault[OF 2] assms(1) tree_ok_nodes[OF 2(1)] by simp
qed

lemma remove_file_post:
  assumes "tree_ok fs" and "clear fs p" and "p \<noteq> []"
  shows "post (remove_file p) fs (\<lambda>fs' r. tree_ok fs' \<and> calm fs fs' \<and> (case r of
      Ok _ \<Rightarrow> node_at fs p \<noteq> None \<and> node_at fs p \<noteq> Some Folder \<and> node_at fs' = (node_at fs)(p := None)
    | Err e \<Rightarrow> node_at fs' = node_at fs \<and> (lf_faults fs = [] \<longrightarrow> node_at fs p = None \<or> node_at fs p = Some Folder)))"
  unfolding remove_file_def
proof (rule changing_entry_post[OF assms], goal_cases)
  case (1 fs0)
  then show ?case using node_at_nodes[OF 1(1)] by simp
next
  case (2 fs0 n)
  note at = node_at_nodes[OF 2(1)]
  have "tree_ok (delete_where (\<lambda>r. r = p) fs0)" if "n \<noteq> Folder" using tree_ok_delete_leaf[OF 2(3)] that 2(4) at by simp
  then show ?case using 2 at node_at_delete_one[OF assms(3), of fs0] by (cases n) (simp_all add: calm_def)
next
  case (3 fs0 n msg)
  then show ?case using node_at_nodes[OF 3(1)] by (simp add: calm_def)
qed

lemma remove_dir_post:
  assumes "tree_ok fs" and "clear fs p" and "p \<noteq> []"
  shows "post (remove_dir p) fs (\<lambda>fs' r. tree_ok fs' \<and> calm fs fs' \<and> (case r of
      Ok _ \<Rightarrow> node_at fs p = Some Folder \<and> (\<forall>c. node_at fs (p @ [c]) = None) \<and> node_at fs' = (node_at fs)(p := None)
    | Err e \<Rightarrow> node_at fs' = node_at fs))"
  unfolding remove_dir_def
proof (rule changing_entry_post[OF assms], goal_cases)
  case (1 fs0)
  then show ?case using node_at_nodes[OF 1(1)] by simp
next
  case (2 fs0 n)
  note at = node_at_nodes[OF 2(1)]
  show ?case using 2 at node_at_delete_one[OF assms(3), of fs0] no_children[of fs0 p] tree_ok_delete_empty[OF 2(3), of p]
    by (cases n) (simp_all add: calm_def)
next
  case (3 fs0 n msg)
  then show ?case using node_at_nodes[OF 3(1)] by (simp add: calm_def)
qed

text \<open>What may be left of a tree some of which was removed.\<close>

definition shrunk :: "LocalFs \<Rightarrow> LocalFs \<Rightarrow> (path \<Rightarrow> bool) \<Rightarrow> bool" where
  "shrunk fs fs' A \<longleftrightarrow> (\<forall>q. node_at fs' q = node_at fs q \<or> A q \<and> node_at fs' q = None)"

lemma tree_ok_delete_deep:
  assumes "tree_ok fs"
  shows "tree_ok (delete_where (\<lambda>r. is_under p r \<and> length p + n < length r) fs)"
  unfolding tree_ok_def
proof (intro allI impI, elim conjE)
  fix q assume q: "q \<noteq> []" "node_at (delete_where (\<lambda>r. is_under p r \<and> length p + n < length r) fs) q \<noteq> None"
  then have kept: "\<not> (is_under p q \<and> length p + n < length q)" "node_at fs q \<noteq> None" by (auto split: if_splits)
  then have "\<not> (is_under p (butlast q) \<and> length p + n < length (butlast q))"
    using q(1) by (auto simp: is_under_iff) (metis append.assoc append_butlast_last_id)
  moreover have "node_at fs (butlast q) = Some Folder" using assms kept(2) q(1) unfolding tree_ok_def by blast
  ultimately show "node_at (delete_where (\<lambda>r. is_under p r \<and> length p + n < length r) fs) (butlast q) = Some Folder" by auto
qed

lemma tree_ok_delete_under:
  assumes "tree_ok fs" and "p \<noteq> []"
  shows "tree_ok (delete_where (is_under p) fs)"
proof -
  have "\<not> is_under p (butlast q)" if "\<not> is_under p q" "q \<noteq> []" for q
    using that unfolding is_under_iff by (metis append.assoc append_butlast_last_id)
  then show ?thesis using assms(1) unfolding tree_ok_def by auto
qed

lemma remove_dir_all_post:
  assumes "tree_ok fs" and "clear fs p" and "p \<noteq> []"
  shows "post (remove_dir_all p) fs (\<lambda>fs' r. tree_ok fs' \<and> calm fs fs' \<and> shrunk fs fs' (is_under p)
     \<and> (is_ok r \<longrightarrow> node_at fs' p = None))"
  unfolding remove_dir_all_def
proof (rule changing_entry_post[OF assms], goal_cases)
  case (1 fs0)
  then show ?case using node_at_nodes[OF 1(1)] by (simp add: shrunk_def)
next
  case (2 fs0 n)
  note at = node_at_nodes[OF 2(1)]
  have self: "is_under p p" by (simp add: is_under_iff)
  show ?case using 2 at self tree_ok_delete_under[OF 2(3) assms(3)] tree_ok_delete_leaf[OF 2(3), of p] assms(3)
    by (cases n) (auto simp: calm_def shrunk_def)
next
  case (3 fs0 n msg)
  note at = node_at_nodes[OF 3(1)]
  have "resolve_entry fs0 p = Ok p \<or> (\<exists>e. resolve_entry fs0 p = Err e)"
    using resolve_entry_clear[of fs0 p] 3(3) assms clear_nodes[OF 3(1)] by auto
  then show ?case using 3 at tree_ok_delete_deep[OF 3(3), of p n]
    by (auto simp: remove_some_def calm_def shrunk_def split: if_splits)
qed



section \<open>Calls that add\<close>

lemma tree_ok_put:
  assumes "tree_ok fs" and "p \<noteq> []" and "node_at fs (butlast p) = Some Folder" and "n = Folder \<or> node_at fs p \<noteq> Some Folder"
  shows "tree_ok (put_node p n fs)"
  unfolding tree_ok_def
proof (intro allI impI, elim conjE)
  fix q assume q: "q \<noteq> []" "node_at (put_node p n fs) q \<noteq> None"
  have "butlast p \<noteq> p" using assms(2) by (metis append_butlast_last_id not_Cons_self2 self_append_conv)
  then show "node_at (put_node p n fs) (butlast q) = Some Folder"
  proof (cases "q = p")
    case False
    then have folder: "node_at fs (butlast q) = Some Folder" using q assms(1,2) unfolding tree_ok_def by (auto split: if_splits)
    then show ?thesis using assms(2,4) by auto
  qed (use assms in auto)
qed

text \<open>Folders that a call added: only where nothing was, only on the way to a path.\<close>

definition grown :: "LocalFs \<Rightarrow> LocalFs \<Rightarrow> path \<Rightarrow> bool" where
  "grown fs fs' p \<longleftrightarrow> (\<forall>q. node_at fs' q = node_at fs q \<or> node_at fs q = None \<and> node_at fs' q = Some Folder \<and> is_under q p)"

lemma grown_refl [simp]: "grown fs fs p"
  by (simp add: grown_def)

lemma grown_trans: "grown fs fs' p \<Longrightarrow> grown fs' fs'' p \<Longrightarrow> grown fs fs'' p"
  unfolding grown_def by metis

lemma clear_grown: "clear fs p \<Longrightarrow> grown fs fs' q \<Longrightarrow> clear fs' p"
  unfolding clear_def grown_def by metis

lemma make_folders_post:
  assumes "tree_ok fs" and "node_at fs dir = Some Folder" and "clear fs (dir @ cs)"
    and "\<And>t. node_at fs (dir @ cs) \<noteq> Some (SymLink t)" and "make_folders dir cs fs = (fs', r)"
  shows "tree_ok fs' \<and> lf_faults fs' = lf_faults fs \<and> grown fs fs' (dir @ cs)
    \<and> (is_ok r \<longrightarrow> node_at fs' (dir @ cs) = Some Folder)"
  using assms
proof (induction cs arbitrary: dir fs)
  case (Cons c cs)
  have clear1: "clear fs (dir @ [c])" using Cons.prems(3) unfolding clear_def
    by (metis append.assoc append_Cons append_Nil append_is_Nil_conv)
  have entry: "resolve_entry fs (dir @ [c]) = Ok (dir @ [c])"
    using resolve_entry_clear[OF Cons.prems(1) clear1] Cons.prems(2) by simp
  consider (missing) "node_at fs (dir @ [c]) = None" | (folder) "node_at fs (dir @ [c]) = Some Folder"
    | (plain) b t where "node_at fs (dir @ [c]) = Some (RegularFile b t)" "cs = []"
    using Cons.prems(3)[unfolded clear_def, rule_format, of "dir @ [c]" cs] Cons.prems(4)
    by (cases "cs = []"; cases "node_at fs (dir @ [c])"; cases "the (node_at fs (dir @ [c]))") auto
  then show ?case
  proof cases
    case missing
    let ?fs = "put_node (dir @ [c]) Folder fs"
    have ok: "tree_ok ?fs" using tree_ok_put[OF Cons.prems(1), of "dir @ [c]" Folder] Cons.prems(2) by simp
    have grown: "grown fs ?fs ((dir @ [c]) @ cs)" using missing by (auto simp: grown_def is_under_iff)
    have run: "make_folders (dir @ [c]) cs ?fs = (fs', r)" using Cons.prems(5) entry missing by simp
    have "node_at ?fs ((dir @ [c]) @ cs) \<noteq> Some (SymLink t)" for t using Cons.prems(4)[of t] by simp
    then have "tree_ok fs' \<and> lf_faults fs' = lf_faults ?fs \<and> grown ?fs fs' ((dir @ [c]) @ cs)
        \<and> (is_ok r \<longrightarrow> node_at fs' ((dir @ [c]) @ cs) = Some Folder)"
      using clear_grown[OF _ grown] Cons.prems(3) by (intro Cons.IH[OF ok _ _ _ run]) auto
    then show ?thesis using grown_trans[OF grown] by simp
  next
    case folder
    have run: "make_folders (dir @ [c]) cs fs = (fs', r)" using Cons.prems(5) entry folder by simp
    show ?thesis using Cons.IH[OF Cons.prems(1) folder _ _ run] Cons.prems(3,4) by simp
  next
    case plain
    then show ?thesis using Cons.prems entry by auto
  qed
qed simp

lemma create_dir_all_post:
  assumes "tree_ok fs" and "clear fs p" and "\<And>t. node_at fs p \<noteq> Some (SymLink t)"
  shows "post (create_dir_all p) fs (\<lambda>fs' r. tree_ok fs' \<and> calm fs fs' \<and> grown fs fs' p
     \<and> (is_ok r \<longrightarrow> node_at fs' p = Some Folder))"
proof (rule postI)
  fix fs' and r :: "(unit, IoError) result"
  assume run: "create_dir_all p fs = (fs', r)"
  have made: "tree_ok fs2 \<and> lf_faults fs2 = lf_faults fs1 \<and> grown fs fs2 p \<and> (q = p \<and> is_ok r2 \<longrightarrow> node_at fs2 p = Some Folder)"
    if make: "make_folders [] q fs1 = (fs2, r2)" and nodes: "lf_nodes fs1 = lf_nodes fs" and q: "p = q @ q'" for fs1 fs2 r2 q q'
  proof -
    note at = node_at_nodes[OF nodes]
    have clear: "clear fs1 q" using assms(2) q clear_nodes[OF nodes] unfolding clear_def by (metis append.assoc append_is_Nil_conv)
    have "node_at fs1 q \<noteq> Some (SymLink t)" for t
      using assms(2) assms(3)[of t] q at unfolding clear_def by (cases "q' = []") auto
    then have "tree_ok fs2 \<and> lf_faults fs2 = lf_faults fs1 \<and> grown fs1 fs2 ([] @ q) \<and> (is_ok r2 \<longrightarrow> node_at fs2 ([] @ q) = Some Folder)"
      using clear assms(1) tree_ok_nodes[OF nodes] make by (intro make_folders_post) auto
    moreover have "grown fs fs2 p" if "grown fs1 fs2 q"
      using that at unfolding grown_def is_under_iff q by (metis append.assoc)
    ultimately show ?thesis by auto
  qed
  show "tree_ok fs' \<and> calm fs fs' \<and> grown fs fs' p \<and> (is_ok r \<longrightarrow> node_at fs' p = Some Folder)"
  proof (cases "lf_faults fs")
    case Nil
    then show ?thesis using made[where q = p and ?fs1.0 = fs and ?fs2.0 = fs' and ?r2.0 = r and q' = "[]"] run by (auto simp: create_dir_all_def with_local_fault_def calm_def)
  next
    case (Cons x rest)
    then show ?thesis
    proof (cases x)
      case None
      then show ?thesis using made[where q = p and ?fs1.0 = "fs\<lparr>lf_faults := rest\<rparr>" and ?fs2.0 = fs' and ?r2.0 = r and q' = "[]"] run Cons
        by (auto simp: create_dir_all_def with_local_fault_def calm_def)
    next
      case (Some f)
      obtain fs2 r2 where made2: "make_folders [] (take (fault_written f) p) (fs\<lparr>lf_faults := rest\<rparr>) = (fs2, r2)"
        by (cases "make_folders [] (take (fault_written f) p) (fs\<lparr>lf_faults := rest\<rparr>)")
      then have "fs' = fs2" "\<not> is_ok r" using run Cons Some by (auto simp: create_dir_all_def with_local_fault_def)
      then show ?thesis using made[OF made2, where q' = "drop (fault_written f) p"] Cons by (auto simp: calm_def)
    qed
  qed
qed


lemma writable_clear:
  assumes "tree_ok fs" and "clear fs p" and "p \<noteq> []" and "\<And>t. node_at fs p \<noteq> Some (SymLink t)"
  shows "writable fs p = (if node_at fs (butlast p) \<noteq> Some Folder then Err (io_error NotFound)
    else if node_at fs p = Some Folder then Err (IoError OtherKind ''is a directory'') else Ok p)"
  using resolve_clear[OF assms(1,2,4)] assms(3,4)
  by (auto simp: writable_def split: option.splits Node.splits)

lemma tree_ok_write:
  assumes "tree_ok fs" and "node_at fs p \<noteq> Some Folder" and "p \<noteq> []" and "node_at fs (butlast p) = Some Folder"
  shows "tree_ok (write_bytes p b fs)"
  using tree_ok_put[OF assms(1,3,4)] assms(2) by (simp add: write_bytes_def)

lemma write_file_post:
  assumes "tree_ok fs" and "clear fs p" and "p \<noteq> []" and "\<And>t. node_at fs p \<noteq> Some (SymLink t)"
  shows "post (write_file p b) fs (\<lambda>fs' r. tree_ok fs' \<and> calm fs fs' \<and> (\<forall>q. q \<noteq> p \<longrightarrow> node_at fs' q = node_at fs q)
     \<and> (node_at fs' p = node_at fs p \<or> (\<exists>b t. node_at fs' p = Some (RegularFile b t)))
     \<and> (is_ok r \<longrightarrow> (\<exists>t. node_at fs' p = Some (RegularFile b t))))"
  unfolding write_file_def
proof (rule changing_post, goal_cases)
  case (1 fs0)
  note at = node_at_nodes[OF 1(1)]
  have ok: "tree_ok fs0" "clear fs0 p" using assms tree_ok_nodes[OF 1(1)] clear_nodes[OF 1(1)] by simp_all
  have w: "writable fs0 p = (if node_at fs0 (butlast p) \<noteq> Some Folder then Err (io_error NotFound)
    else if node_at fs0 p = Some Folder then Err (IoError OtherKind ''is a directory'') else Ok p)"
    using writable_clear[OF ok assms(3)] assms(4) at by simp
  show ?case using w tree_ok_write[OF ok(1), of p b] assms(3) at 1(2) ok by (auto simp: calm_def)
next
  case (2 fs0 n msg)
  note at = node_at_nodes[OF 2(1)]
  have ok: "tree_ok fs0" "clear fs0 p" using assms tree_ok_nodes[OF 2(1)] clear_nodes[OF 2(1)] by simp_all
  have w: "writable fs0 p = (if node_at fs0 (butlast p) \<noteq> Some Folder then Err (io_error NotFound)
    else if node_at fs0 p = Some Folder then Err (IoError OtherKind ''is a directory'') else Ok p)"
    using writable_clear[OF ok assms(3)] assms(4) at by simp
  show ?case using w tree_ok_write[OF ok(1), of p "take n b"] assms(3) at 2(2) ok by (auto simp: calm_def)
qed

lemma read_file_post: "post (read_file p) fs (\<lambda>fs' r. lf_nodes fs' = lf_nodes fs \<and> calm fs fs')"
  unfolding read_file_def by (rule post_mono[OF looking_post]) (auto simp: calm_def)

lemma try_exists_post: "post (try_exists p) fs (\<lambda>fs' r. lf_nodes fs' = lf_nodes fs \<and> calm fs fs')"
  unfolding try_exists_def by (rule post_mono[OF looking_post]) (auto simp: calm_def)

lemma sync_file_post: "post (sync_file p) fs (\<lambda>fs' r. lf_nodes fs' = lf_nodes fs \<and> calm fs fs')"
  unfolding sync_file_def by (rule post_mono[OF looking_post]) (auto simp: calm_def)

lemma free_name_free: "free_name fs d prefix ns = Some (n, rest) \<Longrightarrow> node_at fs (d @ [n]) = None \<and> (\<exists>m. n = prefix @ m)"
  by (induction ns) (auto split: if_splits)

lemma folder_case_Ok [simp]:
  "(case n of Folder \<Rightarrow> Ok d | _ \<Rightarrow> Err e) = Ok d' \<longleftrightarrow> n = Folder \<and> d' = d"
  by (cases n) auto

lemma temporary_file_post:
  assumes "tree_ok fs" and "clear fs d" and "\<And>t. node_at fs d \<noteq> Some (SymLink t)"
  shows "post (temporary_file_in d prefix) fs (\<lambda>fs' r. tree_ok fs' \<and> calm fs fs' \<and> (case r of
      Ok t \<Rightarrow> node_at fs d = Some Folder \<and> (\<exists>n. t = d @ [prefix @ n]) \<and> node_at fs t = None
        \<and> (\<exists>x. node_at fs' = (node_at fs)(t \<mapsto> RegularFile [] x))
    | Err _ \<Rightarrow> node_at fs' = node_at fs))"
proof -
  have made: "tree_ok (write_bytes (d @ [n]) [] (fs0\<lparr>lf_names := rest\<rparr>)) \<and> node_at fs d = Some Folder \<and> (\<exists>m. n = prefix @ m)
      \<and> node_at fs (d @ [n]) = None \<and> (\<exists>x. node_at (write_bytes (d @ [n]) [] (fs0\<lparr>lf_names := rest\<rparr>)) = (node_at fs)(d @ [n] \<mapsto> RegularFile [] x))"
    if nodes: "lf_nodes fs0 = lf_nodes fs" and folder: "node_at fs d = Some Folder"
      and free: "free_name fs0 d prefix (lf_names fs0) = Some (n, rest)" for fs0 n rest
  proof -
    note at = node_at_nodes[OF nodes]
    have none: "node_at fs0 (d @ [n]) = None" "\<exists>m. n = prefix @ m" using free_name_free[OF free] by auto
    have ok: "tree_ok (fs0\<lparr>lf_names := rest\<rparr>)" using assms(1) tree_ok_nodes[of "fs0\<lparr>lf_names := rest\<rparr>" fs] nodes by simp
    have "tree_ok (write_bytes (d @ [n]) [] (fs0\<lparr>lf_names := rest\<rparr>))"
      unfolding write_bytes_def using folder none at by (intro tree_ok_put[OF ok]) simp_all
    then show ?thesis using folder none at by (auto simp: fun_eq_iff)
  qed
  have found: "and_then (resolve fs0 d) (\<lambda>d. and_then (found fs0 d) (\<lambda>n. case n of Folder \<Rightarrow> Ok d | _ \<Rightarrow> Err (io_error NotADirectory))) = Ok d'
      \<Longrightarrow> d' = d \<and> node_at fs d = Some Folder" if nodes: "lf_nodes fs0 = lf_nodes fs" for fs0 d'
    using resolve_clear[of fs0 d] assms tree_ok_nodes[OF nodes] clear_nodes[OF nodes] node_at_nodes[OF nodes]
    by (auto simp: found_def split: if_splits)
  have run: "post (\<lambda>fs. case and_then (resolve fs d) (\<lambda>d. and_then (found fs d) (\<lambda>n. case n of
         Folder \<Rightarrow> Ok d | _ \<Rightarrow> Err (io_error NotADirectory))) of
       Err e \<Rightarrow> (fs, Err e)
     | Ok d' \<Rightarrow> (case free_name fs d' prefix (lf_names fs) of
         None \<Rightarrow> (fs, Err (IoError AlreadyExists ''too many temporary files exist''))
       | Some (n, rest) \<Rightarrow> (write_bytes (d' @ [n]) [] (fs\<lparr>lf_names := rest\<rparr>), Ok (d @ [n])))) fs0
    (\<lambda>fs' r. tree_ok fs' \<and> lf_faults fs' = lf_faults fs0 \<and> (case r of
      Ok t \<Rightarrow> node_at fs d = Some Folder \<and> (\<exists>n. t = d @ [prefix @ n]) \<and> node_at fs t = None
        \<and> (\<exists>x. node_at fs' = (node_at fs)(t \<mapsto> RegularFile [] x))
    | Err _ \<Rightarrow> node_at fs' = node_at fs))" if nodes: "lf_nodes fs0 = lf_nodes fs" for fs0
    using found[OF nodes] made[OF nodes] node_at_nodes[OF nodes] tree_ok_nodes[OF nodes] assms(1)
    unfolding post_def by (auto split: result.splits option.splits)
  show ?thesis
  proof (cases "lf_faults fs")
    case Nil
    then show ?thesis using run[of fs] by (auto simp: temporary_file_in_def with_local_fault_def post_def calm_def split: result.splits)
  next
    case (Cons x rest)
    show ?thesis using run[of "fs\<lparr>lf_faults := rest\<rparr>"] Cons tree_ok_nodes[of "fs\<lparr>lf_faults := rest\<rparr>" fs] assms(1)
      by (cases x) (auto simp: temporary_file_in_def with_local_fault_def post_def calm_def split: result.splits)
  qed
qed

lemma rename_file_post:
  assumes "tree_ok fs" and "node_at fs src = Some (RegularFile b t)" and "clear fs dst" and "dst \<noteq> []" and "src \<noteq> dst"
  shows "post (rename_file src dst) fs (\<lambda>fs' r. tree_ok fs' \<and> calm fs fs' \<and> (case r of
      Ok _ \<Rightarrow> node_at fs' = (node_at fs)(src := None, dst \<mapsto> RegularFile b t)
    | Err _ \<Rightarrow> node_at fs' = node_at fs))"
proof -
  have src: "src \<noteq> []" "clear fs src" using assms(2) tree_ok_clear[OF assms(1), of src] by auto
  show ?thesis
    unfolding rename_file_def
  proof (rule changing_entry_post[OF assms(1) src(2,1)], goal_cases)
    case (1 fs0)
    then show ?case using node_at_nodes[OF 1(1)] by simp
  next
    case (2 fs0 n)
    note at = node_at_nodes[OF 2(1)]
    have n: "n = RegularFile b t" using 2(4) assms(2) by simp
    let ?fs = "delete_where (\<lambda>r. r = src) fs0"
    have dst: "resolve_entry fs0 dst = (if node_at fs0 (butlast dst) = Some Folder then Ok dst else Err (io_error NotFound))"
      using resolve_entry_clear[OF 2(3)] assms(3,4) clear_nodes[OF 2(1)] by simp
    have ok: "tree_ok ?fs" using tree_ok_delete_leaf[OF 2(3), of src] assms(2) at by simp
    have "tree_ok (put_node dst n ?fs)" if "node_at fs0 (butlast dst) = Some Folder" "node_at fs0 dst \<noteq> Some Folder"
      using that assms(2,4,5) at by (intro tree_ok_put[OF ok]) auto
    then show ?case using dst 2(2,3) n at assms(4) src(1)
      by (auto simp: calm_def fun_eq_iff split: option.splits Node.splits)
  next
    case (3 fs0 n msg)
    then show ?case using node_at_nodes[OF 3(1)] by (simp add: calm_def)
  qed
qed

end
