(* ===== verification/Local_Apply.thy ===== *)
theory Local_Apply
  imports Local_Facts Reconcile_Facts
begin

text \<open>
  The steps of \<^verbatim>\<open>apply_pulled_manifest\<close> at clear paths: what each leaves of the tree,
  whatever fails in the middle of it.
\<close>

section \<open>Rules for sequences\<close>

lemma post_thenI:
  "post m s Q \<Longrightarrow> (\<And>s' a. Q s' (Ok a) \<Longrightarrow> post (k a) s' P) \<Longrightarrow> (\<And>s' e. Q s' (Err e) \<Longrightarrow> P s' (Err e)) \<Longrightarrow>
     post (then_do m k) s P"
  by (auto simp: post_then elim!: post_mono split: result.splits)

lemma post_matchI: "post m s Q \<Longrightarrow> (\<And>s' r. Q s' r \<Longrightarrow> post (k r) s' P) \<Longrightarrow> post (match_do m k) s P"
  by (auto simp: post_match elim!: post_mono)

lemma post_mapI: "post m s Q \<Longrightarrow> (\<And>s' a. Q s' (Ok a) \<Longrightarrow> P s' (Ok a)) \<Longrightarrow> (\<And>s' e. Q s' (Err e) \<Longrightarrow> P s' (Err (f e))) \<Longrightarrow>
     post (map_error m f) s P"
  unfolding post_map_error by (erule post_mono) (metis map_err.simps result.exhaust)

text \<open>A loop keeps an invariant over what is done, what is left and what it carries, and leaves a
  weaker one where it stops.\<close>

lemma fold_do_post:
  fixes f :: "'x \<Rightarrow> 'a \<Rightarrow> ('s, 'a, 'e) action"
  assumes step: "\<And>past x rest a s. xs = past @ x # rest \<Longrightarrow> J past (x # rest) a s \<Longrightarrow>
      post (f x a) s (\<lambda>s' r. case r of Ok b \<Rightarrow> J (past @ [x]) rest b s' | Err _ \<Rightarrow> W s')"
    and "J [] xs a s"
  shows "post (fold_do f xs a) s (\<lambda>s' r. case r of Ok b \<Rightarrow> J xs [] b s' | Err _ \<Rightarrow> W s')"
proof -
  have "post (fold_do f rest a) s (\<lambda>s' r. case r of Ok b \<Rightarrow> J xs [] b s' | Err _ \<Rightarrow> W s')"
    if "xs = past @ rest" "J past rest a s" for past rest a s
    using that
  proof (induction rest arbitrary: past a s)
    case (Cons x rest)
    show ?case unfolding fold_do.simps
    proof (rule post_thenI[OF step[OF Cons.prems]])
      fix s' b assume *: "case Ok b of Ok b \<Rightarrow> J (past @ [x]) rest b s' | Err _ \<Rightarrow> W s'"
      show "post (fold_do f rest b) s' (\<lambda>s' r. case r of Ok b \<Rightarrow> J xs [] b s' | Err _ \<Rightarrow> W s')"
        using * Cons.prems(1) by (intro Cons.IH[of "past @ [x]"]) auto
    qed auto
  qed (simp add: post_done)
  from this[of "[]" xs a s] show ?thesis using assms(2) by simp
qed


section \<open>Replacing a file\<close>

definition temporary_name :: "path \<Rightarrow> path \<Rightarrow> bool" where
  "temporary_name p q \<longleftrightarrow> (\<exists>n. q = butlast p @ [''.rustsync-tmp-'' @ n])"

text \<open>What a step towards the file at a path may have changed so far: the path and what lies below
  it, missing folders above it, and a temporary file beside it.\<close>

definition replacing :: "LocalFs \<Rightarrow> path \<Rightarrow> LocalFs \<Rightarrow> bool" where
  "replacing fs p fs' \<longleftrightarrow> tree_ok fs' \<and> (\<forall>q. node_at fs' q = node_at fs q \<or> is_under p q
     \<or> node_at fs q = None \<and> node_at fs' q = Some Folder \<and> is_under q p
     \<or> node_at fs q = None \<and> temporary_name p q)"

lemma replacing_refl: "tree_ok fs' \<Longrightarrow> node_at fs' = node_at fs \<Longrightarrow> replacing fs p fs'"
  by (simp add: replacing_def)

lemma replacing_same: "replacing fs p fs1 \<Longrightarrow> node_at fs2 = node_at fs1 \<Longrightarrow> tree_ok fs2 \<Longrightarrow> replacing fs p fs2"
  by (simp add: replacing_def)

lemma replacing_at:
  assumes "replacing fs p fs1" and "tree_ok fs2"
    and "\<And>q. node_at fs2 q \<noteq> node_at fs1 q \<Longrightarrow> is_under p q \<or> node_at fs q = None \<and> temporary_name p q"
  shows "replacing fs p fs2"
  unfolding replacing_def
proof (intro conjI allI assms(2))
  fix q
  show "node_at fs2 q = node_at fs q \<or> is_under p q
     \<or> node_at fs q = None \<and> node_at fs2 q = Some Folder \<and> is_under q p
     \<or> node_at fs q = None \<and> temporary_name p q"
    using assms(1) assms(3)[of q] unfolding replacing_def by (cases "node_at fs2 q = node_at fs1 q") auto
qed

lemma is_under_refl [simp]: "is_under p p"
  by (simp add: is_under_def)

lemma longer_not_under: "length p < length q \<Longrightarrow> \<not> is_under q p"
  by (auto simp: is_under_iff)

lemma is_under_trans: "is_under p q \<Longrightarrow> is_under q r \<Longrightarrow> is_under p r"
  by (auto simp: is_under_iff)

lemma is_under_butlast: "is_under q (butlast p) \<Longrightarrow> is_under q p"
  by (cases "p = []") (auto simp: is_under_iff, metis append.assoc append_butlast_last_id)

lemma replacing_grown:
  "tree_ok fs' \<Longrightarrow> grown fs fs' (butlast p) \<Longrightarrow> replacing fs p fs'"
  unfolding replacing_def grown_def using is_under_butlast by metis

lemma temporary_length: "temporary_name p q \<Longrightarrow> p \<noteq> [] \<Longrightarrow> length q = length p"
  by (auto simp: temporary_name_def)

lemma temporary_not_under:
  assumes "temporary_name p q" and "\<not> temporary_name p p" and "p \<noteq> []"
  shows "\<not> is_under p q" "\<not> is_under q p" "q \<noteq> p"
proof -
  show "q \<noteq> p" using assms(1,2) by auto
  then show "\<not> is_under p q" "\<not> is_under q p" using temporary_length[OF assms(1,3)] by (auto simp: is_under_iff)
qed

text \<open>The temporary file exists, nothing else beside the path has changed, and the path holds what it
  held, or nothing if that was a folder.\<close>

definition still_there :: "LocalFs \<Rightarrow> path \<Rightarrow> LocalFs \<Rightarrow> bool" where
  "still_there fs p fs' \<longleftrightarrow> node_at fs' p = node_at fs p \<or> node_at fs p = Some Folder \<and> node_at fs' p = None"

definition drafted :: "LocalFs \<Rightarrow> path \<Rightarrow> path \<Rightarrow> LocalFs \<Rightarrow> bool" where
  "drafted fs p t fs' \<longleftrightarrow> replacing fs p fs' \<and> temporary_name p t \<and> node_at fs t = None
     \<and> (\<exists>b x. node_at fs' t = Some (RegularFile b x)) \<and> still_there fs p fs'
     \<and> (\<forall>q. temporary_name p q \<and> q \<noteq> t \<longrightarrow> node_at fs' q = node_at fs q)"

lemma drafted_step:
  assumes d: "drafted fs p t fs1" and "tree_ok fs2"
    and change: "\<And>q. node_at fs2 q \<noteq> node_at fs1 q \<Longrightarrow> is_under p q \<or> q = t"
    and "\<exists>b x. node_at fs2 t = Some (RegularFile b x)" and "still_there fs p fs2"
    and p: "\<not> temporary_name p p" "p \<noteq> []"
  shows "drafted fs p t fs2"
proof -
  have t: "temporary_name p t" "node_at fs t = None" and r: "replacing fs p fs1" using d by (auto simp: drafted_def)
  have "replacing fs p fs2"
    by (rule replacing_at[OF r assms(2)]) (use change t in blast)
  moreover have "node_at fs2 q = node_at fs q" if q: "temporary_name p q" "q \<noteq> t" for q
  proof -
    have "node_at fs2 q = node_at fs1 q" using change[of q] q(2) temporary_not_under(1)[OF q(1) p] by blast
    then show ?thesis using d q by (simp add: drafted_def)
  qed
  ultimately show ?thesis using t assms(4,5) by (simp add: drafted_def)
qed

text \<open>What a failed step leaves: the temporary file may still be there.\<close>

definition abandoned :: "LocalFs \<Rightarrow> path \<Rightarrow> LocalFs \<Rightarrow> bool" where
  "abandoned fs p fs' \<longleftrightarrow> replacing fs p fs' \<and> still_there fs p fs'"

lemma or_drop_post:
  assumes run: "post m fs1 Q" and p: "\<not> temporary_name p p" "p \<noteq> []"
    and ok: "\<And>fs' a. Q fs' (Ok a) \<Longrightarrow> P fs' (Ok a)"
    and err: "\<And>fs' e. Q fs' (Err e) \<Longrightarrow> drafted fs p t fs'"
    and abandon: "\<And>fs' e. abandoned fs p fs' \<Longrightarrow> P fs' (Err e)"
  shows "post (or_drop t m) fs1 P"
  unfolding or_drop_def
proof (rule post_matchI[OF run])
  fix fs' and r :: "('a, IoError) result"
  assume Q: "Q fs' r"
  show "post (case r of Ok a \<Rightarrow> done_with a | Err e \<Rightarrow> match_do (remove_file t) (\<lambda>_. fail_with (LocalIo e))) fs' P"
  proof (cases r)
    case (Ok a)
    then show ?thesis using Q ok by (simp add: post_done)
  next
    case (Err e)
    have d: "drafted fs p t fs'" using err Q Err by simp
    then have t: "temporary_name p t" "node_at fs t = None" "replacing fs p fs'" "node_at fs' t \<noteq> None" "still_there fs p fs'"
      by (auto simp: drafted_def)
    have tree: "tree_ok fs'" "clear fs' t" "t \<noteq> []"
      using t tree_ok_clear[of fs' t] temporary_length[OF t(1) p(2)] p(2) by (auto simp: replacing_def)
    have tp: "t \<noteq> p" using temporary_not_under(3)[OF t(1) p] .
    have left: "abandoned fs p fs''"
      if "tree_ok fs''" "node_at fs'' = node_at fs' \<or> node_at fs'' = (node_at fs')(t := None)" for fs''
    proof -
      have "replacing fs p fs''"
        by (rule replacing_at[OF t(3) that(1)]) (use that(2) t in \<open>auto split: if_splits\<close>)
      then show ?thesis using that(2) t(5) tp by (auto simp: abandoned_def still_there_def)
    qed
    show ?thesis unfolding Err result.case
    proof (rule post_matchI[OF remove_file_post[OF tree]])
      fix fs'' and r' :: "(unit, IoError) result"
      assume "tree_ok fs'' \<and> calm fs' fs'' \<and> (case r' of
          Ok _ \<Rightarrow> node_at fs' t \<noteq> None \<and> node_at fs' t \<noteq> Some Folder \<and> node_at fs'' = (node_at fs')(t := None)
        | Err e \<Rightarrow> node_at fs'' = node_at fs' \<and> (lf_faults fs' = [] \<longrightarrow> node_at fs' t = None \<or> node_at fs' t = Some Folder))"
      then have "abandoned fs p fs''" by (intro left) (auto split: result.splits)
      then show "post (fail_with (LocalIo e)) fs'' P" using abandon by (simp add: post_fail)
    qed
  qed
qed

lemma drafted_at:
  assumes "drafted fs p t fs'" and "p \<noteq> []"
  shows "tree_ok fs'" "clear fs' t" "t \<noteq> []" "node_at fs' t \<noteq> Some (SymLink l)" "node_at fs' t \<noteq> Some Folder"
  using assms tree_ok_clear[of fs' t] temporary_length[of p t] by (auto simp: drafted_def replacing_def)

text \<open>The way to the path stays clear.\<close>

lemma clear_replacing:
  assumes "clear fs p" and "replacing fs p fs'" and p: "\<not> temporary_name p p" "p \<noteq> []"
  shows "clear fs' p"
  unfolding clear_def
proof (intro allI impI, elim conjE)
  fix q r assume q: "p = q @ r" "r \<noteq> []"
  have old: "node_at fs q = None \<or> node_at fs q = Some Folder" using assms(1) q unfolding clear_def by blast
  have up: "is_under q p" using q by (auto simp: is_under_iff)
  have "\<not> is_under p q" using q by (auto simp: is_under_iff)
  moreover have "\<not> temporary_name p q" using temporary_not_under(2)[of p q] p up by blast
  ultimately show "node_at fs' q = None \<or> node_at fs' q = Some Folder"
    using assms(2) old unfolding replacing_def by metis
qed

text \<open>Before the temporary file: only folders were made.\<close>

definition prepared :: "LocalFs \<Rightarrow> path \<Rightarrow> LocalFs \<Rightarrow> bool" where
  "prepared fs p fs' \<longleftrightarrow> replacing fs p fs' \<and> node_at fs' p = node_at fs p
     \<and> (\<forall>q. temporary_name p q \<longrightarrow> node_at fs' q = node_at fs q)"

lemma prepared_abandoned: "prepared fs p fs' \<Longrightarrow> abandoned fs p fs'"
  by (simp add: prepared_def abandoned_def still_there_def)

lemma make_parent_post:
  assumes "tree_ok fs0" and "node_at fs0 = node_at fs" and "clear fs p" and p: "p \<noteq> []"
  shows "post (create_dir_all (butlast p)) fs0 (\<lambda>fs' r. prepared fs p fs')"
proof (rule post_mono[OF create_dir_all_post[OF assms(1)]])
  show "clear fs0 (butlast p)" using clear_butlast[OF assms(3)] assms(2) by (simp add: clear_def)
  show "node_at fs0 (butlast p) \<noteq> Some (SymLink l)" for l using clear_parent[OF assms(3) p] assms(2) by auto
  fix fs' and r :: "(unit, IoError) result"
  assume r: "tree_ok fs' \<and> calm fs0 fs' \<and> grown fs0 fs' (butlast p) \<and> (is_ok r \<longrightarrow> node_at fs' (butlast p) = Some Folder)"
  then have g: "grown fs fs' (butlast p)" using assms(2) by (simp add: grown_def)
  have deep: "node_at fs' q = node_at fs q" if "length q = length p" for q
  proof -
    have "\<not> is_under q (butlast p)" using longer_not_under[of "butlast p" q] that p by simp
    then show ?thesis using g unfolding grown_def by metis
  qed
  show "prepared fs p fs'" unfolding prepared_def
    using replacing_grown[OF _ g] r deep temporary_length[OF _ p] by simp
qed

lemma draft_post:
  assumes prep: "prepared fs p fs1" and "clear fs p" and p: "\<not> temporary_name p p" "p \<noteq> []"
  shows "post (temporary_file_in (butlast p) ''.rustsync-tmp-'') fs1 (\<lambda>fs2 r. case r of
     Ok t \<Rightarrow> drafted fs p t fs2 | Err _ \<Rightarrow> abandoned fs p fs2)"
proof (rule post_mono[OF temporary_file_post])
  have r: "replacing fs p fs1" using prep by (simp add: prepared_def)
  have c: "clear fs1 p" by (rule clear_replacing[OF assms(2) r p])
  show tree: "tree_ok fs1" using r by (simp add: replacing_def)
  show "clear fs1 (butlast p)" by (rule clear_butlast[OF c])
  show "node_at fs1 (butlast p) \<noteq> Some (SymLink l)" for l using clear_parent[OF c p(2)] by auto
  fix fs2 and res :: "(path, IoError) result"
  assume made: "tree_ok fs2 \<and> calm fs1 fs2 \<and> (case res of
      Ok t \<Rightarrow> node_at fs1 (butlast p) = Some Folder \<and> (\<exists>n. t = butlast p @ [''.rustsync-tmp-'' @ n]) \<and> node_at fs1 t = None
        \<and> (\<exists>x. node_at fs2 = (node_at fs1)(t \<mapsto> RegularFile [] x))
    | Err _ \<Rightarrow> node_at fs2 = node_at fs1)"
  show "case res of Ok t \<Rightarrow> drafted fs p t fs2 | Err _ \<Rightarrow> abandoned fs p fs2"
  proof (cases res)
    case (Err e)
    then have "prepared fs p fs2" using prep made replacing_same[OF r, of fs2] by (simp add: prepared_def)
    then show ?thesis using Err prepared_abandoned by simp
  next
    case (Ok t)
    obtain x where t: "temporary_name p t" "node_at fs1 t = None" and nodes: "node_at fs2 = (node_at fs1)(t \<mapsto> RegularFile [] x)"
      using made Ok by (auto simp: temporary_name_def)
    have none: "node_at fs t = None" using prep t by (simp add: prepared_def)
    have "replacing fs p fs2"
      by (rule replacing_at[OF r]) (use made nodes t none in \<open>auto split: if_splits\<close>)
    then show ?thesis using Ok t none nodes prep temporary_not_under(3)[OF t(1) p]
      by (auto simp: drafted_def still_there_def prepared_def)
  qed
qed

definition complete :: "LocalFs \<Rightarrow> path \<Rightarrow> path \<Rightarrow> bytes \<Rightarrow> LocalFs \<Rightarrow> bool" where
  "complete fs p t bs fs' \<longleftrightarrow> drafted fs p t fs' \<and> (\<exists>x. node_at fs' t = Some (RegularFile bs x))"

lemma write_draft_post:
  assumes d: "drafted fs p t fs1" and p: "\<not> temporary_name p p" "p \<noteq> []"
  shows "post (or_drop t (write_file t bs)) fs1 (\<lambda>fs2 r. case r of
     Ok _ \<Rightarrow> complete fs p t bs fs2 | Err _ \<Rightarrow> abandoned fs p fs2)"
proof (rule or_drop_post[OF _ p, where t = t])
  note t = drafted_at[OF d p(2)]
  show "post (write_file t bs) fs1 (\<lambda>fs2 r. drafted fs p t fs2 \<and> (is_ok r \<longrightarrow> complete fs p t bs fs2))"
  proof (rule post_mono[OF write_file_post[OF t(1-3)]])
    show "node_at fs1 t \<noteq> Some (SymLink l)" for l by (rule t(4))
    fix fs2 and r :: "(unit, IoError) result"
    assume w: "tree_ok fs2 \<and> calm fs1 fs2 \<and> (\<forall>q. q \<noteq> t \<longrightarrow> node_at fs2 q = node_at fs1 q)
     \<and> (node_at fs2 t = node_at fs1 t \<or> (\<exists>b x. node_at fs2 t = Some (RegularFile b x)))
     \<and> (is_ok r \<longrightarrow> (\<exists>x. node_at fs2 t = Some (RegularFile bs x)))"
    have "t \<noteq> p" using d temporary_not_under(3)[OF _ p] by (auto simp: drafted_def)
    then have "still_there fs p fs2" using w d by (auto simp: drafted_def still_there_def)
    moreover have "\<exists>b x. node_at fs2 t = Some (RegularFile b x)" using w d by (auto simp: drafted_def)
    ultimately have "drafted fs p t fs2" using w by (intro drafted_step[OF d _ _ _ _ p]) auto
    then show "drafted fs p t fs2 \<and> (is_ok r \<longrightarrow> complete fs p t bs fs2)" using w by (simp add: complete_def)
  qed
qed auto

lemma sync_draft_post:
  assumes c: "complete fs p t bs fs1" and p: "\<not> temporary_name p p" "p \<noteq> []"
  shows "post (or_drop t (sync_file t)) fs1 (\<lambda>fs2 r. case r of
     Ok _ \<Rightarrow> complete fs p t bs fs2 | Err _ \<Rightarrow> abandoned fs p fs2)"
proof (rule or_drop_post[OF _ p, where t = t])
  have d: "drafted fs p t fs1" using c by (simp add: complete_def)
  show "post (sync_file t) fs1 (\<lambda>fs2 r. complete fs p t bs fs2)"
  proof (rule post_mono[OF sync_file_post])
    fix fs2 and r :: "(unit, IoError) result"
    assume s: "lf_nodes fs2 = lf_nodes fs1 \<and> calm fs1 fs2"
    then have nodes: "node_at fs2 = node_at fs1" and "tree_ok fs2 = tree_ok fs1" using node_at_nodes tree_ok_nodes by blast+
    then have "replacing fs p fs2" using d by (simp add: drafted_def replacing_def)
    then show "complete fs p t bs fs2" using c nodes by (simp add: complete_def drafted_def still_there_def)
  qed
qed (auto simp: complete_def)

lemma clear_target_post:
  assumes c: "complete fs p t bs fs1" and "clear fs p" and folder: "node_at fs p = Some Folder"
    and p: "\<not> temporary_name p p" "p \<noteq> []"
  shows "post (or_drop t (remove_dir_all p)) fs1 (\<lambda>fs2 r. case r of
     Ok _ \<Rightarrow> complete fs p t bs fs2 | Err _ \<Rightarrow> abandoned fs p fs2)"
proof (rule or_drop_post[OF _ p, where t = t])
  have d: "drafted fs p t fs1" and r: "replacing fs p fs1" using c by (auto simp: complete_def drafted_def)
  have clear: "clear fs1 p" by (rule clear_replacing[OF assms(2) r p])
  show "post (remove_dir_all p) fs1 (\<lambda>fs2 r. complete fs p t bs fs2)"
  proof (rule post_mono[OF remove_dir_all_post[OF drafted_at(1)[OF d p(2)] clear p(2)]])
    fix fs2 and res :: "(unit, IoError) result"
    assume s: "tree_ok fs2 \<and> calm fs1 fs2 \<and> shrunk fs1 fs2 (is_under p) \<and> (is_ok res \<longrightarrow> node_at fs2 p = None)"
    have t: "temporary_name p t" using d by (simp add: drafted_def)
    have tt: "node_at fs2 t = node_at fs1 t" using s temporary_not_under(1)[OF t p] unfolding shrunk_def by blast
    have there: "still_there fs p fs2"
      using s d folder unfolding still_there_def drafted_def shrunk_def by metis
    have "drafted fs p t fs2"
      by (rule drafted_step[OF d _ _ _ there p]) (use s tt d in \<open>auto simp: shrunk_def drafted_def\<close>)
    then show "complete fs p t bs fs2" using c tt by (simp add: complete_def)
  qed
qed (auto simp: complete_def)

definition replaced :: "LocalFs \<Rightarrow> path \<Rightarrow> bytes \<Rightarrow> LocalFs \<Rightarrow> bool" where
  "replaced fs p bs fs' \<longleftrightarrow> replacing fs p fs' \<and> (\<exists>x. node_at fs' p = Some (RegularFile bs x))
     \<and> (\<forall>q. temporary_name p q \<longrightarrow> node_at fs' q = node_at fs q)"

lemma publish_post:
  assumes c: "complete fs p t bs fs1" and "clear fs p" and p: "\<not> temporary_name p p" "p \<noteq> []"
  shows "post (or_drop t (rename_file t p)) fs1 (\<lambda>fs2 r. case r of
     Ok _ \<Rightarrow> replaced fs p bs fs2 | Err _ \<Rightarrow> abandoned fs p fs2)"
proof (rule or_drop_post[OF _ p, where t = t])
  have d: "drafted fs p t fs1" and r: "replacing fs p fs1" using c by (auto simp: complete_def drafted_def)
  have clear: "clear fs1 p" by (rule clear_replacing[OF assms(2) r p])
  have t: "temporary_name p t" "node_at fs t = None" using d by (auto simp: drafted_def)
  have tp: "t \<noteq> p" by (rule temporary_not_under(3)[OF t(1) p])
  obtain x where x: "node_at fs1 t = Some (RegularFile bs x)" using c by (auto simp: complete_def)
  show "post (rename_file t p) fs1 (\<lambda>fs2 r. case r of Ok _ \<Rightarrow> replaced fs p bs fs2 | Err _ \<Rightarrow> complete fs p t bs fs2)"
  proof (rule post_mono[OF rename_file_post[OF drafted_at(1)[OF d p(2)] x clear p(2) tp]])
    fix fs2 and res :: "(unit, IoError) result"
    assume s: "tree_ok fs2 \<and> calm fs1 fs2 \<and> (case res of
        Ok _ \<Rightarrow> node_at fs2 = (node_at fs1)(t := None, p \<mapsto> RegularFile bs x) | Err _ \<Rightarrow> node_at fs2 = node_at fs1)"
    show "case res of Ok _ \<Rightarrow> replaced fs p bs fs2 | Err _ \<Rightarrow> complete fs p t bs fs2"
    proof (cases res)
      case (Ok u)
      have nodes: "node_at fs2 = (node_at fs1)(t := None, p \<mapsto> RegularFile bs x)" using s Ok by simp
      have "replacing fs p fs2"
        by (rule replacing_at[OF r]) (use s nodes t in \<open>auto split: if_splits\<close>)
      moreover have "node_at fs2 q = node_at fs q" if q: "temporary_name p q" for q
        using d t q nodes temporary_not_under(3)[OF q p] by (cases "q = t") (auto simp: drafted_def)
      ultimately show ?thesis using Ok nodes by (simp add: replaced_def)
    next
      case (Err e)
      then have "node_at fs2 = node_at fs1" using s by simp
      moreover from this have "replacing fs p fs2" using s r by (simp add: replacing_def)
      ultimately show ?thesis using c Err by (simp add: complete_def drafted_def still_there_def)
    qed
  qed
qed (auto simp: complete_def)

text \<open>A file is replaced by the whole new content or not at all.\<close>

lemma replace_with_post:
  assumes "tree_ok fs0" and "node_at fs0 = node_at fs" and clear: "clear fs p" and p: "\<not> temporary_name p p" "p \<noteq> []"
  shows "post (replace_with p bs (node_at fs p)) fs0 (\<lambda>fs' r. case r of
     Ok _ \<Rightarrow> replaced fs p bs fs' | Err _ \<Rightarrow> abandoned fs p fs')"
  unfolding replace_with_def
proof (rule post_thenI[OF post_mapI[OF make_parent_post[OF assms(1-3) p(2)]]], assumption, assumption, goal_cases)
  case (1 fs1 u)
  show ?case
  proof (rule post_thenI[OF post_mapI[OF draft_post[OF 1 clear p], where P = "\<lambda>fs2 r. case r of Ok t \<Rightarrow> drafted fs p t fs2 | Err _ \<Rightarrow> abandoned fs p fs2"]], goal_cases)
    case (3 fs2 t)
    then have d: "drafted fs p t fs2" by simp
    show ?case
    proof (rule post_thenI[OF write_draft_post[OF d p]], unfold result.case, goal_cases)
      case (1 fs3 u)
      show ?case
      proof (rule post_thenI[OF sync_draft_post[OF 1 p]], unfold result.case, goal_cases)
        case (1 fs4 u)
        have cleared: "post (if node_at fs p = Some Folder then or_drop t (remove_dir_all p) else done_with ()) fs4
            (\<lambda>fs5 r. case r of Ok _ \<Rightarrow> complete fs p t bs fs5 | Err _ \<Rightarrow> abandoned fs p fs5)"
          using clear_target_post[OF 1 clear _ p] 1 by (simp add: post_done)
        show ?case by (rule post_thenI[OF cleared]) (use publish_post[OF _ clear p] in simp_all)
      qed
    qed
  qed simp_all
qed (simp add: prepared_abandoned)

lemma replace_file_post:
  assumes tree: "tree_ok fs" and clear: "clear fs p" and p: "\<not> temporary_name p p" "p \<noteq> []"
  shows "post (replace_file p bs) fs (\<lambda>fs' r. case r of
     Ok _ \<Rightarrow> replaced fs p bs fs' | Err _ \<Rightarrow> abandoned fs p fs')"
  unfolding replace_file_def
proof (rule post_matchI[OF symlink_metadata_post[OF tree clear p(2)]], goal_cases)
  case looked: (1 fs0 r)
  then have same: "node_at fs0 = node_at fs" "tree_ok fs0" using node_at_nodes tree_ok_nodes tree by blast+
  have "abandoned fs p fs0" using same by (simp add: abandoned_def still_there_def replacing_refl)
  then show ?case using replace_with_post[OF same(2,1) clear p, of bs] looked
    by (cases r) (auto simp: post_fail)
qed

end
