(* ===== verification/Local_Pull.thy ===== *)
theory Local_Pull
  imports Local_Apply
begin

text \<open>
  \<^verbatim>\<open>apply_pulled_manifest\<close> as a whole: what is known before it changes anything, and what
  its two loops leave.
\<close>

section \<open>Steps that add or remove\<close>

lemma clear_below:
  assumes "tree_ok fs" and "node_at fs dir = Some Folder"
    and "\<And>q r. cs = q @ r \<Longrightarrow> q \<noteq> [] \<Longrightarrow> r \<noteq> [] \<Longrightarrow> node_at fs (dir @ q) = None \<or> node_at fs (dir @ q) = Some Folder"
  shows "clear fs (dir @ cs)"
  unfolding clear_def
proof (intro allI impI, elim conjE)
  fix q r assume eq: "dir @ cs = q @ r" and r: "r \<noteq> []"
  show "node_at fs q = None \<or> node_at fs q = Some Folder"
  proof (cases "\<exists>q'. q' \<noteq> [] \<and> q = dir @ q'")
    case True
    then obtain q' where q': "q' \<noteq> []" "q = dir @ q'" by blast
    then have "cs = q' @ r" using eq by simp
    then show ?thesis using assms(3)[of q' r] q' r by simp
  next
    case False
    obtain us where us: "q = dir @ us \<and> cs = us @ r \<or> dir = q @ us \<and> us @ cs = r"
      using eq by (auto simp: append_eq_append_conv2)
    obtain q' where "dir = q @ q'" using us False by (cases "us = []") auto
    then show ?thesis using tree_ok_prefix[OF assms(1), of q q'] assms(2) by (cases "q' = []") auto
  qed
qed

lemma clear_child: "tree_ok fs \<Longrightarrow> node_at fs dir = Some Folder \<Longrightarrow> clear fs (dir @ [c])"
  by (rule clear_below) (auto simp: Cons_eq_append_conv)

text \<open>A file was written, and folders made above it.\<close>

definition added :: "LocalFs \<Rightarrow> path \<Rightarrow> LocalFs \<Rightarrow> bool" where
  "added fs p fs' \<longleftrightarrow> tree_ok fs' \<and> (\<forall>q. node_at fs' q = node_at fs q
     \<or> q = p \<and> (\<exists>b x. node_at fs' q = Some (RegularFile b x))
     \<or> node_at fs q = None \<and> node_at fs' q = Some Folder \<and> is_under q (butlast p))"

lemma added_same: "lf_nodes fs' = lf_nodes fs \<Longrightarrow> tree_ok fs \<Longrightarrow> added fs p fs'"
  using node_at_nodes[of fs' fs] tree_ok_nodes[of fs' fs] by (simp add: added_def)

lemma write_added:
  assumes "tree_ok fs" and "clear fs p" and "p \<noteq> []" and "\<And>l. node_at fs p \<noteq> Some (SymLink l)"
  shows "post (write_file p b) fs (\<lambda>fs' r. added fs p fs')"
proof (rule post_mono[OF write_file_post[OF assms]], goal_cases)
  case (1 fs' r)
  have "node_at fs' q = node_at fs q \<or> q = p \<and> (\<exists>b x. node_at fs' q = Some (RegularFile b x))" for q
    using 1 by (cases "q = p") auto
  then show ?case using 1 by (auto simp: added_def)
qed

lemma keeps_looking: "keeps lf_nodes (looking f)"
  unfolding keeps_def using looking_post post_mono by (metis (no_types, lifting))

lemma keeps_calls [simp]:
  "keeps lf_nodes (symlink_metadata p)" "keeps lf_nodes (try_exists p)" "keeps lf_nodes (canonicalize p)"
  "keeps lf_nodes (read_file p)" "keeps lf_nodes (read_directory p)"
  unfolding symlink_metadata_def try_exists_def canonicalize_def read_file_def read_directory_def
  by (rule keeps_looking)+

lemma keeps_post: "keeps v m \<Longrightarrow> post m s (\<lambda>s' r. v s' = v s)"
  by (simp add: keeps_def)

lemma keeps_cached: "keeps lf_nodes (cached env p h)"
  unfolding cached_def verify_cached_blob_def by (auto intro!: keeps_intros)

lemma cache_blob_post:
  assumes tree: "tree_ok fs" and clear: "clear fs (staged_blob_path wk h)"
    and link: "\<And>l. node_at fs (staged_blob_path wk h) \<noteq> Some (SymLink l)"
  shows "post (cache_blob env wk h bs) fs (\<lambda>fs' r. added fs (staged_blob_path wk h) fs')" (is "post _ _ ?P")
proof -
  let ?t = "staged_blob_path wk h"
  have t: "?t \<noteq> []" by (simp add: staged_blob_path_def)
  have stored: "post (then_do (map_error (create_dir_all (butlast ?t)) LocalIo) (\<lambda>_.
      then_do (map_error (write_file ?t bs) LocalIo) (\<lambda>_. done_with True))) fs1 ?P" if nodes: "lf_nodes fs1 = lf_nodes fs" for fs1
  proof -
    note at = node_at_nodes[OF nodes]
    have tree1: "tree_ok fs1" and clear1: "clear fs1 ?t" using tree clear tree_ok_nodes[OF nodes] clear_nodes[OF nodes] by simp_all
    have par: "clear fs1 (butlast ?t)" "\<And>l. node_at fs1 (butlast ?t) \<noteq> Some (SymLink l)"
      using clear_butlast[OF clear1] clear_parent[OF clear1 t] by auto
    show ?thesis
    proof (rule post_thenI[OF post_mapI[OF create_dir_all_post[OF tree1 par], where
          P = "\<lambda>fs2 r. tree_ok fs2 \<and> grown fs1 fs2 (butlast ?t)"]])
      fix fs2 assume g: "tree_ok fs2 \<and> grown fs1 fs2 (butlast ?t)"
      have deep: "node_at fs2 ?t = node_at fs1 ?t"
      proof -
        have "\<not> is_under ?t (butlast ?t)" using longer_not_under[of "butlast ?t" ?t] t by simp
        then show ?thesis using g unfolding grown_def by metis
      qed
      have link2: "node_at fs2 ?t \<noteq> Some (SymLink l)" for l using deep link at by simp
      have clear2: "clear fs2 ?t" using clear_grown[OF clear1] g by blast
      have "post (write_file ?t bs) fs2 (\<lambda>fs3 r. added fs2 ?t fs3)" using g by (intro write_added clear2 t link2) simp
      then have wrote: "post (write_file ?t bs) fs2 (\<lambda>fs3 r. added fs ?t fs3)"
      proof (rule post_mono)
        fix fs3 assume a: "added fs2 ?t fs3"
        show "added fs ?t fs3" unfolding added_def
        proof (intro conjI allI)
          show "tree_ok fs3" using a by (simp add: added_def)
          fix q
          show "node_at fs3 q = node_at fs q \<or> q = ?t \<and> (\<exists>b x. node_at fs3 q = Some (RegularFile b x))
            \<or> node_at fs q = None \<and> node_at fs3 q = Some Folder \<and> is_under q (butlast ?t)"
            using a g at unfolding added_def grown_def by metis
        qed
      qed
      show "post (then_do (map_error (write_file ?t bs) LocalIo) (\<lambda>_. done_with True)) fs2 ?P"
        by (rule post_thenI[OF post_mapI[OF wrote, where P = "\<lambda>fs3 r. added fs ?t fs3"]]) (simp_all add: post_done)
    next
      fix fs2 and e :: LocalWorkspaceError assume g: "tree_ok fs2 \<and> grown fs1 fs2 (butlast ?t)"
      then show "added fs ?t fs2" using at unfolding added_def grown_def by metis
    qed simp_all
  qed
  show ?thesis unfolding cache_blob_def Let_def
  proof (rule post_thenI[OF keeps_post[OF keeps_cached]])
    fix fs1 :: LocalFs and present :: bool assume nodes: "lf_nodes fs1 = lf_nodes fs"
    show "post (if present then done_with False else then_do (map_error (create_dir_all (butlast ?t)) LocalIo) (\<lambda>_.
      then_do (map_error (write_file ?t bs) LocalIo) (\<lambda>_. done_with True))) fs1 ?P"
      using stored[OF nodes] added_same[OF nodes tree] by (simp add: post_done)
  qed (use added_same[OF _ tree] in blast)
qed

text \<open>A folder takes the place of whatever was there.\<close>

definition folder_made :: "LocalFs \<Rightarrow> path \<Rightarrow> LocalFs \<Rightarrow> bool" where
  "folder_made fs p fs' \<longleftrightarrow> tree_ok fs' \<and> (\<forall>q. node_at fs' q = node_at fs q \<or> q = p
     \<or> node_at fs q = None \<and> node_at fs' q = Some Folder \<and> is_under q p)"

lemma make_folder_post:
  assumes tree: "tree_ok fs1" and clear: "clear fs1 p" and "\<And>l. node_at fs1 p \<noteq> Some (SymLink l)"
    and same: "\<And>q. q \<noteq> p \<Longrightarrow> node_at fs1 q = node_at fs q"
  shows "post (map_error (create_dir_all p) LocalIo) fs1 (\<lambda>fs' r. folder_made fs p fs' \<and> (is_ok r \<longrightarrow> node_at fs' p = Some Folder))"
  by (rule post_mapI[OF create_dir_all_post[OF assms(1-3)]])
    (use same in \<open>auto simp: folder_made_def grown_def, metis+\<close>)

lemma prepare_directory_post:
  assumes tree: "tree_ok fs" and clear: "clear fs p" and p: "p \<noteq> []"
  shows "post (prepare_directory_path p) fs (\<lambda>fs' r. folder_made fs p fs' \<and> (is_ok r \<longrightarrow> node_at fs' p = Some Folder))"
    (is "post _ _ ?P")
  unfolding prepare_directory_path_def
proof (rule post_matchI[OF symlink_metadata_post[OF tree clear p]])
  fix fs0 and r :: "(Node, IoError) result"
  assume looked: "lf_nodes fs0 = lf_nodes fs \<and> calm fs fs0 \<and> (case r of Ok n \<Rightarrow> node_at fs p = Some n
     | Err e \<Rightarrow> (io_kind e = NotFound \<or> lf_faults fs = [] \<longrightarrow> node_at fs p = None \<and> io_kind e = NotFound))"
  then have nodes: "lf_nodes fs0 = lf_nodes fs" by simp
  note at = node_at_nodes[OF nodes]
  have tree0: "tree_ok fs0" and clear0: "clear fs0 p" using tree clear tree_ok_nodes[OF nodes] clear_nodes[OF nodes] by simp_all
  have same: "folder_made fs p fs0" using at tree0 by (simp add: folder_made_def)
  have remade: "post (then_do (map_error (remove_file p) LocalIo) (\<lambda>_. map_error (create_dir_all p) LocalIo)) fs0 ?P"
  proof (rule post_thenI[OF post_mapI[OF remove_file_post[OF tree0 clear0 p], where
        P = "\<lambda>fs1 r. tree_ok fs1 \<and> (node_at fs1 = node_at fs \<or> node_at fs1 = (node_at fs)(p := None)) \<and> (is_ok r \<longrightarrow> node_at fs1 = (node_at fs)(p := None))"]])
    fix fs1 and u :: unit
    assume "tree_ok fs1 \<and> (node_at fs1 = node_at fs \<or> node_at fs1 = (node_at fs)(p := None))
      \<and> (is_ok (Ok u :: (unit, LocalWorkspaceError) result) \<longrightarrow> node_at fs1 = (node_at fs)(p := None))"
    then have gone: "tree_ok fs1" "node_at fs1 = (node_at fs)(p := None)" by simp_all
    have "clear fs1 p" using clear unfolding clear_def gone(2) by (auto simp: fun_upd_apply)
    then show "post (map_error (create_dir_all p) LocalIo) fs1 ?P" using gone by (intro make_folder_post) auto
  qed (use at in \<open>auto simp: folder_made_def\<close>)
  have fresh: "post (map_error (create_dir_all p) LocalIo) fs0 ?P" if "node_at fs p = None"
    using that at by (intro make_folder_post tree0 clear0) auto
  show "post (case r of Ok Folder \<Rightarrow> done_with ()
     | Ok _ \<Rightarrow> then_do (map_error (remove_file p) LocalIo) (\<lambda>_. map_error (create_dir_all p) LocalIo)
     | Err e \<Rightarrow> (if io_kind e = NotFound then map_error (create_dir_all p) LocalIo else fail_with (LocalIo e))) fs0 ?P"
    using looked remade fresh same at
    by (auto simp: post_done post_fail split: result.splits Node.splits)
qed


section \<open>What a pull removes\<close>

lemma clear_shrunk: "clear fs p \<Longrightarrow> shrunk fs fs' A \<Longrightarrow> clear fs' p"
  unfolding clear_def shrunk_def by metis

lemma shrunk_trans: "shrunk fs fs' A \<Longrightarrow> shrunk fs' fs'' A \<Longrightarrow> shrunk fs fs'' A"
  unfolding shrunk_def by metis

lemma shrunk_one: "node_at fs' = (node_at fs)(p := None) \<or> node_at fs' = node_at fs \<Longrightarrow> shrunk fs fs' (is_under p)"
  by (auto simp: shrunk_def split: if_splits)

lemma remove_path_post:
  assumes tree: "tree_ok fs" and clear: "clear fs p" and p: "p \<noteq> []"
  shows "post (remove_path_if_exists p) fs (\<lambda>fs' r. tree_ok fs' \<and> shrunk fs fs' (is_under p))" (is "post _ _ ?P")
  unfolding remove_path_if_exists_def
proof (rule post_matchI[OF symlink_metadata_post[OF tree clear p]])
  fix fs0 and r :: "(Node, IoError) result"
  assume looked: "lf_nodes fs0 = lf_nodes fs \<and> calm fs fs0 \<and> (case r of Ok n \<Rightarrow> node_at fs p = Some n
     | Err e \<Rightarrow> (io_kind e = NotFound \<or> lf_faults fs = [] \<longrightarrow> node_at fs p = None \<and> io_kind e = NotFound))"
  then have nodes: "lf_nodes fs0 = lf_nodes fs" by simp
  note at = node_at_nodes[OF nodes]
  have tree0: "tree_ok fs0" and clear0: "clear fs0 p" using tree clear tree_ok_nodes[OF nodes] clear_nodes[OF nodes] by simp_all
  have same: "tree_ok fs0 \<and> shrunk fs fs0 (is_under p)" using tree0 at by (simp add: shrunk_def)
  have folder: "post (then_do (map_error (remove_dir_all p) LocalIo) (\<lambda>_. done_with True)) fs0 ?P"
    unfolding post_then post_map_error
    by (rule post_mono[OF remove_dir_all_post[OF tree0 clear0 p]])
      (use at in \<open>auto simp: post_done shrunk_def split: result.splits\<close>)
  have other: "post (then_do (map_error (remove_file p) LocalIo) (\<lambda>_. done_with True)) fs0 ?P"
    unfolding post_then post_map_error
    by (rule post_mono[OF remove_file_post[OF tree0 clear0 p]])
      (use at in \<open>auto simp: post_done shrunk_def split: result.splits\<close>)
  show "post (case r of Ok Folder \<Rightarrow> then_do (map_error (remove_dir_all p) LocalIo) (\<lambda>_. done_with True)
     | Ok _ \<Rightarrow> then_do (map_error (remove_file p) LocalIo) (\<lambda>_. done_with True)
     | Err e \<Rightarrow> (if io_kind e = NotFound then done_with False else fail_with (LocalIo e))) fs0 ?P"
    using folder other same by (auto simp: post_done post_fail split: result.splits Node.splits)
qed

definition removable :: "Workspace \<Rightarrow> Manifest \<Rightarrow> path \<Rightarrow> bool" where
  "removable wk m q \<longleftrightarrow> (\<exists>k. engine_validate_path k = Ok () \<and> k \<notin> set (entry_keys m) \<and> is_under (wk_root wk @ components_of k) q)"


lemma shrunk_mono: "shrunk fs fs' A \<Longrightarrow> (\<And>q. A q \<Longrightarrow> B q) \<Longrightarrow> shrunk fs fs' B"
  unfolding shrunk_def by blast

lemma remove_missing_post:
  assumes tree: "tree_ok fs" and clear: "clear fs (wk_root wk @ components_of k)" and k: "components_of k \<noteq> []"
  shows "post (remove_missing wk m k n) fs (\<lambda>fs' r. tree_ok fs' \<and> shrunk fs fs' (removable wk m))" (is "post _ _ ?P")
proof (cases "manifest_contains_path m k \<or> engine_validate_path k \<noteq> Ok ()")
  case True
  then show ?thesis using tree
    by (cases "engine_validate_path k")
      (auto simp: remove_missing_def post_done post_then post_lift workspace_path_def shrunk_def)
next
  case False
  let ?t = "wk_root wk @ components_of k"
  have t: "?t \<noteq> []" using k by simp
  have may: "removable wk m q" if "is_under ?t q" for q
    using that False by (auto simp: removable_def manifest_contains_path_def bt_contains_iff entry_keys_def)
  have gone: "post a fs0 ?P" if "post a fs0 (\<lambda>fs' r. tree_ok fs' \<and> shrunk fs0 fs' (is_under ?t))" "node_at fs0 = node_at fs" for fs0 and a :: "nat engine_io"
    by (rule post_mono[OF that(1)]) (use that(2) may in \<open>auto simp: shrunk_def\<close>)
  have run: "remove_missing wk m k n = match_do (symlink_metadata ?t) (\<lambda>metadata.
     if metadata = Ok Folder then match_do (remove_dir ?t) (\<lambda>r. case r of
         Ok _ \<Rightarrow> done_with (n + 1)
       | Err e \<Rightarrow> (if io_kind e = DirectoryNotEmpty then done_with n else fail_with (LocalIo e)))
     else then_do (remove_path_if_exists ?t) (\<lambda>gone. done_with (if gone then n + 1 else n)))"
    using False by (simp add: remove_missing_def workspace_path_def fun_eq_iff then_do_def lift_result_def)
  show ?thesis unfolding run
  proof (rule post_matchI[OF keeps_post[OF keeps_calls(1)]])
    fix fs0 :: LocalFs and metadata :: "(Node, IoError) result"
    assume nodes: "lf_nodes fs0 = lf_nodes fs"
    note at = node_at_nodes[OF nodes]
    have tree0: "tree_ok fs0" and clear0: "clear fs0 ?t" using tree clear tree_ok_nodes[OF nodes] clear_nodes[OF nodes] by simp_all
    have folder: "post (match_do (remove_dir ?t) (\<lambda>r. case r of Ok _ \<Rightarrow> done_with (n + 1)
       | Err e \<Rightarrow> (if io_kind e = DirectoryNotEmpty then done_with n else fail_with (LocalIo e)))) fs0
       (\<lambda>fs' r. tree_ok fs' \<and> shrunk fs0 fs' (is_under ?t))"
      unfolding post_match
      by (rule post_mono[OF remove_dir_post[OF tree0 clear0 t]])
        (auto simp: post_done post_fail shrunk_def split: result.splits if_splits)
    have other: "post (then_do (remove_path_if_exists ?t) (\<lambda>gone. done_with (if gone then n + 1 else n))) fs0
       (\<lambda>fs' r. tree_ok fs' \<and> shrunk fs0 fs' (is_under ?t))"
      unfolding post_then
      by (rule post_mono[OF remove_path_post[OF tree0 clear0 t]]) (auto simp: post_done split: result.splits)
    show "post (if metadata = Ok Folder then match_do (remove_dir ?t) (\<lambda>r. case r of
         Ok _ \<Rightarrow> done_with (n + 1)
       | Err e \<Rightarrow> (if io_kind e = DirectoryNotEmpty then done_with n else fail_with (LocalIo e)))
     else then_do (remove_path_if_exists ?t) (\<lambda>gone. done_with (if gone then n + 1 else n))) fs0 ?P"
      using gone[OF folder at] gone[OF other at] by simp
  qed
qed

lemma remove_entries_post:
  assumes tree: "tree_ok fs"
    and paths: "\<And>k. k \<in> set local_paths \<Longrightarrow> clear fs (wk_root wk @ components_of k) \<and> components_of k \<noteq> []"
  shows "post (remove_entries_missing_from_remote wk m local_paths) fs (\<lambda>fs' r. tree_ok fs' \<and> shrunk fs fs' (removable wk m))"
  unfolding remove_entries_missing_from_remote_def
proof (rule post_mono[OF fold_do_post[where J = "\<lambda>past rest a fs'. tree_ok fs' \<and> shrunk fs fs' (removable wk m)"
      and W = "\<lambda>fs'. tree_ok fs' \<and> shrunk fs fs' (removable wk m)"]])
  fix past x rest and a :: nat and fs'
  assume xs: "sort_key (\<lambda>path. - depth path) local_paths = past @ x # rest" and J: "tree_ok fs' \<and> shrunk fs fs' (removable wk m)"
  have "x \<in> set (sort_key (\<lambda>path. - depth path) local_paths)" unfolding xs by simp
  then have x: "clear fs (wk_root wk @ components_of x)" "components_of x \<noteq> []" using paths by simp_all
  show "post (remove_missing wk m x a) fs' (\<lambda>s' r. case r of
      Ok b \<Rightarrow> tree_ok s' \<and> shrunk fs s' (removable wk m) | Err _ \<Rightarrow> tree_ok s' \<and> shrunk fs s' (removable wk m))"
    by (rule post_mono[OF remove_missing_post[OF conjunct1[OF J] clear_shrunk[OF x(1) conjunct2[OF J]] x(2)]])
      (use J shrunk_trans[of fs fs'] in \<open>auto split: result.splits\<close>)
qed (use tree in \<open>auto simp: shrunk_def split: result.splits\<close>)


section \<open>What is known before anything changes\<close>

definition holds :: "local_env \<Rightarrow> FileEntry \<Rightarrow> Node option \<Rightarrow> bool" where
  "holds env f n \<longleftrightarrow> (\<exists>bs x. n = Some (RegularFile bs x) \<and> hex_encode (le_sha256 env bs) = fe_content_hash f
     \<and> of_nat (length bs) = fe_size f)"

lemma below_file_post:
  assumes tree: "tree_ok fs" and p: "node_at fs p = Some (RegularFile b x)"
  shows "post (symlink_metadata (p @ [c])) fs (\<lambda>fs' r. lf_nodes fs' = lf_nodes fs \<and> \<not> is_ok r)"
  unfolding symlink_metadata_def
proof (rule post_mono[OF looking_post])
  fix fs' and r :: "(Node, IoError) result"
  assume run: "lf_nodes fs' = lf_nodes fs \<and> (lf_faults fs = [] \<longrightarrow> lf_faults fs' = [])
     \<and> (r = and_then (resolve_entry fs' (p @ [c])) (found fs') \<or> lf_faults fs \<noteq> [] \<and> (\<exists>msg. r = Err (IoError OtherKind msg)))"
  then have nodes: "lf_nodes fs' = lf_nodes fs" by simp
  note at = node_at_nodes[OF nodes]
  have "p \<noteq> []" using p by auto
  then have "node_at fs (butlast p) = Some Folder" using tree p unfolding tree_ok_def by auto
  then have "resolve fs' p = Ok p"
    using resolve_clear[of fs' p] tree p at tree_ok_nodes[OF nodes] clear_nodes[OF nodes] tree_ok_clear[OF tree] by simp
  then have "resolve_entry fs' (p @ [c]) = Err (io_error NotADirectory)" using p at by (simp add: resolve_entry_def)
  then show "lf_nodes fs' = lf_nodes fs \<and> \<not> is_ok r" using run by auto
qed

lemma probe_post:
  assumes "tree_ok fs" and "node_at fs dir = Some Folder"
  shows "post (probe_components dir cs) fs (\<lambda>fs' r. lf_nodes fs' = lf_nodes fs \<and> (r = Ok True \<longrightarrow>
     node_at fs (dir @ cs) \<noteq> None \<and> (\<forall>l. node_at fs (dir @ cs) \<noteq> Some (SymLink l))))"
  using assms
proof (induction cs arbitrary: dir fs)
  case Nil
  then show ?case by (simp add: post_done)
next
  case (Cons c cs)
  let ?P = "\<lambda>fs' r. lf_nodes fs' = lf_nodes fs \<and> (r = Ok True \<longrightarrow>
     node_at fs (dir @ c # cs) \<noteq> None \<and> (\<forall>l. node_at fs (dir @ c # cs) \<noteq> Some (SymLink l)))"
  show ?case unfolding probe_components.simps Let_def
  proof (rule post_matchI[OF symlink_metadata_post[OF Cons.prems(1) clear_child[OF Cons.prems]]])
    fix fs0 and r :: "(Node, IoError) result"
    assume looked: "lf_nodes fs0 = lf_nodes fs \<and> calm fs fs0 \<and> (case r of Ok n \<Rightarrow> node_at fs (dir @ [c]) = Some n
     | Err e \<Rightarrow> (io_kind e = NotFound \<or> lf_faults fs = [] \<longrightarrow> node_at fs (dir @ [c]) = None \<and> io_kind e = NotFound))"
    then have nodes: "lf_nodes fs0 = lf_nodes fs" by simp
    note at = node_at_nodes[OF nodes]
    have tree0: "tree_ok fs0" using Cons.prems(1) tree_ok_nodes[OF nodes] by simp
    have folder: "post (probe_components (dir @ [c]) cs) fs0 ?P" if "node_at fs (dir @ [c]) = Some Folder"
      by (rule post_mono[OF Cons.IH[OF tree0]]) (use that at nodes in auto)
    have plain: "post (probe_components (dir @ [c]) cs) fs0 ?P" if n: "node_at fs (dir @ [c]) = Some (RegularFile b x)" for b x
    proof (cases cs)
      case Nil
      then show ?thesis using n nodes by (simp add: post_done)
    next
      case (Cons d ds)
      have here: "node_at fs0 (dir @ [c]) = Some (RegularFile b x)" using n at by simp
      show ?thesis unfolding Cons probe_components.simps Let_def post_match
        by (rule post_mono[OF below_file_post[OF tree0 here]])
          (use nodes in \<open>auto simp: post_done post_fail split: result.splits\<close>)
    qed
    show "post (case r of Ok (SymLink _) \<Rightarrow> done_with False | Ok _ \<Rightarrow> probe_components (dir @ [c]) cs
       | Err e \<Rightarrow> (if io_kind e = NotFound \<or> io_kind e = NotADirectory then done_with False else fail_with (LocalIo e))) fs0 ?P"
      using looked nodes folder plain by (auto simp: post_done post_fail split: result.splits Node.splits)
  qed simp
qed

lemma read_found_post:
  assumes tree: "tree_ok fs" and p: "node_at fs p = Some (RegularFile b x)"
  shows "post (read_file p) fs (\<lambda>fs' r. lf_nodes fs' = lf_nodes fs \<and> (\<forall>bs. r = Ok bs \<longrightarrow> bs = b))"
  unfolding read_file_def
proof (rule post_mono[OF looking_post], goal_cases)
  case (1 fs' r)
  then have nodes: "lf_nodes fs' = lf_nodes fs" by simp
  have "p \<noteq> []" using p by auto
  then have "node_at fs (butlast p) = Some Folder" using tree p unfolding tree_ok_def by auto
  then have "resolve fs' p = Ok p"
    using resolve_clear[of fs' p] tree p node_at_nodes[OF nodes] tree_ok_nodes[OF nodes] clear_nodes[OF nodes] tree_ok_clear[OF tree] by simp
  then show ?case using 1 p node_at_nodes[OF nodes] by (auto simp: found_def)
qed

lemma matching_post:
  assumes tree: "tree_ok fs" and root: "node_at fs root = Some Folder" and k: "components_of k \<noteq> []"
  shows "post (matching_local_file env root k f) fs (\<lambda>fs' r. lf_nodes fs' = lf_nodes fs \<and> (\<forall>bs. r = Ok (Some bs) \<longrightarrow>
     holds env f (node_at fs (root @ components_of k)) \<and> hex_encode (le_sha256 env bs) = fe_content_hash f))" (is "post _ _ ?P")
  unfolding matching_local_file_def Let_def
proof (rule post_thenI[OF probe_post[OF tree root]])
  let ?t = "root @ components_of k"
  fix fs1 :: LocalFs and plain
  assume probed: "lf_nodes fs1 = lf_nodes fs \<and> ((Ok plain :: (bool, LocalWorkspaceError) result) = Ok True \<longrightarrow> node_at fs ?t \<noteq> None \<and> (\<forall>l. node_at fs ?t \<noteq> Some (SymLink l)))"
  then have nodes: "lf_nodes fs1 = lf_nodes fs" by simp
  note at = node_at_nodes[OF nodes]
  show "post (if \<not> plain then done_with None else then_do (map_error (symlink_metadata ?t) LocalIo) (\<lambda>metadata. case metadata of
         RegularFile b _ \<Rightarrow> (if of_nat (length b) \<noteq> fe_size f then done_with None
           else then_do (map_error (read_file ?t) LocalIo) (\<lambda>bs.
             done_with (if of_nat (length bs) = fe_size f \<and> hex_encode (le_sha256 env bs) = fe_content_hash f
               then Some bs else None)))
       | _ \<Rightarrow> done_with None)) fs1 ?P"
  proof (cases plain)
    case True
    have tree1: "tree_ok fs1" using tree tree_ok_nodes[OF nodes] by simp
    have clear1: "clear fs1 ?t" using True probed tree_ok_clear[OF tree1] at by simp
    show ?thesis using True
    proof (simp only: not_True_eq_False if_False, intro post_thenI[OF post_mapI[OF symlink_metadata_post[OF tree1 clear1], where
          P = "\<lambda>fs2 r. lf_nodes fs2 = lf_nodes fs1 \<and> (\<forall>n. r = Ok n \<longrightarrow> node_at fs ?t = Some n)"]])
      fix fs2 :: LocalFs and metadata
      assume looked: "lf_nodes fs2 = lf_nodes fs1 \<and> (\<forall>n. (Ok metadata :: (Node, LocalWorkspaceError) result) = Ok n \<longrightarrow> node_at fs ?t = Some n)"
      then have nodes2: "lf_nodes fs2 = lf_nodes fs" and n: "node_at fs ?t = Some metadata" using nodes by simp_all
      have tree2: "tree_ok fs2" using tree tree_ok_nodes[OF nodes2] by simp
      have read: "post (then_do (map_error (read_file ?t) LocalIo) (\<lambda>bs.
             done_with (if of_nat (length bs) = fe_size f \<and> hex_encode (le_sha256 env bs) = fe_content_hash f
               then Some bs else None))) fs2 ?P" if m: "metadata = RegularFile b x" for b x
      proof -
        have here: "node_at fs2 ?t = Some (RegularFile b x)" using n m node_at_nodes[OF nodes2] by simp
        show ?thesis unfolding post_then post_map_error
          by (rule post_mono[OF read_found_post[OF tree2 here]])
            (use nodes2 n m in \<open>auto simp: post_done holds_def split: result.splits\<close>)
      qed
      show "post (case metadata of
         RegularFile b _ \<Rightarrow> (if of_nat (length b) \<noteq> fe_size f then done_with None
           else then_do (map_error (read_file ?t) LocalIo) (\<lambda>bs.
             done_with (if of_nat (length bs) = fe_size f \<and> hex_encode (le_sha256 env bs) = fe_content_hash f
               then Some bs else None)))
       | _ \<Rightarrow> done_with None) fs2 ?P"
        using read nodes2 by (auto simp: post_done split: Node.splits)
    qed (use k at nodes in \<open>auto split: result.splits\<close>)
  qed (use nodes in \<open>simp add: post_done\<close>)
qed simp


lemma read_directory_post:
  assumes tree: "tree_ok fs" and p: "node_at fs p = Some Folder"
  shows "post (read_directory p) fs (\<lambda>fs' r. lf_nodes fs' = lf_nodes fs \<and> (\<forall>ns. r = Ok ns \<longrightarrow> (\<forall>n \<in> set ns. node_at fs (p @ [n]) \<noteq> None)))"
  unfolding read_directory_def
proof (rule post_mono[OF looking_post], goal_cases)
  case (1 fs' r)
  then have nodes: "lf_nodes fs' = lf_nodes fs" by simp
  note at = node_at_nodes[OF nodes]
  have "p = [] \<or> node_at fs (butlast p) = Some Folder" using tree p unfolding tree_ok_def by auto
  then have "resolve fs' p = Ok p"
    using resolve_clear[of fs' p] tree p at tree_ok_nodes[OF nodes] clear_nodes[OF nodes] tree_ok_clear[OF tree] by simp
  then show ?case using 1 p at in_children[of _ fs' p] by (auto simp: found_def)
qed

text \<open>Every path collected is there, under the name it was collected by.\<close>

definition seen_at :: "LocalFs \<Rightarrow> path \<Rightarrow> string \<Rightarrow> bool" where
  "seen_at fs root p \<longleftrightarrow> (\<exists>rel. rel \<noteq> [] \<and> p = relative_text rel \<and> node_at fs (root @ rel) \<noteq> None)"

abbreviation collected :: "LocalFs \<Rightarrow> path \<Rightarrow> LocalFs \<Rightarrow> (string list \<times> string list, LocalWorkspaceError) result \<Rightarrow> bool" where
  "collected fs root fs' r \<equiv> lf_nodes fs' = lf_nodes fs \<and> (\<forall>acc. r = Ok acc \<longrightarrow> (\<forall>p \<in> set (fst acc). seen_at fs root p))"

lemma collect_entry_post:
  assumes tree: "tree_ok fs" and there: "node_at fs (root @ rel @ [name]) \<noteq> None"
    and acc: "\<forall>p \<in> set (fst acc). seen_at fs root p" and nodes: "lf_nodes fs0 = lf_nodes fs"
    and descend: "\<And>acc fs'. lf_nodes fs' = lf_nodes fs \<Longrightarrow> node_at fs (root @ rel @ [name]) = Some Folder \<Longrightarrow>
      \<forall>p \<in> set (fst acc). seen_at fs root p \<Longrightarrow> post (descend (rel @ [name]) acc) fs' (collected fs root)"
  shows "post (collect_entry descend ig root rel name acc) fs0 (collected fs root)"
proof -
  obtain out protected where out: "acc = (out, protected)" by (cases acc)
  let ?path = "rel @ [name]"
  have seen: "\<forall>p \<in> set (out @ [relative_text ?path]). seen_at fs root p"
    using acc there out by (auto simp: seen_at_def)
  have look: "post (map_error (symlink_metadata (root @ ?path)) LocalIo) fs1 (\<lambda>fs2 r. lf_nodes fs2 = lf_nodes fs
      \<and> (\<forall>n. r = Ok n \<longrightarrow> node_at fs (root @ ?path) = Some n))" if "lf_nodes fs1 = lf_nodes fs" for fs1
  proof -
    have "tree_ok fs1" "clear fs1 (root @ ?path)"
      using tree tree_ok_nodes[OF that] tree_ok_clear[of fs1 "root @ ?path"] there node_at_nodes[OF that] by simp_all
    then show ?thesis
      by (intro post_mapI[OF symlink_metadata_post]) (use that node_at_nodes[OF that] in auto)
  qed
  have enter: "post (then_do (map_error (symlink_metadata (root @ ?path)) LocalIo) (\<lambda>file_type.
       if file_type = Folder then descend ?path (out @ [relative_text ?path], protected)
       else done_with (out @ [relative_text ?path], protected))) fs1 (collected fs root)" if "lf_nodes fs1 = lf_nodes fs" for fs1
    by (rule post_thenI[OF look[OF that]]) (use descend seen in \<open>auto simp: post_done\<close>)
  have tail: "post (if excludes ig (components_of (relative_text ?path)) (n = Folder) then done_with (out, protected @ [relative_text ?path])
     else then_do (map_error (symlink_metadata (root @ ?path)) LocalIo) (\<lambda>file_type.
       if file_type = Folder then descend ?path (out @ [relative_text ?path], protected)
       else done_with (out @ [relative_text ?path], protected))) fs1 (collected fs root)" if "lf_nodes fs1 = lf_nodes fs" for fs1 n
  proof (cases "excludes ig (components_of (relative_text ?path)) (n = Folder)")
    case True
    then show ?thesis using acc out that by (simp add: post_done)
  next
    case False
    show ?thesis by (simp only: False if_False) (rule enter[OF that])
  qed
  show ?thesis
  proof (cases "is_internal (components_of (relative_text ?path))")
    case True
    then show ?thesis using acc out nodes by (simp add: collect_entry_def post_done)
  next
    case False
    show ?thesis unfolding collect_entry_def out case_prod_conv Let_def
      by (simp only: False if_False) (rule post_thenI[OF look[OF nodes]], rule tail, simp_all)
  qed
qed

lemma collect_paths_post:
  assumes "tree_ok fs" and "node_at fs (root @ rel) = Some Folder" and "\<forall>p \<in> set (fst acc). seen_at fs root p"
    and "lf_nodes fs0 = lf_nodes fs"
  shows "post (collect_workspace_paths fuel ig root rel acc) fs0 (collected fs root)"
  using assms
proof (induction fuel arbitrary: fs0 rel acc)
  case 0
  then show ?case by (simp add: post_fail)
next
  case (Suc fuel)
  note at = node_at_nodes[OF Suc.prems(4)]
  have tree0: "tree_ok fs0" and folder0: "node_at fs0 (root @ rel) = Some Folder"
    using Suc.prems(1,2) tree_ok_nodes[OF Suc.prems(4)] at by simp_all
  show ?case unfolding collect_workspace_paths.simps
  proof (rule post_thenI[OF post_mapI[OF read_directory_post[OF tree0 folder0], where
        P = "\<lambda>fs' r. lf_nodes fs' = lf_nodes fs \<and> (\<forall>ns. r = Ok ns \<longrightarrow> (\<forall>n \<in> set ns. node_at fs (root @ rel @ [n]) \<noteq> None))"]], goal_cases)
    case (3 fs1 names)
    show ?case
    proof (rule post_mono[OF fold_do_post[where W = "\<lambda>fs'. lf_nodes fs' = lf_nodes fs"
          and J = "\<lambda>past rest acc fs'. lf_nodes fs' = lf_nodes fs \<and> (\<forall>p \<in> set (fst acc). seen_at fs root p)"]], goal_cases)
      case (1 past x rest a fs')
      have "post (collect_entry (collect_workspace_paths fuel ig root) ig root rel x a) fs' (collected fs root)"
        using 1 3 Suc.IH Suc.prems(1) by (intro collect_entry_post) auto
      then show ?case by (rule post_mono) (auto split: result.splits)
    qed (use 3 Suc.prems(3) in \<open>auto split: result.splits\<close>)
  qed (use Suc.prems(4) at in auto)
qed


section \<open>Contents\<close>

definition fetched_ok :: "local_env \<Rightarrow> (string \<times> bytes) list \<Rightarrow> bool" where
  "fetched_ok env fetched \<longleftrightarrow> (\<forall>h bs. map_of fetched h = Some bs \<longrightarrow> hex_encode (le_sha256 env bs) = h)"

definition unchanged_ok :: "local_env \<Rightarrow> Workspace \<Rightarrow> Manifest \<Rightarrow> LocalFs \<Rightarrow> string list \<Rightarrow> bool" where
  "unchanged_ok env wk m fs unchanged \<longleftrightarrow>
     (\<forall>k \<in> set unchanged. \<exists>f. (k, File f) \<in> set (mf_entries m) \<and> holds env f (node_at fs (wk_root wk @ components_of k)))"

lemma fetch_unchanged_post:
  assumes tree: "tree_ok fs" and root: "node_at fs (wk_root wk) = Some Folder"
    and keys: "\<And>k. k \<in> set (entry_keys m) \<Longrightarrow> components_of k \<noteq> []"
  shows "post (fold_do (fetch_unchanged env wk) (mf_entries m) ([], [])) fs (\<lambda>fs' r. lf_nodes fs' = lf_nodes fs
     \<and> (\<forall>u fetched. r = Ok (u, fetched) \<longrightarrow> unchanged_ok env wk m fs u \<and> fetched_ok env fetched))"
proof (rule post_mono[OF fold_do_post[where
      J = "\<lambda>past rest acc fs'. lf_nodes fs' = lf_nodes fs \<and> unchanged_ok env wk m fs (fst acc) \<and> fetched_ok env (snd acc)"
      and W = "\<lambda>fs'. lf_nodes fs' = lf_nodes fs"]], goal_cases)
  case J: (1 past x rest a fs')
  obtain k e u fetched where split: "x = (k, e)" "a = (u, fetched)" by (cases x; cases a)
  have x: "(k, e) \<in> set (mf_entries m)" and key: "components_of k \<noteq> []" using J(1) split keys[of k] by (auto simp: entry_keys_def)
  have nodes: "lf_nodes fs' = lf_nodes fs" using J by simp
  note at = node_at_nodes[OF nodes]
  have tree': "tree_ok fs'" and root': "node_at fs' (wk_root wk) = Some Folder" using tree root tree_ok_nodes[OF nodes] at by simp_all
  show ?case
  proof (cases e)
    case Directory
    then show ?thesis using J split by (simp add: fetch_unchanged_def post_done)
  next
    case (File f)
    show ?thesis unfolding split File fetch_unchanged_def prod.case ManifestEntry.case
      by (rule post_thenI[OF matching_post[OF tree' root' key]])
        (use J x at split File in \<open>auto simp: post_done unchanged_ok_def fetched_ok_def split: option.splits\<close>)
  qed
qed (auto simp: unchanged_ok_def fetched_ok_def split: result.splits)

lemma fetch_missing_post:
  assumes "fetched_ok env fetched"
  shows "post (fold_do (fetch_missing env src) (mf_entries m) fetched) fs (\<lambda>fs' r. lf_nodes fs' = lf_nodes fs
     \<and> (\<forall>fetched'. r = Ok fetched' \<longrightarrow> fetched_ok env fetched'))"
proof (rule post_mono[OF fold_do_post[where J = "\<lambda>past rest acc fs'. lf_nodes fs' = lf_nodes fs \<and> fetched_ok env acc"
      and W = "\<lambda>fs'. lf_nodes fs' = lf_nodes fs"]], goal_cases)
  case J: (1 past x rest a fs')
  obtain k e where x: "x = (k, e)" by (cases x)
  show ?case using J(2) unfolding x fetch_missing_def
    by (auto simp: post_simps Let_def verify_blob_hash_def fetched_ok_def split: ManifestEntry.splits result.splits)
qed (use assms in \<open>auto split: result.splits\<close>)

lemma fetch_contents_post:
  assumes "tree_ok fs" and "node_at fs (wk_root wk) = Some Folder" and "\<And>k. k \<in> set (entry_keys m) \<Longrightarrow> components_of k \<noteq> []"
  shows "post (fetch_contents env wk m src) fs (\<lambda>fs' r. lf_nodes fs' = lf_nodes fs
     \<and> (\<forall>u fetched. r = Ok (u, fetched) \<longrightarrow> unchanged_ok env wk m fs u \<and> fetched_ok env fetched \<and> check_sizes m fetched = Ok ()))"
  unfolding fetch_contents_def
proof (rule post_thenI[OF fetch_unchanged_post[OF assms]], assumption, goal_cases)
  case (1 fs1 acc)
  obtain u fetched where acc: "acc = (u, fetched)" by (cases acc)
  have ok: "fetched_ok env fetched" using 1 acc by simp
  show ?case unfolding acc case_prod_conv
    by (rule post_thenI[OF fetch_missing_post[OF ok]])
      (use 1 acc in \<open>auto simp: post_simps split: result.splits\<close>)
qed simp

lemma keeps_ignore_rules: "keeps lf_nodes (load_ignore_rules env wk)"
  unfolding load_ignore_rules_def load_tracked_def load_manifest_def path_exists_def Let_def
  by (auto intro!: keeps_intros split: result.splits Node.splits)

text \<open>Nothing has changed when the contents of every file are at hand and checked.\<close>

definition ready :: "local_env \<Rightarrow> Workspace \<Rightarrow> Manifest \<Rightarrow> LocalFs \<Rightarrow> string list \<times> string list \<times> (string \<times> bytes) list \<Rightarrow> bool" where
  "ready env wk m fs = (\<lambda>(local_paths, unchanged, fetched). validate_pulled_manifest wk m = Ok ()
     \<and> (\<forall>p \<in> set local_paths. seen_at fs (wk_root wk) p) \<and> unchanged_ok env wk m fs unchanged \<and> fetched_ok env fetched
     \<and> check_sizes m fetched = Ok ())"

lemma prepare_apply_post:
  assumes tree: "tree_ok fs" and root: "node_at fs (wk_root wk) = Some Folder"
    and keys: "\<And>k. k \<in> set (entry_keys m) \<Longrightarrow> components_of k \<noteq> []"
  shows "post (prepare_apply env wk m src) fs (\<lambda>fs' r. lf_nodes fs' = lf_nodes fs \<and> (\<forall>x. r = Ok x \<longrightarrow> ready env wk m fs x))"
proof (cases "validate_pulled_manifest wk m = Ok ()")
  case False
  then show ?thesis by (cases "validate_pulled_manifest wk m") (simp_all add: prepare_apply_def post_then post_lift)
next
  case True
  have fetch: "post (then_do (fetch_contents env wk m src) (\<lambda>(unchanged, fetched). done_with (local_paths, unchanged, fetched))) fs2
      (\<lambda>fs' r. lf_nodes fs' = lf_nodes fs \<and> (\<forall>x. r = Ok x \<longrightarrow> ready env wk m fs x))"
    if nodes: "lf_nodes fs2 = lf_nodes fs" and seen: "\<forall>p \<in> set local_paths. seen_at fs (wk_root wk) p" for fs2 local_paths
  proof (rule post_thenI[OF fetch_contents_post], goal_cases)
    case (4 fs3 a)
    then show ?case using nodes seen True node_at_nodes[OF nodes]
      by (auto simp: post_done ready_def unchanged_ok_def split: prod.splits)
  qed (use nodes tree root keys tree_ok_nodes[OF nodes] node_at_nodes[OF nodes] in auto)
  show ?thesis unfolding prepare_apply_def True post_then[of "lift_result (Ok ())"] post_lift result.case
  proof (rule post_thenI[OF post_mapI[OF keeps_post[OF keeps_ignore_rules], where P = "\<lambda>fs' r. lf_nodes fs' = lf_nodes fs"]], goal_cases)
    case (3 fs1 ignores)
    have run: "post (\<lambda>fs. collect_workspace_paths (walk_fuel fs) ignores (wk_root wk) [] ([], []) fs) fs1 (collected fs (wk_root wk))"
      using collect_paths_post[OF tree, of "wk_root wk" "[]" "([], [])" fs1 "walk_fuel fs1" ignores] root 3 by (simp add: post_def)
    show ?case
    proof (rule post_thenI[OF run], goal_cases)
      case (1 fs2 acc)
      then show ?case using fetch[of fs2 "fst acc"]
        by (cases acc) (simp add: post_then[of "lift_result _"] post_lift split: result.splits)
    qed simp
  qed simp_all
qed

end
