(* ===== verification/Local_Props.thy ===== *)
theory Local_Props
  imports Local_Pull
begin

text \<open>
  Applying a pulled manifest to a workspace: the paths it names, the loop over its entries, and the
  property of the whole.
\<close>

section \<open>Paths\<close>

lemma join_with_append: "a \<noteq> [] \<Longrightarrow> b \<noteq> [] \<Longrightarrow> join_with [c] (a @ b) = join_with [c] a @ c # join_with [c] b"
proof (induction "[c]" a rule: join_with.induct)
  case (2 x)
  then show ?case by (cases b) auto
qed auto

lemma components_of_join:
  "cs \<noteq> [] \<Longrightarrow> (\<And>c. c \<in> set cs \<Longrightarrow> good_component c) \<Longrightarrow> components_of (join_with [slash] cs) = cs"
  by (subst components_of_def, subst split_on_join) (auto simp: good_component_def bad_component_def intro!: filter_True)

lemma valid_path:
  assumes "engine_validate_path k = Ok ()"
  shows "components_of k \<noteq> []" and "\<And>c. c \<in> set (components_of k) \<Longrightarrow> good_component c"
    and "join_with [slash] (components_of k) = k" and "components_of k \<noteq> WORKSPACE_DIR # r"
proof -
  have k: "\<not> list_ex bad_component (split_on slash k)" "backslash \<notin> set k" "k \<noteq> WORKSPACE_DIR"
      "\<not> starts_with k (WORKSPACE_DIR @ [slash])"
    using assms by (auto simp: engine_validate_path_def split: if_splits)
  have cs: "components_of k = split_on slash k"
    using k(1) unfolding components_of_def list_ex_iff bad_component_def by (intro filter_True) auto
  show "components_of k \<noteq> []" using cs by simp
  show join: "join_with [slash] (components_of k) = k" using cs by simp
  have "set c \<subseteq> set k" if "c \<in> set (components_of k)" for c
    using that set_join_with[of slash "components_of k"] join by auto
  then show "good_component c" if "c \<in> set (components_of k)" for c
    using that k(1,2) cs split_on_components[of c slash k] by (auto simp: good_component_def list_ex_iff)
  show "components_of k \<noteq> WORKSPACE_DIR # r"
  proof
    assume "components_of k = WORKSPACE_DIR # r"
    then have "k = WORKSPACE_DIR \<or> (\<exists>s. k = WORKSPACE_DIR @ slash # s)" using join by (cases r) auto
    then show False using k(3,4) by (auto simp: starts_with_iff)
  qed
qed

lemma in_slash_prefixes: "p \<in> set (slash_prefixes (p @ slash # r))"
proof -
  have "length p \<in> set (filter (\<lambda>i. (p @ slash # r) ! i = slash) [0..<length (p @ slash # r)])" by simp
  then show ?thesis unfolding slash_prefixes_def set_map by (rule rev_image_eqI) simp
qed

lemma components_prefix:
  assumes "engine_validate_path k = Ok ()" and "components_of k = q @ r" and "q \<noteq> []" and "r \<noteq> []"
  shows "join_with [slash] q \<in> set (slash_prefixes k)" and "components_of (join_with [slash] q) = q"
    and "join_with [slash] q < k"
proof -
  have k: "k = join_with [slash] q @ slash # join_with [slash] r"
    using valid_path(3)[OF assms(1)] assms(2-4) join_with_append[of q r slash] by simp
  then show "join_with [slash] q \<in> set (slash_prefixes k)" using in_slash_prefixes by metis
  show "components_of (join_with [slash] q) = q"
    using valid_path(2)[OF assms(1)] assms(2,3) by (intro components_of_join) auto
  show "join_with [slash] q < k" unfolding k using less_append_Cons by blast
qed

text \<open>The manifests that are applied: sorted, every folder on the way an entry, no internal name.\<close>

definition tidy :: "Manifest \<Rightarrow> bool" where
  "tidy m \<longleftrightarrow> bt_wf (mf_entries m) \<and> (\<forall>k \<in> set (entry_keys m).
     (\<forall>p \<in> set (slash_prefixes k). manifest_get m p = Some Directory) \<and> \<not> is_internal (components_of k))"

lemma validated_keys:
  assumes "validate_pulled_manifest wk m = Ok ()" and "k \<in> set (entry_keys m)"
  shows "engine_validate_path k = Ok ()"
  using assms by (auto simp: validate_pulled_manifest_def engine_validate_paths_def)

lemma tidy_keys:
  assumes "tidy m" and "k \<in> set (entry_keys m)" and "engine_validate_path k = Ok ()" and "components_of k = q @ r"
    and "q \<noteq> []" and "r \<noteq> []"
  shows "(join_with [slash] q, Directory) \<in> set (mf_entries m)"
  using assms(1,2) components_prefix(1)[OF assms(3-6)] bt_in_set_iff[of "mf_entries m"]
  by (auto simp: tidy_def manifest_get_def)

text \<open>No entry lies under a file.\<close>

lemma file_not_above:
  assumes m: "tidy m" and k: "(k, File f) \<in> set (mf_entries m)" "engine_validate_path k = Ok ()"
    and k': "k' \<in> set (entry_keys m)" "engine_validate_path k' = Ok ()"
    and under: "is_under (components_of k) (components_of k')"
  shows "k' = k"
proof (rule ccontr)
  assume ne: "k' \<noteq> k"
  obtain r where r: "components_of k' = components_of k @ r" using under by (auto simp: is_under_iff)
  have "r \<noteq> []" using r ne valid_path(3)[OF k(2)] valid_path(3)[OF k'(2)] by auto
  then have "(k, Directory) \<in> set (mf_entries m)"
    using tidy_keys[OF m k' r valid_path(1)[OF k(2)]] valid_path(3)[OF k(2)] by simp
  then show False using k(1) m bt_in_set_iff[of "mf_entries m"] by (simp add: tidy_def)
qed

lemma temporary_internal: "temporary_name p q \<Longrightarrow> q = root @ cs \<Longrightarrow> cs \<noteq> [] \<Longrightarrow> is_internal cs"
proof -
  assume t: "temporary_name p q" "q = root @ cs" "cs \<noteq> []"
  then obtain n where "root @ cs = butlast p @ [''.rustsync-tmp-'' @ n]" by (auto simp: temporary_name_def)
  then have "last cs = ''.rustsync-tmp-'' @ n" using t(3) by (metis last_appendR last_snoc)
  then have "starts_with (last cs) ''.rustsync-tmp-''" by (simp only: starts_with_append)
  then show "is_internal cs" using last_in_set[OF t(3)] by (auto simp: is_internal_def list_ex_iff)
qed


section \<open>The workspace on disk\<close>

definition site :: "Workspace \<Rightarrow> LocalFs \<Rightarrow> bool" where
  "site wk fs \<longleftrightarrow> tree_ok fs \<and> node_at fs (wk_root wk) = Some Folder
     \<and> node_at fs (wk_root wk @ [WORKSPACE_DIR]) = Some Folder
     \<and> (node_at fs (wk_root wk @ [WORKSPACE_DIR, ''blobs'']) = None \<or> node_at fs (wk_root wk @ [WORKSPACE_DIR, ''blobs'']) = Some Folder)
     \<and> (\<forall>q l. is_under (wk_root wk @ [WORKSPACE_DIR]) q \<longrightarrow> node_at fs q \<noteq> Some (SymLink l))"

abbreviation inside :: "Workspace \<Rightarrow> path \<Rightarrow> bool" where
  "inside wk q \<equiv> is_under (wk_root wk @ [WORKSPACE_DIR]) q"

lemma above_root: "site wk fs \<Longrightarrow> is_under q (wk_root wk) \<Longrightarrow> node_at fs q = Some Folder"
proof -
  assume s: "site wk fs" and "is_under q (wk_root wk)"
  then obtain r where r: "wk_root wk = q @ r" by (auto simp: is_under_iff)
  show "node_at fs q = Some Folder"
  proof (cases "r = []")
    case False
    have "tree_ok fs" "node_at fs (q @ r) \<noteq> None" using s r by (auto simp: site_def)
    then show ?thesis using tree_ok_prefix False by blast
  qed (use s r in \<open>simp add: site_def\<close>)
qed

lemma clear_inside:
  assumes "site wk fs"
  shows "clear fs (wk_root wk @ [WORKSPACE_DIR, ''blobs'', h])" and "clear fs (wk_root wk @ [WORKSPACE_DIR, x])"
  using assms by (auto intro!: clear_below simp: site_def Cons_eq_append_conv append_eq_Cons_conv)

text \<open>Writing below \<^verbatim>\<open>.rustsync\<close> leaves the rest.\<close>

lemma added_site:
  assumes s: "site wk fs" and a: "added fs p fs'" and p: "p = wk_root wk @ WORKSPACE_DIR # x # r"
    and blobs: "p \<noteq> wk_root wk @ [WORKSPACE_DIR, ''blobs'']"
  shows "site wk fs'" and "\<And>q. \<not> inside wk q \<Longrightarrow> node_at fs' q = node_at fs q"
proof -
  have tree: "tree_ok fs'" using a by (simp add: added_def)
  show outside: "node_at fs' q = node_at fs q" if q: "\<not> inside wk q" for q
  proof -
    have "q \<noteq> p" using q p by (auto simp: is_under_iff)
    moreover have "node_at fs q \<noteq> None" if up: "is_under q (butlast p)"
    proof -
      have "is_under q p" using is_under_butlast[OF up] .
      then obtain s where "p = q @ s" by (auto simp: is_under_iff)
      then have "is_under q (wk_root wk @ [WORKSPACE_DIR])"
        using q p by (auto simp: is_under_iff append_eq_append_conv2 Cons_eq_append_conv append_eq_Cons_conv)
      moreover have "q \<noteq> wk_root wk @ [WORKSPACE_DIR]" using q by auto
      ultimately have "is_under q (wk_root wk)" by (auto simp: is_under_iff append_eq_append_conv2 Cons_eq_append_conv append_eq_Cons_conv)
      then show ?thesis using above_root[OF s] by simp
    qed
    ultimately show ?thesis using a unfolding added_def by metis
  qed
  have kept: "node_at fs' q = node_at fs q" if "node_at fs q = Some Folder" "q \<noteq> p" for q
    using a that unfolding added_def by (metis option.distinct(1))
  have link: "node_at fs' q \<noteq> Some (SymLink l)" if "inside wk q" for q l
    using a s that unfolding added_def site_def by (metis Node.distinct option.inject)
  have "node_at fs' (wk_root wk @ [WORKSPACE_DIR, ''blobs'']) = None \<or> node_at fs' (wk_root wk @ [WORKSPACE_DIR, ''blobs'']) = Some Folder"
    using a s blobs unfolding added_def site_def by metis
  then show "site wk fs'" using tree link s kept[of "wk_root wk"] kept[of "wk_root wk @ [WORKSPACE_DIR]"] p by (simp add: site_def)
qed

lemma target_outside:
  assumes "engine_validate_path k = Ok ()" and "is_under (wk_root wk @ components_of k) q"
  shows "\<not> inside wk q" and "is_under (wk_root wk) q" and "q \<noteq> wk_root wk"
proof -
  obtain r where q: "q = wk_root wk @ components_of k @ r" using assms(2) by (auto simp: is_under_iff)
  obtain c cs where cs: "components_of k = c # cs" using valid_path(1)[OF assms(1)] by (cases "components_of k") auto
  have "c \<noteq> WORKSPACE_DIR" using valid_path(4)[OF assms(1), of cs] cs by auto
  then show "\<not> inside wk q" "is_under (wk_root wk) q" "q \<noteq> wk_root wk" using q cs by (auto simp: is_under_iff)
qed

lemma temporary_outside:
  assumes "engine_validate_path k = Ok ()" and "temporary_name (wk_root wk @ components_of k) q"
  shows "\<not> inside wk q" and "is_under (wk_root wk) q" and "q \<noteq> wk_root wk"
proof -
  obtain c cs where cs: "components_of k = c # cs" using valid_path(1)[OF assms(1)] by (cases "components_of k") auto
  obtain n where q: "q = wk_root wk @ butlast (c # cs) @ [''.rustsync-tmp-'' @ n]"
    using assms(2) cs by (auto simp: temporary_name_def butlast_append)
  have "c \<noteq> WORKSPACE_DIR" using valid_path(4)[OF assms(1), of cs] cs by auto
  moreover have "''.rustsync-tmp-'' @ n \<noteq> WORKSPACE_DIR" by (simp add: WORKSPACE_DIR_def)
  ultimately show "\<not> inside wk q" "is_under (wk_root wk) q" "q \<noteq> wk_root wk" using q by (auto simp: is_under_iff split: if_splits)
qed

lemma site_touched:
  assumes s: "site wk fs" and "tree_ok fs'"
    and same: "\<And>q. inside wk q \<or> q = wk_root wk \<Longrightarrow> node_at fs' q = node_at fs q"
  shows "site wk fs'"
proof -
  have "inside wk (wk_root wk @ [WORKSPACE_DIR])" "inside wk (wk_root wk @ [WORKSPACE_DIR, ''blobs''])" by (auto simp: is_under_iff)
  then show ?thesis using s same assms(2) unfolding site_def by metis
qed


section \<open>One entry\<close>

text \<open>The folders on the way to an entry are there.\<close>

definition reachable :: "Workspace \<Rightarrow> LocalFs \<Rightarrow> string \<Rightarrow> bool" where
  "reachable wk fs k \<longleftrightarrow> (\<forall>q r. components_of k = q @ r \<and> q \<noteq> [] \<and> r \<noteq> [] \<longrightarrow> node_at fs (wk_root wk @ q) = Some Folder)"

lemma reachable_clear: "site wk fs \<Longrightarrow> reachable wk fs k \<Longrightarrow> clear fs (wk_root wk @ components_of k)"
  by (rule clear_below) (auto simp: site_def reachable_def)

lemma reachable_above:
  assumes s: "site wk fs" and r: "reachable wk fs k" and up: "is_under q (wk_root wk @ components_of k)"
  shows "q = wk_root wk @ components_of k \<or> node_at fs q = Some Folder"
proof -
  obtain s where s': "wk_root wk @ components_of k = q @ s" using up by (auto simp: is_under_iff)
  show ?thesis
  proof (cases "is_under q (wk_root wk)")
    case True
    then show ?thesis using above_root[OF s] by simp
  next
    case False
    then obtain q' where q': "q = wk_root wk @ q'" "q' \<noteq> []" "components_of k = q' @ s"
      using s' by (auto simp: is_under_iff append_eq_append_conv2)
    then show ?thesis using r unfolding reachable_def by (cases "s = []") auto
  qed
qed

text \<open>What a step may change: the entry itself, what is below a file's path, the temporary file, and
  \<^verbatim>\<open>.rustsync\<close>.\<close>

definition touches :: "Workspace \<Rightarrow> string \<times> ManifestEntry \<Rightarrow> path \<Rightarrow> bool" where
  "touches wk item q \<longleftrightarrow> inside wk q \<or> q = wk_root wk @ components_of (fst item) \<or> temporary_name (wk_root wk @ components_of (fst item)) q
     \<or> snd item \<noteq> Directory \<and> is_under (wk_root wk @ components_of (fst item)) q"

definition stepped :: "Workspace \<Rightarrow> string \<times> ManifestEntry \<Rightarrow> LocalFs \<Rightarrow> LocalFs \<Rightarrow> bool" where
  "stepped wk item fs fs' \<longleftrightarrow> site wk fs' \<and> (\<forall>q. node_at fs' q \<noteq> node_at fs q \<longrightarrow> touches wk item q)"

definition fulfilled :: "local_env \<Rightarrow> ManifestEntry \<Rightarrow> Node option \<Rightarrow> bool" where
  "fulfilled env e n = (case e of File f \<Rightarrow> holds env f n | Directory \<Rightarrow> n = Some Folder)"

lemma replacing_stepped:
  assumes s: "site wk fs" and k: "engine_validate_path k = Ok ()" and r: "reachable wk fs k"
    and rep: "replacing fs (wk_root wk @ components_of k) fs'"
  shows "stepped wk (k, File f) fs fs'"
proof -
  have change: "is_under (wk_root wk @ components_of k) q \<or> temporary_name (wk_root wk @ components_of k) q"
    if "node_at fs' q \<noteq> node_at fs q" for q
    using rep that reachable_above[OF s r, of q] unfolding replacing_def by (metis is_under_refl option.distinct(1))
  have kept: "node_at fs' q = node_at fs q" if "inside wk q \<or> q = wk_root wk" for q
    using change[of q] target_outside[OF k, of wk q] temporary_outside[OF k, of wk q] that by blast
  have "site wk fs'" using rep kept by (intro site_touched[OF s]) (auto simp: replacing_def)
  then show ?thesis using change by (auto simp: stepped_def touches_def)
qed

lemma folder_stepped:
  assumes s: "site wk fs" and k: "engine_validate_path k = Ok ()" and r: "reachable wk fs k"
    and made: "folder_made fs (wk_root wk @ components_of k) fs'"
  shows "stepped wk (k, Directory) fs fs'"
proof -
  have change: "q = wk_root wk @ components_of k" if "node_at fs' q \<noteq> node_at fs q" for q
    using made that reachable_above[OF s r, of q] unfolding folder_made_def by (metis option.distinct(1))
  have kept: "node_at fs' q = node_at fs q" if "inside wk q \<or> q = wk_root wk" for q
    using change[of q] target_outside[OF k, of wk q] that by (metis is_under_refl)
  have "site wk fs'" using made kept by (intro site_touched[OF s]) (auto simp: folder_made_def)
  then show ?thesis using change by (auto simp: stepped_def touches_def)
qed


lemma stepped_trans: "stepped wk x fs fs1 \<Longrightarrow> stepped wk x fs1 fs2 \<Longrightarrow> stepped wk x fs fs2"
  unfolding stepped_def by metis

lemma added_stepped:
  assumes "site wk fs" and "added fs (wk_root wk @ WORKSPACE_DIR # x # y) fs'" and "x = ''blobs'' \<Longrightarrow> y \<noteq> []"
  shows "stepped wk item fs fs'"
  using added_site[OF assms(1,2) refl] assms(3) by (auto simp: stepped_def touches_def)

lemma workspace_path_valid: "engine_validate_path k = Ok () \<Longrightarrow> workspace_path wk k = Ok (wk_root wk @ components_of k)"
  by (simp add: workspace_path_def)

lemma then_lift_ok [simp]: "then_do (lift_result (Ok a)) k = k a"
  by (simp add: then_do_def lift_result_def fun_eq_iff)

text \<open>A file entry: the cache, then the file, unless it has its content already.\<close>

lemma apply_file_post:
  assumes s: "site wk fs" and ly: "wk_layout wk = layout_new (wk_root wk)"
    and k: "engine_validate_path k = Ok ()" and r: "reachable wk fs k" and tidy_k: "\<not> is_internal (components_of k)"
    and bs: "map_of fetched (fe_content_hash f) = Some bs" "hex_encode (le_sha256 env bs) = fe_content_hash f" "of_nat (length bs) = fe_size f"
    and unchanged: "k \<in> set unchanged \<Longrightarrow> holds env f (node_at fs (wk_root wk @ components_of k))"
  shows "post (apply_entry env wk fetched unchanged (k, File f) report) fs (\<lambda>fs' r. stepped wk (k, File f) fs fs'
    \<and> (if is_ok r then fulfilled env (File f) (node_at fs' (wk_root wk @ components_of k))
       else still_there fs (wk_root wk @ components_of k) fs'))"
    (is "post _ _ ?P")
proof -
  let ?t = "wk_root wk @ components_of k"
  have blob: "staged_blob_path wk h = wk_root wk @ [WORKSPACE_DIR, ''blobs'', h]" for h
    using ly by (metis append.assoc append_Cons append_Nil layout_new_def staged_blob_path_def WorkspaceLayout.select_convs(2))
  have in_blobs: "inside wk (wk_root wk @ [WORKSPACE_DIR, ''blobs'', h])" for h by (auto simp: is_under_iff)
  have tree: "tree_ok fs" using s by (simp add: site_def)
  have temp: "\<not> temporary_name ?t ?t" using temporary_internal[of ?t ?t, OF _ refl valid_path(1)[OF k]] tidy_k by blast
  have t: "?t \<noteq> []" using valid_path(1)[OF k] by simp
  have clear: "clear fs (staged_blob_path wk (fe_content_hash f))" unfolding blob by (rule clear_inside(1)[OF s])
  have link: "node_at fs (staged_blob_path wk (fe_content_hash f)) \<noteq> Some (SymLink l)" for l
    unfolding blob using s in_blobs by (simp add: site_def)
  have rest: "post (if k \<in> set unchanged then done_with report' else then_do (replace_file ?t bs) (\<lambda>_. done_with report'')) fs1 ?P"
    if "added fs (staged_blob_path wk (fe_content_hash f)) fs1" for fs1 report' report''
  proof -
    have st: "stepped wk (k, File f) fs fs1" by (rule added_stepped[OF s that[unfolded blob]]) simp
    have same: "node_at fs1 q = node_at fs q" if "is_under (wk_root wk) q" "\<not> inside wk q" for q
      using added_site(2)[OF s \<open>added fs (staged_blob_path wk (fe_content_hash f)) fs1\<close>[unfolded blob]] that by simp
    have target: "node_at fs1 ?t = node_at fs ?t" using same[of ?t] target_outside[OF k is_under_refl] by blast
    have s1: "site wk fs1" using st by (simp add: stepped_def)
    have r1: "reachable wk fs1 k" unfolding reachable_def
    proof (intro allI impI)
      fix q r' assume q: "components_of k = q @ r' \<and> q \<noteq> [] \<and> r' \<noteq> []"
      have "\<not> inside wk (wk_root wk @ q)" using q valid_path(4)[OF k] by (cases q) (auto simp: is_under_iff)
      then show "node_at fs1 (wk_root wk @ q) = Some Folder"
        using same[of "wk_root wk @ q"] q r by (auto simp: reachable_def is_under_iff)
    qed
    have replace: "post (replace_file ?t bs) fs1 (\<lambda>fs' r. case r of Ok _ \<Rightarrow> replaced fs1 ?t bs fs' | Err _ \<Rightarrow> abandoned fs1 ?t fs')"
      using s1 by (intro replace_file_post reachable_clear r1 temp t) (simp_all add: site_def)
    show ?thesis
    proof (cases "k \<in> set unchanged")
      case True
      then show ?thesis using st unchanged target by (simp add: post_done fulfilled_def)
    next
      case False
      have "post (then_do (replace_file ?t bs) (\<lambda>_. done_with report'')) fs1 ?P"
      proof (rule post_thenI[OF replace], goal_cases)
        case (1 fs2 u)
        then have rep: "replacing fs1 ?t fs2" and "\<exists>x. node_at fs2 ?t = Some (RegularFile bs x)" by (auto simp: replaced_def)
        then show ?case using stepped_trans[OF st replacing_stepped[OF s1 k r1 rep, of f]] bs(2,3)
          by (auto simp: post_done fulfilled_def holds_def)
      next
        case (2 fs2 e)
        then have rep: "replacing fs1 ?t fs2" and "still_there fs1 ?t fs2" by (auto simp: abandoned_def)
        then show ?case using stepped_trans[OF st replacing_stepped[OF s1 k r1 rep, of f]] target by (simp add: still_there_def)
      qed
      then show ?thesis using False by simp
    qed
  qed
  show ?thesis unfolding apply_entry_def prod.case workspace_path_valid[OF k] then_lift_ok ManifestEntry.case bs(1) option.case Let_def
  proof (rule post_thenI[OF cache_blob_post[OF tree clear link]], goal_cases)
    case (1 fs1 a)
    then show ?case by (rule rest)
  next
    case (2 fs1 e)
    then have "added fs (wk_root wk @ [WORKSPACE_DIR, ''blobs'', fe_content_hash f]) fs1" using blob by simp
    then show ?case using added_stepped[OF s, of "''blobs''"] added_site(2)[OF s _ refl] target_outside[OF k is_under_refl]
      by (simp add: still_there_def)
  qed
qed

lemma apply_folder_post:
  assumes s: "site wk fs" and k: "engine_validate_path k = Ok ()" and r: "reachable wk fs k"
  shows "post (apply_entry env wk fetched unchanged (k, Directory) report) fs (\<lambda>fs' r. stepped wk (k, Directory) fs fs'
    \<and> (is_ok r \<longrightarrow> fulfilled env Directory (node_at fs' (wk_root wk @ components_of k))))"
proof -
  have t: "tree_ok fs" "clear fs (wk_root wk @ components_of k)" "wk_root wk @ components_of k \<noteq> []"
    using s reachable_clear[OF s r] valid_path(1)[OF k] by (simp_all add: site_def)
  show ?thesis unfolding apply_entry_def prod.case workspace_path_valid[OF k] then_lift_ok ManifestEntry.case
    by (rule post_thenI[OF prepare_directory_post[OF t]])
      (use folder_stepped[OF s k r] in \<open>auto simp: post_done fulfilled_def\<close>)
qed



section \<open>All entries\<close>

definition same_outside :: "Workspace \<Rightarrow> LocalFs \<Rightarrow> LocalFs \<Rightarrow> bool" where
  "same_outside wk fs fs' \<longleftrightarrow> (\<forall>q. \<not> is_under (wk_root wk) q \<longrightarrow> node_at fs' q = node_at fs q)"

text \<open>Every file of the manifest is as it was or as it is to be, but for a folder already removed to
  make place for it.\<close>

definition no_torn_file :: "local_env \<Rightarrow> Workspace \<Rightarrow> Manifest \<Rightarrow> LocalFs \<Rightarrow> LocalFs \<Rightarrow> bool" where
  "no_torn_file env wk m fs fs' \<longleftrightarrow> (\<forall>k f. (k, File f) \<in> set (mf_entries m) \<longrightarrow>
     still_there fs (wk_root wk @ components_of k) fs' \<or> holds env f (node_at fs' (wk_root wk @ components_of k)))"

definition in_place :: "local_env \<Rightarrow> Workspace \<Rightarrow> (string \<times> ManifestEntry) list \<Rightarrow> LocalFs \<Rightarrow> bool" where
  "in_place env wk entries fs \<longleftrightarrow> (\<forall>(k, e) \<in> set entries. fulfilled env e (node_at fs (wk_root wk @ components_of k)))"

definition pulling :: "local_env \<Rightarrow> Workspace \<Rightarrow> LocalFs \<Rightarrow> (string \<times> ManifestEntry) list \<Rightarrow>
    (string \<times> ManifestEntry) list \<Rightarrow> LocalFs \<Rightarrow> bool" where
  "pulling env wk fs past rest fs' \<longleftrightarrow> site wk fs' \<and> same_outside wk fs fs' \<and> in_place env wk past fs'
     \<and> (\<forall>k f. (k, File f) \<in> set rest \<longrightarrow> node_at fs' (wk_root wk @ components_of k) = node_at fs (wk_root wk @ components_of k))"

lemma pulling_no_torn_file:
  assumes "pulling env wk fs past rest fs'" and "mf_entries m = past @ rest"
  shows "no_torn_file env wk m fs fs'"
  using assms by (auto simp: pulling_def no_torn_file_def in_place_def fulfilled_def still_there_def)

text \<open>A step towards one entry leaves the others alone.\<close>

lemma other_untouched:
  assumes m: "tidy m" and valid: "\<And>k. k \<in> set (entry_keys m) \<Longrightarrow> engine_validate_path k = Ok ()"
    and x: "(k, e) \<in> set (mf_entries m)" and other: "(k', e') \<in> set (mf_entries m)" "k' \<noteq> k"
  shows "\<not> touches wk (k, e) (wk_root wk @ components_of k')"
proof -
  have keys: "k \<in> set (entry_keys m)" "k' \<in> set (entry_keys m)" using x other by (force simp: entry_keys_def)+
  note v = valid[OF keys(1)] and v' = valid[OF keys(2)]
  have "\<not> inside wk (wk_root wk @ components_of k')" by (rule target_outside(1)[OF v' is_under_refl])
  moreover have "components_of k' \<noteq> components_of k" using valid_path(3)[OF v] valid_path(3)[OF v'] other(2) by metis
  moreover have "\<not> temporary_name (wk_root wk @ components_of k) (wk_root wk @ components_of k')"
    using temporary_internal[OF _ refl valid_path(1)[OF v']] m keys(2) by (auto simp: tidy_def)
  moreover have "\<not> is_under (wk_root wk @ components_of k) (wk_root wk @ components_of k')" if "e = File f" for f
    using file_not_above[OF m _ v keys(2) v', of f] x other(2) that by (auto simp: is_under_iff)
  ultimately show ?thesis by (cases e) (auto simp: touches_def)
qed

lemma touches_root: "engine_validate_path (fst x) = Ok () \<Longrightarrow> touches wk x q \<Longrightarrow> is_under (wk_root wk) q"
  using target_outside(2)[of "fst x" wk q] temporary_outside(2)[of "fst x" wk q]
  by (auto simp: touches_def is_under_iff)

lemma reachable_step:
  assumes m: "tidy m" and entries: "mf_entries m = past @ (k, e) # rest" and valid: "engine_validate_path k = Ok ()"
    and past: "in_place env wk past fs"
  shows "reachable wk fs k"
  unfolding reachable_def
proof (intro allI impI, elim conjE)
  fix q r assume q: "components_of k = q @ r" "q \<noteq> []" "r \<noteq> []"
  note parts = components_prefix[OF valid q]
  have key: "k \<in> set (entry_keys m)" using entries by (simp add: entry_keys_def)
  have "(join_with [slash] q, Directory) \<in> set (mf_entries m)" by (rule tidy_keys[OF m key valid q])
  moreover have "k \<le> k'" if "(k', e') \<in> set ((k, e) # rest)" for k' e'
    using m that unfolding tidy_def bt_wf_def entries by (auto simp: sorted_wrt_append)
  ultimately have "(join_with [slash] q, Directory) \<in> set past" using parts(3) entries by (auto simp: not_less[symmetric])
  then show "node_at fs (wk_root wk @ q) = Some Folder" using past parts(2) by (auto simp: in_place_def fulfilled_def)
qed

lemma stepped_pulling:
  assumes m: "tidy m" and valid: "\<And>k. k \<in> set (entry_keys m) \<Longrightarrow> engine_validate_path k = Ok ()"
    and entries: "mf_entries m = past @ (k, e) # rest" and J: "pulling env wk fs past ((k, e) # rest) fs1"
    and st: "stepped wk (k, e) fs1 fs2"
  shows "site wk fs2" "same_outside wk fs fs2" "in_place env wk past fs2"
    and "\<And>k' f. (k', File f) \<in> set rest \<Longrightarrow> node_at fs2 (wk_root wk @ components_of k') = node_at fs (wk_root wk @ components_of k')"
proof -
  have x: "(k, e) \<in> set (mf_entries m)" "k \<in> set (entry_keys m)" using entries by (simp_all add: entry_keys_def)
  have distinct: "distinct (map fst (mf_entries m))" using m bt_wf_distinct[of "mf_entries m"] by (simp add: tidy_def)
  have other: "k' \<noteq> k" if "(k', e') \<in> set past \<or> (k', e') \<in> set rest" for k' e'
    using distinct that unfolding entries by (auto simp: image_iff)
  have kept: "node_at fs2 (wk_root wk @ components_of k') = node_at fs1 (wk_root wk @ components_of k')"
    if "(k', e') \<in> set past \<or> (k', e') \<in> set rest" for k' e'
    using other_untouched[OF m valid x(1) _ other[OF that], of e'] that entries st by (auto simp: stepped_def)
  show "site wk fs2" using st by (simp add: stepped_def)
  show "same_outside wk fs fs2"
    unfolding same_outside_def
  proof (intro allI impI)
    fix q assume q: "\<not> is_under (wk_root wk) q"
    then have "\<not> touches wk (k, e) q" using touches_root[of "(k, e)" wk q] valid[OF x(2)] by auto
    then have "node_at fs2 q = node_at fs1 q" using st by (auto simp: stepped_def)
    then show "node_at fs2 q = node_at fs q" using J q by (simp add: pulling_def same_outside_def)
  qed
  show "in_place env wk past fs2" unfolding in_place_def
  proof (intro ballI, clarify)
    fix k' e' assume "(k', e') \<in> set past"
    then show "fulfilled env e' (node_at fs2 (wk_root wk @ components_of k'))"
      using kept[of k' e'] J by (auto simp: pulling_def in_place_def)
  qed
  show "node_at fs2 (wk_root wk @ components_of k') = node_at fs (wk_root wk @ components_of k')" if "(k', File f) \<in> set rest" for k' f
    using J kept[of k' "File f"] that by (simp add: pulling_def)
qed

lemma apply_entries_post:
  assumes m: "tidy m" and valid: "\<And>k. k \<in> set (entry_keys m) \<Longrightarrow> engine_validate_path k = Ok ()"
    and ly: "wk_layout wk = layout_new (wk_root wk)"
    and fetched: "fetched_ok env fetched" "check_sizes m fetched = Ok ()" and unchanged: "unchanged_ok env wk m fs unchanged"
    and start: "pulling env wk fs [] (mf_entries m) fs0"
  shows "post (fold_do (apply_entry env wk fetched unchanged) (mf_entries m) report) fs0 (\<lambda>fs' r. case r of
     Ok _ \<Rightarrow> pulling env wk fs (mf_entries m) [] fs' | Err _ \<Rightarrow> same_outside wk fs fs' \<and> no_torn_file env wk m fs fs')"
proof (rule fold_do_post[where J = "\<lambda>past rest a. pulling env wk fs past rest" and
      W = "\<lambda>fs'. same_outside wk fs fs' \<and> no_torn_file env wk m fs fs'"], goal_cases)
  case J: (1 past x rest a fs1)
  obtain k e where x: "x = (k, e)" by (cases x)
  note entries = J(1)[unfolded x] and inv = J(2)[unfolded x]
  have entry: "(k, e) \<in> set (mf_entries m)" "k \<in> set (entry_keys m)" using entries by (simp_all add: entry_keys_def)
  note v = valid[OF entry(2)] and after = stepped_pulling[OF m valid entries inv]
  have s: "site wk fs1" and r: "reachable wk fs1 k"
    using inv reachable_step[OF m entries v, of env wk fs1] by (simp_all add: pulling_def)
  show ?case
  proof (cases e)
    case Directory
    have "post (apply_entry env wk fetched unchanged (k, Directory) a) fs1 (\<lambda>fs' r. stepped wk (k, Directory) fs1 fs'
        \<and> (is_ok r \<longrightarrow> fulfilled env Directory (node_at fs' (wk_root wk @ components_of k))))"
      by (rule apply_folder_post[OF s v r])
    then show ?thesis unfolding x Directory
    proof (rule post_mono, goal_cases)
      case (1 fs2 res)
      note after = after[unfolded Directory, OF _ conjunct1[OF 1]]
      have "pulling env wk fs past rest fs2" using after by (simp add: pulling_def)
      then show ?case using 1 after entries Directory
        by (auto simp: pulling_def in_place_def no_torn_file_def fulfilled_def still_there_def split: result.splits)
    qed
  next
    case (File f)
    have old: "node_at fs1 (wk_root wk @ components_of k) = node_at fs (wk_root wk @ components_of k)"
      using inv File by (simp add: pulling_def)
    obtain bs where bs: "map_of fetched (fe_content_hash f) = Some bs" "of_nat (length bs) = fe_size f"
      using fetched(2) entry(1) File by (fastforce simp: check_sizes_def split: if_splits)
    have hash: "hex_encode (le_sha256 env bs) = fe_content_hash f" using fetched(1) bs(1) by (simp add: fetched_ok_def)
    have keep: "holds env f (node_at fs1 (wk_root wk @ components_of k))" if k: "k \<in> set unchanged"
    proof -
      obtain f' where f': "(k, File f') \<in> set (mf_entries m)" "holds env f' (node_at fs (wk_root wk @ components_of k))"
        using unchanged k by (auto simp: unchanged_ok_def)
      then have "f' = f" using entry(1) File m bt_in_set_iff[of "mf_entries m"] by (simp add: tidy_def)
      then show ?thesis using f' old by simp
    qed
    have "\<not> is_internal (components_of k)" using m entry(2) by (simp add: tidy_def)
    from apply_file_post[OF s ly v r this bs(1) hash bs(2) keep]
    show ?thesis unfolding x File
    proof (rule post_mono, goal_cases)
      case (2 fs2 res)
      note after = after[unfolded File, OF _ conjunct1[OF 2]]
      show ?case
      proof (cases res)
        case (Ok u)
        then show ?thesis using 2 after by (auto simp: pulling_def in_place_def)
      next
        case (Err u)
        have "no_torn_file env wk m fs fs2" using 2 after Err old entries File
          by (auto simp: no_torn_file_def in_place_def fulfilled_def still_there_def)
        then show ?thesis using after Err by simp
      qed
    qed simp
  qed
qed (rule start)



section \<open>The whole pull\<close>

text \<open>Names that are no path of their own: on the device the program may run on, a name with a
  backslash would be taken for a path.\<close>

definition plain_names :: "Workspace \<Rightarrow> LocalFs \<Rightarrow> bool" where
  "plain_names wk fs \<longleftrightarrow> (\<forall>rel. node_at fs (wk_root wk @ rel) \<noteq> None \<longrightarrow> (\<forall>c \<in> set rel. good_component c))"

lemma seen_clear:
  assumes "tree_ok fs" and "plain_names wk fs" and "seen_at fs (wk_root wk) p"
  shows "clear fs (wk_root wk @ components_of p) \<and> components_of p \<noteq> []"
proof -
  obtain rel where rel: "rel \<noteq> []" "p = relative_text rel" "node_at fs (wk_root wk @ rel) \<noteq> None"
    using assms(3) by (auto simp: seen_at_def)
  have good: "good_component c" if "c \<in> set rel" for c using assms(2) rel(3) that by (auto simp: plain_names_def)
  then have "backslash \<notin> set (join_with [slash] rel)" by (auto simp: set_join_with good_component_def)
  then have "p = join_with [slash] rel" unfolding rel(2) relative_text_def by (intro map_idI) auto
  then have "components_of p = rel" using components_of_join[OF rel(1) good] by simp
  then show ?thesis using rel(1,3) tree_ok_clear[OF assms(1)] by simp
qed

lemma removed_pulling:
  assumes s: "site wk fs" and m: "tidy m" and valid: "\<And>k. k \<in> set (entry_keys m) \<Longrightarrow> engine_validate_path k = Ok ()"
    and gone: "tree_ok fs'" "shrunk fs fs' (removable wk m)"
  shows "pulling env wk fs [] (mf_entries m) fs'"
proof -
  have safe: "node_at fs' q = node_at fs q" if "\<not> removable wk m q" for q
    using gone(2) that unfolding shrunk_def by blast
  have outside: "\<not> inside wk q \<and> is_under (wk_root wk) q \<and> q \<noteq> wk_root wk" if "removable wk m q" for q
    using that target_outside unfolding removable_def by blast
  have key: "\<not> removable wk m (wk_root wk @ components_of k)" if k: "k \<in> set (entry_keys m)" for k
  proof
    assume "removable wk m (wk_root wk @ components_of k)"
    then obtain k' r where k': "engine_validate_path k' = Ok ()" "k' \<notin> set (entry_keys m)" "components_of k = components_of k' @ r"
      by (auto simp: removable_def is_under_iff)
    note join = valid_path(3)[OF k'(1)] valid_path(3)[OF valid[OF k]]
    show False
    proof (cases "r = []")
      case True
      then show False using k k' join by simp
    next
      case False
      have "(k', Directory) \<in> set (mf_entries m)"
        using tidy_keys[OF m k valid[OF k] k'(3) valid_path(1)[OF k'(1)] False] join by simp
      then show False using k'(2) by (force simp: entry_keys_def)
    qed
  qed
  have "site wk fs'" using safe outside by (intro site_touched[OF s gone(1)]) blast
  moreover have "same_outside wk fs fs'" using safe outside unfolding same_outside_def by blast
  moreover have "node_at fs' (wk_root wk @ components_of k) = node_at fs (wk_root wk @ components_of k)"
    if "(k, File f) \<in> set (mf_entries m)" for k f
  proof -
    have "k \<in> set (entry_keys m)" using that by (force simp: entry_keys_def)
    then show ?thesis using safe[OF key] by simp
  qed
  ultimately show ?thesis by (simp add: pulling_def in_place_def)
qed

lemma save_manifest_post:
  assumes s: "site wk fs" and ly: "wk_layout wk = layout_new (wk_root wk)"
  shows "post (save_manifest env wk m) fs (\<lambda>fs' r. added fs (wk_root wk @ [WORKSPACE_DIR, ''manifest.json'']) fs')"
proof -
  let ?p = "wk_root wk @ [WORKSPACE_DIR, ''manifest.json'']"
  have path: "ly_manifest_path (wk_layout wk) = ?p"
    using ly by (metis append.assoc append_Cons append_Nil layout_new_def WorkspaceLayout.select_convs(7))
  have tree: "tree_ok fs" using s by (simp add: site_def)
  have "inside wk ?p" by (auto simp: is_under_iff)
  then have link: "node_at fs ?p \<noteq> Some (SymLink l)" for l using s by (simp add: site_def)
  have wrote: "post (map_error (write_file ?p bs) ManifestIo) fs (\<lambda>fs' r. added fs ?p fs')" for bs
    by (rule post_mapI[OF write_added[OF tree clear_inside(2)[OF s] _ link]]) simp_all
  have "post (save_manifest env wk m) fs (\<lambda>fs' r. added fs ?p fs')"
    unfolding save_manifest_def path post_then post_lift
    using wrote added_same[OF refl tree] by (auto split: result.splits)
  then show ?thesis .
qed

lemma pulling_saved:
  assumes "pulling env wk fs past rest fs1" and a: "added fs1 (wk_root wk @ [WORKSPACE_DIR, ''manifest.json'']) fs2"
    and valid: "\<And>k e. (k, e) \<in> set past \<Longrightarrow> engine_validate_path k = Ok ()" and "rest = []"
  shows "pulling env wk fs past rest fs2"
proof -
  have s: "site wk fs1" using assms(1) by (simp add: pulling_def)
  note saved = added_site[OF s a, of "''manifest.json''" "[]"]
  have same: "node_at fs2 q = node_at fs1 q" if "\<not> inside wk q" for q using saved(2) that by simp
  have "in_place env wk past fs2"
  proof -
    have "node_at fs2 (wk_root wk @ components_of k) = node_at fs1 (wk_root wk @ components_of k)" if "(k, e) \<in> set past" for k e
      by (rule same[OF target_outside(1)[OF valid[OF that] is_under_refl]])
    then show ?thesis using assms(1) by (auto simp: pulling_def in_place_def)
  qed
  moreover have "same_outside wk fs fs2"
  proof -
    have "\<not> inside wk q" if "\<not> is_under (wk_root wk) q" for q using that by (auto simp: is_under_iff)
    then show ?thesis using assms(1) same by (simp add: pulling_def same_outside_def)
  qed
  ultimately show ?thesis using saved(1) assms(4) by (simp add: pulling_def)
qed

text \<open>What a pull leaves, however it ends.\<close>

definition pulled :: "local_env \<Rightarrow> Workspace \<Rightarrow> Manifest \<Rightarrow> LocalFs \<Rightarrow> LocalFs \<Rightarrow> (ApplyReport, LocalWorkspaceError) result \<Rightarrow> bool" where
  "pulled env wk m fs fs' r \<longleftrightarrow> same_outside wk fs fs' \<and> no_torn_file env wk m fs fs' \<and> (is_ok r \<longrightarrow> in_place env wk (mf_entries m) fs')"

lemma pulled_nothing: "node_at fs' = node_at fs \<Longrightarrow> pulled env wk m fs fs' (Err e)"
  by (simp add: pulled_def same_outside_def no_torn_file_def still_there_def)

lemma pulling_pulled: "pulling env wk fs (mf_entries m) [] fs' \<Longrightarrow> pulled env wk m fs fs' r"
  using pulling_no_torn_file[of env wk fs "mf_entries m" "[]" fs' m] by (simp add: pulled_def pulling_def)

lemma apply_pulled_post:
  assumes s: "site wk fs" and ly: "wk_layout wk = layout_new (wk_root wk)" and names: "plain_names wk fs" and m: "tidy m"
    and valid: "\<And>k. k \<in> set (entry_keys m) \<Longrightarrow> engine_validate_path k = Ok ()"
  shows "post (apply_pulled_manifest env wk m src) fs (pulled env wk m fs)"
  unfolding apply_pulled_manifest_def
proof (rule post_thenI[OF prepare_apply_post], goal_cases)
  case (4 fs1 plan)
  obtain local_paths unchanged fetched where plan: "plan = (local_paths, unchanged, fetched)" by (cases plan)
  have nodes: "lf_nodes fs1 = lf_nodes fs" using 4 by simp
  note at = node_at_nodes[OF nodes]
  have rdy: "unchanged_ok env wk m fs unchanged" "fetched_ok env fetched" "check_sizes m fetched = Ok ()"
      "\<And>p. p \<in> set local_paths \<Longrightarrow> seen_at fs (wk_root wk) p"
    using 4 plan by (auto simp: ready_def)
  have tree: "tree_ok fs" "tree_ok fs1" using s tree_ok_nodes[OF nodes] by (simp_all add: site_def)
  have paths: "clear fs1 (wk_root wk @ components_of p) \<and> components_of p \<noteq> []" if "p \<in> set local_paths" for p
    using seen_clear[OF tree(1) names rdy(4)[OF that]] clear_nodes[OF nodes] by simp
  show ?case unfolding plan case_prod_conv
  proof (rule post_thenI[OF remove_entries_post[OF tree(2) paths]], assumption, goal_cases)
    case (1 fs2 removed)
    have "shrunk fs fs2 (removable wk m)" using 1 at by (simp add: shrunk_def)
    then have start: "pulling env wk fs [] (mf_entries m) fs2" using removed_pulling[OF s m valid] 1 by blast
    show ?case
    proof (rule post_thenI[OF apply_entries_post[OF m valid ly rdy(2,3,1) start]], assumption, goal_cases)
      case (1 fs3 report)
      then have done3: "pulling env wk fs (mf_entries m) [] fs3" by simp
      then have s3: "site wk fs3" by (simp add: pulling_def)
      have keys: "engine_validate_path k = Ok ()" if "(k, e) \<in> set (mf_entries m)" for k e
        using that valid by (force simp: entry_keys_def)
      show ?case unfolding post_then post_map_error
        by (rule post_mono[OF save_manifest_post[OF s3 ly]])
          (use pulling_saved[OF done3 _ keys refl] in \<open>auto simp: post_done intro: pulling_pulled split: result.splits\<close>)
    next
      case (2 fs3 e)
      then show ?case by (simp add: pulled_def)
    qed
  next
    case (2 fs2 e)
    have "shrunk fs fs2 (removable wk m)" using 2 at by (simp add: shrunk_def)
    then have start: "pulling env wk fs [] (mf_entries m) fs2" using removed_pulling[OF s m valid] 2 by blast
    then show ?case using pulling_no_torn_file[OF start, of m] by (simp add: pulled_def pulling_def)
  qed
next
  case (5 fs1 e)
  then show ?case using node_at_nodes[of fs1 fs] by (intro pulled_nothing) simp
qed (use s valid valid_path(1) in \<open>auto simp: site_def\<close>)

lemma apply_refused:
  assumes "validate_pulled_manifest wk m \<noteq> Ok ()"
  shows "fst (apply_pulled_manifest env wk m src fs) = fs \<and> \<not> is_ok (snd (apply_pulled_manifest env wk m src fs))"
proof -
  obtain e where "validate_pulled_manifest wk m = Err e" using assms by (cases "validate_pulled_manifest wk m") auto
  then show ?thesis by (simp add: apply_pulled_manifest_def prepare_apply_def then_do_def lift_result_def)
qed

lemma apply_pulled:
  assumes "site wk fs" and "wk_layout wk = layout_new (wk_root wk)" and "plain_names wk fs" and "tidy m"
    and run: "apply_pulled_manifest env wk m src fs = (fs', r)"
  shows "pulled env wk m fs fs' r"
proof (cases "validate_pulled_manifest wk m = Ok ()")
  case True
  show ?thesis using postD[OF apply_pulled_post[OF assms(1-4) validated_keys[OF True]] run] .
next
  case False
  then have "fs' = fs" "\<not> is_ok r" using apply_refused[OF False, of env src fs] run by auto
  then show ?thesis by (cases r) (simp_all add: pulled_nothing)
qed

text \<open>
  Property C38: a pull is applied safely.  Whatever call fails in the middle of it, and whatever contents the
  remote sends, nothing outside the workspace changes, and every file of the manifest is as it was or
  has the whole content the manifest gives, with the hash and the size; only a folder that a file
  replaces may be found missing.  When the pull succeeds, every file has its content and every folder
  is there.  The workspace is one the program made, its names are plain, and the manifest is one the
  program builds: with every folder on the way, and no internal names.
\<close>

theorem pull_applied_safely:
  assumes "site wk fs" and "wk_layout wk = layout_new (wk_root wk)" and "plain_names wk fs" and "tidy m"
    and "apply_pulled_manifest env wk m src fs = (fs', r)"
  shows "(\<forall>q. \<not> is_under (wk_root wk) q \<longrightarrow> node_at fs' q = node_at fs q)
    \<and> (\<forall>k f. (k, File f) \<in> set (mf_entries m) \<longrightarrow>
        (let target = wk_root wk @ components_of k in
         node_at fs' target = node_at fs target \<or> node_at fs target = Some Folder \<and> node_at fs' target = None
         \<or> (\<exists>bs t. node_at fs' target = Some (RegularFile bs t)
             \<and> hex_encode (le_sha256 env bs) = fe_content_hash f \<and> of_nat (length bs) = fe_size f)))
    \<and> (is_ok r \<longrightarrow> (\<forall>(k, e) \<in> set (mf_entries m). case e of
         Directory \<Rightarrow> node_at fs' (wk_root wk @ components_of k) = Some Folder
       | File f \<Rightarrow> (\<exists>bs t. node_at fs' (wk_root wk @ components_of k) = Some (RegularFile bs t)
             \<and> hex_encode (le_sha256 env bs) = fe_content_hash f \<and> of_nat (length bs) = fe_size f)))"
  using apply_pulled[OF assms]
  by (simp only: pulled_def same_outside_def no_torn_file_def in_place_def still_there_def holds_def fulfilled_def Let_def disj_assoc)


section \<open>A sample\<close>

text \<open>A workspace in \<^verbatim>\<open>/w\<close> with a file the manifest does not have, one that a
  folder of the manifest replaces, and an interrupted lookup; the hash of a content is the content.\<close>

definition sample_local :: local_env where
  "sample_local = \<lparr>le_sha256 = (\<lambda>bs. bs), le_manifest_to_json = (\<lambda>m. Ok []), le_manifest_from_json = (\<lambda>bs. Err ''empty''),
     le_state_to_json = (\<lambda>s. Ok []), le_state_from_json = (\<lambda>bs. Err ''empty''), le_gitignore = (\<lambda>rules. Ok (\<lambda>p dir. False))\<rparr>"

definition sample_place :: Workspace where
  "sample_place = \<lparr>wk_layout = layout_new [''w''], wk_config = \<lparr>wc_server_url = None, wc_workspace_id = WorkspaceId ''w'',
     wc_local_device_id = DeviceId ''d'', wc_default_key_id = KeyId ''k''\<rparr>\<rparr>"

definition sample_tree :: LocalFs where
  "sample_tree = \<lparr>lf_nodes = [([''w''], Folder), ([''w'', ''.rustsync''], Folder), ([''w'', ''d''], RegularFile [1] None),
     ([''w'', ''old''], RegularFile [2] None)], lf_faults = [None, None, Some (Fault 0 ''interrupted'')], lf_names = [''x''], lf_now = None\<rparr>"

definition sample_pull :: Manifest where
  "sample_pull = \<lparr>mf_workspace_id = WorkspaceId ''w'', mf_entries = [(''d'', Directory),
     (''d/f'', File \<lparr>fe_size = 1, fe_content_hash = ''07'', fe_modified_at = 0, fe_remote_blob_id = None, fe_remote_chunk_ids = []\<rparr>)]\<rparr>"

definition sample_blob_source :: "string \<Rightarrow> (bytes, IoError) result" where
  "sample_blob_source h = Ok [7]"

definition sample_pulled :: LocalFs where
  "sample_pulled = \<lparr>lf_nodes = [([''w''], Folder), ([''w'', ''.rustsync''], Folder), ([''w'', ''.rustsync'', ''blobs''], Folder),
     ([''w'', ''.rustsync'', ''blobs'', ''07''], RegularFile [7] None), ([''w'', ''.rustsync'', ''manifest.json''], RegularFile [] None),
     ([''w'', ''d''], Folder), ([''w'', ''d'', ''f''], RegularFile [7] None)], lf_faults = [], lf_names = [], lf_now = None\<rparr>"

lemma sample_pull_runs:
  "apply_pulled_manifest sample_local sample_place sample_pull sample_blob_source sample_tree
   = (sample_pulled, Ok \<lparr>ar_removed_paths = 1, ar_written_files = 1, ar_prepared_directories = 1, ar_cached_blobs = 1\<rparr>)"
  by code_simp

lemma sample_nodes:
  "node_at sample_tree p = (if p \<in> {[], [''w''], [''w'', ''.rustsync'']} then Some Folder
     else if p = [''w'', ''d''] then Some (RegularFile [1] None) else if p = [''w'', ''old''] then Some (RegularFile [2] None) else None)"
  by (auto simp: node_at_def sample_tree_def)

lemma sample_root: "wk_layout sample_place = layout_new [''w'']" "ly_root (layout_new [''w'']) = [''w'']"
  by (simp_all add: sample_place_def layout_new_def Let_def)

lemma sample_site: "site sample_place sample_tree"
  unfolding site_def tree_ok_def sample_root sample_nodes
  by (auto simp: WORKSPACE_DIR_def split: if_splits)

lemma sample_plain: "plain_names sample_place sample_tree"
  unfolding plain_names_def sample_root sample_nodes
  by (auto simp: good_component_def bad_component_def split: if_splits)

lemma sample_tidy: "tidy sample_pull"
  unfolding tidy_def bt_wf_def by code_simp

theorem pull_applied_safely_witness:
  "\<exists>fs'. apply_pulled_manifest sample_local sample_place sample_pull sample_blob_source sample_tree
      = (fs', Ok \<lparr>ar_removed_paths = 1, ar_written_files = 1, ar_prepared_directories = 1, ar_cached_blobs = 1\<rparr>)
    \<and> node_at fs' [''x''] = node_at sample_tree [''x''] \<and> node_at fs' [''w'', ''d''] = Some Folder
    \<and> (\<exists>bs t. node_at fs' [''w'', ''d'', ''f''] = Some (RegularFile bs t) \<and> hex_encode bs = ''07'')"
proof -
  have layout: "wk_layout sample_place = layout_new (wk_root sample_place)" by (simp add: sample_root)
  note result = pull_applied_safely[OF sample_site layout sample_plain sample_tidy sample_pull_runs]
  have paths: "components_of ''d'' = [''d'']" "components_of ''d/f'' = [''d'', ''f'']" by code_simp+
  have "\<not> is_under (wk_root sample_place) [''x'']" by (simp add: sample_root is_under_def)
  with result show ?thesis using sample_pull_runs
    by (auto simp: sample_pull_def sample_root paths sample_local_def)
qed

end
