(* ===== verification/Local_Stores.thy ===== *)
theory Local_Stores
  imports Local_Facts Key_Delivery
begin

text \<open>
  What a device keeps under \<^verbatim>\<open>.rustsync\<close>: \<^verbatim>\<open>rustsync-core/src/keyring\<close>,
  \<^verbatim>\<open>access/store.rs\<close> and \<^verbatim>\<open>device/store.rs\<close>, over the tree of \<^verbatim>\<open>Local_Tree\<close>.
  TOML and the size a file system reports for a folder are parameters; the random bytes and the time
  of a call are arguments.  A file that is open is
  its content; each further use of the handle may fail.
\<close>

section \<open>Parameters and errors\<close>

datatype KeyAlgorithm = KeyXChaCha20Poly1305

record WorkspaceKeyRecord =
  kw_key_id :: KeyId
  kw_generation :: u64
  kw_visibility :: KeyVisibility
  kw_algorithm :: KeyAlgorithm
  kw_create_by_device_id :: DeviceId
  kw_created_at :: u64

record KeyringRegistry =
  kr_keys :: "(KeyId \<times> WorkspaceKeyRecord) list"

record 'a toml =
  to_toml :: "'a \<Rightarrow> (string, string) result"
  from_toml :: "string \<Rightarrow> ('a, string) result"

record store_env =
  se_crypto :: device_crypto
  se_keyring :: "KeyringRegistry toml"
  se_identity :: "DeviceIdentity toml"
  se_registry :: "DeviceRegistry toml"
  se_access :: "AccessState toml"
  se_config :: "WorkspaceConfig toml"
  se_folder_size :: "path \<Rightarrow> nat"

abbreviation se_cx :: "store_env \<Rightarrow> crypto" where "se_cx env \<equiv> dc_crypto (se_crypto env)"

type_synonym 'a keyring_io = "(LocalFs, 'a, KeyringError) action"
type_synonym 'a access_io = "(LocalFs, 'a, AccessError) action"
type_synonym 'a device_io = "(LocalFs, 'a, DeviceError) action"

definition path_text :: "path \<Rightarrow> string" where
  "path_text p = concat (map (\<lambda>c. slash # c) p)"


section \<open>Further calls on files\<close>

definition read_to_string :: "path \<Rightarrow> string local_io" where
  "read_to_string p = then_do (read_file p) (\<lambda>bs.
     lift_result (ok_or (from_utf8 bs) (IoError InvalidData ''stream did not contain valid UTF-8'')))"

definition open_file :: "path \<Rightarrow> Node local_io" where
  "open_file p = looking (\<lambda>fs. and_then (resolve fs p) (found fs))"

definition use_handle :: "unit local_io" where
  "use_handle = looking (\<lambda>_. Ok ())"

text \<open>\<^verbatim>\<open>create_new\<close>: not through a link, and not where anything is.\<close>

definition create_new :: "path \<Rightarrow> unit local_io" where
  "create_new p = changing unharmed (\<lambda>fs. and_then (resolve_entry fs p) (\<lambda>q.
     if node_at fs q = None then Ok (write_bytes q [] fs) else Err (io_error AlreadyExists)))"


section \<open>Key files\<close>

definition save_workspace_key :: "path \<Rightarrow> bytes \<Rightarrow> unit keyring_io" where
  "save_workspace_key p key =
     then_do (map_error (create_new p) KeyringIo) (\<lambda>_.
     match_do (then_do (write_file p key) (\<lambda>_. sync_file p)) (\<lambda>write_result. case write_result of
       Ok _ \<Rightarrow> done_with ()
     | Err e \<Rightarrow> match_do (remove_file p) (\<lambda>_. fail_with (KeyringIo e))))"

definition load_workspace_key :: "store_env \<Rightarrow> path \<Rightarrow> bytes keyring_io" where
  "load_workspace_key env p =
     then_do (map_error (open_file p) KeyringIo) (\<lambda>n.
     then_do (map_error use_handle KeyringIo) (\<lambda>_.
     let actual_size = (case n of RegularFile b _ \<Rightarrow> length b | _ \<Rightarrow> se_folder_size env p)
     in if actual_size \<noteq> WORKSPACE_KEY_SIZE then fail_with (InvalidKeySize (path_text p) WORKSPACE_KEY_SIZE actual_size)
     else then_do (map_error use_handle KeyringIo) (\<lambda>_. case n of
         RegularFile b _ \<Rightarrow> done_with b
       | _ \<Rightarrow> fail_with (KeyringIo (IoError OtherKind ''is a directory'')))))"


section \<open>The keyring\<close>

definition keyring_registry_new :: KeyringRegistry where
  "keyring_registry_new = \<lparr>kr_keys = []\<rparr>"

definition keyring_registry_insert :: "WorkspaceKeyRecord \<Rightarrow> KeyringRegistry \<Rightarrow> KeyringRegistry" where
  "keyring_registry_insert krec r = r\<lparr>kr_keys := bt_insert (kw_key_id krec) krec (kr_keys r)\<rparr>"

record WorkspaceKeyring =
  ky_keys_dir :: path
  ky_registry_path :: path
  ky_registry :: KeyringRegistry

definition validate_key_id :: "KeyId \<Rightarrow> (unit, KeyringError) result" where
  "validate_key_id key_id = (let s = key_id_str key_id in
     if s \<noteq> [] \<and> list_all (\<lambda>c. is_ascii_alphanumeric c \<or> c = CHR ''-'' \<or> c = CHR ''_'') s then Ok ()
     else Err (InvalidKeyId key_id))"

definition keyring_key_path :: "WorkspaceKeyring \<Rightarrow> KeyId \<Rightarrow> path" where
  "keyring_key_path ky key_id = ky_keys_dir ky @ [key_id_str key_id @ ''.key'']"

definition keyring_contains :: "WorkspaceKeyring \<Rightarrow> KeyId \<Rightarrow> bool" where
  "keyring_contains ky key_id = bt_contains (kr_keys (ky_registry ky)) key_id"

definition keyring_get :: "WorkspaceKeyring \<Rightarrow> KeyId \<Rightarrow> (WorkspaceKeyRecord, KeyringError) result" where
  "keyring_get ky key_id = ok_or (map_of (kr_keys (ky_registry ky)) key_id) (KeyNotFound key_id)"

definition keyring_list :: "WorkspaceKeyring \<Rightarrow> WorkspaceKeyRecord list" where
  "keyring_list ky = map snd (kr_keys (ky_registry ky))"

definition keyring_save :: "store_env \<Rightarrow> WorkspaceKeyring \<Rightarrow> unit keyring_io" where
  "keyring_save env ky =
     then_do (lift_result (map_err (to_toml (se_keyring env) (ky_registry ky)) KeyringTomlSerialize)) (\<lambda>text.
       map_error (write_file (ky_registry_path ky) (str_bytes text)) KeyringIo)"

definition keyring_open :: "store_env \<Rightarrow> path \<Rightarrow> path \<Rightarrow> WorkspaceKeyring keyring_io" where
  "keyring_open env keys_dir registry_path =
     then_do (path_exists registry_path) (\<lambda>present.
     then_do (if present then then_do (map_error (read_to_string registry_path) KeyringIo) (\<lambda>text.
           lift_result (map_err (from_toml (se_keyring env) text) KeyringTomlDeserialize))
         else done_with keyring_registry_new) (\<lambda>registry.
       done_with \<lparr>ky_keys_dir = keys_dir, ky_registry_path = registry_path, ky_registry = registry\<rparr>))"

text \<open>\<^verbatim>\<open>generate_workspace_key\<close> is the argument \<^verbatim>\<open>key\<close>.\<close>

definition keyring_create_key :: "store_env \<Rightarrow> bytes \<Rightarrow> u64 \<Rightarrow> WorkspaceKeyring \<Rightarrow> KeyId \<Rightarrow> KeyVisibility \<Rightarrow> DeviceId \<Rightarrow>
    (WorkspaceKeyRecord \<times> WorkspaceKeyring) keyring_io" where
  "keyring_create_key env key now ky key_id visibility create_by_device_id =
     then_do (lift_result (validate_key_id key_id)) (\<lambda>_.
     if keyring_contains ky key_id then fail_with (KeyAlreadyExists key_id)
     else let path = keyring_key_path ky key_id in
     then_do (path_exists path) (\<lambda>present.
     if present then fail_with (KeyAlreadyExists key_id)
     else then_do (save_workspace_key path key) (\<lambda>_.
     let krec = \<lparr>kw_key_id = key_id, kw_generation = 1, kw_visibility = visibility,
           kw_algorithm = KeyXChaCha20Poly1305, kw_create_by_device_id = create_by_device_id, kw_created_at = now\<rparr>;
         ky = ky\<lparr>ky_registry := keyring_registry_insert krec (ky_registry ky)\<rparr>
     in then_do (keyring_save env ky) (\<lambda>_. done_with (krec, ky)))))"

definition keyring_import_key :: "store_env \<Rightarrow> WorkspaceKeyring \<Rightarrow> WorkspaceKeyRecord \<Rightarrow> bytes \<Rightarrow> WorkspaceKeyring keyring_io" where
  "keyring_import_key env ky krec key =
     then_do (lift_result (validate_key_id (kw_key_id krec))) (\<lambda>_.
     let path = keyring_key_path ky (kw_key_id krec) in
     then_do (if keyring_contains ky (kw_key_id krec) then done_with True else path_exists path) (\<lambda>taken.
     if taken then fail_with (KeyAlreadyExists (kw_key_id krec))
     else then_do (save_workspace_key path key) (\<lambda>_.
     let ky = ky\<lparr>ky_registry := keyring_registry_insert krec (ky_registry ky)\<rparr>
     in then_do (keyring_save env ky) (\<lambda>_. done_with ky))))"

definition keyring_load_key :: "store_env \<Rightarrow> WorkspaceKeyring \<Rightarrow> KeyId \<Rightarrow> bytes keyring_io" where
  "keyring_load_key env ky key_id =
     then_do (lift_result (validate_key_id key_id)) (\<lambda>_. let path = keyring_key_path ky key_id in
     then_do (path_exists path) (\<lambda>present.
     if \<not> present then fail_with (KeyNotFound key_id) else load_workspace_key env path))"

definition keyring_init :: "store_env \<Rightarrow> bytes \<Rightarrow> u64 \<Rightarrow> path \<Rightarrow> path \<Rightarrow> DeviceId \<Rightarrow> KeyId \<Rightarrow> WorkspaceKeyring keyring_io" where
  "keyring_init env key now keys_dir registry_path owner_device_id initial_key_id =
     then_do (lift_result (validate_key_id initial_key_id)) (\<lambda>_.
     then_do (map_error (create_dir_all keys_dir) KeyringIo) (\<lambda>_.
     then_do (keyring_create_key env key now
         \<lparr>ky_keys_dir = keys_dir, ky_registry_path = registry_path, ky_registry = keyring_registry_new\<rparr>
         initial_key_id Shared owner_device_id) (\<lambda>(_, ky).
     then_do (keyring_save env ky) (\<lambda>_. done_with ky))))"


section \<open>Access state, identity and registry\<close>

text \<open>\<^verbatim>\<open>temporary_path\<close>: whether or not the name has an extension, \<^verbatim>\<open>.tmp\<close> is
  appended to it.\<close>

definition temporary_path :: "path \<Rightarrow> path" where
  "temporary_path p = (if p = [] then [] else butlast p @ [last p @ ''.tmp''])"

definition access_atomic_write :: "path \<Rightarrow> bytes \<Rightarrow> unit access_io" where
  "access_atomic_write p bs = (let temporary = temporary_path p in
     match_do (then_do (write_file temporary []) (\<lambda>_. then_do (write_file temporary bs) (\<lambda>_.
       then_do (sync_file temporary) (\<lambda>_. rename_file temporary p)))) (\<lambda>result. case result of
         Ok _ \<Rightarrow> done_with ()
       | Err e \<Rightarrow> match_do (remove_file temporary) (\<lambda>_. fail_with (AccessIo e))))"

definition save_access_state :: "store_env \<Rightarrow> path \<Rightarrow> AccessState \<Rightarrow> unit access_io" where
  "save_access_state env p st =
     then_do (lift_result (map_err (validate_state (se_cx env) st) AccessProtocol)) (\<lambda>_.
     then_do (map_error (create_dir_all (butlast p)) AccessIo) (\<lambda>_.
     then_do (lift_result (map_err (to_toml (se_access env) st) AccessTomlSerialize)) (\<lambda>text.
       access_atomic_write p (str_bytes text))))"

definition load_access_state :: "store_env \<Rightarrow> path \<Rightarrow> AccessState option access_io" where
  "load_access_state env p =
     then_do (path_exists p) (\<lambda>present. if \<not> present then done_with None
     else then_do (map_error (read_to_string p) AccessIo) (\<lambda>text.
     then_do (lift_result (map_err (from_toml (se_access env) text) AccessTomlDeserialize)) (\<lambda>st.
     then_do (lift_result (map_err (validate_state (se_cx env) st) AccessProtocol)) (\<lambda>_. done_with (Some st)))))"

definition write_private_new_file :: "path \<Rightarrow> bytes \<Rightarrow> unit device_io" where
  "write_private_new_file p bs =
     then_do (map_error (create_new p) DeviceIo) (\<lambda>_. map_error (write_file p bs) DeviceIo)"

definition save_local_device_identity :: "store_env \<Rightarrow> path \<Rightarrow> DeviceIdentity \<Rightarrow> unit device_io" where
  "save_local_device_identity env p identity =
     then_do (lift_result (validate_identity (se_crypto env) identity)) (\<lambda>_.
     then_do (map_error (create_dir_all (butlast p)) DeviceIo) (\<lambda>_.
     then_do (lift_result (map_err (to_toml (se_identity env) identity) DeviceTomlSerialize)) (\<lambda>text.
       write_private_new_file p (str_bytes text))))"

definition load_local_device_identity :: "store_env \<Rightarrow> path \<Rightarrow> DeviceIdentity option device_io" where
  "load_local_device_identity env p =
     then_do (path_exists p) (\<lambda>present. if \<not> present then done_with None
     else then_do (map_error (read_to_string p) DeviceIo) (\<lambda>text.
     then_do (lift_result (map_err (from_toml (se_identity env) text) DeviceTomlDeserialize)) (\<lambda>identity.
     then_do (lift_result (validate_identity (se_crypto env) identity)) (\<lambda>_. done_with (Some identity)))))"

definition device_atomic_write :: "path \<Rightarrow> bytes \<Rightarrow> unit device_io" where
  "device_atomic_write p bs = (let temporary = temporary_path p in
     then_do (map_error (write_file temporary bs) DeviceIo) (\<lambda>_. map_error (rename_file temporary p) DeviceIo))"

definition save_device_registry :: "store_env \<Rightarrow> path \<Rightarrow> DeviceRegistry \<Rightarrow> unit device_io" where
  "save_device_registry env p registry =
     then_do (map_error (create_dir_all (butlast p)) DeviceIo) (\<lambda>_.
     then_do (lift_result (map_err (to_toml (se_registry env) registry) DeviceTomlSerialize)) (\<lambda>text.
       device_atomic_write p (str_bytes text)))"

definition load_device_registry :: "store_env \<Rightarrow> path \<Rightarrow> DeviceRegistry option device_io" where
  "load_device_registry env p =
     then_do (path_exists p) (\<lambda>present. if \<not> present then done_with None
     else then_do (map_error (read_to_string p) DeviceIo) (\<lambda>text.
     then_do (lift_result (map_err (from_toml (se_registry env) text) DeviceTomlDeserialize)) (\<lambda>registry.
       done_with (Some registry))))"

end
