(* ===== verification/Local_Workspace.thy ===== *)
theory Local_Workspace
  imports Local_Stores
begin

text \<open>
  \<^verbatim>\<open>rustsync-core/src/workspace/mod.rs\<close>: creating, bootstrapping and opening a workspace, its
  keys and its encryption.  The identifiers, keys, nonces and times drawn are arguments.
\<close>

type_synonym 'a workspace_io = "(LocalFs, 'a, WorkspaceError) action"

text \<open>What the creation of a workspace draws.\<close>

record draws =
  dw_workspace_uuid :: string
  dw_event_uuid :: string
  dw_key :: bytes
  dw_now :: u64

definition save_config :: "store_env \<Rightarrow> Workspace \<Rightarrow> unit workspace_io" where
  "save_config env wk =
     then_do (lift_result (map_err (to_toml (se_config env) (wk_config wk)) ConfigSerialize)) (\<lambda>text.
       map_error (write_file (ly_config_path (wk_layout wk)) (str_bytes text)) WorkspaceIo)"

definition workspace_init :: "store_env \<Rightarrow> draws \<Rightarrow> path \<Rightarrow> DeviceId \<Rightarrow> Workspace workspace_io" where
  "workspace_init env dw root owner_device_id = (let layout = layout_new root in
     then_do (path_exists (ly_rustsync_dir layout)) (\<lambda>present.
     if present then fail_with (AlreadyInitialized (path_text (ly_rustsync_dir layout)))
     else then_do (map_error (create_dir_all (ly_keys_dir layout)) WorkspaceIo) (\<lambda>_.
     then_do (lift_result (map_err (parse_workspace_id (''workspace_'' @ dw_workspace_uuid dw)) WorkspaceProtocol)) (\<lambda>workspace_id.
     then_do (lift_result (map_err (parse_key_id SYSTEM_KEY_ID) WorkspaceProtocol)) (\<lambda>default_key_id.
     let wk = \<lparr>wk_layout = layout, wk_config = \<lparr>wc_server_url = None, wc_workspace_id = workspace_id,
           wc_local_device_id = owner_device_id, wc_default_key_id = default_key_id\<rparr>\<rparr>
     in then_do (save_config env wk) (\<lambda>_.
     then_do (map_error (keyring_init env (dw_key dw) (dw_now dw) (ly_keys_dir layout) (ly_keyring_path layout)
         owner_device_id default_key_id) WorkspaceKeyring) (\<lambda>_. done_with wk)))))))"

definition initial_owner_access_state :: "store_env \<Rightarrow> draws \<Rightarrow> WorkspaceId \<Rightarrow> DeviceIdentity \<Rightarrow> (AccessState, WorkspaceError) result" where
  "initial_owner_access_state env dw w owner =
     and_then (map_err (parse_access_event_id (ACCESS_EVENT_ID_PREFIX @ dw_event_uuid dw)) WorkspaceProtocol) (\<lambda>event_id.
     let unsigned = event_new_unsigned event_id w 0 (di_device_id owner) (dw_now dw)
           (WorkspaceCreated (public_record (se_crypto env) owner ActiveDevice))
     in and_then (map_err (identity_sign (se_crypto env) owner (event_signing_payload unsigned)) WorkspaceDevice) (\<lambda>signature.
     case apply_verified_event (se_cx env) (state_empty w) (event_with_signature unsigned signature) of
       (st, r) \<Rightarrow> and_then (map_err r WorkspaceProtocol) (\<lambda>_. Ok st)))"

definition init_with_device_identity :: "store_env \<Rightarrow> draws \<Rightarrow> path \<Rightarrow> DeviceIdentity \<Rightarrow> Workspace workspace_io" where
  "init_with_device_identity env dw root owner =
     then_do (lift_result (map_err (validate_identity (se_crypto env) owner) WorkspaceDevice)) (\<lambda>_.
     then_do (workspace_init env dw root (di_device_id owner)) (\<lambda>wk. let layout = wk_layout wk in
     then_do (map_error (save_local_device_identity env (ly_device_identity_path layout) owner) WorkspaceDevice) (\<lambda>_.
     then_do (lift_result (map_err (with_owner (se_crypto env) (wk_workspace_id wk) owner) WorkspaceDevice)) (\<lambda>registry.
     then_do (map_error (save_device_registry env (ly_device_registry_path layout) registry) WorkspaceDevice) (\<lambda>_.
     then_do (lift_result (initial_owner_access_state env dw (wk_workspace_id wk) owner)) (\<lambda>st.
     then_do (map_error (save_access_state env (ly_access_control_path layout) st) WorkspaceAccess) (\<lambda>_.
       done_with wk)))))))"

text \<open>The registry of the devices an access state knows.\<close>

definition registry_of_state :: "store_env \<Rightarrow> AccessState \<Rightarrow> (DeviceRegistry, WorkspaceError) result" where
  "registry_of_state env st = try_fold (\<lambda>registry m. case device_record st (mb_device_id m) of
       None \<Rightarrow> Ok registry
     | Some r \<Rightarrow> map_err (registry_insert (se_crypto env) r registry) WorkspaceDevice)
     (registry_new (as_workspace_id st)) (all_memberships st)"

definition bootstrap_body :: "store_env \<Rightarrow> u64 \<Rightarrow> WorkspaceLayout \<Rightarrow> DeviceIdentity \<Rightarrow> AccessState \<Rightarrow> KeyId \<Rightarrow> u64 \<Rightarrow> bytes \<Rightarrow>
    Workspace workspace_io" where
  "bootstrap_body env now layout identity st key_id key_generation workspace_key =
     then_do (lift_result (map_err (active_device_record st (di_device_id identity)) WorkspaceProtocol)) (\<lambda>local_device.
     if dr_signing_public_key local_device \<noteq> di_signing_public_key identity
        \<or> dr_exchange_public_key local_device \<noteq> di_exchange_public_key identity
     then fail_with (WorkspaceDevice SigningKeyMismatch)
     else then_do (map_error (create_dir_all (ly_keys_dir layout)) WorkspaceIo) (\<lambda>_.
     let wk = \<lparr>wk_layout = layout, wk_config = \<lparr>wc_server_url = None, wc_workspace_id = as_workspace_id st,
           wc_local_device_id = di_device_id identity, wc_default_key_id = key_id\<rparr>\<rparr>
     in then_do (save_config env wk) (\<lambda>_.
     then_do (map_error (keyring_open env (ly_keys_dir layout) (ly_keyring_path layout)) WorkspaceKeyring) (\<lambda>ky.
     then_do (map_error (keyring_import_key env ky \<lparr>kw_key_id = key_id, kw_generation = key_generation, kw_visibility = Shared,
           kw_algorithm = KeyXChaCha20Poly1305, kw_create_by_device_id = di_device_id identity, kw_created_at = now\<rparr>
         workspace_key) WorkspaceKeyring) (\<lambda>_.
     then_do (map_error (save_local_device_identity env (ly_device_identity_path layout) identity) WorkspaceDevice) (\<lambda>_.
     then_do (lift_result (registry_of_state env st)) (\<lambda>registry.
     then_do (map_error (save_device_registry env (ly_device_registry_path layout) registry) WorkspaceDevice) (\<lambda>_.
     then_do (map_error (save_access_state env (ly_access_control_path layout) st) WorkspaceAccess) (\<lambda>_.
       done_with wk)))))))))"

definition bootstrap_with_key :: "store_env \<Rightarrow> u64 \<Rightarrow> path \<Rightarrow> DeviceIdentity \<Rightarrow> AccessState \<Rightarrow> KeyId \<Rightarrow> u64 \<Rightarrow> bytes \<Rightarrow>
    Workspace workspace_io" where
  "bootstrap_with_key env now root identity st key_id key_generation workspace_key =
     then_do (lift_result (map_err (validate_identity (se_crypto env) identity) WorkspaceDevice)) (\<lambda>_.
     then_do (lift_result (map_err (validate_state (se_cx env) st) WorkspaceProtocol)) (\<lambda>_. let layout = layout_new root in
     then_do (path_exists (ly_rustsync_dir layout)) (\<lambda>present.
     if present then fail_with (AlreadyInitialized (path_text (ly_rustsync_dir layout)))
     else match_do (bootstrap_body env now layout identity st key_id key_generation workspace_key) (\<lambda>result. case result of
         Ok wk \<Rightarrow> done_with wk
       | Err e \<Rightarrow> match_do (remove_dir_all (ly_rustsync_dir layout)) (\<lambda>_. fail_with e)))))"

definition workspace_open :: "store_env \<Rightarrow> path \<Rightarrow> Workspace workspace_io" where
  "workspace_open env root = (let layout = layout_new root in
     then_do (path_exists (ly_rustsync_dir layout)) (\<lambda>present.
     if \<not> present then fail_with (NotInitialized (path_text (ly_rustsync_dir layout)))
     else then_do (map_error (read_to_string (ly_config_path layout)) WorkspaceIo) (\<lambda>config_text.
     then_do (lift_result (map_err (from_toml (se_config env) config_text) ConfigDeserialize)) (\<lambda>config.
       done_with \<lparr>wk_layout = layout, wk_config = config\<rparr>))))"

definition workspace_keyring :: "store_env \<Rightarrow> Workspace \<Rightarrow> WorkspaceKeyring workspace_io" where
  "workspace_keyring env wk =
     map_error (keyring_open env (ly_keys_dir (wk_layout wk)) (ly_keyring_path (wk_layout wk))) WorkspaceKeyring"

definition workspace_create_key :: "store_env \<Rightarrow> bytes \<Rightarrow> u64 \<Rightarrow> Workspace \<Rightarrow> KeyId \<Rightarrow> KeyVisibility \<Rightarrow> DeviceId \<Rightarrow> unit workspace_io" where
  "workspace_create_key env key now wk key_id visibility create_by_device_id =
     then_do (workspace_keyring env wk) (\<lambda>ky.
     then_do (map_error (keyring_create_key env key now ky key_id visibility create_by_device_id) WorkspaceKeyring) (\<lambda>_.
       done_with ()))"

definition workspace_load_key :: "store_env \<Rightarrow> Workspace \<Rightarrow> KeyId \<Rightarrow> bytes workspace_io" where
  "workspace_load_key env wk key_id =
     then_do (workspace_keyring env wk) (\<lambda>ky. map_error (keyring_load_key env ky key_id) WorkspaceKeyring)"

definition set_active_key :: "store_env \<Rightarrow> Workspace \<Rightarrow> KeyId \<Rightarrow> Workspace workspace_io" where
  "set_active_key env wk key_id =
     then_do (lift_result (map_err (validate_key_id key_id) WorkspaceKeyring)) (\<lambda>_.
     then_do (workspace_keyring env wk) (\<lambda>ky.
     then_do (lift_result (map_err (keyring_get ky key_id) WorkspaceKeyring)) (\<lambda>_.
     let wk = wk\<lparr>wk_config := (wk_config wk)\<lparr>wc_default_key_id := key_id\<rparr>\<rparr>
     in then_do (save_config env wk) (\<lambda>_. done_with wk))))"

text \<open>\<^verbatim>\<open>crypto()\<close>, with the nonce drawn.\<close>

definition encrypt_bytes :: "store_env \<Rightarrow> bytes \<Rightarrow> Workspace \<Rightarrow> bytes \<Rightarrow> EncryptedObject workspace_io" where
  "encrypt_bytes env nonce wk plaintext = (let key_id = wc_default_key_id (wk_config wk) in
     then_do (workspace_load_key env wk key_id) (\<lambda>key.
       lift_result (map_err (encrypt (se_crypto env) plaintext key_id key nonce) WorkspaceEncryption)))"

definition decrypt_file :: "store_env \<Rightarrow> Workspace \<Rightarrow> EncryptedObject \<Rightarrow> bytes workspace_io" where
  "decrypt_file env wk encrypted_file =
     then_do (workspace_load_key env wk (eo_key_id encrypted_file)) (\<lambda>key.
       lift_result (map_err (decrypt (se_crypto env) encrypted_file key) WorkspaceEncryption))"

end
