(* ===== verification/Stores_Facts.thy ===== *)
theory Stores_Facts
  imports Local_Workspace Local_Pull
begin

text \<open>
  What the stores of a device do to the tree below \<^verbatim>\<open>.rustsync\<close>: each changes its own
  file and at most the temporary file beside it, whatever call fails, and when it succeeds the file has
  the whole content.
\<close>

section \<open>The folder and its slots\<close>

definition slot :: "path \<Rightarrow> path \<Rightarrow> bool" where
  "slot W p \<longleftrightarrow> (\<exists>x. p = W @ [x] \<and> x \<noteq> ''keys'') \<or> (\<exists>x. p = W @ [''keys'', x])"

text \<open>The folder and its \<^verbatim>\<open>keys\<close> are there, and no link is below it.\<close>

definition shop :: "path \<Rightarrow> LocalFs \<Rightarrow> bool" where
  "shop W fs \<longleftrightarrow> tree_ok fs \<and> W \<noteq> [] \<and> node_at fs W = Some Folder \<and> node_at fs (W @ [''keys'']) = Some Folder
     \<and> (\<forall>q l. is_under W q \<longrightarrow> node_at fs q \<noteq> Some (SymLink l))"

text \<open>The content of a file.\<close>

definition has :: "LocalFs \<Rightarrow> path \<Rightarrow> bytes \<Rightarrow> bool" where
  "has fs p b \<longleftrightarrow> (\<exists>t. node_at fs p = Some (RegularFile b t))"

text \<open>Only the files of a set changed.\<close>

definition stored :: "path set \<Rightarrow> LocalFs \<Rightarrow> LocalFs \<Rightarrow> bool" where
  "stored A fs fs' \<longleftrightarrow> tree_ok fs' \<and> calm fs fs' \<and> (\<forall>q. q \<notin> A \<longrightarrow> node_at fs' q = node_at fs q)
     \<and> (\<forall>q. node_at fs' q = node_at fs q \<or> (\<forall>l. node_at fs' q \<noteq> Some (SymLink l)))"

lemma slot_under: "slot W p \<Longrightarrow> is_under W p \<and> p \<noteq> W \<and> p \<noteq> W @ [''keys'']"
  by (auto simp: slot_def is_under_iff)

lemma shop_slot:
  assumes "shop W fs" and "slot W p"
  shows "tree_ok fs" and "clear fs p" and "p \<noteq> []" and "node_at fs p \<noteq> Some (SymLink t)" and "node_at fs (butlast p) = Some Folder"
proof -
  obtain cs where p: "p = W @ cs" "cs \<noteq> []" "\<And>q r. cs = q @ r \<Longrightarrow> q \<noteq> [] \<Longrightarrow> r \<noteq> [] \<Longrightarrow> q = [''keys'']"
      "butlast p = W \<or> butlast p = W @ [''keys'']"
    using assms(2) by (auto simp: slot_def Cons_eq_append_conv butlast_append)
  show "tree_ok fs" "p \<noteq> []" "node_at fs p \<noteq> Some (SymLink t)" "node_at fs (butlast p) = Some Folder"
    using assms(1) p by (auto simp: shop_def is_under_iff)
  show "clear fs p" unfolding p(1)
    using assms(1) p(3) by (intro clear_below) (auto simp: shop_def)
qed

lemma stored_refl [simp]: "tree_ok fs \<Longrightarrow> stored A fs fs"
  by (simp add: stored_def)

lemma stored_trans: "stored A fs fs' \<Longrightarrow> stored A fs' fs'' \<Longrightarrow> stored A fs fs''"
  unfolding stored_def by (metis calm_trans)

lemma stored_one:
  assumes "tree_ok fs'" and "calm fs fs'" and "\<And>q. q \<noteq> p \<Longrightarrow> node_at fs' q = node_at fs q"
    and "node_at fs' p = node_at fs p \<or> (\<forall>l. node_at fs' p \<noteq> Some (SymLink l))"
  shows "stored {p} fs fs'"
  using assms unfolding stored_def by (metis singletonI)

lemma stored_mono: "stored A fs fs' \<Longrightarrow> A \<subseteq> B \<Longrightarrow> stored B fs fs'"
  by (auto simp: stored_def)

lemma stored_shop:
  assumes "shop W fs" and "stored A fs fs'" and "\<And>p. p \<in> A \<Longrightarrow> slot W p"
  shows "shop W fs'"
proof -
  have "W \<notin> A" "W @ [''keys''] \<notin> A" using assms(3) slot_under by blast+
  then show ?thesis using assms(1,2) unfolding shop_def stored_def by metis
qed

lemma stored_has: "stored A fs fs' \<Longrightarrow> has fs p b \<Longrightarrow> p \<notin> A \<Longrightarrow> has fs' p b"
  by (simp add: stored_def has_def)

lemma stored_nodes: "lf_nodes fs' = lf_nodes fs \<Longrightarrow> calm fs fs' \<Longrightarrow> tree_ok fs \<Longrightarrow> stored A fs fs'"
  using node_at_nodes[of fs' fs] tree_ok_nodes[of fs' fs] by (simp add: stored_def)


text \<open>What an operation stores, and what holds when it succeeds.\<close>

definition storing :: "path set \<Rightarrow> LocalFs \<Rightarrow> (LocalFs, 'a, 'e) action \<Rightarrow> ('a \<Rightarrow> LocalFs \<Rightarrow> bool) \<Rightarrow> bool" where
  "storing A fs m Q \<longleftrightarrow> post m fs (\<lambda>fs' r. stored A fs fs' \<and> (\<forall>a. r = Ok a \<longrightarrow> Q a fs'))"

lemma storing_then:
  assumes "storing A fs m Q" and "\<And>a fs'. stored A fs fs' \<Longrightarrow> Q a fs' \<Longrightarrow> storing A fs' (k a) R"
  shows "storing A fs (then_do m k) R"
  unfolding storing_def
proof (rule post_thenI[OF assms(1)[unfolded storing_def]], goal_cases)
  case (1 fs' a)
  then have "storing A fs' (k a) R" using assms(2) by blast
  then show ?case unfolding storing_def by (rule post_mono) (use 1 stored_trans in blast)
qed simp

lemma storing_match:
  assumes "storing A fs m Q" and "\<And>r fs'. stored A fs fs' \<Longrightarrow> (\<And>a. r = Ok a \<Longrightarrow> Q a fs') \<Longrightarrow> storing A fs' (k r) R"
  shows "storing A fs (match_do m k) R"
  unfolding storing_def
proof (rule post_matchI[OF assms(1)[unfolded storing_def]], goal_cases)
  case (1 fs' r)
  then have "storing A fs' (k r) R" using assms(2) by blast
  then show ?case unfolding storing_def by (rule post_mono) (use 1 stored_trans in blast)
qed

lemma storing_map_error: "storing A fs m Q \<Longrightarrow> storing A fs (map_error m f) Q"
  unfolding storing_def post_map_error by (erule post_mono) (metis map_err.simps(2) result.exhaust result.distinct(1) map_err.simps(1))

lemma storing_weaken: "storing A fs m Q \<Longrightarrow> A \<subseteq> B \<Longrightarrow> (\<And>a fs'. stored A fs fs' \<Longrightarrow> Q a fs' \<Longrightarrow> R a fs') \<Longrightarrow> storing B fs m R"
  unfolding storing_def by (erule post_mono) (use stored_mono in blast)

lemma storing_done: "tree_ok fs \<Longrightarrow> Q a fs \<Longrightarrow> storing A fs (done_with a) Q"
  by (simp add: storing_def post_done)

lemma storing_fail: "tree_ok fs \<Longrightarrow> storing A fs (fail_with e) Q"
  by (simp add: storing_def post_fail)

lemma storing_lift: "tree_ok fs \<Longrightarrow> storing A fs (lift_result r) (\<lambda>a fs'. r = Ok a \<and> fs' = fs)"
  by (simp add: storing_def post_lift)

lemma storing_look:
  assumes "tree_ok fs" and "post m fs (\<lambda>fs' r. lf_nodes fs' = lf_nodes fs \<and> calm fs fs' \<and> (\<forall>a. r = Ok a \<longrightarrow> Q a fs'))"
  shows "storing A fs m (\<lambda>a fs'. lf_nodes fs' = lf_nodes fs \<and> Q a fs')"
  unfolding storing_def by (rule post_mono[OF assms(2)]) (use assms(1) stored_nodes in blast)

lemmas stored_tree = stored_def[THEN iffD1, THEN conjunct1]


section \<open>Single calls\<close>

lemma write_stored:
  assumes "shop W fs" and "slot W p"
  shows "storing {p} fs (write_file p b) (\<lambda>_ fs'. has fs' p b)"
  unfolding storing_def
  by (rule post_mono[OF write_file_post[OF shop_slot(1-3)[OF assms] shop_slot(4)[OF assms]]])
    (auto simp: has_def intro!: stored_one)

lemma path_exists_stored: "tree_ok fs \<Longrightarrow> storing A fs (path_exists p) (\<lambda>a fs'. lf_nodes fs' = lf_nodes fs \<and> (node_at fs p = None \<and> clear fs p \<longrightarrow> \<not> a))"
proof -
  assume tree: "tree_ok fs"
  have found: "r = Ok True \<longrightarrow> \<not> (node_at fs p = None \<and> clear fs p)"
    if nodes: "lf_nodes fs' = lf_nodes fs" and r: "r = (case resolve fs' p of Ok q \<Rightarrow> Ok (node_at fs' q \<noteq> None)
      | Err e \<Rightarrow> if io_kind e = NotFound then Ok False else Err e) \<or> (\<exists>msg. r = Err (IoError OtherKind msg))" for fs' :: LocalFs and r
    using resolve_clear[of fs' p] tree r node_at_nodes[OF nodes] tree_ok_nodes[OF nodes] clear_nodes[OF nodes]
    by (auto split: result.splits if_splits)
  have look: "post (try_exists p) fs (\<lambda>fs' r. lf_nodes fs' = lf_nodes fs \<and> calm fs fs' \<and> (r = Ok True \<longrightarrow> \<not> (node_at fs p = None \<and> clear fs p)))"
    unfolding try_exists_def by (rule post_mono[OF looking_post]) (use found in \<open>simp add: calm_def; blast\<close>)
  show ?thesis unfolding path_exists_def
    by (rule storing_look[OF tree], rule post_matchI[OF look]) (auto simp: post_done)
qed

lemma use_stored: "tree_ok fs \<Longrightarrow> storing A fs (sync_file p) (\<lambda>_ fs'. lf_nodes fs' = lf_nodes fs)"
  by (rule storing_weaken[OF storing_look[where Q = "\<lambda>_ _. True"]]) (use sync_file_post[of p fs] in auto)

lemma create_new_stored:
  assumes "shop W fs" and "slot W p"
  shows "storing {p} fs (create_new p) (\<lambda>_ _. node_at fs p = None)"
  unfolding create_new_def storing_def
proof (rule changing_post, goal_cases)
  case (1 fs0)
  note at = node_at_nodes[OF 1(1)]
  have s: "shop W fs0" using assms(1) at tree_ok_nodes[OF 1(1)] by (simp add: shop_def)
  have "resolve_entry fs0 p = Ok p" using resolve_entry_clear[OF shop_slot(1-3)[OF s assms(2)]] shop_slot(5)[OF s assms(2)] by simp
  then show ?case
    using tree_ok_write[OF shop_slot(1)[OF s assms(2)], of p "[]"] shop_slot(3,5)[OF s assms(2)] shop_slot(1)[OF s assms(2)] at 1(2)
    by (auto simp: stored_def calm_def)
next
  case (2 fs0 n msg)
  then show ?case using node_at_nodes[OF 2(1)] tree_ok_nodes[OF 2(1)] shop_slot(1)[OF assms] by (simp add: stored_def calm_def)
qed

lemma remove_file_stored:
  assumes "shop W fs" and "slot W p"
  shows "storing {p} fs (remove_file p) (\<lambda>_ _. True)"
  unfolding storing_def
  by (rule post_mono[OF remove_file_post[OF shop_slot(1-3)[OF assms]]]) (auto simp: stored_def split: result.splits if_splits)

lemma rename_stored:
  assumes "shop W fs" and "slot W p" and "has fs t b" and "t \<noteq> p"
  shows "storing {t, p} fs (rename_file t p) (\<lambda>_ fs'. has fs' p b)"
proof -
  obtain m where "node_at fs t = Some (RegularFile b m)" using assms(3) by (auto simp: has_def)
  from rename_file_post[OF shop_slot(1)[OF assms(1,2)] this shop_slot(2,3)[OF assms(1,2)] assms(4)]
  show ?thesis unfolding storing_def by (rule post_mono) (auto simp: stored_def has_def split: result.splits if_splits)
qed

lemma folder_there:
  assumes "shop W fs" and "p = W \<or> p = W @ [''keys'']"
  shows "storing A fs (create_dir_all p) (\<lambda>_ _. True)"
proof -
  have p: "tree_ok fs" "node_at fs p = Some Folder" using assms by (auto simp: shop_def)
  have clear: "clear fs p" using p tree_ok_clear by simp
  have up: "node_at fs q \<noteq> None" if q: "is_under q p" for q
  proof -
    obtain r where "p = q @ r" using q by (auto simp: is_under_iff)
    then show ?thesis using p tree_ok_prefix[OF p(1), of q r] by (cases "r = []") auto
  qed
  have same: "node_at fs' q = node_at fs q" if "grown fs fs' p" for fs' q using that up unfolding grown_def by metis
  have "stored A fs fs'" if "tree_ok fs'" "calm fs fs'" "grown fs fs' p" for fs' using that same[OF that(3)] unfolding stored_def by blast
  then show ?thesis
    unfolding storing_def using p(2) by (intro post_mono[OF create_dir_all_post[OF p(1) clear]]) auto
qed


section \<open>Whole stores\<close>

lemma save_workspace_key_stored:
  assumes "shop W fs" and "slot W p"
  shows "storing {p} fs (save_workspace_key p key) (\<lambda>_ fs'. has fs' p key)"
proof -
  have s: "shop W fs'" if "stored {p} fs fs'" for fs' using stored_shop[OF assms(1) that] assms(2) by auto
  have rest: "storing {p} fs1 (match_do (then_do (write_file p key) (\<lambda>_. sync_file p)) (\<lambda>write_result. case write_result of
      Ok _ \<Rightarrow> done_with () | Err e \<Rightarrow> match_do (remove_file p) (\<lambda>_. fail_with (KeyringIo e)))) (\<lambda>_ fs'. has fs' p key)"
    if 1: "stored {p} fs fs1" for fs1
  proof (rule storing_match[where Q = "\<lambda>_ fs'. has fs' p key"], goal_cases)
    case 1
    show ?case
    proof (rule storing_then[OF write_stored[OF s[OF that] assms(2)]], rule storing_weaken[OF use_stored])
      fix fs2 fs3 :: LocalFs assume "has fs2 p key" "lf_nodes fs3 = lf_nodes fs2"
      then show "has fs3 p key" using node_at_nodes[of fs3 fs2] by (simp add: has_def)
    qed (auto dest: stored_tree)
  next
    case (2 r fs2)
    have s2: "shop W fs2" using s stored_trans[OF that 2(1)] .
    note tree = stored_tree[OF 2(1)]
    show ?case
    proof (cases r)
      case (Err e)
      then show ?thesis using storing_match[OF remove_file_stored[OF s2 assms(2)] storing_fail[OF stored_tree]] by simp
    qed (use storing_done[OF tree] 2 in simp)
  qed
  show ?thesis unfolding save_workspace_key_def
    by (rule storing_then[OF storing_map_error[OF create_new_stored[OF assms]]]) (rule rest)
qed

lemma temporary_slot:
  assumes "slot W p"
  shows "slot W (temporary_path p)" and "temporary_path p \<noteq> p"
proof -
  have "x @ ''.tmp'' \<noteq> ''keys''" for x :: string by (cases x rule: rev_cases) auto
  then show "slot W (temporary_path p)" "temporary_path p \<noteq> p"
    using assms by (auto simp: slot_def temporary_path_def butlast_append)
qed


lemma temporary_neq [simp]: "temporary_path p \<noteq> p \<longleftrightarrow> p \<noteq> []"
  by (cases p rule: rev_cases) (auto simp: temporary_path_def)

text \<open>The steps that write a file beside the one they replace.\<close>

lemma draft_shop:
  assumes shop: "shop W fs" and slot: "slot W p" and "stored {temporary_path p, p} fs fs'"
  shows "shop W fs'"
  using stored_shop[OF shop assms(3)] slot temporary_slot[OF slot] by auto

lemma write_draft:
  assumes shop: "shop W fs" and slot: "slot W p" and "stored {temporary_path p, p} fs fs'"
  shows "storing {temporary_path p, p} fs' (write_file (temporary_path p) b) (\<lambda>_ fs'. has fs' (temporary_path p) b)"
  by (rule storing_weaken[OF write_stored[OF draft_shop[OF assms] temporary_slot(1)[OF slot]]]) auto

lemma publish_draft:
  assumes shop: "shop W fs" and slot: "slot W p" and "stored {temporary_path p, p} fs fs'" and "has fs' (temporary_path p) b"
  shows "storing {temporary_path p, p} fs' (rename_file (temporary_path p) p) (\<lambda>_ fs'. has fs' p b)"
  using rename_stored[OF draft_shop[OF assms(1-3)] slot assms(4) temporary_slot(2)[OF slot]] .

lemma device_atomic_write_stored:
  assumes shop: "shop W fs" and slot: "slot W p"
  shows "storing {temporary_path p, p} fs (device_atomic_write p b) (\<lambda>_ fs'. has fs' p b)"
  unfolding device_atomic_write_def Let_def
  by (rule storing_then[OF storing_map_error[OF write_draft[OF assms]]], use shop in \<open>simp add: shop_def\<close>,
      rule storing_map_error[OF publish_draft[OF assms]])

lemma access_atomic_write_stored:
  assumes shop: "shop W fs" and slot: "slot W p"
  shows "storing {temporary_path p, p} fs (access_atomic_write p b) (\<lambda>_ fs'. has fs' p b)"
proof -
  let ?A = "{temporary_path p, p}" and ?t = "temporary_path p"
  have tree: "tree_ok fs" using shop by (simp add: shop_def)
  have tail: "storing ?A fs2 (then_do (sync_file ?t) (\<lambda>_. rename_file ?t p)) (\<lambda>_ fs'. has fs' p b)"
    if "stored ?A fs fs2" "has fs2 ?t b" for fs2
  proof (rule storing_then[OF use_stored[OF stored_tree[OF that(1)]]], goal_cases)
    case (1 a fs3)
    then have "has fs3 ?t b" using that(2) node_at_nodes[of fs3 fs2] by (simp add: has_def)
    then show ?case using publish_draft[OF shop slot stored_trans[OF that(1) 1(1)]] by blast
  qed
  have "storing ?A fs (then_do (write_file ?t []) (\<lambda>_. then_do (write_file ?t b) (\<lambda>_.
      then_do (sync_file ?t) (\<lambda>_. rename_file ?t p)))) (\<lambda>_ fs'. has fs' p b)"
    by (rule storing_then[OF write_draft[OF shop slot stored_refl[OF tree]]], rule storing_then[OF write_draft[OF shop slot]])
      (use tail stored_trans in blast)+
  then show ?thesis unfolding access_atomic_write_def Let_def
  proof (rule storing_match, goal_cases)
    case (1 r fs')
    show ?case
    proof (cases r)
      case (Err e)
      have "storing ?A fs' (remove_file ?t) (\<lambda>_ _. True)"
        by (rule storing_weaken[OF remove_file_stored[OF draft_shop[OF shop slot 1(1)] temporary_slot(1)[OF slot]]]) auto
      then show ?thesis using storing_match[OF _ storing_fail[OF stored_tree]] Err by simp
    qed (use storing_done[OF stored_tree[OF 1(1)]] 1(2) in simp)
  qed
qed

lemma write_private_new_file_stored:
  assumes shop: "shop W fs" and slot: "slot W p"
  shows "storing {p} fs (write_private_new_file p b) (\<lambda>_ fs'. has fs' p b)"
  unfolding write_private_new_file_def
proof (rule storing_then[OF storing_map_error[OF create_new_stored[OF shop slot]]], goal_cases)
  case (1 a fs')
  then have "shop W fs'" using stored_shop[OF shop, of "{p}"] slot by auto
  then show ?case by (rule storing_map_error[OF write_stored[OF _ slot]])
qed

text \<open>The three files, each in the folder itself.\<close>

lemma storing_text:
  assumes "shop W fs" and "p = W @ [x]" and "x \<noteq> ''keys''"
    and "\<And>fs' text. shop W fs' \<Longrightarrow> r = Ok text \<Longrightarrow> storing A fs' (m text) (\<lambda>_ fs'. has fs' p (str_bytes text))"
  shows "storing A fs (then_do (map_error (create_dir_all (butlast p)) f) (\<lambda>_. then_do (lift_result (map_err r g)) m))
    (\<lambda>_ fs'. \<exists>text. r = Ok text \<and> has fs' p (str_bytes text))"
proof -
  have "storing {} fs (create_dir_all (butlast p)) (\<lambda>_ _. True)" using folder_there[OF assms(1)] assms(2) by simp
  then have there: "storing A fs (create_dir_all (butlast p)) (\<lambda>_ fs'. shop W fs')"
    by (rule storing_weaken) (use stored_shop[OF assms(1)] in auto)
  show ?thesis
  proof (rule storing_then[OF storing_map_error[OF there]], rule storing_then[OF storing_lift], goal_cases)
    case (1 a fs1)
    then show ?case by (simp add: stored_def)
  next
    case (2 a fs1 s fs2)
    then have "r = Ok s" "fs2 = fs1" by (cases r, auto)+
    then show ?case using 2(2) by (intro storing_weaken[OF assms(4)]) auto
  qed
qed

lemma save_identity_stored:
  assumes "shop W fs" and "p = W @ [x]" and "x \<noteq> ''keys''"
  shows "storing {p} fs (save_local_device_identity env p i) (\<lambda>_ fs'. validate_identity (se_crypto env) i = Ok ()
    \<and> (\<exists>text. to_toml (se_identity env) i = Ok text \<and> has fs' p (str_bytes text)))"
  unfolding save_local_device_identity_def
proof (rule storing_then[OF storing_lift], goal_cases)
  case (2 a fs')
  then have fs': "fs' = fs" and valid: "validate_identity (se_crypto env) i = Ok ()" by auto
  show ?case unfolding fs'
    by (rule storing_weaken[OF storing_text[OF assms, OF write_private_new_file_stored]]) (use valid assms in \<open>auto simp: slot_def\<close>)
qed (use assms in \<open>simp add: shop_def\<close>)

lemma save_registry_stored:
  assumes "shop W fs" and "p = W @ [x]" and "x \<noteq> ''keys''"
  shows "storing {temporary_path p, p} fs (save_device_registry env p rg) (\<lambda>_ fs'.
    \<exists>text. to_toml (se_registry env) rg = Ok text \<and> has fs' p (str_bytes text))"
  unfolding save_device_registry_def
  by (rule storing_text[OF assms, OF device_atomic_write_stored]) (use assms in \<open>auto simp: slot_def\<close>)

lemma save_access_stored:
  assumes "shop W fs" and "p = W @ [x]" and "x \<noteq> ''keys''"
  shows "storing {temporary_path p, p} fs (save_access_state env p st) (\<lambda>_ fs'. validate_state (se_cx env) st = Ok ()
    \<and> (\<exists>text. to_toml (se_access env) st = Ok text \<and> has fs' p (str_bytes text)))"
  unfolding save_access_state_def
proof (rule storing_then[OF storing_lift], goal_cases)
  case (2 a fs')
  then have valid: "validate_state (se_cx env) st = Ok ()" and fs': "fs' = fs" by (cases "validate_state (se_cx env) st", auto)+
  show ?case unfolding fs'
    by (rule storing_weaken[OF storing_text[OF assms, OF access_atomic_write_stored]]) (use valid assms in \<open>auto simp: slot_def\<close>)
qed (use assms in \<open>simp add: shop_def\<close>)

end
