(* ===== verification/Workspace_Props.thy ===== *)
theory Workspace_Props
  imports Stores_Facts
begin

text \<open>
  Creating a workspace: what \<^verbatim>\<open>Workspace::init_with_device_identity\<close> and
  \<^verbatim>\<open>Workspace::bootstrap_with_key\<close> leave on disk, and that it opens again.
\<close>

section \<open>The keyring\<close>

definition saved :: "'a toml \<Rightarrow> 'a \<Rightarrow> path \<Rightarrow> LocalFs \<Rightarrow> bool" where
  "saved T x p fs \<longleftrightarrow> (\<exists>text. to_toml T x = Ok text \<and> has fs p (str_bytes text))"

lemma saved_stored: "stored A fs fs' \<Longrightarrow> saved T x p fs \<Longrightarrow> p \<notin> A \<Longrightarrow> saved T x p fs'"
  using stored_has unfolding saved_def by blast

abbreviation keys_of :: "path \<Rightarrow> path" where "keys_of W \<equiv> W @ [''keys'']"
abbreviation keyring_of :: "path \<Rightarrow> path" where "keyring_of W \<equiv> W @ [''keys'', ''keyring.toml'']"
abbreviation key_of :: "path \<Rightarrow> KeyId \<Rightarrow> path" where "key_of W k \<equiv> W @ [''keys'', key_id_str k @ ''.key'']"

lemma key_neq_keyring [simp]: "s @ ''.key'' \<noteq> ''keyring.toml''"
proof
  assume "s @ ''.key'' = ''keyring.toml''"
  then have "drop (length (s @ ''.key'') - 1) (s @ ''.key'') = drop (length ''keyring.toml'' - 1) ''keyring.toml''" by simp
  then show False by simp
qed

lemma slots [simp]: "slot W (keyring_of W)" "slot W (key_of W k)" "x \<noteq> ''keys'' \<Longrightarrow> slot W (W @ [x])"
  by (auto simp: slot_def)

lemma keyring_save_stored:
  assumes "shop W fs" and "ky_registry_path ky = keyring_of W"
  shows "storing {keyring_of W} fs (keyring_save env ky) (\<lambda>_ fs'. saved (se_keyring env) (ky_registry ky) (keyring_of W) fs')"
  unfolding keyring_save_def
proof (rule storing_then[OF storing_lift], goal_cases)
  case (2 s fs')
  then have "to_toml (se_keyring env) (ky_registry ky) = Ok s" and fs': "fs' = fs"
    by (cases "to_toml (se_keyring env) (ky_registry ky)", auto)+
  then show ?case unfolding fs' assms(2) saved_def
    by (intro storing_map_error[OF storing_weaken[OF write_stored[OF assms(1) slots(1)]]]) auto
qed (use assms in \<open>simp add: shop_def\<close>)

text \<open>A new key: its file, then the registry.\<close>

lemma add_key_stored:
  assumes "shop W fs" and "ky_registry_path ky = keyring_of W"
  shows "storing {key_of W k, keyring_of W} fs (then_do (save_workspace_key (key_of W k) key) (\<lambda>_.
      let ky = ky\<lparr>ky_registry := rg\<rparr> in then_do (keyring_save env ky) (\<lambda>_. done_with (f ky))))
    (\<lambda>a fs'. has fs' (key_of W k) key \<and> saved (se_keyring env) rg (keyring_of W) fs' \<and> a = f (ky\<lparr>ky_registry := rg\<rparr>))"
proof -
  let ?A = "{key_of W k, keyring_of W}"
  have s: "shop W fs'" if "stored ?A fs fs'" for fs' by (rule stored_shop[OF assms(1) that]) auto
  have key: "storing ?A fs (save_workspace_key (key_of W k) key) (\<lambda>_ fs'. has fs' (key_of W k) key)"
    by (rule storing_weaken[OF save_workspace_key_stored[OF assms(1) slots(2)]]) auto
  show ?thesis unfolding Let_def
  proof (rule storing_then[OF key], goal_cases)
    case (1 a fs1)
    have save: "storing ?A fs1 (keyring_save env (ky\<lparr>ky_registry := rg\<rparr>))
        (\<lambda>_ fs'. has fs' (key_of W k) key \<and> saved (se_keyring env) rg (keyring_of W) fs')"
      by (rule storing_weaken[OF keyring_save_stored[OF s[OF 1(1)]]]) (use assms(2) stored_has 1(2) in auto)
    show ?case by (rule storing_then[OF save]) (rule storing_done, auto dest: stored_tree)
  qed
qed

lemma storing_ifs: "(c \<Longrightarrow> storing A fs m Q) \<Longrightarrow> (\<not> c \<Longrightarrow> storing A fs m' Q) \<Longrightarrow> storing A fs (if c then m else m') Q"
  by simp

lemma keyring_import_key_stored:
  assumes "shop W fs" and "ky_registry_path ky = keyring_of W" and "ky_keys_dir ky = keys_of W"
  shows "storing {key_of W (kw_key_id rc), keyring_of W} fs (keyring_import_key env ky rc key)
    (\<lambda>_ fs'. validate_key_id (kw_key_id rc) = Ok () \<and> has fs' (key_of W (kw_key_id rc)) key
      \<and> saved (se_keyring env) (keyring_registry_insert rc (ky_registry ky)) (keyring_of W) fs')"
proof -
  have tree: "tree_ok fs" using assms(1) by (simp add: shop_def)
  have p: "keyring_key_path ky (kw_key_id rc) = key_of W (kw_key_id rc)" using assms(3) by (simp add: keyring_key_path_def)
  have taken: "storing A fs (if keyring_contains ky (kw_key_id rc) then done_with True else path_exists (key_of W (kw_key_id rc)))
      (\<lambda>_ fs'. lf_nodes fs' = lf_nodes fs)" for A
    by (auto intro: storing_done tree storing_weaken[OF path_exists_stored[OF tree]])
  show ?thesis unfolding keyring_import_key_def p
  proof (rule storing_then[OF storing_lift[OF tree]], unfold Let_def, rule storing_then[where Q = "\<lambda>_ fs'. lf_nodes fs' = lf_nodes fs"], goal_cases)
    case (1 a fs1)
    then have fs1: "fs1 = fs" by simp
    show ?case unfolding fs1 by (rule taken)
  next
    case (2 a fs1 b fs2)
    have s2: "shop W fs2" using 2 assms(1) node_at_nodes[of fs2 fs] tree_ok_nodes[of fs2 fs] by (simp add: shop_def)
    then have "tree_ok fs2" by (simp add: shop_def)
    then show ?case
      by (intro storing_ifs storing_fail storing_weaken[OF add_key_stored[OF s2 assms(2), unfolded Let_def]]) (use 2 in auto)
  qed
qed


definition first_record :: "KeyId \<Rightarrow> KeyVisibility \<Rightarrow> DeviceId \<Rightarrow> u64 \<Rightarrow> u64 \<Rightarrow> WorkspaceKeyRecord" where
  "first_record k v d g now = \<lparr>kw_key_id = k, kw_generation = g, kw_visibility = v,
     kw_algorithm = KeyXChaCha20Poly1305, kw_create_by_device_id = d, kw_created_at = now\<rparr>"

lemma keyring_create_key_stored:
  assumes "shop W fs" and "ky_registry_path ky = keyring_of W" and "ky_keys_dir ky = keys_of W"
  shows "storing {key_of W k, keyring_of W} fs (keyring_create_key env key now ky k v d)
    (\<lambda>(rc, ky') fs'. validate_key_id k = Ok () \<and> has fs' (key_of W k) key \<and> rc = first_record k v d 1 now
      \<and> ky' = ky\<lparr>ky_registry := keyring_registry_insert rc (ky_registry ky)\<rparr> \<and> saved (se_keyring env) (ky_registry ky') (keyring_of W) fs')"
proof -
  have tree: "tree_ok fs" using assms(1) by (simp add: shop_def)
  have p: "keyring_key_path ky k = key_of W k" using assms(3) by (simp add: keyring_key_path_def)
  show ?thesis unfolding keyring_create_key_def p
  proof (rule storing_then[OF storing_lift[OF tree]], goal_cases)
    case (1 a fs1)
    then have fs1: "fs1 = fs" and valid: "validate_key_id k = Ok ()" by auto
    show ?case unfolding fs1 Let_def
    proof (intro storing_ifs storing_fail[OF tree] storing_then[OF path_exists_stored[OF tree]], goal_cases)
      case (1 b fs2)
      then show ?case by (intro storing_fail) (simp add: stored_def)
    next
      case (2 b fs2)
      have s2: "shop W fs2" using 2 assms(1) node_at_nodes[of fs2 fs] tree_ok_nodes[of fs2 fs] by (simp add: shop_def)
      show ?case
        by (rule storing_weaken[OF add_key_stored[OF s2 assms(2), unfolded Let_def]]) (use valid in \<open>auto simp: first_record_def\<close>)
    qed
  qed
qed

lemma keyring_init_stored:
  assumes "shop W fs"
  shows "storing {key_of W k, keyring_of W} fs (keyring_init env key now (keys_of W) (keyring_of W) d k)
    (\<lambda>_ fs'. validate_key_id k = Ok () \<and> has fs' (key_of W k) key
      \<and> saved (se_keyring env) (keyring_registry_insert (first_record k Shared d 1 now) keyring_registry_new) (keyring_of W) fs')"
proof -
  let ?A = "{key_of W k, keyring_of W}"
  have tree: "tree_ok fs" using assms(1) by (simp add: shop_def)
  have s: "shop W fs'" if "stored ?A fs fs'" for fs' by (rule stored_shop[OF assms that]) auto
  show ?thesis unfolding keyring_init_def
  proof (rule storing_then[OF storing_lift[OF tree]], goal_cases)
    case (1 a fs1)
    then have fs1: "fs1 = fs" by simp
    show ?case unfolding fs1
    proof (rule storing_then[OF storing_map_error[OF folder_there[OF assms]]], simp, goal_cases)
      case (1 b fs2)
      note s2 = s[OF 1(1)]
      let ?ky = "\<lparr>ky_keys_dir = keys_of W, ky_registry_path = keyring_of W, ky_registry = keyring_registry_new\<rparr>"
      show ?case
      proof (rule storing_then[OF keyring_create_key_stored[OF s2]], goal_cases)
        case (3 x fs3)
        obtain rc ky where x: "x = (rc, ky)" by (cases x)
        have s3: "shop W fs3" by (rule stored_shop[OF s2 3(1)]) auto
        have ky: "ky_registry_path ky = keyring_of W" "ky_registry ky = keyring_registry_insert (first_record k Shared d 1 now) keyring_registry_new"
          using 3(2) x by auto
        have "storing ?A fs3 (keyring_save env ky) (\<lambda>_ fs'. has fs' (key_of W k) key
            \<and> saved (se_keyring env) (ky_registry ky) (keyring_of W) fs')"
          by (rule storing_weaken[OF keyring_save_stored[OF s3 ky(1)]]) (use 3(2) x stored_has in auto)
        then show ?case unfolding x prod.case
          by (rule storing_then[OF _ storing_done]) (use 3(2) x ky in \<open>auto dest: stored_tree\<close>)
      qed auto
    qed
  qed
qed


section \<open>Stages\<close>

text \<open>Outside the folder nothing has changed, and the folder is one or missing.\<close>

definition astray :: "path \<Rightarrow> LocalFs \<Rightarrow> LocalFs \<Rightarrow> bool" where
  "astray W fs0 fs \<longleftrightarrow> tree_ok fs \<and> calm fs0 fs \<and> (\<forall>q. \<not> is_under W q \<longrightarrow> node_at fs q = node_at fs0 q)
     \<and> (node_at fs W = None \<or> node_at fs W = Some Folder)"

text \<open>Moreover these files have these contents.\<close>

definition stage :: "path \<Rightarrow> LocalFs \<Rightarrow> (path \<times> bytes) list \<Rightarrow> LocalFs \<Rightarrow> bool" where
  "stage W fs0 cs fs \<longleftrightarrow> shop W fs \<and> astray W fs0 fs \<and> (\<forall>(p, b) \<in> set cs. has fs p b)"

definition vacant :: "path \<Rightarrow> LocalFs \<Rightarrow> bool" where
  "vacant root fs \<longleftrightarrow> tree_ok fs \<and> node_at fs root = Some Folder \<and> node_at fs (root @ [WORKSPACE_DIR]) = None"

lemma vacant_below: "vacant root fs \<Longrightarrow> is_under (root @ [WORKSPACE_DIR]) q \<Longrightarrow> node_at fs q = None"
  using tree_ok_prefix[of fs "root @ [WORKSPACE_DIR]"] unfolding vacant_def is_under_iff
  by (metis append_Nil2 option.distinct(1))

lemma vacant_astray: "vacant root fs \<Longrightarrow> astray (root @ [WORKSPACE_DIR]) fs fs"
  by (simp add: vacant_def astray_def)

lemma astray_nodes: "astray W fs0 fs \<Longrightarrow> lf_nodes fs' = lf_nodes fs \<Longrightarrow> calm fs fs' \<Longrightarrow> astray W fs0 fs'"
  using node_at_nodes[of fs' fs] tree_ok_nodes[of fs' fs] by (auto simp: astray_def intro: calm_trans)

lemma stage_stored:
  assumes "stage W fs0 cs fs" and "stored A fs fs'" and "\<And>p. p \<in> A \<Longrightarrow> slot W p" and "\<And>p b. (p, b) \<in> set cs \<Longrightarrow> p \<notin> A"
  shows "stage W fs0 cs fs'"
proof -
  have old: "shop W fs" "astray W fs0 fs" using assms(1) by (simp_all add: stage_def)
  have s: "shop W fs'" by (rule stored_shop[OF old(1) assms(2,3)])
  have "node_at fs' q = node_at fs0 q" if "\<not> is_under W q" for q
  proof -
    have "q \<notin> A" using assms(3) slot_under that by blast
    then have "node_at fs' q = node_at fs q" using assms(2) unfolding stored_def by blast
    then show ?thesis using old(2) that unfolding astray_def by metis
  qed
  moreover have "calm fs0 fs'" using calm_trans[of fs0 fs fs'] old(2) assms(2) unfolding astray_def stored_def by blast
  ultimately have "astray W fs0 fs'" using s unfolding astray_def shop_def by blast
  moreover have "has fs' p b" if "(p, b) \<in> set cs" for p b
    using stored_has[OF assms(2) _ assms(4)[OF that]] assms(1) that unfolding stage_def by blast
  ultimately show ?thesis using s unfolding stage_def by blast
qed

lemma stage_then:
  assumes m: "storing A fs m Q" and st: "stage W fs0 cs fs"
    and "\<And>p. p \<in> A \<Longrightarrow> slot W p" and "\<And>p b. (p, b) \<in> set cs \<Longrightarrow> p \<notin> A"
    and "\<And>a fs'. Q a fs' \<Longrightarrow> stored A fs fs' \<Longrightarrow> stage W fs0 cs fs' \<Longrightarrow> post (k a) fs' P"
    and "\<And>fs' e. astray W fs0 fs' \<Longrightarrow> P fs' (Err e)"
  shows "post (then_do m k) fs P"
proof -
  have kept: "stage W fs0 cs fs'" if "stored A fs fs'" for fs' by (rule stage_stored[OF st that assms(3,4)])
  show ?thesis
  proof (rule post_thenI[OF m[unfolded storing_def]], goal_cases)
    case (1 fs' a)
    then have "stored A fs fs'" "Q a fs'" by auto
    then show ?case using assms(5)[OF _ _ kept] by blast
  next
    case (2 fs' e)
    then have "astray W fs0 fs'" using kept unfolding stage_def by blast
    then show ?case by (rule assms(6))
  qed
qed

lemma stage_add: "stage W fs0 cs fs \<Longrightarrow> has fs p b \<Longrightarrow> stage W fs0 ((p, b) # cs) fs"
  by (simp add: stage_def)

lemma first_folders:
  assumes "vacant root fs"
  shows "post (create_dir_all (keys_of (root @ [WORKSPACE_DIR]))) fs (\<lambda>fs' r. astray (root @ [WORKSPACE_DIR]) fs fs'
    \<and> (is_ok r \<longrightarrow> stage (root @ [WORKSPACE_DIR]) fs [] fs' \<and> node_at fs' (keyring_of (root @ [WORKSPACE_DIR])) = None))"
proof -
  let ?W = "root @ [WORKSPACE_DIR]"
  have v: "tree_ok fs" "node_at fs root = Some Folder" "node_at fs ?W = None" using assms by (auto simp: vacant_def)
  have none: "node_at fs (keys_of ?W) = None" using vacant_below[OF assms] by (simp add: is_under_iff)
  have "clear fs (root @ [WORKSPACE_DIR, ''keys''])"
    using v by (intro clear_below) (auto simp: Cons_eq_append_conv)
  from create_dir_all_post[OF v(1) this] have made: "post (create_dir_all (keys_of ?W)) fs (\<lambda>fs' r. tree_ok fs' \<and> calm fs fs'
      \<and> grown fs fs' (keys_of ?W) \<and> (is_ok r \<longrightarrow> node_at fs' (keys_of ?W) = Some Folder))" using none by simp
  show ?thesis
  proof (rule post_mono[OF made], elim conjE, goal_cases)
    case (1 fs' r)
    have node: "node_at fs' q = node_at fs q \<or> node_at fs q = None \<and> node_at fs' q = Some Folder \<and> is_under q (keys_of ?W)" for q
      using 1(3) by (simp add: grown_def)
    have same: "node_at fs' q = node_at fs q" if q: "\<not> is_under ?W q" for q
    proof (cases "is_under q (keys_of ?W)")
      case True
      then obtain r where r: "keys_of ?W = q @ r" by (auto simp: is_under_iff)
      then have "is_under q root" using q
        by (auto simp: is_under_iff append_eq_append_conv2 Cons_eq_append_conv append_eq_Cons_conv)
      then have "node_at fs q \<noteq> None" using tree_ok_prefix[OF v(1), of q] v(2) unfolding is_under_iff by (metis append_Nil2 option.distinct(1))
      then show ?thesis using node[of q] by auto
    qed (use node[of q] in auto)
    have W: "node_at fs' ?W = None \<or> node_at fs' ?W = Some Folder" using node[of ?W] v(3) by auto
    have astray: "astray ?W fs fs'" using 1 same W by (simp add: astray_def)
    have "node_at fs' ?W = Some Folder" if "node_at fs' (keys_of ?W) = Some Folder"
      using tree_ok_prefix[OF 1(1), of ?W "[''keys'']"] that by simp
    moreover have "node_at fs' q \<noteq> Some (SymLink l)" if "is_under ?W q" for q l
      using node[of q] vacant_below[OF assms that] by auto
    moreover have "node_at fs' (keyring_of ?W) = None"
      using node[of "keyring_of ?W"] vacant_below[OF assms, of "keyring_of ?W"] by (auto simp: is_under_iff)
    ultimately show ?case using astray 1 by (auto simp: stage_def shop_def)
  qed
qed


section \<open>Creating a workspace\<close>

definition furnished :: "store_env \<Rightarrow> Workspace \<Rightarrow> bytes \<Rightarrow> KeyringRegistry \<Rightarrow> DeviceIdentity \<Rightarrow> DeviceRegistry \<Rightarrow> AccessState \<Rightarrow>
    LocalFs \<Rightarrow> bool" where
  "furnished env wk key kr i rg st fs \<longleftrightarrow> (let ly = wk_layout wk; k = wc_default_key_id (wk_config wk) in
     shop (ly_rustsync_dir ly) fs
   \<and> saved (se_config env) (wk_config wk) (ly_config_path ly) fs
   \<and> validate_key_id k = Ok () \<and> has fs (key_path ly k) key
   \<and> saved (se_keyring env) kr (ly_keyring_path ly) fs
   \<and> validate_identity (se_crypto env) i = Ok () \<and> saved (se_identity env) i (ly_device_identity_path ly) fs
   \<and> saved (se_registry env) rg (ly_device_registry_path ly) fs
   \<and> validate_state (se_cx env) st = Ok () \<and> saved (se_access env) st (ly_access_control_path ly) fs)"

lemma layout_at:
  "ly_rustsync_dir (layout_new root) = root @ [WORKSPACE_DIR]"
  "ly_config_path (layout_new root) = (root @ [WORKSPACE_DIR]) @ [''workspace.toml'']"
  "ly_keys_dir (layout_new root) = keys_of (root @ [WORKSPACE_DIR])"
  "ly_keyring_path (layout_new root) = keyring_of (root @ [WORKSPACE_DIR])"
  "ly_device_identity_path (layout_new root) = (root @ [WORKSPACE_DIR]) @ [''device.identity.toml'']"
  "ly_device_registry_path (layout_new root) = (root @ [WORKSPACE_DIR]) @ [''devices.toml'']"
  "ly_access_control_path (layout_new root) = (root @ [WORKSPACE_DIR]) @ [''access.toml'']"
  "key_path (layout_new root) k = key_of (root @ [WORKSPACE_DIR]) k"
  by (simp_all add: layout_new_def key_path_def Let_def)

lemma post_lift_then:
  "(\<And>a. r = Ok a \<Longrightarrow> post (k a) s P) \<Longrightarrow> (\<And>e. r = Err e \<Longrightarrow> P s (Err e)) \<Longrightarrow> post (then_do (lift_result r) k) s P"
  unfolding post_then post_lift by (cases r) auto

lemma save_config_stored:
  assumes "shop W fs" and "ly_config_path (wk_layout wk) = W @ [''workspace.toml'']"
  shows "storing {W @ [''workspace.toml'']} fs (save_config env wk) (\<lambda>_ fs'. saved (se_config env) (wk_config wk) (W @ [''workspace.toml'']) fs')"
  unfolding save_config_def assms(2)
proof (rule storing_then[OF storing_lift], goal_cases)
  case (2 s fs')
  then have "to_toml (se_config env) (wk_config wk) = Ok s" and fs': "fs' = fs"
    by (cases "to_toml (se_config env) (wk_config wk)", auto)+
  then show ?case unfolding fs' saved_def
    by (intro storing_map_error[OF storing_weaken[OF write_stored[OF assms(1)]]]) auto
qed (use assms in \<open>simp add: shop_def\<close>)

lemma keyring_open_stored:
  assumes "tree_ok fs" and "clear fs rp" and "node_at fs rp = None"
  shows "storing {} fs (keyring_open env kd rp) (\<lambda>ky _. ky = \<lparr>ky_keys_dir = kd, ky_registry_path = rp, ky_registry = keyring_registry_new\<rparr>)"
  unfolding keyring_open_def
proof (rule storing_then[OF path_exists_stored[OF assms(1)]], goal_cases)
  case (1 a fs1)
  then have "\<not> a" "tree_ok fs1" using assms by (auto dest: stored_tree)
  then show ?case by (simp add: then_do_def done_with_def storing_def post_def)
qed

definition bootstrapped :: "path \<Rightarrow> WorkspaceId \<Rightarrow> DeviceId \<Rightarrow> KeyId \<Rightarrow> Workspace" where
  "bootstrapped root w d k = \<lparr>wk_layout = layout_new root, wk_config = \<lparr>wc_server_url = None, wc_workspace_id = w,
     wc_local_device_id = d, wc_default_key_id = k\<rparr>\<rparr>"

text \<open>The files of a workspace, written one after the other.\<close>

abbreviation config_of :: "path \<Rightarrow> path" where "config_of W \<equiv> W @ [''workspace.toml'']"
abbreviation identity_of :: "path \<Rightarrow> path" where "identity_of W \<equiv> W @ [''device.identity.toml'']"
abbreviation devices_of :: "path \<Rightarrow> path" where "devices_of W \<equiv> W @ [''devices.toml'']"
abbreviation access_of :: "path \<Rightarrow> path" where "access_of W \<equiv> W @ [''access.toml'']"

lemma temporary_snoc [simp]: "temporary_path (W @ [x]) = W @ [x @ ''.tmp'']"
  by (simp add: temporary_path_def)

lemma tail_post:
  assumes st: "stage W fs0 [(keyring_of W, b1), (key_of W k, key), (config_of W, b3)] fs"
    and P: "\<And>fs' e. astray W fs0 fs' \<Longrightarrow> P fs' (Err e)"
    and final: "\<And>fs' rg st b4 b5 b6. validate_identity (se_crypto env) i = Ok () \<Longrightarrow> rgr = Ok rg \<Longrightarrow> str = Ok st \<Longrightarrow> validate_state (se_cx env) st = Ok () \<Longrightarrow>
        to_toml (se_identity env) i = Ok b4 \<Longrightarrow> to_toml (se_registry env) rg = Ok b5 \<Longrightarrow> to_toml (se_access env) st = Ok b6 \<Longrightarrow>
        stage W fs0 [(access_of W, str_bytes b6), (devices_of W, str_bytes b5), (identity_of W, str_bytes b4),
          (keyring_of W, b1), (key_of W k, key), (config_of W, b3)] fs' \<Longrightarrow> P fs' (Ok wk)"
  shows "post (then_do (map_error (save_local_device_identity env (identity_of W) i) f1) (\<lambda>_.
      then_do (lift_result rgr) (\<lambda>rg. then_do (map_error (save_device_registry env (devices_of W) rg) f2) (\<lambda>_.
      then_do (lift_result str) (\<lambda>st. then_do (map_error (save_access_state env (access_of W) st) f3) (\<lambda>_. done_with wk)))))) fs P"
proof -
  have tmp: "x @ ''.tmp'' \<noteq> ''keys''" for x :: string by (cases x rule: rev_cases) auto
  have shop: "shop W fs'" if "stage W fs0 cs fs'" for cs fs' using that by (simp add: stage_def)
  have stray: "P fs' (Err e)" if "stage W fs0 cs fs'" for cs fs' e using that P by (simp add: stage_def)
  show ?thesis
  proof (rule stage_then[OF storing_map_error[OF save_identity_stored[OF shop[OF st] refl]] st], goal_cases)
    case (4 a1 fs1)
    then obtain b4 where b4: "validate_identity (se_crypto env) i = Ok ()" "to_toml (se_identity env) i = Ok b4"
        "has fs1 (identity_of W) (str_bytes b4)" by blast
    note st1 = stage_add[OF 4(3) b4(3)]
    show ?case
    proof (rule post_lift_then, goal_cases)
      case (1 rg)
      show ?case
      proof (rule stage_then[OF storing_map_error[OF save_registry_stored[OF shop[OF st1] refl]] st1], goal_cases)
        case (4 a2 fs2)
        then obtain b5 where b5: "to_toml (se_registry env) rg = Ok b5" "has fs2 (devices_of W) (str_bytes b5)" by blast
        note st2 = stage_add[OF 4(3) b5(2)]
        show ?case
        proof (rule post_lift_then, goal_cases)
          case (1 st')
          show ?case
          proof (rule stage_then[OF storing_map_error[OF save_access_stored[OF shop[OF st2] refl]] st2], goal_cases)
            case (4 a3 fs3)
            then obtain b6 where b6: "validate_state (se_cx env) st' = Ok ()" "to_toml (se_access env) st' = Ok b6"
                "has fs3 (access_of W) (str_bytes b6)" by blast
            note st3 = stage_add[OF 4(3) b6(3)]
            show ?case unfolding post_done
              by (rule final[OF b4(1) \<open>rgr = Ok rg\<close> \<open>str = Ok st'\<close> b6(1) b4(2) b5(1) b6(2) st3])
          qed (use tmp P in auto)
        qed (use stray[OF st2] in auto)
      qed (use tmp P in auto)
    qed (use stray[OF st1] in auto)
  qed (use P in auto)
qed


lemma lift_Ok: "then_do (lift_result (Ok a)) k = k a"
  by (simp add: then_do_def lift_result_def fun_eq_iff)

lemma first_folders_mapped:
  assumes "vacant root fs"
  shows "post (map_error (create_dir_all (keys_of (root @ [WORKSPACE_DIR]))) f) fs (\<lambda>fs' r. astray (root @ [WORKSPACE_DIR]) fs fs'
    \<and> (is_ok r \<longrightarrow> stage (root @ [WORKSPACE_DIR]) fs [] fs' \<and> node_at fs' (keyring_of (root @ [WORKSPACE_DIR])) = None))"
  by (rule post_mapI[OF first_folders[OF assms]]) auto

lemma bootstrap_body_post:
  assumes v: "vacant root fs" and W: "W = root @ [WORKSPACE_DIR]"
  shows "post (bootstrap_body env now (layout_new root) i st k g key) fs (\<lambda>fs' r. astray W fs fs'
    \<and> (\<forall>wk. r = Ok wk \<longrightarrow> wk = bootstrapped root (as_workspace_id st) (di_device_id i) k \<and> (\<exists>rg. registry_of_state env st = Ok rg
       \<and> furnished env wk key (keyring_registry_insert (first_record k Shared (di_device_id i) g now) keyring_registry_new) i rg st fs')))"
    (is "post _ fs ?P")
proof -
  note at = layout_at[of root, folded W]
  let ?wk = "bootstrapped root (as_workspace_id st) (di_device_id i) k"
  have stray: "?P fs' (Err e)" if "astray W fs fs'" for fs' e using that by simp
  have start: "?P fs (Err e)" for e using stray vacant_astray[OF v] W by simp
  show ?thesis unfolding bootstrap_body_def at Let_def bootstrapped_def[symmetric] first_record_def[symmetric]
  proof (rule post_lift_then, split if_split, intro conjI impI, goal_cases)
    case (2 r)
    show ?case
    proof (rule post_thenI[OF first_folders_mapped[OF v, folded W]], goal_cases)
      case (1 fs1 u)
      then have st1: "stage W fs [] fs1" and none: "node_at fs1 (keyring_of W) = None" by auto
      have config: "ly_config_path (wk_layout ?wk) = config_of W" by (simp add: bootstrapped_def at)
      show ?case
      proof (rule stage_then[OF save_config_stored[OF _ config] st1], goal_cases)
        case (4 a2 fs2)
        then obtain b3 where b3: "to_toml (se_config env) (wk_config ?wk) = Ok b3" "has fs2 (config_of W) (str_bytes b3)"
          by (auto simp: saved_def)
        note st2 = stage_add[OF 4(3) b3(2)]
        then have s2: "shop W fs2" by (simp add: stage_def)
        have none2: "node_at fs2 (keyring_of W) = None" using 4(2) none by (simp add: stored_def)
        show ?case
        proof (rule stage_then[OF storing_map_error[OF keyring_open_stored[OF shop_slot(1,2)[OF s2 slots(1)] none2]] st2], goal_cases)
          case (3 ky fs3)
          then have s3: "shop W fs3" by (simp add: stage_def)
          have ky: "ky_registry_path ky = keyring_of W" "ky_keys_dir ky = keys_of W" "ky_registry ky = keyring_registry_new" using 3(1) by simp_all
          show ?case
          proof (rule stage_then[OF storing_map_error[OF keyring_import_key_stored[OF s3 ky(1,2)]] 3(3)], goal_cases)
            case (3 a4 fs4)
            then obtain b1 where b1: "to_toml (se_keyring env) (keyring_registry_insert (first_record k Shared (di_device_id i) g now) keyring_registry_new) = Ok b1"
                "has fs4 (keyring_of W) (str_bytes b1)" "has fs4 (key_of W k) key" "validate_key_id k = Ok ()"
              using ky(3) by (auto simp: saved_def first_record_def)
            note st4 = stage_add[OF stage_add[OF 3(3) b1(3)] b1(2)]
            show ?case
            proof (rule tail_post[OF st4, where str = "Ok st", unfolded lift_Ok], goal_cases)
              case (2 fs5 rg st' b4 b5 b6)
              then show ?case using b1 b3
                by (auto simp: furnished_def saved_def bootstrapped_def at stage_def)
            qed (use stray in simp)
          qed (use stray in auto)
        qed (use stray in auto)
      qed (use stray st1 in \<open>auto simp: stage_def\<close>)
    qed (use stray in simp)
  qed (use start in \<open>simp_all add: post_fail\<close>)
qed


section \<open>Cleaning up\<close>

lemma clean_up_post:
  assumes v: "vacant root fs0" and W: "W = root @ [WORKSPACE_DIR]" and a: "astray W fs0 fs"
  shows "post (remove_dir_all W) fs (\<lambda>fs' r. (\<forall>q. \<not> is_under W q \<longrightarrow> node_at fs' q = node_at fs0 q)
    \<and> (node_at fs' = node_at fs0 \<or> lf_faults fs \<noteq> [] \<and> (\<exists>msg. r = Err (IoError OtherKind msg))))"
proof -
  have tree: "tree_ok fs" and outside: "\<And>q. \<not> is_under W q \<Longrightarrow> node_at fs q = node_at fs0 q"
    and node: "node_at fs W = None \<or> node_at fs W = Some Folder" using a by (auto simp: astray_def)
  have "\<not> is_under W root" using W by (auto simp: is_under_iff)
  then have "node_at fs root = Some Folder" using outside v by (simp add: vacant_def)
  then have clear: "clear fs W" unfolding W by (intro clear_below[OF tree]) (auto simp: Cons_eq_append_conv)
  have below: "node_at fs0 q = None" if "is_under W q" for q using vacant_below[OF v] that W by simp
  have W_ne: "W \<noteq> []" using W by simp
  show ?thesis unfolding remove_dir_all_def
  proof (rule changing_entry_post[OF tree clear W_ne], goal_cases)
    case (1 fs1)
    note at = node_at_nodes[OF 1(1)]
    have "node_at fs q = None" if q: "is_under W q" for q
    proof -
      obtain r where "q = W @ r" using q by (auto simp: is_under_iff)
      then show ?thesis using tree_ok_prefix[OF tree, of W r] 1(4) by (cases "r = []"; cases "node_at fs (W @ r)") auto
    qed
    then have "node_at fs1 q = node_at fs0 q" for q using outside below at by (cases "is_under W q") auto
    then show ?case by (simp add: fun_eq_iff)
  next
    case (2 fs1 n)
    note at = node_at_nodes[OF 2(1)]
    have "n = Folder" using 2(4) node by simp
    moreover have "node_at (delete_where (is_under W) fs1) q = node_at fs0 q" for q
      using outside[of q] below[of q] at W_ne by (auto simp: is_under_iff)
    ultimately show ?case by (simp add: fun_eq_iff del: node_at_delete)
  next
    case (3 fs1 n msg)
    note at = node_at_nodes[OF 3(1)]
    have "resolve_entry fs1 W = Ok W \<or> (\<exists>e. resolve_entry fs1 W = Err e)"
      using resolve_entry_clear[OF 3(3) _ W_ne] clear clear_nodes[OF 3(1)] by auto
    then have "node_at (remove_some W n fs1) q = node_at fs1 q" if "\<not> is_under W q" for q
      using that by (auto simp: remove_some_def)
    then show ?case using 3(2) outside at by auto
  qed
qed

lemma vacant_nodes: "vacant root fs \<Longrightarrow> lf_nodes fs' = lf_nodes fs \<Longrightarrow> vacant root fs'"
  using node_at_nodes[of fs' fs] tree_ok_nodes[of fs' fs] by (simp add: vacant_def)

lemma look_vacant:
  assumes "vacant root fs"
  shows "post (path_exists (root @ [WORKSPACE_DIR])) fs (\<lambda>fs' r. lf_nodes fs' = lf_nodes fs \<and> calm fs fs' \<and> (\<forall>a. r = Ok a \<longrightarrow> \<not> a))"
proof -
  have "clear fs (root @ [WORKSPACE_DIR])" using assms by (intro clear_below) (auto simp: vacant_def Cons_eq_append_conv)
  then have "post (path_exists (root @ [WORKSPACE_DIR])) fs (\<lambda>fs' r. stored {} fs fs' \<and> (\<forall>a. r = Ok a \<longrightarrow> lf_nodes fs' = lf_nodes fs \<and> \<not> a))"
    using path_exists_stored[of fs "{}" "root @ [WORKSPACE_DIR]"] assms unfolding storing_def vacant_def by auto
  moreover have "post (path_exists (root @ [WORKSPACE_DIR])) fs (\<lambda>fs' r. is_ok r)"
    by (auto simp: path_exists_def post_def match_do_def done_with_def split: prod.splits)
  ultimately show ?thesis unfolding post_def stored_def by (fastforce split: prod.splits simp: is_ok_iff)
qed

lemma post_known: "post m s P \<Longrightarrow> post m s (\<lambda>s' r. P s' r \<and> m s = (s', r))"
  by (simp add: post_def)

lemma bootstrap_post:
  assumes "vacant root fs"
  shows "post (bootstrap_with_key env now root i st k g key) fs (\<lambda>fs' r. (\<forall>q. \<not> is_under (root @ [WORKSPACE_DIR]) q \<longrightarrow> node_at fs' q = node_at fs q) \<and> (case r of
      Ok wk \<Rightarrow> wk = bootstrapped root (as_workspace_id st) (di_device_id i) k \<and> (\<exists>rg. registry_of_state env st = Ok rg
        \<and> furnished env wk key (keyring_registry_insert (first_record k Shared (di_device_id i) g now) keyring_registry_new) i rg st fs')
    | Err e \<Rightarrow> node_at fs' = node_at fs
        \<or> lf_faults fs \<noteq> [] \<and> (\<exists>fs1 msg. remove_dir_all (root @ [WORKSPACE_DIR]) fs1 = (fs', Err (IoError OtherKind msg)))))"
proof -
  define W where "W = root @ [WORKSPACE_DIR]"
  let ?kr = "keyring_registry_insert (first_record k Shared (di_device_id i) g now) keyring_registry_new"
  let ?P = "\<lambda>fs' r. (\<forall>q. \<not> is_under W q \<longrightarrow> node_at fs' q = node_at fs q) \<and> (case r of
      Ok wk \<Rightarrow> wk = bootstrapped root (as_workspace_id st) (di_device_id i) k \<and> (\<exists>rg. registry_of_state env st = Ok rg
        \<and> furnished env wk key ?kr i rg st fs')
    | Err e \<Rightarrow> node_at fs' = node_at fs \<or> lf_faults fs \<noteq> [] \<and> (\<exists>fs1 msg. remove_dir_all W fs1 = (fs', Err (IoError OtherKind msg))))"
  have same: "?P fs' (Err e)" if "node_at fs' = node_at fs" for fs' and e :: WorkspaceError using that by simp
  show ?thesis unfolding W_def[symmetric] unfolding bootstrap_with_key_def layout_at Let_def W_def[symmetric]
  proof (intro post_lift_then, goal_cases)
    case (1 a b)
    show ?case
    proof (rule post_thenI[OF look_vacant[OF assms, folded W_def]], goal_cases)
      case (1 fs1 present)
      then have v1: "vacant root fs1" using vacant_nodes[OF assms] by simp
      have calm: "calm fs fs1" using 1 by simp
      have at: "node_at fs1 = node_at fs" by (rule node_at_nodes) (use 1 in simp)
      have "post (match_do (bootstrap_body env now (layout_new root) i st k g key) (\<lambda>result. case result of
          Ok wk \<Rightarrow> done_with wk | Err e \<Rightarrow> match_do (remove_dir_all W) (\<lambda>_. fail_with e))) fs1 ?P"
      proof (rule post_matchI[OF bootstrap_body_post[OF v1 W_def]], elim conjE, goal_cases)
        case (1 fs2 r)
        show ?case
        proof (cases r)
          case (Ok wk)
          have out: "\<forall>q. \<not> is_under W q \<longrightarrow> node_at fs2 q = node_at fs q" using 1(1) at by (simp add: astray_def)
          show ?thesis unfolding Ok result.case post_done by (rule conjI[OF out 1(2)[rule_format, OF Ok]])
        next
          case (Err e)
          have fs2: "calm fs1 fs2" using 1(1) by (simp add: astray_def)
          have faults: "lf_faults fs \<noteq> []" if "lf_faults fs2 \<noteq> []"
            using that calm fs2 by (simp add: calm_def)
          show ?thesis unfolding Err result.case
          proof (rule post_matchI[OF post_known[OF clean_up_post[OF v1 W_def 1(1)]]], unfold post_fail at result.case, elim conjE, goal_cases)
            case (1 fs3 r3)
            then show ?case using faults by blast
          qed
        qed
      qed
      then show ?case using 1 by simp
    next
      case (2 fs1 e)
      then have "node_at fs1 = node_at fs" by (intro node_at_nodes) simp
      then show ?case by (rule same)
    qed
  qed (use same in simp_all)
qed




section \<open>A sample\<close>

text \<open>A device that joins the sample workspace, in an empty folder \<^verbatim>\<open>/w\<close> of a file system on
  which the first call fails; each text stands for one value.\<close>

definition toml_of :: "'a \<Rightarrow> 'a toml" where
  "toml_of v = \<lparr>to_toml = (\<lambda>x. if x = v then Ok ''t'' else Err ''other''), from_toml = (\<lambda>s. if s = ''t'' then Ok v else Err ''other'')\<rparr>"

definition sample_stores :: store_env where
  "sample_stores = \<lparr>se_crypto = sample_device_crypto,
     se_keyring = toml_of (keyring_registry_insert (first_record (KeyId ''k'') Shared (DeviceId ''device_b'') 1 0) keyring_registry_new),
     se_identity = toml_of (sample_identity ''b''), se_registry = \<lparr>to_toml = (\<lambda>_. Ok ''r''), from_toml = (\<lambda>_. Err ''unused'')\<rparr>,
     se_access = toml_of (sample_state 3),
     se_config = toml_of (wk_config (bootstrapped [''w''] sample_workspace (DeviceId ''device_b'') (KeyId ''k''))),
     se_folder_size = (\<lambda>_. 0)\<rparr>"

definition sample_home :: LocalFs where
  "sample_home = \<lparr>lf_nodes = [([''w''], Folder), ([''x''], RegularFile [1] None)], lf_faults = [Some (Fault 0 ''interrupted'')],
     lf_names = [], lf_now = None\<rparr>"

definition sample_bootstrap :: "LocalFs \<times> (Workspace, WorkspaceError) result" where
  "sample_bootstrap = bootstrap_with_key sample_stores 0 [''w''] (sample_identity ''b'') (sample_state 3) (KeyId ''k'') 1 (replicate 32 7) sample_home"

lemma sample_bootstrap_ok: "snd sample_bootstrap = Ok (bootstrapped [''w''] sample_workspace (DeviceId ''device_b'') (KeyId ''k''))"
  by code_simp

lemma sample_home_vacant: "vacant [''w''] sample_home"
  by (auto simp: vacant_def tree_ok_def node_at_def sample_home_def WORKSPACE_DIR_def split: if_splits)




text \<open>The check for an existing folder takes an error for absence.  When that call fails, the bootstrap
  goes on, finds the key, and its clean-up removes the workspace that was there, with its keys.\<close>

definition sample_occupied :: LocalFs where
  "sample_occupied = sample_home\<lparr>lf_nodes := [([''w''], Folder), ([''w'', ''.rustsync''], Folder), ([''w'', ''.rustsync'', ''keys''], Folder),
     ([''w'', ''.rustsync'', ''keys'', ''k.key''], RegularFile (replicate 32 9) None)]\<rparr>"

lemma unnoticed_workspace_removed:
  "case bootstrap_with_key sample_stores 0 [''w''] (sample_identity ''b'') (sample_state 3) (KeyId ''k'') 1 (replicate 32 7) sample_occupied of
     (fs', r) \<Rightarrow> r = Err (WorkspaceError.WorkspaceKeyring (KeyAlreadyExists (KeyId ''k''))) \<and> lf_nodes fs' = [([''w''], Folder)]"
  by code_simp

text \<open>Without that failure the workspace is seen and left alone.\<close>

lemma noticed_workspace_kept:
  "case bootstrap_with_key sample_stores 0 [''w''] (sample_identity ''b'') (sample_state 3) (KeyId ''k'') 1 (replicate 32 7)
     (sample_occupied\<lparr>lf_faults := []\<rparr>) of
     (fs', r) \<Rightarrow> r = Err (AlreadyInitialized ''/w/.rustsync'') \<and> lf_nodes fs' = lf_nodes sample_occupied"
  by code_simp

text \<open>A failed \<^verbatim>\<open>init\<close> leaves what it made, and is refused when tried again.\<close>

definition sample_init_stores :: store_env where
  "sample_init_stores = sample_stores\<lparr>se_config := \<lparr>to_toml = (\<lambda>_. Err ''fails''), from_toml = (\<lambda>_. Err ''unused'')\<rparr>\<rparr>"

definition sample_draws :: draws where
  "sample_draws = \<lparr>dw_workspace_uuid = ''1'', dw_event_uuid = ''1'', dw_key = replicate 32 7, dw_now = 0\<rparr>"

lemma failed_init_not_undone:
  "case workspace_init sample_init_stores sample_draws [''w''] (DeviceId ''device_b'') (sample_home\<lparr>lf_faults := []\<rparr>) of
     (fs', r) \<Rightarrow> r = Err (ConfigSerialize ''fails'') \<and> node_at fs' [''w'', ''.rustsync''] = Some Folder
       \<and> snd (workspace_init sample_init_stores sample_draws [''w''] (DeviceId ''device_b'') fs') = Err (AlreadyInitialized ''/w/.rustsync'')"
  by code_simp

end
