(* ===== verification/Workspace_Opens.thy ===== *)
theory Workspace_Opens
  imports Workspace_Props
begin

text \<open>
  A workspace that was created opens again: what was written is what is read.
\<close>

section \<open>Initialising\<close>

lemma workspace_init_post:
  assumes v: "vacant root fs" and W: "W = root @ [WORKSPACE_DIR]"
  shows "post (workspace_init env dw root d) fs (\<lambda>fs' r. \<forall>wk. r = Ok wk \<longrightarrow> (\<exists>w k b1 b3. wk = bootstrapped root w d k
    \<and> validate_key_id k = Ok () \<and> to_toml (se_config env) (wk_config wk) = Ok b3
    \<and> to_toml (se_keyring env) (keyring_registry_insert (first_record k Shared d 1 (dw_now dw)) keyring_registry_new) = Ok b1
    \<and> stage W fs [(keyring_of W, str_bytes b1), (key_of W k, dw_key dw), (config_of W, str_bytes b3)] fs'))"
    (is "post _ fs ?P")
proof -
  note at = layout_at[of root, folded W]
  have stray: "?P fs' (Err e)" for fs' and e :: WorkspaceError by simp
  show ?thesis unfolding workspace_init_def at Let_def bootstrapped_def[symmetric]
  proof (rule post_thenI[OF look_vacant[OF v, folded W]], goal_cases)
    case (1 fs1 present)
    then have v1: "vacant root fs1" and calm: "calm fs fs1" and absent: "\<not> present" using vacant_nodes[OF v] by auto
    have at1: "node_at fs1 = node_at fs" by (rule node_at_nodes) (use 1 in simp)
    have rest: "post (then_do (map_error (create_dir_all (keys_of W)) WorkspaceIo) (\<lambda>_.
        then_do (lift_result (map_err (parse_workspace_id (''workspace_'' @ dw_workspace_uuid dw)) WorkspaceProtocol)) (\<lambda>workspace_id.
        then_do (lift_result (map_err (parse_key_id SYSTEM_KEY_ID) WorkspaceProtocol)) (\<lambda>default_key_id.
        then_do (save_config env (bootstrapped root workspace_id d default_key_id)) (\<lambda>_.
        then_do (map_error (keyring_init env (dw_key dw) (dw_now dw) (keys_of W) (keyring_of W) d default_key_id) WorkspaceKeyring)
          (\<lambda>_. done_with (bootstrapped root workspace_id d default_key_id))))))) fs1 ?P"
    proof (rule post_thenI[OF first_folders_mapped[OF v1, folded W]], goal_cases)
      case (1 fs2 u)
      then have st2: "stage W fs1 [] fs2" by simp
      show ?case
      proof (intro post_lift_then, goal_cases)
        case (1 w k)
        have config: "ly_config_path (wk_layout (bootstrapped root w d k)) = config_of W" by (simp add: bootstrapped_def at)
        show ?case
        proof (rule stage_then[OF save_config_stored[OF _ config] st2], goal_cases)
          case (4 a fs3)
          then obtain b3 where b3: "to_toml (se_config env) (wk_config (bootstrapped root w d k)) = Ok b3" "has fs3 (config_of W) (str_bytes b3)"
            by (auto simp: saved_def)
          note st3 = stage_add[OF 4(3) b3(2)]
          show ?case
          proof (rule stage_then[OF storing_map_error[OF keyring_init_stored] st3], goal_cases)
            case (4 a fs4)
            then obtain b1 where b1: "to_toml (se_keyring env) (keyring_registry_insert (first_record k Shared d 1 (dw_now dw)) keyring_registry_new) = Ok b1"
                "has fs4 (keyring_of W) (str_bytes b1)" "has fs4 (key_of W k) (dw_key dw)" "validate_key_id k = Ok ()"
              by (auto simp: saved_def)
            have "stage W fs [(keyring_of W, str_bytes b1), (key_of W k, dw_key dw), (config_of W, str_bytes b3)] fs4"
              using stage_add[OF stage_add[OF 4(3) b1(3)] b1(2)] at1 calm_trans[OF calm] by (auto simp: stage_def astray_def)
            then show ?case unfolding post_done using b1 b3 by blast
          qed (use st3 in \<open>auto simp: stage_def\<close>)
        qed (use st2 in \<open>auto simp: stage_def\<close>)
      qed simp_all
    qed simp
    show ?case using rest absent by simp
  qed simp
qed

lemma init_post:
  assumes v: "vacant root fs"
  shows "post (init_with_device_identity env dw root i) fs (\<lambda>fs' r. \<forall>wk. r = Ok wk \<longrightarrow> (\<exists>w k rg st. wk = bootstrapped root w (di_device_id i) k
    \<and> with_owner (se_crypto env) w i = Ok rg \<and> initial_owner_access_state env dw w i = Ok st
    \<and> furnished env wk (dw_key dw) (keyring_registry_insert (first_record k Shared (di_device_id i) 1 (dw_now dw)) keyring_registry_new) i rg st fs'))"
    (is "post _ fs ?P")
proof -
  define W where "W = root @ [WORKSPACE_DIR]"
  note at = layout_at[of root, folded W_def]
  show ?thesis unfolding init_with_device_identity_def
  proof (rule post_lift_then, rule post_thenI[OF workspace_init_post[OF v W_def]], goal_cases)
    case (1 u fs1 wk)
    then obtain w k b1 b3 where wk: "wk = bootstrapped root w (di_device_id i) k" and valid: "validate_key_id k = Ok ()"
      and b: "to_toml (se_config env) (wk_config wk) = Ok b3"
        "to_toml (se_keyring env) (keyring_registry_insert (first_record k Shared (di_device_id i) 1 (dw_now dw)) keyring_registry_new) = Ok b1"
      and st: "stage W fs [(keyring_of W, str_bytes b1), (key_of W k, dw_key dw), (config_of W, str_bytes b3)] fs1" by blast
    have ly: "wk_layout wk = layout_new root" "wk_workspace_id wk = w" by (simp_all add: wk bootstrapped_def)
    show ?case unfolding Let_def ly at
    proof (rule tail_post[OF st], goal_cases)
      case (2 fs2 rg st' b4 b5 b6)
      have rg: "with_owner (se_crypto env) w i = Ok rg" using 2(2) by (cases "with_owner (se_crypto env) w i") auto
      have "furnished env wk (dw_key dw) (keyring_registry_insert (first_record k Shared (di_device_id i) 1 (dw_now dw)) keyring_registry_new) i rg st' fs2"
        using 2 b valid by (auto simp: furnished_def saved_def bootstrapped_def at stage_def wk)
      then show ?case using 2(3) rg wk by blast
    qed simp
  qed simp_all
qed


section \<open>Reading what was written\<close>

text \<open>What TOML promises: text, and the value back from it.\<close>

definition toml_ok :: "'a toml \<Rightarrow> bool" where
  "toml_ok T \<longleftrightarrow> (\<forall>x s. to_toml T x = Ok s \<longrightarrow> utf8_valid (str_bytes s) \<and> from_toml T s = Ok x)"

text \<open>A tree no call on which fails for another reason than what is there.\<close>

definition quiet :: "LocalFs \<Rightarrow> bool" where
  "quiet fs \<longleftrightarrow> tree_ok fs \<and> lf_faults fs = []"

lemma quiet_looking: "quiet fs \<Longrightarrow> looking f fs = (fs, f fs)"
  by (simp add: quiet_def looking_def with_local_fault_def)

lemma resolve_there:
  assumes "quiet fs" and "node_at fs p = Some n" and "\<And>l. n \<noteq> SymLink l"
  shows "resolve fs p = Ok p"
proof -
  have t: "tree_ok fs" using assms(1) by (simp add: quiet_def)
  have c: "clear fs p" using tree_ok_clear[OF t] assms(2) by simp
  have "p = [] \<or> node_at fs (butlast p) = Some Folder" using t assms(2) unfolding tree_ok_def by auto
  then show ?thesis using resolve_clear[OF t c] assms(2,3) by auto
qed

lemma exists_there:
  assumes "quiet fs" and "node_at fs p = Some n" and "\<And>l. n \<noteq> SymLink l"
  shows "path_exists p fs = (fs, Ok True)"
  using resolve_there[OF assms] assms(2)
  by (simp add: path_exists_def match_do_def try_exists_def done_with_def quiet_looking[OF assms(1)])

lemma exists_has: "quiet fs \<Longrightarrow> has fs p b \<Longrightarrow> path_exists p fs = (fs, Ok True)"
  unfolding has_def by (elim exE) (erule (1) exists_there, simp)

lemma open_has:
  assumes "quiet fs" and "has fs p b"
  obtains t where "open_file p fs = (fs, Ok (RegularFile b t))"
proof -
  obtain t where t: "node_at fs p = Some (RegularFile b t)" using assms(2) by (auto simp: has_def)
  then have "open_file p fs = (fs, Ok (RegularFile b t))"
    using resolve_there[OF assms(1) t] by (simp add: open_file_def found_def quiet_looking[OF assms(1)])
  then show ?thesis by (rule that)
qed

lemma read_has:
  assumes "quiet fs" and "has fs p (str_bytes s)" and "utf8_valid (str_bytes s)"
  shows "read_to_string p fs = (fs, Ok s)"
proof -
  obtain t where t: "node_at fs p = Some (RegularFile (str_bytes s) t)" using assms(2) by (auto simp: has_def)
  have "read_file p fs = (fs, Ok (str_bytes s))"
    using resolve_there[OF assms(1) t] t by (simp add: read_file_def found_def quiet_looking[OF assms(1)])
  then show ?thesis using assms(3) by (simp add: read_to_string_def then_do_def lift_result_def from_utf8_def)
qed

lemmas running = then_do_def map_error_def lift_result_def done_with_def

lemma read_saved:
  assumes "quiet fs" and "saved T x p fs" and "toml_ok T"
  obtains s where "read_to_string p fs = (fs, Ok s)" and "from_toml T s = Ok x"
  using assms(2,3) read_has[OF assms(1)] unfolding saved_def toml_ok_def by blast

lemma config_opens:
  assumes "quiet fs" and "node_at fs (ly_rustsync_dir (layout_new root)) = Some Folder"
    and "saved (se_config env) c (ly_config_path (layout_new root)) fs" and "toml_ok (se_config env)"
  shows "workspace_open env root fs = (fs, Ok \<lparr>wk_layout = layout_new root, wk_config = c\<rparr>)"
proof -
  obtain s where s: "read_to_string (ly_config_path (layout_new root)) fs = (fs, Ok s)" "from_toml (se_config env) s = Ok c"
    by (rule read_saved[OF assms(1,3,4)])
  show ?thesis
    by (simp add: workspace_open_def Let_def running exists_there[OF assms(1,2)] s)
qed

lemma key_loads:
  assumes "quiet fs" and "saved (se_keyring env) kr (ly_keyring_path (wk_layout wk)) fs" and "toml_ok (se_keyring env)"
    and "validate_key_id k = Ok ()" and "has fs (key_path (wk_layout wk) k) key" and "length key = WORKSPACE_KEY_SIZE"
  shows "workspace_load_key env wk k fs = (fs, Ok key)"
proof -
  obtain s where s: "read_to_string (ly_keyring_path (wk_layout wk)) fs = (fs, Ok s)" "from_toml (se_keyring env) s = Ok kr"
    by (rule read_saved[OF assms(1-3)])
  obtain b where b: "has fs (ly_keyring_path (wk_layout wk)) b" using assms(2) unfolding saved_def by blast
  have ring: "workspace_keyring env wk fs = (fs, Ok \<lparr>ky_keys_dir = ly_keys_dir (wk_layout wk), ky_registry_path = ly_keyring_path (wk_layout wk), ky_registry = kr\<rparr>)"
    by (simp add: workspace_keyring_def keyring_open_def running exists_has[OF assms(1) b] s)
  obtain t where t: "open_file (key_path (wk_layout wk) k) fs = (fs, Ok (RegularFile key t))" by (rule open_has[OF assms(1,5)])
  have "use_handle fs = (fs, Ok ())" using quiet_looking[OF assms(1)] by (simp add: use_handle_def)
  then have load: "load_workspace_key env (key_path (wk_layout wk) k) fs = (fs, Ok key)"
    using t assms(6) by (simp add: load_workspace_key_def running Let_def)
  have p: "keyring_key_path \<lparr>ky_keys_dir = ly_keys_dir (wk_layout wk), ky_registry_path = r, ky_registry = kr\<rparr> k = key_path (wk_layout wk) k" for r
    by (simp add: keyring_key_path_def key_path_def)
  show ?thesis
    by (simp add: workspace_load_key_def keyring_load_key_def running ring p assms(4) exists_has[OF assms(1,5)] Let_def load)
qed

lemma identity_loads:
  assumes "quiet fs" and "saved (se_identity env) i p fs" and "toml_ok (se_identity env)" and "validate_identity (se_crypto env) i = Ok ()"
  shows "load_local_device_identity env p fs = (fs, Ok (Some i))"
proof -
  obtain s where s: "read_to_string p fs = (fs, Ok s)" "from_toml (se_identity env) s = Ok i" by (rule read_saved[OF assms(1-3)])
  obtain b where b: "has fs p b" using assms(2) by (auto simp: saved_def)
  show ?thesis
    by (simp add: load_local_device_identity_def running exists_has[OF assms(1) b] s assms(4))
qed

lemma access_loads:
  assumes "quiet fs" and "saved (se_access env) st p fs" and "toml_ok (se_access env)" and "validate_state (se_cx env) st = Ok ()"
  shows "load_access_state env p fs = (fs, Ok (Some st))"
proof -
  obtain s where s: "read_to_string p fs = (fs, Ok s)" "from_toml (se_access env) s = Ok st" by (rule read_saved[OF assms(1-3)])
  obtain b where b: "has fs p b" using assms(2) by (auto simp: saved_def)
  show ?thesis
    by (simp add: load_access_state_def running exists_has[OF assms(1) b] s assms(4))
qed


section \<open>The property\<close>

lemma furnished_opens:
  assumes f: "furnished env (bootstrapped root w d k) key kr i rg st fs'" and later: "lf_nodes fs = lf_nodes fs'" "lf_faults fs = []"
    and laws: "toml_ok (se_config env)" "toml_ok (se_keyring env)" "toml_ok (se_identity env)" "toml_ok (se_access env)"
    and size: "length key = WORKSPACE_KEY_SIZE"
  shows "workspace_open env root fs = (fs, Ok (bootstrapped root w d k))"
    and "workspace_load_key env (bootstrapped root w d k) k fs = (fs, Ok key)"
    and "load_local_device_identity env (ly_device_identity_path (layout_new root)) fs = (fs, Ok (Some i))"
    and "load_access_state env (ly_access_control_path (layout_new root)) fs = (fs, Ok (Some st))"
proof -
  let ?wk = "bootstrapped root w d k" and ?ly = "layout_new root"
  note at = node_at_nodes[OF later(1)]
  have has: "has fs p b \<longleftrightarrow> has fs' p b" for p b by (simp add: has_def at)
  then have saved: "saved T x p fs \<longleftrightarrow> saved T x p fs'" for T :: "'t toml" and x p by (simp add: saved_def)
  have wk: "wk_layout ?wk = ?ly" "wc_default_key_id (wk_config ?wk) = k" by (simp_all add: bootstrapped_def)
  note f' = f[unfolded furnished_def Let_def wk]
  have quiet: "quiet fs" using f' later tree_ok_nodes[OF later(1)] by (simp add: quiet_def shop_def)
  have folder: "node_at fs (ly_rustsync_dir ?ly) = Some Folder" using f' at by (simp add: shop_def)
  have "workspace_open env root fs = (fs, Ok \<lparr>wk_layout = ?ly, wk_config = wk_config ?wk\<rparr>)"
    by (rule config_opens[OF quiet folder]) (use f' laws in \<open>auto simp: saved\<close>)
  then show "workspace_open env root fs = (fs, Ok ?wk)" by (simp add: bootstrapped_def)
  show "workspace_load_key env ?wk k fs = (fs, Ok key)"
    by (rule key_loads[OF quiet, where kr = kr]) (use f' laws has size wk in \<open>auto simp: saved\<close>)
  show "load_local_device_identity env (ly_device_identity_path ?ly) fs = (fs, Ok (Some i))"
    by (rule identity_loads[OF quiet]) (use f' laws in \<open>auto simp: saved\<close>)
  show "load_access_state env (ly_access_control_path ?ly) fs = (fs, Ok (Some st))"
    by (rule access_loads[OF quiet]) (use f' laws in \<open>auto simp: saved\<close>)
qed

lemma encrypted_decrypts:
  assumes "primitives_ok (se_crypto env)" and "workspace_load_key env wk (wc_default_key_id (wk_config wk)) fs = (fs, Ok key)"
    and "encrypt_bytes env nonce wk m fs = (fs, Ok ob)"
  shows "decrypt_file env wk ob fs = (fs, Ok m)"
proof -
  have e: "encrypt (se_crypto env) m (wc_default_key_id (wk_config wk)) key nonce = Ok ob"
    using assms(3) by (cases "encrypt (se_crypto env) m (wc_default_key_id (wk_config wk)) key nonce")
      (simp_all add: encrypt_bytes_def Let_def running assms(2))
  then have "eo_key_id ob = wc_default_key_id (wk_config wk)"
    by (auto simp: encrypt_def encrypted_object_new_def Let_def)
  then show ?thesis using decrypt_encrypt[OF assms(1) e] by (simp add: decrypt_file_def running assms(2))
qed

text \<open>
  Property C40: a workspace that was created opens.  Whatever calls failed on the way, when
  \<^verbatim>\<open>init_with_device_identity\<close> or \<^verbatim>\<open>bootstrap_with_key\<close> reports success, then opening the
  folder later gives the same workspace, its key file gives the key, the identity and the access state
  are the ones that were saved, valid ones, and what the workspace encrypts it decrypts.  TOML gives back
  what it was given, and the later calls do not fail by themselves.
\<close>

theorem created_workspace_opens:
  assumes "vacant root fs"
    and "init_with_device_identity env dw root i fs = (fs', Ok wk) \<and> key = dw_key dw
          \<and> initial_owner_access_state env dw (wk_workspace_id wk) i = Ok st
        \<or> bootstrap_with_key env now root i st k g key fs = (fs', Ok wk)"
    and "toml_ok (se_config env)" and "toml_ok (se_keyring env)" and "toml_ok (se_identity env)" and "toml_ok (se_access env)"
    and "primitives_ok (se_crypto env)" and "length key = WORKSPACE_KEY_SIZE"
    and "lf_nodes later = lf_nodes fs'" and "lf_faults later = []"
  shows "workspace_open env root later = (later, Ok wk)
    \<and> workspace_load_key env wk (wc_default_key_id (wk_config wk)) later = (later, Ok key)
    \<and> load_local_device_identity env (ly_device_identity_path (wk_layout wk)) later = (later, Ok (Some i))
    \<and> load_access_state env (ly_access_control_path (wk_layout wk)) later = (later, Ok (Some st))
    \<and> (\<forall>nonce m ob. encrypt_bytes env nonce wk m later = (later, Ok ob) \<longrightarrow> decrypt_file env wk ob later = (later, Ok m))"
proof -
  obtain w d k' kr rg where wk: "wk = bootstrapped root w d k'" and f: "furnished env wk key kr i rg st fs'"
    using assms(2)
  proof (elim disjE conjE, goal_cases)
    case 1
    from postD[OF init_post[OF assms(1)] 1(2)] obtain w k rg st' where
      wk: "wk = bootstrapped root w (di_device_id i) k" and "initial_owner_access_state env dw w i = Ok st'"
      and "furnished env wk (dw_key dw) (keyring_registry_insert (first_record k Shared (di_device_id i) 1 (dw_now dw)) keyring_registry_new) i rg st' fs'"
      by blast
    then show ?thesis using 1 by (auto simp: bootstrapped_def)
  next
    case 2
    from postD[OF bootstrap_post[OF assms(1)] 2(2)] 2(1) show ?thesis by auto
  qed
  note opens = furnished_opens[OF f[unfolded wk] assms(9,10,3-6,8), folded wk]
  have id: "wk_layout wk = layout_new root" "wc_default_key_id (wk_config wk) = k'" by (simp_all add: wk bootstrapped_def)
  have key: "workspace_load_key env wk (wc_default_key_id (wk_config wk)) later = (later, Ok key)" using opens(2) id by simp
  have "decrypt_file env wk ob later = (later, Ok m)" if "encrypt_bytes env nonce wk m later = (later, Ok ob)" for nonce m ob
    using encrypted_decrypts[OF assms(7) key that] .
  then show ?thesis using opens key id by simp
qed


lemma toml_of_ok: "toml_ok (toml_of v)"
  by (auto simp: toml_ok_def toml_of_def str_bytes_def split: if_splits)

text \<open>The sample device opens the workspace it bootstrapped, and what it encrypts it decrypts.\<close>

theorem created_workspace_opens_witness:
  "\<exists>fs. workspace_open sample_stores [''w''] fs = (fs, Ok (bootstrapped [''w''] sample_workspace (DeviceId ''device_b'') (KeyId ''k'')))
    \<and> load_access_state sample_stores (ly_access_control_path (layout_new [''w''])) fs = (fs, Ok (Some (sample_state 3)))"
proof -
  let ?wk = "bootstrapped [''w''] sample_workspace (DeviceId ''device_b'') (KeyId ''k'')"
  obtain fs' where run: "bootstrap_with_key sample_stores 0 [''w''] (sample_identity ''b'') (sample_state 3) (KeyId ''k'') 1 (replicate 32 7) sample_home
      = (fs', Ok ?wk)"
    using sample_bootstrap_ok unfolding sample_bootstrap_def by (metis prod.collapse)
  have laws: "toml_ok (se_config sample_stores)" "toml_ok (se_keyring sample_stores)" "toml_ok (se_identity sample_stores)"
      "toml_ok (se_access sample_stores)" "primitives_ok (se_crypto sample_stores)"
    by (simp_all add: sample_stores_def toml_of_ok sample_primitives_ok)
  have later: "lf_nodes (fs'\<lparr>lf_faults := []\<rparr>) = lf_nodes fs'" "lf_faults (fs'\<lparr>lf_faults := []\<rparr>) = []" by simp_all
  have size: "length (replicate 32 7 :: bytes) = WORKSPACE_KEY_SIZE" by (simp add: WORKSPACE_KEY_SIZE_def)
  have "wk_layout ?wk = layout_new [''w'']" by (simp add: bootstrapped_def)
  with created_workspace_opens[OF sample_home_vacant disjI2[OF run] laws size later] show ?thesis by auto
qed

end
