(* ===== verification/Spec2Isabelle.thy ===== *)
theory Spec2Isabelle
  imports Object_Frame Access_Props Reconcile_Props Storage_Props Server_Props Combine_Props Indexed_Props Key_Delivery Client_Props Sync_Props Local_Props Workspace_Opens
begin

text \<open>
  A verification library for rustsync, an end-to-end encrypted file synchronisation system written in
  Rust.  Devices keep a workspace (a folder with a \<^verbatim>\<open>.rustsync\<close> folder in it), describe its
  contents by a manifest, encrypt manifest and contents, and exchange them through a server that stores
  ciphertext, a head per workspace, an access state and sealed keys.

  \<^bold>\<open>The parts and how they interact.\<close>  The protocol crate holds the data both sides agree on:
  identifiers, manifests, the RSOB frame of an encrypted object, device records, join requests, key
  envelopes, signed access events with the state machine they drive, HTTP routes and the signature of a
  request.  The server authenticates a request against the access state, remembers its nonce, and runs a
  handler over a storage back end; files, or files with an SQLite catalogue.  The client builds and signs the
  requests.  The core crate plans a reconciliation of two manifests against their common base, seals and
  opens keys, and works on the local tree; the command line crate combines these into push, pull and sync.

  \<^bold>\<open>Theories, by the code they model\<close> (paths under \<^verbatim>\<open>src/crates\<close>; definitions keep the names of the
  code, with a prefix where two items have the same name, such as \<^verbatim>\<open>fs_\<close> and \<^verbatim>\<open>db_\<close>
  for the methods of the two back ends or \<^verbatim>\<open>cl_\<close> for the calls of the client):
  \<^item> shared: \<^verbatim>\<open>Prelude\<close> (results, strings as UTF-8 bytes, words, ordered maps), \<^verbatim>\<open>Stateful\<close>
    (fallible operations on a state, and rules for what they leave), \<^verbatim>\<open>Decimal\<close>, \<^verbatim>\<open>Core_Errors\<close>,
    \<^verbatim>\<open>Samples\<close> (concrete devices and histories for the witnesses);
  \<^item> rustsync-protocol: \<^verbatim>\<open>Ids\<close> (\<^verbatim>\<open>id/\<close>), \<^verbatim>\<open>Manifest\<close>, \<^verbatim>\<open>Object_Frame\<close> (\<^verbatim>\<open>object/\<close>),
    \<^verbatim>\<open>Device\<close> (\<^verbatim>\<open>device/\<close>, \<^verbatim>\<open>object/envelope.rs\<close>), \<^verbatim>\<open>Access_Event\<close> and \<^verbatim>\<open>Access_State\<close>
    (\<^verbatim>\<open>access/\<close>) with \<^verbatim>\<open>Access_Invariant\<close>, \<^verbatim>\<open>Access_Step\<close>, \<^verbatim>\<open>Access_Spec\<close>,
    \<^verbatim>\<open>Access_Props\<close>; \<^verbatim>\<open>Routes\<close> (\<^verbatim>\<open>api/\<close>), \<^verbatim>\<open>Http_Auth\<close> (\<^verbatim>\<open>auth/\<close>);
  \<^item> rustsync-server: \<^verbatim>\<open>Server_Error\<close>, \<^verbatim>\<open>Server_Auth\<close> (\<^verbatim>\<open>auth/\<close>), \<^verbatim>\<open>Server_Api\<close>
    (\<^verbatim>\<open>api/\<close>, \<^verbatim>\<open>app.rs\<close>), \<^verbatim>\<open>Storage\<close> (the trait, as the locale \<^verbatim>\<open>storage\<close>),
    \<^verbatim>\<open>File_System\<close>, \<^verbatim>\<open>Storage_Paths\<close>, \<^verbatim>\<open>Fs_Storage\<close> (\<^verbatim>\<open>storage/fs.rs\<close>,
    \<^verbatim>\<open>atomic.rs\<close>, \<^verbatim>\<open>paths.rs\<close>), \<^verbatim>\<open>Sqlite_Db\<close>, \<^verbatim>\<open>Sqlite_Open\<close>, \<^verbatim>\<open>Indexed_Fs\<close>
    (\<^verbatim>\<open>storage/sqlite.rs\<close>, \<^verbatim>\<open>indexed_fs.rs\<close>); proofs in \<^verbatim>\<open>Fs_Contract\<close>,
    \<^verbatim>\<open>Indexed_Contract\<close>, \<^verbatim>\<open>Indexed_Catalogue\<close>, \<^verbatim>\<open>Store_Spec\<close>, \<^verbatim>\<open>Server_Contract\<close> and the
    theories named \<^verbatim>\<open>_Props\<close>;
  \<^item> rustsync-client: \<^verbatim>\<open>Client\<close>, with \<^verbatim>\<open>Client_Props\<close>;
  \<^item> rustsync-core: \<^verbatim>\<open>Reconcile\<close> (\<^verbatim>\<open>reconciliation.rs\<close>, \<^verbatim>\<open>manifest/diff.rs\<close>), \<^verbatim>\<open>Key_Delivery\<close>
    (\<^verbatim>\<open>device/\<close>, \<^verbatim>\<open>access/envelope.rs\<close>, \<^verbatim>\<open>encryption.rs\<close>), \<^verbatim>\<open>Local_Tree\<close> and \<^verbatim>\<open>Local_Engine\<close>
    (\<^verbatim>\<open>workspace/local_engine.rs\<close>, \<^verbatim>\<open>ignore.rs\<close>, \<^verbatim>\<open>layout.rs\<close>, \<^verbatim>\<open>manifest/builder.rs\<close>,
    \<^verbatim>\<open>manifest/store.rs\<close>) with \<^verbatim>\<open>Local_Facts\<close>, \<^verbatim>\<open>Local_Apply\<close>, \<^verbatim>\<open>Local_Pull\<close>,
    \<^verbatim>\<open>Local_Props\<close>; \<^verbatim>\<open>Local_Stores\<close> (\<^verbatim>\<open>keyring/\<close>, \<^verbatim>\<open>access/store.rs\<close>,
    \<^verbatim>\<open>device/store.rs\<close>) and \<^verbatim>\<open>Local_Workspace\<close> (\<^verbatim>\<open>workspace/mod.rs\<close>) with
    \<^verbatim>\<open>Stores_Facts\<close>, \<^verbatim>\<open>Workspace_Props\<close>, \<^verbatim>\<open>Workspace_Opens\<close>;
  \<^item> rustsync-cli: \<^verbatim>\<open>Combine\<close> and \<^verbatim>\<open>Sync_Workflow\<close> (\<^verbatim>\<open>sync_workflow.rs\<close>,
    \<^verbatim>\<open>sync_workflow/transfer.rs\<close>) with \<^verbatim>\<open>Combine_Props\<close> and \<^verbatim>\<open>Sync_Props\<close>.

  \<^bold>\<open>How state and failure are modelled.\<close>  A method that may fail is a function from the state to the
  state left behind and a result, so that what a failed call leaves is part of every claim.  The file systems
  and the database carry a list of faults to come: any call may fail, and a write or a removal may stop in
  its middle.  Requests run one at a time, which is what the per-workspace locks of the server give.
  Integers of the code are words of their width.  Ordered maps are sorted association lists.

  \<^bold>\<open>What the lemmas show.\<close>
  \<^item> Access: every reachable state satisfies the invariant the code validates, an event is accepted exactly
    when an abstract model of roles and grants allows it, a removed device stays without rights, and what is
    signed determines the event.
  \<^item> Frames, routes, headers and signatures are read back exactly as written, and no two requests, events,
    join requests or envelopes share a signed payload.
  \<^item> The middleware lets only authenticated requests of permitted devices reach a handler; the replay cache
    is characterised exactly, and the case in which it forgets a nonce too early is a theorem of its own.
  \<^item> Both back ends meet one storage contract under all faults (the locale \<^verbatim>\<open>storage\<close> with its
    interpretations), and over any such back end the server (the locale \<^verbatim>\<open>service\<close>) refines the step
    relation of \<^verbatim>\<open>Store_Spec\<close>: content is never lost, the head moves forward, the catalogue agrees with
    the files.
  \<^item> A reconciliation plan is the one a declarative description gives, keeps both sides' changes, and is
    symmetric; the combination made from it is a valid tree that loses nothing.
  \<^item> What a sync or a pull gives to the working tree decrypts under the workspace's key from what the server
    was asked for, and a pull after a push gives what was pushed.
  \<^item> Applying a manifest to the tree touches nothing outside the workspace, leaves no torn file under any
    fault, and when it succeeds every entry is in place.
  \<^item> A bootstrap makes the whole \<^verbatim>\<open>.rustsync\<close> folder or undoes what it made, and a workspace that was
    created opens again with the same key, identity and access state.

  \<^bold>\<open>Fuel and termination.\<close>  Loops over lists are structural.  The walks over folders
  (\<^verbatim>\<open>build_walk\<close>, \<^verbatim>\<open>collect_workspace_paths\<close>) have as fuel one more than the number of nodes, which no chain
  of folders exceeds; a lookup follows at most forty links, as the operating system does.  The search for a free name of
  a conflict copy is shown to end at the first free candidate.

  \<^bold>\<open>Parameters.\<close>  Third-party code is an argument: hashing, signatures and ciphers, base64, random values,
  serde's JSON and TOML, the network of the client, the compiler of ignore rules.  What the code relies on (a signature that verifies was made by
  the key, decoding inverts encoding, a hash has 32 bytes) is a hypothesis of the theorems that need it, and
  each such theorem has a witness at concrete functions.

  \<^bold>\<open>Not modelled.\<close>  The command line (argument parsing by clap, prompts and printed reports), the
  reading of configurations, the start of the server process, the clock conversions of \<^verbatim>\<open>time.rs\<close>, file
  permissions and hard links, and the progress callback of sync: they decide nothing the parts above rely on.
\<close>

end
